(* ===== verification/Prelude.thy ===== *)
theory Prelude
  imports Main "HOL-Library.Word" "HOL-Library.List_Lexorder" "HOL-Library.Char_ord"
    "HOL-Library.Multiset"
begin

text \<open>
  Shared vocabulary of the development: the scalar types of the program, the four shapes of
  relational write statement that the program's SQL uses (insert, insert or ignore, insert or
  update, update where), and the generic facts about them that the component theories use.

  A table is a list of rows. Its primary key or unique constraint is a function from rows to
  keys; the statements are parametrised by that function.
\<close>

section \<open>Scalars\<close>

text \<open>
  A UUID is an opaque identifier. An instant (\<^verbatim>\<open>DateTime<Utc>\<close>, \<^verbatim>\<open>timestamptz\<close>) is a number of
  microseconds since the Unix epoch, the resolution of the database columns. A text is the list of its
  UTF-8 bytes, each as a character code; \<open>as_bytes\<close> reads it as octets (\<^verbatim>\<open>str::as_bytes\<close>).
\<close>

type_synonym uuid = nat
type_synonym time = int
type_synonym u32 = "32 word"

definition i32_max :: int where
  "i32_max = 2147483647"

definition as_bytes :: "string \<Rightarrow> 8 word list" where
  "as_bytes s = map (\<lambda>c. of_nat (of_char c)) s"

lemma as_bytes_inj: "inj as_bytes"
proof -
  have "inj (\<lambda>c. of_nat (of_char c) :: 8 word)"
  proof (rule injI)
    fix c c' :: char assume "(of_nat (of_char c) :: 8 word) = of_nat (of_char c')"
    then have "of_char c mod 256 = (of_char c' mod 256 :: nat)"
      by (simp add: word_of_nat_eq_iff take_bit_eq_mod)
    then show "c = c'" by (simp add: of_char_mod_256)
  qed
  then show ?thesis by (simp add: as_bytes_def [abs_def])
qed

lemma length_as_bytes [simp]: "length (as_bytes s) = length s"
  by (simp add: as_bytes_def)

definition fits_i32 :: "int \<Rightarrow> bool" where
  "fits_i32 n \<longleftrightarrow> - 2147483648 \<le> n \<and> n \<le> i32_max"

section \<open>Proof collections\<close>

text \<open>
  \<open>io_run\<close> inverts a successful run of a database program; \<open>sql_defs\<close> holds the definitions of the
  single statements that the components unfold.
\<close>

named_theorems io_run
named_theorems sql_defs

section \<open>Write statements on a table\<close>

definition insert_unique :: "('r \<Rightarrow> 'k) \<Rightarrow> 'r \<Rightarrow> 'r list \<Rightarrow> 'r list option" where
  "insert_unique key new xs =
     (if key new \<in> key ` set xs then None else Some (xs @ [new]))"

definition insert_ignore :: "('r \<Rightarrow> 'k) \<Rightarrow> 'r \<Rightarrow> 'r list \<Rightarrow> 'r list" where
  "insert_ignore key new xs = (if key new \<in> key ` set xs then xs else xs @ [new])"

definition upsert :: "('r \<Rightarrow> 'k) \<Rightarrow> ('r \<Rightarrow> 'r \<Rightarrow> 'r) \<Rightarrow> 'r \<Rightarrow> 'r list \<Rightarrow> 'r list" where
  "upsert key merge new xs =
     (if key new \<in> key ` set xs
      then map (\<lambda>r. if key r = key new then merge new r else r) xs
      else xs @ [new])"

definition update_where :: "('r \<Rightarrow> bool) \<Rightarrow> ('r \<Rightarrow> 'r) \<Rightarrow> 'r list \<Rightarrow> 'r list" where
  "update_where p f xs = map (\<lambda>r. if p r then f r else r) xs"

definition select_one :: "('r \<Rightarrow> bool) \<Rightarrow> 'r list \<Rightarrow> 'r option" where
  "select_one p xs = find p xs"

definition keyed_by :: "('r \<Rightarrow> 'k) \<Rightarrow> 'r list \<Rightarrow> bool" where
  "keyed_by key xs \<longleftrightarrow> distinct (map key xs)"

lemma keyed_by_Nil [simp]: "keyed_by key []"
  by (simp add: keyed_by_def)

lemma keyed_by_snoc:
  "keyed_by key (xs @ [x]) \<longleftrightarrow> keyed_by key xs \<and> key x \<notin> key ` set xs"
  by (auto simp: keyed_by_def)

lemma keyed_by_inj:
  "keyed_by key xs \<Longrightarrow> x \<in> set xs \<Longrightarrow> y \<in> set xs \<Longrightarrow> key x = key y \<Longrightarrow> x = y"
  by (auto simp: keyed_by_def distinct_map dest: inj_onD)

lemma insert_unique_Some:
  "insert_unique key new xs = Some ys \<longleftrightarrow> key new \<notin> key ` set xs \<and> ys = xs @ [new]"
  by (auto simp: insert_unique_def)

lemma insert_unique_keyed:
  "insert_unique key new xs = Some ys \<Longrightarrow> keyed_by key xs \<Longrightarrow> keyed_by key ys"
  by (auto simp: insert_unique_Some keyed_by_snoc)

lemma insert_ignore_keyed: "keyed_by key xs \<Longrightarrow> keyed_by key (insert_ignore key new xs)"
  by (simp add: insert_ignore_def keyed_by_snoc)

lemma set_insert_ignore_subset: "set xs \<subseteq> set (insert_ignore key new xs)"
  by (auto simp: insert_ignore_def)

lemma key_in_insert_ignore: "key new \<in> key ` set (insert_ignore key new xs)"
  by (simp add: insert_ignore_def)

lemma insert_ignore_idem:
  "insert_ignore key new (insert_ignore key new xs) = insert_ignore key new xs"
  by (simp add: insert_ignore_def)

lemma insert_ignore_keys:
  "key ` set (insert_ignore key new xs) = insert (key new) (key ` set xs)"
  by (auto simp: insert_ignore_def)

lemma set_update_where: "set (update_where p f xs) = f ` {r \<in> set xs. p r} \<union> {r \<in> set xs. \<not> p r}"
  by (auto simp: update_where_def)

lemma update_where_hit: "r \<in> set xs \<Longrightarrow> p r \<Longrightarrow> f r \<in> set (update_where p f xs)"
  by (auto simp: set_update_where)

lemma update_where_none: "(\<And>r. r \<in> set xs \<Longrightarrow> \<not> p r) \<Longrightarrow> update_where p f xs = xs"
  by (simp add: update_where_def map_idI)

lemma map_update_where:
  "(\<And>r. r \<in> set xs \<Longrightarrow> p r \<Longrightarrow> g (f r) = g r) \<Longrightarrow> map g (update_where p f xs) = map g xs"
  by (simp add: update_where_def)

lemma update_where_keyed:
  "keyed_by key xs \<Longrightarrow> (\<And>r. r \<in> set xs \<Longrightarrow> p r \<Longrightarrow> key (f r) = key r)
    \<Longrightarrow> keyed_by key (update_where p f xs)"
  by (simp add: keyed_by_def map_update_where)

lemma select_one_Some: "select_one p xs = Some r \<Longrightarrow> r \<in> set xs \<and> p r"
  by (auto simp: select_one_def find_Some_iff)

lemma select_one_None: "select_one p xs = None \<longleftrightarrow> (\<forall>r \<in> set xs. \<not> p r)"
  by (auto simp: select_one_def find_None_iff)

lemma select_one_update_where:
  "(\<And>r. r \<in> set xs \<Longrightarrow> q r \<Longrightarrow> p (f r) = p r) \<Longrightarrow>
     select_one p (update_where q f xs) = map_option (\<lambda>r. if q r then f r else r) (select_one p xs)"
  by (induction xs) (auto simp: select_one_def update_where_def)

lemma select_one_append:
  "select_one p (xs @ ys) = (case select_one p xs of None \<Rightarrow> select_one p ys | Some r \<Rightarrow> Some r)"
  by (induction xs) (auto simp: select_one_def)

lemma filter_keyed_one:
  "keyed_by key xs \<Longrightarrow> x \<in> set xs \<Longrightarrow> p x \<Longrightarrow> (\<And>y. p y \<Longrightarrow> key y = key x) \<Longrightarrow> filter p xs = [x]"
proof (induction xs)
  case (Cons a xs)
  show ?case
  proof (cases "x = a")
    case True
    have "\<not> p y" if "y \<in> set xs" for y
    proof
      assume "p y"
      with Cons.prems(4) True have "key y = key a" by simp
      with Cons.prems(1) that show False by (metis keyed_by_def distinct.simps(2) image_eqI list.map(2) set_map)
    qed
    with True Cons.prems(3) show ?thesis by (simp add: filter_empty_conv)
  next
    case False
    with Cons.prems(1,2) have x: "x \<in> set xs" "key a \<noteq> key x" by (auto simp: keyed_by_def)
    with Cons.prems(4) [of a] have "\<not> p a" by auto
    moreover have "filter p xs = [x]" using Cons.prems(1) by (intro Cons.IH x(1) Cons.prems(3,4)) (simp_all add: keyed_by_def)
    ultimately show ?thesis by simp
  qed
qed simp

lemma select_one_keyed:
  "keyed_by key xs \<Longrightarrow> r \<in> set xs \<Longrightarrow> select_one (\<lambda>x. key x = key r) xs = Some r"
  unfolding select_one_def
proof (induction xs)
  case (Cons x xs)
  then show ?case
    by (auto simp: keyed_by_def image_iff)
qed simp

section \<open>Insert-or-update on a keyed table\<close>

text \<open>
  The contract of \<^verbatim>\<open>insert ... on conflict (key) do update\<close>: the update clause never writes the
  conflict key. Everything a client relies on follows: the key stays unique, the row of the new
  key is the inserted or merged one, rows of other keys are untouched.
\<close>

locale keyed_upsert =
  fixes key :: "'r \<Rightarrow> 'k" and merge :: "'r \<Rightarrow> 'r \<Rightarrow> 'r"
  assumes key_merge: "key (merge new old) = key old"
begin

lemma map_key_upsert:
  "map key (upsert key merge new xs) =
     (if key new \<in> key ` set xs then map key xs else map key xs @ [key new])"
  by (simp add: upsert_def key_merge)

lemma upsert_keyed: "keyed_by key xs \<Longrightarrow> keyed_by key (upsert key merge new xs)"
  by (simp add: keyed_by_def map_key_upsert)

lemma keys_upsert: "key ` set (upsert key merge new xs) = insert (key new) (key ` set xs)"
proof -
  have "set (map key (upsert key merge new xs)) = insert (key new) (key ` set xs)"
    by (subst map_key_upsert) auto
  then show ?thesis by simp
qed

lemma upsert_other:
  "key r \<noteq> key new \<Longrightarrow> r \<in> set (upsert key merge new xs) \<longleftrightarrow> r \<in> set xs"
  by (auto simp: upsert_def key_merge)

lemma upsert_cases:
  "r \<in> set (upsert key merge new xs) \<Longrightarrow>
     r \<in> set xs \<and> key r \<noteq> key new \<or> r = new \<and> key new \<notin> key ` set xs
     \<or> (\<exists>old \<in> set xs. key old = key new \<and> r = merge new old)"
  by (cases "key new \<in> key ` set xs") (auto simp: upsert_def intro: rev_image_eqI)

lemma upsert_hit:
  "old \<in> set xs \<Longrightarrow> key old = key new \<Longrightarrow> merge new old \<in> set (upsert key merge new xs)"
  by (auto simp: upsert_def intro: rev_image_eqI)

lemma upsert_miss: "key new \<notin> key ` set xs \<Longrightarrow> upsert key merge new xs = xs @ [new]"
  by (simp add: upsert_def)

end

section \<open>Lists\<close>

lemma sorted_list_unique_key:
  assumes "mset xs = mset ys" and "sorted (map f xs)" and "sorted (map f ys)"
    and "distinct (map f xs)"
  shows "xs = ys"
proof -
  have keys: "map f xs = map f ys"
    using assms by (metis mset_map properties_for_sort sort_key_id_if_sorted sorted_sort_id)
  have inj: "inj_on f (set xs \<union> set ys)"
    using assms(1,4) by (metis distinct_map mset_eq_setD sup.idem)
  show ?thesis
    using keys inj by (metis map_inj_on Un_commute)
qed

lemma sort_key_perm_unique:
  assumes "mset xs = mset ys" and "distinct (map f xs)"
  shows "sort_key f xs = sort_key f ys"
proof (rule sorted_list_unique_key [where f = f])
  show "mset (sort_key f xs) = mset (sort_key f ys)" using assms(1) by simp
  show "distinct (map f (sort_key f xs))"
    using assms(2) by (simp add: distinct_map)
qed simp_all

lemma strict_sorted_remdups_adj:
  fixes xs :: "'a::linorder list"
  shows "sorted xs \<Longrightarrow> sorted_wrt (<) (remdups_adj xs)"
proof (induction xs rule: remdups_adj.induct)
  case (3 x y xs)
  have "\<forall>z \<in> set (y # xs). x < z" if "x \<noteq> y"
    using "3.prems" that by (auto simp: order.strict_iff_order dest: order.trans order.antisym)
  with 3 show ?case by auto
qed simp_all

end
