(* ===== verification/World.thy ===== *)
theory World
  imports Prelude
begin

text \<open>
  The outside of the program and the programs that talk to it. A program step is a database
  statement, a transaction boundary, a clock reading or a fresh identifier. The environment is a
  schedule indexed by the number of steps taken so far: it decides which statements fail, what
  the clock shows and which identifiers are generated. Every theorem holds for every schedule.

  \<open>io\<close> is the type of an asynchronous Rust function returning \<^verbatim>\<open>Result<T, E>\<close>: it maps a world to a
  result and the world it leaves behind. \<open>transaction\<close> is \<^verbatim>\<open>pool.begin()\<close>, the body and
  \<^verbatim>\<open>commit()\<close>: any failure, of the body or of the commit, drops the transaction and leaves the
  database as it was.
\<close>

section \<open>Worlds\<close>

record schedule =
  faults :: "nat \<Rightarrow> bool"
  clock :: "nat \<Rightarrow> time"
  uuids :: "nat \<Rightarrow> nat \<Rightarrow> uuid"

record 'd world =
  db :: 'd
  tick :: nat
  sched :: schedule
  txn_at :: "time option"

type_synonym ('d, 'e, 'a) io = "'d world \<Rightarrow> ('e + 'a) \<times> 'd world"

definition advance :: "'d world \<Rightarrow> 'd world" where
  "advance w = w\<lparr>tick := Suc (tick w)\<rparr>"

definition fault_now :: "'d world \<Rightarrow> bool" where
  "fault_now w \<longleftrightarrow> faults (sched w) (tick w)"

text \<open>The database's \<^verbatim>\<open>now()\<close>: the start of the open transaction, else of the statement.\<close>

definition db_now :: "'d world \<Rightarrow> time" where
  "db_now w = (case txn_at w of Some t \<Rightarrow> t | None \<Rightarrow> clock (sched w) (tick w))"

section \<open>Programs\<close>

definition ret :: "'a \<Rightarrow> ('d, 'e, 'a) io" where
  "ret x w = (Inr x, w)"

definition throw :: "'e \<Rightarrow> ('d, 'e, 'a) io" where
  "throw e w = (Inl e, w)"

definition bind_io :: "('d, 'e, 'a) io \<Rightarrow> ('a \<Rightarrow> ('d, 'e, 'b) io) \<Rightarrow> ('d, 'e, 'b) io" where
  "bind_io m k w = (case m w of (Inl e, w') \<Rightarrow> (Inl e, w') | (Inr x, w') \<Rightarrow> k x w')"

definition then_io :: "('d, 'e, 'a) io \<Rightarrow> ('d, 'e, 'b) io \<Rightarrow> ('d, 'e, 'b) io" where
  "then_io m k = bind_io m (\<lambda>_. k)"

definition map_err :: "('e \<Rightarrow> 'f) \<Rightarrow> ('d, 'e, 'a) io \<Rightarrow> ('d, 'f, 'a) io" where
  "map_err f m w = (case m w of (Inl e, w') \<Rightarrow> (Inl (f e), w') | (Inr x, w') \<Rightarrow> (Inr x, w'))"

text \<open>\<open>attempt m\<close> hands the \<^verbatim>\<open>Result\<close> to the caller, as \<^verbatim>\<open>match\<close> and \<^verbatim>\<open>if let Err\<close> do.\<close>

definition attempt :: "('d, 'e, 'a) io \<Rightarrow> ('d, 'f, 'e + 'a) io" where
  "attempt m w = (case m w of (r, w') \<Rightarrow> (Inr r, w'))"

definition of_result :: "'e + 'a \<Rightarrow> ('d, 'e, 'a) io" where
  "of_result r w = (r, w)"

definition read_clock :: "('d, 'e, time) io" where
  "read_clock w = (Inr (clock (sched w) (tick w)), advance w)"

definition new_uuid :: "('d, 'e, uuid) io" where
  "new_uuid w = (Inr (uuids (sched w) (tick w) 0), advance w)"

text \<open>
  One SQL statement. The body gets the database's \<^verbatim>\<open>now()\<close> and the identifiers its row defaults
  draw; \<open>None\<close> is a violated constraint or a missing row where one is required.
\<close>

definition sql ::
  "'e \<Rightarrow> (time \<Rightarrow> (nat \<Rightarrow> uuid) \<Rightarrow> 'd \<Rightarrow> ('a \<times> 'd) option) \<Rightarrow> ('d, 'e, 'a) io" where
  "sql err f w =
     (if fault_now w then (Inl err, advance w)
      else case f (db_now w) (uuids (sched w) (tick w)) (db w) of
             None \<Rightarrow> (Inl err, advance w)
           | Some (x, d) \<Rightarrow> (Inr x, (advance w)\<lparr>db := d\<rparr>))"

definition query :: "'e \<Rightarrow> ('d \<Rightarrow> 'a) \<Rightarrow> ('d, 'e, 'a) io" where
  "query err f = sql err (\<lambda>now u d. Some (f d, d))"

definition exec :: "'e \<Rightarrow> ('d \<Rightarrow> 'd) \<Rightarrow> ('d, 'e, unit) io" where
  "exec err f = sql err (\<lambda>now u d. Some ((), f d))"

definition transaction :: "'e \<Rightarrow> ('d, 'e, 'a) io \<Rightarrow> ('d, 'e, 'a) io" where
  "transaction err body w =
     (if fault_now w then (Inl err, advance w)
      else case body ((advance w)\<lparr>txn_at := Some (clock (sched w) (tick w))\<rparr>) of
             (Inl e, w') \<Rightarrow> (Inl e, w'\<lparr>db := db w, txn_at := txn_at w\<rparr>)
           | (Inr x, w') \<Rightarrow>
               if fault_now w' then (Inl err, (advance w')\<lparr>db := db w, txn_at := txn_at w\<rparr>)
               else (Inr x, (advance w')\<lparr>txn_at := txn_at w\<rparr>))"

text \<open>A transaction whose body decides between \<^verbatim>\<open>commit()\<close> and \<^verbatim>\<open>rollback()\<close>.\<close>

datatype 'a txn_end = Commit 'a | Rollback 'a

definition transact :: "'e \<Rightarrow> ('d, 'e, 'a txn_end) io \<Rightarrow> ('d, 'e, 'a) io" where
  "transact err body w =
     (if fault_now w then (Inl err, advance w)
      else case body ((advance w)\<lparr>txn_at := Some (clock (sched w) (tick w))\<rparr>) of
             (Inl e, w') \<Rightarrow> (Inl e, w'\<lparr>db := db w, txn_at := txn_at w\<rparr>)
           | (Inr (Rollback x), w') \<Rightarrow>
               (if fault_now w' then Inl err else Inr x,
                (advance w')\<lparr>db := db w, txn_at := txn_at w\<rparr>)
           | (Inr (Commit x), w') \<Rightarrow>
               if fault_now w' then (Inl err, (advance w')\<lparr>db := db w, txn_at := txn_at w\<rparr>)
               else (Inr x, (advance w')\<lparr>txn_at := txn_at w\<rparr>))"

primrec for_each :: "('a \<Rightarrow> ('d, 'e, unit) io) \<Rightarrow> 'a list \<Rightarrow> ('d, 'e, unit) io" where
  "for_each f [] = ret ()"
| "for_each f (x # xs) = then_io (f x) (for_each f xs)"

primrec fold_io :: "('a \<Rightarrow> 's \<Rightarrow> ('d, 'e, 's) io) \<Rightarrow> 'a list \<Rightarrow> 's \<Rightarrow> ('d, 'e, 's) io" where
  "fold_io f [] s = ret s"
| "fold_io f (x # xs) s = bind_io (f x s) (fold_io f xs)"

lemmas io_defs = ret_def throw_def bind_io_def then_io_def map_err_def attempt_def of_result_def
  read_clock_def new_uuid_def sql_def query_def exec_def transaction_def transact_def

lemma advance_simps [simp]:
  "db (advance w) = db w" "tick (advance w) = Suc (tick w)" "sched (advance w) = sched w"
  "txn_at (advance w) = txn_at w"
  by (simp_all add: advance_def)

section \<open>Inverting a successful run\<close>

lemma ret_Inr [io_run]: "ret x w = (Inr y, w') \<longleftrightarrow> y = x \<and> w' = w"
  by (auto simp: ret_def)

lemma throw_Inr [io_run]: "throw e w = (Inr y, w') \<longleftrightarrow> False"
  by (simp add: throw_def)

lemma bind_io_Inr [io_run]:
  "bind_io m k w = (Inr y, w') \<longleftrightarrow> (\<exists>x w1. m w = (Inr x, w1) \<and> k x w1 = (Inr y, w'))"
  by (auto simp: bind_io_def split: prod.splits sum.splits)

lemma then_io_Inr [io_run]:
  "then_io m k w = (Inr y, w') \<longleftrightarrow> (\<exists>x w1. m w = (Inr x, w1) \<and> k w1 = (Inr y, w'))"
  by (simp add: then_io_def bind_io_Inr)

lemma map_err_Inr [io_run]: "map_err f m w = (Inr y, w') \<longleftrightarrow> m w = (Inr y, w')"
  by (auto simp: map_err_def split: prod.splits sum.splits)

lemma attempt_Inr [io_run]: "attempt m w = (Inr r, w') \<longleftrightarrow> m w = (r, w')"
  by (auto simp: attempt_def split: prod.splits)

lemma of_result_Inr [io_run]: "of_result r w = (Inr y, w') \<longleftrightarrow> r = Inr y \<and> w' = w"
  by (auto simp: of_result_def)

lemma read_clock_Inr [io_run]:
  "read_clock w = (Inr t, w') \<longleftrightarrow> t = clock (sched w) (tick w) \<and> w' = advance w"
  by (auto simp: read_clock_def)

lemma new_uuid_Inr [io_run]:
  "new_uuid w = (Inr u, w') \<longleftrightarrow> u = uuids (sched w) (tick w) 0 \<and> w' = advance w"
  by (auto simp: new_uuid_def)

lemma sql_Inr [io_run]:
  "sql err f w = (Inr x, w') \<longleftrightarrow>
     \<not> fault_now w \<and> (\<exists>d. f (db_now w) (uuids (sched w) (tick w)) (db w) = Some (x, d)
       \<and> w' = (advance w)\<lparr>db := d\<rparr>)"
  by (auto simp: sql_def split: option.splits)

lemma query_Inr [io_run]:
  "query err f w = (Inr x, w') \<longleftrightarrow> \<not> fault_now w \<and> x = f (db w) \<and> w' = advance w"
  by (auto simp: query_def sql_def advance_def)

lemma exec_Inr [io_run]:
  "exec err f w = (Inr x, w') \<longleftrightarrow> \<not> fault_now w \<and> w' = (advance w)\<lparr>db := f (db w)\<rparr>"
  by (auto simp: exec_def sql_def)

lemma transaction_Inr [io_run]:
  "transaction err body w = (Inr x, w') \<longleftrightarrow>
     \<not> fault_now w \<and>
     (\<exists>w1. body ((advance w)\<lparr>txn_at := Some (clock (sched w) (tick w))\<rparr>) = (Inr x, w1)
        \<and> \<not> fault_now w1 \<and> w' = (advance w1)\<lparr>txn_at := txn_at w\<rparr>)"
  by (auto simp: transaction_def split: prod.splits sum.splits if_splits)

lemma transaction_Inl_db: "transaction err body w = (Inl e, w') \<Longrightarrow> db w' = db w"
  by (auto simp: transaction_def split: prod.splits sum.splits if_splits)

lemma transact_Inr [io_run]:
  "transact err body w = (Inr x, w') \<longleftrightarrow>
     \<not> fault_now w \<and>
     (\<exists>r w1. body ((advance w)\<lparr>txn_at := Some (clock (sched w) (tick w))\<rparr>) = (Inr r, w1)
        \<and> \<not> fault_now w1 \<and>
        (r = Commit x \<and> w' = (advance w1)\<lparr>txn_at := txn_at w\<rparr>
         \<or> r = Rollback x \<and> w' = (advance w1)\<lparr>db := db w, txn_at := txn_at w\<rparr>))"
  by (auto simp: transact_def split: prod.splits sum.splits if_splits txn_end.splits)

lemma transact_Inl_db: "transact err body w = (Inl e, w') \<Longrightarrow> db w' = db w"
  by (auto simp: transact_def split: prod.splits sum.splits if_splits txn_end.splits)

lemma bind_attempt: "m w = (r, w1) \<Longrightarrow> bind_io (attempt m) k w = k r w1"
  by (simp add: bind_io_def attempt_def)

lemma bind_read_clock: "bind_io read_clock k w = k (clock (sched w) (tick w)) (advance w)"
  by (simp add: bind_io_def read_clock_def)

section \<open>The frame calculus\<close>

text \<open>
  \<open>within R m\<close>: whatever the result of \<open>m\<close>, the database it leaves is related to the database it
  found. For a reflexive and transitive \<open>R\<close> the notion passes through every program combinator,
  transactions included, so a component proves it by showing it of its single statements.
\<close>

definition within :: "('d \<Rightarrow> 'd \<Rightarrow> bool) \<Rightarrow> ('d, 'e, 'a) io \<Rightarrow> bool" where
  "within R m \<longleftrightarrow> (\<forall>w. R (db w) (db (snd (m w))))"

lemma withinD: "within R m \<Longrightarrow> m w = (r, w') \<Longrightarrow> R (db w) (db w')"
  by (metis within_def snd_conv)

locale frame =
  fixes R :: "'d \<Rightarrow> 'd \<Rightarrow> bool"
  assumes frame_refl: "R d d"
    and frame_trans: "R d d' \<Longrightarrow> R d' d'' \<Longrightarrow> R d d''"
begin

lemma within_ret: "within R (ret x)"
  by (simp add: within_def ret_def frame_refl)

lemma within_throw: "within R (throw e)"
  by (simp add: within_def throw_def frame_refl)

lemma within_of_result: "within R (of_result r)"
  by (simp add: within_def of_result_def frame_refl)

lemma within_read_clock: "within R read_clock"
  by (simp add: within_def read_clock_def frame_refl)

lemma within_new_uuid: "within R new_uuid"
  by (simp add: within_def new_uuid_def frame_refl)

lemma within_bind: "within R m \<Longrightarrow> (\<And>x. within R (k x)) \<Longrightarrow> within R (bind_io m k)"
  unfolding within_def bind_io_def
  by (auto split: prod.splits sum.splits intro: frame_trans) (metis frame_trans snd_conv)+

lemma within_then: "within R m \<Longrightarrow> within R k \<Longrightarrow> within R (then_io m k)"
  by (simp add: then_io_def within_bind)

lemma within_map_err: "within R m \<Longrightarrow> within R (map_err f m)"
  by (auto simp: within_def map_err_def split: prod.splits sum.splits) (metis snd_conv)+

lemma within_attempt: "within R m \<Longrightarrow> within R (attempt m)"
  by (auto simp: within_def attempt_def split: prod.splits) (metis snd_conv)

lemma within_sql:
  "(\<And>now u d x d'. f now u d = Some (x, d') \<Longrightarrow> R d d') \<Longrightarrow> within R (sql err f)"
  by (auto simp: within_def sql_def frame_refl split: option.splits)

lemma within_query: "within R (query err f)"
  by (auto simp: query_def frame_refl intro: within_sql)

lemma within_exec: "(\<And>d. R d (f d)) \<Longrightarrow> within R (exec err f)"
  by (auto simp: exec_def intro: within_sql)

lemma within_transaction: "within R body \<Longrightarrow> within R (transaction err body)"
proof -
  assume body: "within R body"
  show ?thesis
    unfolding within_def
  proof
    fix w :: "'d world"
    let ?w1 = "(advance w)\<lparr>txn_at := Some (clock (sched w) (tick w))\<rparr>"
    have "R (db w) (db (snd (body ?w1)))"
      using body [unfolded within_def, rule_format, of ?w1] by simp
    then show "R (db w) (db (snd (transaction err body w)))"
      by (auto simp: transaction_def frame_refl split: prod.splits sum.splits)
  qed
qed

lemma within_transact: "within R body \<Longrightarrow> within R (transact err body)"
proof -
  assume body: "within R body"
  show ?thesis
    unfolding within_def
  proof
    fix w :: "'d world"
    let ?w1 = "(advance w)\<lparr>txn_at := Some (clock (sched w) (tick w))\<rparr>"
    have "R (db w) (db (snd (body ?w1)))"
      using body [unfolded within_def, rule_format, of ?w1] by simp
    then show "R (db w) (db (snd (transact err body w)))"
      by (auto simp: transact_def frame_refl split: prod.splits sum.splits txn_end.splits)
  qed
qed

lemma within_if: "(b \<Longrightarrow> within R m) \<Longrightarrow> (\<not> b \<Longrightarrow> within R k) \<Longrightarrow> within R (if b then m else k)"
  by simp

lemma within_case_prod: "(\<And>a b. within R (f a b)) \<Longrightarrow> within R (case p of (a, b) \<Rightarrow> f a b)"
  by (simp split: prod.split)

lemma within_case_option:
  "within R m \<Longrightarrow> (\<And>x. within R (f x)) \<Longrightarrow> within R (case v of None \<Rightarrow> m | Some x \<Rightarrow> f x)"
  by (simp split: option.split)

lemma within_case_sum:
  "(\<And>x. within R (f x)) \<Longrightarrow> (\<And>y. within R (g y)) \<Longrightarrow>
     within R (case v of Inl x \<Rightarrow> f x | Inr y \<Rightarrow> g y)"
  by (simp split: sum.split)

lemma within_for_each: "(\<And>x. within R (f x)) \<Longrightarrow> within R (for_each f xs)"
  by (induction xs) (simp_all add: within_ret within_then)

lemma within_fold_io: "(\<And>x s. within R (f x s)) \<Longrightarrow> within R (fold_io f xs s)"
  by (induction xs arbitrary: s) (simp_all add: within_ret within_bind)

lemmas within_intros = within_ret within_throw within_of_result within_read_clock within_new_uuid
  within_bind within_then within_map_err within_attempt within_query within_transaction within_transact
  within_if within_case_prod within_case_option within_case_sum within_for_each within_fold_io

end

text \<open>A transaction that does not commit leaves the database exactly as it found it.\<close>

lemma transaction_atomic:
  "transaction err body w = (r, w') \<Longrightarrow>
     db w' = db w \<or> (\<exists>x w1. r = Inr x \<and> db w' = db w1 \<and>
       body ((advance w)\<lparr>txn_at := Some (clock (sched w) (tick w))\<rparr>) = (Inr x, w1))"
  by (auto simp: transaction_def split: prod.splits sum.splits if_splits)

section \<open>Programs that never raise a given error\<close>

definition never :: "'e \<Rightarrow> ('d, 'e, 'a) io \<Rightarrow> bool" where
  "never e m \<longleftrightarrow> (\<forall>w. fst (m w) \<noteq> Inl e)"

lemma neverD: "never e m \<Longrightarrow> m w = (Inl e', w') \<Longrightarrow> e' \<noteq> e"
  by (metis never_def fst_conv)

lemma never_bind:
  assumes "never e m" and "\<And>w x w'. m w = (Inr x, w') \<Longrightarrow> never e (k x)"
  shows "never e (bind_io m k)"
  unfolding never_def
proof
  fix w
  obtain r w1 where r: "m w = (r, w1)" by fastforce
  with assms show "fst (bind_io m k w) \<noteq> Inl e"
    by (cases r) (auto simp: bind_io_def never_def dest: spec [of _ w])
qed

lemma never_then: "never e m \<Longrightarrow> never e k \<Longrightarrow> never e (then_io m k)"
  by (simp add: then_io_def never_bind)

lemma never_basic:
  "never e (ret x)" "never e read_clock" "never e new_uuid" "never e (attempt m)"
  "e' \<noteq> e \<Longrightarrow> never e (throw e')" "e' \<noteq> e \<Longrightarrow> never e (sql e' f)"
  "e' \<noteq> e \<Longrightarrow> never e (query e' g)" "e' \<noteq> e \<Longrightarrow> never e (exec e' h)"
  "r \<noteq> Inl e \<Longrightarrow> never e (of_result r)" "(\<And>e'. f' e' \<noteq> e) \<Longrightarrow> never e (map_err f' m')"
  by (auto simp: never_def io_defs split: prod.splits sum.splits option.splits)

lemma never_transaction: "e' \<noteq> e \<Longrightarrow> never e body \<Longrightarrow> never e (transaction e' body)"
  unfolding never_def transaction_def
  by (auto split: prod.splits sum.splits) (metis fst_conv)

lemma never_for_each: "(\<And>x. x \<in> set xs \<Longrightarrow> never e (f x)) \<Longrightarrow> never e (for_each f xs)"
  by (induction xs) (simp_all add: never_basic never_then)

lemma never_fold_io: "(\<And>x s. x \<in> set xs \<Longrightarrow> never e (f x s)) \<Longrightarrow> never e (fold_io f xs s)"
  by (induction xs arbitrary: s) (simp_all add: never_basic never_bind)

lemma never_cases:
  "(b \<Longrightarrow> never e m) \<Longrightarrow> (\<not> b \<Longrightarrow> never e k) \<Longrightarrow> never e (if b then m else k)"
  "(v = None \<Longrightarrow> never e m) \<Longrightarrow> (\<And>x. v = Some x \<Longrightarrow> never e (g x)) \<Longrightarrow>
     never e (case v of None \<Rightarrow> m | Some x \<Rightarrow> g x)"
  by (auto split: option.split)

lemmas never_intros = never_basic never_bind never_then never_transaction never_for_each
  never_fold_io never_cases

section \<open>The schedule is never written\<close>

definition steady :: "('d, 'e, 'a) io \<Rightarrow> bool" where
  "steady m \<longleftrightarrow> (\<forall>w. sched (snd (m w)) = sched w)"

lemma steadyD: "steady m \<Longrightarrow> m w = (r, w') \<Longrightarrow> sched w' = sched w"
  by (metis steady_def snd_conv)

lemma steady_bind: "steady m \<Longrightarrow> (\<And>x. steady (k x)) \<Longrightarrow> steady (bind_io m k)"
  unfolding steady_def bind_io_def by (auto split: prod.splits sum.splits) (metis snd_conv)+

lemma steady_then: "steady m \<Longrightarrow> steady k \<Longrightarrow> steady (then_io m k)"
  by (simp add: then_io_def steady_bind)

lemma steady_basic:
  "steady (ret x)" "steady read_clock" "steady new_uuid" "steady (throw e)" "steady (sql e' f)"
  "steady (query e' g)" "steady (exec e' h)" "steady (of_result r)"
  by (auto simp: steady_def io_defs split: option.splits)

lemma steady_wrap:
  "steady m \<Longrightarrow> steady (map_err f m)" "steady m \<Longrightarrow> steady (attempt m)"
  by (auto simp: steady_def map_err_def attempt_def split: prod.splits sum.splits) (metis snd_conv)+

lemma steady_transaction: "steady body \<Longrightarrow> steady (transaction e body)"
  unfolding steady_def transaction_def
  by (auto split: prod.splits sum.splits) (metis advance_simps(3) snd_conv world.select_convs(3)
      world.surjective world.update_convs(4))+

lemma steady_transact: "steady body \<Longrightarrow> steady (transact e body)"
  unfolding steady_def transact_def
  by (auto split: prod.splits sum.splits txn_end.splits) (metis advance_simps(3) snd_conv
      world.select_convs(3) world.surjective world.update_convs(4))+

lemma steady_loops:
  "(\<And>x. steady (f x)) \<Longrightarrow> steady (for_each f xs)"
  "(\<And>x s. steady (g x s)) \<Longrightarrow> steady (fold_io g xs s)"
proof -
  show "(\<And>x. steady (f x)) \<Longrightarrow> steady (for_each f xs)"
    by (induction xs) (simp_all add: steady_basic steady_then)
  show "(\<And>x s. steady (g x s)) \<Longrightarrow> steady (fold_io g xs s)"
    by (induction xs arbitrary: s) (simp_all add: steady_basic steady_bind)
qed

lemma steady_cases:
  "steady m \<Longrightarrow> steady k \<Longrightarrow> steady (if b then m else k)"
  "steady m \<Longrightarrow> (\<And>x. steady (g x)) \<Longrightarrow> steady (case v of None \<Rightarrow> m | Some x \<Rightarrow> g x)"
  "(\<And>x y. steady (h x y)) \<Longrightarrow> steady (case p of (x, y) \<Rightarrow> h x y)"
  by (auto split: option.split prod.split)

lemmas steady_intros = steady_basic steady_bind steady_then steady_wrap steady_transaction
  steady_transact steady_loops steady_cases

end
