(* ===== verification/Schema.thy ===== *)
theory Schema
  imports World
begin

text \<open>
  The owned database schema (\<^verbatim>\<open>schema.sql\<close>) as records of rows and the \<open>archive\<close> of tables.
  A column that no modelled statement reads or decides on (\<^verbatim>\<open>created_at\<close>, \<^verbatim>\<open>updated_at\<close> defaults,
  \<^verbatim>\<open>started_at\<close>, \<^verbatim>\<open>raw_blob_ref\<close>) is left out. A text column with a closed
  \<^verbatim>\<open>CHECK (... IN ...)\<close> list is a datatype with one constructor per admitted value. Keys are the
  primary key or the unique constraint of the table.
\<close>

section \<open>JSON documents\<close>

text \<open>An object is the key-sorted association list of \<^verbatim>\<open>serde_json::Map\<close> (a B-tree map).\<close>

datatype json =
    JNull
  | JBool bool
  | JNum int
  | JStr string
  | JArr "json list"
  | JObj "(string \<times> json) list"

fun obj_insert :: "string \<Rightarrow> json \<Rightarrow> (string \<times> json) list \<Rightarrow> (string \<times> json) list" where
  "obj_insert k v [] = [(k, v)]"
| "obj_insert k v ((k', v') # kvs) =
     (if k < k' then (k, v) # (k', v') # kvs
      else if k = k' then (k, v) # kvs
      else (k', v') # obj_insert k v kvs)"

definition jopt_str :: "string option \<Rightarrow> json" where
  "jopt_str v = (case v of None \<Rightarrow> JNull | Some s \<Rightarrow> JStr s)"

lemma map_of_obj_insert:
  "sorted_wrt (<) (map fst kvs) \<Longrightarrow> map_of (obj_insert k v kvs) = (map_of kvs)(k \<mapsto> v)"
  by (induction k v kvs rule: obj_insert.induct) (auto simp: fun_eq_iff)

lemma keys_obj_insert: "fst ` set (obj_insert k v kvs) = insert k (fst ` set kvs)"
  by (induction k v kvs rule: obj_insert.induct) auto

lemma sorted_obj_insert:
  "sorted_wrt (<) (map fst kvs) \<Longrightarrow> sorted_wrt (<) (map fst (obj_insert k v kvs))"
proof (induction k v kvs rule: obj_insert.induct)
  case (2 k v k' v' kvs)
  have "\<forall>x \<in> fst ` set (obj_insert k v kvs). k' < x" if "\<not> k < k'" "k \<noteq> k'"
    using 2(2) that by (auto simp: keys_obj_insert)
  with 2 show ?case by (auto simp: less_trans)
qed simp

section \<open>Accounts and budget windows\<close>

datatype account_state =
    Connected | RefreshRequired | ReauthRequired | Revoked | Suspended | Paused

record account =
  acc_id :: uuid
  acc_internal_user_id :: uuid
  acc_provider_user_id :: string
  acc_state :: account_state

record budget_window =
  bw_account_id :: uuid
  bw_budget_class :: string
  bw_window_start :: time
  bw_window_seconds :: int
  bw_request_cap :: int
  bw_used_requests :: int

definition bw_key :: "budget_window \<Rightarrow> uuid \<times> string \<times> time" where
  "bw_key r = (bw_account_id r, bw_budget_class r, bw_window_start r)"

section \<open>Provider content\<close>

datatype availability =
    Active | Deleted | Protected | AuthorSuspended | Unavailable | Unknown

datatype relation = Reply | Quote | Repost

datatype normalization_provenance = OfficialApi | LegacyImport

datatype media_kind = Photo | Video | AnimatedGif

record user_row =
  usr_id :: uuid
  usr_provider_id :: string
  usr_username :: "string option"
  usr_display_name :: "string option"
  usr_parser_version :: int

record post_row =
  pst_id :: uuid
  pst_provider_id :: string
  pst_author_user_id :: "uuid option"
  pst_text :: string
  pst_long_text :: "string option"
  pst_expanded_urls :: "string list"
  pst_language :: "string option"
  pst_published_at :: "time option"
  pst_edited_at :: "time option"
  pst_conversation_provider_id :: "string option"
  pst_like_count :: "int option"
  pst_retweet_count :: "int option"
  pst_reply_count :: "int option"
  pst_quote_count :: "int option"
  pst_bookmark_count :: "int option"
  pst_impression_count :: "int option"
  pst_parser_version :: int
  pst_normalization_provenance :: normalization_provenance
  pst_availability :: availability

record relation_row =
  rel_post_id :: uuid
  rel_related_post_provider_id :: string
  rel_relation :: relation
  rel_parser_version :: int

definition rel_key :: "relation_row \<Rightarrow> uuid \<times> string \<times> relation" where
  "rel_key r = (rel_post_id r, rel_related_post_provider_id r, rel_relation r)"

record media_row =
  med_post_id :: uuid
  med_provider_id :: string
  med_kind :: "media_kind option"
  med_metadata :: json
  med_blob_ref :: "string option"
  med_parser_version :: int

definition med_key :: "media_row \<Rightarrow> uuid \<times> string" where
  "med_key r = (med_post_id r, med_provider_id r)"

section \<open>Bookmarks, runs and snapshots\<close>

record bookmark =
  bm_id :: uuid
  bm_account_id :: uuid
  bm_post_id :: uuid
  bm_first_observed_saved_at :: time
  bm_last_observed_saved_at :: time
  bm_observed_removed_at :: "time option"
  bm_observed_removed_snapshot_id :: "uuid option"
  bm_last_write_operation_id :: "uuid option"
  bm_last_write_observed_at :: "time option"
  bm_observed_removed_write_operation_id :: "uuid option"
  bm_last_incremental_run_id :: "uuid option"

definition bm_key :: "bookmark \<Rightarrow> uuid \<times> uuid" where
  "bm_key b = (bm_account_id b, bm_post_id b)"

definition bm_active :: "uuid \<Rightarrow> bookmark \<Rightarrow> bool" where
  "bm_active a b \<longleftrightarrow> bm_account_id b = a \<and> bm_observed_removed_at b = None"

datatype run_type =
    RIncremental | RFull | RFolderListing | RFolderMembership | RComplianceRevalidation

datatype run_state = Running | RunCompleted | RunFailed | RunCancelled

record sync_run =
  run_id :: uuid
  run_account_id :: "uuid option"
  run_run_type :: run_type
  run_state :: run_state
  run_checkpoint :: "string option"
  run_pages_fetched :: int
  run_items_observed :: int
  run_added_count :: int
  run_retained_count :: int
  run_removed_count :: int
  run_finished_at :: "time option"

record snapshot =
  snap_id :: uuid
  snap_sync_run_id :: uuid
  snap_folder_id :: "uuid option"
  snap_complete :: bool
  snap_completed_at :: "time option"
  snap_page_count :: int

record snapshot_item =
  item_snapshot_id :: uuid
  item_post_id :: uuid
  item_observed_at :: time

definition item_key :: "snapshot_item \<Rightarrow> uuid \<times> uuid" where
  "item_key i = (item_snapshot_id i, item_post_id i)"

record authority =
  auth_account_id :: uuid
  auth_snapshot_id :: uuid
  auth_updated_at :: time

datatype incremental_outcome_name =
    Idle | OCompleted | Gap | BudgetExhausted | ProviderUnavailable | RequestCap
  | FullSnapshotRequired

record incremental_state =
  inc_account_id :: uuid
  inc_watermark_provider_post_id :: "string option"
  inc_requires_full_snapshot :: bool
  inc_last_outcome :: incremental_outcome_name
  inc_last_incremental_run_id :: "uuid option"
  inc_updated_at :: time

record repair =
  rep_snapshot_id :: uuid
  rep_bookmark_id :: uuid

definition rep_key :: "repair \<Rightarrow> uuid \<times> uuid" where
  "rep_key r = (rep_snapshot_id r, rep_bookmark_id r)"

section \<open>Credentials and write authorizations\<close>

datatype credential_status = CActive | CExpired | CRevoked

datatype activation_outcome = AccAccepted | AccScopeDowngrade | AccProviderIdentityMismatch

record credential =
  cred_id :: uuid
  cred_account_id :: uuid
  cred_encrypted_payload :: "8 word list"
  cred_granted_scopes :: "string list"
  cred_status :: credential_status
  cred_activation_outcome :: activation_outcome
  cred_expires_at :: "time option"
  cred_superseded_refresh_hash :: "string option"
  cred_created_at :: time

datatype authorization_status = WActive | WRevoked

record write_authorization =
  wau_account_id :: uuid
  wau_oauth_intent_id :: uuid
  wau_granted_scopes :: "string list"
  wau_status :: authorization_status
  wau_authorized_at :: time
  wau_revoked_at :: "time option"

record oauth_intent =
  oin_id :: uuid
  oin_internal_user_id :: uuid
  oin_account_id :: "uuid option"
  oin_purpose :: string
  oin_state_hash :: string
  oin_code_verifier_encrypted :: "8 word list"
  oin_nonce :: string
  oin_redirect_uri :: string
  oin_requested_scopes :: "string list"
  oin_created_at :: time
  oin_expires_at :: time
  oin_consumed_at :: "time option"

section \<open>Bookmark write-back\<close>

datatype write_action = WAdd | WRemove

datatype write_status =
    WReceived | WRefused | WDryRun | WProviderInFlight | WSucceeded | WFailed | WUncertain
  | WProjectionPending | WReconciledSucceeded | WReconciledNotCurrent

datatype execution_mode = Live | DryRun

record write_operation =
  wop_id :: uuid
  wop_account_id :: uuid
  wop_internal_user_id :: uuid
  wop_consent_id :: "uuid option"
  wop_action :: write_action
  wop_provider_post_id :: string
  wop_execution_mode :: execution_mode
  wop_idempotency_digest :: string
  wop_request_fingerprint :: string
  wop_status :: write_status
  wop_outcome :: "string option"
  wop_provider_request_id :: "string option"
  wop_rate_limit_reset_at :: "time option"
  wop_projection_observed_at :: "time option"

record write_consent =
  con_id :: uuid
  con_account_id :: uuid
  con_internal_user_id :: uuid
  con_action :: write_action
  con_provider_post_id :: string
  con_approved_at :: time
  con_expires_at :: time
  con_surface :: string
  con_consumed_at :: "time option"

record write_audit_event =
  aud_account_id :: uuid
  aud_operation_id :: "uuid option"
  aud_consent_id :: "uuid option"
  aud_internal_user_id :: uuid
  aud_action :: write_action
  aud_provider_post_id :: string
  aud_surface :: string
  aud_event_class :: string
  aud_occurred_at :: time
  aud_correlation_id :: "string option"
  aud_idempotency_digest :: "string option"
  aud_provider_request_id :: "string option"
  aud_details :: json

section \<open>Folders\<close>

record folder =
  fol_id :: uuid
  fol_account_id :: uuid
  fol_provider_id :: string
  fol_name :: "string option"

definition fol_key :: "folder \<Rightarrow> uuid \<times> string" where
  "fol_key f = (fol_account_id f, fol_provider_id f)"

record folder_item =
  fit_folder_id :: uuid
  fit_post_id :: uuid
  fit_first_observed_in_folder_at :: time
  fit_observed_removed_from_folder_at :: "time option"
  fit_observed_removed_snapshot_id :: "uuid option"

definition fit_key :: "folder_item \<Rightarrow> uuid \<times> uuid" where
  "fit_key i = (fit_folder_id i, fit_post_id i)"

record folder_authority =
  fau_folder_id :: uuid
  fau_snapshot_id :: uuid
  fau_updated_at :: time

datatype observation_kind = ObsAdded | ObsRemoved

record folder_observation =
  fob_snapshot_id :: uuid
  fob_folder_id :: uuid
  fob_post_id :: uuid
  fob_kind :: observation_kind
  fob_observed_at :: time

definition fob_key :: "folder_observation \<Rightarrow> uuid \<times> uuid \<times> uuid \<times> observation_kind" where
  "fob_key r = (fob_snapshot_id r, fob_folder_id r, fob_post_id r, fob_kind r)"

datatype folder_capability = Listing | Membership

record capability_limit =
  lim_account_id :: uuid
  lim_capability :: folder_capability
  lim_last_run_id :: uuid
  lim_recorded_at :: time

definition lim_key :: "capability_limit \<Rightarrow> uuid \<times> folder_capability" where
  "lim_key r = (lim_account_id r, lim_capability r)"

section \<open>Social sources\<close>

record social_source =
  src_account_id :: uuid
  src_post_id :: uuid
  src_social_source_id :: uuid
  src_current_content_digest :: json
  src_acquisition :: string
  src_saved_authority :: string
  src_captured_at :: time
  src_removed_at :: "time option"

record source_revision =
  rev_social_source_id :: uuid
  rev_content_digest :: json
  rev_captured_at :: time
  rev_acquisition :: string
  rev_saved_authority :: string

definition rev_key :: "source_revision \<Rightarrow> uuid \<times> json" where
  "rev_key r = (rev_social_source_id r, rev_content_digest r)"

section \<open>Compliance and analysis linkage\<close>

record analysis_link =
  kal_inbox_event_id :: string
  kal_social_source_id :: uuid
  kal_content_digest :: json
  kal_completed_at :: time

definition kal_key :: "analysis_link \<Rightarrow> uuid \<times> json" where
  "kal_key r = (kal_social_source_id r, kal_content_digest r)"

record revalidation =
  cmp_id :: uuid
  cmp_account_id :: uuid
  cmp_post_id :: uuid
  cmp_social_source_id :: uuid
  cmp_provider_request_id :: "string option"
  cmp_outcome :: string
  cmp_failure_class :: "string option"
  cmp_checked_at :: time

record tombstone =
  tmb_account_id :: uuid
  tmb_social_source_id :: uuid
  tmb_post_provider_id :: string
  tmb_reason :: string
  tmb_revalidation_id :: uuid
  tmb_recorded_at :: time

section \<open>Articles and the outbox\<close>

datatype article_state = ARequested | ACompleted | AFailed

record article_capture =
  art_id :: uuid
  art_account_id :: uuid
  art_normalized_url :: string
  art_original_url :: string
  art_correlation_id :: string
  art_state :: article_state
  art_document_id :: "string option"
  art_document_ir_blob :: "json option"
  art_completed_at :: "time option"

definition art_key :: "article_capture \<Rightarrow> uuid \<times> string" where
  "art_key r = (art_account_id r, art_normalized_url r)"

record post_article_link =
  lnk_social_source_id :: uuid
  lnk_article_capture_id :: uuid

text \<open>
  The complete canonical envelope (an event or a command) that an outbox row stores. Its JSON
  spelling belongs to the shared contracts; the row keeps the typed envelope.
\<close>

record wire_envelope =
  we_id :: uuid
  we_type :: string
  we_at :: string
  we_producer :: string
  we_aggregate_id :: string
  we_correlation_id :: string
  we_causation_id :: "string option"
  we_tenant_id :: "string option"
  we_payload :: json

record outbox_event =
  out_id :: uuid
  out_aggregate :: string
  out_event_type :: string
  out_payload :: wire_envelope
  out_correlation_id :: string
  out_causation_id :: "string option"
  out_created_at :: time
  out_published_at :: "time option"
  out_attempt_count :: int
  out_last_error :: "string option"
  out_next_attempt_at :: time
  out_undeliverable_at :: "time option"
  out_acknowledged_at :: "time option"
  out_ack_outcome :: "string option"
  out_resend_count :: int
  out_next_resend_at :: "time option"

record inbox_event =
  inb_source :: string
  inb_event_type :: string
  inb_event_id :: string
  inb_payload :: string
  inb_consumed_at :: "time option"

text \<open>Explicit captures and the owner-scoped sources they resolve to.\<close>

datatype capture_status = CaptureAccepted | CaptureResolved | CaptureUnavailable

record explicit_capture =
  xc_capture_id :: uuid
  xc_command_id :: string
  xc_operation_id :: uuid
  xc_owner :: uuid
  xc_provider_post_id :: "string option"
  xc_original_permalink :: string
  xc_captured_at :: time
  xc_acquisition :: string
  xc_saved_authority :: string
  xc_status :: capture_status
  xc_attempts :: int
  xc_next_attempt_at :: time
  xc_social_source_id :: "uuid option"
  xc_reported_at :: "time option"
  xc_created_at :: time

record explicit_source =
  xs_social_source_id :: uuid
  xs_owner :: uuid
  xs_provider_post_id :: string
  xs_author_provider_id :: string
  xs_author_username :: "string option"
  xs_author_display_name :: "string option"
  xs_text :: string
  xs_long_text :: "string option"
  xs_published_at :: "time option"
  xs_expanded_urls :: "string list"
  xs_current_content_digest :: json
  xs_captured_at :: time
  xs_created_at :: time
  xs_updated_at :: time

definition xs_key :: "explicit_source \<Rightarrow> uuid \<times> string" where
  "xs_key s = (xs_owner s, xs_provider_post_id s)"

section \<open>The legacy transition\<close>

datatype import_status = ImportRunning | ImportCompleted | ImportFailed

record legacy_import_run =
  lir_id :: uuid
  lir_account_id :: uuid
  lir_source_kind :: string
  lir_source_version :: int
  lir_source_digest :: string
  lir_importer_parser_version :: int
  lir_ownership_approval_digest :: string
  lir_status :: import_status
  lir_inserted_count :: int
  lir_matched_count :: int
  lir_updated_count :: int
  lir_conflicted_count :: int
  lir_rejected_count :: int
  lir_unmapped_count :: int
  lir_finished_at :: "time option"

definition lir_key :: "legacy_import_run \<Rightarrow> uuid \<times> string \<times> int \<times> string \<times> int" where
  "lir_key r = (lir_account_id r, lir_source_kind r, lir_source_version r, lir_source_digest r, lir_importer_parser_version r)"

record legacy_import_item =
  lit_import_run_id :: uuid
  lit_source_record_key :: string
  lit_source_row_digest :: string
  lit_provider_post_id :: "string option"
  lit_conflicting_provider_post_id :: "string option"
  lit_post_id :: "uuid option"
  lit_canonical_url_digest :: "string option"
  lit_content_digest :: "string option"
  lit_source_observed_saved_at :: "time option"
  lit_source_synced_at :: "time option"
  lit_legacy_category_metadata :: json
  lit_legacy_folder_metadata :: json
  lit_resolution :: string

definition lit_key :: "legacy_import_item \<Rightarrow> uuid \<times> string" where
  "lit_key r = (lit_import_run_id r, lit_source_record_key r)"

datatype review_state = OwnerReviewRequired | Reviewable

record legacy_shadow_report =
  lsr_id :: uuid
  lsr_account_id :: uuid
  lsr_import_run_id :: uuid
  lsr_snapshot_id :: uuid
  lsr_import_digest :: string
  lsr_snapshot_digest :: string
  lsr_report_payload :: json
  lsr_report_digest :: string
  lsr_review_state :: review_state

definition lsr_key :: "legacy_shadow_report \<Rightarrow> uuid \<times> uuid \<times> uuid \<times> string \<times> string" where
  "lsr_key r = (lsr_account_id r, lsr_import_run_id r, lsr_snapshot_id r, lsr_import_digest r, lsr_snapshot_digest r)"

datatype approval_decision = Approved | Rejected

record transition_approval =
  lta_id :: uuid
  lta_account_id :: uuid
  lta_internal_owner_id :: uuid
  lta_shadow_report_id :: uuid
  lta_checklist_digest :: string
  lta_owner_evidence_digest :: string
  lta_decision :: approval_decision
  lta_decided_at :: time
  lta_superseded_at :: "time option"

definition lta_key :: "transition_approval \<Rightarrow> uuid \<times> uuid \<times> string \<times> string \<times> approval_decision" where
  "lta_key r = (lta_account_id r, lta_shadow_report_id r, lta_checklist_digest r, lta_owner_evidence_digest r, lta_decision r)"

section \<open>The archive\<close>

record archive =
  accounts :: "account list"
  api_budget_windows :: "budget_window list"
  users :: "user_row list"
  posts :: "post_row list"
  post_relations :: "relation_row list"
  media :: "media_row list"
  bookmarks :: "bookmark list"
  sync_runs :: "sync_run list"
  snapshots :: "snapshot list"
  snapshot_bookmark_items :: "snapshot_item list"
  bookmark_snapshot_authority :: "authority list"
  bookmark_incremental_state :: "incremental_state list"
  bookmark_reconciliation_repairs :: "repair list"
  bookmark_write_operations :: "write_operation list"
  bookmark_write_consents :: "write_consent list"
  bookmark_write_audit_events :: "write_audit_event list"
  social_sources :: "social_source list"
  social_source_revisions :: "source_revision list"
  article_captures :: "article_capture list"
  post_article_links :: "post_article_link list"
  outbox_events :: "outbox_event list"
  inbox_events :: "inbox_event list"
  credentials :: "credential list"
  bookmark_write_authorizations :: "write_authorization list"
  bookmark_folders :: "folder list"
  bookmark_folder_items :: "folder_item list"
  snapshot_folder_membership_items :: "snapshot_item list"
  folder_membership_snapshot_authority :: "folder_authority list"
  folder_membership_observations :: "folder_observation list"
  folder_capability_limits :: "capability_limit list"
  knowledge_analysis_links :: "analysis_link list"
  compliance_revalidation_ledger :: "revalidation list"
  tombstones :: "tombstone list"
  oauth_intents :: "oauth_intent list"
  explicit_captures :: "explicit_capture list"
  explicit_sources :: "explicit_source list"
  legacy_import_runs :: "legacy_import_run list"
  legacy_import_items :: "legacy_import_item list"
  legacy_shadow_reports :: "legacy_shadow_report list"
  legacy_transition_approvals :: "transition_approval list"

definition empty_archive :: archive where
  "empty_archive = \<lparr>accounts = [], api_budget_windows = [], users = [], posts = [],
     post_relations = [], media = [], bookmarks = [], sync_runs = [], snapshots = [],
     snapshot_bookmark_items = [], bookmark_snapshot_authority = [],
     bookmark_incremental_state = [], bookmark_reconciliation_repairs = [],
     bookmark_write_operations = [], bookmark_write_consents = [],
     bookmark_write_audit_events = [], social_sources = [], social_source_revisions = [],
     article_captures = [], post_article_links = [], outbox_events = [], inbox_events = [],
     credentials = [], bookmark_write_authorizations = [], bookmark_folders = [],
     bookmark_folder_items = [], snapshot_folder_membership_items = [],
     folder_membership_snapshot_authority = [], folder_membership_observations = [],
     folder_capability_limits = [], knowledge_analysis_links = [],
     compliance_revalidation_ledger = [], tombstones = [], oauth_intents = [],
     explicit_captures = [], explicit_sources = [], legacy_import_runs = [], legacy_import_items = [],
     legacy_shadow_reports = [], legacy_transition_approvals = []\<rparr>"

definition account_exists :: "uuid \<Rightarrow> archive \<Rightarrow> bool" where
  "account_exists a d \<longleftrightarrow> a \<in> acc_id ` set (accounts d)"

type_synonym ('e, 'a) dbio = "(archive, 'e, 'a) io"

end
