(* ===== verification/Budget.thy ===== *)
theory Budget
  imports Schema
begin

text \<open>
  The durable request budget: \<^verbatim>\<open>x-persistence/src/budget_windows.rs\<close> (the statements on
  \<^verbatim>\<open>api_budget_windows\<close>) and \<^verbatim>\<open>x-budget/src/gate.rs\<close> (the gate that charges a window before each
  provider call). The calendar arithmetic of the \<^verbatim>\<open>chrono\<close> crate is a parameter; \<open>chrono_laws\<close> states
  what the gate relies on: a conversion that succeeds is exact.
\<close>

section \<open>Window statements\<close>

datatype persistence_error = PersistenceQuery

datatype window_charge = Accepted int | ChargeExhausted

definition window_key :: "uuid \<Rightarrow> string \<Rightarrow> time \<Rightarrow> budget_window \<Rightarrow> bool" where
  "window_key a cls ws r \<longleftrightarrow> bw_key r = (a, cls, ws)"

definition ensure_window ::
  "uuid \<Rightarrow> string \<Rightarrow> time \<Rightarrow> int \<Rightarrow> int \<Rightarrow> (persistence_error, unit) dbio" where
  "ensure_window a cls ws secs cap =
     sql PersistenceQuery (\<lambda>now u d.
       if fits_i32 secs \<and> 0 < secs \<and> fits_i32 cap \<and> 0 < cap
          \<and> cls \<in> {''read'', ''bookmark_write''}
          \<and> ((a, cls, ws) \<in> bw_key ` set (api_budget_windows d) \<or> account_exists a d)
       then Some ((), d\<lparr>api_budget_windows :=
              insert_ignore bw_key
                \<lparr>bw_account_id = a, bw_budget_class = cls, bw_window_start = ws,
                 bw_window_seconds = secs, bw_request_cap = cap, bw_used_requests = 0\<rparr>
                (api_budget_windows d)\<rparr>)
       else None)"

definition read_usage :: "uuid \<Rightarrow> string \<Rightarrow> time \<Rightarrow> (persistence_error, int) dbio" where
  "read_usage a cls ws =
     sql PersistenceQuery (\<lambda>now u d.
       map_option (\<lambda>r. (bw_used_requests r, d))
         (select_one (window_key a cls ws) (api_budget_windows d)))"

definition bump_usage :: "uuid \<Rightarrow> string \<Rightarrow> time \<Rightarrow> int \<Rightarrow> (persistence_error, unit) dbio" where
  "bump_usage a cls ws cost =
     sql PersistenceQuery (\<lambda>now u d.
       if (\<forall>r \<in> set (api_budget_windows d). window_key a cls ws r \<longrightarrow>
             0 \<le> bw_used_requests r + cost \<and> fits_i32 (bw_used_requests r + cost))
       then Some ((), d\<lparr>api_budget_windows :=
              update_where (window_key a cls ws)
                (\<lambda>r. r\<lparr>bw_used_requests := bw_used_requests r + cost\<rparr>) (api_budget_windows d)\<rparr>)
       else None)"

definition charge ::
  "uuid \<Rightarrow> string \<Rightarrow> time \<Rightarrow> int \<Rightarrow> int \<Rightarrow> int \<Rightarrow> (persistence_error, window_charge) dbio" where
  "charge a cls ws secs cap cost =
     transact PersistenceQuery
       (then_io (ensure_window a cls ws secs cap)
         (bind_io (read_usage a cls ws) (\<lambda>used.
            if used + cost > cap then ret (Rollback ChargeExhausted)
            else then_io (bump_usage a cls ws cost) (ret (Commit (Accepted used))))))"

definition refund_window :: "uuid \<Rightarrow> string \<Rightarrow> time \<Rightarrow> int \<Rightarrow> (persistence_error, unit) dbio" where
  "refund_window a cls ws cost =
     exec PersistenceQuery (\<lambda>d. d\<lparr>api_budget_windows :=
       update_where (window_key a cls ws)
         (\<lambda>r. r\<lparr>bw_used_requests := max (bw_used_requests r - cost) 0\<rparr>) (api_budget_windows d)\<rparr>)"

definition window_usage :: "uuid \<Rightarrow> string \<Rightarrow> time \<Rightarrow> (persistence_error, int option) dbio" where
  "window_usage a cls ws =
     query PersistenceQuery (\<lambda>d.
       map_option bw_used_requests (select_one (window_key a cls ws) (api_budget_windows d)))"

section \<open>The gate\<close>

record chrono =
  try_seconds :: "int \<Rightarrow> time option"
  from_timestamp :: "int \<Rightarrow> time option"
  checked_add_signed :: "time \<Rightarrow> time \<Rightarrow> time option"

definition chrono_laws :: "chrono \<Rightarrow> bool" where
  "chrono_laws c \<longleftrightarrow>
     (\<forall>s t. try_seconds c s = Some t \<longrightarrow> t = s * 1000000) \<and>
     (\<forall>s t. from_timestamp c s = Some t \<longrightarrow> t = s * 1000000) \<and>
     (\<forall>t x y. checked_add_signed c t x = Some y \<longrightarrow> y = t + x)"

text \<open>\<^verbatim>\<open>DateTime::timestamp\<close>: whole seconds, rounded down.\<close>

definition timestamp :: "time \<Rightarrow> int" where
  "timestamp t = t div 1000000"

datatype budget_class = ReadClass | BookmarkWriteClass

fun budget_class_as_str :: "budget_class \<Rightarrow> string" where
  "budget_class_as_str ReadClass = ''read''"
| "budget_class_as_str BookmarkWriteClass = ''bookmark_write''"

datatype budget_error =
    Exhausted time
  | CostExceedsCap u32 u32
  | InvalidConfiguration string
  | BudgetPersistence persistence_error

record reservation =
  rsv_window_start :: time
  rsv_cost :: u32

record budget_inspection =
  insp_eligible :: bool
  insp_reset_at :: time

record budget_gate =
  gate_class :: budget_class
  request_cap_per_window :: u32
  window_seconds :: int
  reset_offset :: time

definition with_clock ::
  "chrono \<Rightarrow> budget_class \<Rightarrow> u32 \<Rightarrow> int \<Rightarrow> budget_error + budget_gate" where
  "with_clock c cls cap secs =
     (if secs < 1 \<or> secs > i32_max
      then Inl (InvalidConfiguration ''window_seconds must be between 1 and 2147483647'')
      else case try_seconds c secs of
             None \<Rightarrow> Inl (InvalidConfiguration ''window_seconds is too large to add to a timestamp'')
           | Some off \<Rightarrow> Inr \<lparr>gate_class = cls, request_cap_per_window = cap,
                             window_seconds = (if secs \<le> i32_max then secs else i32_max),
                             reset_offset = off\<rparr>)"

definition window_start_for :: "chrono \<Rightarrow> time \<Rightarrow> int \<Rightarrow> time" where
  "window_start_for c now secs =
     (let start = timestamp now div secs * secs
      in case from_timestamp c start of Some t \<Rightarrow> t | None \<Rightarrow> now)"

definition reset_instant :: "chrono \<Rightarrow> budget_gate \<Rightarrow> time \<Rightarrow> budget_error + time" where
  "reset_instant c g ws =
     (case checked_add_signed c ws (reset_offset g) of
        None \<Rightarrow> Inl (InvalidConfiguration
                  ''window_seconds is too large for the window's reset instant'')
      | Some t \<Rightarrow> Inr t)"

definition reserve ::
  "chrono \<Rightarrow> budget_gate \<Rightarrow> uuid \<Rightarrow> u32 \<Rightarrow> (budget_error, reservation) dbio" where
  "reserve c g a cost =
     (if cost > request_cap_per_window g
      then throw (CostExceedsCap cost (request_cap_per_window g))
      else bind_io read_clock (\<lambda>now.
        let ws = window_start_for c now (window_seconds g) in
        bind_io (map_err BudgetPersistence
                  (charge a (budget_class_as_str (gate_class g)) ws (window_seconds g)
                     (uint (request_cap_per_window g)) (uint cost)))
          (\<lambda>r. case r of
             Accepted _ \<Rightarrow> ret \<lparr>rsv_window_start = ws, rsv_cost = cost\<rparr>
           | ChargeExhausted \<Rightarrow>
               bind_io (of_result (reset_instant c g ws)) (\<lambda>t. throw (Exhausted t)))))"

definition inspect ::
  "chrono \<Rightarrow> budget_gate \<Rightarrow> uuid \<Rightarrow> u32 \<Rightarrow> (budget_error, budget_inspection) dbio" where
  "inspect c g a cost =
     bind_io read_clock (\<lambda>now.
       let ws = window_start_for c now (window_seconds g) in
       bind_io (of_result (reset_instant c g ws)) (\<lambda>reset_at.
       bind_io (map_err BudgetPersistence
                 (window_usage a (budget_class_as_str (gate_class g)) ws)) (\<lambda>usage.
       let used = (case usage of None \<Rightarrow> 0 | Some n \<Rightarrow> n) in
       ret \<lparr>insp_eligible = (cost \<le> request_cap_per_window g
              \<and> used + uint cost \<le> uint (request_cap_per_window g)),
            insp_reset_at = reset_at\<rparr>)))"

definition refund :: "budget_gate \<Rightarrow> uuid \<Rightarrow> time \<Rightarrow> u32 \<Rightarrow> (budget_error, unit) dbio" where
  "refund g a ws cost =
     (let bounded_cost = (if uint cost \<le> i32_max then uint cost else i32_max) in
      map_err BudgetPersistence
        (refund_window a (budget_class_as_str (gate_class g)) ws bounded_cost))"

lemmas window_stmts = ensure_window_def read_usage_def bump_usage_def refund_window_def
  window_usage_def

section \<open>Window alignment\<close>

lemma window_start_for_aligned:
  assumes "chrono_laws c" and "0 < secs" and "from_timestamp c (timestamp now div secs * secs) \<noteq> None"
  shows "window_start_for c now secs = timestamp now div secs * secs * 1000000"
  using assms by (auto simp: window_start_for_def chrono_laws_def)

lemma div_mult_bounds:
  fixes n s :: int
  assumes "0 < s"
  shows "n div s * s \<le> n" and "n < n div s * s + s"
proof -
  have "n = n div s * s + n mod s" by simp
  moreover have "0 \<le> n mod s" "n mod s < s" using assms by simp_all
  ultimately show "n div s * s \<le> n" "n < n div s * s + s" by linarith+
qed

lemma window_contains_now:
  assumes "chrono_laws c" and "0 < secs" and "from_timestamp c (timestamp now div secs * secs) \<noteq> None"
  shows "window_start_for c now secs \<le> now \<and> now < window_start_for c now secs + secs * 1000000"
proof -
  let ?n = "timestamp now"
  have "?n div secs * secs \<le> ?n" "?n + 1 \<le> ?n div secs * secs + secs"
    using div_mult_bounds [OF assms(2), of ?n] by linarith+
  then have "?n div secs * secs * 1000000 \<le> ?n * 1000000"
    "(?n + 1) * 1000000 \<le> (?n div secs * secs + secs) * 1000000"
    by (simp_all only: mult_right_mono zero_le_numeral)
  moreover have "?n * 1000000 \<le> now" "now < (?n + 1) * 1000000"
    using div_mult_bounds [of 1000000 now] by (simp_all add: timestamp_def algebra_simps)
  ultimately show ?thesis
    by (simp add: window_start_for_aligned [OF assms] distrib_right)
qed

section \<open>The usage table as an abstract counter\<close>

text \<open>
  What the gate relies on: one row per account, class and window. \<open>usage\<close> abstracts the table to
  the number of used requests of a window.
\<close>

definition windows_keyed :: "archive \<Rightarrow> bool" where
  "windows_keyed d \<longleftrightarrow> keyed_by bw_key (api_budget_windows d)"

definition usage :: "archive \<Rightarrow> uuid \<times> string \<times> time \<Rightarrow> int option" where
  "usage d k = map_option bw_used_requests (select_one (\<lambda>r. bw_key r = k) (api_budget_windows d))"

lemma find_update_where:
  "(\<And>r. key (f r) = key r) \<Longrightarrow>
     select_one (\<lambda>r. key r = k) (update_where (\<lambda>r. key r = k') f xs) =
       map_option (\<lambda>r. if k = k' then f r else r) (select_one (\<lambda>r. key r = k) xs)"
  by (induction xs) (auto simp: select_one_def update_where_def)

lemma select_one_insert_ignore:
  "select_one (\<lambda>r. key r = k) (insert_ignore key new xs) =
     (if k = key new \<and> key new \<notin> key ` set xs then Some new
      else select_one (\<lambda>r. key r = k) xs)"
  by (induction xs) (auto simp: select_one_def insert_ignore_def)

lemma select_one_absent: "k \<notin> key ` set xs \<Longrightarrow> select_one (\<lambda>r. key r = k) xs = None"
  by (auto simp: select_one_None)

lemma window_key_eta: "window_key a cls ws = (\<lambda>r. bw_key r = (a, cls, ws))"
  by (simp add: fun_eq_iff window_key_def)

lemma bw_key_upd_used [simp]: "bw_key (r\<lparr>bw_used_requests := n\<rparr>) = bw_key r"
  by (simp add: bw_key_def)

lemma usage_None: "usage d k = None \<longleftrightarrow> k \<notin> bw_key ` set (api_budget_windows d)"
  by (auto simp: usage_def select_one_None image_iff)

text \<open>A granted charge adds exactly its cost to exactly its window, and the total stays within the cap.\<close>

lemma charge_Accepted:
  assumes "charge a cls ws secs cap cost w = (Inr (Accepted used), w')"
  shows "used = (case usage (db w) (a, cls, ws) of None \<Rightarrow> 0 | Some n \<Rightarrow> n)
    \<and> usage (db w') = (usage (db w))((a, cls, ws) \<mapsto> used + cost)
    \<and> 0 \<le> used + cost \<and> used + cost \<le> cap
    \<and> (windows_keyed (db w) \<longrightarrow> windows_keyed (db w'))"
proof -
  let ?k = "(a, cls, ws)"
  let ?new = "\<lparr>bw_account_id = a, bw_budget_class = cls, bw_window_start = ws,
      bw_window_seconds = secs, bw_request_cap = cap, bw_used_requests = 0\<rparr>"
  define t1 where "t1 = insert_ignore bw_key ?new (api_budget_windows (db w))"
  have key_new: "bw_key ?new = ?k" by (simp add: bw_key_def)
  from assms obtain r where
      r: "select_one (\<lambda>r. bw_key r = ?k) t1 = Some r" "used = bw_used_requests r"
      and cap: "used + cost \<le> cap"
      and ok: "\<forall>r \<in> set t1. window_key a cls ws r \<longrightarrow> 0 \<le> bw_used_requests r + cost"
      and w': "api_budget_windows (db w') = update_where (window_key a cls ws)
         (\<lambda>r. r\<lparr>bw_used_requests := bw_used_requests r + cost\<rparr>) t1"
    unfolding charge_def window_stmts t1_def
    by (auto simp: io_run window_key_eta split: if_splits)
  have "used = (case usage (db w) ?k of None \<Rightarrow> 0 | Some n \<Rightarrow> n)"
    using r by (auto simp: t1_def usage_def select_one_insert_ignore key_new select_one_absent
        split: if_splits)
  moreover have "usage (db w') = (usage (db w))(?k \<mapsto> used + cost)"
    using r by (auto simp: fun_eq_iff usage_def w' window_key_eta find_update_where t1_def
        select_one_insert_ignore key_new option.map_ident)
  moreover have "0 \<le> used + cost"
    using ok r by (auto simp: window_key_def dest: select_one_Some)
  moreover have "windows_keyed (db w) \<longrightarrow> windows_keyed (db w')"
    by (auto simp: windows_keyed_def w' t1_def intro!: update_where_keyed insert_ignore_keyed)
  ultimately show ?thesis using cap by blast
qed

lemma charge_not_Accepted:
  "charge a cls ws secs cap cost w = (r, w') \<Longrightarrow> (\<forall>n. r \<noteq> Inr (Accepted n)) \<Longrightarrow> db w' = db w"
  unfolding charge_def
  by (cases r) (auto simp: io_run dest: transact_Inl_db split: if_splits)

text \<open>Every outcome of \<open>reserve\<close>, with the state it leaves.\<close>

lemma reserve_cases:
  assumes "reserve c g a cost w = (r, w')"
  shows "(\<exists>e. r = Inl e) \<and> db w' = db w \<or>
    (\<exists>used now. r = Inr \<lparr>rsv_window_start = window_start_for c now (window_seconds g), rsv_cost = cost\<rparr>
       \<and> now = clock (sched w) (tick w)
       \<and> charge a (budget_class_as_str (gate_class g)) (window_start_for c now (window_seconds g))
           (window_seconds g) (uint (request_cap_per_window g)) (uint cost) (advance w)
           = (Inr (Accepted used), w'))"
proof (cases "cost > request_cap_per_window g")
  case True
  with assms show ?thesis by (auto simp: reserve_def throw_def)
next
  case False
  let ?ws = "window_start_for c (clock (sched w) (tick w)) (window_seconds g)"
  let ?ch = "charge a (budget_class_as_str (gate_class g)) ?ws
      (window_seconds g) (uint (request_cap_per_window g)) (uint cost)"
  obtain q w1 where ch: "?ch (advance w) = (q, w1)" by fastforce
  show ?thesis
  proof (cases "\<exists>n. q = Inr (Accepted n)")
    case True
    with False assms ch show ?thesis
      by (auto simp: reserve_def Let_def io_defs split: sum.splits)
  next
    case nAcc: False
    have "db w1 = db w" using charge_not_Accepted [OF ch] nAcc by auto
    with False assms ch nAcc show ?thesis
      by (auto simp: reserve_def Let_def bind_io_def map_err_def ret_def throw_def of_result_def
          read_clock_def split: sum.splits window_charge.splits)
  qed
qed

section \<open>The cap as an invariant of every interleaving\<close>

text \<open>
  The two gates of the service (one per budget class) share the table. A step is one call of one
  of them, successful or not, under any schedule; the calls are serialised by the row lock that
  \<open>read_usage\<close> takes. The invariant bounds the rows of each gate's class by that gate's cap.
\<close>

definition class_bounded :: "budget_gate \<Rightarrow> archive \<Rightarrow> bool" where
  "class_bounded g d \<longleftrightarrow> (\<forall>a ws n. usage d (a, budget_class_as_str (gate_class g), ws) = Some n
     \<longrightarrow> 0 \<le> n \<and> n \<le> uint (request_cap_per_window g))"

inductive gate_step :: "chrono \<Rightarrow> budget_gate set \<Rightarrow> archive \<Rightarrow> archive \<Rightarrow> bool"
  for c :: chrono and G :: "budget_gate set" where
  reserve_step: "g \<in> G \<Longrightarrow> reserve c g a cost w = (r, w') \<Longrightarrow> gate_step c G (db w) (db w')"
| inspect_step: "g \<in> G \<Longrightarrow> inspect c g a cost w = (r, w') \<Longrightarrow> gate_step c G (db w) (db w')"
| refund_step: "g \<in> G \<Longrightarrow> refund g a ws cost w = (r, w') \<Longrightarrow> gate_step c G (db w) (db w')"

inductive gate_reachable :: "chrono \<Rightarrow> budget_gate set \<Rightarrow> archive \<Rightarrow> archive \<Rightarrow> bool"
  for c :: chrono and G :: "budget_gate set" and d0 :: archive where
  reach_start: "gate_reachable c G d0 d0"
| reach_step: "gate_reachable c G d0 d \<Longrightarrow> gate_step c G d d' \<Longrightarrow> gate_reachable c G d0 d'"

definition one_gate_per_class :: "budget_gate set \<Rightarrow> bool" where
  "one_gate_per_class G \<longleftrightarrow> inj_on gate_class G"

lemma budget_class_as_str_inj: "budget_class_as_str x = budget_class_as_str y \<longleftrightarrow> x = y"
  by (cases x; cases y) auto

lemma refund_window_usage:
  "refund_window a cls ws cost w = (Inr x, w') \<Longrightarrow>
     usage (db w') = (usage (db w))((a, cls, ws) :=
        map_option (\<lambda>n. max (n - cost) 0) (usage (db w) (a, cls, ws)))"
  by (auto simp: refund_window_def io_run usage_def fun_eq_iff window_key_eta find_update_where
      option.map_comp comp_def split: option.split)

lemma refund_failed: "refund g a ws cost w = (Inl e, w') \<Longrightarrow> db w' = db w"
  by (auto simp: refund_def refund_window_def Let_def map_err_def exec_def sql_def
      split: sum.splits prod.splits if_splits)

lemma inspect_db: "inspect c g a cost w = (r, w') \<Longrightarrow> db w' = db w"
  by (auto simp: inspect_def window_usage_def Let_def io_defs split: sum.splits prod.splits if_splits)

lemma class_bounded_upd:
  assumes "class_bounded g d"
    and "usage d' = (usage d)((a, budget_class_as_str cls, ws) := v)"
    and "\<And>n. cls = gate_class g \<Longrightarrow> v = Some n \<Longrightarrow> 0 \<le> n \<and> n \<le> uint (request_cap_per_window g)"
  shows "class_bounded g d'"
  using assms by (auto simp: class_bounded_def budget_class_as_str_inj)

lemma gate_step_bounded:
  assumes "gate_step c G d d'" and "one_gate_per_class G" and "g \<in> G" and "class_bounded g d"
  shows "class_bounded g d'"
  using assms
proof (induction rule: gate_step.induct)
  case (reserve_step h a cost w r w')
  have same: "gate_class h = gate_class g \<Longrightarrow> h = g"
    using reserve_step by (auto simp: one_gate_per_class_def dest: inj_onD)
  from reserve_cases [OF reserve_step(2)] show ?case
  proof (elim disjE exE conjE)
    assume "db w' = db w" with reserve_step show ?thesis by simp
  next
    fix used now
    assume "charge a (budget_class_as_str (gate_class h)) (window_start_for c now (window_seconds h))
        (window_seconds h) (uint (request_cap_per_window h)) (uint cost) (advance w)
        = (Inr (Accepted used), w')"
    from charge_Accepted [OF this] reserve_step same show ?thesis
      by (auto elim!: class_bounded_upd)
  qed
next
  case (inspect_step h a cost w r w')
  then show ?case by (simp add: inspect_db)
next
  case (refund_step h a ws cost w r w')
  show ?case
  proof (cases r)
    case (Inl e)
    with refund_step refund_failed show ?thesis by metis
  next
    case (Inr x)
    with refund_step obtain k where
      "usage (db w') = (usage (db w))((a, budget_class_as_str (gate_class h), ws) :=
        map_option (\<lambda>n. max (n - k) 0) (usage (db w) (a, budget_class_as_str (gate_class h), ws)))"
      and "0 \<le> k"
      by (auto simp: refund_def Let_def io_run i32_max_def dest!: refund_window_usage split: if_splits)
    moreover have "0 \<le> max (n - k) 0 \<and> max (n - k) 0 \<le> uint (request_cap_per_window g)"
      if "usage (db w) (a, budget_class_as_str (gate_class g), ws) = Some n" "0 \<le> k" for n
      using refund_step that unfolding class_bounded_def by fastforce
    ultimately show ?thesis
      using refund_step by (auto elim!: class_bounded_upd)
  qed
qed

text \<open>
  C7. The request cap is a true bound. Whatever sequence of reservations, refunds and inspections
  the read gate and the write gate perform on the shared table, with any database failures and any
  clock, no window of a gate's class ever records a negative usage or more requests than that
  gate's cap, provided the table starts within the bounds and no two gates share a class.
\<close>

theorem budget_never_exceeds_cap:
  assumes "gate_reachable c G d0 d" and "one_gate_per_class G" and "g \<in> G"
    and "class_bounded g d0"
  shows "usage d (a, budget_class_as_str (gate_class g), ws) = Some n
    \<Longrightarrow> 0 \<le> n \<and> n \<le> uint (request_cap_per_window g)"
proof -
  have "class_bounded g d"
    using assms by (induction rule: gate_reachable.induct) (auto intro: gate_step_bounded)
  then show "usage d (a, budget_class_as_str (gate_class g), ws) = Some n
    \<Longrightarrow> 0 \<le> n \<and> n \<le> uint (request_cap_per_window g)"
    by (simp add: class_bounded_def)
qed

definition demo_chrono :: chrono where
  "demo_chrono = \<lparr>try_seconds = (\<lambda>s. Some (s * 1000000)), from_timestamp = (\<lambda>s. Some (s * 1000000)),
     checked_add_signed = (\<lambda>t x. Some (t + x))\<rparr>"

definition demo_gate :: budget_gate where
  "demo_gate = \<lparr>gate_class = ReadClass, request_cap_per_window = 2, window_seconds = 900,
     reset_offset = 900000000\<rparr>"

definition demo_account :: account where
  "demo_account = \<lparr>acc_id = 7, acc_internal_user_id = 70, acc_provider_user_id = ''p7'',
     acc_state = Connected\<rparr>"

definition demo_schedule :: schedule where
  "demo_schedule = \<lparr>faults = (\<lambda>_. False), clock = (\<lambda>n. 1800000000 + int n),
     uuids = (\<lambda>n i. 1000 * n + i)\<rparr>"

definition demo_world :: "archive \<Rightarrow> archive world" where
  "demo_world d = \<lparr>db = d, tick = 0, sched = demo_schedule, txn_at = None\<rparr>"

definition demo_archive :: archive where
  "demo_archive = empty_archive\<lparr>accounts := [demo_account]\<rparr>"

lemmas demo_defs = demo_chrono_def demo_gate_def demo_account_def demo_schedule_def demo_world_def
  demo_archive_def

lemma demo_reserve:
  "usage (db (snd (reserve demo_chrono demo_gate 7 2 (demo_world demo_archive))))
     (7, ''read'', 1800000000) = Some 2"
  by code_simp

theorem budget_never_exceeds_cap_witness:
  "\<exists>d. usage d (7, ''read'', 1800000000) = Some 2 \<and> (2::int) \<le> uint (request_cap_per_window demo_gate)"
proof -
  let ?w = "demo_world demo_archive"
  let ?d = "db (snd (reserve demo_chrono demo_gate 7 2 ?w))"
  have "gate_reachable demo_chrono {demo_gate} (db ?w) ?d"
    by (rule gate_reachable.reach_step [OF gate_reachable.reach_start], rule gate_step.reserve_step)
      (auto simp: prod_eq_iff)
  moreover have "one_gate_per_class {demo_gate}" by (simp add: one_gate_per_class_def)
  moreover have "class_bounded demo_gate (db ?w)"
    by (simp add: class_bounded_def usage_def demo_defs empty_archive_def select_one_def)
  moreover have "usage ?d (7, budget_class_as_str (gate_class demo_gate), 1800000000) = Some 2"
    using demo_reserve by (simp add: demo_gate_def)
  ultimately show ?thesis
    using budget_never_exceeds_cap [of demo_chrono "{demo_gate}" "db ?w" ?d demo_gate 7 1800000000 2]
      demo_reserve by blast
qed

section \<open>Refusals, grants and refunds\<close>

text \<open>
  A reservation that is not granted changes nothing. Whatever the reason (cost above the cap,
  exhausted window, unrepresentable reset instant, failed statement, failed commit or rollback), the
  database after \<open>reserve\<close> is the one before it: in particular the row that the charge created for a
  fresh window is rolled back with it.
\<close>

theorem reserve_refused_unchanged:
  "reserve c g a cost w = (Inl e, w') \<Longrightarrow> db w' = db w"
  using reserve_cases by fastforce

theorem reserve_refused_unchanged_witness:
  "db (snd (reserve demo_chrono demo_gate 7 3 (demo_world demo_archive))) = demo_archive"
  using reserve_refused_unchanged [of demo_chrono demo_gate 7 3 "demo_world demo_archive"
      "CostExceedsCap 3 2" "demo_world demo_archive"]
  by (simp add: reserve_def demo_gate_def throw_def demo_world_def)

text \<open>A caller's sequence of reservations on one account, refusals skipped, and what it was granted.\<close>

fun reserve_all ::
  "chrono \<Rightarrow> budget_gate \<Rightarrow> uuid \<Rightarrow> u32 list \<Rightarrow> archive world \<Rightarrow> reservation list \<times> archive world" where
  "reserve_all c g a [] w = ([], w)"
| "reserve_all c g a (k # ks) w =
     (case reserve c g a k w of
        (Inl e, w') \<Rightarrow> reserve_all c g a ks w'
      | (Inr r, w') \<Rightarrow> (case reserve_all c g a ks w' of (rs, w'') \<Rightarrow> (r # rs, w'')))"

definition granted_in :: "time \<Rightarrow> reservation list \<Rightarrow> int" where
  "granted_in ws rs = (\<Sum>r \<leftarrow> filter (\<lambda>r. rsv_window_start r = ws) rs. uint (rsv_cost r))"

definition used_in :: "archive \<Rightarrow> uuid \<Rightarrow> budget_gate \<Rightarrow> time \<Rightarrow> int" where
  "used_in d a g ws =
     (case usage d (a, budget_class_as_str (gate_class g), ws) of None \<Rightarrow> 0 | Some n \<Rightarrow> n)"

lemma reserve_used_in:
  assumes "reserve c g a cost w = (r, w')"
  shows "used_in (db w') a g ws = used_in (db w) a g ws + (case r of Inl _ \<Rightarrow> 0 | Inr x \<Rightarrow> granted_in ws [x])
    \<and> (used_in (db w) a g ws \<le> uint (request_cap_per_window g) \<longrightarrow>
       used_in (db w') a g ws \<le> uint (request_cap_per_window g))"
  using reserve_cases [OF assms]
  by (auto dest!: charge_Accepted simp: used_in_def granted_in_def split: if_splits)

lemma reserve_all_used_in:
  "reserve_all c g a ks w = (rs, w') \<Longrightarrow>
     used_in (db w') a g ws = used_in (db w) a g ws + granted_in ws rs
     \<and> (used_in (db w) a g ws \<le> uint (request_cap_per_window g) \<longrightarrow>
        used_in (db w') a g ws \<le> uint (request_cap_per_window g))"
proof (induction ks arbitrary: w rs w')
  case Nil
  then show ?case by (simp add: granted_in_def)
next
  case (Cons k ks)
  obtain r w1 where r: "reserve c g a k w = (r, w1)" by fastforce
  obtain qs w2 where qs: "reserve_all c g a ks w1 = (qs, w2)" by fastforce
  from reserve_used_in [OF r, of ws] Cons.IH [OF qs] Cons.prems r qs show ?case
    by (cases r) (auto simp: granted_in_def)
qed

text \<open>
  The grants of one window add up to at most the cap: over any sequence of reservation
  attempts on an account, the accepted costs charged to a window plus what the window had used
  before equal its recorded usage afterwards, and that never passes the cap.
\<close>

theorem granted_total_within_cap:
  assumes "reserve_all c g a ks w = (rs, w')"
    and "used_in (db w) a g ws \<le> uint (request_cap_per_window g)"
  shows "used_in (db w) a g ws + granted_in ws rs = used_in (db w') a g ws
    \<and> used_in (db w) a g ws + granted_in ws rs \<le> uint (request_cap_per_window g)"
  using reserve_all_used_in [OF assms(1), of ws] assms(2) by simp

theorem granted_total_within_cap_witness:
  "let (rs, w') = reserve_all demo_chrono demo_gate 7 [1, 1, 1] (demo_world demo_archive)
   in length rs = 2 \<and> granted_in 1800000000 rs = 2 \<and> used_in (db w') 7 demo_gate 1800000000 = 2"
proof -
  let ?r = "reserve_all demo_chrono demo_gate 7 [1, 1, 1] (demo_world demo_archive)"
  have len: "length (fst ?r) = 2 \<and> granted_in 1800000000 (fst ?r) = 2" by code_simp
  have "used_in (db (demo_world demo_archive)) 7 demo_gate 1800000000 = 0"
    by (simp add: used_in_def usage_def demo_defs empty_archive_def select_one_def)
  with granted_total_within_cap [of demo_chrono demo_gate 7 "[1, 1, 1]" "demo_world demo_archive"
      "fst ?r" "snd ?r" 1800000000] len
  show ?thesis by (simp add: demo_gate_def case_prod_beta Let_def)
qed

text \<open>
  Window targeting: for a positive window length and a representable aligned start, the window
  the gate charges starts at a multiple of the window length, contains the current instant, and is
  the same for every instant of that window, so two calls in one window share one counter.
\<close>

theorem window_start_for_partition:
  assumes "chrono_laws c" and "0 < secs"
    and "from_timestamp c (timestamp now div secs * secs) \<noteq> None"
  shows "(\<exists>k. window_start_for c now secs = k * (secs * 1000000))
    \<and> window_start_for c now secs \<le> now \<and> now < window_start_for c now secs + secs * 1000000
    \<and> (\<forall>t. window_start_for c now secs \<le> t \<and> t < window_start_for c now secs + secs * 1000000
          \<longrightarrow> window_start_for c t secs = window_start_for c now secs)"
proof (intro conjI allI impI)
  note al = window_start_for_aligned [OF assms]
  show "\<exists>k. window_start_for c now secs = k * (secs * 1000000)"
    by (rule exI [of _ "timestamp now div secs"]) (simp add: al)
  show "window_start_for c now secs \<le> now" "now < window_start_for c now secs + secs * 1000000"
    using window_contains_now [OF assms] by simp_all
  fix t
  assume t: "window_start_for c now secs \<le> t \<and> t < window_start_for c now secs + secs * 1000000"
  let ?q = "timestamp now div secs"
  define X where "X = ?q * secs"
  have "X * 1000000 \<le> t" "t < X * 1000000 + secs * 1000000"
    using t unfolding al X_def by simp_all
  moreover have "timestamp t * 1000000 \<le> t" "t < timestamp t * 1000000 + 1000000"
    using div_mult_bounds [of 1000000 t] by (simp_all add: timestamp_def)
  ultimately have "X \<le> timestamp t" "timestamp t < X + secs"
    by linarith+
  then have "?q * secs \<le> timestamp t" "timestamp t < ?q * secs + secs"
    by (simp_all add: X_def)
  then have "timestamp t div secs = ?q"
    using assms(2) by (intro int_div_pos_eq [where r = "timestamp t - ?q * secs"]) (auto simp: algebra_simps)
  then show "window_start_for c t secs = window_start_for c now secs"
    using assms(3) by (auto simp: window_start_for_def)
qed

theorem window_start_for_partition_witness:
  "window_start_for demo_chrono 1800000005 900 = 1800000000
   \<and> window_start_for demo_chrono 2699999999 900 = 1800000000"
proof -
  have "chrono_laws demo_chrono" by (auto simp: chrono_laws_def demo_chrono_def)
  moreover have "from_timestamp demo_chrono (timestamp 1800000005 div 900 * 900) \<noteq> None"
    by (simp add: demo_chrono_def)
  moreover have w: "window_start_for demo_chrono 1800000005 900 = 1800000000"
    by (simp add: window_start_for_def demo_chrono_def timestamp_def)
  ultimately have "\<forall>t. 1800000000 \<le> t \<and> t < 1800000000 + 900 * 1000000
      \<longrightarrow> window_start_for demo_chrono t 900 = 1800000000"
    using window_start_for_partition [of demo_chrono 900 1800000005] by (metis zero_less_numeral)
  with w show ?thesis by simp
qed

text \<open>
  Refund undoes a reservation: refunding the window and cost that \<open>reserve\<close> returned puts the
  account's usage of that window back to what it was, and never touches another window.
\<close>

theorem refund_undoes_reserve:
  assumes "reserve c g a cost w = (Inr r, w1)"
    and "refund g a (rsv_window_start r) (rsv_cost r) w1 = (Inr x, w2)"
    and "class_bounded g (db w)" and "uint (request_cap_per_window g) \<le> i32_max"
  shows "used_in (db w2) a g ws = used_in (db w) a g ws"
proof -
  let ?k = "(a, budget_class_as_str (gate_class g), rsv_window_start r)"
  from reserve_cases [OF assms(1)] obtain used where
    used: "used = (case usage (db w) ?k of None \<Rightarrow> 0 | Some n \<Rightarrow> n)"
    and u1: "usage (db w1) = (usage (db w))(?k \<mapsto> used + uint cost)"
    and cap: "used + uint cost \<le> uint (request_cap_per_window g)" and r: "rsv_cost r = cost"
    by (auto dest!: charge_Accepted)
  have "0 \<le> used" using assms(3) by (auto simp: used class_bounded_def split: option.splits)
  then have "uint cost \<le> i32_max" using cap assms(4) by linarith
  then have "refund_window a (budget_class_as_str (gate_class g)) (rsv_window_start r) (uint cost) w1
      = (Inr x, w2)"
    using assms(2) by (simp add: refund_def Let_def r map_err_Inr)
  from refund_window_usage [OF this] u1 used \<open>0 \<le> used\<close> show ?thesis
    by (auto simp: used_in_def split: option.splits)
qed

theorem refund_undoes_reserve_witness:
  "used_in (db (snd (refund demo_gate 7 1800000000 2
      (snd (reserve demo_chrono demo_gate 7 2 (demo_world demo_archive)))))) 7 demo_gate 1800000000 = 0"
proof -
  let ?w = "demo_world demo_archive"
  let ?w1 = "snd (reserve demo_chrono demo_gate 7 2 ?w)"
  have 1: "reserve demo_chrono demo_gate 7 2 ?w =
      (Inr \<lparr>rsv_window_start = 1800000000, rsv_cost = 2\<rparr>, ?w1)"
    unfolding prod_eq_iff by (rule conjI) (code_simp, simp)
  have 2: "refund demo_gate 7 1800000000 2 ?w1 = (Inr (), snd (refund demo_gate 7 1800000000 2 ?w1))"
    unfolding prod_eq_iff by (rule conjI) (code_simp, simp)
  have 3: "class_bounded demo_gate (db ?w)"
    by (simp add: class_bounded_def usage_def demo_defs empty_archive_def select_one_def)
  have "used_in (db ?w) 7 demo_gate 1800000000 = 0"
    by (simp add: used_in_def usage_def demo_defs empty_archive_def select_one_def)
  with refund_undoes_reserve [OF 1 _ 3, of "()" _ 1800000000] 2 show ?thesis
    by (simp add: demo_gate_def i32_max_def)
qed

end
