(* ===== verification/Normalize.thy ===== *)
theory Normalize
  imports Schema "HOL-Library.Product_Lexorder" "HOL-Library.Option_ord"
begin

text \<open>
  The pure normalization of one official API envelope: \<^verbatim>\<open>x-normalize/src/dto.rs\<close> (the payload
  objects and \<^verbatim>\<open>validate\<close>), \<^verbatim>\<open>records.rs\<close> (the row-shaped output) and \<^verbatim>\<open>normalize.rs\<close>. Strings are
  compared byte by byte, as Rust compares \<^verbatim>\<open>str\<close>. \<^verbatim>\<open>DateTime::parse_from_rfc3339\<close> is the parameter
  \<open>parse\<close>. \<^verbatim>\<open>sort_by\<close> is the library's stable \<open>sort_key\<close>, \<^verbatim>\<open>dedup\<close> is \<open>remdups_adj\<close>.
\<close>

section \<open>Payload objects\<close>

type_synonym extension = "(string \<times> json) list"

record public_metrics =
  pm_retweet_count :: "int option"
  pm_reply_count :: "int option"
  pm_like_count :: "int option"
  pm_quote_count :: "int option"
  pm_bookmark_count :: "int option"
  pm_impression_count :: "int option"
  pm_extension :: extension

record referenced_tweet =
  rt_reference_type :: "string option"
  rt_id :: "string option"
  rt_extension :: extension

record note_tweet =
  nt_text :: "string option"
  nt_extension :: extension

record post_url_entity =
  pu_url :: "string option"
  pu_expanded_url :: "string option"
  pu_unwound_url :: "string option"
  pu_extension :: extension

record post_entities =
  pe_urls :: "post_url_entity list"
  pe_extension :: extension

record attachments =
  at_media_keys :: "string list option"
  at_poll_ids :: "string list option"
  at_extension :: extension

record edit_controls =
  ec_edits_remaining :: "int option"
  ec_is_edit_eligible :: "bool option"
  ec_editable_until :: "string option"
  ec_extension :: extension

record post_object =
  po_id :: "string option"
  po_text :: "string option"
  po_author_id :: "string option"
  po_conversation_id :: "string option"
  po_created_at :: "string option"
  po_lang :: "string option"
  po_public_metrics :: "public_metrics option"
  po_referenced_tweets :: "referenced_tweet list option"
  po_note_tweet :: "note_tweet option"
  po_entities :: "post_entities option"
  po_attachments :: "attachments option"
  po_edit_controls :: "edit_controls option"
  po_edit_history_tweet_ids :: "string list option"
  po_extension :: extension

record user_object =
  uo_id :: "string option"
  uo_name :: "string option"
  uo_username :: "string option"
  uo_extension :: extension

record media_variant =
  mv_bit_rate :: "int option"
  mv_content_type :: "string option"
  mv_url :: "string option"
  mv_extension :: extension

record media_public_metrics =
  mm_view_count :: "int option"
  mm_extension :: extension

record media_object =
  mo_media_key :: "string option"
  mo_kind :: "string option"
  mo_url :: "string option"
  mo_preview_image_url :: "string option"
  mo_width :: "int option"
  mo_height :: "int option"
  mo_alt_text :: "string option"
  mo_duration_ms :: "int option"
  mo_variants :: "media_variant list option"
  mo_public_metrics :: "media_public_metrics option"
  mo_extension :: extension

record includes_object =
  in_users :: "user_object list"
  in_tweets :: "post_object list"
  in_media :: "media_object list"
  in_extension :: extension

record envelope =
  env_data :: "post_object list"
  env_includes :: includes_object
  env_extension :: extension

datatype normalize_error =
    MissingMember string string
  | InvalidMember string string
  | UnresolvedAuthor string

definition require_member :: "string option \<Rightarrow> string \<Rightarrow> string \<Rightarrow> normalize_error + string" where
  "require_member v object member =
     (case v of
        Some found \<Rightarrow> if found \<noteq> [] then Inr found else Inl (MissingMember object member)
      | None \<Rightarrow> Inl (MissingMember object member))"

definition validate_post :: "(string \<Rightarrow> time option) \<Rightarrow> post_object \<Rightarrow> normalize_error + unit" where
  "validate_post parse p =
     (case require_member (po_id p) ''post'' ''id'' of Inl e \<Rightarrow> Inl e | Inr _ \<Rightarrow>
      case require_member (po_text p) ''post'' ''text'' of Inl e \<Rightarrow> Inl e | Inr _ \<Rightarrow>
      case require_member (po_author_id p) ''post'' ''author_id'' of Inl e \<Rightarrow> Inl e | Inr _ \<Rightarrow>
      case require_member (po_created_at p) ''post'' ''created_at'' of Inl e \<Rightarrow> Inl e | Inr raw \<Rightarrow>
      (case parse raw of None \<Rightarrow> Inl (InvalidMember ''post'' ''created_at'') | Some _ \<Rightarrow> Inr ()))"

primrec validate_posts ::
  "(string \<Rightarrow> time option) \<Rightarrow> post_object list \<Rightarrow> normalize_error + unit" where
  "validate_posts parse [] = Inr ()"
| "validate_posts parse (p # ps) =
     (case validate_post parse p of Inl e \<Rightarrow> Inl e | Inr _ \<Rightarrow> validate_posts parse ps)"

definition validate :: "(string \<Rightarrow> time option) \<Rightarrow> envelope \<Rightarrow> normalize_error + unit" where
  "validate parse e =
     (if env_data e = [] then Inl (MissingMember ''envelope'' ''data'')
      else validate_posts parse (env_data e))"

section \<open>Normalized records\<close>

definition PARSER_VERSION :: int where
  "PARSER_VERSION = 1"

record normalized_user =
  nu_parser_version :: int
  nu_provider_id :: string
  nu_username :: "string option"
  nu_display_name :: "string option"
  nu_extension :: extension

record normalized_post =
  np_parser_version :: int
  np_provider_id :: string
  np_author_provider_id :: string
  np_text :: string
  np_long_text :: "string option"
  np_language :: "string option"
  np_published_at :: "time option"
  np_edited_at :: "time option"
  np_availability :: availability
  np_conversation_provider_id :: "string option"
  np_like_count :: "int option"
  np_retweet_count :: "int option"
  np_reply_count :: "int option"
  np_quote_count :: "int option"
  np_bookmark_count :: "int option"
  np_impression_count :: "int option"
  np_media_keys :: "string list"
  np_expanded_urls :: "string list"
  np_extension :: extension

record normalized_relation =
  nr_parser_version :: int
  nr_post_provider_id :: string
  nr_related_post_provider_id :: string
  nr_relation :: relation

record normalized_media =
  nm_parser_version :: int
  nm_post_provider_id :: string
  nm_provider_id :: string
  nm_kind :: "media_kind option"
  nm_metadata :: json
  nm_blob_ref :: "string option"

record normalized_batch =
  nb_users :: "normalized_user list"
  nb_posts :: "normalized_post list"
  nb_relations :: "normalized_relation list"
  nb_media :: "normalized_media list"

text \<open>The derived order of \<^verbatim>\<open>Relation\<close> follows its declaration order.\<close>

fun relation_rank :: "relation \<Rightarrow> nat" where
  "relation_rank Reply = 0"
| "relation_rank Quote = 1"
| "relation_rank Repost = 2"

lemma relation_rank_inj: "relation_rank x = relation_rank y \<longleftrightarrow> x = y"
  by (cases x; cases y) auto

instantiation relation :: linorder
begin

definition less_eq_relation :: "relation \<Rightarrow> relation \<Rightarrow> bool" where
  "x \<le> y \<longleftrightarrow> relation_rank x \<le> relation_rank y"

definition less_relation :: "relation \<Rightarrow> relation \<Rightarrow> bool" where
  "x < y \<longleftrightarrow> relation_rank x < relation_rank y"

instance
  by standard (auto simp: less_eq_relation_def less_relation_def relation_rank_inj)

end

text \<open>The derived lexicographic order of \<^verbatim>\<open>NormalizedRelation\<close>.\<close>

definition nr_order :: "normalized_relation \<Rightarrow> int \<times> string \<times> string \<times> relation" where
  "nr_order r = (nr_parser_version r, nr_post_provider_id r, nr_related_post_provider_id r,
     nr_relation r)"

lemma nr_order_inj: "nr_order r = nr_order s \<longleftrightarrow> r = s"
  by (cases r; cases s) (auto simp: nr_order_def)

section \<open>Normalization\<close>

definition UNRESOLVED_REFERENCES_KEY :: string where
  "UNRESOLVED_REFERENCES_KEY = ''ratatoskr.x/unresolved_references''"

definition str_or_default :: "string option \<Rightarrow> string" where
  "str_or_default v = (case v of None \<Rightarrow> [] | Some s \<Rightarrow> s)"

definition author_index :: "envelope \<Rightarrow> string \<rightharpoonup> user_object" where
  "author_index e =
     fold (\<lambda>u m. case uo_id u of Some i \<Rightarrow> m(i \<mapsto> u) | None \<Rightarrow> m) (in_users (env_includes e)) Map.empty"

definition media_index :: "envelope \<Rightarrow> string \<rightharpoonup> media_object" where
  "media_index e =
     fold (\<lambda>x m. case mo_media_key x of Some k \<Rightarrow> m(k \<mapsto> x) | None \<Rightarrow> m)
       (in_media (env_includes e)) Map.empty"

definition classify_media_kind :: "string option \<Rightarrow> media_kind option" where
  "classify_media_kind kind =
     (case kind of None \<Rightarrow> None
      | Some k \<Rightarrow> if k = ''photo'' then Some Photo
                  else if k = ''video'' then Some Video
                  else if k = ''animated_gif'' then Some AnimatedGif
                  else None)"

text \<open>The loop that inserts the members that are present.\<close>

definition insert_present :: "(string \<times> json option) list \<Rightarrow> extension \<Rightarrow> extension" where
  "insert_present kvs doc =
     fold (\<lambda>(k, v) m. case v of None \<Rightarrow> m | Some j \<Rightarrow> obj_insert k j m) kvs doc"

definition extend :: "extension \<Rightarrow> extension \<Rightarrow> extension" where
  "extend kvs doc = fold (\<lambda>(k, v) m. obj_insert k v m) kvs doc"

definition variant_value :: "media_variant \<Rightarrow> json" where
  "variant_value v = JObj (insert_present
     [(''bit_rate'', map_option JNum (mv_bit_rate v)),
      (''content_type'', map_option JStr (mv_content_type v)),
      (''url'', map_option JStr (mv_url v))] [])"

definition media_metadata_document :: "media_object \<Rightarrow> json" where
  "media_metadata_document m =
     (let doc1 = insert_present
            [(''url'', map_option JStr (mo_url m)),
             (''preview_image_url'', map_option JStr (mo_preview_image_url m)),
             (''width'', map_option JNum (mo_width m)),
             (''height'', map_option JNum (mo_height m)),
             (''alt_text'', map_option JStr (mo_alt_text m)),
             (''duration_ms'', map_option JNum (mo_duration_ms m))] [];
          doc2 = (case mo_variants m of None \<Rightarrow> doc1
                  | Some vs \<Rightarrow> obj_insert ''variants'' (JArr (map variant_value vs)) doc1);
          doc3 = (case mo_public_metrics m of None \<Rightarrow> doc2
                  | Some pm \<Rightarrow> obj_insert ''public_metrics''
                      (JObj (extend (mm_extension pm)
                        (insert_present [(''view_count'', map_option JNum (mm_view_count pm))] [])))
                      doc2)
      in JObj (obj_insert ''extension'' (JObj (mo_extension m)) doc3))"

definition normalize_media_record :: "string \<Rightarrow> media_object \<Rightarrow> normalized_media" where
  "normalize_media_record pid m =
     \<lparr>nm_parser_version = PARSER_VERSION, nm_post_provider_id = pid,
      nm_provider_id = str_or_default (mo_media_key m), nm_kind = classify_media_kind (mo_kind m),
      nm_metadata = media_metadata_document m, nm_blob_ref = None\<rparr>"

definition classify_reference :: "referenced_tweet \<Rightarrow> (string \<times> relation) option" where
  "classify_reference r =
     (case rt_id r of None \<Rightarrow> None
      | Some target \<Rightarrow>
        (case rt_reference_type r of None \<Rightarrow> None
         | Some t \<Rightarrow> if t = ''replied_to'' then Some (target, Reply)
                     else if t = ''quoted'' then Some (target, Quote)
                     else if t = ''retweeted'' then Some (target, Repost)
                     else None))"

text \<open>\<^verbatim>\<open>serde_json::to_value\<close> of a reference entry: its two members and the flattened extension.\<close>

definition reference_value :: "referenced_tweet \<Rightarrow> json" where
  "reference_value r =
     JObj (extend (rt_extension r)
       (extend [(''type'', jopt_str (rt_reference_type r)), (''id'', jopt_str (rt_id r))] []))"

definition post_references :: "post_object \<Rightarrow> referenced_tweet list" where
  "post_references p = (case po_referenced_tweets p of None \<Rightarrow> [] | Some rs \<Rightarrow> rs)"

definition split_references :: "post_object \<Rightarrow> (string \<times> relation) list \<times> json list" where
  "split_references p =
     foldl (\<lambda>(mapped, unresolved) r.
         case classify_reference r of
           Some pair \<Rightarrow> (mapped @ [pair], unresolved)
         | None \<Rightarrow> (mapped, unresolved @ [reference_value r]))
       ([], []) (post_references p)"

definition post_media_keys :: "post_object \<Rightarrow> string list" where
  "post_media_keys p =
     (case po_attachments p of None \<Rightarrow> []
      | Some a \<Rightarrow> (case at_media_keys a of None \<Rightarrow> [] | Some ks \<Rightarrow> ks))"

definition expanded_url_of :: "post_url_entity \<Rightarrow> string option" where
  "expanded_url_of u = (case pu_unwound_url u of Some x \<Rightarrow> Some x | None \<Rightarrow> pu_expanded_url u)"

definition normalize_post ::
  "(string \<Rightarrow> time option) \<Rightarrow> post_object \<Rightarrow> string \<Rightarrow> json list \<Rightarrow> normalize_error + normalized_post"
where
  "normalize_post parse p author unresolved =
     (case parse (str_or_default (po_created_at p)) of
        None \<Rightarrow> Inl (InvalidMember ''post'' ''created_at'')
      | Some parsed \<Rightarrow>
        (let metric = (\<lambda>f. case po_public_metrics p of None \<Rightarrow> None | Some m \<Rightarrow> f m)
         in Inr
          \<lparr>np_parser_version = PARSER_VERSION,
           np_provider_id = str_or_default (po_id p),
           np_author_provider_id = author,
           np_text = str_or_default (po_text p),
           np_long_text = (case po_note_tweet p of None \<Rightarrow> None | Some n \<Rightarrow> nt_text n),
           np_language = po_lang p,
           np_published_at = Some parsed,
           np_edited_at = None,
           np_availability = Active,
           np_conversation_provider_id = po_conversation_id p,
           np_like_count = metric pm_like_count,
           np_retweet_count = metric pm_retweet_count,
           np_reply_count = metric pm_reply_count,
           np_quote_count = metric pm_quote_count,
           np_bookmark_count = metric pm_bookmark_count,
           np_impression_count = metric pm_impression_count,
           np_media_keys = remdups_adj (sort (post_media_keys p)),
           np_expanded_urls = remdups_adj (sort (List.map_filter expanded_url_of
             (case po_entities p of None \<Rightarrow> [] | Some es \<Rightarrow> pe_urls es))),
           np_extension = (if unresolved = [] then po_extension p
             else obj_insert UNRESOLVED_REFERENCES_KEY (JArr unresolved) (po_extension p))\<rparr>))"

definition push_user_once :: "string set \<Rightarrow> user_object \<Rightarrow> string \<Rightarrow> normalized_batch \<Rightarrow> normalized_batch" where
  "push_user_once seen author pid b =
     (if pid \<in> seen then b
      else b\<lparr>nb_users := nb_users b @ [
        \<lparr>nu_parser_version = PARSER_VERSION, nu_provider_id = pid, nu_username = uo_username author,
         nu_display_name = uo_name author, nu_extension = uo_extension author\<rparr>]\<rparr>)"

definition relation_records :: "string \<Rightarrow> (string \<times> relation) list \<Rightarrow> normalized_relation list" where
  "relation_records pid refs =
     map (\<lambda>(target, rel). \<lparr>nr_parser_version = PARSER_VERSION, nr_post_provider_id = pid,
            nr_related_post_provider_id = target, nr_relation = rel\<rparr>) refs"

definition media_records ::
  "(string \<rightharpoonup> media_object) \<Rightarrow> string \<Rightarrow> string list \<Rightarrow> normalized_media list" where
  "media_records idx pid keys =
     List.map_filter (\<lambda>k. map_option (normalize_media_record pid) (idx k)) keys"

primrec normalize_loop ::
  "(string \<Rightarrow> time option) \<Rightarrow> (string \<rightharpoonup> user_object) \<Rightarrow> (string \<rightharpoonup> media_object)
   \<Rightarrow> post_object list \<Rightarrow> string set \<Rightarrow> normalized_batch \<Rightarrow> normalize_error + normalized_batch"
where
  "normalize_loop parse authors idx [] seen b = Inr b"
| "normalize_loop parse authors idx (p # ps) seen b =
     (let pid = str_or_default (po_id p); author_id = str_or_default (po_author_id p) in
      case authors author_id of
        None \<Rightarrow> Inl (UnresolvedAuthor pid)
      | Some author \<Rightarrow>
        (let b1 = push_user_once seen author author_id b;
             (mapped, unresolved) = split_references p
         in case normalize_post parse p author_id unresolved of
              Inl e \<Rightarrow> Inl e
            | Inr np \<Rightarrow>
                normalize_loop parse authors idx ps (insert author_id seen)
                  (b1\<lparr>nb_posts := nb_posts b1 @ [np],
                      nb_relations := nb_relations b1 @ relation_records pid mapped,
                      nb_media := nb_media b1 @ media_records idx pid (post_media_keys p)\<rparr>)))"

definition empty_batch :: normalized_batch where
  "empty_batch = \<lparr>nb_users = [], nb_posts = [], nb_relations = [], nb_media = []\<rparr>"

definition sort_batch :: "normalized_batch \<Rightarrow> normalized_batch" where
  "sort_batch b =
     \<lparr>nb_users = sort_key nu_provider_id (nb_users b),
      nb_posts = sort_key np_provider_id (nb_posts b),
      nb_relations = remdups_adj (sort_key nr_order (nb_relations b)),
      nb_media = sort_key (\<lambda>m. (nm_post_provider_id m, nm_provider_id m)) (nb_media b)\<rparr>"

definition normalize :: "(string \<Rightarrow> time option) \<Rightarrow> envelope \<Rightarrow> normalize_error + normalized_batch" where
  "normalize parse e =
     (case validate parse e of
        Inl err \<Rightarrow> Inl err
      | Inr _ \<Rightarrow>
        (let ordered = sort_key po_id (env_data e) in
         case normalize_loop parse (author_index e) (media_index e) ordered {} empty_batch of
           Inl err \<Rightarrow> Inl err
         | Inr b \<Rightarrow> Inr (sort_batch b)))"

section \<open>Validation\<close>

definition member_present :: "string option \<Rightarrow> bool" where
  "member_present v \<longleftrightarrow> (\<exists>s. v = Some s \<and> s \<noteq> [])"

definition post_valid :: "(string \<Rightarrow> time option) \<Rightarrow> post_object \<Rightarrow> bool" where
  "post_valid parse p \<longleftrightarrow>
     member_present (po_id p) \<and> member_present (po_text p) \<and> member_present (po_author_id p)
     \<and> member_present (po_created_at p) \<and> parse (str_or_default (po_created_at p)) \<noteq> None"

lemma require_member_Inr:
  "require_member v object member = Inr s \<longleftrightarrow> v = Some s \<and> s \<noteq> []"
  by (auto simp: require_member_def split: option.splits)

lemma require_member_ok:
  "(\<exists>s. require_member v object member = Inr s) \<longleftrightarrow> member_present v"
  by (auto simp: require_member_Inr member_present_def)

lemma validate_post_ok: "validate_post parse p = Inr () \<longleftrightarrow> post_valid parse p"
  by (auto simp: validate_post_def post_valid_def member_present_def require_member_def
      str_or_default_def split: option.splits sum.splits)

lemma validate_posts_ok: "validate_posts parse ps = Inr () \<longleftrightarrow> (\<forall>p \<in> set ps. post_valid parse p)"
  by (induction ps) (auto simp: validate_post_ok [symmetric] split: sum.splits)

lemma validate_ok:
  "validate parse e = Inr () \<longleftrightarrow> env_data e \<noteq> [] \<and> (\<forall>p \<in> set (env_data e). post_valid parse p)"
  by (simp add: validate_def validate_posts_ok)

section \<open>References\<close>

lemma split_references_fold:
  "foldl (\<lambda>(mapped, unresolved) r.
         case classify_reference r of
           Some pair \<Rightarrow> (mapped @ [pair], unresolved)
         | None \<Rightarrow> (mapped, unresolved @ [reference_value r])) (ms, us) rs
   = (ms @ List.map_filter classify_reference rs,
      us @ map reference_value (filter (\<lambda>r. classify_reference r = None) rs))"
  by (induction rs arbitrary: ms us) (auto simp: List.map_filter_def split: option.splits)

lemma split_references_eq:
  "split_references p =
     (List.map_filter classify_reference (post_references p),
      map reference_value (filter (\<lambda>r. classify_reference r = None) (post_references p)))"
  by (simp add: split_references_def split_references_fold)

section \<open>The loop\<close>

text \<open>
  What the loop keeps: authors are emitted once, and every post, relation and media record refers
  to records that are in the batch.
\<close>

definition batch_closed :: "string set \<Rightarrow> normalized_batch \<Rightarrow> bool" where
  "batch_closed seen b \<longleftrightarrow>
     nu_provider_id ` set (nb_users b) = seen \<and> distinct (map nu_provider_id (nb_users b))
     \<and> (\<forall>p \<in> set (nb_posts b). np_author_provider_id p \<in> seen)
     \<and> (\<forall>r \<in> set (nb_relations b). nr_post_provider_id r \<in> np_provider_id ` set (nb_posts b))
     \<and> (\<forall>m \<in> set (nb_media b). nm_post_provider_id m \<in> np_provider_id ` set (nb_posts b))"

lemma normalize_post_ids:
  "normalize_post parse p author us = Inr np \<Longrightarrow>
     np_provider_id np = str_or_default (po_id p) \<and> np_author_provider_id np = author"
  by (auto simp: normalize_post_def Let_def split: option.splits)

lemma push_user_once_frame [simp]:
  "nb_posts (push_user_once seen u pid b) = nb_posts b"
  "nb_relations (push_user_once seen u pid b) = nb_relations b"
  "nb_media (push_user_once seen u pid b) = nb_media b"
  by (simp_all add: push_user_once_def)

lemma push_user_once_users:
  "nu_provider_id ` set (nb_users b) = seen \<Longrightarrow> distinct (map nu_provider_id (nb_users b)) \<Longrightarrow>
     nu_provider_id ` set (nb_users (push_user_once seen u pid b)) = insert pid seen
     \<and> distinct (map nu_provider_id (nb_users (push_user_once seen u pid b)))"
  by (auto simp: push_user_once_def)

lemma relation_records_post: "r \<in> set (relation_records pid refs) \<Longrightarrow> nr_post_provider_id r = pid"
  by (auto simp: relation_records_def)

lemma media_records_post: "m \<in> set (media_records idx pid keys) \<Longrightarrow> nm_post_provider_id m = pid"
  by (auto simp: media_records_def List.map_filter_def normalize_media_record_def split: if_splits)

lemma normalize_loop_closed:
  assumes "normalize_loop parse authors idx ps seen b = Inr b'" and "batch_closed seen b"
  shows "(\<exists>seen'. batch_closed seen' b')
    \<and> map np_provider_id (nb_posts b') = map np_provider_id (nb_posts b) @ map (str_or_default \<circ> po_id) ps"
  using assms
proof (induction ps arbitrary: seen b)
  case Nil
  then show ?case by auto
next
  case (Cons p ps)
  let ?pid = "str_or_default (po_id p)" and ?aid = "str_or_default (po_author_id p)"
  obtain mapped unresolved where sp: "split_references p = (mapped, unresolved)" by fastforce
  from Cons.prems(1) obtain u np where
      np: "normalize_post parse p ?aid unresolved = Inr np"
      and rest: "normalize_loop parse authors idx ps (insert ?aid seen)
          ((push_user_once seen u ?aid b)
             \<lparr>nb_posts := nb_posts b @ [np],
              nb_relations := nb_relations b @ relation_records ?pid mapped,
              nb_media := nb_media b @ media_records idx ?pid (post_media_keys p)\<rparr>) = Inr b'"
    by (auto simp: Let_def sp split: option.splits sum.splits)
  note ids = normalize_post_ids [OF np]
  have "batch_closed (insert ?aid seen) ((push_user_once seen u ?aid b)
             \<lparr>nb_posts := nb_posts b @ [np],
              nb_relations := nb_relations b @ relation_records ?pid mapped,
              nb_media := nb_media b @ media_records idx ?pid (post_media_keys p)\<rparr>)"
    using Cons.prems(2) push_user_once_users [of b seen u ?aid] ids
    unfolding batch_closed_def by (auto dest: relation_records_post media_records_post)
  from Cons.IH [OF rest this] ids show ?case by simp
qed

lemma batch_closed_empty [simp]: "batch_closed {} empty_batch"
  by (simp add: batch_closed_def empty_batch_def)

lemma batch_closed_sort: "batch_closed seen (sort_batch b) \<longleftrightarrow> batch_closed seen b"
proof -
  have "distinct (map nu_provider_id (sort_key nu_provider_id (nb_users b)))
      = distinct (map nu_provider_id (nb_users b))"
    by (simp add: distinct_map)
  then show ?thesis by (simp add: batch_closed_def sort_batch_def)
qed

lemma normalize_Inr:
  assumes "normalize parse e = Inr b"
  obtains b0 where "validate parse e = Inr ()" and "b = sort_batch b0"
    and "normalize_loop parse (author_index e) (media_index e) (sort_key po_id (env_data e)) {} empty_batch
         = Inr b0"
  using assms by (auto simp: normalize_def Let_def split: sum.splits)

lemma normalize_batch_closed:
  assumes "normalize parse e = Inr b"
  shows "(\<forall>p \<in> set (nb_posts b). np_author_provider_id p \<in> nu_provider_id ` set (nb_users b))
    \<and> distinct (map nu_provider_id (nb_users b))
    \<and> (\<forall>r \<in> set (nb_relations b). nr_post_provider_id r \<in> np_provider_id ` set (nb_posts b))
    \<and> (\<forall>m \<in> set (nb_media b). nm_post_provider_id m \<in> np_provider_id ` set (nb_posts b))
    \<and> mset (map np_provider_id (nb_posts b)) = mset (map (str_or_default \<circ> po_id) (env_data e))"
proof -
  from assms obtain b0 where b: "b = sort_batch b0"
    and lp: "normalize_loop parse (author_index e) (media_index e) (sort_key po_id (env_data e)) {}
         empty_batch = Inr b0"
    by (rule normalize_Inr)
  from normalize_loop_closed [OF lp batch_closed_empty] obtain seen where
    cl: "batch_closed seen b"
    and ids: "map np_provider_id (nb_posts b0) = map (str_or_default \<circ> po_id) (sort_key po_id (env_data e))"
    by (auto simp: b batch_closed_sort empty_batch_def)
  have "mset (map np_provider_id (nb_posts b)) = mset (map (str_or_default \<circ> po_id) (env_data e))"
  proof -
    have "mset (map np_provider_id (nb_posts b)) = mset (map np_provider_id (nb_posts b0))"
      by (simp add: b sort_batch_def)
    also have "\<dots> = mset (map (str_or_default \<circ> po_id) (env_data e))"
      unfolding ids by simp
    finally show ?thesis .
  qed
  with cl show ?thesis by (auto simp: batch_closed_def)
qed

text \<open>
  Referential closure of a normalized batch: every post's author is among the emitted users,
  each author is emitted once, every relation and media record belongs to an emitted post, and the
  emitted posts are exactly the envelope's posts, in provider-id order. Nothing downstream can
  meet a post without an author row or a relation without a post row.
\<close>

theorem normalize_closed:
  assumes "normalize parse e = Inr b"
  shows "(\<forall>p \<in> set (nb_posts b). np_author_provider_id p \<in> nu_provider_id ` set (nb_users b))
    \<and> distinct (map nu_provider_id (nb_users b))
    \<and> (\<forall>r \<in> set (nb_relations b). nr_post_provider_id r \<in> np_provider_id ` set (nb_posts b))
    \<and> (\<forall>m \<in> set (nb_media b). nm_post_provider_id m \<in> np_provider_id ` set (nb_posts b))
    \<and> mset (map np_provider_id (nb_posts b)) = mset (map (str_or_default \<circ> po_id) (env_data e))"
  by (rule normalize_batch_closed [OF assms])

definition demo_user :: user_object where
  "demo_user = \<lparr>uo_id = Some ''u1'', uo_name = Some ''Ada'', uo_username = Some ''ada'', uo_extension = []\<rparr>"

definition demo_post :: "string \<Rightarrow> post_object" where
  "demo_post pid = \<lparr>po_id = Some pid, po_text = Some ''hello'', po_author_id = Some ''u1'',
     po_conversation_id = None, po_created_at = Some ''2026-01-01T00:00:00Z'', po_lang = None,
     po_public_metrics = None,
     po_referenced_tweets = Some [
       \<lparr>rt_reference_type = Some ''quoted'', rt_id = Some ''9'', rt_extension = []\<rparr>,
       \<lparr>rt_reference_type = Some ''pinned'', rt_id = Some ''8'', rt_extension = []\<rparr>],
     po_note_tweet = None, po_entities = None, po_attachments = None, po_edit_controls = None,
     po_edit_history_tweet_ids = None, po_extension = []\<rparr>"

definition demo_envelope :: "string list \<Rightarrow> envelope" where
  "demo_envelope ids = \<lparr>env_data = map demo_post ids,
     env_includes = \<lparr>in_users = [demo_user], in_tweets = [], in_media = [], in_extension = []\<rparr>,
     env_extension = []\<rparr>"

definition demo_parse :: "string \<Rightarrow> time option" where
  "demo_parse s = (if s = ''2026-01-01T00:00:00Z'' then Some 1767225600000000 else None)"

definition the_batch :: "normalize_error + normalized_batch \<Rightarrow> normalized_batch" where
  "the_batch r = (case r of Inr b \<Rightarrow> b | Inl _ \<Rightarrow> empty_batch)"

lemma demo_normalize_ok:
  "normalize demo_parse (demo_envelope [''2'', ''1'']) =
     Inr (the_batch (normalize demo_parse (demo_envelope [''2'', ''1''])))"
  by code_simp

theorem normalize_closed_witness:
  "map np_provider_id (nb_posts (the_batch (normalize demo_parse (demo_envelope [''2'', ''1'']))))
     = [''1'', ''2''] \<and>
   list_all (\<lambda>p. np_author_provider_id p
        \<in> nu_provider_id ` set (nb_users (the_batch (normalize demo_parse (demo_envelope [''2'', ''1''])))))
     (nb_posts (the_batch (normalize demo_parse (demo_envelope [''2'', ''1'']))))"
proof -
  have "map np_provider_id (nb_posts (the_batch (normalize demo_parse (demo_envelope [''2'', ''1'']))))
     = [''1'', ''2'']"
    by code_simp
  with normalize_closed [OF demo_normalize_ok] show ?thesis by (auto simp: list_all_iff)
qed

section \<open>Outcomes\<close>

lemma normalize_post_ok:
  "post_valid parse p \<Longrightarrow> \<exists>np. normalize_post parse p author us = Inr np"
  by (auto simp: post_valid_def normalize_post_def Let_def)

lemma normalize_loop_outcome:
  assumes "\<forall>p \<in> set ps. post_valid parse p"
  shows "case find (\<lambda>p. authors (str_or_default (po_author_id p)) = None) ps of
      Some p \<Rightarrow> normalize_loop parse authors idx ps seen b = Inl (UnresolvedAuthor (str_or_default (po_id p)))
    | None \<Rightarrow> \<exists>b'. normalize_loop parse authors idx ps seen b = Inr b'"
  using assms
proof (induction ps arbitrary: seen b)
  case Nil
  then show ?case by simp
next
  case (Cons p ps)
  obtain mapped unresolved where sp: "split_references p = (mapped, unresolved)" by fastforce
  from Cons.prems obtain np where
    "normalize_post parse p (str_or_default (po_author_id p)) unresolved = Inr np"
    using normalize_post_ok by fastforce
  with Cons sp show ?case by (auto simp: Let_def split: option.splits)
qed

text \<open>
  The complete outcome of \<open>normalize\<close>. A validation refusal is passed through; on a valid
  envelope the call succeeds exactly when every post's author is among the included users, and
  otherwise refuses with the unresolved post that is least in provider-id order, so the reported
  refusal does not depend on the order in which the provider listed the posts. An envelope without
  posts is always refused.
\<close>

theorem normalize_outcome:
  "case validate parse e of
     Inl err \<Rightarrow> normalize parse e = Inl err
   | Inr _ \<Rightarrow>
      (case find (\<lambda>p. author_index e (str_or_default (po_author_id p)) = None)
              (sort_key po_id (env_data e)) of
         Some p \<Rightarrow> normalize parse e = Inl (UnresolvedAuthor (str_or_default (po_id p)))
       | None \<Rightarrow> (\<exists>b. normalize parse e = Inr b))"
proof (cases "validate parse e")
  case (Inl err)
  then show ?thesis by (simp add: normalize_def)
next
  case (Inr u)
  then have "\<forall>p \<in> set (sort_key po_id (env_data e)). post_valid parse p"
    using validate_ok by simp
  from normalize_loop_outcome [OF this, of "author_index e" "media_index e" "{}" empty_batch] Inr
  show ?thesis by (auto simp: normalize_def Let_def split: option.splits)
qed

text \<open>
  Every output collection is sorted: posts by provider id, users strictly (no duplicates),
  relations strictly by owning post, target and kind, media by owning post and key.
\<close>

theorem normalize_sorted:
  assumes "normalize parse e = Inr b"
  shows "sorted (map np_provider_id (nb_posts b))
    \<and> sorted_wrt (<) (map nu_provider_id (nb_users b))
    \<and> sorted_wrt (<) (map nr_order (nb_relations b))
    \<and> sorted (map (\<lambda>m. (nm_post_provider_id m, nm_provider_id m)) (nb_media b))"
proof -
  from assms obtain b0 where b: "b = sort_batch b0" by (rule normalize_Inr)
  have "sorted_wrt (<) (map nu_provider_id (nb_users b))"
    using normalize_batch_closed [OF assms] by (simp add: strict_sorted_iff b sort_batch_def)
  moreover have "sorted_wrt (<) (map nr_order (nb_relations b))"
  proof -
    have inj: "inj_on nr_order A" for A by (auto simp: inj_on_def nr_order_inj)
    have "map nr_order (nb_relations b) = remdups_adj (map nr_order (sort_key nr_order (nb_relations b0)))"
      by (simp add: b sort_batch_def remdups_adj_map_injective inj)
    then show ?thesis by (simp add: strict_sorted_remdups_adj)
  qed
  ultimately show ?thesis by (simp add: b sort_batch_def)
qed

theorem normalize_sorted_witness:
  "sorted (map np_provider_id (nb_posts (the_batch (normalize demo_parse (demo_envelope [''2'', ''1''])))))"
  using normalize_sorted [OF demo_normalize_ok] by blast

text \<open>
  Normalization does not depend on the order of the payload: two envelopes with the same
  includes whose posts are a permutation of each other and have pairwise different ids normalize
  to the same batch.
\<close>

theorem normalize_order_independent:
  assumes "mset (env_data e) = mset (env_data e')" and "env_includes e = env_includes e'"
    and "distinct (map po_id (env_data e))" and "validate parse e = Inr ()"
  shows "normalize parse e' = normalize parse e"
proof -
  have "validate parse e' = Inr ()"
    using assms(1,4) by (metis validate_ok mset_eq_setD mset_zero_iff)
  moreover have "sort_key po_id (env_data e') = sort_key po_id (env_data e)"
    using sort_key_perm_unique [OF assms(1,3)] by simp
  moreover have "author_index e' = author_index e" "media_index e' = media_index e"
    by (simp_all add: author_index_def media_index_def assms(2))
  ultimately show ?thesis using assms(4) by (simp add: normalize_def)
qed

theorem normalize_order_independent_witness:
  "normalize demo_parse (demo_envelope [''1'', ''2'']) = normalize demo_parse (demo_envelope [''2'', ''1''])"
proof (rule normalize_order_independent)
  show "mset (env_data (demo_envelope [''2'', ''1''])) = mset (env_data (demo_envelope [''1'', ''2'']))"
    by (simp add: demo_envelope_def)
  show "validate demo_parse (demo_envelope [''2'', ''1'']) = Inr ()" by code_simp
qed (simp_all add: demo_envelope_def demo_post_def)

text \<open>
  No reference is silently dropped: of a post's reference entries, those of a known kind become
  relations (in order) and all others are preserved, serialised, under the reserved extension key of
  the normalized post; together they account for every entry.
\<close>

theorem references_preserved:
  assumes "split_references p = (mapped, unresolved)"
    and "normalize_post parse p author unresolved = Inr np"
  shows "mapped = List.map_filter classify_reference (post_references p)
    \<and> length mapped + length unresolved = length (post_references p)
    \<and> (unresolved \<noteq> [] \<longrightarrow> sorted_wrt (<) (map fst (po_extension p)) \<longrightarrow>
        map_of (np_extension np) UNRESOLVED_REFERENCES_KEY = Some (JArr unresolved))
    \<and> (\<forall>r \<in> set (post_references p). classify_reference r = None \<longrightarrow> reference_value r \<in> set unresolved)"
proof -
  from assms(1) have mapped: "mapped = List.map_filter classify_reference (post_references p)"
    and un: "unresolved = map reference_value (filter (\<lambda>r. classify_reference r = None) (post_references p))"
    by (simp_all add: split_references_eq)
  have "length (List.map_filter classify_reference rs)
      + length (filter (\<lambda>r. classify_reference r = None) rs) = length rs" for rs
    by (induction rs) (auto simp: List.map_filter_def)
  moreover have "map_of (np_extension np) UNRESOLVED_REFERENCES_KEY = Some (JArr unresolved)"
    if "unresolved \<noteq> []" "sorted_wrt (<) (map fst (po_extension p))"
    using assms(2) that by (auto simp: normalize_post_def Let_def map_of_obj_insert split: option.splits)
  ultimately show ?thesis using mapped un by simp
qed

theorem references_preserved_witness:
  "\<exists>mapped unresolved. split_references (demo_post ''1'') = (mapped, unresolved)
     \<and> length mapped = 1 \<and> length unresolved = 1"
proof -
  obtain mapped unresolved where sp: "split_references (demo_post ''1'') = (mapped, unresolved)"
    by fastforce
  then have m: "length mapped = 1"
    by (auto simp: split_references_eq demo_post_def post_references_def classify_reference_def
        List.map_filter_def)
  have "post_valid demo_parse (demo_post ''1'')"
    by (simp add: post_valid_def member_present_def demo_post_def demo_parse_def str_or_default_def)
  then obtain np where "normalize_post demo_parse (demo_post ''1'') ''u1'' unresolved = Inr np"
    using normalize_post_ok by blast
  from references_preserved [OF sp this] m sp show ?thesis
    by (auto simp: demo_post_def post_references_def)
qed

end
