(* ===== verification/Outbox.thy ===== *)
theory Outbox
  imports Schema
begin

text \<open>
  The envelope outbox: \<^verbatim>\<open>x-persistence/src/outbox.rs\<close> (the statements on \<^verbatim>\<open>outbox_events\<close>) and
  \<^verbatim>\<open>x-sync/src/envelopes.rs\<close> (the one place where envelopes are built). The grammars of the shared
  contract crates (entity references, wire timestamps, payload schemas) and the text form of
  identifiers and instants are fields of the parameter \<open>contracts\<close>. Durations are exact numbers of
  microseconds where the statement computes in \<^verbatim>\<open>float8\<close> seconds.
\<close>

section \<open>The contract crates\<close>

record contracts =
  uuid_text :: "uuid \<Rightarrow> string"
  rfc3339_nanos :: "time \<Rightarrow> string"
  rfc3339 :: "time \<Rightarrow> string"
  entity_ref_ok :: "string \<Rightarrow> bool"
  wire_timestamp_ok :: "string \<Rightarrow> bool"
  producer_name_ok :: "string \<Rightarrow> bool"
  tenant_ref :: "uuid \<Rightarrow> string"
  payload_ok :: "string \<Rightarrow> json \<Rightarrow> bool"
  envelope_encodes :: "wire_envelope \<Rightarrow> bool"
  social_snapshot_ok :: "json \<Rightarrow> bool"
  social_removed_ok :: "json \<Rightarrow> bool"
  json_bytes :: "json \<Rightarrow> 8 word list option"
  sha256 :: "8 word list \<Rightarrow> 8 word list"
  capture_url_ok :: "string \<Rightarrow> bool"
  digest_hex_ok :: "string \<Rightarrow> bool"
  hash_order :: "uuid list \<Rightarrow> uuid list"

section \<open>Queueing an envelope\<close>

datatype outbox_error = Encode | OutboxQuery

datatype queue_error = Identifier | PayloadError | QueueOutbox outbox_error

definition allowed_event_types :: "string list" where
  "allowed_event_types = [''platform.operation.reported.v1'', ''social.source.captured.v1'',
     ''social.source.updated.v1'', ''social.source.removed.v1'', ''content.capture.requested.v1'']"

definition REMOVAL_EVENT_TYPE :: string where
  "REMOVAL_EVENT_TYPE = ''social.source.removed.v1''"

definition outbox_row :: "time \<Rightarrow> wire_envelope \<Rightarrow> outbox_event" where
  "outbox_row now e =
     \<lparr>out_id = we_id e, out_aggregate = we_aggregate_id e, out_event_type = we_type e,
      out_payload = e, out_correlation_id = we_correlation_id e,
      out_causation_id = we_causation_id e, out_created_at = now, out_published_at = None,
      out_attempt_count = 0, out_last_error = None, out_next_attempt_at = now,
      out_undeliverable_at = None, out_acknowledged_at = None, out_ack_outcome = None,
      out_resend_count = 0, out_next_resend_at = None\<rparr>"

definition insert_outbox :: "wire_envelope \<Rightarrow> (outbox_error, unit) dbio" where
  "insert_outbox e =
     sql OutboxQuery (\<lambda>now u d.
       if we_type e \<in> set allowed_event_types
       then map_option (\<lambda>t. ((), d\<lparr>outbox_events := t\<rparr>))
              (insert_unique out_id (outbox_row now e) (outbox_events d))
       else None)"

definition enqueue_event :: "contracts \<Rightarrow> wire_envelope \<Rightarrow> (outbox_error, unit) dbio" where
  "enqueue_event C e = (if envelope_encodes C e then insert_outbox e else throw Encode)"

definition enqueue_command :: "contracts \<Rightarrow> wire_envelope \<Rightarrow> (outbox_error, unit) dbio" where
  "enqueue_command C e = (if envelope_encodes C e then insert_outbox e else throw Encode)"

section \<open>Building envelopes\<close>

definition PRODUCER :: string where
  "PRODUCER = ''ratatoskr-x''"

record envelope_facts =
  ef_aggregate :: string
  ef_correlation :: string
  ef_causation :: "string option"
  ef_owner :: uuid
  ef_occurred_at :: time

definition entity :: "contracts \<Rightarrow> string \<Rightarrow> uuid \<Rightarrow> queue_error + string" where
  "entity C kind i =
     (let ref = kind @ '':'' @ uuid_text C i
      in if entity_ref_ok C ref then Inr ref else Inl Identifier)"

definition trim_end_matches :: "char \<Rightarrow> string \<Rightarrow> string" where
  "trim_end_matches c s = rev (dropWhile (\<lambda>x. x = c) (rev s))"

definition wire_timestamp :: "contracts \<Rightarrow> time \<Rightarrow> string" where
  "wire_timestamp C t =
     (let nanos = rfc3339_nanos C t;
          body = (if nanos \<noteq> [] \<and> last nanos = CHR ''Z'' then butlast nanos else nanos)
      in trim_end_matches CHR ''.'' (trim_end_matches CHR ''0'' body) @ ''Z'')"

definition build_envelope ::
  "contracts \<Rightarrow> envelope_facts \<Rightarrow> string \<Rightarrow> json \<Rightarrow> (queue_error, wire_envelope) dbio" where
  "build_envelope C f etype payload =
     bind_io new_uuid (\<lambda>eid.
       if \<not> wire_timestamp_ok C (wire_timestamp C (ef_occurred_at f)) then throw Identifier
       else if \<not> producer_name_ok C PRODUCER then throw Identifier
       else if \<not> payload_ok C etype payload then throw PayloadError
       else ret \<lparr>we_id = eid, we_type = etype, we_at = wire_timestamp C (ef_occurred_at f),
                 we_producer = PRODUCER, we_aggregate_id = ef_aggregate f,
                 we_correlation_id = ef_correlation f, we_causation_id = ef_causation f,
                 we_tenant_id = Some (tenant_ref C (ef_owner f)), we_payload = payload\<rparr>)"

definition queue_event ::
  "contracts \<Rightarrow> envelope_facts \<Rightarrow> string \<Rightarrow> json \<Rightarrow> (queue_error, wire_envelope) dbio" where
  "queue_event C f etype payload =
     bind_io (build_envelope C f etype payload) (\<lambda>e.
       then_io (map_err QueueOutbox (enqueue_event C e)) (ret e))"

definition queue_command ::
  "contracts \<Rightarrow> envelope_facts \<Rightarrow> string \<Rightarrow> json \<Rightarrow> (queue_error, wire_envelope) dbio" where
  "queue_command C f ctype payload =
     bind_io (build_envelope C f ctype payload) (\<lambda>e.
       then_io (map_err QueueOutbox (enqueue_command C e)) (ret e))"

section \<open>Delivery bookkeeping\<close>

record resend_policy =
  rp_after :: time
  rp_cap :: time

datatype ack_outcome = Applied | Refused

fun ack_outcome_as_str :: "ack_outcome \<Rightarrow> string" where
  "ack_outcome_as_str Applied = ''applied''"
| "ack_outcome_as_str Refused = ''refused''"

definition mark_published :: "uuid \<Rightarrow> resend_policy \<Rightarrow> (outbox_error, unit) dbio" where
  "mark_published i policy =
     sql OutboxQuery (\<lambda>now u d. Some ((), d\<lparr>outbox_events :=
       update_where (\<lambda>r. out_id r = i \<and> out_published_at r = None)
         (\<lambda>r. r\<lparr>out_published_at := Some now, out_last_error := None,
                out_next_resend_at := (if out_event_type r = REMOVAL_EVENT_TYPE
                                       then Some (now + rp_after policy) else None)\<rparr>)
         (outbox_events d)\<rparr>))"

definition resend_delay :: "resend_policy \<Rightarrow> int \<Rightarrow> time" where
  "resend_delay policy n = min (rp_after policy * 2 ^ nat (min n 30)) (rp_cap policy)"

definition record_resend :: "uuid \<Rightarrow> resend_policy \<Rightarrow> (outbox_error, unit) dbio" where
  "record_resend i policy =
     sql OutboxQuery (\<lambda>now u d. Some ((), d\<lparr>outbox_events :=
       update_where (\<lambda>r. out_id r = i \<and> out_event_type r = REMOVAL_EVENT_TYPE
                        \<and> out_published_at r \<noteq> None \<and> out_acknowledged_at r = None)
         (\<lambda>r. r\<lparr>out_resend_count := out_resend_count r + 1, out_last_error := None,
                out_attempt_count := 0,
                out_next_resend_at := Some (now + resend_delay policy (out_resend_count r))\<rparr>)
         (outbox_events d)\<rparr>))"

definition ack_matches :: "uuid \<Rightarrow> string \<Rightarrow> outbox_event \<Rightarrow> bool" where
  "ack_matches i tenant r \<longleftrightarrow>
     out_id r = i \<and> out_event_type r = REMOVAL_EVENT_TYPE
     \<and> we_tenant_id (out_payload r) = Some tenant \<and> out_acknowledged_at r = None"

definition acknowledge :: "uuid \<Rightarrow> string \<Rightarrow> ack_outcome \<Rightarrow> (outbox_error, bool) dbio" where
  "acknowledge i tenant outcome =
     sql OutboxQuery (\<lambda>now u d. Some
       (length (filter (ack_matches i tenant) (outbox_events d)) = 1,
        d\<lparr>outbox_events :=
          update_where (ack_matches i tenant)
            (\<lambda>r. r\<lparr>out_acknowledged_at := Some now,
                   out_ack_outcome := Some (ack_outcome_as_str outcome)\<rparr>)
            (outbox_events d)\<rparr>))"

definition unacknowledged :: "outbox_event \<Rightarrow> bool" where
  "unacknowledged r \<longleftrightarrow> out_event_type r = REMOVAL_EVENT_TYPE \<and> out_acknowledged_at r = None"

definition unacknowledged_removals :: "(outbox_error, int \<times> time) dbio" where
  "unacknowledged_removals =
     sql OutboxQuery (\<lambda>now u d.
       let rs = filter unacknowledged (outbox_events d)
       in Some ((int (length rs),
                 case rs of [] \<Rightarrow> 0 | _ \<Rightarrow> now - Min (set (map out_created_at rs))), d))"

section \<open>Appending is all that producers do\<close>

text \<open>A producer adds rows behind the ones that are there and touches no other table.\<close>

definition outbox_grows :: "archive \<Rightarrow> archive \<Rightarrow> bool" where
  "outbox_grows d d' \<longleftrightarrow> (\<exists>new. outbox_events d' = outbox_events d @ new)
     \<and> d'\<lparr>outbox_events := []\<rparr> = d\<lparr>outbox_events := []\<rparr>"

interpretation outbox: frame outbox_grows
proof
  fix d show "outbox_grows d d" by (simp add: outbox_grows_def)
next
  fix d d' d'' assume "outbox_grows d d'" "outbox_grows d' d''"
  then show "outbox_grows d d''" by (auto simp: outbox_grows_def)
qed

lemma insert_outbox_grows: "within outbox_grows (insert_outbox e)"
  unfolding insert_outbox_def
  by (rule outbox.within_sql) (auto simp: outbox_grows_def insert_unique_Some split: if_splits)

lemma build_envelope_frame: "within outbox_grows (build_envelope C f t p)"
  unfolding build_envelope_def
  by (intro outbox.within_intros outbox.within_if)

lemma queue_event_grows: "within outbox_grows (queue_event C f t p)"
  unfolding queue_event_def enqueue_event_def
  by (intro outbox.within_intros outbox.within_if build_envelope_frame insert_outbox_grows)

lemma queue_command_grows: "within outbox_grows (queue_command C f t p)"
  unfolding queue_command_def enqueue_command_def
  by (intro outbox.within_intros outbox.within_if build_envelope_frame insert_outbox_grows)

lemma build_envelope_Inr:
  "build_envelope C f t p w = (Inr e, w') \<Longrightarrow>
     db w' = db w \<and> we_id e = uuids (sched w) (tick w) 0 \<and> we_type e = t \<and> we_payload e = p
     \<and> we_producer e = PRODUCER \<and> we_aggregate_id e = ef_aggregate f
     \<and> we_correlation_id e = ef_correlation f \<and> we_causation_id e = ef_causation f
     \<and> we_tenant_id e = Some (tenant_ref C (ef_owner f))
     \<and> we_at e = wire_timestamp C (ef_occurred_at f) \<and> txn_at w' = txn_at w \<and> sched w' = sched w"
  by (auto simp: build_envelope_def io_run split: if_splits)

lemma insert_outbox_Inr:
  "insert_outbox e w = (Inr x, w') \<Longrightarrow>
     db w' = (db w)\<lparr>outbox_events := outbox_events (db w) @ [outbox_row (db_now w) e]\<rparr>
     \<and> we_id e \<notin> out_id ` set (outbox_events (db w)) \<and> we_type e \<in> set allowed_event_types"
  by (auto simp: insert_outbox_def io_run insert_unique_Some split: if_splits simp: outbox_row_def)

lemma queue_event_Inr:
  assumes "queue_event C f t p w = (Inr e, w')"
  shows "\<exists>now. db w' = (db w)\<lparr>outbox_events := outbox_events (db w) @ [outbox_row now e]\<rparr>
    \<and> we_type e = t \<and> we_payload e = p \<and> we_tenant_id e = Some (tenant_ref C (ef_owner f))
    \<and> we_aggregate_id e = ef_aggregate f"
  using assms unfolding queue_event_def enqueue_event_def
  by (fastforce simp: io_run dest!: build_envelope_Inr insert_outbox_Inr split: if_splits)

lemma queue_command_Inr:
  assumes "queue_command C f t p w = (Inr e, w')"
  shows "\<exists>now. db w' = (db w)\<lparr>outbox_events := outbox_events (db w) @ [outbox_row now e]\<rparr>
    \<and> we_type e = t \<and> we_payload e = p \<and> we_tenant_id e = Some (tenant_ref C (ef_owner f))
    \<and> we_aggregate_id e = ef_aggregate f"
  using assms unfolding queue_command_def enqueue_command_def
  by (fastforce simp: io_run dest!: build_envelope_Inr insert_outbox_Inr split: if_splits)

end
