(* ===== verification/Articles.thy ===== *)
theory Articles
  imports Outbox
begin

text \<open>
  Linked external articles: \<^verbatim>\<open>x-sync/src/articles.rs\<close>. First the pure selection of external URLs
  (strings are byte lists, as the source's ASCII operations treat them), then the capture requests
  queued inside the source transaction, then the projection of the extractor's outcome. Decoding
  an inbound envelope is the contract crates' work and enters as the parameter \<open>decode\<close>.
\<close>

section \<open>String operations\<close>

definition is_digit :: "char \<Rightarrow> bool" where
  "is_digit c \<longleftrightarrow> 48 \<le> (of_char c :: nat) \<and> (of_char c :: nat) \<le> 57"

definition is_upper :: "char \<Rightarrow> bool" where
  "is_upper c \<longleftrightarrow> 65 \<le> (of_char c :: nat) \<and> (of_char c :: nat) \<le> 90"

definition is_lower :: "char \<Rightarrow> bool" where
  "is_lower c \<longleftrightarrow> 97 \<le> (of_char c :: nat) \<and> (of_char c :: nat) \<le> 122"

definition is_alphanumeric :: "char \<Rightarrow> bool" where
  "is_alphanumeric c \<longleftrightarrow> is_digit c \<or> is_upper c \<or> is_lower c"

definition is_whitespace_or_control :: "char \<Rightarrow> bool" where
  "is_whitespace_or_control c \<longleftrightarrow> (of_char c :: nat) \<le> 32 \<or> (of_char c :: nat) = 127"

definition lower_char :: "char \<Rightarrow> char" where
  "lower_char c = (if is_upper c then char_of ((of_char c :: nat) + 32) else c)"

definition to_ascii_lowercase :: "string \<Rightarrow> string" where
  "to_ascii_lowercase s = map lower_char s"

definition starts_with :: "string \<Rightarrow> string \<Rightarrow> bool" where
  "starts_with pre s \<longleftrightarrow> take (length pre) s = pre"

fun split_once :: "string \<Rightarrow> string \<Rightarrow> (string \<times> string) option" where
  "split_once sep [] = (if sep = [] then Some ([], []) else None)"
| "split_once sep (c # cs) =
     (if starts_with sep (c # cs) then Some ([], drop (length sep) (c # cs))
      else map_option (\<lambda>(a, b). (c # a, b)) (split_once sep cs))"

definition rsplit_once_char :: "char \<Rightarrow> string \<Rightarrow> (string \<times> string) option" where
  "rsplit_once_char c s =
     map_option (\<lambda>(a, b). (rev b, rev a)) (split_once [c] (rev s))"

fun split_on :: "char \<Rightarrow> string \<Rightarrow> string list" where
  "split_on c [] = [[]]"
| "split_on c (x # xs) =
     (if x = c then [] # split_on c xs
      else (case split_on c xs of [] \<Rightarrow> [[x]] | y # ys \<Rightarrow> (x # y) # ys))"

fun join_with :: "string \<Rightarrow> string list \<Rightarrow> string" where
  "join_with sep [] = []"
| "join_with sep [x] = x"
| "join_with sep (x # y # ys) = x @ sep @ join_with sep (y # ys)"

definition digit_value :: "char \<Rightarrow> nat" where
  "digit_value c = of_char c - 48"

definition nat_of_digits :: "string \<Rightarrow> nat" where
  "nat_of_digits s = foldl (\<lambda>n c. 10 * n + digit_value c) 0 s"

text \<open>\<^verbatim>\<open>str::parse::<u16>\<close>: an optional plus sign, at least one digit, no overflow.\<close>

definition parse_u16 :: "string \<Rightarrow> nat option" where
  "parse_u16 s =
     (let ds = (case s of c # cs \<Rightarrow> if c = CHR ''+'' then cs else s | [] \<Rightarrow> [])
      in if ds \<noteq> [] \<and> list_all is_digit ds \<and> nat_of_digits ds < 65536
         then Some (nat_of_digits ds) else None)"

fun show_nat :: "nat \<Rightarrow> string" where
  "show_nat n = (if n < 10 then [char_of (48 + n)] else show_nat (n div 10) @ [char_of (48 + n mod 10)])"

declare show_nat.simps [simp del]

section \<open>Selecting external URLs\<close>

definition split_host_and_port :: "string \<Rightarrow> (string \<times> nat option) option" where
  "split_host_and_port authority =
     (case (case rsplit_once_char CHR '':'' authority of
              Some (host, raw_port) \<Rightarrow>
                if raw_port \<noteq> []
                then (case parse_u16 raw_port of None \<Rightarrow> None | Some p \<Rightarrow> Some (host, Some p))
                else None
            | None \<Rightarrow> Some (authority, None)) of
        None \<Rightarrow> None
      | Some (host, port) \<Rightarrow>
          if host = [] \<or> \<not> list_all (\<lambda>c. is_alphanumeric c \<or> c = CHR ''.'' \<or> c = CHR ''-'') host
          then None else Some (to_ascii_lowercase host, port))"

definition ends_with :: "string \<Rightarrow> string \<Rightarrow> bool" where
  "ends_with suf s \<longleftrightarrow> starts_with (rev suf) (rev s)"

definition is_x_host :: "string \<Rightarrow> bool" where
  "is_x_host host \<longleftrightarrow>
     list_ex (\<lambda>suffix. host = suffix
        \<or> (ends_with suffix host
           \<and> ends_with ''.'' (take (length host - length suffix) host)))
       [''x.com'', ''twitter.com'', ''t.co'']"

definition is_tracking_key :: "string \<Rightarrow> bool" where
  "is_tracking_key raw =
     (let key = to_ascii_lowercase raw
      in starts_with ''utm_'' key \<or> key = ''fbclid'' \<or> key = ''gclid'')"

definition component_key :: "string \<Rightarrow> string" where
  "component_key part = (case split_once ''='' part of Some (key, _) \<Rightarrow> key | None \<Rightarrow> part)"

definition canonical_query :: "string option \<Rightarrow> string option" where
  "canonical_query q0 =
     (case q0 of None \<Rightarrow> None
      | Some q \<Rightarrow>
        (let retained = sort (filter (\<lambda>part. part \<noteq> [] \<and> \<not> is_tracking_key (component_key part))
                                (split_on CHR ''&'' q))
         in if retained = [] then None else Some (join_with ''&'' retained)))"

definition authority_stop :: "char \<Rightarrow> bool" where
  "authority_stop c \<longleftrightarrow> c = CHR ''/'' \<or> c = CHR ''?'' \<or> c = CHR ''#''"

definition strip_fragment :: "string \<Rightarrow> string" where
  "strip_fragment s = (case split_once ''#'' s of Some (pre, _) \<Rightarrow> pre | None \<Rightarrow> s)"

definition split_query :: "string \<Rightarrow> string \<times> string option" where
  "split_query s =
     (case split_once ''?'' s of Some (path, q) \<Rightarrow> (path, Some q) | None \<Rightarrow> (s, None))"

definition normalize_external_url :: "string \<Rightarrow> string option" where
  "normalize_external_url raw =
     (if raw = [] \<or> list_ex is_whitespace_or_control raw then None
      else case split_once ''://'' raw of
        None \<Rightarrow> None
      | Some (raw_scheme, rest) \<Rightarrow>
        (let scheme = to_ascii_lowercase raw_scheme in
         if scheme \<noteq> ''http'' \<and> scheme \<noteq> ''https'' then None
         else
          (let authority = takeWhile (\<lambda>c. \<not> authority_stop c) rest;
               path_and_query = dropWhile (\<lambda>c. \<not> authority_stop c) rest in
           if authority = [] \<or> CHR ''@'' \<in> set authority \<or> starts_with ''['' authority then None
           else case split_host_and_port authority of
             None \<Rightarrow> None
           | Some (host, port) \<Rightarrow>
             if is_x_host host then None
             else
              (let (path0, query0) = split_query (strip_fragment path_and_query);
                   path = (if path0 = [] then ''/'' else path0);
                   canon = canonical_query query0;
                   default_port = (scheme = ''http'' \<and> port = Some 80
                                   \<or> scheme = ''https'' \<and> port = Some 443);
                   authority' = (case port of
                       Some p \<Rightarrow> if default_port then host else host @ '':'' @ show_nat p
                     | None \<Rightarrow> host);
                   suffix = (case canon of None \<Rightarrow> [] | Some q \<Rightarrow> ''?'' @ q)
               in Some (scheme @ ''://'' @ authority' @ path @ suffix)))))"

record selected_url =
  sel_original_url :: string
  sel_normalized_url :: string

primrec select_loop :: "string list \<Rightarrow> string set \<Rightarrow> selected_url list" where
  "select_loop [] seen = []"
| "select_loop (url # urls) seen =
     (case normalize_external_url url of
        None \<Rightarrow> select_loop urls seen
      | Some n \<Rightarrow>
          if n \<in> seen then select_loop urls seen
          else \<lparr>sel_original_url = url, sel_normalized_url = n\<rparr> # select_loop urls (insert n seen))"

definition select_external_expanded_urls :: "string list \<Rightarrow> selected_url list" where
  "select_external_expanded_urls urls = select_loop urls {}"

section \<open>Requesting a capture\<close>

datatype article_error = InvalidOutcome | SourceUnavailable | ArticleQuery | ArticleQueue queue_error

text \<open>Lowercase hexadecimal text of a byte string (\<^verbatim>\<open>social_sources::lower_hex\<close>).\<close>

definition hex_digit :: "nat \<Rightarrow> char" where
  "hex_digit n = char_of (if n < 10 then 48 + n else 87 + n)"

definition lower_hex :: "8 word list \<Rightarrow> string" where
  "lower_hex bytes = concat (map (\<lambda>b. [hex_digit (unat b div 16), hex_digit (unat b mod 16)]) bytes)"

definition article_correlation :: "contracts \<Rightarrow> uuid \<Rightarrow> string" where
  "article_correlation C i = ''article_capture:'' @ uuid_text C i"

definition insert_article_capture ::
  "contracts \<Rightarrow> uuid \<Rightarrow> uuid \<Rightarrow> selected_url \<Rightarrow> (article_error, uuid \<times> bool) dbio" where
  "insert_article_capture C i a s =
     sql ArticleQuery (\<lambda>now u d.
       case select_one (\<lambda>r. art_key r = (a, sel_normalized_url s)) (article_captures d) of
         Some r \<Rightarrow> Some ((art_id r, False), d)
       | None \<Rightarrow>
           if i \<in> art_id ` set (article_captures d)
              \<or> article_correlation C i \<in> art_correlation_id ` set (article_captures d)
           then None
           else Some ((i, True), d\<lparr>article_captures := article_captures d @ [
             \<lparr>art_id = i, art_account_id = a, art_normalized_url = sel_normalized_url s,
              art_original_url = sel_original_url s, art_correlation_id = article_correlation C i,
              art_state = ARequested, art_document_id = None, art_document_ir_blob = None,
              art_completed_at = None\<rparr>]\<rparr>))"

definition link_article :: "uuid \<Rightarrow> uuid \<Rightarrow> (article_error, unit) dbio" where
  "link_article src i =
     exec ArticleQuery (\<lambda>d. d\<lparr>post_article_links :=
       insert_ignore id \<lparr>lnk_social_source_id = src, lnk_article_capture_id = i\<rparr>
         (post_article_links d)\<rparr>)"

definition capture_payload :: "contracts \<Rightarrow> uuid \<Rightarrow> string \<Rightarrow> json" where
  "capture_payload C i url =
     JObj [(''idempotency_key'', JObj [(''algorithm'', JStr ''sha256''),
              (''hex'', JStr (lower_hex (sha256 C (as_bytes (uuid_text C i)))))]),
           (''operation_id'', JStr (uuid_text C i)),
           (''url'', JStr url)]"

definition queue_article_command ::
  "contracts \<Rightarrow> uuid \<Rightarrow> uuid \<Rightarrow> uuid \<Rightarrow> string \<Rightarrow> (queue_error, unit) dbio" where
  "queue_article_command C owner src i url =
     (if \<not> digest_hex_ok C (lower_hex (sha256 C (as_bytes (uuid_text C i)))) then throw Identifier
      else bind_io (of_result (entity C ''operation'' i)) (\<lambda>aggregate.
           bind_io (of_result (entity C ''article_capture'' i)) (\<lambda>correlation.
           bind_io (of_result (entity C ''social_source'' src)) (\<lambda>causation.
           bind_io read_clock (\<lambda>now.
           then_io (queue_command C
               \<lparr>ef_aggregate = aggregate, ef_correlation = correlation, ef_causation = Some causation,
                ef_owner = owner, ef_occurred_at = now\<rparr>
               ''content.capture.requested.v1'' (capture_payload C i url))
             (ret ()))))))"

definition capture_one ::
  "contracts \<Rightarrow> uuid \<Rightarrow> uuid \<Rightarrow> uuid \<Rightarrow> selected_url \<Rightarrow> (article_error, unit) dbio" where
  "capture_one C a src owner s =
     (if \<not> capture_url_ok C (sel_normalized_url s) then ret ()
      else bind_io new_uuid (\<lambda>i.
           bind_io (insert_article_capture C i a s) (\<lambda>(capture_id, created).
           then_io (link_article src capture_id)
             (if created
              then map_err ArticleQueue
                     (queue_article_command C owner src capture_id (sel_normalized_url s))
              else ret ()))))"

definition source_owner :: "uuid \<Rightarrow> uuid \<Rightarrow> archive \<Rightarrow> uuid option" where
  "source_owner src a d =
     (case select_one (\<lambda>s. src_social_source_id s = src \<and> src_account_id s = a) (social_sources d) of
        None \<Rightarrow> None
      | Some s \<Rightarrow> map_option acc_internal_user_id
                   (select_one (\<lambda>x. acc_id x = src_account_id s) (accounts d)))"

definition capture_expanded_links_in_transaction ::
  "contracts \<Rightarrow> uuid \<Rightarrow> uuid \<Rightarrow> string list \<Rightarrow> (article_error, unit) dbio" where
  "capture_expanded_links_in_transaction C a src urls =
     (let selected = select_external_expanded_urls urls in
      if selected = [] then ret ()
      else bind_io (sql ArticleQuery (\<lambda>now u d. map_option (\<lambda>x. (x, d)) (source_owner src a d)))
             (\<lambda>owner. for_each (capture_one C a src owner) selected))"

definition capture_expanded_links ::
  "contracts \<Rightarrow> uuid \<Rightarrow> uuid \<Rightarrow> string list \<Rightarrow> (article_error, unit) dbio" where
  "capture_expanded_links C a src urls =
     transaction ArticleQuery (capture_expanded_links_in_transaction C a src urls)"

section \<open>Consuming the extractor's outcome\<close>

record op_result =
  opr_result_kind :: string
  opr_target_kind :: string
  opr_target_uuid :: "string option"
  opr_blob :: "(string \<times> json) option"

record op_report =
  opp_operation_id :: string
  opp_succeeded :: bool
  opp_results :: "op_result list"

record inbound_event =
  ibe_event_id :: string
  ibe_producer :: string
  ibe_correlation_id :: string
  ibe_tenant_id :: "string option"
  ibe_report :: "op_report option"

record extractor_outcome =
  eo_event_id :: string
  eo_correlation_id :: string
  eo_operation_id :: string
  eo_tenant_id :: string
  eo_document_id :: string
  eo_document_ir_blob :: json

definition belongs_to :: "contracts \<Rightarrow> extractor_outcome \<Rightarrow> uuid \<Rightarrow> uuid \<Rightarrow> bool" where
  "belongs_to C outcome capture_id owner \<longleftrightarrow>
     eo_operation_id outcome = uuid_text C capture_id
     \<and> eo_tenant_id outcome = ''user:'' @ uuid_text C owner"

definition document_result :: "op_report \<Rightarrow> (string \<times> json) option" where
  "document_result report =
     (case find (\<lambda>r. opr_result_kind r = ''content.document'') (opp_results report) of
        None \<Rightarrow> None
      | Some r \<Rightarrow>
          if opr_target_kind r = ''document''
          then (case (opr_target_uuid r, opr_blob r) of
                  (Some doc, Some (service, blob)) \<Rightarrow>
                    if service = ''ratatoskr-extractor'' then Some (doc, blob) else None
                | _ \<Rightarrow> None)
          else None)"

definition decode_extractor_outcome ::
  "(string \<Rightarrow> inbound_event option) \<Rightarrow> string \<Rightarrow> article_error + extractor_outcome" where
  "decode_extractor_outcome decode serialized =
     (case decode serialized of
        None \<Rightarrow> Inl InvalidOutcome
      | Some e \<Rightarrow>
        if ibe_producer e \<noteq> ''ratatoskr-extractor'' then Inl InvalidOutcome
        else case ibe_report e of
          None \<Rightarrow> Inl InvalidOutcome
        | Some report \<Rightarrow>
          if \<not> opp_succeeded report then Inl InvalidOutcome
          else case document_result report of
            None \<Rightarrow> Inl InvalidOutcome
          | Some (doc, blob) \<Rightarrow>
            (case ibe_tenant_id e of
               None \<Rightarrow> Inl InvalidOutcome
             | Some tenant \<Rightarrow> Inr
                 \<lparr>eo_event_id = ibe_event_id e, eo_correlation_id = ibe_correlation_id e,
                  eo_operation_id = opp_operation_id report, eo_tenant_id = tenant,
                  eo_document_id = doc, eo_document_ir_blob = blob\<rparr>))"

definition find_capture :: "string \<Rightarrow> archive \<Rightarrow> (uuid \<times> uuid) option" where
  "find_capture correlation d =
     (case select_one (\<lambda>r. art_correlation_id r = correlation) (article_captures d) of
        None \<Rightarrow> None
      | Some r \<Rightarrow> map_option (\<lambda>x. (art_id r, acc_internal_user_id x))
                   (select_one (\<lambda>x. acc_id x = art_account_id r) (accounts d)))"

definition claim_outcome_inbox :: "extractor_outcome \<Rightarrow> string \<Rightarrow> (article_error, bool) dbio" where
  "claim_outcome_inbox outcome serialized =
     sql ArticleQuery (\<lambda>now u d.
       Some (eo_event_id outcome \<notin> inb_event_id ` set (inbox_events d),
         d\<lparr>inbox_events := insert_ignore inb_event_id
             \<lparr>inb_source = ''ratatoskr-extractor'', inb_event_type = ''platform.operation.reported.v1'',
              inb_event_id = eo_event_id outcome, inb_payload = serialized,
              inb_consumed_at = Some now\<rparr> (inbox_events d)\<rparr>))"

definition complete_capture :: "uuid \<Rightarrow> extractor_outcome \<Rightarrow> (article_error, unit) dbio" where
  "complete_capture capture_id outcome =
     bind_io (sql ArticleQuery (\<lambda>now u d.
         Some (length (filter (\<lambda>r. art_id r = capture_id \<and> art_state r = ARequested)
                 (article_captures d)),
           d\<lparr>article_captures :=
              update_where (\<lambda>r. art_id r = capture_id \<and> art_state r = ARequested)
                (\<lambda>r. r\<lparr>art_state := ACompleted, art_document_id := Some (eo_document_id outcome),
                       art_document_ir_blob := Some (eo_document_ir_blob outcome),
                       art_completed_at := Some now\<rparr>) (article_captures d)\<rparr>)))
       (\<lambda>updated. if updated \<noteq> 1 then throw InvalidOutcome else ret ())"

definition consume_extractor_operation_report ::
  "contracts \<Rightarrow> (string \<Rightarrow> inbound_event option) \<Rightarrow> string \<Rightarrow> (article_error, unit) dbio" where
  "consume_extractor_operation_report C decode serialized =
     bind_io (of_result (decode_extractor_outcome decode serialized)) (\<lambda>outcome.
       transaction ArticleQuery
        (bind_io (query ArticleQuery (find_capture (eo_correlation_id outcome))) (\<lambda>capture.
          case capture of
            None \<Rightarrow> throw InvalidOutcome
          | Some (capture_id, owner) \<Rightarrow>
              if \<not> belongs_to C outcome capture_id owner then throw InvalidOutcome
              else bind_io (claim_outcome_inbox outcome serialized) (\<lambda>claimed.
                     if \<not> claimed then ret () else complete_capture capture_id outcome))))"

section \<open>A concrete instance of the contract parameter\<close>

definition demo_contracts :: contracts where
  "demo_contracts =
     \<lparr>uuid_text = (\<lambda>i. replicate (i mod 7) CHR ''u''), rfc3339_nanos = (\<lambda>t. ''2026-01-01T00:00:00.000000000Z''),
      rfc3339 = (\<lambda>t. ''2026-01-01T00:00:00+00:00''),
      entity_ref_ok = (\<lambda>_. True), wire_timestamp_ok = (\<lambda>_. True), producer_name_ok = (\<lambda>_. True),
      tenant_ref = (\<lambda>i. ''user:'' @ replicate (i mod 7) CHR ''u''), payload_ok = (\<lambda>_ _. True),
      envelope_encodes = (\<lambda>_. True), social_snapshot_ok = (\<lambda>_. True), social_removed_ok = (\<lambda>_. True),
      json_bytes = (\<lambda>_. Some []), sha256 = (\<lambda>bs. bs),
      capture_url_ok = (\<lambda>_. True), digest_hex_ok = (\<lambda>_. True), hash_order = (\<lambda>xs. xs)\<rparr>"

end
