(* ===== verification/Social_Sources.thy ===== *)
theory Social_Sources
  imports Budget Normalize Articles
begin

text \<open>
  The transactional projection of a stored post into an account-scoped social source, its revision
  history and its outbox event: \<^verbatim>\<open>x-sync/src/social_sources.rs\<close>. The error type of the snapshot
  family of services (\<^verbatim>\<open>SnapshotError\<close>, \<^verbatim>\<open>x-sync/src/lib.rs\<close>) is declared here, where it is first used.
\<close>

section \<open>Errors\<close>

datatype snapshot_error =
    RunUnavailable
  | SnapBudget budget_error
  | SnapNormalize normalize_error
  | ContractError
  | SnapQuery
  | SnapQueue queue_error
  | SnapArticle article_error
  | PersistedAuthorMissing
  | StatisticsOverflow

fun availability_name :: "availability \<Rightarrow> string" where
  "availability_name Active = ''active''"
| "availability_name Deleted = ''deleted''"
| "availability_name Protected = ''protected''"
| "availability_name AuthorSuspended = ''author_suspended''"
| "availability_name Unavailable = ''unavailable''"
| "availability_name Unknown = ''unknown''"

section \<open>Source facts\<close>

record source_provenance =
  sp_acquisition :: string
  sp_saved_authority :: string

definition BOOKMARK_PROVENANCE :: source_provenance where
  "BOOKMARK_PROVENANCE = \<lparr>sp_acquisition = ''official_api'',
     sp_saved_authority = ''authoritative_platform_state''\<rparr>"

definition EXPLICIT_PROVENANCE :: source_provenance where
  "EXPLICIT_PROVENANCE = \<lparr>sp_acquisition = ''browser_extension'',
     sp_saved_authority = ''explicit_user_capture''\<rparr>"

record source_facts =
  sf_provider_id :: string
  sf_text :: string
  sf_long_text :: "string option"
  sf_published_at :: "time option"
  sf_availability :: string
  sf_author_provider_id :: string
  sf_author_username :: "string option"
  sf_author_display_name :: "string option"
  sf_expanded_urls :: "string list"

definition effective_text :: "source_facts \<Rightarrow> string" where
  "effective_text f = (case sf_long_text f of Some t \<Rightarrow> t | None \<Rightarrow> sf_text f)"

definition content_digest :: "contracts \<Rightarrow> json \<Rightarrow> snapshot_error + json" where
  "content_digest C semantic =
     (case json_bytes C semantic of
        None \<Rightarrow> Inl ContractError
      | Some bytes \<Rightarrow> Inr (JObj [(''algorithm'', JStr ''sha256''),
                                (''hex'', JStr (lower_hex (sha256 C bytes)))]))"

definition semantic_document :: "contracts \<Rightarrow> source_facts \<Rightarrow> source_provenance \<Rightarrow> json" where
  "semantic_document C f prov =
     JObj [(''acquisition'', JStr (sp_acquisition prov)),
           (''author_display_name'', jopt_str (sf_author_display_name f)),
           (''author_provider_id'', JStr (sf_author_provider_id f)),
           (''author_username'', jopt_str (sf_author_username f)),
           (''availability'', JStr (sf_availability f)),
           (''expanded_urls'', JArr (map JStr (sf_expanded_urls f))),
           (''provider_id'', JStr (sf_provider_id f)),
           (''published_at'', jopt_str (map_option (wire_timestamp C) (sf_published_at f))),
           (''saved_authority'', JStr (sp_saved_authority prov)),
           (''text'', JStr (effective_text f))]"

definition facts_digest ::
  "contracts \<Rightarrow> source_facts \<Rightarrow> source_provenance \<Rightarrow> snapshot_error + json" where
  "facts_digest C f prov = content_digest C (semantic_document C f prov)"

definition upstream_availability :: "string \<Rightarrow> string" where
  "upstream_availability a =
     (if a = ''active'' then ''available''
      else if a = ''deleted'' then ''deleted_upstream''
      else ''unavailable'')"

definition facts_snapshot ::
  "contracts \<Rightarrow> source_facts \<Rightarrow> uuid \<Rightarrow> uuid \<Rightarrow> json \<Rightarrow> time \<Rightarrow> source_provenance
   \<Rightarrow> snapshot_error + json" where
  "facts_snapshot C f src owner digest captured_at prov =
     (let snap = JObj
        [(''acquisition'', JStr (sp_acquisition prov)),
         (''author'', JObj [(''display_name'', jopt_str (sf_author_display_name f)),
                           (''external_author_id'', JStr (sf_author_provider_id f)),
                           (''handle'', jopt_str (sf_author_username f)),
                           (''platform'', JStr ''x'')]),
         (''captured_at'', JStr (wire_timestamp C captured_at)),
         (''completeness'', JStr ''complete''),
         (''content_digest'', digest),
         (''external_post_id'', JStr (sf_provider_id f)),
         (''owner'', JStr (''user:'' @ uuid_text C owner)),
         (''platform'', JStr ''x''),
         (''published_at'', jopt_str (map_option (wire_timestamp C) (sf_published_at f))),
         (''saved_authority'', JStr (sp_saved_authority prov)),
         (''social_source_id'', JStr (uuid_text C src)),
         (''text'', JStr (effective_text f)),
         (''upstream_availability'', JStr (upstream_availability (sf_availability f)))]
      in if social_snapshot_ok C snap then Inr snap else Inl ContractError)"

datatype source_fact = SourceCaptured | SourceUpdated

fun source_event_type :: "source_fact \<Rightarrow> string" where
  "source_event_type SourceCaptured = ''social.source.captured.v1''"
| "source_event_type SourceUpdated = ''social.source.updated.v1''"

definition queue_source_event ::
  "contracts \<Rightarrow> uuid \<Rightarrow> source_fact \<Rightarrow> uuid \<Rightarrow> json \<Rightarrow> time \<Rightarrow> (snapshot_error, unit) dbio" where
  "queue_source_event C owner kind src snap captured_at =
     map_err SnapQueue
      (bind_io (of_result (entity C ''social_source'' src)) (\<lambda>aggregate.
        then_io (queue_event C
            \<lparr>ef_aggregate = aggregate, ef_correlation = aggregate, ef_causation = None,
             ef_owner = owner, ef_occurred_at = captured_at\<rparr>
            (source_event_type kind) (JObj [(''source'', snap)]))
          (ret ())))"

section \<open>Publishing one source\<close>

record loaded_source =
  ls_owner :: uuid
  ls_source_id :: "uuid option"
  ls_digest :: "json option"
  ls_removed_at :: "time option"
  ls_facts :: source_facts

definition load_source :: "uuid \<Rightarrow> uuid \<Rightarrow> archive \<Rightarrow> loaded_source option" where
  "load_source a post d =
     (case select_one (\<lambda>x. acc_id x = a) (accounts d) of None \<Rightarrow> None | Some acc \<Rightarrow>
      case select_one (\<lambda>p. pst_id p = post) (posts d) of None \<Rightarrow> None | Some p \<Rightarrow>
      case select_one (\<lambda>u. Some (usr_id u) = pst_author_user_id p) (users d) of None \<Rightarrow> None | Some u \<Rightarrow>
      (let s = select_one (\<lambda>s. src_account_id s = a \<and> src_post_id s = post) (social_sources d)
       in Some \<lparr>ls_owner = acc_internal_user_id acc,
                ls_source_id = map_option src_social_source_id s,
                ls_digest = map_option src_current_content_digest s,
                ls_removed_at = (case s of None \<Rightarrow> None | Some r \<Rightarrow> src_removed_at r),
                ls_facts = \<lparr>sf_provider_id = pst_provider_id p, sf_text = pst_text p,
                  sf_long_text = pst_long_text p, sf_published_at = pst_published_at p,
                  sf_availability = availability_name (pst_availability p),
                  sf_author_provider_id = usr_provider_id u, sf_author_username = usr_username u,
                  sf_author_display_name = usr_display_name u,
                  sf_expanded_urls = pst_expanded_urls p\<rparr>\<rparr>))"

definition update_source ::
  "uuid \<Rightarrow> json \<Rightarrow> time \<Rightarrow> source_provenance \<Rightarrow> (snapshot_error, unit) dbio" where
  "update_source src digest captured_at prov =
     exec SnapQuery (\<lambda>d. d\<lparr>social_sources :=
       update_where (\<lambda>s. src_social_source_id s = src)
         (\<lambda>s. s\<lparr>src_current_content_digest := digest, src_captured_at := captured_at,
                src_acquisition := sp_acquisition prov,
                src_saved_authority := sp_saved_authority prov\<rparr>) (social_sources d)\<rparr>)"

definition insert_source ::
  "uuid \<Rightarrow> uuid \<Rightarrow> uuid \<Rightarrow> json \<Rightarrow> time \<Rightarrow> source_provenance \<Rightarrow> (snapshot_error, unit) dbio" where
  "insert_source a post src digest captured_at prov =
     sql SnapQuery (\<lambda>now u d.
       if src \<in> src_social_source_id ` set (social_sources d)
          \<or> (a, post) \<in> (\<lambda>s. (src_account_id s, src_post_id s)) ` set (social_sources d)
       then None
       else Some ((), d\<lparr>social_sources := social_sources d @ [
         \<lparr>src_account_id = a, src_post_id = post, src_social_source_id = src,
          src_current_content_digest = digest, src_acquisition = sp_acquisition prov,
          src_saved_authority = sp_saved_authority prov, src_captured_at = captured_at,
          src_removed_at = None\<rparr>]\<rparr>))"

definition insert_revision ::
  "uuid \<Rightarrow> json \<Rightarrow> time \<Rightarrow> source_provenance \<Rightarrow> (snapshot_error, unit) dbio" where
  "insert_revision src digest captured_at prov =
     sql SnapQuery (\<lambda>now u d.
       map_option (\<lambda>t. ((), d\<lparr>social_source_revisions := t\<rparr>))
         (insert_unique rev_key
            \<lparr>rev_social_source_id = src, rev_content_digest = digest, rev_captured_at = captured_at,
             rev_acquisition = sp_acquisition prov, rev_saved_authority = sp_saved_authority prov\<rparr>
            (social_source_revisions d)))"

text \<open>The three stages of \<^verbatim>\<open>publish_source\<close>: lock and load, compare digests, write.\<close>

definition write_source ::
  "uuid \<Rightarrow> time \<Rightarrow> uuid \<Rightarrow> uuid option \<Rightarrow> uuid \<Rightarrow> json \<Rightarrow> (snapshot_error, source_fact) dbio" where
  "write_source a captured_at post existing src digest =
     (if existing \<noteq> None
      then then_io (update_source src digest captured_at BOOKMARK_PROVENANCE) (ret SourceUpdated)
      else then_io (insert_source a post src digest captured_at BOOKMARK_PROVENANCE)
             (ret SourceCaptured))"

definition publish_changed ::
  "contracts \<Rightarrow> uuid \<Rightarrow> time \<Rightarrow> uuid \<Rightarrow> loaded_source \<Rightarrow> json \<Rightarrow> (snapshot_error, unit) dbio" where
  "publish_changed C a captured_at post loaded digest =
     bind_io (case ls_source_id loaded of Some i \<Rightarrow> ret i | None \<Rightarrow> new_uuid) (\<lambda>src.
     bind_io (of_result (facts_snapshot C (ls_facts loaded) src (ls_owner loaded) digest captured_at
                BOOKMARK_PROVENANCE)) (\<lambda>snap.
     bind_io (write_source a captured_at post (ls_source_id loaded) src digest) (\<lambda>kind.
     then_io (insert_revision src digest captured_at BOOKMARK_PROVENANCE)
     (then_io (queue_source_event C (ls_owner loaded) kind src snap captured_at)
     (map_err SnapArticle
       (capture_expanded_links_in_transaction C a src (sf_expanded_urls (ls_facts loaded))))))))"

definition publish_loaded ::
  "contracts \<Rightarrow> uuid \<Rightarrow> time \<Rightarrow> uuid \<Rightarrow> loaded_source \<Rightarrow> (snapshot_error, unit) dbio" where
  "publish_loaded C a captured_at post loaded =
     (if ls_removed_at loaded \<noteq> None then ret ()
      else bind_io (of_result (facts_digest C (ls_facts loaded) BOOKMARK_PROVENANCE)) (\<lambda>digest.
        if ls_digest loaded = Some digest then ret ()
        else publish_changed C a captured_at post loaded digest))"

definition publish_source ::
  "contracts \<Rightarrow> uuid \<Rightarrow> time \<Rightarrow> uuid \<Rightarrow> (snapshot_error, unit) dbio" where
  "publish_source C a captured_at post =
     then_io (query SnapQuery (\<lambda>d. ()))
      (bind_io (sql SnapQuery (\<lambda>now u d. map_option (\<lambda>x. (x, d)) (load_source a post d)))
        (publish_loaded C a captured_at post))"

definition publish_bookmark_sources ::
  "contracts \<Rightarrow> uuid \<Rightarrow> uuid list \<Rightarrow> time \<Rightarrow> (snapshot_error, unit) dbio" where
  "publish_bookmark_sources C a post_ids captured_at =
     for_each (publish_source C a captured_at) post_ids"

section \<open>What publishing leaves alone\<close>

text \<open>Publishing writes sources, revisions, article captures, links and outbox rows only.\<close>

definition publish_frame :: "archive \<Rightarrow> archive \<Rightarrow> bool" where
  "publish_frame d d' \<longleftrightarrow>
     d'\<lparr>social_sources := [], social_source_revisions := [], article_captures := [],
        post_article_links := [], outbox_events := []\<rparr>
     = d\<lparr>social_sources := [], social_source_revisions := [], article_captures := [],
        post_article_links := [], outbox_events := []\<rparr>"

text \<open>Requesting captures writes captures, links and outbox rows only.\<close>

definition capture_frame :: "archive \<Rightarrow> archive \<Rightarrow> bool" where
  "capture_frame d d' \<longleftrightarrow>
     d'\<lparr>article_captures := [], post_article_links := [], outbox_events := []\<rparr>
       = d\<lparr>article_captures := [], post_article_links := [], outbox_events := []\<rparr>
     \<and> (\<exists>new. outbox_events d' = outbox_events d @ new
           \<and> (\<forall>r \<in> set new. out_event_type r = ''content.capture.requested.v1''))"

interpretation publish: frame publish_frame
  by unfold_locales (auto simp: publish_frame_def)

interpretation capture: frame capture_frame
proof
  fix d show "capture_frame d d" by (simp add: capture_frame_def)
next
  fix d d' d'' assume "capture_frame d d'" "capture_frame d' d''"
  then show "capture_frame d d''" by (auto simp: capture_frame_def)
qed

lemma within_mono: "within R m \<Longrightarrow> (\<And>d d'. R d d' \<Longrightarrow> S d d') \<Longrightarrow> within S m"
  by (auto simp: within_def)

lemma archive_eq_outbox:
  "d'\<lparr>outbox_events := []\<rparr> = d\<lparr>outbox_events := []\<rparr> \<Longrightarrow>
     d'\<lparr>article_captures := [], post_article_links := [], outbox_events := []\<rparr>
       = d\<lparr>article_captures := [], post_article_links := [], outbox_events := []\<rparr>
     \<and> publish_frame d d'"
  by (cases d; cases d') (simp add: publish_frame_def)

lemma queue_command_capture:
  "within capture_frame (queue_command C f ''content.capture.requested.v1'' p)"
  unfolding within_def
proof
  fix w
  let ?t = "''content.capture.requested.v1''"
  obtain r w' where run: "queue_command C f ?t p w = (r, w')" by fastforce
  show "capture_frame (db w) (db (snd (queue_command C f ?t p w)))"
  proof (cases r)
    case (Inr e)
    with run queue_command_Inr [of C f ?t p w e w'] show ?thesis
      by (auto simp: capture_frame_def outbox_row_def)
  next
    case (Inl e)
    have "outbox_grows (db w) (db w')" using withinD [OF queue_command_grows run] .
    moreover have "db w' = db w"
      using run Inl
      by (auto simp: queue_command_def enqueue_command_def build_envelope_def insert_outbox_def io_defs
          split: sum.splits prod.splits if_splits option.splits)
    ultimately show ?thesis using run by (simp add: capture.frame_refl)
  qed
qed

lemma capture_links_frame:
  "within capture_frame (capture_expanded_links_in_transaction C a src urls)"
proof -
  have "within capture_frame (sql ArticleQuery (\<lambda>now u d. map_option (\<lambda>x. (x, d)) (source_owner src a d)))"
    by (rule capture.within_sql) (auto simp: capture.frame_refl)
  moreover have "within capture_frame (insert_article_capture C i a s)" for i s
    unfolding insert_article_capture_def
    by (rule capture.within_sql) (auto simp: capture_frame_def split: option.splits if_splits)
  moreover have "within capture_frame (link_article src i)" for i
    unfolding link_article_def by (rule capture.within_exec) (simp add: capture_frame_def)
  ultimately show ?thesis
    unfolding capture_expanded_links_in_transaction_def Let_def capture_one_def
      queue_article_command_def
    by (intro capture.within_intros queue_command_capture)
qed

lemma capture_frame_publish: "capture_frame d d' \<Longrightarrow> publish_frame d d'"
  by (cases d; cases d') (simp add: capture_frame_def publish_frame_def)

lemma queue_source_event_publish: "within publish_frame (queue_source_event C owner kind src snap t)"
proof -
  have "within publish_frame (queue_event C f e p)" for f e p
    by (rule within_mono [OF queue_event_grows]) (auto simp: outbox_grows_def dest: archive_eq_outbox)
  then show ?thesis
    unfolding queue_source_event_def by (intro publish.within_intros)
qed

lemma source_statements_publish:
  "within publish_frame (sql SnapQuery (\<lambda>now u d. map_option (\<lambda>x. (x, d)) (load_source a post d)))"
  "within publish_frame (update_source src digest t prov)"
  "within publish_frame (insert_source a post src digest t prov)"
  "within publish_frame (insert_revision src digest t prov)"
proof -
  show "within publish_frame (sql SnapQuery (\<lambda>now u d. map_option (\<lambda>x. (x, d)) (load_source a post d)))"
    by (rule publish.within_sql) (auto simp: publish.frame_refl)
  show "within publish_frame (update_source src digest t prov)"
    unfolding update_source_def by (rule publish.within_exec) (simp add: publish_frame_def)
  show "within publish_frame (insert_source a post src digest t prov)"
    unfolding insert_source_def
    by (rule publish.within_sql) (auto simp: publish_frame_def split: if_splits)
  show "within publish_frame (insert_revision src digest t prov)"
    unfolding insert_revision_def by (rule publish.within_sql) (auto simp: publish_frame_def)
qed

lemma publish_source_frame: "within publish_frame (publish_source C a t post)"
  unfolding publish_source_def publish_loaded_def publish_changed_def write_source_def
  by (intro publish.within_intros source_statements_publish queue_source_event_publish
      within_mono [OF capture_links_frame capture_frame_publish])

lemma publish_bookmark_sources_frame: "within publish_frame (publish_bookmark_sources C a ps t)"
  unfolding publish_bookmark_sources_def
  by (intro publish.within_intros publish_source_frame)

section \<open>The effect of a successful publication\<close>

lemma queue_source_event_Inr:
  assumes "queue_source_event C owner kind src snap t w = (Inr x, w')"
  shows "\<exists>now e. db w' = (db w)\<lparr>outbox_events := outbox_events (db w) @ [outbox_row now e]\<rparr>
    \<and> we_type e = source_event_type kind \<and> we_payload e = JObj [(''source'', snap)]
    \<and> we_tenant_id e = Some (tenant_ref C owner)"
  using assms unfolding queue_source_event_def
  by (fastforce simp: io_run dest!: queue_event_Inr)

definition new_source :: "uuid \<Rightarrow> uuid \<Rightarrow> uuid \<Rightarrow> json \<Rightarrow> time \<Rightarrow> source_provenance \<Rightarrow> social_source" where
  "new_source a post src digest t prov =
     \<lparr>src_account_id = a, src_post_id = post, src_social_source_id = src,
      src_current_content_digest = digest, src_acquisition = sp_acquisition prov,
      src_saved_authority = sp_saved_authority prov, src_captured_at = t, src_removed_at = None\<rparr>"

definition revise_source :: "uuid \<Rightarrow> json \<Rightarrow> time \<Rightarrow> source_provenance \<Rightarrow> social_source list \<Rightarrow> social_source list" where
  "revise_source src digest t prov =
     update_where (\<lambda>s. src_social_source_id s = src)
       (\<lambda>s. s\<lparr>src_current_content_digest := digest, src_captured_at := t,
              src_acquisition := sp_acquisition prov, src_saved_authority := sp_saved_authority prov\<rparr>)"

text \<open>The abstract effect of publishing a changed source, and the event that announces it.\<close>

definition source_published ::
  "contracts \<Rightarrow> uuid \<Rightarrow> time \<Rightarrow> uuid \<Rightarrow> loaded_source \<Rightarrow> json \<Rightarrow> archive \<Rightarrow> archive \<Rightarrow> bool" where
  "source_published C a t post loaded digest d d' \<longleftrightarrow>
     (\<exists>src snap now e cmds.
        facts_snapshot C (ls_facts loaded) src (ls_owner loaded) digest t BOOKMARK_PROVENANCE = Inr snap
        \<and> social_sources d' = (case ls_source_id loaded of
             Some i \<Rightarrow> revise_source src digest t BOOKMARK_PROVENANCE (social_sources d)
           | None \<Rightarrow> social_sources d @ [new_source a post src digest t BOOKMARK_PROVENANCE])
        \<and> (\<forall>i. ls_source_id loaded = Some i \<longrightarrow> src = i)
        \<and> (src, digest) \<notin> rev_key ` set (social_source_revisions d)
        \<and> map rev_key (social_source_revisions d') = map rev_key (social_source_revisions d) @ [(src, digest)]
        \<and> outbox_events d' = outbox_events d @ outbox_row now e # cmds
        \<and> we_type e = source_event_type (if ls_source_id loaded = None then SourceCaptured else SourceUpdated)
        \<and> we_payload e = JObj [(''source'', snap)] \<and> we_tenant_id e = Some (tenant_ref C (ls_owner loaded))
        \<and> (\<forall>r \<in> set cmds. out_event_type r = ''content.capture.requested.v1''))"

lemma write_source_Inr:
  assumes "write_source a t post ex src digest w = (Inr kind, w')"
  shows "kind = (if ex = None then SourceCaptured else SourceUpdated)
    \<and> db w' = (db w)\<lparr>social_sources := (case ex of
             Some i \<Rightarrow> revise_source src digest t BOOKMARK_PROVENANCE (social_sources (db w))
           | None \<Rightarrow> social_sources (db w) @ [new_source a post src digest t BOOKMARK_PROVENANCE])\<rparr>"
  using assms by (auto simp: write_source_def io_run update_source_def insert_source_def
      revise_source_def new_source_def split: if_splits)

lemma insert_revision_Inr:
  assumes "insert_revision src digest t prov w = (Inr x, w')"
  shows "social_sources (db w') = social_sources (db w) \<and> outbox_events (db w') = outbox_events (db w)
    \<and> (src, digest) \<notin> rev_key ` set (social_source_revisions (db w))
    \<and> map rev_key (social_source_revisions (db w'))
        = map rev_key (social_source_revisions (db w)) @ [(src, digest)]"
  using assms by (auto simp: io_run insert_revision_def insert_unique_Some rev_key_def)

lemma capture_frame_same:
  assumes "capture_frame d d'"
  shows "social_sources d' = social_sources d \<and> social_source_revisions d' = social_source_revisions d"
  using assms by (cases d; cases d') (simp add: capture_frame_def)

lemma publish_changed_Inr:
  assumes "publish_changed C a t post loaded digest w = (Inr x, w')"
  shows "source_published C a t post loaded digest (db w) (db w')"
proof -
  from assms obtain src w2 snap kind w3 w4 w5 where
      src: "(case ls_source_id loaded of Some i \<Rightarrow> ret i | None \<Rightarrow> new_uuid) w
            = (Inr src :: snapshot_error + uuid, w2)"
    and snap: "facts_snapshot C (ls_facts loaded) src (ls_owner loaded) digest t BOOKMARK_PROVENANCE = Inr snap"
    and wr: "write_source a t post (ls_source_id loaded) src digest w2 = (Inr kind, w3)"
    and rv: "insert_revision src digest t BOOKMARK_PROVENANCE w3 = (Inr (), w4)"
    and ev: "queue_source_event C (ls_owner loaded) kind src snap t w4 = (Inr (), w5)"
    and cap: "capture_expanded_links_in_transaction C a src (sf_expanded_urls (ls_facts loaded)) w5 = (Inr x, w')"
    unfolding publish_changed_def by (simp add: io_run) blast
  have s: "db w2 = db w" "\<forall>i. ls_source_id loaded = Some i \<longrightarrow> src = i"
    using src by (auto simp: io_run split: option.splits)
  note w3 = write_source_Inr [OF wr, unfolded s(1)] and w4 = insert_revision_Inr [OF rv]
  obtain now e where w5: "db w5 = (db w4)\<lparr>outbox_events := outbox_events (db w4) @ [outbox_row now e]\<rparr>"
    "we_type e = source_event_type kind" "we_payload e = JObj [(''source'', snap)]"
    "we_tenant_id e = Some (tenant_ref C (ls_owner loaded))"
    using queue_source_event_Inr [OF ev] by auto
  have cf: "capture_frame (db w5) (db w')" by (rule withinD [OF capture_links_frame cap])
  then obtain cmds where cmds: "outbox_events (db w') = outbox_events (db w5) @ cmds"
    "\<forall>r \<in> set cmds. out_event_type r = ''content.capture.requested.v1''"
    by (auto simp: capture_frame_def)
  show ?thesis
    unfolding source_published_def
    using snap s w3 w4 w5 cmds capture_frame_same [OF cf]
    by (intro exI [of _ src] exI [of _ snap] exI [of _ now] exI [of _ e] exI [of _ cmds]) simp
qed

lemma publish_source_Inr:
  assumes "publish_source C a t post w = (Inr x, w')"
  obtains (removed) loaded where "load_source a post (db w) = Some loaded"
      "ls_removed_at loaded \<noteq> None" "db w' = db w"
  | (current) loaded digest where "load_source a post (db w) = Some loaded"
      "ls_removed_at loaded = None" "facts_digest C (ls_facts loaded) BOOKMARK_PROVENANCE = Inr digest"
      "ls_digest loaded = Some digest" "db w' = db w"
  | (changed) loaded digest where "load_source a post (db w) = Some loaded"
      "ls_removed_at loaded = None" "facts_digest C (ls_facts loaded) BOOKMARK_PROVENANCE = Inr digest"
      "ls_digest loaded \<noteq> Some digest" "source_published C a t post loaded digest (db w) (db w')"
proof -
  from assms obtain loaded w1 where ld: "load_source a post (db w) = Some loaded" and d1: "db w1 = db w"
    and rest: "publish_loaded C a t post loaded w1 = (Inr x, w')"
    unfolding publish_source_def by (clarsimp simp: io_run) (metis advance_simps(1) world.ext_inject
        world.surjective world.update_convs(1))
  show thesis
  proof (cases "ls_removed_at loaded = None")
    case False
    with rest d1 have "db w' = db w" by (auto simp: publish_loaded_def ret_def)
    with False ld show thesis by (auto intro: removed)
  next
    case True
    with rest obtain digest where dg: "facts_digest C (ls_facts loaded) BOOKMARK_PROVENANCE = Inr digest"
      and q: "(if ls_digest loaded = Some digest then ret ()
               else publish_changed C a t post loaded digest) w1 = (Inr x, w')"
      by (auto simp: io_run publish_loaded_def)
    show thesis
    proof (cases "ls_digest loaded = Some digest")
      case same: True
      with q d1 have "db w' = db w" by (simp add: ret_def)
      with same True dg ld show thesis by (auto intro: current)
    next
      case False
      with q d1 publish_changed_Inr have "source_published C a t post loaded digest (db w) (db w')"
        by fastforce
      with False True dg ld show thesis by (auto intro: changed)
    qed
  qed
qed

section \<open>Properties\<close>

lemma publish_frame_tables:
  "publish_frame d d' \<Longrightarrow> accounts d' = accounts d \<and> posts d' = posts d \<and> users d' = users d"
  by (cases d; cases d') (simp add: publish_frame_def)

lemma load_source_after:
  assumes ld: "load_source a post d = Some loaded" and rm: "ls_removed_at loaded = None"
    and pub: "source_published C a t post loaded digest d d'"
    and fr: "publish_frame d d'"
  shows "\<exists>l. load_source a post d' = Some l \<and> ls_facts l = ls_facts loaded
    \<and> ls_digest l = Some digest \<and> ls_removed_at l = None"
proof -
  let ?p = "\<lambda>s. src_account_id s = a \<and> src_post_id s = post"
  note same = publish_frame_tables [OF fr]
  have old: "ls_source_id loaded = map_option src_social_source_id (select_one ?p (social_sources d))"
    "\<And>r. select_one ?p (social_sources d) = Some r \<Longrightarrow> src_removed_at r = None"
    using ld rm by (auto simp: load_source_def Let_def split: option.splits)
  obtain r where new: "select_one ?p (social_sources d') = Some r"
    "src_current_content_digest r = digest" "src_removed_at r = None"
  proof (cases "select_one ?p (social_sources d)")
    case None
    with pub old obtain src where "social_sources d' = social_sources d @ [new_source a post src digest t BOOKMARK_PROVENANCE]"
      by (auto simp: source_published_def)
    with None that show ?thesis
      by (simp add: select_one_append) (simp add: select_one_def new_source_def)
  next
    case (Some q)
    with pub old have "social_sources d' = revise_source (src_social_source_id q) digest t BOOKMARK_PROVENANCE (social_sources d)"
      by (auto simp: source_published_def)
    with Some that old(2) [OF Some] show ?thesis
      by (simp add: revise_source_def select_one_update_where)
  qed
  from ld new same show ?thesis
    by (auto simp: load_source_def Let_def split: option.splits)
qed

text \<open>Publishing a source that is removed or already current writes nothing.\<close>

lemma publish_source_quiet:
  assumes "load_source a post (db w) = Some l"
    and "ls_removed_at l \<noteq> None \<or> (\<exists>digest. facts_digest C (ls_facts l) BOOKMARK_PROVENANCE = Inr digest \<and> ls_digest l = Some digest)"
    and "publish_source C a t post w = (r, w')"
  shows "db w' = db w \<and> r \<in> {Inr (), Inl SnapQuery}"
  using assms by (auto simp: publish_source_def publish_loaded_def io_defs split: if_splits)

text \<open>
  C26. Publishing is idempotent: once a post has been published for an account, publishing it again
  (a redelivered page, a later scan) writes nothing, succeeds unless the database fails, and this whatever the
  capture times and whatever else has changed in the archive in between, as long as what publishing reads of this post
  is the same: the owner of the account, the stored text, instant, availability and links of the post, its author's
  identity and names, and the account's source of the post. No second revision and no second event can appear.
\<close>

theorem publish_source_idempotent:
  assumes "publish_source C a t post w = (Inr x, w1)" and "load_source a post (db w2) = load_source a post (db w1)"
    and "publish_source C a t' post w2 = (r, w3)"
  shows "db w3 = db w2 \<and> r \<in> {Inr (), Inl SnapQuery}"
  using assms(1)
proof (cases rule: publish_source_Inr)
  case (removed loaded)
  with assms(2) publish_source_quiet [OF _ _ assms(3), of loaded] show ?thesis by simp
next
  case (current loaded digest)
  with assms(2) publish_source_quiet [OF _ _ assms(3), of loaded] show ?thesis by simp
next
  case (changed loaded digest)
  from load_source_after [OF changed(1,2,5) withinD [OF publish_source_frame assms(1)]]
  obtain l where "load_source a post (db w2) = Some l" "ls_facts l = ls_facts loaded" "ls_digest l = Some digest"
    using assms(2) by auto
  with changed(3) publish_source_quiet [OF _ _ assms(3)] show ?thesis by auto
qed

text \<open>
  Exactly one event per material change. A successful publication of a source that is not
  tombstoned and whose digest differs from the stored one appends, behind the existing outbox, exactly
  one event (\<^verbatim>\<open>captured\<close> when the source is new to the account, \<^verbatim>\<open>updated\<close> otherwise, addressed to the
  account's owner) followed only by article capture commands, and records exactly one new revision.
\<close>

theorem publish_source_one_event:
  assumes "publish_source C a t post w = (Inr x, w')"
    and "load_source a post (db w) = Some loaded" and "ls_removed_at loaded = None"
    and "facts_digest C (ls_facts loaded) BOOKMARK_PROVENANCE = Inr digest"
    and "ls_digest loaded \<noteq> Some digest"
  shows "\<exists>now e cmds. outbox_events (db w') = outbox_events (db w) @ outbox_row now e # cmds
    \<and> we_type e = source_event_type (if ls_source_id loaded = None then SourceCaptured else SourceUpdated)
    \<and> we_tenant_id e = Some (tenant_ref C (ls_owner loaded))
    \<and> (\<forall>r \<in> set cmds. out_event_type r = ''content.capture.requested.v1'')
    \<and> length (social_source_revisions (db w')) = Suc (length (social_source_revisions (db w)))"
proof -
  from assms have "source_published C a t post loaded digest (db w) (db w')"
    by (auto elim!: publish_source_Inr)
  then obtain src now e cmds where
      rv: "map rev_key (social_source_revisions (db w')) = map rev_key (social_source_revisions (db w)) @ [(src, digest)]"
      and rest: "outbox_events (db w') = outbox_events (db w) @ outbox_row now e # cmds"
        "we_type e = source_event_type (if ls_source_id loaded = None then SourceCaptured else SourceUpdated)"
        "we_tenant_id e = Some (tenant_ref C (ls_owner loaded))"
        "\<forall>r \<in> set cmds. out_event_type r = ''content.capture.requested.v1''"
    unfolding source_published_def by blast
  have "length (social_source_revisions (db w')) = Suc (length (social_source_revisions (db w)))"
    using arg_cong [OF rv, of length] by simp
  with rest show ?thesis by blast
qed

definition demo_post_row :: post_row where
  "demo_post_row = \<lparr>pst_id = 2, pst_provider_id = ''11'', pst_author_user_id = Some 1, pst_text = ''hi'',
     pst_long_text = None, pst_expanded_urls = [],
     pst_language = None, pst_published_at = None, pst_edited_at = None,
     pst_conversation_provider_id = None, pst_like_count = None, pst_retweet_count = None,
     pst_reply_count = None, pst_quote_count = None, pst_bookmark_count = None,
     pst_impression_count = None, pst_parser_version = 1, pst_normalization_provenance = OfficialApi, pst_availability = Active\<rparr>"

definition demo_source_db :: archive where
  "demo_source_db = demo_archive\<lparr>
     users := [\<lparr>usr_id = 1, usr_provider_id = ''u1'', usr_username = None, usr_display_name = None,
               usr_parser_version = 1\<rparr>],
     posts := [demo_post_row]\<rparr>"

definition demo_digest :: json where
  "demo_digest = JObj [(''algorithm'', JStr ''sha256''), (''hex'', JStr [])]"

definition demo_source :: "json \<Rightarrow> time option \<Rightarrow> social_source" where
  "demo_source digest removed =
     \<lparr>src_account_id = 7, src_post_id = 2, src_social_source_id = 50,
      src_current_content_digest = digest, src_acquisition = ''official_api'',
      src_saved_authority = ''authoritative_platform_state'', src_captured_at = 0,
      src_removed_at = removed\<rparr>"

definition demo_loaded :: "loaded_source" where
  "demo_loaded = the (load_source 7 2 demo_source_db)"

lemmas publish_eval = publish_source_def publish_loaded_def publish_changed_def io_defs
  demo_world_def demo_schedule_def fault_now_def advance_def db_now_def load_source_def
  demo_source_db_def demo_archive_def empty_archive_def select_one_def demo_account_def
  demo_post_row_def facts_digest_def content_digest_def demo_contracts_def facts_snapshot_def
  write_source_def insert_source_def insert_revision_def insert_unique_def queue_source_event_def
  queue_event_def build_envelope_def enqueue_event_def insert_outbox_def allowed_event_types_def
  outbox_row_def capture_expanded_links_in_transaction_def select_external_expanded_urls_def
  entity_def

lemma demo_publish_ok:
  "publish_source demo_contracts 7 5 2 (demo_world demo_source_db) =
     (Inr (), snd (publish_source demo_contracts 7 5 2 (demo_world demo_source_db)))"
  unfolding prod_eq_iff by (rule conjI) (simp_all add: publish_eval)

lemma demo_load:
  "load_source 7 2 demo_source_db = Some demo_loaded \<and> ls_removed_at demo_loaded = None
   \<and> facts_digest demo_contracts (ls_facts demo_loaded) BOOKMARK_PROVENANCE = Inr demo_digest
   \<and> ls_digest demo_loaded = None"
  by code_simp

theorem publish_source_one_event_witness:
  "map out_event_type (outbox_events
      (db (snd (publish_source demo_contracts 7 5 2 (demo_world demo_source_db)))))
     = [''social.source.captured.v1'']
   \<and> length (social_source_revisions
      (db (snd (publish_source demo_contracts 7 5 2 (demo_world demo_source_db))))) = 1"
proof -
  have "map out_event_type (outbox_events
      (db (snd (publish_source demo_contracts 7 5 2 (demo_world demo_source_db)))))
     = [''social.source.captured.v1'']"
    by (simp add: publish_eval)
  moreover have "social_source_revisions (db (demo_world demo_source_db)) = []"
    by (simp add: demo_world_def demo_source_db_def demo_archive_def empty_archive_def)
  moreover have "db (demo_world demo_source_db) = demo_source_db" by (simp add: demo_world_def)
  ultimately show ?thesis
    using publish_source_one_event [OF demo_publish_ok, of demo_loaded demo_digest] demo_load by auto
qed

definition demo_relayed :: "archive world" where
  "demo_relayed = (let w1 = snd (publish_source demo_contracts 7 5 2 (demo_world demo_source_db))
     in w1\<lparr>db := (db w1)\<lparr>outbox_events := [], bookmarks := [], explicit_captures := []\<rparr>\<rparr>)"

theorem publish_source_idempotent_witness:
  "outbox_events (db (snd (publish_source demo_contracts 7 9 2 demo_relayed))) = []
   \<and> length (social_source_revisions (db (snd (publish_source demo_contracts 7 9 2 demo_relayed)))) = 1"
proof -
  have "load_source 7 2 (db demo_relayed) = load_source 7 2 (db (snd (publish_source demo_contracts 7 5 2 (demo_world demo_source_db))))"
    by (simp add: demo_relayed_def Let_def load_source_def split: option.split)
  from publish_source_idempotent [OF demo_publish_ok this prod.collapse [symmetric], of 9]
  have "db (snd (publish_source demo_contracts 7 9 2 demo_relayed)) = db demo_relayed" by simp
  then show ?thesis by (simp add: demo_relayed_def Let_def publish_eval)
qed

text \<open>
  A tombstoned source is never republished: when the account's source of the post carries a
  removal, publishing it changes nothing, whether the call succeeds or fails.
\<close>

theorem publish_source_removed_inert:
  assumes "load_source a post (db w) = Some loaded" and "ls_removed_at loaded \<noteq> None"
    and "publish_source C a t post w = (r, w')"
  shows "db w' = db w"
  using assms
  by (auto simp: publish_source_def publish_loaded_def io_defs split: if_splits)

text \<open>
  C37. A source whose content returns to an earlier revision cannot be published. When the current
  facts have a digest that the revision history of the source already holds, but the current digest
  is another one, \<open>publish_source\<close> fails under every schedule: the revision insert has no conflict
  clause and the history is unique per digest. The failure aborts the page that contains the post.
\<close>

theorem publish_source_revert_fails:
  assumes "load_source a post (db w) = Some loaded" and "ls_removed_at loaded = None"
    and "facts_digest C (ls_facts loaded) BOOKMARK_PROVENANCE = Inr digest"
    and "ls_source_id loaded = Some src" and "ls_digest loaded \<noteq> Some digest"
    and "(src, digest) \<in> rev_key ` set (social_source_revisions (db w))"
  shows "\<exists>e w'. publish_source C a t post w = (Inl e, w')"
proof -
  obtain r w' where run: "publish_source C a t post w = (r, w')" by fastforce
  have False if "r = Inr x" for x
    using run [unfolded that]
  proof (cases rule: publish_source_Inr)
    case (changed l dg)
    with assms show False by (auto simp: source_published_def)
  qed (use assms in auto)
  with run show ?thesis by (cases r) auto
qed

theorem publish_source_removed_inert_witness:
  "db (snd (publish_source demo_contracts 7 5 2
      (demo_world (demo_source_db\<lparr>social_sources := [demo_source demo_digest (Some 3)]\<rparr>))))
   = demo_source_db\<lparr>social_sources := [demo_source demo_digest (Some 3)]\<rparr>"
proof -
  let ?d = "demo_source_db\<lparr>social_sources := [demo_source demo_digest (Some 3)]\<rparr>"
  have w: "db (demo_world ?d) = ?d" by (simp add: demo_world_def)
  obtain l where "load_source 7 2 ?d = Some l" "ls_removed_at l = Some 3"
    by (simp add: load_source_def demo_source_db_def demo_archive_def empty_archive_def select_one_def
        demo_account_def demo_post_row_def demo_source_def)
  with publish_source_removed_inert [of 7 2 "demo_world ?d" l demo_contracts 5] w show ?thesis
    by (metis option.distinct(1) prod.collapse)
qed

theorem publish_source_revert_fails_witness:
  "\<exists>e w'. publish_source demo_contracts 7 5 2
     (demo_world (demo_source_db\<lparr>social_sources := [demo_source JNull None],
        social_source_revisions := [\<lparr>rev_social_source_id = 50, rev_content_digest = demo_digest,
          rev_captured_at = 0, rev_acquisition = ''official_api'',
          rev_saved_authority = ''authoritative_platform_state''\<rparr>]\<rparr>)) = (Inl e, w')"
proof -
  let ?d = "demo_source_db\<lparr>social_sources := [demo_source JNull None],
        social_source_revisions := [\<lparr>rev_social_source_id = 50, rev_content_digest = demo_digest,
          rev_captured_at = 0, rev_acquisition = ''official_api'',
          rev_saved_authority = ''authoritative_platform_state''\<rparr>]\<rparr>"
  define l where "l = demo_loaded\<lparr>ls_source_id := Some 50, ls_digest := Some JNull\<rparr>"
  have "load_source 7 2 (db (demo_world ?d)) = Some l"
    unfolding l_def by code_simp
  moreover have "facts_digest demo_contracts (ls_facts l) BOOKMARK_PROVENANCE = Inr demo_digest"
    "ls_removed_at l = None"
    using demo_load by (simp_all add: l_def)
  ultimately show ?thesis
    using publish_source_revert_fails [of 7 2 "demo_world ?d" l demo_contracts demo_digest 50 5]
    by (simp add: l_def demo_digest_def demo_world_def rev_key_def)
qed

end
