(* ===== verification/Persist.thy ===== *)
theory Persist
  imports Social_Sources
begin

text \<open>
  Persisting a normalized batch: the helpers \<^verbatim>\<open>persist_users\<close>, \<^verbatim>\<open>persist_posts\<close>,
  \<^verbatim>\<open>persist_relations\<close> and \<^verbatim>\<open>persist_media\<close> of \<^verbatim>\<open>x-sync/src/lib.rs\<close>, shared by the full snapshot and
  the incremental scan. A \<^verbatim>\<open>HashMap\<close> is an association list with unique keys; the order in which it
  is iterated is unspecified in Rust and is the parameter \<open>hash_order\<close>.
\<close>

section \<open>Hash maps\<close>

definition hash_insert :: "string \<Rightarrow> uuid \<Rightarrow> (string \<times> uuid) list \<Rightarrow> (string \<times> uuid) list" where
  "hash_insert k v m = upsert fst (\<lambda>new old. (fst old, snd new)) (k, v) m"

definition hash_values :: "contracts \<Rightarrow> (string \<times> uuid) list \<Rightarrow> uuid list" where
  "hash_values C m = hash_order C (map snd m)"

lemma map_of_hash_insert: "map_of (hash_insert k v m) = (map_of m)(k \<mapsto> v)"
proof -
  have "map_of (map (\<lambda>r. if fst r = k then (fst r, v) else r) xs) =
      (if k \<in> fst ` set xs then (map_of xs)(k \<mapsto> v) else map_of xs)" for xs
    by (induction xs) (auto simp: fun_eq_iff)
  moreover have "k \<notin> fst ` set xs \<Longrightarrow> map_of (xs @ [(k, v)]) = (map_of xs)(k \<mapsto> v)" for xs
    by (induction xs) (auto simp: fun_eq_iff)
  ultimately show ?thesis
    by (simp add: hash_insert_def upsert_def cong: if_cong)
qed

section \<open>Row writers\<close>

definition user_merge :: "user_row \<Rightarrow> user_row \<Rightarrow> user_row" where
  "user_merge new old = old\<lparr>usr_username := usr_username new, usr_display_name := usr_display_name new,
     usr_parser_version := usr_parser_version new\<rparr>"

definition upsert_user :: "normalized_user \<Rightarrow> (snapshot_error, uuid) dbio" where
  "upsert_user u =
     sql SnapQuery (\<lambda>now fresh d.
       let new = \<lparr>usr_id = fresh 0, usr_provider_id = nu_provider_id u, usr_username = nu_username u,
                  usr_display_name = nu_display_name u, usr_parser_version = nu_parser_version u\<rparr>
       in case select_one (\<lambda>r. usr_provider_id r = nu_provider_id u) (users d) of
            Some r \<Rightarrow> Some (usr_id r, d\<lparr>users := upsert usr_provider_id user_merge new (users d)\<rparr>)
          | None \<Rightarrow> if fresh 0 \<in> usr_id ` set (users d) then None
                    else Some (fresh 0, d\<lparr>users := upsert usr_provider_id user_merge new (users d)\<rparr>))"

definition persist_users :: "normalized_user list \<Rightarrow> (snapshot_error, (string \<times> uuid) list) dbio" where
  "persist_users us =
     fold_io (\<lambda>u ids. bind_io (upsert_user u) (\<lambda>i. ret (hash_insert (nu_provider_id u) i ids))) us []"

definition post_merge :: "post_row \<Rightarrow> post_row \<Rightarrow> post_row" where
  "post_merge new old = new\<lparr>pst_id := pst_id old, pst_provider_id := pst_provider_id old,
     pst_normalization_provenance := pst_normalization_provenance old\<rparr>"

definition post_row_of :: "uuid \<Rightarrow> uuid \<Rightarrow> normalized_post \<Rightarrow> post_row" where
  "post_row_of i author p =
     \<lparr>pst_id = i, pst_provider_id = np_provider_id p, pst_author_user_id = Some author,
      pst_text = np_text p, pst_long_text = np_long_text p, pst_expanded_urls = np_expanded_urls p,
      pst_language = np_language p, pst_published_at = np_published_at p,
      pst_edited_at = np_edited_at p,
      pst_conversation_provider_id = np_conversation_provider_id p,
      pst_like_count = np_like_count p, pst_retweet_count = np_retweet_count p,
      pst_reply_count = np_reply_count p, pst_quote_count = np_quote_count p,
      pst_bookmark_count = np_bookmark_count p, pst_impression_count = np_impression_count p,
      pst_parser_version = np_parser_version p,
      pst_normalization_provenance = OfficialApi, pst_availability = np_availability p\<rparr>"

definition upsert_post :: "uuid \<Rightarrow> normalized_post \<Rightarrow> (snapshot_error, uuid) dbio" where
  "upsert_post author p =
     sql SnapQuery (\<lambda>now fresh d.
       let new = post_row_of (fresh 0) author p
       in case select_one (\<lambda>r. pst_provider_id r = np_provider_id p) (posts d) of
            Some r \<Rightarrow> Some (pst_id r, d\<lparr>posts := upsert pst_provider_id post_merge new (posts d)\<rparr>)
          | None \<Rightarrow> if fresh 0 \<in> pst_id ` set (posts d) then None
                    else Some (fresh 0, d\<lparr>posts := upsert pst_provider_id post_merge new (posts d)\<rparr>))"

definition persist_posts ::
  "normalized_post list \<Rightarrow> (string \<times> uuid) list \<Rightarrow> (snapshot_error, (string \<times> uuid) list) dbio" where
  "persist_posts ps users_by_id =
     fold_io (\<lambda>p ids.
         case map_of users_by_id (np_author_provider_id p) of
           None \<Rightarrow> throw PersistedAuthorMissing
         | Some author \<Rightarrow>
             bind_io (upsert_post author p) (\<lambda>i. ret (hash_insert (np_provider_id p) i ids)))
       ps []"

definition rel_merge :: "relation_row \<Rightarrow> relation_row \<Rightarrow> relation_row" where
  "rel_merge new old = old\<lparr>rel_parser_version := rel_parser_version new\<rparr>"

definition persist_relations ::
  "normalized_relation list \<Rightarrow> (string \<times> uuid) list \<Rightarrow> (snapshot_error, unit) dbio" where
  "persist_relations rs posts_by_id =
     for_each (\<lambda>r.
         case map_of posts_by_id (nr_post_provider_id r) of
           None \<Rightarrow> throw PersistedAuthorMissing
         | Some post \<Rightarrow> exec SnapQuery (\<lambda>d. d\<lparr>post_relations :=
             upsert rel_key rel_merge
               \<lparr>rel_post_id = post, rel_related_post_provider_id = nr_related_post_provider_id r,
                rel_relation = nr_relation r, rel_parser_version = nr_parser_version r\<rparr>
               (post_relations d)\<rparr>))
       rs"

definition med_merge :: "media_row \<Rightarrow> media_row \<Rightarrow> media_row" where
  "med_merge new old = old\<lparr>med_kind := med_kind new, med_metadata := med_metadata new,
     med_blob_ref := med_blob_ref new, med_parser_version := med_parser_version new\<rparr>"

definition persist_media ::
  "normalized_media list \<Rightarrow> (string \<times> uuid) list \<Rightarrow> (snapshot_error, unit) dbio" where
  "persist_media ms posts_by_id =
     for_each (\<lambda>m.
         case map_of posts_by_id (nm_post_provider_id m) of
           None \<Rightarrow> throw PersistedAuthorMissing
         | Some post \<Rightarrow> exec SnapQuery (\<lambda>d. d\<lparr>media :=
             upsert med_key med_merge
               \<lparr>med_post_id = post, med_provider_id = nm_provider_id m, med_kind = nm_kind m,
                med_metadata = nm_metadata m, med_blob_ref = nm_blob_ref m,
                med_parser_version = nm_parser_version m\<rparr>
               (media d)\<rparr>))
       ms"

section \<open>The conflict keys are never written\<close>

interpretation user_upsert: keyed_upsert usr_provider_id user_merge
  by unfold_locales (simp add: user_merge_def)

interpretation post_upsert: keyed_upsert pst_provider_id post_merge
  by unfold_locales (simp add: post_merge_def)

interpretation rel_upsert: keyed_upsert rel_key rel_merge
  by unfold_locales (simp add: rel_merge_def rel_key_def)

interpretation med_upsert: keyed_upsert med_key med_merge
  by unfold_locales (simp add: med_merge_def med_key_def)

interpretation hash_upsert: keyed_upsert fst "\<lambda>new old. (fst old, snd new)"
  by unfold_locales simp

section \<open>What persisting a batch leaves alone\<close>

text \<open>Persisting content writes users, posts, relations and media only.\<close>

definition content_frame :: "archive \<Rightarrow> archive \<Rightarrow> bool" where
  "content_frame d d' \<longleftrightarrow>
     d'\<lparr>users := [], posts := [], post_relations := [], media := []\<rparr>
       = d\<lparr>users := [], posts := [], post_relations := [], media := []\<rparr>"

interpretation content: frame content_frame
  by unfold_locales (auto simp: content_frame_def)

lemma upsert_user_frame: "within content_frame (upsert_user u)"
  unfolding upsert_user_def
  by (rule content.within_sql) (auto simp: content_frame_def Let_def split: option.splits if_splits)

lemma upsert_post_frame: "within content_frame (upsert_post a p)"
  unfolding upsert_post_def
  by (rule content.within_sql) (auto simp: content_frame_def Let_def split: option.splits if_splits)

lemma persist_frame:
  "within content_frame (persist_users us)"
  "within content_frame (persist_posts ps m)"
  "within content_frame (persist_relations rs m)"
  "within content_frame (persist_media ms m)"
proof -
  show "within content_frame (persist_users us)"
    unfolding persist_users_def by (intro content.within_intros upsert_user_frame)
  show "within content_frame (persist_posts ps m)"
    unfolding persist_posts_def by (intro content.within_intros upsert_post_frame)
  have ex: "within content_frame (exec SnapQuery (\<lambda>d. d\<lparr>post_relations := f d\<rparr>))"
    "within content_frame (exec SnapQuery (\<lambda>d. d\<lparr>media := g d\<rparr>))" for f g
    by (rule content.within_exec, simp add: content_frame_def)+
  show "within content_frame (persist_relations rs m)"
    unfolding persist_relations_def by (intro content.within_intros ex)
  show "within content_frame (persist_media ms m)"
    unfolding persist_media_def by (intro content.within_intros ex)
qed

section \<open>A closed batch persists without a missing author\<close>

lemma fold_io_keys:
  assumes "fold_io (\<lambda>x ids. bind_io (f x) (\<lambda>i. ret (hash_insert (k x) i ids))) xs m w = (Inr m', w')"
  shows "dom (map_of m') = dom (map_of m) \<union> k ` set xs"
  using assms
proof (induction xs arbitrary: m w)
  case (Cons x xs)
  from Cons.prems obtain i w1 where
    "fold_io (\<lambda>x ids. bind_io (f x) (\<lambda>i. ret (hash_insert (k x) i ids))) xs (hash_insert (k x) i m) w1
       = (Inr m', w')"
    by (auto simp: io_run)
  from Cons.IH [OF this] show ?case by (auto simp: map_of_hash_insert)
qed (simp add: io_run)

lemma persist_users_dom:
  "persist_users us w = (Inr m, w') \<Longrightarrow> dom (map_of m) = nu_provider_id ` set us"
  unfolding persist_users_def by (drule fold_io_keys) simp

lemma persist_posts_total:
  "\<forall>p \<in> set ps. np_author_provider_id p \<in> dom (map_of m) \<Longrightarrow>
     persist_posts ps m =
       fold_io (\<lambda>p ids. bind_io (upsert_post (the (map_of m (np_author_provider_id p))) p)
          (\<lambda>i. ret (hash_insert (np_provider_id p) i ids))) ps []"
proof -
  have "\<forall>p \<in> set ps. np_author_provider_id p \<in> dom (map_of m) \<Longrightarrow>
     fold_io (\<lambda>p ids.
         case map_of m (np_author_provider_id p) of
           None \<Rightarrow> throw PersistedAuthorMissing
         | Some author \<Rightarrow>
             bind_io (upsert_post author p) (\<lambda>i. ret (hash_insert (np_provider_id p) i ids))) ps ids
     = fold_io (\<lambda>p ids. bind_io (upsert_post (the (map_of m (np_author_provider_id p))) p)
          (\<lambda>i. ret (hash_insert (np_provider_id p) i ids))) ps ids" for ids
  proof (induction ps arbitrary: ids)
    case (Cons p ps)
    then obtain author where "map_of m (np_author_provider_id p) = Some author" by auto
    with Cons show ?case by (simp add: bind_io_def fun_eq_iff ret_def split: prod.splits sum.splits)
  qed simp
  then show "\<forall>p \<in> set ps. np_author_provider_id p \<in> dom (map_of m) \<Longrightarrow> ?thesis"
    by (simp add: persist_posts_def)
qed

lemma persist_posts_dom:
  "persist_posts ps m w = (Inr m', w') \<Longrightarrow> \<forall>p \<in> set ps. np_author_provider_id p \<in> dom (map_of m) \<Longrightarrow>
     dom (map_of m') = np_provider_id ` set ps"
  by (simp add: persist_posts_total) (drule fold_io_keys, simp)

end
