(* ===== verification/Snapshot.thy ===== *)
theory Snapshot
  imports Persist
begin

text \<open>
  The full bookmark snapshot, \<^verbatim>\<open>BookmarkSnapshotService\<close> of \<^verbatim>\<open>x-sync/src/lib.rs\<close>: run creation and
  resumption, page staging, failure marking and the completion transaction that reconciles the
  account's bookmarks with the staged items and takes over authority. The provider
  (\<^verbatim>\<open>BookmarkPageSource\<close>) is a parameter: any function from the continuation and the step number to a
  page or a failure. The page loop takes fuel; \<open>None\<close> is an exhausted fuel, and the termination
  theorem says how much is enough.
\<close>

section \<open>Provider pages and runs\<close>

record bookmark_page =
  page_envelope :: envelope
  page_next_token :: "string option"

type_synonym page_source = "string option \<Rightarrow> nat \<Rightarrow> bookmark_page option"

definition fetch_page :: "page_source \<Rightarrow> string option \<Rightarrow> ('e, bookmark_page option) dbio" where
  "fetch_page source continuation w = (Inr (source continuation (tick w)), advance w)"

datatype snapshot_outcome = Incomplete uuid | Completed uuid uuid

record snapshot_run =
  sr_id :: uuid
  sr_account_id :: uuid
  sr_snapshot_id :: uuid
  sr_checkpoint :: "string option"

record reconciliation_statistics =
  st_added :: int
  st_retained :: int
  st_removed :: int

section \<open>Starting and resuming\<close>

definition insert_run :: "uuid \<Rightarrow> run_type \<Rightarrow> (snapshot_error, uuid) dbio" where
  "insert_run a kind =
     sql SnapQuery (\<lambda>now fresh d.
       if account_exists a d
       then map_option (\<lambda>t. (fresh 0, d\<lparr>sync_runs := t\<rparr>))
         (insert_unique run_id
            \<lparr>run_id = fresh 0, run_account_id = Some a, run_run_type = kind, run_state = Running,
             run_checkpoint = None, run_pages_fetched = 0, run_items_observed = 0,
             run_added_count = 0, run_retained_count = 0, run_removed_count = 0,
             run_finished_at = None\<rparr> (sync_runs d))
       else None)"

definition insert_snapshot :: "uuid \<Rightarrow> (snapshot_error, uuid) dbio" where
  "insert_snapshot run =
     sql SnapQuery (\<lambda>now fresh d.
       map_option (\<lambda>t. (fresh 0, d\<lparr>snapshots := t\<rparr>))
         (insert_unique snap_id
            \<lparr>snap_id = fresh 0, snap_sync_run_id = run, snap_folder_id = None, snap_complete = False,
             snap_completed_at = None, snap_page_count = 0\<rparr> (snapshots d)))"

definition create_run :: "uuid \<Rightarrow> (snapshot_error, snapshot_run) dbio" where
  "create_run a =
     transaction SnapQuery
       (bind_io (insert_run a RFull) (\<lambda>run.
        bind_io (insert_snapshot run) (\<lambda>snap.
        ret \<lparr>sr_id = run, sr_account_id = a, sr_snapshot_id = snap, sr_checkpoint = None\<rparr>)))"

definition resumable :: "uuid \<Rightarrow> uuid \<Rightarrow> archive \<Rightarrow> (uuid \<times> string option) option" where
  "resumable a run d =
     (case select_one (\<lambda>r. run_id r = run \<and> run_account_id r = Some a \<and> run_run_type r = RFull
                          \<and> (run_state r = Running \<or> run_state r = RunFailed)) (sync_runs d) of
        None \<Rightarrow> None
      | Some r \<Rightarrow> map_option (\<lambda>s. (snap_id s, run_checkpoint r))
                   (select_one (\<lambda>s. snap_sync_run_id s = run_id r) (snapshots d)))"

definition set_run :: "uuid \<Rightarrow> run_state \<Rightarrow> time option \<Rightarrow> archive \<Rightarrow> archive" where
  "set_run run st finished d =
     d\<lparr>sync_runs := update_where (\<lambda>r. run_id r = run)
         (\<lambda>r. r\<lparr>run_state := st, run_finished_at := finished\<rparr>) (sync_runs d)\<rparr>"

definition resume_run :: "uuid \<Rightarrow> uuid \<Rightarrow> (snapshot_error, snapshot_run) dbio" where
  "resume_run a run =
     bind_io (query SnapQuery (resumable a run)) (\<lambda>row.
       case row of
         None \<Rightarrow> throw RunUnavailable
       | Some (snap, checkpoint) \<Rightarrow>
           then_io (exec SnapQuery (set_run run Running None))
             (ret \<lparr>sr_id = run, sr_account_id = a, sr_snapshot_id = snap, sr_checkpoint = checkpoint\<rparr>))"

definition load_or_create_run :: "uuid \<Rightarrow> uuid option \<Rightarrow> (snapshot_error, snapshot_run) dbio" where
  "load_or_create_run a resume =
     (case resume of Some run \<Rightarrow> resume_run a run | None \<Rightarrow> create_run a)"

definition mark_failed :: "uuid \<Rightarrow> (snapshot_error, unit) dbio" where
  "mark_failed run =
     bind_io read_clock (\<lambda>now. exec SnapQuery (set_run run RunFailed (Some now)))"

section \<open>Staging a page\<close>

definition item_merge :: "snapshot_item \<Rightarrow> snapshot_item \<Rightarrow> snapshot_item" where
  "item_merge new old = old\<lparr>item_observed_at := item_observed_at new\<rparr>"

definition stage_item :: "uuid \<Rightarrow> time \<Rightarrow> uuid \<Rightarrow> (snapshot_error, unit) dbio" where
  "stage_item snap observed post =
     exec SnapQuery (\<lambda>d. d\<lparr>snapshot_bookmark_items :=
       upsert item_key item_merge
         \<lparr>item_snapshot_id = snap, item_post_id = post, item_observed_at = observed\<rparr>
         (snapshot_bookmark_items d)\<rparr>)"

definition record_page :: "uuid \<Rightarrow> string option \<Rightarrow> int \<Rightarrow> (snapshot_error, unit) dbio" where
  "record_page run next_token items =
     sql SnapQuery (\<lambda>now fresh d.
       if (\<forall>r \<in> set (sync_runs d). run_id r = run \<and> run_state r = Running \<longrightarrow>
             fits_i32 (run_pages_fetched r + 1) \<and> fits_i32 (run_items_observed r + items))
       then Some ((), d\<lparr>sync_runs :=
              update_where (\<lambda>r. run_id r = run \<and> run_state r = Running)
                (\<lambda>r. r\<lparr>run_checkpoint := next_token, run_pages_fetched := run_pages_fetched r + 1,
                       run_items_observed := run_items_observed r + items\<rparr>) (sync_runs d)\<rparr>)
       else None)"

definition persist_batch ::
  "normalized_batch \<Rightarrow> (snapshot_error, (string \<times> uuid) list) dbio" where
  "persist_batch b =
     bind_io (persist_users (nb_users b)) (\<lambda>us.
     bind_io (persist_posts (nb_posts b) us) (\<lambda>ps.
     then_io (persist_relations (nb_relations b) ps)
     (then_io (persist_media (nb_media b) ps) (ret ps))))"

definition stage_page ::
  "contracts \<Rightarrow> (string \<Rightarrow> time option) \<Rightarrow> snapshot_run \<Rightarrow> bookmark_page \<Rightarrow> time
   \<Rightarrow> (snapshot_error, unit) dbio" where
  "stage_page C parse run page observed =
     bind_io (map_err SnapNormalize (of_result (normalize parse (page_envelope page)))) (\<lambda>b.
       if int (length (nb_posts b)) > i32_max then throw StatisticsOverflow
       else transaction SnapQuery
        (bind_io (persist_batch b) (\<lambda>ps.
         then_io (publish_bookmark_sources C (sr_account_id run) (hash_values C ps) observed)
         (then_io (for_each (stage_item (sr_snapshot_id run) observed) (hash_values C ps))
         (record_page (sr_id run) (page_next_token page) (int (length (nb_posts b))))))))"

section \<open>Completing a run\<close>

definition run_current :: "uuid \<Rightarrow> snapshot_run \<Rightarrow> archive \<Rightarrow> (bool \<times> run_state) option" where
  "run_current a run d =
     (case select_one (\<lambda>s. snap_id s = sr_snapshot_id run \<and> snap_sync_run_id s = sr_id run) (snapshots d) of
        None \<Rightarrow> None
      | Some s \<Rightarrow> map_option (\<lambda>r. (snap_complete s, run_state r))
          (select_one (\<lambda>r. run_id r = sr_id run \<and> run_account_id r = Some a) (sync_runs d)))"

definition lock_finalization :: "uuid \<Rightarrow> snapshot_run \<Rightarrow> (snapshot_error, unit) dbio" where
  "lock_finalization a run =
     then_io (query SnapQuery (\<lambda>d. ()))
     (then_io (query SnapQuery (\<lambda>d. ()))
     (bind_io (query SnapQuery (run_current a run)) (\<lambda>current.
        if current = Some (False, Running) then ret () else throw RunUnavailable)))"

definition snapshot_items :: "uuid \<Rightarrow> archive \<Rightarrow> snapshot_item list" where
  "snapshot_items snap d = filter (\<lambda>i. item_snapshot_id i = snap) (snapshot_bookmark_items d)"

definition matching_bookmarks :: "uuid \<Rightarrow> snapshot_item \<Rightarrow> archive \<Rightarrow> bookmark list" where
  "matching_bookmarks a i d =
     filter (\<lambda>b. bm_active a b \<and> bm_post_id b = item_post_id i) (bookmarks d)"

definition added_count :: "uuid \<Rightarrow> uuid \<Rightarrow> archive \<Rightarrow> int" where
  "added_count a snap d =
     int (length (filter (\<lambda>i. matching_bookmarks a i d = []) (snapshot_items snap d)))"

definition retained_count :: "uuid \<Rightarrow> uuid \<Rightarrow> archive \<Rightarrow> int" where
  "retained_count a snap d =
     (\<Sum>i \<leftarrow> snapshot_items snap d. int (length (matching_bookmarks a i d)))"

definition active_merge :: "bookmark \<Rightarrow> bookmark \<Rightarrow> bookmark" where
  "active_merge new old = old\<lparr>bm_last_observed_saved_at := bm_last_observed_saved_at new,
     bm_observed_removed_at := None, bm_observed_removed_snapshot_id := None,
     bm_last_incremental_run_id := None\<rparr>"

definition bookmark_of_item :: "uuid \<Rightarrow> uuid \<Rightarrow> snapshot_item \<Rightarrow> bookmark" where
  "bookmark_of_item i a item =
     \<lparr>bm_id = i, bm_account_id = a, bm_post_id = item_post_id item,
      bm_first_observed_saved_at = item_observed_at item,
      bm_last_observed_saved_at = item_observed_at item, bm_observed_removed_at = None,
      bm_observed_removed_snapshot_id = None, bm_last_write_operation_id = None, bm_last_write_observed_at = None,
      bm_observed_removed_write_operation_id = None, bm_last_incremental_run_id = None\<rparr>"

fun upsert_items ::
  "(nat \<Rightarrow> uuid) \<Rightarrow> uuid \<Rightarrow> nat \<Rightarrow> snapshot_item list \<Rightarrow> bookmark list \<Rightarrow> bookmark list" where
  "upsert_items fresh a n [] bs = bs"
| "upsert_items fresh a n (i # is) bs =
     upsert_items fresh a (Suc n) is (upsert bm_key active_merge (bookmark_of_item (fresh n) a i) bs)"

definition fresh_ids :: "(nat \<Rightarrow> uuid) \<Rightarrow> nat \<Rightarrow> uuid set \<Rightarrow> bool" where
  "fresh_ids fresh n used \<longleftrightarrow>
     distinct (map fresh [0..<n]) \<and> list_all (\<lambda>i. i \<notin> used) (map fresh [0..<n])"

definition upsert_active_bookmarks :: "uuid \<Rightarrow> uuid \<Rightarrow> (snapshot_error, unit) dbio" where
  "upsert_active_bookmarks a snap =
     sql SnapQuery (\<lambda>now fresh d.
       let items = snapshot_items snap d
       in if fresh_ids fresh (length items) (bm_id ` set (bookmarks d))
          then Some ((), d\<lparr>bookmarks := upsert_items fresh a 0 items (bookmarks d)\<rparr>)
          else None)"

definition absent_bookmark :: "uuid \<Rightarrow> uuid \<Rightarrow> archive \<Rightarrow> bookmark \<Rightarrow> bool" where
  "absent_bookmark a snap d b \<longleftrightarrow>
     bm_active a b \<and> bm_post_id b \<notin> item_post_id ` set (snapshot_items snap d)"

definition deactivate_absent ::
  "uuid \<Rightarrow> uuid \<Rightarrow> time \<Rightarrow> (snapshot_error, (uuid \<times> uuid option) list) dbio" where
  "deactivate_absent a snap completed_at =
     sql SnapQuery (\<lambda>now fresh d.
       Some (map (\<lambda>b. (bm_id b, bm_last_incremental_run_id b))
               (filter (absent_bookmark a snap d) (bookmarks d)),
         d\<lparr>bookmarks := update_where (absent_bookmark a snap d)
             (\<lambda>b. b\<lparr>bm_observed_removed_at := Some completed_at,
                    bm_observed_removed_snapshot_id := Some snap\<rparr>) (bookmarks d)\<rparr>))"

definition record_repair :: "uuid \<Rightarrow> uuid \<times> uuid option \<Rightarrow> (snapshot_error, unit) dbio" where
  "record_repair snap removed =
     (if snd removed = None then ret ()
      else exec SnapQuery (\<lambda>d. d\<lparr>bookmark_reconciliation_repairs :=
        insert_ignore rep_key \<lparr>rep_snapshot_id = snap, rep_bookmark_id = fst removed\<rparr>
          (bookmark_reconciliation_repairs d)\<rparr>))"

definition record_absent_bookmarks :: "uuid \<Rightarrow> uuid \<Rightarrow> time \<Rightarrow> (snapshot_error, int) dbio" where
  "record_absent_bookmarks a snap completed_at =
     bind_io (deactivate_absent a snap completed_at) (\<lambda>removed.
       then_io (for_each (record_repair snap) removed) (ret (int (length removed))))"

definition i32_or_overflow :: "int \<Rightarrow> (snapshot_error, int) dbio" where
  "i32_or_overflow n = (if n \<le> i32_max then ret n else throw StatisticsOverflow)"

definition reconcile_bookmarks ::
  "uuid \<Rightarrow> snapshot_run \<Rightarrow> time \<Rightarrow> (snapshot_error, reconciliation_statistics) dbio" where
  "reconcile_bookmarks a run completed_at =
     bind_io (query SnapQuery (added_count a (sr_snapshot_id run))) (\<lambda>added.
     bind_io (query SnapQuery (retained_count a (sr_snapshot_id run))) (\<lambda>retained.
     then_io (upsert_active_bookmarks a (sr_snapshot_id run))
     (bind_io (record_absent_bookmarks a (sr_snapshot_id run) completed_at) (\<lambda>removed.
      bind_io (i32_or_overflow added) (\<lambda>x.
      bind_io (i32_or_overflow retained) (\<lambda>y.
      bind_io (i32_or_overflow removed) (\<lambda>z.
      ret \<lparr>st_added = x, st_retained = y, st_removed = z\<rparr>)))))))"

definition operation_present :: "uuid \<Rightarrow> archive \<Rightarrow> write_operation \<Rightarrow> bool" where
  "operation_present snap d op \<longleftrightarrow>
     list_ex (\<lambda>i. list_ex (\<lambda>p. pst_id p = item_post_id i
                            \<and> pst_provider_id p = wop_provider_post_id op) (posts d))
       (snapshot_items snap d)"

definition uncertain_operations ::
  "uuid \<Rightarrow> uuid \<Rightarrow> archive \<Rightarrow> (uuid \<times> write_action \<times> bool) list" where
  "uncertain_operations a snap d =
     map (\<lambda>op. (wop_id op, wop_action op, operation_present snap d op))
       (filter (\<lambda>op. wop_account_id op = a \<and> wop_status op = WUncertain)
          (bookmark_write_operations d))"

definition reconciled_status :: "write_action \<Rightarrow> bool \<Rightarrow> write_status" where
  "reconciled_status action present =
     (if action = WAdd \<and> present \<or> action = WRemove \<and> \<not> present
      then WReconciledSucceeded else WReconciledNotCurrent)"

fun write_status_name :: "write_status \<Rightarrow> string" where
  "write_status_name WReceived = ''received''"
| "write_status_name WRefused = ''refused''"
| "write_status_name WDryRun = ''dry_run''"
| "write_status_name WProviderInFlight = ''provider_in_flight''"
| "write_status_name WSucceeded = ''succeeded''"
| "write_status_name WFailed = ''failed''"
| "write_status_name WUncertain = ''uncertain''"
| "write_status_name WProjectionPending = ''projection_pending''"
| "write_status_name WReconciledSucceeded = ''reconciled_succeeded''"
| "write_status_name WReconciledNotCurrent = ''reconciled_not_current''"

definition audit_of_operation ::
  "contracts \<Rightarrow> uuid \<Rightarrow> write_status \<Rightarrow> time \<Rightarrow> write_operation \<Rightarrow> write_consent \<Rightarrow> write_audit_event" where
  "audit_of_operation C snap status completed_at op con =
     \<lparr>aud_account_id = wop_account_id op, aud_operation_id = Some (wop_id op),
      aud_consent_id = wop_consent_id op, aud_internal_user_id = wop_internal_user_id op,
      aud_action = wop_action op, aud_provider_post_id = wop_provider_post_id op,
      aud_surface = con_surface con, aud_event_class = ''snapshot_reconciled'',
      aud_occurred_at = completed_at, aud_correlation_id = Some (uuid_text C (wop_id op)),
      aud_idempotency_digest = Some (wop_idempotency_digest op),
      aud_provider_request_id = wop_provider_request_id op,
      aud_details = JObj [(''result'', JStr (write_status_name status)),
                          (''snapshot_id'', JStr (uuid_text C snap))]\<rparr>"

definition settle_operation :: "time \<Rightarrow> write_action \<Rightarrow> bool \<Rightarrow> write_operation \<Rightarrow> write_operation" where
  "settle_operation completed_at action present op =
     op\<lparr>wop_status := reconciled_status action present,
        wop_outcome := Some (if present then ''complete_snapshot_present''
                             else ''complete_snapshot_absent''),
        wop_projection_observed_at := Some completed_at\<rparr>"

definition reconcile_operation ::
  "contracts \<Rightarrow> uuid \<Rightarrow> time \<Rightarrow> uuid \<times> write_action \<times> bool \<Rightarrow> (snapshot_error, unit) dbio" where
  "reconcile_operation C snap completed_at row =
     (case row of (i, action, present) \<Rightarrow>
       then_io
         (exec SnapQuery (\<lambda>d. d\<lparr>bookmark_write_operations :=
            update_where (\<lambda>op. wop_id op = i \<and> wop_status op = WUncertain)
              (settle_operation completed_at action present) (bookmark_write_operations d)\<rparr>))
         (exec SnapQuery (\<lambda>d. d\<lparr>bookmark_write_audit_events := bookmark_write_audit_events d @
            concat (map (\<lambda>op. map (audit_of_operation C snap (reconciled_status action present)
                                      completed_at op)
                (filter (\<lambda>con. wop_consent_id op = Some (con_id con)) (bookmark_write_consents d)))
              (filter (\<lambda>op. wop_id op = i) (bookmark_write_operations d)))\<rparr>)))"

definition reconcile_uncertain_bookmark_writes ::
  "contracts \<Rightarrow> uuid \<Rightarrow> snapshot_run \<Rightarrow> time \<Rightarrow> (snapshot_error, unit) dbio" where
  "reconcile_uncertain_bookmark_writes C a run completed_at =
     bind_io (query SnapQuery (uncertain_operations a (sr_snapshot_id run)))
       (for_each (reconcile_operation C (sr_snapshot_id run) completed_at))"

definition complete_run_row ::
  "time \<Rightarrow> reconciliation_statistics \<Rightarrow> sync_run \<Rightarrow> sync_run" where
  "complete_run_row completed_at st r =
     r\<lparr>run_state := RunCompleted, run_finished_at := Some completed_at, run_added_count := st_added st,
       run_retained_count := st_retained st, run_removed_count := st_removed st,
       run_checkpoint := None\<rparr>"

definition pages_of_run :: "uuid \<Rightarrow> sync_run list \<Rightarrow> int" where
  "pages_of_run run rs =
     (case select_one (\<lambda>r. run_id r = run) rs of None \<Rightarrow> 0 | Some r \<Rightarrow> run_pages_fetched r)"

definition record_completion ::
  "snapshot_run \<Rightarrow> time \<Rightarrow> reconciliation_statistics \<Rightarrow> (snapshot_error, unit) dbio" where
  "record_completion run completed_at st =
     then_io
       (exec SnapQuery (\<lambda>d. d\<lparr>sync_runs := update_where (\<lambda>r. run_id r = sr_id run)
          (complete_run_row completed_at st) (sync_runs d)\<rparr>))
       (exec SnapQuery (\<lambda>d. d\<lparr>snapshots := update_where (\<lambda>s. snap_id s = sr_snapshot_id run)
          (\<lambda>s. s\<lparr>snap_complete := True, snap_completed_at := Some completed_at,
                 snap_page_count := pages_of_run (sr_id run) (sync_runs d)\<rparr>) (snapshots d)\<rparr>))"

definition clear_full_snapshot_flag :: "uuid \<Rightarrow> time \<Rightarrow> (snapshot_error, unit) dbio" where
  "clear_full_snapshot_flag a completed_at =
     exec SnapQuery (\<lambda>d. d\<lparr>bookmark_incremental_state :=
       update_where (\<lambda>s. inc_account_id s = a)
         (\<lambda>s. s\<lparr>inc_requires_full_snapshot := False, inc_last_outcome := Idle,
                inc_updated_at := completed_at\<rparr>) (bookmark_incremental_state d)\<rparr>)"

definition authority_merge :: "authority \<Rightarrow> authority \<Rightarrow> authority" where
  "authority_merge new old = old\<lparr>auth_snapshot_id := auth_snapshot_id new,
     auth_updated_at := auth_updated_at new\<rparr>"

definition replace_authority :: "uuid \<Rightarrow> uuid \<Rightarrow> time \<Rightarrow> (snapshot_error, unit) dbio" where
  "replace_authority a snap completed_at =
     exec SnapQuery (\<lambda>d. d\<lparr>bookmark_snapshot_authority :=
       upsert auth_account_id authority_merge
         \<lparr>auth_account_id = a, auth_snapshot_id = snap, auth_updated_at = completed_at\<rparr>
         (bookmark_snapshot_authority d)\<rparr>)"

definition complete_run :: "contracts \<Rightarrow> uuid \<Rightarrow> snapshot_run \<Rightarrow> (snapshot_error, unit) dbio" where
  "complete_run C a run =
     bind_io read_clock (\<lambda>completed_at.
       transaction SnapQuery
        (then_io (lock_finalization a run)
        (bind_io (reconcile_bookmarks a run completed_at) (\<lambda>st.
         then_io (reconcile_uncertain_bookmark_writes C a run completed_at)
        (then_io (record_completion run completed_at st)
        (then_io (clear_full_snapshot_flag a completed_at)
        (replace_authority a (sr_snapshot_id run) completed_at)))))))"

section \<open>The page loop\<close>

record snapshot_env =
  se_contracts :: contracts
  se_parse :: "string \<Rightarrow> time option"
  se_chrono :: chrono
  se_gate :: budget_gate
  se_source :: page_source

definition stop_incomplete :: "snapshot_run \<Rightarrow> (snapshot_error, snapshot_outcome option) dbio" where
  "stop_incomplete run = then_io (mark_failed (sr_id run)) (ret (Some (Incomplete (sr_id run))))"

fun snapshot_loop ::
  "nat \<Rightarrow> snapshot_env \<Rightarrow> uuid \<Rightarrow> snapshot_run \<Rightarrow> (snapshot_error, snapshot_outcome option) dbio" where
  "snapshot_loop 0 E a run = ret None"
| "snapshot_loop (Suc n) E a run =
     bind_io (attempt (reserve (se_chrono E) (se_gate E) a 1)) (\<lambda>r.
       case r of
         Inl err \<Rightarrow>
           (case err of
              Exhausted _ \<Rightarrow> stop_incomplete run
            | _ \<Rightarrow> then_io (mark_failed (sr_id run)) (throw (SnapBudget err)))
       | Inr _ \<Rightarrow>
           bind_io (fetch_page (se_source E) (sr_checkpoint run)) (\<lambda>fetched.
             case fetched of
               None \<Rightarrow> stop_incomplete run
             | Some page \<Rightarrow>
                 bind_io read_clock (\<lambda>observed.
                 bind_io (attempt (stage_page (se_contracts E) (se_parse E) run page observed)) (\<lambda>staged.
                   case staged of
                     Inl e \<Rightarrow> then_io (mark_failed (sr_id run)) (throw e)
                   | Inr _ \<Rightarrow>
                       (let run' = run\<lparr>sr_checkpoint := page_next_token page\<rparr> in
                        if sr_checkpoint run' = None
                        then then_io (complete_run (se_contracts E) a run')
                               (ret (Some (Completed (sr_id run) (sr_snapshot_id run))))
                        else snapshot_loop n E a run')))))"

definition run_snapshot ::
  "nat \<Rightarrow> snapshot_env \<Rightarrow> uuid \<Rightarrow> uuid option \<Rightarrow> (snapshot_error, snapshot_outcome option) dbio" where
  "run_snapshot fuel E a resume =
     bind_io (load_or_create_run a resume) (snapshot_loop fuel E a)"

end
