(* ===== verification/Snapshot_Correct.thy ===== *)
theory Snapshot_Correct
  imports Snapshot
begin

text \<open>
  Correctness of the full bookmark snapshot: which attempts may touch absence authority, what a
  completion does to the account's saved posts, its statistics and its uncertain writes, resuming from
  a checkpoint, and termination. The abstraction of the bookmark table is the set of saved posts of an
  account.
\<close>

section \<open>Nothing short of completion touches authority\<close>

text \<open>
  What absence authority consists of: the bookmarks, the repairs, the outcome of uncertain writes
  and their audit trail, the incremental state, the current snapshot of an account and which
  snapshots are complete.
\<close>

definition authority_frame :: "archive \<Rightarrow> archive \<Rightarrow> bool" where
  "authority_frame d d' \<longleftrightarrow>
     bookmarks d' = bookmarks d
     \<and> bookmark_snapshot_authority d' = bookmark_snapshot_authority d
     \<and> bookmark_incremental_state d' = bookmark_incremental_state d
     \<and> bookmark_reconciliation_repairs d' = bookmark_reconciliation_repairs d
     \<and> bookmark_write_operations d' = bookmark_write_operations d
     \<and> bookmark_write_audit_events d' = bookmark_write_audit_events d
     \<and> filter snap_complete (snapshots d') = filter snap_complete (snapshots d)"

interpretation authority: frame authority_frame
  by unfold_locales (auto simp: authority_frame_def)

lemma content_frame_authority: "content_frame d d' \<Longrightarrow> authority_frame d d'"
  by (cases d; cases d') (simp add: content_frame_def authority_frame_def)

lemma publish_frame_authority: "publish_frame d d' \<Longrightarrow> authority_frame d d'"
  by (cases d; cases d') (simp add: publish_frame_def authority_frame_def)

lemmas persist_authority = persist_frame [THEN within_mono, OF content_frame_authority]

lemmas publish_authority =
  publish_bookmark_sources_frame [THEN within_mono, OF publish_frame_authority]

lemma reserve_windows_only:
  assumes "reserve c g a cost w = (r, w')"
  shows "\<exists>t. db w' = (db w)\<lparr>api_budget_windows := t\<rparr>"
  using reserve_cases [OF assms]
proof (elim disjE exE conjE)
  assume "db w' = db w"
  then show ?thesis by (intro exI [of _ "api_budget_windows (db w)"]) simp
qed (auto simp: charge_def window_stmts io_run split: if_splits)

lemma reserve_authority: "within authority_frame (reserve c g a cost)"
  unfolding within_def
proof
  fix w
  obtain r w' where run: "reserve c g a cost w = (r, w')" by fastforce
  from reserve_windows_only [OF this] show "authority_frame (db w) (db (snd (reserve c g a cost w)))"
    by (auto simp: run authority_frame_def)
qed

lemma set_run_authority: "authority_frame d (set_run run st t d)"
  by (simp add: set_run_def authority_frame_def)

lemma run_statements_authority:
  "within authority_frame (insert_run a kind)"
  "within authority_frame (insert_snapshot run)"
  "within authority_frame (exec SnapQuery (set_run run st t))"
  "within authority_frame (fetch_page src tok)"
  "within authority_frame (stage_item snap observed post)"
  "within authority_frame (record_page run tok n)"
proof -
  show "within authority_frame (insert_run a kind)"
    unfolding insert_run_def
    by (rule authority.within_sql) (auto simp: authority_frame_def split: if_splits)
  show "within authority_frame (insert_snapshot run)"
    unfolding insert_snapshot_def
    by (rule authority.within_sql) (auto simp: authority_frame_def insert_unique_Some)
  show "within authority_frame (exec SnapQuery (set_run run st t))"
    by (rule authority.within_exec) (rule set_run_authority)
  show "within authority_frame (fetch_page src tok)"
    by (simp add: within_def fetch_page_def authority.frame_refl)
  show "within authority_frame (stage_item snap observed post)"
    unfolding stage_item_def by (rule authority.within_exec) (simp add: authority_frame_def)
  show "within authority_frame (record_page run tok n)"
    unfolding record_page_def
    by (rule authority.within_sql) (auto simp: authority_frame_def split: if_splits)
qed

lemma load_or_create_run_authority: "within authority_frame (load_or_create_run a resume)"
  unfolding load_or_create_run_def create_run_def resume_run_def
  by (intro authority.within_intros run_statements_authority)

lemma mark_failed_authority: "within authority_frame (mark_failed run)"
  unfolding mark_failed_def by (intro authority.within_intros run_statements_authority)

lemma stage_page_authority: "within authority_frame (stage_page C parse run page t)"
  unfolding stage_page_def persist_batch_def
  by (intro authority.within_intros persist_authority publish_authority run_statements_authority)

lemma complete_run_failed: "complete_run C a run w = (Inl e, w') \<Longrightarrow> db w' = db w"
  by (auto simp: complete_run_def bind_io_def read_clock_def dest: transaction_Inl_db
      split: prod.splits)

lemma complete_run_snap_only:
  "complete_run C a (run\<lparr>sr_checkpoint := tok\<rparr>) = complete_run C a run"
proof -
  have "run_current a (run\<lparr>sr_checkpoint := tok\<rparr>) = run_current a run"
    by (simp add: fun_eq_iff run_current_def split: option.split)
  then show ?thesis
    by (simp add: complete_run_def lock_finalization_def reconcile_bookmarks_def
        reconcile_uncertain_bookmark_writes_def record_completion_def)
qed

text \<open>
  One unfolding of the loop, by outcome: it stops with the archive's authority as it was, or it
  completes from a world with the same authority, or it goes on from such a world.
\<close>

lemma snapshot_loop_step:
  assumes "snapshot_loop (Suc n) E a run w = (r, w')"
  obtains (stop) "authority_frame (db w) (db w')" "\<And>i s. r \<noteq> Inr (Some (Completed i s))"
  | (finish) w1 where "authority_frame (db w) (db w1)"
      "complete_run (se_contracts E) a run w1 = (Inr (), w')"
      "r = Inr (Some (Completed (sr_id run) (sr_snapshot_id run)))"
  | (more) w1 tok where "authority_frame (db w) (db w1)"
      "snapshot_loop n E a (run\<lparr>sr_checkpoint := tok\<rparr>) w1 = (r, w')"
proof -
  have failed: "authority_frame (db v) (db v')"
    if "then_io (mark_failed (sr_id run)) m v = (q, v')" "within authority_frame m" for m v q v'
    by (rule withinD [OF authority.within_then that(1)]) (rule mark_failed_authority, rule that(2))
  have stopped: "authority_frame (db v) (db v') \<and> (\<forall>i s. q \<noteq> Inr (Some (Completed i s)))"
    if "stop_incomplete run v = (q, v')" for v q v'
    using that failed [OF that [unfolded stop_incomplete_def] authority.within_ret]
    by (auto simp: stop_incomplete_def io_run)
  have thrown: "authority_frame (db v) (db v') \<and> (\<forall>i s. q \<noteq> Inr (Some (Completed i s)))"
    if "then_io (mark_failed (sr_id run)) (throw e) v = (q, v')" for v q v' e
    using that failed [OF that authority.within_throw] by (auto simp: io_run)
  obtain r1 w1 where r1: "reserve (se_chrono E) (se_gate E) a 1 w = (r1, w1)" by fastforce
  have f1: "authority_frame (db w) (db w1)" by (rule withinD [OF reserve_authority r1])
  show ?thesis
  proof (cases r1)
    case (Inl err)
    with assms r1 have "stop_incomplete run w1 = (r, w')
        \<or> then_io (mark_failed (sr_id run)) (throw (SnapBudget err)) w1 = (r, w')"
      by (auto simp: bind_attempt split: budget_error.splits)
    then have "authority_frame (db w1) (db w') \<and> (\<forall>i s. r \<noteq> Inr (Some (Completed i s)))"
      using stopped thrown by blast
    then show ?thesis using f1 authority.frame_trans stop by blast
  next
    case (Inr x)
    define w2 where "w2 = advance w1"
    show ?thesis
    proof (cases "se_source E (sr_checkpoint run) (tick w1)")
      case None
      with assms r1 Inr have "stop_incomplete run w2 = (r, w')"
        by (simp add: bind_attempt fetch_page_def bind_io_def [of "fetch_page _ _"] w2_def)
      from stopped [OF this] show ?thesis
        using f1 stop by (auto simp: w2_def intro: authority.frame_trans)
    next
      case (Some page)
      define w3 where "w3 = advance w2"
      obtain r4 w4 where r4: "stage_page (se_contracts E) (se_parse E) run page
          (clock (sched w2) (tick w2)) w3 = (r4, w4)" by fastforce
      have f4: "authority_frame (db w) (db w4)"
        using withinD [OF stage_page_authority r4] f1 authority.frame_trans by (simp add: w3_def w2_def)
      let ?tok = "page_next_token page"
      from assms r1 Inr Some r4 have body: "(case r4 of
            Inl e \<Rightarrow> then_io (mark_failed (sr_id run)) (throw e)
          | Inr _ \<Rightarrow> (if ?tok = None then then_io (complete_run (se_contracts E) a run)
                        (ret (Some (Completed (sr_id run) (sr_snapshot_id run))))
                      else snapshot_loop n E a (run\<lparr>sr_checkpoint := ?tok\<rparr>))) w4 = (r, w')"
        by (auto simp: bind_attempt bind_read_clock fetch_page_def bind_io_def [of "fetch_page _ _"]
            complete_run_snap_only w2_def w3_def Let_def split: sum.splits if_splits)
      obtain r5 w5 where r5: "complete_run (se_contracts E) a run w4 = (r5, w5)" by fastforce
      show ?thesis
      proof (cases "(\<exists>e. r4 = Inl e) \<or> ?tok \<noteq> None")
        case True
        with body have "(\<exists>e. then_io (mark_failed (sr_id run)) (throw e) w4 = (r, w'))
            \<or> snapshot_loop n E a (run\<lparr>sr_checkpoint := ?tok\<rparr>) w4 = (r, w')"
          by (auto split: sum.splits if_splits)
        then show ?thesis
          using f4 thrown stop more authority.frame_trans by meson
      next
        case False
        with body r5 f4 complete_run_failed [of _ _ _ w4 _ w5] stop finish show ?thesis
          by (cases r5) (auto simp: then_io_def bind_io_def ret_def split: sum.splits)
      qed
    qed
  qed
qed

lemma snapshot_loop_cases:
  assumes "snapshot_loop n E a run w = (r, w')"
  shows "authority_frame (db w) (db w') \<and> (\<forall>i s. r \<noteq> Inr (Some (Completed i s)))
    \<or> r = Inr (Some (Completed (sr_id run) (sr_snapshot_id run)))
      \<and> (\<exists>w1. authority_frame (db w) (db w1) \<and> complete_run (se_contracts E) a run w1 = (Inr (), w'))"
  using assms
proof (induction n arbitrary: run w)
  case 0
  then show ?case by (auto simp: ret_def authority.frame_refl)
next
  case (Suc n)
  from Suc.prems show ?case
  proof (cases rule: snapshot_loop_step)
    case (more w1 tok)
    from Suc.IH [OF more(2)] more(1) show ?thesis
      by (auto simp: complete_run_snap_only intro: authority.frame_trans)
  qed auto
qed

section \<open>Bookmarks as a set of saved posts\<close>

text \<open>
  The abstraction of the bookmark table: the posts an account currently has saved. Completing a
  snapshot is an assignment to that set.
\<close>

definition saved_posts :: "uuid \<Rightarrow> bookmark list \<Rightarrow> uuid set" where
  "saved_posts a bs = bm_post_id ` {b \<in> set bs. bm_active a b}"

definition item_posts :: "uuid \<Rightarrow> archive \<Rightarrow> uuid set" where
  "item_posts snap d = item_post_id ` set (snapshot_items snap d)"

interpretation item_upsert: keyed_upsert item_key item_merge
  by unfold_locales (simp add: item_merge_def item_key_def)

interpretation authority_upsert: keyed_upsert auth_account_id authority_merge
  by unfold_locales (simp add: authority_merge_def)

lemma saved_posts_iff:
  "p \<in> saved_posts a bs \<longleftrightarrow> (\<exists>b \<in> set bs. bm_key b = (a, p) \<and> bm_observed_removed_at b = None)"
  by (auto simp: saved_posts_def bm_active_def bm_key_def)

text \<open>
  The contract of a statement that saves bookmarks: on a key conflict the stored row keeps its key, its
  identity and its first observation, and is active afterwards. Both the completion of a snapshot and the
  observation of an incremental page write bookmarks through such a statement.
\<close>

locale saving_upsert = keyed_upsert bm_key merge
  for merge :: "bookmark \<Rightarrow> bookmark \<Rightarrow> bookmark" +
  assumes merge_active: "bm_observed_removed_at (merge new old) = None"
    and merge_id: "bm_id (merge new old) = bm_id old"
    and merge_first: "bm_first_observed_saved_at (merge new old) = bm_first_observed_saved_at old"
begin

lemma saved_posts_upsert:
  assumes "bm_active a new"
  shows "saved_posts a (upsert bm_key merge new bs) = insert (bm_post_id new) (saved_posts a bs)"
proof -
  have new: "bm_key new = (a, bm_post_id new)" "bm_observed_removed_at new = None"
    using assms by (simp_all add: bm_active_def bm_key_def)
  have "bm_post_id new \<in> saved_posts a (upsert bm_key merge new bs)"
  proof (cases "bm_key new \<in> bm_key ` set bs")
    case True
    then obtain old where "old \<in> set bs" "bm_key old = bm_key new" by auto
    with upsert_hit key_merge merge_active new show ?thesis unfolding saved_posts_iff by metis
  qed (use new in \<open>auto simp: saved_posts_iff upsert_miss\<close>)
  moreover have "p \<in> saved_posts a (upsert bm_key merge new bs) \<longleftrightarrow> p \<in> saved_posts a bs"
    if "p \<noteq> bm_post_id new" for p
    unfolding saved_posts_iff using that new upsert_other by (metis Pair_inject)
  ultimately show ?thesis by (intro set_eqI) (metis insert_iff)
qed

lemma account_rows_upsert:
  assumes "bm_account_id new \<noteq> a'"
  shows "filter (\<lambda>b. bm_account_id b = a') (upsert bm_key merge new bs)
    = filter (\<lambda>b. bm_account_id b = a') bs"
proof -
  have "bm_account_id (merge new b) = bm_account_id b" for b
    using key_merge [of new b] by (simp add: bm_key_def)
  with assms have "filter (\<lambda>b. bm_account_id b = a')
      (map (\<lambda>r. if bm_key r = bm_key new then merge new r else r) xs) = filter (\<lambda>b. bm_account_id b = a') xs" for xs
    by (induction xs) (auto simp: bm_key_def)
  with assms show ?thesis by (simp add: upsert_def)
qed

lemma upsert_first_seen:
  assumes "b \<in> set bs"
  shows "\<exists>b' \<in> set (upsert bm_key merge new bs). bm_id b' = bm_id b \<and> bm_key b' = bm_key b
    \<and> bm_first_observed_saved_at b' = bm_first_observed_saved_at b"
proof (cases "bm_key b = bm_key new")
  case True
  then have "merge new b \<in> set (upsert bm_key merge new bs)"
    using assms by (rule upsert_hit [rotated])
  then show ?thesis by (rule rev_bexI) (simp add: merge_id merge_first key_merge)
qed (use assms upsert_other in blast)

end

interpretation active_upsert: saving_upsert active_merge
  by unfold_locales (simp_all add: active_merge_def bm_key_def)

lemma bookmark_of_item_simps [simp]:
  "bm_key (bookmark_of_item i a item) = (a, item_post_id item)"
  "bm_account_id (bookmark_of_item i a item) = a"
  "bm_post_id (bookmark_of_item i a item) = item_post_id item"
  "bm_active a' (bookmark_of_item i a item) \<longleftrightarrow> a' = a"
  by (auto simp: bookmark_of_item_def bm_key_def bm_active_def)

lemma upsert_items_saved:
  "saved_posts a (upsert_items fresh a n items bs) = saved_posts a bs \<union> item_post_id ` set items"
  by (induction items arbitrary: n bs) (simp_all add: active_upsert.saved_posts_upsert)

lemma upsert_items_other_account:
  "a' \<noteq> a \<Longrightarrow> filter (\<lambda>b. bm_account_id b = a') (upsert_items fresh a n items bs)
     = filter (\<lambda>b. bm_account_id b = a') bs"
  by (induction items arbitrary: n bs) (simp_all add: active_upsert.account_rows_upsert)

lemma upsert_items_keyed: "keyed_by bm_key bs \<Longrightarrow> keyed_by bm_key (upsert_items fresh a n items bs)"
  by (induction items arbitrary: n bs) (simp_all add: active_upsert.upsert_keyed)

lemma upsert_items_first_seen:
  "b \<in> set bs \<Longrightarrow> \<exists>b' \<in> set (upsert_items fresh a n items bs). bm_id b' = bm_id b \<and> bm_key b' = bm_key b
    \<and> bm_first_observed_saved_at b' = bm_first_observed_saved_at b"
proof (induction items arbitrary: n bs b)
  case (Cons i items)
  obtain b1 where "b1 \<in> set (upsert bm_key active_merge (bookmark_of_item (fresh n) a i) bs)"
    "bm_id b1 = bm_id b" "bm_key b1 = bm_key b"
    "bm_first_observed_saved_at b1 = bm_first_observed_saved_at b"
    using active_upsert.upsert_first_seen [OF Cons.prems] by blast
  with Cons.IH [of b1] show ?case by fastforce
qed auto

lemma item_posts_bookmarks [simp]:
  "snapshot_items snap (d\<lparr>bookmarks := bs\<rparr>) = snapshot_items snap d"
  "item_posts snap (d\<lparr>bookmarks := bs\<rparr>) = item_posts snap d"
  by (simp_all add: snapshot_items_def item_posts_def)

lemma absent_bookmark_iff:
  "absent_bookmark a snap d b \<longleftrightarrow> bm_active a b \<and> bm_post_id b \<notin> item_posts snap d"
  by (simp add: absent_bookmark_def item_posts_def)

lemma update_where_saved:
  assumes "\<And>b. bm_active a b \<Longrightarrow> p b \<longleftrightarrow> bm_post_id b \<notin> P"
    and "\<And>b. \<not> bm_active a (f b)"
  shows "saved_posts a (update_where p f bs) = saved_posts a bs \<inter> P"
  using assms by (fastforce simp: saved_posts_def update_where_def)

section \<open>The effect of reconciliation\<close>

lemma record_repairs_Inr:
  assumes "for_each (record_repair snap) xs w = (Inr (), w')"
  shows "\<exists>rs. db w' = (db w)\<lparr>bookmark_reconciliation_repairs := rs\<rparr>
    \<and> rep_key ` set rs = rep_key ` set (bookmark_reconciliation_repairs (db w))
        \<union> {(snap, i) | i r. (i, Some r) \<in> set xs}"
  using assms
proof (induction xs arbitrary: w)
  case Nil
  then show ?case by (auto simp: io_run intro: exI [of _ "bookmark_reconciliation_repairs (db w)"])
next
  case (Cons x xs)
  from Cons.prems obtain w1 where 1: "record_repair snap x w = (Inr (), w1)"
    and 2: "for_each (record_repair snap) xs w1 = (Inr (), w')" by (auto simp: io_run)
  obtain rs1 where rs1: "db w1 = (db w)\<lparr>bookmark_reconciliation_repairs := rs1\<rparr>"
    "rep_key ` set rs1 = rep_key ` set (bookmark_reconciliation_repairs (db w))
        \<union> {(snap, i) | i r. (i, Some r) = x}"
  proof (cases "snd x")
    case None
    with 1 have "db w1 = (db w)\<lparr>bookmark_reconciliation_repairs := bookmark_reconciliation_repairs (db w)\<rparr>"
      by (simp add: record_repair_def io_run)
    with None that show ?thesis by force
  next
    case (Some r)
    with 1 have eq: "db w1 = (db w)\<lparr>bookmark_reconciliation_repairs := insert_ignore rep_key
        \<lparr>rep_snapshot_id = snap, rep_bookmark_id = fst x\<rparr> (bookmark_reconciliation_repairs (db w))\<rparr>"
      by (simp add: record_repair_def io_run)
    have "{(snap, i) | i r. (i, Some r) = x} = {(snap, fst x)}"
      using Some by (cases x) auto
    then show ?thesis
      by (intro that [OF eq]) (simp add: insert_ignore_keys rep_key_def [of "\<lparr>rep_snapshot_id = _, rep_bookmark_id = _\<rparr>"])
  qed
  from Cons.IH [OF 2] obtain rs where
      "db w' = (db w1)\<lparr>bookmark_reconciliation_repairs := rs\<rparr>"
      "rep_key ` set rs = rep_key ` set (bookmark_reconciliation_repairs (db w1))
        \<union> {(snap, i) | i r. (i, Some r) \<in> set xs}"
    by blast
  moreover have "{(snap, i) | i r. (i, Some r) \<in> set (x # xs)}
      = {(snap, i) | i r. (i, Some r) = x} \<union> {(snap, i) | i r. (i, Some r) \<in> set xs}"
    by auto
  ultimately show ?case
    using rs1 by (intro exI [of _ rs]) (simp add: Un_assoc)
qed

lemma filter_absent_upsert:
  assumes "bm_key new = (a, p)" "p \<in> P"
  shows "filter (\<lambda>b. bm_active a b \<and> bm_post_id b \<notin> P) (upsert bm_key active_merge new bs)
    = filter (\<lambda>b. bm_active a b \<and> bm_post_id b \<notin> P) bs"
proof -
  have "filter (\<lambda>b. bm_active a b \<and> bm_post_id b \<notin> P)
      (map (\<lambda>r. if bm_key r = bm_key new then active_merge new r else r) xs)
    = filter (\<lambda>b. bm_active a b \<and> bm_post_id b \<notin> P) xs" for xs
    using assms by (induction xs) (auto simp: bm_key_def active_merge_def)
  then show ?thesis using assms by (auto simp: upsert_def bm_key_def)
qed

lemma filter_absent_upsert_items:
  "item_post_id ` set items \<subseteq> P \<Longrightarrow>
     filter (\<lambda>b. bm_active a b \<and> bm_post_id b \<notin> P) (upsert_items fresh a n items bs)
       = filter (\<lambda>b. bm_active a b \<and> bm_post_id b \<notin> P) bs"
  by (induction items arbitrary: n bs) (simp_all add: filter_absent_upsert)

definition removed_bookmarks :: "uuid \<Rightarrow> uuid \<Rightarrow> archive \<Rightarrow> bookmark list" where
  "removed_bookmarks a snap d =
     filter (\<lambda>b. bm_active a b \<and> bm_post_id b \<notin> item_posts snap d) (bookmarks d)"

definition remove_bookmark :: "uuid \<Rightarrow> time \<Rightarrow> bookmark \<Rightarrow> bookmark" where
  "remove_bookmark snap t b =
     b\<lparr>bm_observed_removed_at := Some t, bm_observed_removed_snapshot_id := Some snap\<rparr>"

lemma i32_or_overflow_Inr [io_run]:
  "i32_or_overflow n w = (Inr m, w') \<longleftrightarrow> n \<le> i32_max \<and> m = n \<and> w' = w"
  by (auto simp: i32_or_overflow_def io_run)

lemma upsert_active_bookmarks_Inr:
  "upsert_active_bookmarks a snap w = (Inr x, w') \<Longrightarrow>
     \<exists>fresh. db w' = (db w)\<lparr>bookmarks := upsert_items fresh a 0 (snapshot_items snap (db w)) (bookmarks (db w))\<rparr>"
  by (auto simp: upsert_active_bookmarks_def io_run Let_def split: if_splits)

lemma deactivate_absent_Inr:
  "deactivate_absent a snap t w = (Inr xs, w') \<Longrightarrow>
     xs = map (\<lambda>b. (bm_id b, bm_last_incremental_run_id b))
            (filter (absent_bookmark a snap (db w)) (bookmarks (db w)))
     \<and> db w' = (db w)\<lparr>bookmarks := update_where (absent_bookmark a snap (db w))
            (remove_bookmark snap t) (bookmarks (db w))\<rparr>"
  by (auto simp: deactivate_absent_def io_run remove_bookmark_def [abs_def])

lemma reconcile_bookmarks_Inr:
  assumes "reconcile_bookmarks a run t w = (Inr st, w')"
  obtains fresh rs where
    "db w' = (db w)\<lparr>bookmarks := update_where (absent_bookmark a (sr_snapshot_id run) (db w))
         (remove_bookmark (sr_snapshot_id run) t)
         (upsert_items fresh a 0 (snapshot_items (sr_snapshot_id run) (db w)) (bookmarks (db w))),
       bookmark_reconciliation_repairs := rs\<rparr>"
    "rep_key ` set rs = rep_key ` set (bookmark_reconciliation_repairs (db w))
       \<union> {(sr_snapshot_id run, bm_id b) | b. b \<in> set (removed_bookmarks a (sr_snapshot_id run) (db w))
             \<and> bm_last_incremental_run_id b \<noteq> None}"
    "st = \<lparr>st_added = added_count a (sr_snapshot_id run) (db w),
           st_retained = retained_count a (sr_snapshot_id run) (db w),
           st_removed = int (length (removed_bookmarks a (sr_snapshot_id run) (db w)))\<rparr>"
proof -
  let ?snap = "sr_snapshot_id run"
  from assms obtain w0 w1 w2 xs where
      0: "db w0 = db w" "upsert_active_bookmarks a ?snap w0 = (Inr (), w1)"
    and 1: "deactivate_absent a ?snap t w1 = (Inr xs, w2)"
    and w3: "for_each (record_repair ?snap) xs w2 = (Inr (), w')"
    and st: "st = \<lparr>st_added = added_count a ?snap (db w), st_retained = retained_count a ?snap (db w),
        st_removed = int (length xs)\<rparr>"
    unfolding reconcile_bookmarks_def record_absent_bookmarks_def
    by (fastforce simp: io_run intro: that [of "advance (advance w)"])
  from upsert_active_bookmarks_Inr [OF 0(2)] deactivate_absent_Inr [OF 1] obtain fresh where
      w1: "db w1 = (db w)\<lparr>bookmarks := upsert_items fresh a 0 (snapshot_items ?snap (db w)) (bookmarks (db w))\<rparr>"
    and xs: "xs = map (\<lambda>b. (bm_id b, bm_last_incremental_run_id b))
        (filter (absent_bookmark a ?snap (db w1)) (bookmarks (db w1)))"
    and w2: "db w2 = (db w1)\<lparr>bookmarks := update_where (absent_bookmark a ?snap (db w1))
        (remove_bookmark ?snap t) (bookmarks (db w1))\<rparr>"
    using 0(1) by auto
  have abs: "absent_bookmark a ?snap (db w1) = absent_bookmark a ?snap (db w)"
    by (simp add: fun_eq_iff absent_bookmark_iff w1)
  have "filter (absent_bookmark a ?snap (db w)) (bookmarks (db w1)) = removed_bookmarks a ?snap (db w)"
    using filter_absent_upsert_items [of "snapshot_items ?snap (db w)" "item_posts ?snap (db w)"]
    by (simp add: w1 removed_bookmarks_def item_posts_def absent_bookmark_iff [abs_def])
  then have xs: "xs = map (\<lambda>b. (bm_id b, bm_last_incremental_run_id b)) (removed_bookmarks a ?snap (db w))"
    using xs abs by simp
  have new: "{(?snap, i) | i r. (i, Some r) \<in> set xs} = {(?snap, bm_id b) | b.
      b \<in> set (removed_bookmarks a ?snap (db w)) \<and> bm_last_incremental_run_id b \<noteq> None}"
    by (auto simp: xs) (metis (mono_tags, lifting) image_eqI)+
  obtain rs where rs: "db w' = (db w2)\<lparr>bookmark_reconciliation_repairs := rs\<rparr>"
      "rep_key ` set rs = rep_key ` set (bookmark_reconciliation_repairs (db w2))
        \<union> {(?snap, i) | i r. (i, Some r) \<in> set xs}"
    using record_repairs_Inr [OF w3] by blast
  have repairs: "bookmark_reconciliation_repairs (db w2) = bookmark_reconciliation_repairs (db w)"
    by (simp add: w2 w1)
  show ?thesis
  proof (rule that)
    show "st = \<lparr>st_added = added_count a ?snap (db w), st_retained = retained_count a ?snap (db w),
        st_removed = int (length (removed_bookmarks a ?snap (db w)))\<rparr>"
      using st by (simp add: xs)
  qed (use rs(1) w2 abs w1 in simp, use rs(2) in \<open>simp only: new repairs\<close>)
qed

section \<open>The reconciliation statistics\<close>

lemma length_distinct_card: "distinct (map f xs) \<Longrightarrow> length xs = card (f ` set xs)"
  by (metis distinct_card length_map set_map)

lemma distinct_map_filter_on:
  "keyed_by key xs \<Longrightarrow> (\<And>x y. p x \<Longrightarrow> p y \<Longrightarrow> f x = f y \<Longrightarrow> key x = key y) \<Longrightarrow>
     distinct (map f (filter p xs))"
  unfolding keyed_by_def
  by (auto simp: distinct_map inj_on_def)

lemma distinct_item_posts:
  "keyed_by item_key (snapshot_bookmark_items d) \<Longrightarrow> distinct (map item_post_id (snapshot_items snap d))"
  unfolding snapshot_items_def by (rule distinct_map_filter_on [of item_key]) (auto simp: item_key_def)

lemma distinct_active_posts:
  "keyed_by bm_key bs \<Longrightarrow> distinct (map bm_post_id (filter (\<lambda>b. bm_active a b \<and> q b) bs))"
  by (rule distinct_map_filter_on [of bm_key]) (auto simp: bm_key_def bm_active_def)

lemma matching_bookmarks_Nil:
  "matching_bookmarks a i d = [] \<longleftrightarrow> item_post_id i \<notin> saved_posts a (bookmarks d)"
  by (auto simp: matching_bookmarks_def saved_posts_def filter_empty_conv intro: rev_image_eqI)

lemma matching_bookmarks_one:
  assumes "keyed_by bm_key (bookmarks d)"
  shows "length (matching_bookmarks a i d) = (if item_post_id i \<in> saved_posts a (bookmarks d) then 1 else 0)"
proof -
  let ?bs = "matching_bookmarks a i d"
  have "length ?bs = card (bm_post_id ` set ?bs)"
    unfolding matching_bookmarks_def
    by (rule length_distinct_card) (rule distinct_active_posts [OF assms])
  also have "bm_post_id ` set ?bs = (if item_post_id i \<in> saved_posts a (bookmarks d) then {item_post_id i} else {})"
    by (auto simp: matching_bookmarks_def saved_posts_def intro: rev_image_eqI)
  finally show ?thesis by simp
qed

lemma sum_list_indicator:
  "(\<Sum>x \<leftarrow> xs. int (if q x then 1 else 0)) = int (length (filter q xs))"
  by (induction xs) auto

lemma statistics_exact:
  assumes "keyed_by bm_key (bookmarks d)" and "keyed_by item_key (snapshot_bookmark_items d)"
  shows "added_count a snap d = int (card (item_posts snap d - saved_posts a (bookmarks d)))"
    and "retained_count a snap d = int (card (item_posts snap d \<inter> saved_posts a (bookmarks d)))"
    and "int (length (removed_bookmarks a snap d))
           = int (card (saved_posts a (bookmarks d) - item_posts snap d))"
proof -
  let ?S = "saved_posts a (bookmarks d)" and ?I = "snapshot_items snap d"
  have part: "length (filter (\<lambda>i. item_post_id i \<in> X) ?I) = card (item_posts snap d \<inter> X)" for X
  proof -
    have "distinct (map item_post_id (filter (\<lambda>i. item_post_id i \<in> X) ?I))"
      using distinct_item_posts [OF assms(2)] by (rule distinct_map_filter)
    from length_distinct_card [OF this] show ?thesis
      by (simp add: item_posts_def image_def) (rule arg_cong [of _ _ card], auto)
  qed
  show "added_count a snap d = int (card (item_posts snap d - ?S))"
    using part [of "- ?S"] by (simp add: added_count_def matching_bookmarks_Nil Diff_eq)
  show "retained_count a snap d = int (card (item_posts snap d \<inter> ?S))"
    using part [of ?S] by (simp add: retained_count_def matching_bookmarks_one [OF assms(1)] sum_list_indicator)
  have "length (removed_bookmarks a snap d) = card (bm_post_id ` set (removed_bookmarks a snap d))"
    unfolding removed_bookmarks_def
    by (rule length_distinct_card) (rule distinct_active_posts [OF assms(1)])
  also have "bm_post_id ` set (removed_bookmarks a snap d) = ?S - item_posts snap d"
    by (auto simp: removed_bookmarks_def saved_posts_def)
  finally show "int (length (removed_bookmarks a snap d)) = int (card (?S - item_posts snap d))" by simp
qed

section \<open>The effect on uncertain writes\<close>

lemma reconciled_status_settled: "reconciled_status action present \<noteq> WUncertain"
  by (simp add: reconciled_status_def)

definition settle_rows ::
  "time \<Rightarrow> (uuid \<times> write_action \<times> bool) list \<Rightarrow> write_operation \<Rightarrow> write_operation" where
  "settle_rows t rows op =
     (if wop_status op = WUncertain
      then case map_of rows (wop_id op) of None \<Rightarrow> op | Some (action, present) \<Rightarrow> settle_operation t action present op
      else op)"

lemma settle_rows_Cons:
  "settle_rows t rows (if wop_id op = i \<and> wop_status op = WUncertain then settle_operation t action present op else op)
     = settle_rows t ((i, action, present) # rows) op"
  by (simp add: settle_rows_def settle_operation_def reconciled_status_settled)

lemma reconcile_operations_Inr:
  assumes "for_each (reconcile_operation C snap t) rows w = (Inr (), w')"
  shows "\<exists>auds. db w' = (db w)\<lparr>bookmark_write_operations := map (settle_rows t rows) (bookmark_write_operations (db w)),
      bookmark_write_audit_events := bookmark_write_audit_events (db w) @ auds\<rparr>"
  using assms
proof (induction rows arbitrary: w)
  case Nil
  have "settle_rows t [] = id" by (simp add: fun_eq_iff settle_rows_def)
  with Nil show ?case by (auto simp: io_run intro: exI [of _ "[]"])
next
  case (Cons row rows)
  obtain i action present where row: "row = (i, action, present)" by (cases row)
  let ?upd = "update_where (\<lambda>op. wop_id op = i \<and> wop_status op = WUncertain)
      (settle_operation t action present) (bookmark_write_operations (db w))"
  let ?auds = "concat (map (\<lambda>op. map (audit_of_operation C snap (reconciled_status action present) t op)
      (filter (\<lambda>con. wop_consent_id op = Some (con_id con)) (bookmark_write_consents (db w))))
      (filter (\<lambda>op. wop_id op = i) ?upd))"
  from Cons.prems obtain w1 where step: "reconcile_operation C snap t row w = (Inr (), w1)"
    and rest: "for_each (reconcile_operation C snap t) rows w1 = (Inr (), w')"
    by (auto simp: io_run)
  from step have w1: "db w1 = (db w)\<lparr>bookmark_write_operations := ?upd,
        bookmark_write_audit_events := bookmark_write_audit_events (db w) @ ?auds\<rparr>"
    by (auto simp: io_run reconcile_operation_def row)
  from Cons.IH [OF rest] w1 show ?case
    by (auto simp: update_where_def comp_def settle_rows_Cons row)
qed

section \<open>The effect of completion\<close>

lemma uncertain_operations_frame:
  "uncertain_operations a snap (d\<lparr>bookmarks := bs, bookmark_reconciliation_repairs := rs\<rparr>)
     = uncertain_operations a snap d"
  by (simp add: uncertain_operations_def operation_present_def snapshot_items_def)

definition exact_statistics :: "uuid \<Rightarrow> uuid \<Rightarrow> archive \<Rightarrow> reconciliation_statistics" where
  "exact_statistics a snap d =
     \<lparr>st_added = added_count a snap d, st_retained = retained_count a snap d,
      st_removed = int (length (removed_bookmarks a snap d))\<rparr>"

text \<open>The archive after a committed completion, table by table.\<close>

definition completed_archive ::
  "uuid \<Rightarrow> snapshot_run \<Rightarrow> time \<Rightarrow> (nat \<Rightarrow> uuid) \<Rightarrow> repair list \<Rightarrow> write_audit_event list \<Rightarrow> archive \<Rightarrow> archive" where
  "completed_archive a run t fresh rs auds d =
     (let snap = sr_snapshot_id run in
      d\<lparr>bookmarks := update_where (absent_bookmark a snap d) (remove_bookmark snap t)
           (upsert_items fresh a 0 (snapshot_items snap d) (bookmarks d)),
        sync_runs := update_where (\<lambda>r. run_id r = sr_id run)
           (complete_run_row t (exact_statistics a snap d)) (sync_runs d),
        snapshots := update_where (\<lambda>s. snap_id s = snap)
           (\<lambda>s. s\<lparr>snap_complete := True, snap_completed_at := Some t,
                  snap_page_count := pages_of_run (sr_id run) (sync_runs d)\<rparr>) (snapshots d),
        bookmark_snapshot_authority := upsert auth_account_id authority_merge
           \<lparr>auth_account_id = a, auth_snapshot_id = snap, auth_updated_at = t\<rparr>
           (bookmark_snapshot_authority d),
        bookmark_incremental_state := update_where (\<lambda>s. inc_account_id s = a)
           (\<lambda>s. s\<lparr>inc_requires_full_snapshot := False, inc_last_outcome := Idle,
                  inc_updated_at := t\<rparr>) (bookmark_incremental_state d),
        bookmark_reconciliation_repairs := rs,
        bookmark_write_operations := map (settle_rows t (uncertain_operations a snap d))
           (bookmark_write_operations d),
        bookmark_write_audit_events := bookmark_write_audit_events d @ auds\<rparr>)"

lemma pages_of_run_complete:
  "pages_of_run run (update_where (\<lambda>r. run_id r = run) (complete_run_row t st) rs) = pages_of_run run rs"
proof -
  have "select_one (\<lambda>r. run_id r = run) (update_where (\<lambda>r. run_id r = run) (complete_run_row t st) xs)
      = map_option (complete_run_row t st) (select_one (\<lambda>r. run_id r = run) xs)" for xs
    by (induction xs) (auto simp: select_one_def update_where_def complete_run_row_def)
  then show ?thesis
    by (simp add: pages_of_run_def complete_run_row_def split: option.split)
qed

lemma lock_finalization_Inr:
  "lock_finalization a run w = (Inr x, w') \<Longrightarrow>
     db w' = db w \<and> run_current a run (db w) = Some (False, Running)"
  by (auto simp: lock_finalization_def io_run split: if_splits)

lemma complete_run_Inr:
  assumes "complete_run C a run w = (Inr x, w')"
  obtains t fresh rs auds where
    "t = clock (sched w) (tick w)"
    "db w' = completed_archive a run t fresh rs auds (db w)"
    "run_current a run (db w) = Some (False, Running)"
    "rep_key ` set rs = rep_key ` set (bookmark_reconciliation_repairs (db w))
       \<union> {(sr_snapshot_id run, bm_id b) | b. b \<in> set (removed_bookmarks a (sr_snapshot_id run) (db w))
             \<and> bm_last_incremental_run_id b \<noteq> None}"
proof -
  let ?snap = "sr_snapshot_id run" and ?t = "clock (sched w) (tick w)"
  let ?v = "(advance (advance w))\<lparr>txn_at := Some (clock (sched w) (Suc (tick w)))\<rparr>"
  from assms obtain w1 w2 w4 w5 w6 w7 st where
      lock: "lock_finalization a run ?v = (Inr (), w1)"
    and 1: "reconcile_bookmarks a run ?t w1 = (Inr st, w2)"
    and 2: "reconcile_uncertain_bookmark_writes C a run ?t w2 = (Inr (), w4)"
    and 3: "record_completion run ?t st w4 = (Inr (), w5)"
    and 4: "clear_full_snapshot_flag a ?t w5 = (Inr (), w6)"
    and 5: "replace_authority a ?snap ?t w6 = (Inr (), w7)" "db w' = db w7"
    unfolding complete_run_def by (auto simp: io_run)
  from lock_finalization_Inr [OF lock] have 0: "db w1 = db w"
    and cur: "run_current a run (db w) = Some (False, Running)" by simp_all
  from 2 have ops: "for_each (reconcile_operation C ?snap ?t) (uncertain_operations a ?snap (db w2)) (advance w2)
      = (Inr (), w4)"
    by (simp add: reconcile_uncertain_bookmark_writes_def io_run)
  from reconcile_bookmarks_Inr [OF 1] obtain fresh rs where
      w2: "db w2 = (db w)\<lparr>bookmarks := update_where (absent_bookmark a ?snap (db w)) (remove_bookmark ?snap ?t)
         (upsert_items fresh a 0 (snapshot_items ?snap (db w)) (bookmarks (db w))),
       bookmark_reconciliation_repairs := rs\<rparr>"
    and rs: "rep_key ` set rs = rep_key ` set (bookmark_reconciliation_repairs (db w))
       \<union> {(?snap, bm_id b) | b. b \<in> set (removed_bookmarks a ?snap (db w))
             \<and> bm_last_incremental_run_id b \<noteq> None}"
    and st: "st = exact_statistics a ?snap (db w)"
    unfolding 0 exact_statistics_def .
  from reconcile_operations_Inr [OF ops] obtain auds where
      w4: "db w4 = (db w2)\<lparr>bookmark_write_operations := map (settle_rows ?t (uncertain_operations a ?snap (db w)))
         (bookmark_write_operations (db w)),
       bookmark_write_audit_events := bookmark_write_audit_events (db w) @ auds\<rparr>"
    by (auto simp: w2 uncertain_operations_frame)
  have "db w' = completed_archive a run ?t fresh rs auds (db w)"
    using 3 4 5
    by (auto simp: record_completion_def clear_full_snapshot_flag_def replace_authority_def io_run
        pages_of_run_complete completed_archive_def Let_def w4 w2 st)
  from that [OF refl this cur rs] show ?thesis .
qed

section \<open>A concrete account\<close>

definition demo_env :: "page_source \<Rightarrow> snapshot_env" where
  "demo_env src = \<lparr>se_contracts = demo_contracts, se_parse = demo_parse, se_chrono = demo_chrono,
     se_gate = demo_gate, se_source = src\<rparr>"

definition demo_page :: "string list \<Rightarrow> string option \<Rightarrow> bookmark_page" where
  "demo_page ids tok = \<lparr>page_envelope = demo_envelope ids, page_next_token = tok\<rparr>"

definition demo_batch :: normalized_batch where
  "demo_batch = \<lparr>nb_users =
        [\<lparr>nu_parser_version = 1, nu_provider_id = ''u1'', nu_username = Some ''ada'',
          nu_display_name = Some ''Ada'', nu_extension = []\<rparr>],
     nb_posts =
        [\<lparr>np_parser_version = 1, np_provider_id = ''1'', np_author_provider_id = ''u1'',
          np_text = ''hello'', np_long_text = None, np_language = None,
          np_published_at = Some 1767225600000000, np_edited_at = None, np_availability = Active,
          np_conversation_provider_id = None, np_like_count = None, np_retweet_count = None,
          np_reply_count = None, np_quote_count = None, np_bookmark_count = None,
          np_impression_count = None, np_media_keys = [], np_expanded_urls = [],
          np_extension = [(''ratatoskr.x/unresolved_references'',
             JArr [JObj [(''id'', JStr ''8''), (''type'', JStr ''pinned'')]])]\<rparr>],
     nb_relations =
        [\<lparr>nr_parser_version = 1, nr_post_provider_id = ''1'', nr_related_post_provider_id = ''9'',
          nr_relation = Quote\<rparr>],
     nb_media = []\<rparr>"

lemma demo_normalized: "normalize demo_parse (demo_envelope [''1'']) = Inr demo_batch"
  by code_simp

lemmas persist_eval = persist_batch_def persist_users_def persist_posts_def persist_relations_def
  persist_media_def upsert_user_def upsert_post_def post_row_of_def hash_insert_def hash_values_def
  upsert_def stage_item_def record_page_def update_where_def demo_batch_def publish_bookmark_sources_def
  i32_max_def fits_i32_def item_key_def rel_key_def med_key_def

lemmas stage_eval = stage_page_def demo_page_def demo_normalized persist_eval

lemmas run_eval = run_snapshot_def load_or_create_run_def create_run_def insert_run_def insert_snapshot_def
  account_exists_def demo_env_def demo_chrono_def demo_gate_def reserve_def charge_def window_stmts
  fetch_page_def window_start_for_def timestamp_def bw_key_def window_key_def insert_ignore_def stop_incomplete_def mark_failed_def
  set_run_def

lemmas complete_eval = complete_run_def lock_finalization_def run_current_def reconcile_bookmarks_def
  added_count_def retained_count_def snapshot_items_def matching_bookmarks_def upsert_active_bookmarks_def
  fresh_ids_def record_absent_bookmarks_def deactivate_absent_def absent_bookmark_def record_repair_def
  i32_or_overflow_def reconcile_uncertain_bookmark_writes_def uncertain_operations_def record_completion_def
  complete_run_row_def pages_of_run_def clear_full_snapshot_flag_def replace_authority_def bookmark_of_item_def bm_key_def rep_key_def bm_active_def
  active_merge_def Let_def

definition demo_source_once :: page_source where
  "demo_source_once tok n = Some (demo_page [''1''] None)"

definition demo_bookmark :: "uuid \<Rightarrow> uuid \<Rightarrow> uuid \<Rightarrow> uuid option \<Rightarrow> bookmark" where
  "demo_bookmark i a post inc = \<lparr>bm_id = i, bm_account_id = a, bm_post_id = post,
     bm_first_observed_saved_at = 3, bm_last_observed_saved_at = 4, bm_observed_removed_at = None,
     bm_observed_removed_snapshot_id = None, bm_last_write_operation_id = None, bm_last_write_observed_at = None,
      bm_observed_removed_write_operation_id = None, bm_last_incremental_run_id = inc\<rparr>"

text \<open>An account with two saved posts, one of which an incremental run saw, and a neighbour.\<close>

definition demo_saved :: archive where
  "demo_saved = demo_archive\<lparr>bookmarks :=
     [demo_bookmark 1 7 90 None, demo_bookmark 2 7 91 (Some 5), demo_bookmark 3 8 90 None]\<rparr>"

definition demo_full_run :: "(snapshot_error + snapshot_outcome option) \<times> archive world" where
  "demo_full_run = run_snapshot 1 (demo_env demo_source_once) 7 None (demo_world demo_saved)"

lemmas demo_run_eval = demo_full_run_def demo_source_once_def stage_eval publish_eval run_eval
  complete_eval demo_saved_def demo_bookmark_def

lemma demo_full_run_ok: "demo_full_run = (Inr (Some (Completed 1000 2000)), snd demo_full_run)"
proof -
  have "fst demo_full_run = Inr (Some (Completed 1000 2000))" by (simp add: demo_run_eval)
  then show ?thesis by (simp add: prod_eq_iff)
qed

section \<open>Properties\<close>

text \<open>
  C1. A partial scan proves nothing about absence. Whatever the provider, the schedule of failures
  and the clock do, a snapshot attempt that does not end \<^verbatim>\<open>Completed\<close> (it stops incomplete, or fails
  anywhere, the completion transaction included) leaves every account's bookmarks, the current
  authority, the incremental state, the repairs, the uncertain writes and their audit trail, and the
  set of complete snapshots exactly as they were.
\<close>

theorem incomplete_run_keeps_authority:
  assumes "run_snapshot fuel E a resume w = (r, w')" and "\<And>i s. r \<noteq> Inr (Some (Completed i s))"
  shows "authority_frame (db w) (db w')"
proof -
  obtain q w1 where q: "load_or_create_run a resume w = (q, w1)" by fastforce
  have f: "authority_frame (db w) (db w1)" by (rule withinD [OF load_or_create_run_authority q])
  show ?thesis
  proof (cases q)
    case (Inl e)
    with assms(1) q f show ?thesis by (simp add: run_snapshot_def bind_io_def)
  next
    case (Inr run)
    with assms(1) q have "snapshot_loop fuel E a run w1 = (r, w')" by (simp add: run_snapshot_def bind_io_def)
    from snapshot_loop_cases [OF this] assms(2) f show ?thesis by (auto intro: authority.frame_trans)
  qed
qed

theorem incomplete_run_keeps_authority_witness:
  "bookmarks (db (snd (run_snapshot 1 (demo_env (\<lambda>tok n. None)) 7 None (demo_world demo_saved))))
     = bookmarks demo_saved"
proof -
  let ?r = "run_snapshot 1 (demo_env (\<lambda>tok n. None)) 7 None (demo_world demo_saved)"
  have "fst ?r = Inr (Some (Incomplete 1000))"
    by (simp add: publish_eval run_eval demo_saved_def demo_bookmark_def fits_i32_def i32_max_def update_where_def)
  with incomplete_run_keeps_authority [of 1 "demo_env (\<lambda>tok n. None)" 7 None "demo_world demo_saved" "fst ?r" "snd ?r"]
  show ?thesis by (simp add: authority_frame_def demo_world_def)
qed

lemma completed_saved_posts:
  "saved_posts a (bookmarks (completed_archive a run t fresh rs auds d)) = item_posts (sr_snapshot_id run) d"
proof -
  let ?snap = "sr_snapshot_id run"
  have "saved_posts a (update_where (absent_bookmark a ?snap d) (remove_bookmark ?snap t) bs)
      = saved_posts a bs \<inter> item_posts ?snap d" for bs
    by (rule update_where_saved) (auto simp: absent_bookmark_iff remove_bookmark_def bm_active_def)
  then show ?thesis
    by (auto simp: completed_archive_def Let_def upsert_items_saved item_posts_def)
qed

lemma completed_other_account:
  assumes "a' \<noteq> a"
  shows "filter (\<lambda>b. bm_account_id b = a') (bookmarks (completed_archive a run t fresh rs auds d))
    = filter (\<lambda>b. bm_account_id b = a') (bookmarks d)"
proof -
  let ?snap = "sr_snapshot_id run"
  have "filter (\<lambda>b. bm_account_id b = a') (update_where (absent_bookmark a ?snap d) (remove_bookmark ?snap t) bs)
      = filter (\<lambda>b. bm_account_id b = a') bs" for bs
    using assms by (induction bs) (auto simp: update_where_def absent_bookmark_iff bm_active_def remove_bookmark_def)
  with assms show ?thesis
    by (simp add: completed_archive_def Let_def upsert_items_other_account)
qed

lemma completed_first_seen:
  assumes "b \<in> set (bookmarks d)"
  shows "\<exists>b' \<in> set (bookmarks (completed_archive a run t fresh rs auds d)). bm_id b' = bm_id b
    \<and> bm_key b' = bm_key b \<and> bm_first_observed_saved_at b' = bm_first_observed_saved_at b"
proof -
  let ?snap = "sr_snapshot_id run"
  let ?f = "\<lambda>r. if absent_bookmark a ?snap d r then remove_bookmark ?snap t r else r"
  obtain b1 where b1: "b1 \<in> set (upsert_items fresh a 0 (snapshot_items ?snap d) (bookmarks d))"
    "bm_id b1 = bm_id b" "bm_key b1 = bm_key b" "bm_first_observed_saved_at b1 = bm_first_observed_saved_at b"
    using upsert_items_first_seen [OF assms] by blast
  have "?f b1 \<in> set (bookmarks (completed_archive a run t fresh rs auds d))"
    using b1(1) by (auto simp: completed_archive_def Let_def update_where_def)
  moreover have "bm_id (?f b1) = bm_id b1 \<and> bm_key (?f b1) = bm_key b1
      \<and> bm_first_observed_saved_at (?f b1) = bm_first_observed_saved_at b1"
    by (simp add: remove_bookmark_def bm_key_def)
  ultimately show ?thesis using b1(2-4) by metis
qed

lemma completed_authority:
  "\<exists>r \<in> set (bookmark_snapshot_authority (completed_archive a run t fresh rs auds d)).
     auth_account_id r = a \<and> auth_snapshot_id r = sr_snapshot_id run"
proof -
  let ?new = "\<lparr>auth_account_id = a, auth_snapshot_id = sr_snapshot_id run, auth_updated_at = t\<rparr>"
  let ?xs = "bookmark_snapshot_authority d"
  have "\<exists>r \<in> set (upsert auth_account_id authority_merge ?new ?xs).
      auth_account_id r = a \<and> auth_snapshot_id r = sr_snapshot_id run"
  proof (cases "\<exists>old \<in> set ?xs. auth_account_id old = a")
    case True
    then obtain old where old: "old \<in> set ?xs" "auth_account_id old = auth_account_id ?new" by auto
    from authority_upsert.upsert_hit [OF old] show ?thesis
      by (rule rev_bexI) (use old in \<open>simp add: authority_merge_def\<close>)
  qed (auto simp: upsert_def)
  then show ?thesis by (simp add: completed_archive_def Let_def)
qed

lemma completed_run_current:
  assumes "run_current a run d = Some (False, Running)"
  shows "\<exists>r \<in> set (sync_runs (completed_archive a run t fresh rs auds d)). run_id r = sr_id run
      \<and> run_account_id r = Some a \<and> run_state r = RunCompleted"
    and "\<exists>s \<in> set (snapshots (completed_archive a run t fresh rs auds d)). snap_id s = sr_snapshot_id run
      \<and> snap_complete s"
proof -
  from assms obtain r s where r: "r \<in> set (sync_runs d)" "run_id r = sr_id run" "run_account_id r = Some a"
    and s: "s \<in> set (snapshots d)" "snap_id s = sr_snapshot_id run"
    by (auto simp: run_current_def split: option.splits dest!: select_one_Some)
  show "\<exists>r \<in> set (sync_runs (completed_archive a run t fresh rs auds d)). run_id r = sr_id run
      \<and> run_account_id r = Some a \<and> run_state r = RunCompleted"
    unfolding completed_archive_def Let_def using r
    by (auto intro!: bexI [OF _ update_where_hit [OF r(1)]] simp: complete_run_row_def)
  show "\<exists>s \<in> set (snapshots (completed_archive a run t fresh rs auds d)). snap_id s = sr_snapshot_id run
      \<and> snap_complete s"
    unfolding completed_archive_def Let_def using s
    by (auto intro!: bexI [OF _ update_where_hit [OF s(1)]])
qed

text \<open>
  C2. A completed snapshot is the account's saved state. When an attempt (fresh or resumed) ends
  \<^verbatim>\<open>Completed\<close>, the account's active bookmarks are exactly the posts staged in that snapshot, the
  account's authority row names that snapshot, the run is completed and the snapshot complete; the
  rows of every other account are unchanged, and every bookmark that existed before is still there with
  its identity and its first observation.
\<close>

theorem completed_run_is_authoritative:
  assumes "run_snapshot fuel E a resume w = (Inr (Some (Completed i s)), w')"
  shows "saved_posts a (bookmarks (db w')) = item_posts s (db w')
    \<and> (\<exists>r \<in> set (bookmark_snapshot_authority (db w')). auth_account_id r = a \<and> auth_snapshot_id r = s)
    \<and> (\<exists>r \<in> set (sync_runs (db w')). run_id r = i \<and> run_account_id r = Some a \<and> run_state r = RunCompleted)
    \<and> (\<exists>r \<in> set (snapshots (db w')). snap_id r = s \<and> snap_complete r)
    \<and> (\<forall>a'. a' \<noteq> a \<longrightarrow> filter (\<lambda>b. bm_account_id b = a') (bookmarks (db w'))
           = filter (\<lambda>b. bm_account_id b = a') (bookmarks (db w)))
    \<and> (\<forall>b \<in> set (bookmarks (db w)). \<exists>b' \<in> set (bookmarks (db w')). bm_id b' = bm_id b
           \<and> bm_key b' = bm_key b \<and> bm_first_observed_saved_at b' = bm_first_observed_saved_at b)"
proof -
  from assms obtain run w1 where ld: "load_or_create_run a resume w = (Inr run, w1)"
    and loop: "snapshot_loop fuel E a run w1 = (Inr (Some (Completed i s)), w')"
    by (auto simp: run_snapshot_def io_run)
  from snapshot_loop_cases [OF loop] obtain w2 where ids: "i = sr_id run" "s = sr_snapshot_id run"
    and f12: "authority_frame (db w1) (db w2)"
    and cr: "complete_run (se_contracts E) a run w2 = (Inr (), w')" by auto
  from withinD [OF load_or_create_run_authority ld] f12 have bs: "bookmarks (db w2) = bookmarks (db w)"
    by (simp add: authority_frame_def)
  from complete_run_Inr [OF cr] obtain t fresh rs auds where
    d': "db w' = completed_archive a run t fresh rs auds (db w2)"
    and cur: "run_current a run (db w2) = Some (False, Running)" by metis
  have "item_posts s (db w') = item_posts s (db w2)"
    by (simp add: d' completed_archive_def Let_def item_posts_def snapshot_items_def)
  with completed_saved_posts completed_authority completed_run_current [OF cur]
    completed_other_account completed_first_seen
  show ?thesis unfolding d' ids bs [symmetric] by simp
qed

theorem completed_run_is_authoritative_witness:
  "saved_posts 7 (bookmarks (db (snd demo_full_run))) = item_posts 2000 (db (snd demo_full_run))
   \<and> filter (\<lambda>b. bm_account_id b = 8) (bookmarks (db (snd demo_full_run))) = [demo_bookmark 3 8 90 None]"
proof -
  have "filter (\<lambda>b. bm_account_id b = 8) (bookmarks (db (demo_world demo_saved))) = [demo_bookmark 3 8 90 None]"
    by (simp add: demo_world_def demo_saved_def demo_bookmark_def)
  with completed_run_is_authoritative [OF demo_full_run_ok [unfolded demo_full_run_def]] show ?thesis
    by (simp add: demo_full_run_def)
qed

definition demo_operation :: "uuid \<Rightarrow> uuid \<Rightarrow> write_action \<Rightarrow> string \<Rightarrow> write_operation" where
  "demo_operation i a action post = \<lparr>wop_id = i, wop_account_id = a, wop_internal_user_id = 70,
     wop_consent_id = None, wop_action = action, wop_provider_post_id = post,
     wop_execution_mode = Live, wop_idempotency_digest = [], wop_request_fingerprint = [],
     wop_status = WUncertain, wop_outcome = None, wop_provider_request_id = None,
     wop_rate_limit_reset_at = None, wop_projection_observed_at = None\<rparr>"

text \<open>The account with a staged snapshot of one post, ready to complete, and uncertain writes.\<close>

definition demo_ready :: archive where
  "demo_ready = demo_saved\<lparr>
     posts := [demo_post_row\<lparr>pst_id := 90, pst_provider_id := ''90''\<rparr>],
     sync_runs := [\<lparr>run_id = 1000, run_account_id = Some 7, run_run_type = RFull, run_state = Running,
        run_checkpoint = None, run_pages_fetched = 1, run_items_observed = 1, run_added_count = 0,
        run_retained_count = 0, run_removed_count = 0, run_finished_at = None\<rparr>],
     snapshots := [\<lparr>snap_id = 2000, snap_sync_run_id = 1000, snap_folder_id = None,
        snap_complete = False, snap_completed_at = None, snap_page_count = 0\<rparr>],
     snapshot_bookmark_items := [\<lparr>item_snapshot_id = 2000, item_post_id = 90, item_observed_at = 6\<rparr>],
     bookmark_write_operations := [demo_operation 11 7 WAdd ''90'', demo_operation 12 7 WAdd ''91'',
        demo_operation 13 8 WAdd ''90'']\<rparr>"

definition demo_snapshot_run :: snapshot_run where
  "demo_snapshot_run = \<lparr>sr_id = 1000, sr_account_id = 7, sr_snapshot_id = 2000, sr_checkpoint = None\<rparr>"

definition demo_completed :: "(snapshot_error + unit) \<times> archive world" where
  "demo_completed = complete_run demo_contracts 7 demo_snapshot_run (demo_world demo_ready)"

lemmas demo_ready_eval = demo_ready_def demo_saved_def demo_snapshot_run_def demo_bookmark_def
  demo_operation_def complete_eval publish_eval update_where_def upsert_def i32_max_def
  operation_present_def reconcile_operation_def settle_operation_def

lemma demo_completed_ok: "demo_completed = (Inr (), snd demo_completed)"
proof -
  have "fst demo_completed = Inr ()"
    unfolding demo_completed_def by (simp add: demo_ready_eval)
  then show ?thesis by (simp add: prod_eq_iff)
qed

lemma demo_ready_keyed:
  "keyed_by bm_key (bookmarks demo_ready)" "keyed_by item_key (snapshot_bookmark_items demo_ready)"
  "keyed_by wop_id (bookmark_write_operations demo_ready)"
  by (simp_all add: keyed_by_def demo_ready_def demo_saved_def demo_bookmark_def demo_operation_def bm_key_def)

text \<open>
  The stored statistics are exact. After a completion, the run row records as added the staged
  posts that were not saved before, as retained those that were, and as removed the saved posts that
  were not staged; added and retained add up to the snapshot. The bookmark and item tables are assumed
  to respect their unique keys.
\<close>

theorem completion_statistics_exact:
  assumes "complete_run C a run w = (Inr x, w')"
    and "keyed_by bm_key (bookmarks (db w))" and "keyed_by item_key (snapshot_bookmark_items (db w))"
    and "r \<in> set (sync_runs (db w'))" and "run_id r = sr_id run"
  shows "run_added_count r = int (card (item_posts (sr_snapshot_id run) (db w) - saved_posts a (bookmarks (db w))))
    \<and> run_retained_count r = int (card (item_posts (sr_snapshot_id run) (db w) \<inter> saved_posts a (bookmarks (db w))))
    \<and> run_removed_count r = int (card (saved_posts a (bookmarks (db w)) - item_posts (sr_snapshot_id run) (db w)))
    \<and> run_added_count r + run_retained_count r = int (card (item_posts (sr_snapshot_id run) (db w)))"
proof -
  let ?snap = "sr_snapshot_id run"
  from complete_run_Inr [OF assms(1)] obtain t fresh rs auds where
    d': "db w' = completed_archive a run t fresh rs auds (db w)" by metis
  with assms(4,5) obtain r0 where "r = complete_run_row t (exact_statistics a ?snap (db w)) r0"
    by (auto simp: completed_archive_def Let_def update_where_def split: if_splits)
  then have st: "run_added_count r = added_count a ?snap (db w)"
    "run_retained_count r = retained_count a ?snap (db w)"
    "run_removed_count r = int (length (removed_bookmarks a ?snap (db w)))"
    by (simp_all add: complete_run_row_def exact_statistics_def)
  have "finite (item_posts ?snap (db w))" by (simp add: item_posts_def)
  then have "card (item_posts ?snap (db w) - S) + card (item_posts ?snap (db w) \<inter> S)
      = card (item_posts ?snap (db w))" for S
    by (metis Int_Diff_Un Int_Diff_disjoint add.commute card_Un_disjoint finite_Diff finite_Int)
  then show ?thesis
    unfolding st statistics_exact [OF assms(2,3)] by (metis of_nat_add)
qed

theorem completion_statistics_exact_witness:
  "\<exists>r \<in> set (sync_runs (db (snd demo_completed))).
     run_added_count r = 0 \<and> run_retained_count r = 1 \<and> run_removed_count r = 1"
proof -
  have "\<exists>r \<in> set (sync_runs (db (snd demo_completed))). run_id r = 1000"
    unfolding demo_completed_def by (simp add: demo_ready_eval complete_run_row_def)
  then obtain r where r: "r \<in> set (sync_runs (db (snd demo_completed)))" "run_id r = sr_id demo_snapshot_run"
    by (auto simp: demo_snapshot_run_def)
  have "db (demo_world demo_ready) = demo_ready" by (simp add: demo_world_def)
  moreover have "item_posts 2000 demo_ready = {90}" "saved_posts 7 (bookmarks demo_ready) = {90, 91}"
    by (auto simp: item_posts_def snapshot_items_def demo_ready_def saved_posts_iff demo_saved_def
        demo_bookmark_def bm_key_def)
  ultimately show ?thesis
    using completion_statistics_exact [OF demo_completed_ok [unfolded demo_completed_def], of r] r demo_ready_keyed
    by (auto simp: demo_completed_def demo_snapshot_run_def intro!: bexI [of _ r])
qed

text \<open>
  Incremental drift is recorded, and only drift. A completion adds a repair for exactly those
  bookmarks that it removes and that an incremental scan had last observed, and keeps every earlier
  repair.
\<close>

theorem completion_records_drift:
  assumes "complete_run C a run w = (Inr x, w')"
  shows "rep_key ` set (bookmark_reconciliation_repairs (db w'))
    = rep_key ` set (bookmark_reconciliation_repairs (db w))
      \<union> {(sr_snapshot_id run, bm_id b) | b. b \<in> set (bookmarks (db w)) \<and> bm_active a b
            \<and> bm_post_id b \<notin> item_posts (sr_snapshot_id run) (db w)
            \<and> bm_last_incremental_run_id b \<noteq> None}"
proof -
  obtain t fresh rs auds where "t = clock (sched w) (tick w)"
    and d': "db w' = completed_archive a run t fresh rs auds (db w)"
    and "run_current a run (db w) = Some (False, Running)"
    and rs: "rep_key ` set rs = rep_key ` set (bookmark_reconciliation_repairs (db w))
       \<union> {(sr_snapshot_id run, bm_id b) | b. b \<in> set (removed_bookmarks a (sr_snapshot_id run) (db w))
             \<and> bm_last_incremental_run_id b \<noteq> None}"
    by (rule complete_run_Inr [OF assms])
  have "bookmark_reconciliation_repairs (db w') = rs"
    by (simp add: d' completed_archive_def Let_def)
  with rs show ?thesis
    unfolding removed_bookmarks_def set_filter mem_Collect_eq conj_assoc by simp
qed

theorem completion_records_drift_witness:
  "(2000, 2) \<in> rep_key ` set (bookmark_reconciliation_repairs (db (snd demo_completed)))"
proof -
  have "demo_bookmark 2 7 91 (Some 5) \<in> set (bookmarks (db (demo_world demo_ready)))"
    "91 \<notin> item_posts 2000 (db (demo_world demo_ready))"
    by (simp_all add: demo_world_def demo_ready_def demo_saved_def item_posts_def snapshot_items_def)
  with completion_records_drift [OF demo_completed_ok [unfolded demo_completed_def]] show ?thesis
    by (force simp: demo_completed_def demo_snapshot_run_def demo_bookmark_def bm_active_def)
qed

lemma map_of_keyed:
  "distinct (map k xs) \<Longrightarrow> x \<in> set xs \<Longrightarrow> map_of (map (\<lambda>x. (k x, f x)) xs) (k x) = Some (f x)"
  by (induction xs) (auto simp: image_iff)

lemma settle_rows_exact:
  assumes "keyed_by wop_id ops" and "op \<in> set ops" and "ops = bookmark_write_operations d"
  shows "settle_rows t (uncertain_operations a snap d) op =
    (if wop_account_id op = a \<and> wop_status op = WUncertain
     then settle_operation t (wop_action op) (operation_present snap d op) op else op)"
proof -
  let ?xs = "filter (\<lambda>op. wop_account_id op = a \<and> wop_status op = WUncertain) ops"
  let ?f = "\<lambda>op. (wop_action op, operation_present snap d op)"
  have rows: "uncertain_operations a snap d = map (\<lambda>op. (wop_id op, ?f op)) ?xs"
    by (simp add: uncertain_operations_def assms(3))
  have dist: "distinct (map wop_id ?xs)"
    using assms(1) by (simp add: keyed_by_def distinct_map_filter)
  have "map_of (map (\<lambda>op. (wop_id op, ?f op)) ?xs) (wop_id op) =
      (if wop_account_id op = a \<and> wop_status op = WUncertain then Some (?f op) else None)"
  proof (cases "op \<in> set ?xs")
    case True
    then show ?thesis using map_of_keyed [OF dist True, of ?f] by simp
  next
    case False
    then have "wop_id op \<notin> wop_id ` set ?xs"
      using assms(1,2) by (auto simp: keyed_by_def dest: keyed_by_inj [unfolded keyed_by_def])
    then have "map_of (map (\<lambda>op. (wop_id op, ?f op)) ?xs) (wop_id op) = None"
      by (simp add: map_of_eq_None_iff image_comp comp_def)
    with False assms(2) show ?thesis by auto
  qed
  then show ?thesis by (simp add: settle_rows_def rows)
qed

text \<open>
  A complete snapshot settles every uncertain write of its account and no other. Each operation of
  the account that was \<^verbatim>\<open>uncertain\<close> ends \<^verbatim>\<open>reconciled_succeeded\<close> when the snapshot shows the requested
  state (an added post present, a removed post absent) and \<^verbatim>\<open>reconciled_not_current\<close> otherwise; all
  other operations are left alone. Operation identifiers are unique.
\<close>

theorem completion_settles_uncertain_writes:
  assumes "complete_run C a run w = (Inr x, w')"
    and "keyed_by wop_id (bookmark_write_operations (db w))"
  shows "bookmark_write_operations (db w') =
      map (\<lambda>op. if wop_account_id op = a \<and> wop_status op = WUncertain
                then settle_operation (clock (sched w) (tick w)) (wop_action op)
                       (operation_present (sr_snapshot_id run) (db w) op) op
                else op) (bookmark_write_operations (db w))
    \<and> (\<forall>op \<in> set (bookmark_write_operations (db w')). wop_account_id op = a \<longrightarrow> wop_status op \<noteq> WUncertain)"
proof -
  from complete_run_Inr [OF assms(1)] obtain fresh rs auds where
    d': "db w' = completed_archive a run (clock (sched w) (tick w)) fresh rs auds (db w)" by metis
  let ?settle = "\<lambda>op. if wop_account_id op = a \<and> wop_status op = WUncertain
      then settle_operation (clock (sched w) (tick w)) (wop_action op)
             (operation_present (sr_snapshot_id run) (db w) op) op
      else op"
  have ops: "bookmark_write_operations (db w') = map ?settle (bookmark_write_operations (db w))"
    using settle_rows_exact [OF assms(2) _ refl] by (simp add: d' completed_archive_def Let_def)
  have "wop_account_id (?settle op) = a \<longrightarrow> wop_status (?settle op) \<noteq> WUncertain" for op
    by (simp add: settle_operation_def reconciled_status_settled)
  then show ?thesis unfolding ops by (metis (no_types, lifting) ex_map_conv)
qed

theorem completion_settles_uncertain_writes_witness:
  "map wop_status (bookmark_write_operations (db (snd demo_completed)))
     = [WReconciledSucceeded, WReconciledNotCurrent, WUncertain]"
proof -
  have w: "db (demo_world demo_ready) = demo_ready" by (simp add: demo_world_def)
  have "operation_present 2000 demo_ready (demo_operation 11 7 WAdd ''90'')"
    "\<not> operation_present 2000 demo_ready (demo_operation 12 7 WAdd ''91'')"
    by (simp_all add: operation_present_def snapshot_items_def demo_ready_def demo_operation_def)
  moreover have "bookmark_write_operations demo_ready = [demo_operation 11 7 WAdd ''90'',
      demo_operation 12 7 WAdd ''91'', demo_operation 13 8 WAdd ''90'']"
    by (simp add: demo_ready_def)
  moreover have "wop_account_id (demo_operation i a act p) = a" "wop_status (demo_operation i a act p) = WUncertain"
    "wop_action (demo_operation i a act p) = act" for i a act p
    by (simp_all add: demo_operation_def)
  moreover have "sr_snapshot_id demo_snapshot_run = 2000" by (simp add: demo_snapshot_run_def)
  ultimately show ?thesis
    using completion_settles_uncertain_writes [OF demo_completed_ok [unfolded demo_completed_def]] demo_ready_keyed(3)
    by (simp add: demo_completed_def w settle_operation_def reconciled_status_def)
qed

section \<open>Staging\<close>

lemma persist_relations_never:
  assumes "\<forall>r \<in> set rs. nr_post_provider_id r \<in> dom (map_of m)"
  shows "never PersistedAuthorMissing (persist_relations rs m)"
  unfolding persist_relations_def
  by (intro never_intros) (use assms in \<open>auto simp: domIff\<close>)

lemma persist_media_never:
  assumes "\<forall>r \<in> set ms. nm_post_provider_id r \<in> dom (map_of m)"
  shows "never PersistedAuthorMissing (persist_media ms m)"
  unfolding persist_media_def
  by (intro never_intros) (use assms in \<open>auto simp: domIff\<close>)

lemma persist_posts_never:
  assumes "\<forall>p \<in> set ps. np_author_provider_id p \<in> dom (map_of m)"
  shows "never PersistedAuthorMissing (persist_posts ps m)"
  unfolding persist_posts_def upsert_post_def
  by (intro never_intros) (use assms in \<open>auto simp: domIff\<close>)

lemma persist_users_never: "never PersistedAuthorMissing (persist_users us)"
  unfolding persist_users_def upsert_user_def by (intro never_intros) auto

lemma publish_never: "never PersistedAuthorMissing (publish_bookmark_sources C a ps t)"
  unfolding publish_bookmark_sources_def publish_source_def publish_loaded_def publish_changed_def
    write_source_def update_source_def insert_source_def insert_revision_def queue_source_event_def
  by (intro never_intros)
    (auto simp: facts_digest_def content_digest_def facts_snapshot_def Let_def split: option.splits if_splits)

lemma persist_batch_never:
  assumes "normalize parse e = Inr b"
  shows "never PersistedAuthorMissing (persist_batch b)"
  unfolding persist_batch_def
proof (intro never_bind never_then never_basic persist_users_never)
  note cl = normalize_batch_closed [OF assms]
  fix us w w' assume "persist_users (nb_users b) w = (Inr us, w')"
  from persist_users_dom [OF this] cl
  have dom: "\<forall>p \<in> set (nb_posts b). np_author_provider_id p \<in> dom (map_of us)" by simp
  then show "never PersistedAuthorMissing (persist_posts (nb_posts b) us)"
    by (rule persist_posts_never)
  fix ps v v' assume "persist_posts (nb_posts b) us v = (Inr ps, v')"
  from persist_posts_dom [OF this dom] cl
  show "never PersistedAuthorMissing (persist_relations (nb_relations b) ps)"
    "never PersistedAuthorMissing (persist_media (nb_media b) ps)"
    by (auto intro!: persist_relations_never persist_media_never)
qed

text \<open>
  Every post of an accepted page has its author. Staging a page never fails with
  \<^verbatim>\<open>PersistedAuthorMissing\<close>, for any page, contracts and schedule: normalization only lets through batches
  whose posts have normalized authors and whose relations and media belong to posts of the batch, and the
  identifiers returned by the persistence helpers cover them. The error branch is unreachable.
\<close>

theorem stage_page_author_present:
  "stage_page C parse run page t w = (Inl e, w') \<Longrightarrow> e \<noteq> PersistedAuthorMissing"
proof -
  have "never PersistedAuthorMissing (stage_page C parse run page t)"
    unfolding stage_page_def
  proof (rule never_bind)
    show "never PersistedAuthorMissing (map_err SnapNormalize (of_result (normalize parse (page_envelope page))))"
      by (intro never_basic) simp
  next
    fix w b w' assume "map_err SnapNormalize (of_result (normalize parse (page_envelope page))) w = (Inr b, w')"
    then have "normalize parse (page_envelope page) = Inr b" by (simp add: io_run)
    note nb = persist_batch_never [OF this]
    show "never PersistedAuthorMissing
       (if int (length (nb_posts b)) > i32_max then throw StatisticsOverflow
        else transaction SnapQuery
        (bind_io (persist_batch b) (\<lambda>ps.
         then_io (publish_bookmark_sources C (sr_account_id run) (hash_values C ps) t)
         (then_io (for_each (stage_item (sr_snapshot_id run) t) (hash_values C ps))
         (record_page (sr_id run) (page_next_token page) (int (length (nb_posts b))))))))"
      unfolding stage_item_def record_page_def
      by (intro never_intros nb publish_never) auto
  qed
  then show "stage_page C parse run page t w = (Inl e, w') \<Longrightarrow> e \<noteq> PersistedAuthorMissing"
    by (rule neverD)
qed

theorem stage_page_author_present_witness:
  "stage_page demo_contracts demo_parse demo_snapshot_run (demo_page [] None) 5 (demo_world demo_ready)
     = (Inl (SnapNormalize (MissingMember ''envelope'' ''data'')), demo_world demo_ready)
   \<and> SnapNormalize (MissingMember ''envelope'' ''data'') \<noteq> PersistedAuthorMissing"
proof -
  have "stage_page demo_contracts demo_parse demo_snapshot_run (demo_page [] None) 5 (demo_world demo_ready)
     = (Inl (SnapNormalize (MissingMember ''envelope'' ''data'')), demo_world demo_ready)"
    by (simp add: stage_page_def bind_io_def map_err_def of_result_def normalize_def validate_def
        demo_page_def demo_envelope_def)
  with stage_page_author_present [OF this] show ?thesis by simp
qed

section \<open>Resuming\<close>

lemma content_frame_runs:
  "content_frame d d' \<Longrightarrow> sync_runs d' = sync_runs d \<and> snapshots d' = snapshots d
     \<and> snapshot_bookmark_items d' = snapshot_bookmark_items d"
  by (cases d; cases d') (simp add: content_frame_def)

lemma publish_frame_runs:
  "publish_frame d d' \<Longrightarrow> sync_runs d' = sync_runs d \<and> snapshots d' = snapshots d
     \<and> snapshot_bookmark_items d' = snapshot_bookmark_items d"
  by (cases d; cases d') (simp add: publish_frame_def)

lemma persist_batch_frame: "within content_frame (persist_batch b)"
  unfolding persist_batch_def by (intro content.within_intros persist_frame)

lemma stage_items_Inr:
  assumes "for_each (stage_item snap t) ps w = (Inr (), w')"
  shows "\<exists>items. db w' = (db w)\<lparr>snapshot_bookmark_items := items\<rparr>
    \<and> item_key ` set items = item_key ` set (snapshot_bookmark_items (db w)) \<union> Pair snap ` set ps
    \<and> (keyed_by item_key (snapshot_bookmark_items (db w)) \<longrightarrow> keyed_by item_key items)"
  using assms
proof (induction ps arbitrary: w)
  case Nil
  then show ?case by (auto simp: io_run intro: exI [of _ "snapshot_bookmark_items (db w)"])
next
  case (Cons p ps)
  let ?new = "\<lparr>item_snapshot_id = snap, item_post_id = p, item_observed_at = t\<rparr>"
  let ?items = "upsert item_key item_merge ?new (snapshot_bookmark_items (db w))"
  from Cons.prems obtain w1 where step: "stage_item snap t p w = (Inr (), w1)"
    and rest: "for_each (stage_item snap t) ps w1 = (Inr (), w')"
    by (auto simp: io_run)
  from step have w1: "db w1 = (db w)\<lparr>snapshot_bookmark_items := ?items\<rparr>"
    by (auto simp: io_run stage_item_def)
  have "item_key ` set ?items = insert (snap, p) (item_key ` set (snapshot_bookmark_items (db w)))"
    by (simp only: item_upsert.keys_upsert) (simp add: item_key_def)
  moreover have "keyed_by item_key (snapshot_bookmark_items (db w)) \<longrightarrow> keyed_by item_key ?items"
    by (simp add: item_upsert.upsert_keyed)
  ultimately show ?case using Cons.IH [OF rest] by (auto simp: w1)
qed

definition page_recorded :: "string option \<Rightarrow> int \<Rightarrow> sync_run \<Rightarrow> sync_run" where
  "page_recorded tok n r = r\<lparr>run_checkpoint := tok, run_pages_fetched := run_pages_fetched r + 1,
     run_items_observed := run_items_observed r + n\<rparr>"

lemma stage_page_Inr:
  assumes "stage_page C parse run page t w = (Inr (), w')"
  obtains b ps where "normalize parse (page_envelope page) = Inr b"
    "sync_runs (db w') = update_where (\<lambda>r. run_id r = sr_id run \<and> run_state r = Running)
       (page_recorded (page_next_token page) (int (length (nb_posts b)))) (sync_runs (db w))"
    "snapshots (db w') = snapshots (db w)"
    "item_key ` set (snapshot_bookmark_items (db w'))
       = item_key ` set (snapshot_bookmark_items (db w)) \<union> Pair (sr_snapshot_id run) ` set ps"
    "keyed_by item_key (snapshot_bookmark_items (db w)) \<Longrightarrow> keyed_by item_key (snapshot_bookmark_items (db w'))"
proof -
  let ?v = "(advance w)\<lparr>txn_at := Some (clock (sched w) (tick w))\<rparr>"
  from assms obtain b m w1 w2 w3 w4 where nb: "normalize parse (page_envelope page) = Inr b"
    and 1: "persist_batch b ?v = (Inr m, w1)"
    and 2: "publish_bookmark_sources C (sr_account_id run) (hash_values C m) t w1 = (Inr (), w2)"
    and 3: "for_each (stage_item (sr_snapshot_id run) t) (hash_values C m) w2 = (Inr (), w3)"
    and 4: "record_page (sr_id run) (page_next_token page) (int (length (nb_posts b))) w3 = (Inr (), w4)"
    and w': "db w' = db w4"
    unfolding stage_page_def by (auto simp: io_run split: if_splits)
  note f1 = content_frame_runs [OF withinD [OF persist_batch_frame 1]]
    and f2 = publish_frame_runs [OF withinD [OF publish_bookmark_sources_frame 2]]
  obtain items where items: "db w3 = (db w2)\<lparr>snapshot_bookmark_items := items\<rparr>"
    "item_key ` set items = item_key ` set (snapshot_bookmark_items (db w2))
        \<union> Pair (sr_snapshot_id run) ` set (hash_values C m)"
    "keyed_by item_key (snapshot_bookmark_items (db w2)) \<longrightarrow> keyed_by item_key items"
    using stage_items_Inr [OF 3] by blast
  have "db w4 = (db w3)\<lparr>sync_runs := update_where (\<lambda>r. run_id r = sr_id run \<and> run_state r = Running)
       (page_recorded (page_next_token page) (int (length (nb_posts b)))) (sync_runs (db w3))\<rparr>"
    using 4 by (auto simp: record_page_def io_run page_recorded_def [abs_def] split: if_splits)
  with w' items f1 f2 have d': "sync_runs (db w') = update_where (\<lambda>r. run_id r = sr_id run \<and> run_state r = Running)
       (page_recorded (page_next_token page) (int (length (nb_posts b)))) (sync_runs (db w))"
    "snapshots (db w') = snapshots (db w)" "snapshot_bookmark_items (db w') = items"
    by simp_all
  show ?thesis
    by (rule that [OF nb d'(1,2), of "hash_values C m"]) (use items f1 f2 d' in simp_all)
qed

lemma item_posts_keys: "p \<in> item_posts snap d \<longleftrightarrow> (snap, p) \<in> item_key ` set (snapshot_bookmark_items d)"
  by (force simp: item_posts_def snapshot_items_def item_key_def)

lemma set_run_resumable:
  assumes "keyed_by run_id (sync_runs d)" and "st = Running \<or> st = RunFailed"
    and "resumable a i d = Some x"
  shows "resumable a i (set_run i st fin d) = Some x"
proof -
  let ?p = "\<lambda>r. run_id r = i \<and> run_account_id r = Some a \<and> run_run_type r = RFull
      \<and> (run_state r = Running \<or> run_state r = RunFailed)"
  from assms(3) obtain r0 where r0: "select_one ?p (sync_runs d) = Some r0"
    by (auto simp: resumable_def split: option.splits)
  have "r = r0" if "r \<in> set (sync_runs d)" "run_id r = i" for r
    using keyed_by_inj [OF assms(1) that(1)] select_one_Some [OF r0] that(2) by auto
  then have "?p (r\<lparr>run_state := st, run_finished_at := fin\<rparr>) = ?p r"
    if "r \<in> set (sync_runs d)" "run_id r = i" for r
    using select_one_Some [OF r0] that assms(2) by auto
  then show ?thesis
    using r0 assms(3)
    by (simp add: resumable_def set_run_def select_one_update_where) (auto dest: select_one_Some)
qed

lemma stage_page_resumable:
  assumes "stage_page C parse run page t w = (Inr (), w')" and "keyed_by run_id (sync_runs (db w))"
    and "resumable a (sr_id run) (db w) = Some (s, c)"
    and "\<exists>r \<in> set (sync_runs (db w)). run_id r = sr_id run \<and> run_state r = Running"
  shows "resumable a (sr_id run) (db w') = Some (s, page_next_token page)"
    and "keyed_by run_id (sync_runs (db w'))"
proof -
  let ?p = "\<lambda>r. run_id r = sr_id run \<and> run_account_id r = Some a \<and> run_run_type r = RFull
      \<and> (run_state r = Running \<or> run_state r = RunFailed)"
  obtain b :: normalized_batch where d': "sync_runs (db w') = update_where (\<lambda>r. run_id r = sr_id run \<and> run_state r = Running)
       (page_recorded (page_next_token page) (int (length (nb_posts b)))) (sync_runs (db w))"
    "snapshots (db w') = snapshots (db w)"
    by (rule stage_page_Inr [OF assms(1)]) blast
  obtain r0 where r0: "select_one ?p (sync_runs (db w)) = Some r0"
    using assms(3) by (auto simp: resumable_def split: option.splits)
  have "run_state r0 = Running"
    using assms(4) keyed_by_inj [OF assms(2)] select_one_Some [OF r0] by metis
  with r0 assms(3) show "resumable a (sr_id run) (db w') = Some (s, page_next_token page)"
    using select_one_Some [OF r0]
    by (simp add: resumable_def d' select_one_update_where page_recorded_def) (auto split: option.splits)
  show "keyed_by run_id (sync_runs (db w'))"
    unfolding d' by (rule update_where_keyed [OF assms(2)]) (simp add: page_recorded_def)
qed

text \<open>
  An interrupted scan resumes where it stopped. After a page has been staged and the run then marked
  failed (budget exhausted or provider unavailable before the next page), resuming the run by its
  identifier gives back the same run and snapshot with the continuation token that the last committed page
  returned, and every post staged so far is still staged.
\<close>

theorem resume_after_interruption:
  assumes "stage_page C parse run page t w = (Inr (), w1)" and "keyed_by run_id (sync_runs (db w))"
    and "resumable a (sr_id run) (db w) = Some (sr_snapshot_id run, c)"
    and "\<exists>r \<in> set (sync_runs (db w)). run_id r = sr_id run \<and> run_state r = Running"
    and "mark_failed (sr_id run) w1 = (Inr (), w2)" and "resume_run a (sr_id run) w2 = (Inr run', w3)"
  shows "sr_id run' = sr_id run \<and> sr_account_id run' = a \<and> sr_snapshot_id run' = sr_snapshot_id run
    \<and> sr_checkpoint run' = page_next_token page
    \<and> item_posts s (db w) \<subseteq> item_posts s (db w3)
    \<and> (\<exists>r \<in> set (sync_runs (db w3)). run_id r = sr_id run \<and> run_state r = Running)"
proof -
  note st = stage_page_resumable [OF assms(1-4)]
  from assms(5) obtain t' where w2: "db w2 = set_run (sr_id run) RunFailed (Some t') (db w1)"
    by (auto simp: mark_failed_def io_run)
  have res: "resumable a (sr_id run) (db w2) = Some (sr_snapshot_id run, page_next_token page)"
    unfolding w2 by (rule set_run_resumable [OF st(2) _ st(1)]) simp
  from assms(6) res have run': "run' = \<lparr>sr_id = sr_id run, sr_account_id = a,
      sr_snapshot_id = sr_snapshot_id run, sr_checkpoint = page_next_token page\<rparr>"
    and w3: "db w3 = set_run (sr_id run) Running None (db w2)"
    by (auto simp: resume_run_def io_run)
  have "item_posts s (db w3) = item_posts s (db w1)"
    by (simp add: w3 w2 set_run_def item_posts_def snapshot_items_def)
  moreover have "item_posts s (db w) \<subseteq> item_posts s (db w1)"
    by (rule stage_page_Inr [OF assms(1)]) (auto simp: item_posts_keys)
  moreover have "\<exists>r \<in> set (sync_runs (db w2)). run_id r = sr_id run"
    using res by (auto simp: resumable_def split: option.splits dest: select_one_Some)
  then have "\<exists>r \<in> set (sync_runs (db w3)). run_id r = sr_id run \<and> run_state r = Running"
    unfolding w3 by (auto simp: set_run_def intro!: bexI [OF _ update_where_hit])
  ultimately show ?thesis by (simp add: run')
qed

theorem resume_after_interruption_witness:
  "\<exists>w3. resume_run 7 1000 (snd (mark_failed 1000 (snd (stage_page demo_contracts demo_parse demo_snapshot_run
        (demo_page [''1''] (Some ''next'')) 5 (demo_world demo_ready)))))
      = (Inr \<lparr>sr_id = 1000, sr_account_id = 7, sr_snapshot_id = 2000, sr_checkpoint = Some ''next''\<rparr>, w3)
     \<and> 90 \<in> item_posts 2000 (db w3)"
proof -
  let ?s = "stage_page demo_contracts demo_parse demo_snapshot_run (demo_page [''1''] (Some ''next'')) 5
      (demo_world demo_ready)"
  let ?m = "mark_failed 1000 (snd ?s)"
  let ?r = "resume_run 7 1000 (snd ?m)"
  note ev = stage_eval publish_eval demo_ready_def demo_saved_def demo_bookmark_def demo_snapshot_run_def
    demo_operation_def
  have 1: "fst ?s = Inr ()" by (simp add: ev)
  have 2: "fst ?m = Inr ()" by (simp add: ev mark_failed_def)
  obtain q where 3: "fst ?r = Inr q" by (simp add: ev mark_failed_def resume_run_def resumable_def set_run_def)
  have k: "keyed_by run_id (sync_runs (db (demo_world demo_ready)))"
    "resumable 7 1000 (db (demo_world demo_ready)) = Some (2000, None)"
    "\<exists>r \<in> set (sync_runs (db (demo_world demo_ready))). run_id r = 1000 \<and> run_state r = Running"
    by (simp_all add: demo_world_def demo_ready_def keyed_by_def resumable_def select_one_def)
  have run: "sr_id demo_snapshot_run = 1000" "sr_snapshot_id demo_snapshot_run = 2000"
    by (simp_all add: demo_snapshot_run_def)
  have "90 \<in> item_posts 2000 (db (demo_world demo_ready))"
    by (simp add: demo_world_def demo_ready_def item_posts_def snapshot_items_def)
  with resume_after_interruption [of demo_contracts demo_parse demo_snapshot_run "demo_page [''1''] (Some ''next'')" 5
      "demo_world demo_ready" "snd ?s" 7 None "snd ?m" q "snd ?r" 2000, unfolded run] 1 2 3 k
  have "sr_id q = 1000" "sr_account_id q = 7" "sr_snapshot_id q = 2000" "sr_checkpoint q = Some ''next''"
    "90 \<in> item_posts 2000 (db (snd ?r))"
    by (auto simp: prod_eq_iff demo_page_def)
  with 3 show ?thesis by (intro exI [of _ "snd ?r"]) (simp add: prod_eq_iff)
qed

section \<open>Termination\<close>

definition windows_frame :: "archive \<Rightarrow> archive \<Rightarrow> bool" where
  "windows_frame d d' \<longleftrightarrow> api_budget_windows d' = api_budget_windows d"

interpretation windows: frame windows_frame
  by unfold_locales (auto simp: windows_frame_def)

lemma content_frame_windows: "content_frame d d' \<Longrightarrow> windows_frame d d'"
  by (cases d; cases d') (simp add: content_frame_def windows_frame_def)

lemma publish_frame_windows: "publish_frame d d' \<Longrightarrow> windows_frame d d'"
  by (cases d; cases d') (simp add: publish_frame_def windows_frame_def)

lemmas persist_windows = persist_frame [THEN within_mono, OF content_frame_windows]

lemmas publish_windows =
  publish_bookmark_sources_frame [THEN within_mono, OF publish_frame_windows]

lemma stage_page_windows: "within windows_frame (stage_page C parse run page t)"
proof -
  have "within windows_frame (stage_item snap t p)" for snap p
    unfolding stage_item_def by (rule windows.within_exec) (simp add: windows_frame_def)
  moreover have "within windows_frame (record_page i tok n)" for i tok n
    unfolding record_page_def
    by (rule windows.within_sql) (auto simp: windows_frame_def split: if_splits)
  ultimately show ?thesis
    unfolding stage_page_def persist_batch_def
    by (intro windows.within_intros persist_windows publish_windows)
qed

lemma load_or_create_run_windows: "within windows_frame (load_or_create_run a resume)"
proof -
  have "within windows_frame (insert_run a RFull)"
    unfolding insert_run_def
    by (rule windows.within_sql) (auto simp: windows_frame_def split: if_splits)
  moreover have "within windows_frame (insert_snapshot i)" for i
    unfolding insert_snapshot_def by (rule windows.within_sql) (auto simp: windows_frame_def)
  moreover have "within windows_frame (exec SnapQuery (set_run i st fin))" for i st fin
    by (rule windows.within_exec) (simp add: windows_frame_def set_run_def)
  ultimately show ?thesis
    unfolding load_or_create_run_def create_run_def resume_run_def
    by (intro windows.within_intros)
qed

lemma used_in_windows: "windows_frame d d' \<Longrightarrow> used_in d' a g ws = used_in d a g ws"
  by (simp add: windows_frame_def used_in_def usage_def)

lemma persist_batch_steady: "steady (persist_batch b)"
  unfolding persist_batch_def persist_users_def persist_posts_def persist_relations_def
    persist_media_def upsert_user_def upsert_post_def
  by (intro steady_intros)

lemma capture_links_steady: "steady (capture_expanded_links_in_transaction C a src urls)"
  unfolding capture_expanded_links_in_transaction_def capture_one_def insert_article_capture_def
    link_article_def queue_article_command_def queue_command_def build_envelope_def
    enqueue_command_def insert_outbox_def Let_def
  by (intro steady_intros)

lemma publish_steady: "steady (publish_bookmark_sources C a ps t)"
  unfolding publish_bookmark_sources_def publish_source_def publish_loaded_def publish_changed_def
    write_source_def update_source_def insert_source_def insert_revision_def queue_source_event_def
    queue_event_def build_envelope_def enqueue_event_def insert_outbox_def
  by (intro steady_intros capture_links_steady)

lemma stage_page_steady: "steady (stage_page C parse run page t)"
  unfolding stage_page_def stage_item_def record_page_def
  by (intro steady_intros persist_batch_steady publish_steady)

lemma load_or_create_run_steady: "steady (load_or_create_run a resume)"
  unfolding load_or_create_run_def create_run_def resume_run_def insert_run_def insert_snapshot_def
  by (intro steady_intros)

lemma charge_steady: "steady (charge a cls ws secs cap cost)"
  unfolding charge_def window_stmts by (intro steady_intros)

lemma reserve_steady: "steady (reserve c g a cost)"
proof -
  have cases: "steady (case r of Accepted x \<Rightarrow> m x | ChargeExhausted \<Rightarrow> k)"
    if "\<And>x. steady (m x)" "steady k" for r m k
    using that by (cases r) auto
  show ?thesis
    unfolding reserve_def Let_def by (intro steady_intros charge_steady cases)
qed

lemma then_stops:
  "x \<noteq> y \<Longrightarrow> fst (then_io p (ret x) v) \<noteq> Inr y" "fst (then_io p (throw e) v) \<noteq> Inr y"
  by (auto simp: then_io_def bind_io_def ret_def throw_def split: prod.splits sum.splits)

text \<open>
  One unfolding of the loop when the request was granted and a page staged. Every other way through
  the body returns.
\<close>

lemma snapshot_loop_turn:
  assumes "\<And>x w1 page w4. reserve (se_chrono E) (se_gate E) a 1 w = (Inr x, w1) \<Longrightarrow>
      stage_page (se_contracts E) (se_parse E) run page
        (clock (sched w1) (Suc (tick w1))) (advance (advance w1)) = (Inr (), w4) \<Longrightarrow>
      page_next_token page \<noteq> None \<Longrightarrow>
      snapshot_loop n E a (run\<lparr>sr_checkpoint := page_next_token page\<rparr>) w4
        = snapshot_loop m E a (run\<lparr>sr_checkpoint := page_next_token page\<rparr>) w4
      \<and> fst (snapshot_loop n E a (run\<lparr>sr_checkpoint := page_next_token page\<rparr>) w4) \<noteq> Inr None"
  shows "snapshot_loop (Suc n) E a run w = snapshot_loop (Suc m) E a run w
    \<and> fst (snapshot_loop (Suc n) E a run w) \<noteq> Inr None"
proof -
  obtain r1 w1 where r1: "reserve (se_chrono E) (se_gate E) a 1 w = (r1, w1)" by fastforce
  show ?thesis
  proof (cases "\<exists>x page. r1 = Inr x \<and> se_source E (sr_checkpoint run) (tick w1) = Some page")
    case False
    with r1 show ?thesis
      by (cases r1) (auto simp: then_stops bind_attempt stop_incomplete_def bind_io_def [of "fetch_page _ _"]
          fetch_page_def split: budget_error.split option.split)
  next
    case True
    then obtain x page where x: "r1 = Inr x" and page: "se_source E (sr_checkpoint run) (tick w1) = Some page"
      by blast
    obtain r4 w4 where r4: "stage_page (se_contracts E) (se_parse E) run page
        (clock (sched w1) (Suc (tick w1))) (advance (advance w1)) = (r4, w4)" by fastforce
    from r1 x page r4 have body: "snapshot_loop (Suc k) E a run w = (case r4 of
          Inl e \<Rightarrow> then_io (mark_failed (sr_id run)) (throw e)
        | Inr _ \<Rightarrow> (if page_next_token page = None then then_io (complete_run (se_contracts E) a run)
                      (ret (Some (Completed (sr_id run) (sr_snapshot_id run))))
                    else snapshot_loop k E a (run\<lparr>sr_checkpoint := page_next_token page\<rparr>))) w4" for k
      by (auto simp: bind_attempt bind_read_clock bind_io_def [of "fetch_page _ _"] fetch_page_def
          Let_def complete_run_snap_only split: sum.split)
    show ?thesis
      unfolding body using assms [OF r1 [unfolded x], of page w4] r4
      by (cases r4) (auto simp: then_stops)
  qed
qed

lemma snapshot_loop_returns:
  assumes "\<And>k. window_start_for (se_chrono E) (clock (sched w) k) (window_seconds (se_gate E)) = ws"
    and "nat (uint (request_cap_per_window (se_gate E)) - used_in (db w) a (se_gate E) ws) < n"
    and "n \<le> m"
  shows "snapshot_loop n E a run w = snapshot_loop m E a run w \<and> fst (snapshot_loop n E a run w) \<noteq> Inr None"
  using assms
proof (induction n arbitrary: m run w)
  case (Suc n)
  from Suc.prems(3) obtain m' where m: "m = Suc m'" "n \<le> m'" by (cases m) auto
  show ?case
    unfolding m(1)
  proof (rule snapshot_loop_turn)
    fix x w1 page w4
    assume r: "reserve (se_chrono E) (se_gate E) a 1 w = (Inr x, w1)"
      and st: "stage_page (se_contracts E) (se_parse E) run page (clock (sched w1) (Suc (tick w1)))
        (advance (advance w1)) = (Inr (), w4)"
    have sch: "sched w4 = sched w"
      using steadyD [OF stage_page_steady st] steadyD [OF reserve_steady r] by simp
    from reserve_cases [OF r] obtain used where
      x: "x = \<lparr>rsv_window_start = ws, rsv_cost = 1\<rparr>"
      and ch: "charge a (budget_class_as_str (gate_class (se_gate E))) ws (window_seconds (se_gate E))
           (uint (request_cap_per_window (se_gate E))) (uint (1::u32)) (advance w) = (Inr (Accepted used), w1)"
      using Suc.prems(1) [of "tick w"] by auto
    from charge_Accepted [OF ch] have u1:
      "used_in (db w1) a (se_gate E) ws = used_in (db w) a (se_gate E) ws + 1"
      "used_in (db w) a (se_gate E) ws + 1 \<le> uint (request_cap_per_window (se_gate E))"
      by (auto simp: used_in_def)
    have "used_in (db w4) a (se_gate E) ws = used_in (db w1) a (se_gate E) ws"
      using used_in_windows [OF withinD [OF stage_page_windows st]] by simp
    with u1 Suc.prems(2) have "nat (uint (request_cap_per_window (se_gate E)) - used_in (db w4) a (se_gate E) ws) < n"
      by linarith
    then have "snapshot_loop n E a q w4 = snapshot_loop m' E a q w4
        \<and> fst (snapshot_loop n E a q w4) \<noteq> Inr None" for q
      by (intro Suc.IH [OF _ _ m(2)]) (simp_all add: sch Suc.prems(1))
    then show "snapshot_loop n E a (run\<lparr>sr_checkpoint := page_next_token page\<rparr>) w4
        = snapshot_loop m' E a (run\<lparr>sr_checkpoint := page_next_token page\<rparr>) w4
      \<and> fst (snapshot_loop n E a (run\<lparr>sr_checkpoint := page_next_token page\<rparr>) w4) \<noteq> Inr None"
      by blast
  qed
qed simp

text \<open>
  C38. A snapshot attempt always returns, and the budget is what bounds it. While the clock stays inside one
  budget window, an attempt makes at most one turn more than the requests the window has left, whatever the
  provider answers (an endless chain of continuation tokens included): with that much fuel the loop has
  returned an outcome or an error, and any larger fuel gives the same result and the same archive.
\<close>

theorem snapshot_run_returns:
  assumes "\<And>k. window_start_for (se_chrono E) (clock (sched w) k) (window_seconds (se_gate E)) = ws"
    and "nat (uint (request_cap_per_window (se_gate E)) - used_in (db w) a (se_gate E) ws) < fuel"
  shows "fst (run_snapshot fuel E a resume w) \<noteq> Inr None
    \<and> (\<forall>more. fuel \<le> more \<longrightarrow> run_snapshot more E a resume w = run_snapshot fuel E a resume w)"
proof -
  obtain q w1 where q: "load_or_create_run a resume w = (q, w1)" by fastforce
  have same: "sched w1 = sched w" "used_in (db w1) a (se_gate E) ws = used_in (db w) a (se_gate E) ws"
    using steadyD [OF load_or_create_run_steady q]
      used_in_windows [OF withinD [OF load_or_create_run_windows q]] by simp_all
  show ?thesis
  proof (cases q)
    case (Inl e)
    with q show ?thesis by (simp add: run_snapshot_def bind_io_def)
  next
    case (Inr run)
    have loop: "snapshot_loop fuel E a run w1 = snapshot_loop more E a run w1
        \<and> fst (snapshot_loop fuel E a run w1) \<noteq> Inr None" if "fuel \<le> more" for more
      by (rule snapshot_loop_returns [where ws = ws]) (use assms same that in simp_all)
    from loop [OF order_refl] loop q Inr show ?thesis by (simp add: run_snapshot_def bind_io_def)
  qed
qed

definition demo_endless :: page_source where
  "demo_endless tok n = Some (demo_page [''1''] (Some ''again''))"

definition demo_still :: "archive world" where
  "demo_still = (demo_world demo_archive)\<lparr>sched := demo_schedule\<lparr>clock := (\<lambda>n. 1800000000)\<rparr>\<rparr>"

theorem snapshot_run_returns_witness:
  "fst (run_snapshot 3 (demo_env demo_endless) 7 None demo_still) \<noteq> Inr None"
proof -
  have "used_in (db demo_still) 7 demo_gate 1800000000 = 0"
    by (simp add: used_in_def usage_def demo_still_def demo_defs empty_archive_def select_one_def)
  moreover have "window_start_for demo_chrono (clock (sched demo_still) k) (window_seconds demo_gate) = 1800000000" for k
    by (simp add: demo_still_def window_start_for_def demo_chrono_def demo_gate_def timestamp_def)
  moreover have "se_gate (demo_env demo_endless) = demo_gate" "se_chrono (demo_env demo_endless) = demo_chrono"
    "uint (request_cap_per_window demo_gate) = 2"
    by (simp_all add: demo_env_def demo_gate_def)
  ultimately show ?thesis
    by (intro conjunct1 [OF snapshot_run_returns [where ws = 1800000000]]) simp_all
qed

section \<open>The empty account\<close>

text \<open>
  C39. An account without bookmarks never completes a snapshot. When every page the provider returns carries
  no data (the observed empty complete result), no attempt ends \<^verbatim>\<open>Completed\<close>: normalization refuses the empty
  envelope, so the stored bookmarks of an account that removed its last bookmark stay active.
\<close>

theorem empty_account_never_completes:
  assumes "\<And>tok n page. se_source E tok n = Some page \<Longrightarrow> env_data (page_envelope page) = []"
  shows "fst (run_snapshot fuel E a resume w) \<noteq> Inr (Some (Completed i s))"
proof -
  have empty: "fst (stage_page C parse run page t v) \<noteq> Inr ()"
    if "env_data (page_envelope page) = []" for C parse run page t v
    using that by (simp add: stage_page_def normalize_def validate_def bind_io_def map_err_def of_result_def)
  have "fst (snapshot_loop fuel E a run v) \<noteq> Inr (Some (Completed i s))" for run v
  proof (cases fuel)
    case (Suc n)
    obtain r1 w1 where r1: "reserve (se_chrono E) (se_gate E) a 1 v = (r1, w1)" by fastforce
    show ?thesis
    proof (cases "\<exists>x page. r1 = Inr x \<and> se_source E (sr_checkpoint run) (tick w1) = Some page")
      case False
      with r1 Suc show ?thesis
        by (cases r1) (auto simp: then_stops bind_attempt stop_incomplete_def bind_io_def [of "fetch_page _ _"]
            fetch_page_def split: budget_error.split option.split)
    next
      case True
      then obtain x page where x: "r1 = Inr x" "se_source E (sr_checkpoint run) (tick w1) = Some page"
        by blast
      let ?s = "stage_page (se_contracts E) (se_parse E) run page (clock (sched w1) (Suc (tick w1)))
        (advance (advance w1))"
      obtain q w4 where q: "?s = (q, w4)" by fastforce
      with empty [OF assms [OF x(2)]] have "q \<noteq> Inr ()" by (metis fst_conv)
      then obtain e where "q = Inl e" by (cases q) auto
      with q r1 x Suc show ?thesis
        by (simp add: then_stops bind_attempt bind_read_clock bind_io_def [of "fetch_page _ _"] fetch_page_def)
    qed
  qed (simp add: ret_def)
  then show ?thesis
    by (auto simp: run_snapshot_def bind_io_def split: prod.splits sum.splits)
qed

theorem empty_account_never_completes_witness:
  "fst (run_snapshot 5 (demo_env (\<lambda>tok n. Some (demo_page [] None))) 7 None (demo_world demo_saved))
     \<noteq> Inr (Some (Completed 1000 2000))"
  by (rule empty_account_never_completes) (auto simp: demo_env_def demo_page_def demo_envelope_def)

end
