(* ===== verification/Incremental.thy ===== *)
theory Incremental
  imports Snapshot_Correct
begin

text \<open>
  The bounded incremental scan, \<^verbatim>\<open>IncrementalScanService\<close> of \<^verbatim>\<open>x-sync/src/incremental.rs\<close>: the stored
  state of an account, the page observation, the four ways a scan ends and the scan loop. The loop needs
  no fuel: every turn that continues has fetched a page, and pages are bounded by the page cap.
\<close>

section \<open>State and outcomes\<close>

datatype incremental_outcome =
    IncCompleted uuid "string option"
  | IncRequiresFullSnapshot uuid
  | IncIncomplete uuid

datatype scan_choice = ScanIncremental | ScanFullSnapshot

definition SCHEDULED_BOOKMARK_SCAN_COMMAND :: string where
  "SCHEDULED_BOOKMARK_SCAN_COMMAND = ''x.bookmarks.scan_requested.v1''"

record incremental_env = snapshot_env +
  ie_page_cap :: u32
  ie_request_cap :: u32

definition stored_state :: "uuid \<Rightarrow> archive \<Rightarrow> string option \<times> bool" where
  "stored_state a d =
     (case select_one (\<lambda>s. inc_account_id s = a) (bookmark_incremental_state d) of
        None \<Rightarrow> (None, False)
      | Some s \<Rightarrow> (inc_watermark_provider_post_id s, inc_requires_full_snapshot s))"

definition load_state :: "uuid \<Rightarrow> (snapshot_error, string option \<times> bool) dbio" where
  "load_state a = query SnapQuery (stored_state a)"

definition scheduled_scan :: "string \<Rightarrow> uuid \<Rightarrow> (snapshot_error, scan_choice) dbio" where
  "scheduled_scan command_type a =
     (if command_type \<noteq> SCHEDULED_BOOKMARK_SCAN_COMMAND then throw RunUnavailable
      else bind_io (load_state a) (\<lambda>(_, requires_full).
        ret (if requires_full then ScanFullSnapshot else ScanIncremental)))"

definition create_incremental_run :: "uuid \<Rightarrow> (snapshot_error, uuid) dbio" where
  "create_incremental_run a = insert_run a RIncremental"

section \<open>Observing a page\<close>

definition observed_merge :: "bookmark \<Rightarrow> bookmark \<Rightarrow> bookmark" where
  "observed_merge new old = old\<lparr>bm_last_observed_saved_at := bm_last_observed_saved_at new,
     bm_observed_removed_at := None, bm_observed_removed_snapshot_id := None,
     bm_last_incremental_run_id := bm_last_incremental_run_id new\<rparr>"

definition observed_bookmark :: "uuid \<Rightarrow> uuid \<Rightarrow> uuid \<Rightarrow> time \<Rightarrow> uuid \<Rightarrow> bookmark" where
  "observed_bookmark i a run observed post =
     \<lparr>bm_id = i, bm_account_id = a, bm_post_id = post, bm_first_observed_saved_at = observed,
      bm_last_observed_saved_at = observed, bm_observed_removed_at = None,
      bm_observed_removed_snapshot_id = None, bm_last_write_operation_id = None, bm_last_write_observed_at = None,
      bm_observed_removed_write_operation_id = None, bm_last_incremental_run_id = Some run\<rparr>"

definition upsert_observed_bookmark ::
  "uuid \<Rightarrow> uuid \<Rightarrow> time \<Rightarrow> uuid \<Rightarrow> (snapshot_error, unit) dbio" where
  "upsert_observed_bookmark a run observed post =
     sql SnapQuery (\<lambda>now fresh d.
       if (a, post) \<notin> bm_key ` set (bookmarks d) \<and> fresh 0 \<in> bm_id ` set (bookmarks d) then None
       else Some ((), d\<lparr>bookmarks := upsert bm_key observed_merge
              (observed_bookmark (fresh 0) a run observed post) (bookmarks d)\<rparr>))"

definition upsert_observed_bookmarks ::
  "uuid \<Rightarrow> uuid \<Rightarrow> uuid list \<Rightarrow> time \<Rightarrow> (snapshot_error, unit) dbio" where
  "upsert_observed_bookmarks a run post_ids observed =
     for_each (upsert_observed_bookmark a run observed) post_ids"

definition record_observed :: "uuid \<Rightarrow> int \<Rightarrow> (snapshot_error, unit) dbio" where
  "record_observed run items =
     sql SnapQuery (\<lambda>now fresh d.
       if (\<forall>r \<in> set (sync_runs d). run_id r = run \<longrightarrow>
             fits_i32 (run_pages_fetched r + 1) \<and> fits_i32 (run_items_observed r + items))
       then Some ((), d\<lparr>sync_runs := update_where (\<lambda>r. run_id r = run)
              (\<lambda>r. r\<lparr>run_pages_fetched := run_pages_fetched r + 1,
                     run_items_observed := run_items_observed r + items\<rparr>) (sync_runs d)\<rparr>)
       else None)"

definition newest_seen :: "string option \<Rightarrow> string list \<Rightarrow> string option" where
  "newest_seen newest ids =
     (case newest of Some x \<Rightarrow> Some x | None \<Rightarrow> (case ids of [] \<Rightarrow> None | x # _ \<Rightarrow> Some x))"

definition reaches :: "string option \<Rightarrow> string list \<Rightarrow> bool" where
  "reaches watermark ids = (case watermark of None \<Rightarrow> False | Some m \<Rightarrow> m \<in> set ids)"

definition observe_page ::
  "incremental_env \<Rightarrow> uuid \<Rightarrow> uuid \<Rightarrow> bookmark_page \<Rightarrow> string option
   \<Rightarrow> (snapshot_error, bool \<times> string option) dbio" where
  "observe_page E a run page newest =
     bind_io (map_err SnapNormalize (of_result (normalize (se_parse E) (page_envelope page)))) (\<lambda>b.
       let ids = map np_provider_id (nb_posts b) in
       bind_io (load_state a) (\<lambda>(prior, _).
       bind_io read_clock (\<lambda>observed.
       then_io
         (transaction SnapQuery
           (bind_io (persist_batch b) (\<lambda>ps.
            then_io (publish_bookmark_sources (se_contracts E) a (hash_values (se_contracts E) ps) observed)
            (then_io (upsert_observed_bookmarks a run (hash_values (se_contracts E) ps) observed)
            (bind_io (i32_or_overflow (int (length ps))) (record_observed run))))))
         (ret (reaches prior ids, newest_seen newest ids)))))"

section \<open>Ending a scan\<close>

definition finish_run :: "uuid \<Rightarrow> time \<Rightarrow> (snapshot_error, uuid) dbio" where
  "finish_run run completed_at =
     sql SnapQuery (\<lambda>now fresh d.
       case select_one (\<lambda>r. run_id r = run) (sync_runs d) of
         None \<Rightarrow> None
       | Some r \<Rightarrow> map_option (\<lambda>a. (a, set_run run RunCompleted (Some completed_at) d)) (run_account_id r))"

definition completed_merge :: "incremental_state \<Rightarrow> incremental_state \<Rightarrow> incremental_state" where
  "completed_merge new old = old\<lparr>inc_watermark_provider_post_id := inc_watermark_provider_post_id new,
     inc_last_outcome := inc_last_outcome new,
     inc_last_incremental_run_id := inc_last_incremental_run_id new,
     inc_updated_at := inc_updated_at new\<rparr>"

definition complete_incremental_run :: "uuid \<Rightarrow> string option \<Rightarrow> (snapshot_error, unit) dbio" where
  "complete_incremental_run run watermark =
     bind_io read_clock (\<lambda>completed_at.
       transaction SnapQuery
        (bind_io (finish_run run completed_at) (\<lambda>a.
         exec SnapQuery (\<lambda>d. d\<lparr>bookmark_incremental_state :=
           upsert inc_account_id completed_merge
             \<lparr>inc_account_id = a, inc_watermark_provider_post_id = watermark,
              inc_requires_full_snapshot = False, inc_last_outcome = OCompleted,
              inc_last_incremental_run_id = Some run, inc_updated_at = completed_at\<rparr>
             (bookmark_incremental_state d)\<rparr>))))"

definition mark_incremental_failed :: "uuid \<Rightarrow> (snapshot_error, unit) dbio" where
  "mark_incremental_failed run =
     bind_io read_clock (\<lambda>now. exec SnapQuery (set_run run RunFailed (Some now)))"

definition gap_merge :: "incremental_state \<Rightarrow> incremental_state \<Rightarrow> incremental_state" where
  "gap_merge new old = old\<lparr>inc_requires_full_snapshot := True, inc_last_outcome := Gap,
     inc_last_incremental_run_id := inc_last_incremental_run_id new,
     inc_updated_at := inc_updated_at new\<rparr>"

definition mark_gap :: "uuid \<Rightarrow> uuid \<Rightarrow> (snapshot_error, unit) dbio" where
  "mark_gap a run =
     bind_io read_clock (\<lambda>now.
       transaction SnapQuery
        (then_io (exec SnapQuery (set_run run RunFailed (Some now)))
        (exec SnapQuery (\<lambda>d. d\<lparr>bookmark_incremental_state :=
           upsert inc_account_id gap_merge
             \<lparr>inc_account_id = a, inc_watermark_provider_post_id = None,
              inc_requires_full_snapshot = True, inc_last_outcome = Gap,
              inc_last_incremental_run_id = Some run, inc_updated_at = now\<rparr>
             (bookmark_incremental_state d)\<rparr>))))"

definition stopped_merge :: "incremental_state \<Rightarrow> incremental_state \<Rightarrow> incremental_state" where
  "stopped_merge new old = old\<lparr>inc_last_outcome := inc_last_outcome new,
     inc_last_incremental_run_id := inc_last_incremental_run_id new,
     inc_updated_at := inc_updated_at new\<rparr>"

definition stop_run :: "uuid \<Rightarrow> uuid \<Rightarrow> incremental_outcome_name \<Rightarrow> (snapshot_error, unit) dbio" where
  "stop_run a run outcome =
     bind_io read_clock (\<lambda>now.
       transaction SnapQuery
        (then_io (exec SnapQuery (set_run run RunFailed (Some now)))
        (exec SnapQuery (\<lambda>d. d\<lparr>bookmark_incremental_state :=
           upsert inc_account_id stopped_merge
             \<lparr>inc_account_id = a, inc_watermark_provider_post_id = None,
              inc_requires_full_snapshot = False, inc_last_outcome = outcome,
              inc_last_incremental_run_id = Some run, inc_updated_at = now\<rparr>
             (bookmark_incremental_state d)\<rparr>))))"

section \<open>The scan loop\<close>

lemma unat_plus_one: "(x :: u32) < y \<Longrightarrow> unat (x + 1) = Suc (unat x)"
proof -
  assume "x < y"
  then have "unat x + 1 < 2 ^ 32"
    using unsigned_less [where ?'a = nat and w = y] by (simp add: word_less_nat_alt)
  then show ?thesis by (simp add: unat_word_ariths)
qed

function scan_loop ::
  "incremental_env \<Rightarrow> uuid \<Rightarrow> uuid \<Rightarrow> string option \<Rightarrow> string option \<Rightarrow> string option \<Rightarrow> u32 \<Rightarrow> u32
   \<Rightarrow> (snapshot_error, incremental_outcome) dbio" where
  "scan_loop E a run watermark continuation newest pages_fetched requests_made =
     (if pages_fetched \<ge> ie_page_cap E
      then then_io (mark_gap a run) (ret (IncRequiresFullSnapshot run))
      else if requests_made \<ge> ie_request_cap E
      then then_io (stop_run a run RequestCap) (ret (IncIncomplete run))
      else bind_io (attempt (reserve (se_chrono E) (se_gate E) a 1)) (\<lambda>r.
        case r of
          Inl err \<Rightarrow>
            (case err of
               Exhausted _ \<Rightarrow> then_io (stop_run a run BudgetExhausted) (ret (IncIncomplete run))
             | _ \<Rightarrow> then_io (mark_incremental_failed run) (throw (SnapBudget err)))
        | Inr _ \<Rightarrow>
            bind_io (fetch_page (se_source E) continuation) (\<lambda>fetched.
              case fetched of
                None \<Rightarrow> then_io (mark_incremental_failed run) (throw RunUnavailable)
              | Some page \<Rightarrow>
                  bind_io (observe_page E a run page newest) (\<lambda>(reached, newest').
                    if reached \<or> watermark = None
                    then then_io (complete_incremental_run run newest') (ret (IncCompleted run newest'))
                    else if page_next_token page = None
                    then then_io (mark_incremental_failed run) (throw RunUnavailable)
                    else scan_loop E a run watermark (page_next_token page) newest'
                           (pages_fetched + 1) (requests_made + 1)))))"
  by pat_completeness auto
termination
proof (relation "measure (\<lambda>(E, a, run, watermark, continuation, newest, pages, requests).
    unat (ie_page_cap E) - unat pages)")
qed (auto simp: not_le unat_plus_one word_less_nat_alt)

declare scan_loop.simps [simp del]

definition run_incremental ::
  "incremental_env \<Rightarrow> uuid \<Rightarrow> (snapshot_error, incremental_outcome) dbio" where
  "run_incremental E a =
     bind_io (load_state a) (\<lambda>(watermark, requires_full).
       if requires_full then throw RunUnavailable
       else bind_io (create_incremental_run a) (\<lambda>run.
         scan_loop E a run watermark None None 0 0))"

section \<open>Observation only\<close>

interpretation observed_upsert: saving_upsert observed_merge
  by unfold_locales (simp_all add: observed_merge_def bm_key_def)

interpretation completed_upsert: keyed_upsert inc_account_id completed_merge
  by unfold_locales (simp add: completed_merge_def)

interpretation gap_upsert: keyed_upsert inc_account_id gap_merge
  by unfold_locales (simp add: gap_merge_def)

interpretation stopped_upsert: keyed_upsert inc_account_id stopped_merge
  by unfold_locales (simp add: stopped_merge_def)

text \<open>What a scan of account \<open>a\<close> may do to the archive: save posts of that account, never unsave one.\<close>

definition observation_frame :: "uuid \<Rightarrow> archive \<Rightarrow> archive \<Rightarrow> bool" where
  "observation_frame a d d' \<longleftrightarrow>
     saved_posts a (bookmarks d) \<subseteq> saved_posts a (bookmarks d')
     \<and> (\<forall>a'. a' \<noteq> a \<longrightarrow> filter (\<lambda>b. bm_account_id b = a') (bookmarks d')
            = filter (\<lambda>b. bm_account_id b = a') (bookmarks d))
     \<and> (\<forall>b \<in> set (bookmarks d). \<exists>b' \<in> set (bookmarks d'). bm_id b' = bm_id b \<and> bm_key b' = bm_key b
            \<and> bm_first_observed_saved_at b' = bm_first_observed_saved_at b)
     \<and> snapshots d' = snapshots d
     \<and> snapshot_bookmark_items d' = snapshot_bookmark_items d
     \<and> bookmark_snapshot_authority d' = bookmark_snapshot_authority d
     \<and> bookmark_reconciliation_repairs d' = bookmark_reconciliation_repairs d
     \<and> bookmark_write_operations d' = bookmark_write_operations d
     \<and> bookmark_write_audit_events d' = bookmark_write_audit_events d"

interpretation observation: frame "observation_frame a" for a
proof
  fix d show "observation_frame a d d" by (auto simp: observation_frame_def)
next
  fix d d' d'' assume 1: "observation_frame a d d'" and 2: "observation_frame a d' d''"
  have "\<exists>b'' \<in> set (bookmarks d''). bm_id b'' = bm_id b \<and> bm_key b'' = bm_key b
      \<and> bm_first_observed_saved_at b'' = bm_first_observed_saved_at b" if "b \<in> set (bookmarks d)" for b
    using 1 2 that unfolding observation_frame_def by metis
  with 1 2 show "observation_frame a d d''"
    unfolding observation_frame_def by auto
qed

lemma observation_same_bookmarks:
  "bookmarks d' = bookmarks d \<Longrightarrow> snapshots d' = snapshots d \<Longrightarrow>
   snapshot_bookmark_items d' = snapshot_bookmark_items d \<Longrightarrow>
   bookmark_snapshot_authority d' = bookmark_snapshot_authority d \<Longrightarrow>
   bookmark_reconciliation_repairs d' = bookmark_reconciliation_repairs d \<Longrightarrow>
   bookmark_write_operations d' = bookmark_write_operations d \<Longrightarrow>
   bookmark_write_audit_events d' = bookmark_write_audit_events d \<Longrightarrow> observation_frame a d d'"
  by (auto simp: observation_frame_def)

lemma content_frame_observation: "content_frame d d' \<Longrightarrow> observation_frame a d d'"
  by (cases d; cases d') (auto simp: content_frame_def intro!: observation_same_bookmarks)

lemma publish_frame_observation: "publish_frame d d' \<Longrightarrow> observation_frame a d d'"
  by (cases d; cases d') (auto simp: publish_frame_def intro!: observation_same_bookmarks)

lemma observed_bookmark_simps [simp]:
  "bm_key (observed_bookmark i a run t p) = (a, p)" "bm_account_id (observed_bookmark i a run t p) = a"
  "bm_post_id (observed_bookmark i a run t p) = p" "bm_active a (observed_bookmark i a run t p)"
  by (simp_all add: observed_bookmark_def bm_key_def bm_active_def)

lemma upsert_observed_observation: "within (observation_frame a) (upsert_observed_bookmark a run t p)"
  unfolding upsert_observed_bookmark_def
proof (rule observation.within_sql)
  fix now fresh x and d d' :: archive
  let ?new = "observed_bookmark (fresh 0) a run t p"
  assume "(if (a, p) \<notin> bm_key ` set (bookmarks d) \<and> fresh 0 \<in> bm_id ` set (bookmarks d) then None
       else Some ((), d\<lparr>bookmarks := upsert bm_key observed_merge ?new (bookmarks d)\<rparr>)) = Some (x, d')"
  then have d': "d' = d\<lparr>bookmarks := upsert bm_key observed_merge ?new (bookmarks d)\<rparr>"
    by (simp split: if_splits)
  show "observation_frame a d d'"
    unfolding observation_frame_def d'
    using observed_upsert.upsert_first_seen
    by (auto simp: observed_upsert.saved_posts_upsert observed_upsert.account_rows_upsert)
qed

lemma statements_observation:
  "within (observation_frame a) (load_state a')"
  "within (observation_frame a) (create_incremental_run a')"
  "within (observation_frame a) (exec SnapQuery (set_run run st fin))"
  "within (observation_frame a) (fetch_page src tok)"
  "within (observation_frame a) (record_observed run n)"
  "within (observation_frame a) (finish_run run fin2)"
  "within (observation_frame a) (exec SnapQuery (\<lambda>d. d\<lparr>bookmark_incremental_state := f d\<rparr>))"
  "within (observation_frame a) (i32_or_overflow n)"
proof -
  show "within (observation_frame a) (load_state a')"
    unfolding load_state_def by (rule observation.within_query)
  show "within (observation_frame a) (create_incremental_run a')"
    unfolding create_incremental_run_def insert_run_def
    by (rule observation.within_sql) (auto intro!: observation_same_bookmarks split: if_splits)
  show "within (observation_frame a) (exec SnapQuery (set_run run st fin))"
    by (rule observation.within_exec) (auto simp: set_run_def intro!: observation_same_bookmarks)
  show "within (observation_frame a) (fetch_page src tok)"
    by (simp add: within_def fetch_page_def observation.frame_refl)
  show "within (observation_frame a) (record_observed run n)"
    unfolding record_observed_def
    by (rule observation.within_sql) (auto intro!: observation_same_bookmarks split: if_splits)
  show "within (observation_frame a) (finish_run run fin2)"
    unfolding finish_run_def
    by (rule observation.within_sql)
      (auto simp: set_run_def intro!: observation_same_bookmarks split: option.splits)
  show "within (observation_frame a) (exec SnapQuery (\<lambda>d. d\<lparr>bookmark_incremental_state := f d\<rparr>))"
    by (rule observation.within_exec) (auto intro!: observation_same_bookmarks)
  show "within (observation_frame a) (i32_or_overflow n)"
    unfolding i32_or_overflow_def by (intro observation.within_intros)
qed

lemma reserve_observation: "within (observation_frame a) (reserve c g a' cost)"
  unfolding within_def
proof
  fix w
  obtain r w' where run: "reserve c g a' cost w = (r, w')" by fastforce
  from reserve_windows_only [OF this] show "observation_frame a (db w) (db (snd (reserve c g a' cost w)))"
    by (auto simp: run intro!: observation_same_bookmarks)
qed

lemma observe_page_observation: "within (observation_frame a) (observe_page E a run page newest)"
  unfolding observe_page_def Let_def persist_batch_def upsert_observed_bookmarks_def
  by (intro observation.within_intros statements_observation upsert_observed_observation
      persist_frame [THEN within_mono, OF content_frame_observation]
      publish_bookmark_sources_frame [THEN within_mono, OF publish_frame_observation])

lemma endings_observation:
  "within (observation_frame a) (mark_gap a' run)"
  "within (observation_frame a) (stop_run a' run oc)"
  "within (observation_frame a) (mark_incremental_failed run)"
  "within (observation_frame a) (complete_incremental_run run wm)"
  unfolding mark_gap_def stop_run_def mark_incremental_failed_def complete_incremental_run_def
  by (intro observation.within_intros statements_observation)+

lemma scan_loop_observation: "within (observation_frame a) (scan_loop E a run wm tok newest p q)"
proof (induction E a run wm tok newest p q rule: scan_loop.induct)
  case (1 E a run wm tok newest p q)
  have err: "within (observation_frame a) (case err of Exhausted t \<Rightarrow> m t | CostExceedsCap x y \<Rightarrow> k
      | InvalidConfiguration s \<Rightarrow> k | BudgetPersistence z \<Rightarrow> k)"
    if "\<And>t. within (observation_frame a) (m t)" "within (observation_frame a) k"
    for err and m :: "time \<Rightarrow> (snapshot_error, incremental_outcome) dbio" and k
    using that by (cases err) auto
  show ?case
    by (subst scan_loop.simps)
      (intro observation.within_intros endings_observation reserve_observation statements_observation
        observe_page_observation err 1; simp)
qed

section \<open>One turn of the loop\<close>

text \<open>
  A scan returns from its first turn through one of the five endings, or goes on from the world in which
  the page was observed.
\<close>

datatype scan_end = EndGap | EndCap | EndBudget | EndFailed snapshot_error | EndDone "string option"

fun ending :: "uuid \<Rightarrow> uuid \<Rightarrow> scan_end \<Rightarrow> (snapshot_error, incremental_outcome) dbio" where
  "ending a run EndGap = then_io (mark_gap a run) (ret (IncRequiresFullSnapshot run))"
| "ending a run EndCap = then_io (stop_run a run RequestCap) (ret (IncIncomplete run))"
| "ending a run EndBudget = then_io (stop_run a run BudgetExhausted) (ret (IncIncomplete run))"
| "ending a run (EndFailed e) = then_io (mark_incremental_failed run) (throw e)"
| "ending a run (EndDone wm) = then_io (complete_incremental_run run wm) (ret (IncCompleted run wm))"

lemma scan_loop_turn:
  assumes "scan_loop E a run watermark tok newest p q w = (r, w')"
  obtains (capped) k where "ending a run k w = (r, w')" "k = EndGap \<or> k = EndCap"
  | (refused) e w1 k where "reserve (se_chrono E) (se_gate E) a 1 w = (Inl e, w1)"
      "ending a run k w1 = (r, w')" "\<And>wm. k \<noteq> EndGap \<and> k \<noteq> EndDone wm"
      "p < ie_page_cap E" "q < ie_request_cap E"
  | (unavailable) x w1 where "reserve (se_chrono E) (se_gate E) a 1 w = (Inr x, w1)"
      "ending a run (EndFailed RunUnavailable) (advance w1) = (r, w')"
      "p < ie_page_cap E" "q < ie_request_cap E"
  | (failed) x w1 page e where "reserve (se_chrono E) (se_gate E) a 1 w = (Inr x, w1)"
      "observe_page E a run page newest (advance w1) = (Inl e, w')" "r = Inl e"
      "p < ie_page_cap E" "q < ie_request_cap E"
  | (last) x w1 page w2 reached newest' k where "reserve (se_chrono E) (se_gate E) a 1 w = (Inr x, w1)"
      "observe_page E a run page newest (advance w1) = (Inr (reached, newest'), w2)"
      "ending a run k w2 = (r, w')" "k = EndDone newest' \<or> k = EndFailed RunUnavailable"
      "p < ie_page_cap E" "q < ie_request_cap E"
  | (more) x w1 page w2 newest' where "reserve (se_chrono E) (se_gate E) a 1 w = (Inr x, w1)"
      "observe_page E a run page newest (advance w1) = (Inr (False, newest'), w2)"
      "scan_loop E a run watermark (page_next_token page) newest' (p + 1) (q + 1) w2 = (r, w')"
      "p < ie_page_cap E" "q < ie_request_cap E"
proof -
  note body = assms [unfolded scan_loop.simps [of E a run watermark tok newest p q]]
  obtain r1 w1 where r1: "reserve (se_chrono E) (se_gate E) a 1 w = (r1, w1)" by fastforce
  show ?thesis
  proof (cases "p \<ge> ie_page_cap E \<or> q \<ge> ie_request_cap E")
    case True
    with body have "ending a run EndGap w = (r, w') \<or> ending a run EndCap w = (r, w')"
      by (auto split: if_splits)
    then show ?thesis using capped by blast
  next
    case False
    then have lt: "p < ie_page_cap E" "q < ie_request_cap E" by auto
    show ?thesis
    proof (cases r1)
      case (Inl e)
      with body False r1 have "ending a run EndBudget w1 = (r, w')
          \<or> ending a run (EndFailed (SnapBudget e)) w1 = (r, w')"
        by (auto simp: bind_attempt split: budget_error.splits)
      then show ?thesis using refused r1 Inl lt by blast
    next
      case (Inr x)
      show ?thesis
      proof (cases "se_source E tok (tick w1)")
        case None
        with body False r1 Inr have "ending a run (EndFailed RunUnavailable) (advance w1) = (r, w')"
          by (simp add: bind_attempt bind_io_def [of "fetch_page _ _"] fetch_page_def)
        then show ?thesis using unavailable r1 Inr lt by blast
      next
        case (Some page)
        obtain o' w2 where ob: "observe_page E a run page newest (advance w1) = (o', w2)" by fastforce
        show ?thesis
        proof (cases o')
          case (Inl e)
          with body False r1 Inr Some ob have "r = Inl e" "w' = w2"
            by (simp_all add: bind_attempt bind_io_def [of "fetch_page _ _"] fetch_page_def
                bind_io_def [of "observe_page _ _ _ _ _"])
          then show ?thesis using failed r1 Inr ob Inl lt by blast
        next
          case o2: (Inr y)
          obtain reached newest' where y: "y = (reached, newest')" by (cases y)
          from body False r1 Inr Some ob o2 y
          have "(if reached \<or> watermark = None then ending a run (EndDone newest')
              else if page_next_token page = None then ending a run (EndFailed RunUnavailable)
              else scan_loop E a run watermark (page_next_token page) newest' (p + 1) (q + 1)) w2 = (r, w')"
            by (auto simp: bind_attempt bind_io_def [of "fetch_page _ _"] fetch_page_def
                bind_io_def [of "observe_page _ _ _ _ _"] split: if_splits)
          then consider k where "ending a run k w2 = (r, w')" "k = EndDone newest' \<or> k = EndFailed RunUnavailable"
            | "scan_loop E a run watermark (page_next_token page) newest' (p + 1) (q + 1) w2 = (r, w')" "\<not> reached"
            by (auto simp del: ending.simps split: if_splits)
          then show ?thesis
          proof cases
            case 1
            show ?thesis by (rule last [OF r1 [unfolded Inr] ob [unfolded o2 y] 1 lt])
          next
            case 2
            with ob o2 y have "observe_page E a run page newest (advance w1) = (Inr (False, newest'), w2)" by simp
            from more [OF r1 [unfolded Inr] this 2(1) lt] show ?thesis .
          qed
        qed
      qed
    qed
  qed
qed

section \<open>Requests of a scan\<close>

lemma scan_statements_windows:
  "within windows_frame (observe_page E a run page newest)"
  "within windows_frame (ending a run k)"
proof -
  have st: "within windows_frame (load_state a')" "within windows_frame (exec SnapQuery (set_run i s fin))"
    "within windows_frame (exec SnapQuery (\<lambda>d. d\<lparr>bookmark_incremental_state := f d\<rparr>))"
    "within windows_frame (upsert_observed_bookmark a' i t p)"
    "within windows_frame (record_observed i n)" "within windows_frame (i32_or_overflow n)"
    "within windows_frame (finish_run i t)" for a' i s fin f t p n
    unfolding load_state_def upsert_observed_bookmark_def record_observed_def i32_or_overflow_def finish_run_def
    by (auto intro!: windows.within_query windows.within_exec windows.within_sql windows.within_ret
        windows.within_throw simp: windows_frame_def set_run_def split: if_splits option.splits)
  show "within windows_frame (observe_page E a run page newest)"
    unfolding observe_page_def Let_def persist_batch_def upsert_observed_bookmarks_def
    by (intro windows.within_intros persist_windows publish_windows st)
  show "within windows_frame (ending a run k)"
    by (cases k) (auto simp: mark_gap_def stop_run_def mark_incremental_failed_def
        complete_incremental_run_def intro!: windows.within_intros st)
qed

lemma reserve_one_used:
  "reserve c g a 1 w = (r, w') \<Longrightarrow>
     used_in (db w') a g ws \<le> used_in (db w) a g ws + (case r of Inl _ \<Rightarrow> 0 | Inr _ \<Rightarrow> 1)"
  by (drule reserve_cases) (auto dest!: charge_Accepted simp: used_in_def)

lemma scan_loop_requests:
  "scan_loop E a run wm tok newest p q w = (r, w') \<Longrightarrow>
     used_in (db w') a (se_gate E) ws \<le> used_in (db w) a (se_gate E) ws
       + int (min (unat (ie_page_cap E) - unat p) (unat (ie_request_cap E) - unat q))"
proof (induction "unat (ie_page_cap E) - unat p" arbitrary: tok newest p q w rule: less_induct)
  case less
  note same = used_in_windows [OF withinD [OF scan_statements_windows(1)]]
    used_in_windows [OF withinD [OF scan_statements_windows(2)]]
  have room: "p < ie_page_cap E \<Longrightarrow> q < ie_request_cap E \<Longrightarrow>
      Suc (min (unat (ie_page_cap E) - unat (p + 1)) (unat (ie_request_cap E) - unat (q + 1)))
        = min (unat (ie_page_cap E) - unat p) (unat (ie_request_cap E) - unat q)"
    by (simp add: unat_plus_one word_less_nat_alt)
  from less(2) show ?case
  proof (cases rule: scan_loop_turn)
    case (capped k)
    with same(2) show ?thesis by (simp only: of_nat_0_le_iff add_increasing2 order.refl)
  next
    case (refused e w1 k)
    from reserve_one_used [OF refused(1), of ws] same(2) [OF refused(2)] show ?thesis by simp
  next
    case (unavailable x w1)
    from reserve_one_used [OF unavailable(1), of ws] same(2) [OF unavailable(2)] room unavailable(3,4)
    show ?thesis by simp
  next
    case (failed x w1 page e)
    from reserve_one_used [OF failed(1), of ws] same(1) [OF failed(2)] room failed(4,5)
    show ?thesis by simp
  next
    case (last x w1 page w2 reached newest' k)
    from reserve_one_used [OF last(1), of ws] same(1) [OF last(2)] same(2) [OF last(3)] room last(5,6)
    show ?thesis by simp
  next
    case (more x w1 page w2 newest')
    have "used_in (db w') a (se_gate E) ws \<le> used_in (db w2) a (se_gate E) ws
       + int (min (unat (ie_page_cap E) - unat (p + 1)) (unat (ie_request_cap E) - unat (q + 1)))"
      by (rule less(1) [OF _ more(3)]) (use more(4) in \<open>simp add: unat_plus_one word_less_nat_alt\<close>)
    with reserve_one_used [OF more(1), of ws] same(1) [OF more(2)] room more(4,5)
    show ?thesis by simp
  qed
qed

section \<open>Whose run it is\<close>

text \<open>The ledger of runs: which run identifiers exist and whose they are.\<close>

definition ledger :: "archive \<Rightarrow> (uuid \<times> uuid option) list" where
  "ledger d = map (\<lambda>r. (run_id r, run_account_id r)) (sync_runs d)"

definition ledger_frame :: "archive \<Rightarrow> archive \<Rightarrow> bool" where
  "ledger_frame d d' \<longleftrightarrow> ledger d' = ledger d
     \<and> bookmark_incremental_state d' = bookmark_incremental_state d"

interpretation ledger: frame ledger_frame
  by unfold_locales (auto simp: ledger_frame_def)

lemma ledger_update_where:
  "(\<And>r. run_id (f r) = run_id r \<and> run_account_id (f r) = run_account_id r) \<Longrightarrow>
     ledger (d\<lparr>sync_runs := update_where p f (sync_runs d)\<rparr>) = ledger d"
  by (simp add: ledger_def update_where_def)

lemma observe_page_ledger: "within ledger_frame (observe_page E a run page newest)"
proof -
  have "ledger_frame d d'" if "content_frame d d'" for d d'
    using that content_frame_runs [OF that]
    by (cases d; cases d') (simp add: ledger_frame_def ledger_def content_frame_def)
  note persist = persist_frame [THEN within_mono, OF this]
  have "ledger_frame d d'" if "publish_frame d d'" for d d'
    using that publish_frame_runs [OF that]
    by (cases d; cases d') (simp add: ledger_frame_def ledger_def publish_frame_def)
  note publish = publish_bookmark_sources_frame [THEN within_mono, OF this]
  have "within ledger_frame (load_state a')" "within ledger_frame (upsert_observed_bookmark a' i t p)"
    "within ledger_frame (record_observed i n)" "within ledger_frame (i32_or_overflow n)" for a' i t p n
    unfolding load_state_def upsert_observed_bookmark_def record_observed_def i32_or_overflow_def
    by (auto intro!: ledger.within_query ledger.within_sql ledger.within_ret ledger.within_throw
        simp: ledger_frame_def ledger_update_where split: if_splits) (simp_all add: ledger_def)
  then show ?thesis
    unfolding observe_page_def Let_def persist_batch_def upsert_observed_bookmarks_def
    by (intro ledger.within_intros persist publish)
qed

lemma reserve_ledger: "reserve c g a cost w = (r, w') \<Longrightarrow> ledger_frame (db w) (db w')"
  by (drule reserve_windows_only) (auto simp: ledger_frame_def ledger_def)

lemma ledger_lookup:
  "map_of (ledger d) run = map_option run_account_id (select_one (\<lambda>r. run_id r = run) (sync_runs d))"
proof -
  have "map_of (map (\<lambda>r. (run_id r, run_account_id r)) xs) run
      = map_option run_account_id (select_one (\<lambda>r. run_id r = run) xs)" for xs :: "sync_run list"
    by (induction xs) (auto simp: select_one_def)
  then show ?thesis by (simp add: ledger_def)
qed

lemma finish_run_Inr:
  assumes "finish_run run t w = (Inr a, w')"
  shows "map_of (ledger (db w)) run = Some (Some a) \<and> db w' = set_run run RunCompleted (Some t) (db w)"
  using assms by (auto simp: finish_run_def io_run ledger_lookup split: option.splits)

lemma stored_state_upsert:
  assumes "inc_account_id new = a" and "\<And>old. inc_account_id (merge new old) = inc_account_id old"
  shows "\<exists>s. stored_state a (d\<lparr>bookmark_incremental_state := upsert inc_account_id merge new (bookmark_incremental_state d)\<rparr>)
      = (inc_watermark_provider_post_id s, inc_requires_full_snapshot s)
    \<and> (s = new \<and> select_one (\<lambda>s. inc_account_id s = a) (bookmark_incremental_state d) = None
       \<or> (\<exists>old. s = merge new old
            \<and> select_one (\<lambda>s. inc_account_id s = a) (bookmark_incremental_state d) = Some old))"
proof -
  have "select_one (\<lambda>s. inc_account_id s = a) (upsert inc_account_id merge new xs) = Some
      (case select_one (\<lambda>s. inc_account_id s = a) xs of None \<Rightarrow> new | Some old \<Rightarrow> merge new old)" for xs
  proof (cases "select_one (\<lambda>s. inc_account_id s = a) xs")
    case None
    then have "inc_account_id new \<notin> inc_account_id ` set xs"
      using assms(1) by (auto simp: select_one_None)
    with None assms(1) show ?thesis
      by (simp add: upsert_def select_one_append) (simp add: select_one_def)
  next
    case (Some old)
    then have "a \<in> inc_account_id ` set xs" by (auto dest: select_one_Some)
    with Some assms show ?thesis
      using select_one_update_where [of xs "\<lambda>s. inc_account_id s = a" "\<lambda>s. inc_account_id s = a" "merge new"]
      by (auto simp: upsert_def update_where_def dest: select_one_Some)
  qed
  then show ?thesis
    by (cases "select_one (\<lambda>s. inc_account_id s = a) (bookmark_incremental_state d)")
      (auto simp: stored_state_def)
qed

lemma complete_incremental_run_Inr:
  assumes "complete_incremental_run run wm w = (Inr x, w')" and "map_of (ledger (db w)) run = Some (Some a)"
  shows "stored_state a (db w') = (wm, snd (stored_state a (db w)))"
proof -
  from assms(1) obtain t a' v w1 where f: "finish_run run t v = (Inr a', w1)" and v: "db v = db w"
    and d': "db w' = (db w1)\<lparr>bookmark_incremental_state := upsert inc_account_id completed_merge
             \<lparr>inc_account_id = a', inc_watermark_provider_post_id = wm,
              inc_requires_full_snapshot = False, inc_last_outcome = OCompleted,
              inc_last_incremental_run_id = Some run, inc_updated_at = t\<rparr>
             (bookmark_incremental_state (db w1))\<rparr>"
    by (auto simp: complete_incremental_run_def io_run)
  from finish_run_Inr [OF f] v assms(2) have a': "a' = a" and w1: "bookmark_incremental_state (db w1)
      = bookmark_incremental_state (db w)"
    by (auto simp: set_run_def)
  show ?thesis
    using stored_state_upsert [of "\<lparr>inc_account_id = a', inc_watermark_provider_post_id = wm,
              inc_requires_full_snapshot = False, inc_last_outcome = OCompleted,
              inc_last_incremental_run_id = Some run, inc_updated_at = t\<rparr>" a completed_merge "db w1"] a'
    by (auto simp: d' w1 stored_state_def completed_merge_def)
qed

lemma mark_gap_Inr:
  assumes "mark_gap a run w = (Inr x, w')"
  shows "snd (stored_state a (db w'))"
proof -
  let ?t = "clock (sched w) (tick w)"
  let ?d = "set_run run RunFailed (Some ?t) (db w)"
  let ?new = "\<lparr>inc_account_id = a, inc_watermark_provider_post_id = None,
      inc_requires_full_snapshot = True, inc_last_outcome = Gap,
      inc_last_incremental_run_id = Some run, inc_updated_at = ?t\<rparr>"
  from assms have d': "db w' = ?d\<lparr>bookmark_incremental_state :=
      upsert inc_account_id gap_merge ?new (bookmark_incremental_state ?d)\<rparr>"
    by (auto simp: mark_gap_def io_run)
  show ?thesis
    using stored_state_upsert [of ?new a gap_merge ?d] by (auto simp: d' gap_merge_def)
qed

lemma scan_loop_gap:
  "scan_loop E a run wm tok newest p q w = (Inr (IncRequiresFullSnapshot run'), w') \<Longrightarrow>
     snd (stored_state a (db w'))"
proof (induction "unat (ie_page_cap E) - unat p" arbitrary: tok newest p q w rule: less_induct)
  case less
  have ends: "k = EndGap" if "ending a run k v = (Inr (IncRequiresFullSnapshot run'), w')" for k v
    using that by (cases k) (auto simp: io_run)
  from less(2) show ?case
  proof (cases rule: scan_loop_turn)
    case (capped k)
    with ends [OF capped(1)] show ?thesis by (auto simp: io_run intro: mark_gap_Inr)
  next
    case (refused e w1 k)
    with ends [OF refused(2)] show ?thesis by auto
  next
    case (unavailable x w1)
    with ends [OF unavailable(2)] show ?thesis by auto
  next
    case (last x w1 page w2 reached newest' k)
    with ends [OF last(3)] show ?thesis by auto
  next
    case (more x w1 page w2 newest')
    from less(1) [OF _ more(3)] more(4) show ?thesis by (simp add: unat_plus_one word_less_nat_alt)
  qed auto
qed

lemma scan_loop_done:
  "scan_loop E a run wm tok newest p q w = (Inr (IncCompleted run' m), w') \<Longrightarrow>
     map_of (ledger (db w)) run = Some (Some a) \<Longrightarrow>
     run' = run \<and> stored_state a (db w') = (m, snd (stored_state a (db w)))"
proof (induction "unat (ie_page_cap E) - unat p" arbitrary: tok newest p q w rule: less_induct)
  case less
  have ends: "run' = run \<and> k = EndDone m \<and> complete_incremental_run run m v = (Inr (), w')"
    if "ending a run k v = (Inr (IncCompleted run' m), w')" for k v
    using that by (cases k) (auto simp: io_run)
  from less(2) show ?case
  proof (cases rule: scan_loop_turn)
    case (capped k)
    with ends [OF capped(1)] show ?thesis by auto
  next
    case (refused e w1 k)
    with ends [OF refused(2)] show ?thesis by auto
  next
    case (unavailable x w1)
    with ends [OF unavailable(2)] show ?thesis by auto
  next
    case (last x w1 page w2 reached newest' k)
    have "ledger (db w2) = ledger (db w) \<and> stored_state a (db w2) = stored_state a (db w)"
      using withinD [OF observe_page_ledger last(2)] reserve_ledger [OF last(1)]
      by (simp add: ledger_frame_def stored_state_def)
    with ends [OF last(3)] less(3) complete_incremental_run_Inr show ?thesis by fastforce
  next
    case (more x w1 page w2 newest')
    have "ledger (db w2) = ledger (db w) \<and> stored_state a (db w2) = stored_state a (db w)"
      using withinD [OF observe_page_ledger more(2)] reserve_ledger [OF more(1)]
      by (simp add: ledger_frame_def stored_state_def)
    with less(1) [OF _ more(3)] more(4) less(3) show ?thesis by (simp add: unat_plus_one word_less_nat_alt)
  qed auto
qed

lemma insert_run_ledger:
  assumes "insert_run a kind w = (Inr i, w')"
  shows "map_of (ledger (db w')) i = Some (Some a)"
  using assms
  by (auto simp: insert_run_def io_run insert_unique_Some ledger_def map_of_append map_add_def
      split: if_splits option.splits dest!: map_of_SomeD)

section \<open>Properties\<close>

definition demo_scan_env :: "page_source \<Rightarrow> u32 \<Rightarrow> incremental_env" where
  "demo_scan_env src cap = \<lparr>se_contracts = demo_contracts, se_parse = demo_parse, se_chrono = demo_chrono,
     se_gate = demo_gate, se_source = src, ie_page_cap = cap, ie_request_cap = 5\<rparr>"

definition demo_watermark :: "string \<Rightarrow> incremental_state" where
  "demo_watermark m = \<lparr>inc_account_id = 7, inc_watermark_provider_post_id = Some m,
     inc_requires_full_snapshot = False, inc_last_outcome = OCompleted,
     inc_last_incremental_run_id = None, inc_updated_at = 0\<rparr>"

lemmas scan_eval = run_incremental_def load_state_def stored_state_def create_incremental_run_def
  scan_loop.simps observe_page_def upsert_observed_bookmarks_def upsert_observed_bookmark_def
  observed_bookmark_def observed_merge_def record_observed_def newest_seen_def reaches_def
  complete_incremental_run_def finish_run_def mark_incremental_failed_def mark_gap_def stop_run_def
  demo_scan_env_def demo_watermark_def demo_endless_def demo_source_once_def stage_eval publish_eval run_eval demo_saved_def
  demo_bookmark_def bm_key_def i32_or_overflow_def Let_def

definition demo_scan :: "(snapshot_error + incremental_outcome) \<times> archive world" where
  "demo_scan = run_incremental (demo_scan_env demo_source_once 3) 7 (demo_world demo_saved)"

definition demo_gap :: "(snapshot_error + incremental_outcome) \<times> archive world" where
  "demo_gap = run_incremental (demo_scan_env demo_endless 1) 7
     (demo_world (demo_saved\<lparr>bookmark_incremental_state := [demo_watermark ''0'']\<rparr>))"

lemma demo_scan_ok: "demo_scan = (Inr (IncCompleted 1000 (Some ''1'')), snd demo_scan)"
proof -
  have "fst demo_scan = Inr (IncCompleted 1000 (Some ''1''))"
    unfolding demo_scan_def by (simp add: scan_eval)
  then show ?thesis by (simp add: prod_eq_iff)
qed

lemma demo_gap_ok: "demo_gap = (Inr (IncRequiresFullSnapshot 1000), snd demo_gap)"
proof -
  have "fst demo_gap = Inr (IncRequiresFullSnapshot 1000)"
    unfolding demo_gap_def by (simp add: scan_eval)
  then show ?thesis by (simp add: prod_eq_iff)
qed

text \<open>
  C14. An incremental scan only observes. Whatever it returns, the scan removes no saved post of any account,
  leaves the bookmarks of other accounts untouched, keeps the identity and first observation of every
  bookmark, and neither writes the snapshot authority nor the snapshots, the repairs or the uncertain
  writes: absence is left to complete snapshots.
\<close>

theorem incremental_only_observes:
  assumes "run_incremental E a w = (r, w')"
  shows "saved_posts a (bookmarks (db w)) \<subseteq> saved_posts a (bookmarks (db w'))
    \<and> (\<forall>a'. a' \<noteq> a \<longrightarrow> filter (\<lambda>b. bm_account_id b = a') (bookmarks (db w'))
           = filter (\<lambda>b. bm_account_id b = a') (bookmarks (db w)))
    \<and> (\<forall>b \<in> set (bookmarks (db w)). \<exists>b' \<in> set (bookmarks (db w')). bm_id b' = bm_id b \<and> bm_key b' = bm_key b
           \<and> bm_first_observed_saved_at b' = bm_first_observed_saved_at b)
    \<and> bookmark_snapshot_authority (db w') = bookmark_snapshot_authority (db w)
    \<and> snapshots (db w') = snapshots (db w)
    \<and> bookmark_reconciliation_repairs (db w') = bookmark_reconciliation_repairs (db w)
    \<and> bookmark_write_operations (db w') = bookmark_write_operations (db w)"
proof -
  have "within (observation_frame a) (run_incremental E a)"
    unfolding run_incremental_def
    by (intro observation.within_intros statements_observation scan_loop_observation)
  from withinD [OF this assms] show ?thesis by (simp add: observation_frame_def)
qed

theorem incremental_only_observes_witness:
  "{90, 91} \<subseteq> saved_posts 7 (bookmarks (db (snd demo_scan)))"
proof -
  have "saved_posts 7 (bookmarks (db (demo_world demo_saved))) = {90, 91}"
    by (auto simp: demo_world_def demo_saved_def demo_bookmark_def saved_posts_iff bm_key_def)
  with incremental_only_observes [OF demo_scan_ok [unfolded demo_scan_def]] show ?thesis
    by (simp add: demo_scan_def)
qed

text \<open>
  A scan is bounded by both caps. Whatever the provider returns, one scan charges at most the smaller of
  the page cap and the request cap to any budget window of its account (and so calls the provider at most that
  often). The scan needs no fuel: the loop terminates by the page cap.
\<close>

theorem incremental_requests_bounded:
  assumes "run_incremental E a w = (r, w')"
  shows "used_in (db w') a (se_gate E) ws
    \<le> used_in (db w) a (se_gate E) ws + int (min (unat (ie_page_cap E)) (unat (ie_request_cap E)))"
proof -
  have st: "within windows_frame (load_state a)" "within windows_frame (create_incremental_run a)"
    unfolding load_state_def create_incremental_run_def insert_run_def
    by (auto intro!: windows.within_query windows.within_sql simp: windows_frame_def split: if_splits)
  obtain q w1 where q: "load_state a w = (q, w1)" by fastforce
  note u1 = used_in_windows [OF withinD [OF st(1) q], of a "se_gate E" ws]
  show ?thesis
  proof (cases "\<exists>wm. q = Inr (wm, False)")
    case False
    then have "w' = w1"
      using assms q
      by (cases q) (auto simp: run_incremental_def bind_io_def throw_def split: prod.splits if_splits)
    with u1 show ?thesis by simp
  next
    case True
    then obtain wm where wm: "q = Inr (wm, False)" by blast
    obtain c w2 where c: "create_incremental_run a w1 = (c, w2)" by fastforce
    note u2 = used_in_windows [OF withinD [OF st(2) c], of a "se_gate E" ws]
    show ?thesis
    proof (cases c)
      case (Inl e)
      with assms q wm c have "w' = w2" by (simp add: run_incremental_def bind_io_def)
      with u1 u2 show ?thesis by simp
    next
      case (Inr run)
      with assms q wm c have "scan_loop E a run wm None None 0 0 w2 = (r, w')"
        by (simp add: run_incremental_def bind_io_def)
      from scan_loop_requests [OF this, of ws] u1 u2 show ?thesis by simp
    qed
  qed
qed

theorem incremental_requests_bounded_witness:
  "used_in (db (snd demo_gap)) 7 demo_gate 1800000000 \<le> 1"
proof -
  let ?w = "demo_world (demo_saved\<lparr>bookmark_incremental_state := [demo_watermark ''0'']\<rparr>)"
  have "used_in (db ?w) 7 demo_gate 1800000000 = 0"
    by (simp add: used_in_def usage_def demo_defs demo_saved_def empty_archive_def select_one_def)
  moreover have "se_gate (demo_scan_env demo_endless 1) = demo_gate"
    "min (unat (ie_page_cap (demo_scan_env demo_endless 1))) (unat (ie_request_cap (demo_scan_env demo_endless 1))) = 1"
    by (simp_all add: demo_scan_env_def)
  ultimately show ?thesis
    using incremental_requests_bounded [OF demo_gap_ok [unfolded demo_gap_def], of 1800000000]
    by (simp add: demo_gap_def)
qed

text \<open>
  A gap blocks further incremental scans. After a scan that could not reach its watermark within the page
  cap, the scheduler selects a full snapshot for the account, and starting another incremental scan is refused
  without changing the archive.
\<close>

theorem gap_requires_full_snapshot:
  assumes "run_incremental E a w = (Inr (IncRequiresFullSnapshot run), w1)" and "db w2 = db w1"
  shows "(scheduled_scan SCHEDULED_BOOKMARK_SCAN_COMMAND a w2 = (Inr k, w3) \<longrightarrow> k = ScanFullSnapshot)
    \<and> (run_incremental E' a w2 = (r, w4) \<longrightarrow> (\<exists>e. r = Inl e) \<and> db w4 = db w2)"
proof -
  from assms(1) obtain rn wm v where "scan_loop E a rn wm None None 0 0 v = (Inr (IncRequiresFullSnapshot run), w1)"
    by (auto simp: run_incremental_def io_run split: if_splits)
  from scan_loop_gap [OF this] have gap: "snd (stored_state a (db w2))" by (simp add: assms(2))
  have "scheduled_scan SCHEDULED_BOOKMARK_SCAN_COMMAND a w2 = (Inr k, w3) \<longrightarrow> k = ScanFullSnapshot"
    using gap by (auto simp: scheduled_scan_def load_state_def io_run split: prod.splits)
  moreover have "run_incremental E' a w2 = (r, w4) \<longrightarrow> (\<exists>e. r = Inl e) \<and> db w4 = db w2"
    using gap by (auto simp: run_incremental_def load_state_def query_def sql_def bind_io_def throw_def
        split: prod.splits if_splits)
  ultimately show ?thesis by blast
qed

theorem gap_requires_full_snapshot_witness:
  "fst (scheduled_scan SCHEDULED_BOOKMARK_SCAN_COMMAND 7 (snd demo_gap)) = Inr ScanFullSnapshot"
proof -
  obtain k w3 where k: "scheduled_scan SCHEDULED_BOOKMARK_SCAN_COMMAND 7 (snd demo_gap) = (Inr k, w3)"
  proof -
    have "\<not> fault_now (snd demo_gap)"
      unfolding demo_gap_def by (simp add: scan_eval)
    then show ?thesis
      using that by (simp add: scheduled_scan_def load_state_def query_def sql_def bind_io_def ret_def
          case_prod_beta)
  qed
  with gap_requires_full_snapshot [OF demo_gap_ok [unfolded demo_gap_def] refl, of k w3] show ?thesis
    by (simp add: demo_gap_def)
qed

text \<open>
  A completed scan stores the watermark it reports: after \<^verbatim>\<open>Completed\<close> the account's stored watermark is the
  reported one, the flag that demands a full snapshot is still clear, and so the next scheduled command is an
  incremental scan from that watermark.
\<close>

theorem completed_scan_stores_watermark:
  assumes "run_incremental E a w = (Inr (IncCompleted run wm), w')"
  shows "stored_state a (db w') = (wm, False)"
proof -
  from assms obtain rn m v v' where ld: "load_state a w = (Inr (m, False), v)"
    and cr: "create_incremental_run a v = (Inr rn, v')"
    and loop: "scan_loop E a rn m None None 0 0 v' = (Inr (IncCompleted run wm), w')"
    by (auto simp: run_incremental_def io_run split: if_splits)
  have "stored_state a (db v) = (m, False)"
    using ld by (auto simp: load_state_def io_run)
  moreover have "stored_state a (db v') = stored_state a (db v)"
    using cr by (auto simp: create_incremental_run_def insert_run_def io_run stored_state_def split: if_splits)
  ultimately show ?thesis
    using scan_loop_done [OF loop insert_run_ledger [OF cr [unfolded create_incremental_run_def]]] by simp
qed

theorem completed_scan_stores_watermark_witness:
  "stored_state 7 (db (snd demo_scan)) = (Some ''1'', False)"
  using completed_scan_stores_watermark [OF demo_scan_ok [unfolded demo_scan_def]]
  by (simp add: demo_scan_def)

text \<open>
  C40. The watermark is the least provider identifier of the first page. The first page of a scan is observed
  with no newest identifier yet; the identifier it then reports as the newest one is the first of the
  normalized posts, which are sorted, so it is a lower bound of the page's identifiers and not the newest one.
\<close>

theorem watermark_is_least_of_first_page:
  assumes "observe_page E a run page None w = (Inr (reached, newest), w')"
  shows "\<exists>m. newest = Some m \<and> m \<in> set (map (str_or_default \<circ> po_id) (env_data (page_envelope page)))
    \<and> (\<forall>i \<in> set (map (str_or_default \<circ> po_id) (env_data (page_envelope page))). m \<le> i)"
proof -
  from assms obtain b where b: "normalize (se_parse E) (page_envelope page) = Inr b"
    and n: "newest = newest_seen None (map np_provider_id (nb_posts b))"
    by (auto simp: observe_page_def io_run Let_def split: prod.splits)
  have ids: "set (map np_provider_id (nb_posts b)) = set (map (str_or_default \<circ> po_id) (env_data (page_envelope page)))"
    using normalize_batch_closed [OF b] by (metis mset_eq_setD)
  have sorted: "sorted (map np_provider_id (nb_posts b))"
    by (rule normalize_Inr [OF b]) (simp add: sort_batch_def)
  have "env_data (page_envelope page) \<noteq> []"
    using b by (auto simp: normalize_def validate_def)
  with ids obtain x xs where x: "map np_provider_id (nb_posts b) = x # xs"
    by (cases "map np_provider_id (nb_posts b)") auto
  with sorted have "\<forall>i \<in> set (map np_provider_id (nb_posts b)). x \<le> i" by auto
  moreover have "newest = Some x" by (simp add: n newest_seen_def x)
  moreover have "x \<in> set (map np_provider_id (nb_posts b))" by (simp add: x)
  ultimately show ?thesis unfolding ids by blast
qed

theorem watermark_is_least_of_first_page_witness:
  "\<exists>w' reached. observe_page (demo_scan_env demo_source_once 3) 7 5 (demo_page [''1''] None) None (demo_world demo_saved)
      = (Inr (reached, Some ''1''), w')"
proof -
  let ?o = "observe_page (demo_scan_env demo_source_once 3) 7 5 (demo_page [''1''] None) None (demo_world demo_saved)"
  have "\<exists>reached newest. fst ?o = Inr (reached, newest)"
    by (intro exI [of _ False]) (simp add: scan_eval)
  then obtain reached newest where o1: "fst ?o = Inr (reached, newest)" by blast
  then have eq: "?o = (Inr (reached, newest), snd ?o)" by (simp add: prod_eq_iff)
  have "map (str_or_default \<circ> po_id) (env_data (page_envelope (demo_page [''1''] None))) = [''1'']"
    by (simp add: demo_page_def demo_envelope_def demo_post_def str_or_default_def)
  with watermark_is_least_of_first_page [OF eq] eq show ?thesis by auto
qed

end
