(* ===== verification/Article_Urls.thy ===== *)
theory Article_Urls
  imports Articles
begin

text \<open>
  The canonical form of external URLs: normalization is idempotent, its results are external
  HTTP(S) URLs without fragment, and the selection of a post's links is duplicate-free and complete.
\<close>

section \<open>Splitting and joining\<close>

lemma starts_with_single: "starts_with [c] s \<longleftrightarrow> s \<noteq> [] \<and> hd s = c"
  by (cases s) (auto simp: starts_with_def)

lemma split_once_char:
  "split_once [c] s = (if c \<in> set s then Some (takeWhile (\<lambda>x. x \<noteq> c) s, tl (dropWhile (\<lambda>x. x \<noteq> c) s)) else None)"
  by (induction s) (auto simp: starts_with_single)

lemma split_once_first:
  "c \<notin> set a \<Longrightarrow> split_once (c # sep) (a @ (c # sep) @ b) = Some (a, b)"
proof (induction a)
  case (Cons x a)
  then have "\<not> starts_with (c # sep) (x # a @ c # sep @ b)" by (auto simp: starts_with_def)
  with Cons show ?case by simp
qed (simp add: starts_with_def)

lemma takeWhile_stop:
  "(\<And>c. c \<in> set a \<Longrightarrow> P c) \<Longrightarrow> b \<noteq> [] \<Longrightarrow> \<not> P (hd b) \<Longrightarrow>
     takeWhile P (a @ b) = a \<and> dropWhile P (a @ b) = b"
  by (cases b) auto

lemma takeWhile_tl_dropWhile_app:
  "c \<notin> set a \<Longrightarrow> takeWhile (\<lambda>x. x \<noteq> c) (a @ c # b) = a \<and> tl (dropWhile (\<lambda>x. x \<noteq> c) (a @ c # b)) = b"
  by (induction a) auto

lemma rsplit_once_last:
  "c \<notin> set b \<Longrightarrow> rsplit_once_char c (a @ c # b) = Some (a, b)"
  using takeWhile_tl_dropWhile_app [of c "rev b" "rev a"]
  by (auto simp: rsplit_once_char_def split_once_char)

lemma rsplit_once_none: "c \<notin> set s \<Longrightarrow> rsplit_once_char c s = None"
  by (simp add: rsplit_once_char_def split_once_char)

lemma split_on_parts: "p \<in> set (split_on c s) \<Longrightarrow> c \<notin> set p \<and> set p \<subseteq> set s"
proof (induction s arbitrary: p)
  case (Cons x xs)
  then show ?case
    by (cases "split_on c xs") (auto split: if_splits, blast+)
qed simp

lemma split_on_no_sep: "c \<notin> set p \<Longrightarrow> split_on c p = [p]"
  by (induction p) auto

lemma split_on_app: "c \<notin> set p \<Longrightarrow> split_on c (p @ c # rest) = p # split_on c rest"
  by (induction p) auto

lemma split_on_join:
  "ps \<noteq> [] \<Longrightarrow> (\<And>p. p \<in> set ps \<Longrightarrow> c \<notin> set p) \<Longrightarrow> split_on c (join_with [c] ps) = ps"
  by (induction "[c]" ps rule: join_with.induct) (auto simp: split_on_no_sep split_on_app)

lemma set_join_with: "set (join_with sep ps) \<subseteq> set sep \<union> \<Union> (set ` set ps)"
  by (induction sep ps rule: join_with.induct) auto

section \<open>Ports and hosts\<close>

lemma of_char_char_of [simp]: "(of_char (char_of n :: char) :: nat) = n mod 256"
  by simp

lemma show_nat_digits: "list_all is_digit (show_nat n) \<and> show_nat n \<noteq> [] \<and> nat_of_digits (show_nat n) = n"
proof (induction n rule: show_nat.induct)
  case (1 n)
  show ?case
  proof (cases "n < 10")
    case True
    then show ?thesis
      by (simp add: show_nat.simps [of n] is_digit_def nat_of_digits_def digit_value_def)
  next
    case False
    with 1 show ?thesis
      by (simp add: show_nat.simps [of n] is_digit_def nat_of_digits_def digit_value_def)
  qed
qed

lemma digit_not_special:
  "is_digit c \<Longrightarrow> c \<noteq> CHR ''+'' \<and> c \<noteq> CHR '':'' \<and> \<not> authority_stop c \<and> c \<noteq> CHR ''@''
     \<and> \<not> is_whitespace_or_control c"
  by (auto simp: is_digit_def authority_stop_def is_whitespace_or_control_def)

lemma show_nat_not_special:
  "c \<in> set (show_nat n) \<Longrightarrow> c \<noteq> CHR ''+'' \<and> c \<noteq> CHR '':'' \<and> \<not> authority_stop c \<and> c \<noteq> CHR ''@''
     \<and> \<not> is_whitespace_or_control c"
  using show_nat_digits [of n] digit_not_special by (auto simp: list_all_iff)

lemma parse_show_nat: "n < 65536 \<Longrightarrow> parse_u16 (show_nat n) = Some n"
  using show_nat_digits [of n] show_nat_not_special [of _ n]
  by (cases "show_nat n") (auto simp: parse_u16_def Let_def)

definition host_char :: "char \<Rightarrow> bool" where
  "host_char c \<longleftrightarrow> is_alphanumeric c \<or> c = CHR ''.'' \<or> c = CHR ''-''"

definition host_ok :: "string \<Rightarrow> bool" where
  "host_ok h \<longleftrightarrow> h \<noteq> [] \<and> list_all host_char h \<and> to_ascii_lowercase h = h"

lemma lower_char_idem [simp]: "lower_char (lower_char c) = lower_char c"
  by (auto simp: lower_char_def is_upper_def)

lemma lower_char_host: "host_char c \<Longrightarrow> host_char (lower_char c)"
  by (auto simp: host_char_def lower_char_def is_alphanumeric_def is_upper_def is_lower_def is_digit_def)

lemma to_ascii_lowercase_host: "h \<noteq> [] \<Longrightarrow> list_all host_char h \<Longrightarrow> host_ok (to_ascii_lowercase h)"
  by (auto simp: host_ok_def to_ascii_lowercase_def list_all_iff lower_char_host)

lemma host_char_not_special:
  "host_char c \<Longrightarrow> c \<noteq> CHR '':'' \<and> \<not> authority_stop c \<and> c \<noteq> CHR ''@'' \<and> c \<noteq> CHR ''[''
     \<and> \<not> is_whitespace_or_control c"
  by (auto simp: host_char_def is_alphanumeric_def is_upper_def is_lower_def is_digit_def authority_stop_def
      is_whitespace_or_control_def)

lemma host_ok_char: "host_ok h \<Longrightarrow> c \<in> set h \<Longrightarrow> c \<noteq> CHR '':'' \<and> \<not> authority_stop c \<and> c \<noteq> CHR ''@''
     \<and> c \<noteq> CHR ''['' \<and> \<not> is_whitespace_or_control c"
  using host_char_not_special by (auto simp: host_ok_def list_all_iff)

lemma parse_u16_bound: "parse_u16 s = Some p \<Longrightarrow> p < 65536"
  by (auto simp: parse_u16_def Let_def split: if_splits)

lemma split_host_and_port_Some:
  "split_host_and_port a = Some (h, p) \<Longrightarrow> host_ok h \<and> (\<forall>q. p = Some q \<longrightarrow> q < 65536)"
  by (auto simp: split_host_and_port_def host_char_def [symmetric] parse_u16_bound
      intro: to_ascii_lowercase_host split: option.splits if_splits prod.splits)

definition show_authority :: "string \<Rightarrow> nat option \<Rightarrow> string" where
  "show_authority h p = (case p of None \<Rightarrow> h | Some q \<Rightarrow> h @ '':'' @ show_nat q)"

lemma split_show_authority:
  assumes "host_ok h" and "\<And>q. p = Some q \<Longrightarrow> q < 65536"
  shows "split_host_and_port (show_authority h p) = Some (h, p)"
proof -
  have h: "CHR '':'' \<notin> set h" "h \<noteq> []" "list_all (\<lambda>c. is_alphanumeric c \<or> c = CHR ''.'' \<or> c = CHR ''-'') h"
    "to_ascii_lowercase h = h"
    using assms(1) host_ok_char by (auto simp: host_ok_def list_all_iff host_char_def)
  show ?thesis
  proof (cases p)
    case None
    with h show ?thesis by (simp add: show_authority_def split_host_and_port_def rsplit_once_none)
  next
    case (Some q)
    have "CHR '':'' \<notin> set (show_nat q)" using show_nat_not_special by blast
    with Some h assms(2) show_nat_digits [of q] show ?thesis
      by (simp add: show_authority_def split_host_and_port_def rsplit_once_last parse_show_nat)
  qed
qed

lemma show_authority_char:
  assumes "host_ok h" and "c \<in> set (show_authority h p)"
  shows "\<not> authority_stop c \<and> c \<noteq> CHR ''@'' \<and> \<not> is_whitespace_or_control c"
  using assms host_ok_char show_nat_not_special
  by (fastforce simp: show_authority_def authority_stop_def is_whitespace_or_control_def split: option.splits)

lemma show_authority_hd: "host_ok h \<Longrightarrow> show_authority h p \<noteq> [] \<and> hd (show_authority h p) \<noteq> CHR ''[''"
  by (cases h) (auto simp: host_ok_def show_authority_def dest: host_char_not_special split: option.split)

section \<open>The canonical form\<close>

lemma strip_fragment_no_hash: "CHR ''#'' \<notin> set (strip_fragment s) \<and> set (strip_fragment s) \<subseteq> set s"
  by (auto simp: strip_fragment_def split_once_char dest: set_takeWhileD)

lemma strip_fragment_id: "CHR ''#'' \<notin> set s \<Longrightarrow> strip_fragment s = s"
  by (simp add: strip_fragment_def split_once_char)

lemma split_query_parts:
  "split_query s = (p, q) \<Longrightarrow> CHR ''?'' \<notin> set p \<and> set p \<subseteq> set s \<and> (\<forall>r. q = Some r \<longrightarrow> set r \<subseteq> set s)"
  by (auto simp: split_query_def split_once_char dest: set_takeWhileD split: if_splits)
    (metis list.sel(2) list.set_sel(2) set_dropWhileD)

lemma split_query_app:
  "CHR ''?'' \<notin> set p \<Longrightarrow> split_query (p @ (case q of None \<Rightarrow> [] | Some r \<Rightarrow> ''?'' @ r)) = (p, q)"
  using takeWhile_tl_dropWhile_app [of "CHR ''?''" p]
  by (auto simp: split_query_def split_once_char split: option.split)

lemma canonical_query_Some:
  assumes "canonical_query q = Some r"
  obtains q' ps where "q = Some q'" "ps \<noteq> []" "r = join_with ''&'' ps" "sorted ps"
    "\<And>p. p \<in> set ps \<Longrightarrow> p \<in> set (split_on CHR ''&'' q') \<and> p \<noteq> [] \<and> \<not> is_tracking_key (component_key p)"
proof -
  from assms obtain q' where q: "q = Some q'" by (auto simp: canonical_query_def split: option.splits)
  let ?ps = "sort (filter (\<lambda>part. part \<noteq> [] \<and> \<not> is_tracking_key (component_key part)) (split_on CHR ''&'' q'))"
  from assms q have "?ps \<noteq> []" "r = join_with ''&'' ?ps"
    by (auto simp: canonical_query_def Let_def split: if_splits)
  then show ?thesis by (rule that [OF q]) auto
qed

lemma canonical_query_idem:
  assumes "canonical_query q = Some r"
  shows "canonical_query (Some r) = Some r"
proof (rule canonical_query_Some [OF assms])
  fix q' ps
  assume ps: "ps \<noteq> []" "r = join_with ''&'' ps" "sorted ps"
    and parts: "\<And>p. p \<in> set ps \<Longrightarrow> p \<in> set (split_on CHR ''&'' q') \<and> p \<noteq> [] \<and> \<not> is_tracking_key (component_key p)"
  have "split_on CHR ''&'' r = ps"
    unfolding ps(2) by (rule split_on_join [OF ps(1)]) (use parts split_on_parts in blast)
  moreover have "filter (\<lambda>part. part \<noteq> [] \<and> \<not> is_tracking_key (component_key part)) ps = ps"
    using parts by (simp add: filter_id_conv)
  ultimately show "canonical_query (Some r) = Some r"
    using ps by (simp add: canonical_query_def sort_key_id_if_sorted)
qed

lemma canonical_query_chars: "canonical_query q = Some r \<Longrightarrow> q = Some q' \<Longrightarrow> set r \<subseteq> insert CHR ''&'' (set q')"
proof (rule canonical_query_Some, assumption)
  fix q2 ps
  assume q: "q = Some q'" "q = Some q2" and r: "r = join_with ''&'' ps"
    and parts: "\<And>p. p \<in> set ps \<Longrightarrow> p \<in> set (split_on CHR ''&'' q2) \<and> p \<noteq> [] \<and> \<not> is_tracking_key (component_key p)"
  have "\<Union> (set ` set ps) \<subseteq> set q'" using parts split_on_parts q by fastforce
  then have "set ''&'' \<union> \<Union> (set ` set ps) \<subseteq> insert CHR ''&'' (set q')" by auto
  with set_join_with [of "''&''" ps] show "set r \<subseteq> insert CHR ''&'' (set q')"
    unfolding r by (rule order.trans)
qed

definition show_url :: "string \<Rightarrow> string \<Rightarrow> nat option \<Rightarrow> string \<Rightarrow> string option \<Rightarrow> string" where
  "show_url scheme h p path q =
     scheme @ ''://'' @ show_authority h p @ path @ (case q of None \<Rightarrow> [] | Some r \<Rightarrow> ''?'' @ r)"

definition canonical_parts ::
  "string \<Rightarrow> string \<Rightarrow> nat option \<Rightarrow> string \<Rightarrow> string option \<Rightarrow> bool" where
  "canonical_parts scheme h p path q \<longleftrightarrow>
     (scheme = ''http'' \<or> scheme = ''https'') \<and> host_ok h \<and> \<not> is_x_host h
     \<and> (\<forall>n. p = Some n \<longrightarrow> n < 65536 \<and> \<not> (scheme = ''http'' \<and> n = 80) \<and> \<not> (scheme = ''https'' \<and> n = 443))
     \<and> path \<noteq> [] \<and> hd path = CHR ''/'' \<and> CHR ''?'' \<notin> set path \<and> CHR ''#'' \<notin> set path
     \<and> list_all (\<lambda>c. \<not> is_whitespace_or_control c) path
     \<and> (\<forall>r. q = Some r \<longrightarrow> canonical_query (Some r) = Some r \<and> CHR ''#'' \<notin> set r
          \<and> list_all (\<lambda>c. \<not> is_whitespace_or_control c) r)
     \<and> canonical_query q = q"

text \<open>A URL in canonical form is its own normal form.\<close>

lemma normalize_show_url:
  assumes "canonical_parts scheme h p path q"
  shows "normalize_external_url (show_url scheme h p path q) = Some (show_url scheme h p path q)"
proof -
  let ?tail = "path @ (case q of None \<Rightarrow> [] | Some r \<Rightarrow> ''?'' @ r)"
  let ?auth = "show_authority h p"
  note c = assms [unfolded canonical_parts_def]
  have sch: "CHR '':'' \<notin> set scheme" "to_ascii_lowercase scheme = scheme"
    "list_all (\<lambda>c. \<not> is_whitespace_or_control c) scheme"
    using c by (auto simp: to_ascii_lowercase_def lower_char_def is_upper_def is_whitespace_or_control_def)
  have h: "host_ok h" using c by blast
  have url: "show_url scheme h p path q = scheme @ (CHR '':'' # ''//'') @ ?auth @ ?tail"
    by (simp add: show_url_def)
  have ne: "show_url scheme h p path q \<noteq> []" by (simp add: show_url_def)
  have tl: "?tail \<noteq> []" "authority_stop (hd ?tail)" using c by (auto simp: authority_stop_def)
  have nws: "\<not> list_ex is_whitespace_or_control (show_url scheme h p path q)"
    using sch(3) c show_authority_char [OF h]
    by (auto simp: show_url_def list_ex_iff list_all_iff is_whitespace_or_control_def split: option.splits)
  have sp: "split_once ''://'' (show_url scheme h p path q) = Some (scheme, ?auth @ ?tail)"
    unfolding url by (rule split_once_first [OF sch(1), of "''//''"])
  have "takeWhile (\<lambda>c. \<not> authority_stop c) (?auth @ ?tail) = ?auth"
    "dropWhile (\<lambda>c. \<not> authority_stop c) (?auth @ ?tail) = ?tail"
    using takeWhile_stop [of ?auth "\<lambda>c. \<not> authority_stop c" ?tail] show_authority_char [OF h] tl by auto
  moreover have "?auth \<noteq> []" "CHR ''@'' \<notin> set ?auth" "\<not> starts_with ''['' ?auth"
    using show_authority_hd [OF h, of p] show_authority_char [OF h] by (auto simp: starts_with_single)
  moreover have "split_host_and_port ?auth = Some (h, p)"
    using split_show_authority [OF h] c by blast
  moreover have "strip_fragment ?tail = ?tail"
    by (rule strip_fragment_id) (use c in \<open>auto split: option.split\<close>)
  moreover have "split_query ?tail = (path, q)"
    by (rule split_query_app) (use c in blast)
  moreover have "canonical_query q = q" "\<not> is_x_host h" "path \<noteq> []" using c by blast+
  moreover have "(case p of Some n \<Rightarrow> if scheme = ''http'' \<and> p = Some 80 \<or> scheme = ''https'' \<and> p = Some 443
      then h else h @ '':'' @ show_nat n | None \<Rightarrow> h) = ?auth"
    using c by (auto simp: show_authority_def split: option.split)
  ultimately show ?thesis
    using nws ne c unfolding normalize_external_url_def sp
    by (simp add: Let_def sch(2) show_url_def)
qed

lemma split_once_rest: "split_once sep s = Some (a, b) \<Longrightarrow> set b \<subseteq> set s"
  by (induction s arbitrary: a) (auto split: if_splits dest: in_set_dropD)

lemma strip_fragment_takeWhile: "strip_fragment s = takeWhile (\<lambda>x. x \<noteq> CHR ''#'') s"
  by (auto simp: strip_fragment_def split_once_char intro: takeWhile_eq_all_conv [THEN iffD2, symmetric])

lemma split_query_takeWhile: "fst (split_query s) = takeWhile (\<lambda>x. x \<noteq> CHR ''?'') s"
  by (auto simp: split_query_def split_once_char intro: takeWhile_eq_all_conv [THEN iffD2, symmetric])

lemma normalize_is_canonical:
  assumes "normalize_external_url raw = Some n"
  obtains scheme h p path q where "n = show_url scheme h p path q" "canonical_parts scheme h p path q"
proof -
  from assms have raw: "\<not> list_ex is_whitespace_or_control raw"
    by (auto simp: normalize_external_url_def split: if_splits)
  from assms obtain raw_scheme rest where sp: "split_once ''://'' raw = Some (raw_scheme, rest)"
    by (auto simp: normalize_external_url_def split: if_splits option.splits)
  define scheme authority pq where "scheme = to_ascii_lowercase raw_scheme"
    and "authority = takeWhile (\<lambda>c. \<not> authority_stop c) rest"
    and "pq = dropWhile (\<lambda>c. \<not> authority_stop c) rest"
  note body = assms [unfolded normalize_external_url_def sp option.case prod.case Let_def,
      folded scheme_def authority_def pq_def]
  from body obtain h port where hp: "split_host_and_port authority = Some (h, port)"
    by (auto split: if_splits option.splits)
  obtain path0 q0 where pq: "split_query (strip_fragment pq) = (path0, q0)" by fastforce
  define path p q where "path = (if path0 = [] then ''/'' else path0)"
    and "p = (if scheme = ''http'' \<and> port = Some 80 \<or> scheme = ''https'' \<and> port = Some 443 then None else port)"
    and "q = canonical_query q0"
  from body hp pq have sch: "scheme = ''http'' \<or> scheme = ''https''" and xh: "\<not> is_x_host h"
    and n: "n = show_url scheme h p path q"
    by (auto simp: show_url_def show_authority_def path_def p_def q_def split: if_splits option.splits)
  have rest: "set rest \<subseteq> set raw" by (rule split_once_rest [OF sp])
  have pq_raw: "set pq \<subseteq> set raw" using rest by (auto simp: pq_def dest: set_dropWhileD)
  note parts = split_query_parts [OF pq] and frag = strip_fragment_no_hash [of pq]
  have path_hd: "hd path = CHR ''/''"
  proof (cases "path0 = []")
    case False
    have path0: "path0 = takeWhile (\<lambda>x. x \<noteq> CHR ''?'') (takeWhile (\<lambda>x. x \<noteq> CHR ''#'') pq)"
      using split_query_takeWhile [of "strip_fragment pq"] unfolding pq by (simp add: strip_fragment_takeWhile)
    with False obtain c cs where c: "pq = c # cs" "c \<noteq> CHR ''#''" "c \<noteq> CHR ''?''" "hd path0 = c"
      by (cases pq) (auto split: if_splits)
    have "authority_stop c"
      using c(1) dropWhile_eq_Cons_conv [of "\<lambda>c. \<not> authority_stop c" rest c cs] by (simp add: pq_def)
    with c False show ?thesis by (simp add: authority_stop_def path_def)
  qed (simp add: path_def)
  have q_ok: "canonical_query (Some r) = Some r \<and> CHR ''#'' \<notin> set r \<and> list_all (\<lambda>c. \<not> is_whitespace_or_control c) r"
    if "q = Some r" for r
  proof -
    from that obtain q' where q': "q0 = Some q'"
      by (cases q0) (auto simp: q_def canonical_query_def)
    have "set q' \<subseteq> set (strip_fragment pq)" using parts q' by blast
    moreover have "set r \<subseteq> insert CHR ''&'' (set q')"
      using canonical_query_chars that q' by (simp add: q_def)
    ultimately have "set r \<subseteq> insert CHR ''&'' (set (strip_fragment pq))" by blast
    then have cs: "c = CHR ''&'' \<or> c \<in> set raw \<and> c \<noteq> CHR ''#''" if "c \<in> set r" for c
      using frag pq_raw that by blast
    have "\<not> is_whitespace_or_control CHR ''&''" by (simp add: is_whitespace_or_control_def)
    with cs raw have "CHR ''#'' \<notin> set r" "\<And>c. c \<in> set r \<Longrightarrow> \<not> is_whitespace_or_control c"
      by (fastforce simp: list_ex_iff)+
    with canonical_query_idem that show ?thesis by (simp add: q_def list_all_iff)
  qed
  have "canonical_parts scheme h p path q"
    unfolding canonical_parts_def
  proof (intro conjI)
    show "canonical_query q = q"
      using q_ok by (cases q) (auto simp: canonical_query_def)
    show "\<forall>n. p = Some n \<longrightarrow> n < 65536 \<and> \<not> (scheme = ''http'' \<and> n = 80) \<and> \<not> (scheme = ''https'' \<and> n = 443)"
      using split_host_and_port_Some [OF hp] by (auto simp: p_def)
    show "list_all (\<lambda>c. \<not> is_whitespace_or_control c) path"
      using raw parts frag pq_raw
      by (auto simp: path_def list_all_iff list_ex_iff is_whitespace_or_control_def)
    show "CHR ''#'' \<notin> set path" "CHR ''?'' \<notin> set path" "path \<noteq> []"
      using parts frag by (auto simp: path_def)
  qed (use sch xh split_host_and_port_Some [OF hp] path_hd q_ok in auto)
  with n show ?thesis by (rule that)
qed

section \<open>Properties\<close>

lemmas url_eval = normalize_external_url_def starts_with_def to_ascii_lowercase_def lower_char_def
  is_upper_def is_lower_def is_digit_def is_alphanumeric_def is_whitespace_or_control_def authority_stop_def
  split_host_and_port_def rsplit_once_char_def parse_u16_def nat_of_digits_def digit_value_def is_x_host_def
  ends_with_def strip_fragment_def split_query_def canonical_query_def is_tracking_key_def component_key_def
  char_of_def bit_0 Let_def

text \<open>
  URL normalization is a canonical form. Normalizing a normalized URL gives it back unchanged, so two links
  are captured once exactly when their normal forms agree, however often a form is normalized again.
\<close>

theorem normalize_external_url_idempotent:
  assumes "normalize_external_url raw = Some n"
  shows "normalize_external_url n = Some n"
  by (rule normalize_is_canonical [OF assms]) (simp add: normalize_show_url)

theorem normalize_external_url_idempotent_witness:
  "normalize_external_url ''http://a.eu/?b&z'' = Some ''http://a.eu/?b&z''"
  by (rule normalize_external_url_idempotent [of "''HTTP://A.eu:80?z&b#f''"])
    (simp add: url_eval)

text \<open>
  Only external HTTP(S) links are captured. A normalized URL has scheme http or https, a non-empty lower-case
  host that is neither X, Twitter nor the t.co shortener (or a subdomain of them), no fragment, no white space,
  and no default port.
\<close>

theorem normalized_url_is_external:
  assumes "normalize_external_url raw = Some n"
  shows "\<exists>scheme h p path q. n = scheme @ ''://'' @ show_authority h p @ path @ (case q of None \<Rightarrow> [] | Some r \<Rightarrow> ''?'' @ r)
    \<and> (scheme = ''http'' \<or> scheme = ''https'') \<and> h \<noteq> [] \<and> to_ascii_lowercase h = h \<and> \<not> is_x_host h
    \<and> hd path = CHR ''/'' \<and> \<not> (scheme = ''http'' \<and> p = Some 80) \<and> \<not> (scheme = ''https'' \<and> p = Some 443)
    \<and> CHR ''#'' \<notin> set n \<and> \<not> list_ex is_whitespace_or_control n"
proof (rule normalize_is_canonical [OF assms])
  fix scheme h p path q
  assume n: "n = show_url scheme h p path q" and c: "canonical_parts scheme h p path q"
  have h: "host_ok h" using c by (simp add: canonical_parts_def)
  have "CHR ''#'' \<notin> set n"
    using c show_authority_char [OF h] unfolding n show_url_def canonical_parts_def
    by (auto simp: authority_stop_def split: option.splits)
  moreover have "\<not> list_ex is_whitespace_or_control n"
    using normalize_show_url [OF c] unfolding n [symmetric]
    by (auto simp: normalize_external_url_def split: if_splits)
  ultimately show ?thesis
    using c h n
    by (intro exI [of _ scheme] exI [of _ h] exI [of _ p] exI [of _ path] exI [of _ q])
      (auto simp: show_url_def canonical_parts_def host_ok_def)
qed

theorem normalized_url_is_external_witness:
  "\<exists>n. normalize_external_url ''http://B.eu#t'' = Some n \<and> CHR ''#'' \<notin> set n"
proof -
  have "normalize_external_url ''http://B.eu#t'' = Some ''http://b.eu/''"
    by (simp add: url_eval)
  from this normalized_url_is_external [OF this] show ?thesis by blast
qed

lemma select_loop_spec:
  "distinct (map sel_normalized_url (select_loop urls seen))
   \<and> sel_normalized_url ` set (select_loop urls seen) = {n. \<exists>u \<in> set urls. normalize_external_url u = Some n} - seen
   \<and> (\<forall>s \<in> set (select_loop urls seen). sel_original_url s \<in> set urls
        \<and> normalize_external_url (sel_original_url s) = Some (sel_normalized_url s))"
proof (induction urls arbitrary: seen)
  case (Cons u us)
  show ?case
  proof (cases "normalize_external_url u")
    case None
    with Cons.IH [of seen] show ?thesis by auto
  next
    case (Some n)
    show ?thesis
    proof (cases "n \<in> seen")
      case True
      with Some Cons.IH [of seen] show ?thesis by auto
    next
      case False
      have "n \<notin> sel_normalized_url ` set (select_loop us (insert n seen))"
        using Cons.IH [of "insert n seen"] by blast
      with Some False Cons.IH [of "insert n seen"] show ?thesis by auto
    qed
  qed
qed simp

text \<open>
  Link selection is complete and duplicate-free: the selected normal forms are pairwise different, they are
  exactly the normal forms of the post's external links, and each is recorded with a link of the post that it
  comes from.
\<close>

theorem selected_urls_complete:
  "distinct (map sel_normalized_url (select_external_expanded_urls urls))
   \<and> set (map sel_normalized_url (select_external_expanded_urls urls))
       = {n. \<exists>u. u \<in> set urls \<and> normalize_external_url u = Some n}
   \<and> set (map (\<lambda>s. (sel_original_url s, Some (sel_normalized_url s))) (select_external_expanded_urls urls))
       \<subseteq> set (map (\<lambda>u. (u, normalize_external_url u)) urls)"
  using select_loop_spec [of urls "{}"]
  by (auto simp: select_external_expanded_urls_def)

end
