(* ===== verification/Delivery.thy ===== *)
theory Delivery
  imports Budget Articles
begin

text \<open>
  Correctness of the two delivery protocols: removals that Knowledge has to acknowledge
  (\<^verbatim>\<open>x-persistence/src/outbox.rs\<close>) and extractor reports that complete an article capture
  (\<^verbatim>\<open>x-sync/src/articles.rs\<close>).
\<close>

section \<open>Acknowledgements\<close>

definition acked :: "time \<Rightarrow> ack_outcome \<Rightarrow> outbox_event \<Rightarrow> outbox_event" where
  "acked now outcome r =
     r\<lparr>out_acknowledged_at := Some now, out_ack_outcome := Some (ack_outcome_as_str outcome)\<rparr>"

lemma acked_settled: "\<not> ack_matches i tenant (acked now outcome r)"
  by (simp add: ack_matches_def acked_def)

lemma acknowledge_Inr:
  assumes "acknowledge i tenant outcome w = (Inr b, w')"
  shows "(b \<longleftrightarrow> length (filter (ack_matches i tenant) (outbox_events (db w))) = 1)
    \<and> db w' = (db w)\<lparr>outbox_events := update_where (ack_matches i tenant) (acked (db_now w) outcome)
        (outbox_events (db w))\<rparr>"
  using assms by (auto simp: acknowledge_def io_run acked_def [abs_def])

lemma keyed_filter_id:
  "keyed_by out_id rs \<Longrightarrow> filter (ack_matches i tenant) rs = [] \<or> (\<exists>r. filter (ack_matches i tenant) rs = [r])"
proof (induction rs)
  case (Cons r rs)
  have "filter (ack_matches i tenant) rs = []" if "ack_matches i tenant r"
    using Cons.prems that
    by (auto simp: keyed_by_def ack_matches_def filter_empty_conv) (metis image_eqI)
  with Cons show ?case by (auto simp: keyed_by_def)
qed simp

text \<open>
  An acknowledgement counts once, and only for its tenant. The call answers true exactly when the archive holds an
  unacknowledged removal with that identifier addressed to that tenant; then that row alone becomes acknowledged with
  the reported outcome, otherwise nothing changes. Repeating it (or sending it for another tenant) answers false and
  changes nothing.
\<close>

theorem acknowledge_exactly_once:
  assumes "acknowledge i tenant outcome w = (Inr b, w1)" and "keyed_by out_id (outbox_events (db w))"
    and "db w2 = db w1" and "acknowledge i tenant outcome' w2 = (Inr b', w3)"
  shows "(b \<longleftrightarrow> (\<exists>r \<in> set (outbox_events (db w)). ack_matches i tenant r))
    \<and> outbox_events (db w1) = map (\<lambda>r. if ack_matches i tenant r then acked (db_now w) outcome r else r) (outbox_events (db w))
    \<and> (\<not> b \<longrightarrow> db w1 = db w) \<and> \<not> b' \<and> db w3 = db w1"
proof -
  let ?rs = "outbox_events (db w)"
  note b1 = conjunct1 [OF acknowledge_Inr [OF assms(1)]] and d1 = conjunct2 [OF acknowledge_Inr [OF assms(1)]]
    and b2 = conjunct1 [OF acknowledge_Inr [OF assms(4)]] and d3 = conjunct2 [OF acknowledge_Inr [OF assms(4)]]
  have "b \<longleftrightarrow> filter (ack_matches i tenant) ?rs \<noteq> []"
    unfolding b1 using keyed_filter_id [OF assms(2), of i tenant] by auto
  then have b: "b \<longleftrightarrow> (\<exists>r \<in> set ?rs. ack_matches i tenant r)" by (auto simp: filter_empty_conv)
  have "outbox_events (db w2) = update_where (ack_matches i tenant) (acked (db_now w) outcome) ?rs"
    by (simp add: assms(3) d1)
  then have none: "\<not> ack_matches i tenant r" if "r \<in> set (outbox_events (db w2))" for r
    using that acked_settled by (auto simp: set_update_where)
  have "filter (ack_matches i tenant) (outbox_events (db w2)) = []"
    using none by (simp add: filter_empty_conv)
  then have b': "\<not> b'" by (simp add: b2)
  have d3': "db w3 = db w1" unfolding assms(3) [symmetric] d3 using none by (simp add: update_where_none)
  have "db w1 = db w" if "\<not> b"
    unfolding d1 using b that by (simp add: update_where_none)
  moreover have "outbox_events (db w1) = map (\<lambda>r. if ack_matches i tenant r then acked (db_now w) outcome r else r) ?rs"
    by (simp add: d1 update_where_def)
  ultimately show ?thesis using b b' d3' by blast
qed

definition demo_removal :: wire_envelope where
  "demo_removal = \<lparr>we_id = 5, we_type = REMOVAL_EVENT_TYPE, we_at = [], we_producer = PRODUCER,
     we_aggregate_id = [], we_correlation_id = [], we_causation_id = None, we_tenant_id = Some ''user:u'',
     we_payload = JNull\<rparr>"

definition demo_outbox :: "archive world" where
  "demo_outbox = demo_world (demo_archive\<lparr>outbox_events := [outbox_row 3 demo_removal]\<rparr>)"

lemma demo_ack_ok:
  "acknowledge 5 ''user:u'' Applied demo_outbox = (Inr True, snd (acknowledge 5 ''user:u'' Applied demo_outbox))"
  by (simp add: acknowledge_def sql_def fault_now_def demo_outbox_def demo_world_def demo_schedule_def
      demo_removal_def outbox_row_def ack_matches_def)

theorem acknowledge_exactly_once_witness:
  "\<not> (\<exists>w3. acknowledge 5 ''user:u'' Refused (snd (acknowledge 5 ''user:u'' Applied demo_outbox)) = (Inr True, w3))"
proof -
  have "keyed_by out_id (outbox_events (db demo_outbox))"
    by (simp add: keyed_by_def demo_outbox_def demo_world_def)
  from acknowledge_exactly_once [OF demo_ack_ok this refl] show ?thesis by blast
qed

section \<open>Resends\<close>

lemma record_resend_Inr:
  assumes "record_resend i policy w = (Inr x, w')"
  shows "outbox_events (db w') = update_where (\<lambda>r. out_id r = i \<and> out_event_type r = REMOVAL_EVENT_TYPE
       \<and> out_published_at r \<noteq> None \<and> out_acknowledged_at r = None)
     (\<lambda>r. r\<lparr>out_resend_count := out_resend_count r + 1, out_last_error := None, out_attempt_count := 0,
            out_next_resend_at := Some (db_now w + resend_delay policy (out_resend_count r))\<rparr>)
     (outbox_events (db w))"
  using assms by (auto simp: record_resend_def io_run)

text \<open>
  The resend schedule backs off and stops. The delay before the next copy of a removal never exceeds the
  configured cap, never shrinks as the number of resends grows, and starts at the configured delay (when that is below the
  cap); once a removal is acknowledged, recording a resend leaves its row as it is.
\<close>

theorem resend_backs_off:
  assumes "0 \<le> rp_after policy" and "0 \<le> m" and "m \<le> n"
  shows "resend_delay policy m \<le> resend_delay policy n \<and> resend_delay policy n \<le> rp_cap policy
    \<and> (rp_after policy \<le> rp_cap policy \<longrightarrow> resend_delay policy 0 = rp_after policy)
    \<and> (record_resend i policy w = (Inr x, w') \<longrightarrow> r \<in> set (outbox_events (db w)) \<longrightarrow>
         out_acknowledged_at r \<noteq> None \<longrightarrow> r \<in> set (outbox_events (db w')))"
proof -
  have "(2::int) ^ nat (min m 30) \<le> 2 ^ nat (min n 30)"
    using assms by (intro power_increasing) auto
  then have "rp_after policy * 2 ^ nat (min m 30) \<le> rp_after policy * 2 ^ nat (min n 30)"
    using assms(1) by (rule mult_left_mono)
  then have "resend_delay policy m \<le> resend_delay policy n" by (simp add: resend_delay_def)
  then show ?thesis
    by (auto simp: resend_delay_def set_update_where dest!: record_resend_Inr)
qed

theorem resend_backs_off_witness:
  "resend_delay \<lparr>rp_after = 60, rp_cap = 600\<rparr> 3 \<le> resend_delay \<lparr>rp_after = 60, rp_cap = 600\<rparr> 9
   \<and> resend_delay \<lparr>rp_after = 60, rp_cap = 600\<rparr> 9 \<le> 600"
  using resend_backs_off [of "\<lparr>rp_after = 60, rp_cap = 600\<rparr>" 3 9] by simp

section \<open>Extractor reports\<close>

definition completes :: "time \<Rightarrow> extractor_outcome \<Rightarrow> article_capture \<Rightarrow> article_capture" where
  "completes now outcome r = r\<lparr>art_state := ACompleted, art_document_id := Some (eo_document_id outcome),
     art_document_ir_blob := Some (eo_document_ir_blob outcome), art_completed_at := Some now\<rparr>"

lemma consume_Inr:
  assumes "consume_extractor_operation_report C decode s w = (Inr x, w')"
  obtains outcome i owner where "decode_extractor_outcome decode s = Inr outcome"
    "find_capture (eo_correlation_id outcome) (db w) = Some (i, owner)" "belongs_to C outcome i owner"
    "eo_event_id outcome \<in> inb_event_id ` set (inbox_events (db w')) "
    "eo_event_id outcome \<in> inb_event_id ` set (inbox_events (db w)) \<and> db w' = db w
     \<or> eo_event_id outcome \<notin> inb_event_id ` set (inbox_events (db w))
       \<and> length (filter (\<lambda>r. art_id r = i \<and> art_state r = ARequested) (article_captures (db w))) = 1
       \<and> (\<exists>now. article_captures (db w') = update_where (\<lambda>r. art_id r = i \<and> art_state r = ARequested)
              (completes now outcome) (article_captures (db w)))"
proof -
  from assms obtain outcome where dec: "decode_extractor_outcome decode s = Inr outcome"
    by (auto simp: consume_extractor_operation_report_def io_run)
  let ?v = "(advance w)\<lparr>txn_at := Some (clock (sched w) (tick w))\<rparr>"
  from assms dec obtain w1 where d': "db w' = db w1" and body:
      "bind_io (query ArticleQuery (find_capture (eo_correlation_id outcome))) (\<lambda>capture.
          case capture of
            None \<Rightarrow> throw InvalidOutcome
          | Some (capture_id, owner) \<Rightarrow>
              if \<not> belongs_to C outcome capture_id owner then throw InvalidOutcome
              else bind_io (claim_outcome_inbox outcome s) (\<lambda>claimed.
                     if \<not> claimed then ret () else complete_capture capture_id outcome)) ?v = (Inr x, w1)"
    by (auto simp: consume_extractor_operation_report_def io_run)
  from body obtain i owner claimed w2 where fc: "find_capture (eo_correlation_id outcome) (db w) = Some (i, owner)"
    and bt: "belongs_to C outcome i owner" and cl: "claim_outcome_inbox outcome s (advance ?v) = (Inr claimed, w2)"
    and rest: "(if \<not> claimed then ret () else complete_capture i outcome) w2 = (Inr x, w1)"
  proof -
    from body have go: "(case find_capture (eo_correlation_id outcome) (db w) of
            None \<Rightarrow> throw InvalidOutcome
          | Some (capture_id, owner) \<Rightarrow>
              if \<not> belongs_to C outcome capture_id owner then throw InvalidOutcome
              else bind_io (claim_outcome_inbox outcome s) (\<lambda>claimed.
                     if \<not> claimed then ret () else complete_capture capture_id outcome)) (advance ?v) = (Inr x, w1)"
      by (simp add: io_run)
    then obtain i owner where fc: "find_capture (eo_correlation_id outcome) (db w) = Some (i, owner)"
      and bt: "belongs_to C outcome i owner"
      by (auto simp: throw_def split: option.splits prod.splits if_splits)
    with go have "bind_io (claim_outcome_inbox outcome s) (\<lambda>claimed.
        if \<not> claimed then ret () else complete_capture i outcome) (advance ?v) = (Inr x, w1)" by simp
    with fc bt that show ?thesis unfolding bind_io_Inr by blast
  qed
  from cl have cld: "claimed \<longleftrightarrow> eo_event_id outcome \<notin> inb_event_id ` set (inbox_events (db w))"
    and "db w2 = (db w)\<lparr>inbox_events := insert_ignore inb_event_id
        \<lparr>inb_source = ''ratatoskr-extractor'', inb_event_type = ''platform.operation.reported.v1'',
         inb_event_id = eo_event_id outcome, inb_payload = s, inb_consumed_at = Some (db_now (advance ?v))\<rparr>
        (inbox_events (db w))\<rparr>"
    by (simp_all add: claim_outcome_inbox_def io_run)
  then obtain row where row: "inb_event_id row = eo_event_id outcome"
    and w2: "db w2 = (db w)\<lparr>inbox_events := insert_ignore inb_event_id row (inbox_events (db w))\<rparr>"
    by (meson inbox_event.select_convs(3))
  show ?thesis
  proof (cases claimed)
    case False
    with rest w2 cld row have "db w1 = db w" by (simp add: io_run insert_ignore_def)
    with False cld d' show ?thesis by (intro that [OF dec fc bt]) auto
  next
    case True
    with rest have len: "length (filter (\<lambda>r. art_id r = i \<and> art_state r = ARequested) (article_captures (db w2))) = 1"
      and ac: "\<exists>now. article_captures (db w1) = update_where (\<lambda>r. art_id r = i \<and> art_state r = ARequested)
              (completes now outcome) (article_captures (db w2))"
      and ib: "inbox_events (db w1) = inbox_events (db w2)"
      by (auto simp: complete_capture_def io_run completes_def [abs_def] split: if_splits)
    from w2 len ac have "length (filter (\<lambda>r. art_id r = i \<and> art_state r = ARequested) (article_captures (db w))) = 1"
      "\<exists>now. article_captures (db w') = update_where (\<lambda>r. art_id r = i \<and> art_state r = ARequested)
              (completes now outcome) (article_captures (db w))"
      by (auto simp: d')
    moreover have "eo_event_id outcome \<in> inb_event_id ` set (inbox_events (db w'))"
      by (simp add: d' ib w2 insert_ignore_keys row)
    ultimately show ?thesis using True cld by (intro that [OF dec fc bt]) auto
  qed
qed

lemma consume_Inl: "consume_extractor_operation_report C decode s w = (Inl e, w') \<Longrightarrow> db w' = db w"
  by (auto simp: consume_extractor_operation_report_def bind_io_def of_result_def
      dest: transaction_Inl_db split: sum.splits)

text \<open>
  An extractor report acts only on its own tenant's requested capture, at most once. If processing a report changed
  the archive, then it succeeded, the report came from the extractor and names (by operation and tenant) the capture it
  correlates with and that capture's owner, its event had not been consumed before, and the captures differ from the ones
  before only in that the one requested capture is completed with the reported document. A failure changes nothing.
\<close>

theorem extractor_report_authorised:
  assumes "consume_extractor_operation_report C decode s w = (r, w')" and "db w' \<noteq> db w"
  shows "\<exists>outcome i owner now. r = Inr () \<and> decode_extractor_outcome decode s = Inr outcome
    \<and> find_capture (eo_correlation_id outcome) (db w) = Some (i, owner)
    \<and> eo_operation_id outcome = uuid_text C i \<and> eo_tenant_id outcome = ''user:'' @ uuid_text C owner
    \<and> eo_event_id outcome \<notin> inb_event_id ` set (inbox_events (db w))
    \<and> length (filter (\<lambda>c. art_id c = i \<and> art_state c = ARequested) (article_captures (db w))) = 1
    \<and> article_captures (db w') = update_where (\<lambda>c. art_id c = i \<and> art_state c = ARequested)
          (completes now outcome) (article_captures (db w))"
proof (cases r)
  case (Inl e)
  with assms consume_Inl show ?thesis by blast
next
  case (Inr x)
  show ?thesis
    by (rule consume_Inr [OF assms(1) [unfolded Inr]])
      (use assms(2) Inr in \<open>auto simp: belongs_to_def\<close>)
qed

text \<open>
  A redelivered report is harmless: once a report was processed, processing the same serialized event again
  succeeds or fails without changing the archive.
\<close>

theorem extractor_report_redelivery:
  assumes "consume_extractor_operation_report C decode s w = (Inr x, w1)" and "db w2 = db w1"
    and "consume_extractor_operation_report C decode s w2 = (r, w3)"
  shows "db w3 = db w1"
proof (cases r)
  case (Inl e)
  with assms consume_Inl show ?thesis by metis
next
  case (Inr y)
  show ?thesis
    by (rule consume_Inr [OF assms(1)], rule consume_Inr [OF assms(3) [unfolded Inr]])
      (use assms(2) in auto)
qed

definition demo_decode :: "string \<Rightarrow> inbound_event option" where
  "demo_decode s = Some \<lparr>ibe_event_id = s, ibe_producer = ''ratatoskr-extractor'',
     ibe_correlation_id = ''article_capture:x'', ibe_tenant_id = Some (''user:'' @ uuid_text demo_contracts 70),
     ibe_report = Some \<lparr>opp_operation_id = uuid_text demo_contracts 40, opp_succeeded = True,
       opp_results = [\<lparr>opr_result_kind = ''content.document'', opr_target_kind = ''document'',
         opr_target_uuid = Some ''d'', opr_blob = Some (''ratatoskr-extractor'', JNull)\<rparr>]\<rparr>\<rparr>"

definition demo_capture :: article_capture where
  "demo_capture = \<lparr>art_id = 40, art_account_id = 7, art_normalized_url = ''u'', art_original_url = ''u'',
     art_correlation_id = ''article_capture:x'', art_state = ARequested, art_document_id = None,
     art_document_ir_blob = None, art_completed_at = None\<rparr>"

definition demo_captures :: "archive world" where
  "demo_captures = demo_world (demo_archive\<lparr>article_captures := [demo_capture]\<rparr>)"

definition demo_consumed :: "(article_error + unit) \<times> archive world" where
  "demo_consumed = consume_extractor_operation_report demo_contracts demo_decode ''e'' demo_captures"

lemmas consume_eval = consume_extractor_operation_report_def decode_extractor_outcome_def document_result_def
  find_capture_def belongs_to_def claim_outcome_inbox_def complete_capture_def insert_ignore_def demo_decode_def
  demo_captures_def demo_capture_def demo_archive_def demo_account_def demo_world_def demo_schedule_def io_defs
  fault_now_def advance_def select_one_def empty_archive_def update_where_def

lemma demo_consumed_ok: "demo_consumed = (Inr (), snd demo_consumed)"
proof -
  have "fst demo_consumed = Inr ()" unfolding demo_consumed_def by (simp add: consume_eval)
  then show ?thesis by (simp add: prod_eq_iff)
qed

theorem extractor_report_authorised_witness:
  "\<exists>now outcome. article_captures (db (snd demo_consumed)) = [completes now outcome demo_capture]"
proof -
  have "map art_state (article_captures (db (snd demo_consumed))) = [ACompleted]"
    unfolding demo_consumed_def by (simp add: consume_eval)
  moreover have "article_captures (db demo_captures) = [demo_capture]" "art_state demo_capture = ARequested"
    by (simp_all add: demo_captures_def demo_world_def demo_capture_def)
  ultimately show ?thesis
    using extractor_report_authorised [OF demo_consumed_ok [unfolded demo_consumed_def]]
    by (fastforce simp: demo_consumed_def update_where_def split: if_splits)
qed

theorem extractor_report_redelivery_witness:
  "db (snd (consume_extractor_operation_report demo_contracts demo_decode ''e'' (snd demo_consumed)))
     = db (snd demo_consumed)"
proof -
  let ?r = "consume_extractor_operation_report demo_contracts demo_decode ''e'' (snd demo_consumed)"
  have "?r = (fst ?r, snd ?r)" by simp
  from extractor_report_redelivery [OF demo_consumed_ok [unfolded demo_consumed_def] _ this]
  show ?thesis by (simp add: demo_consumed_def)
qed

end
