(* ===== verification/Writeback.thy ===== *)
theory Writeback
  imports Snapshot
begin

text \<open>
  Bookmark write-back, \<^verbatim>\<open>x-sync/src/writeback\<close>: the types of the public surface, the admission checks,
  the durable operation and its audit trail, and the execution of one live or dry-run request
  (\<^verbatim>\<open>BookmarkWritebackService\<close>). The provider (\<^verbatim>\<open>BookmarkMutationProvider\<close>) is a parameter: a program
  that answers with bounded evidence or a classified failure.

  The identifier column of the audit table (random apart from an ordinal byte that only orders the
  trail) is not modelled; the trail is kept in insertion order. Column checks that the validation of
  the same function already guarantees are not repeated.
\<close>

section \<open>Types\<close>

fun write_action_as_str :: "write_action \<Rightarrow> string" where
  "write_action_as_str WAdd = ''add''"
| "write_action_as_str WRemove = ''remove''"

fun execution_mode_name :: "execution_mode \<Rightarrow> string" where
  "execution_mode_name Live = ''live''"
| "execution_mode_name DryRun = ''dry_run''"

record bookmark_write_request =
  rq_internal_user_id :: uuid
  rq_account_id :: uuid
  rq_consent_id :: uuid
  rq_provider_post_id :: string
  rq_idempotency_key :: string

datatype bookmark_write_status =
    Succeeded | AlreadySatisfied | StatusUncertain | ProjectionPending | ReconciledNotCurrent

record bookmark_write_result =
  wr_operation_id :: uuid
  wr_status :: bookmark_write_status

datatype admission_refusal =
    ROwnershipMismatch | RConnectionInactive | RWriteAuthorizationRequired | RWriteScopeRequired
  | RConsentRequired | RBudgetExhausted

datatype dry_run_outcome =
    WouldSubmit write_action
  | WouldAlreadySatisfy write_action
  | WouldRefuse admission_refusal

record dry_run_result =
  dr_outcome :: dry_run_outcome
  dr_evaluated_at :: time
  dr_observed_at :: "time option"
  dr_budget_reset_at :: "time option"
  dr_advisory :: bool

record provider_evidence =
  ev_request_id :: "string option"

datatype provider_error =
    PUnavailable
  | CredentialUnavailable
  | CredentialScopeRequired
  | CredentialInvalid
  | Transient
  | AuthorizationLost provider_evidence
  | RateLimited "int option" provider_evidence
  | DefiniteRefusal nat provider_evidence
  | PUncertain "nat option" provider_evidence

datatype writeback_error =
    OwnershipMismatch | ConnectionInactive | WriteAuthorizationRequired | WriteScopeRequired
  | ConsentRequired | IdempotencyConflict | OperationInProgress | InvalidIdempotencyKey
  | InvalidTarget | InvalidSurface | InvalidApprovalInstant | WbBudget budget_error
  | InvalidBudgetEvidence | WbProvider provider_error | WbQuery

type_synonym mutation_provider =
  "write_action \<Rightarrow> uuid \<Rightarrow> string \<Rightarrow> (provider_error, provider_evidence) dbio"

definition surface_parse :: "string \<Rightarrow> writeback_error + string" where
  "surface_parse s =
     (let first_valid = (case s of [] \<Rightarrow> False | c # _ \<Rightarrow> is_lower c \<or> is_digit c);
          rest_valid = list_all (\<lambda>c. is_lower c \<or> is_digit c \<or> c = CHR ''.'' \<or> c = CHR ''_'' \<or> c = CHR ''-'')
                         (tl s)
      in if length s \<le> 64 \<and> first_valid \<and> rest_valid then Inr s else Inl InvalidSurface)"

definition validate_provider_post_id :: "string \<Rightarrow> writeback_error + unit" where
  "validate_provider_post_id s =
     (if 1 \<le> length s \<and> length s \<le> 19 \<and> list_all is_digit s then Inr () else Inl InvalidTarget)"

section \<open>Digests\<close>

definition hex_digest :: "8 word list \<Rightarrow> string" where
  "hex_digest bs = concat (map (\<lambda>b. [hex_digit (unat b div 16), hex_digit (unat b mod 16)]) bs)"

definition sha256_hex :: "contracts \<Rightarrow> 8 word list \<Rightarrow> string" where
  "sha256_hex C bytes = hex_digest (sha256 C bytes)"

text \<open>\<^verbatim>\<open>u64::to_be_bytes\<close> of a length.\<close>

definition be_bytes :: "nat \<Rightarrow> 8 word list" where
  "be_bytes n = map (\<lambda>k. of_nat (n div 256 ^ k)) [7, 6, 5, 4, 3, 2, 1, 0]"

definition fingerprint_preimage :: "contracts \<Rightarrow> string list \<Rightarrow> 8 word list" where
  "fingerprint_preimage C parts =
     as_bytes (''ratatoskr-x-bookmark-write'' @ [CHR 0x00])
     @ concat (map (\<lambda>part. be_bytes (length part) @ as_bytes part) parts)"

definition fingerprint_parts :: "contracts \<Rightarrow> string list \<Rightarrow> string" where
  "fingerprint_parts C parts = hex_digest (sha256 C (fingerprint_preimage C parts))"

definition request_parts ::
  "contracts \<Rightarrow> bookmark_write_request \<Rightarrow> write_action \<Rightarrow> execution_mode \<Rightarrow> string list" where
  "request_parts C rq action mode =
     [uuid_text C (rq_internal_user_id rq), uuid_text C (rq_account_id rq), write_action_as_str action,
      rq_provider_post_id rq, uuid_text C (rq_consent_id rq), execution_mode_name mode]"

definition request_fingerprint ::
  "contracts \<Rightarrow> bookmark_write_request \<Rightarrow> write_action \<Rightarrow> execution_mode \<Rightarrow> string" where
  "request_fingerprint C rq action mode = fingerprint_parts C (request_parts C rq action mode)"

section \<open>State-machine helpers\<close>

datatype operation_claim =
    Execute uuid
  | Replay bookmark_write_result
  | InProgress uuid

datatype local_admission =
    Admitted time
  | AdmAlreadySatisfied time
  | AdmRefused admission_refusal "time option"

fun stored_write_status :: "write_status \<Rightarrow> bookmark_write_status option" where
  "stored_write_status WSucceeded = Some Succeeded"
| "stored_write_status WReconciledSucceeded = Some Succeeded"
| "stored_write_status WProjectionPending = Some ProjectionPending"
| "stored_write_status WUncertain = Some StatusUncertain"
| "stored_write_status WReconciledNotCurrent = Some ReconciledNotCurrent"
| "stored_write_status WReceived = None"
| "stored_write_status WRefused = None"
| "stored_write_status WDryRun = None"
| "stored_write_status WProviderInFlight = None"
| "stored_write_status WFailed = None"

fun provider_failure_evidence ::
  "chrono \<Rightarrow> provider_error \<Rightarrow> string \<times> string option \<times> time option" where
  "provider_failure_evidence c PUnavailable = (''provider_unavailable'', None, None)"
| "provider_failure_evidence c CredentialUnavailable = (''credential_unavailable'', None, None)"
| "provider_failure_evidence c CredentialScopeRequired = (''credential_scope_required'', None, None)"
| "provider_failure_evidence c CredentialInvalid = (''credential_invalid'', None, None)"
| "provider_failure_evidence c Transient = (''transient_before_contact'', None, None)"
| "provider_failure_evidence c (AuthorizationLost ev) = (''authorization_lost'', ev_request_id ev, None)"
| "provider_failure_evidence c (RateLimited reset ev) =
     (''rate_limited'', ev_request_id ev, Option.bind reset (from_timestamp c))"
| "provider_failure_evidence c (DefiniteRefusal status ev) =
     (''definite_refusal'', ev_request_id ev, None)"
| "provider_failure_evidence c (PUncertain status ev) = (''uncertain'', ev_request_id ev, None)"

fun admission_refusal_error :: "admission_refusal \<Rightarrow> time option \<Rightarrow> writeback_error" where
  "admission_refusal_error ROwnershipMismatch reset = OwnershipMismatch"
| "admission_refusal_error RConnectionInactive reset = ConnectionInactive"
| "admission_refusal_error RWriteAuthorizationRequired reset = WriteAuthorizationRequired"
| "admission_refusal_error RWriteScopeRequired reset = WriteScopeRequired"
| "admission_refusal_error RConsentRequired reset = ConsentRequired"
| "admission_refusal_error RBudgetExhausted reset =
     (case reset of None \<Rightarrow> InvalidBudgetEvidence | Some t \<Rightarrow> WbBudget (Exhausted t))"

fun dry_run_outcome_token :: "dry_run_outcome \<Rightarrow> string" where
  "dry_run_outcome_token (WouldSubmit WAdd) = ''would_add''"
| "dry_run_outcome_token (WouldSubmit WRemove) = ''would_remove''"
| "dry_run_outcome_token (WouldAlreadySatisfy WAdd) = ''already_added''"
| "dry_run_outcome_token (WouldAlreadySatisfy WRemove) = ''already_removed''"
| "dry_run_outcome_token (WouldRefuse ROwnershipMismatch) = ''refused_ownership''"
| "dry_run_outcome_token (WouldRefuse RConnectionInactive) = ''refused_connection''"
| "dry_run_outcome_token (WouldRefuse RWriteAuthorizationRequired) = ''refused_authorization''"
| "dry_run_outcome_token (WouldRefuse RWriteScopeRequired) = ''refused_scope''"
| "dry_run_outcome_token (WouldRefuse RConsentRequired) = ''refused_consent''"
| "dry_run_outcome_token (WouldRefuse RBudgetExhausted) = ''refused_budget''"

fun refusal_outcome :: "admission_refusal \<Rightarrow> string" where
  "refusal_outcome ROwnershipMismatch = ''ownership_mismatch''"
| "refusal_outcome RConnectionInactive = ''connection_inactive''"
| "refusal_outcome RWriteAuthorizationRequired = ''write_authorization_required''"
| "refusal_outcome RWriteScopeRequired = ''write_scope_required''"
| "refusal_outcome RConsentRequired = ''consent_required''"
| "refusal_outcome RBudgetExhausted = ''budget_exhausted''"

section \<open>The service\<close>

text \<open>
  \<open>wb_others\<close> is what the other processes commit while a caller sleeps between two polls.
\<close>

record writeback_env =
  wb_contracts :: contracts
  wb_chrono :: chrono
  wb_gate :: budget_gate
  wb_consent_lifetime :: time
  wb_others :: "nat \<Rightarrow> archive \<Rightarrow> archive"

definition consent_lifetime_of :: "chrono \<Rightarrow> int \<Rightarrow> writeback_error + time" where
  "consent_lifetime_of c seconds =
     (case try_seconds c seconds of
        None \<Rightarrow> Inl InvalidApprovalInstant
      | Some lifetime \<Rightarrow> if lifetime \<le> 0 then Inl InvalidApprovalInstant else Inr lifetime)"

definition account_state_of :: "uuid \<Rightarrow> uuid \<Rightarrow> (writeback_error, account_state) dbio" where
  "account_state_of user a =
     bind_io (query WbQuery (\<lambda>d. map_option acc_state
                (select_one (\<lambda>r. acc_id r = a \<and> acc_internal_user_id r = user) (accounts d))))
       (\<lambda>state. case state of None \<Rightarrow> throw OwnershipMismatch | Some s \<Rightarrow> ret s)"

subsection \<open>Consents\<close>

definition insert_consent ::
  "uuid \<Rightarrow> uuid \<Rightarrow> write_action \<Rightarrow> string \<Rightarrow> time \<Rightarrow> time \<Rightarrow> string \<Rightarrow> (writeback_error, uuid) dbio" where
  "insert_consent user a action post approved expires surface =
     sql WbQuery (\<lambda>now fresh d.
       if account_exists a d \<and> approved < expires
       then map_option (\<lambda>t. (fresh 0, d\<lparr>bookmark_write_consents := t\<rparr>))
         (insert_unique con_id
            \<lparr>con_id = fresh 0, con_account_id = a, con_internal_user_id = user, con_action = action,
             con_provider_post_id = post, con_approved_at = approved, con_expires_at = expires,
             con_surface = surface, con_consumed_at = None\<rparr> (bookmark_write_consents d))
       else None)"

definition append_audit :: "write_audit_event list \<Rightarrow> archive \<Rightarrow> archive" where
  "append_audit events d =
     d\<lparr>bookmark_write_audit_events := bookmark_write_audit_events d @ events\<rparr>"

definition consent_audit ::
  "contracts \<Rightarrow> uuid \<Rightarrow> uuid \<Rightarrow> uuid \<Rightarrow> write_action \<Rightarrow> string \<Rightarrow> string \<Rightarrow> time \<Rightarrow> time \<Rightarrow> time
   \<Rightarrow> write_audit_event" where
  "consent_audit C a i user action post surface now approved expires =
     \<lparr>aud_account_id = a, aud_operation_id = None, aud_consent_id = Some i,
      aud_internal_user_id = user, aud_action = action, aud_provider_post_id = post,
      aud_surface = surface, aud_event_class = ''consent_recorded'', aud_occurred_at = now,
      aud_correlation_id = None, aud_idempotency_digest = None, aud_provider_request_id = None,
      aud_details = JObj [(''approved_at'', JStr (rfc3339 C approved)),
                          (''expires_at'', JStr (rfc3339 C expires))]\<rparr>"

definition record_consent ::
  "writeback_env \<Rightarrow> uuid \<Rightarrow> uuid \<Rightarrow> write_action \<Rightarrow> string \<Rightarrow> time \<Rightarrow> string
   \<Rightarrow> (writeback_error, write_consent) dbio" where
  "record_consent E user a action post approved surface =
     then_io (of_result (validate_provider_post_id post))
     (bind_io (account_state_of user a) (\<lambda>state.
       if state \<noteq> Connected then throw ConnectionInactive
       else bind_io read_clock (\<lambda>now.
         case checked_add_signed (wb_chrono E) approved (wb_consent_lifetime E) of
           None \<Rightarrow> throw InvalidApprovalInstant
         | Some expires \<Rightarrow>
             if approved > now \<or> expires \<le> now then throw InvalidApprovalInstant
             else transaction WbQuery
               (bind_io (insert_consent user a action post approved expires surface) (\<lambda>i.
                then_io (exec WbQuery (append_audit
                  [consent_audit (wb_contracts E) a i user action post surface now approved expires]))
                (ret \<lparr>con_id = i, con_account_id = a, con_internal_user_id = user, con_action = action,
                      con_provider_post_id = post, con_approved_at = approved, con_expires_at = expires,
                      con_surface = surface, con_consumed_at = None\<rparr>))))))"

subsection \<open>The audit trail of an operation\<close>

definition consents_of :: "archive \<Rightarrow> write_operation \<Rightarrow> write_consent list" where
  "consents_of d op =
     filter (\<lambda>con. wop_consent_id op = Some (con_id con)) (bookmark_write_consents d)"

definition operations_with :: "uuid \<Rightarrow> archive \<Rightarrow> write_operation list" where
  "operations_with i d = filter (\<lambda>op. wop_id op = i) (bookmark_write_operations d)"

definition operation_audit ::
  "contracts \<Rightarrow> write_operation \<Rightarrow> string \<Rightarrow> string \<Rightarrow> time \<Rightarrow> string option \<Rightarrow> json \<Rightarrow> write_audit_event" where
  "operation_audit C op surface event_class now request_id details =
     \<lparr>aud_account_id = wop_account_id op, aud_operation_id = Some (wop_id op),
      aud_consent_id = wop_consent_id op, aud_internal_user_id = wop_internal_user_id op,
      aud_action = wop_action op, aud_provider_post_id = wop_provider_post_id op,
      aud_surface = surface, aud_event_class = event_class, aud_occurred_at = now,
      aud_correlation_id = Some (uuid_text C (wop_id op)),
      aud_idempotency_digest = Some (wop_idempotency_digest op),
      aud_provider_request_id = request_id, aud_details = details\<rparr>"

definition audit_surfaces :: "archive \<Rightarrow> write_operation \<Rightarrow> string list" where
  "audit_surfaces d op =
     (case consents_of d op of [] \<Rightarrow> [''unknown''] | cs \<Rightarrow> map con_surface cs)"

definition append_operation_audit_details ::
  "contracts \<Rightarrow> uuid \<Rightarrow> string \<Rightarrow> json \<Rightarrow> (writeback_error, unit) dbio" where
  "append_operation_audit_details C i event_class details =
     bind_io read_clock (\<lambda>now.
       exec WbQuery (\<lambda>d. append_audit
         (concat (map (\<lambda>op. map (\<lambda>s. operation_audit C op s event_class now
                                       (wop_provider_request_id op) details) (audit_surfaces d op))
            (operations_with i d))) d))"

definition append_operation_audit :: "contracts \<Rightarrow> uuid \<Rightarrow> string \<Rightarrow> (writeback_error, unit) dbio" where
  "append_operation_audit C i event_class = append_operation_audit_details C i event_class (JObj [])"

definition append_conflict_audit :: "contracts \<Rightarrow> uuid \<Rightarrow> (writeback_error, unit) dbio" where
  "append_conflict_audit C i = append_operation_audit C i ''idempotency_conflict''"

definition append_replay_audit :: "contracts \<Rightarrow> uuid \<Rightarrow> (writeback_error, unit) dbio" where
  "append_replay_audit C i = append_operation_audit C i ''idempotent_replay''"

definition append_admission_audit ::
  "contracts \<Rightarrow> uuid \<Rightarrow> time \<Rightarrow> u32 \<Rightarrow> (writeback_error, unit) dbio" where
  "append_admission_audit C i now cost =
     exec WbQuery (\<lambda>d. append_audit
       (concat (map (\<lambda>op. concat (map (\<lambda>con.
          [operation_audit C op (con_surface con) ''gate_admitted'' now None (JObj []),
           operation_audit C op (con_surface con) ''provider_attempted'' now None
             (JObj [(''budget_class'', JStr ''bookmark_write''),
                    (''cost'', JNum (if uint cost \<le> i32_max then uint cost else i32_max))])])
          (consents_of d op))) (operations_with i d))) d)"

subsection \<open>Claiming an operation\<close>

definition wop_key :: "write_operation \<Rightarrow> uuid \<times> string" where
  "wop_key op = (wop_account_id op, wop_idempotency_digest op)"

definition idempotency_digest :: "contracts \<Rightarrow> bookmark_write_request \<Rightarrow> string" where
  "idempotency_digest C rq = sha256_hex C (as_bytes (rq_idempotency_key rq))"

definition claimed_row ::
  "contracts \<Rightarrow> bookmark_write_request \<Rightarrow> write_action \<Rightarrow> execution_mode \<Rightarrow> archive \<Rightarrow> uuid
   \<Rightarrow> write_operation" where
  "claimed_row C rq action mode d i =
     \<lparr>wop_id = i, wop_account_id = rq_account_id rq, wop_internal_user_id = rq_internal_user_id rq,
      wop_consent_id = (if rq_consent_id rq \<in> con_id ` set (bookmark_write_consents d)
                        then Some (rq_consent_id rq) else None),
      wop_action = action, wop_provider_post_id = rq_provider_post_id rq, wop_execution_mode = mode,
      wop_idempotency_digest = idempotency_digest C rq,
      wop_request_fingerprint = request_fingerprint C rq action mode, wop_status = WReceived,
      wop_outcome = None, wop_provider_request_id = None, wop_rate_limit_reset_at = None,
      wop_projection_observed_at = None\<rparr>"

definition insert_operation ::
  "contracts \<Rightarrow> bookmark_write_request \<Rightarrow> write_action \<Rightarrow> execution_mode
   \<Rightarrow> (writeback_error, uuid option) dbio" where
  "insert_operation C rq action mode =
     sql WbQuery (\<lambda>now fresh d.
       let row = claimed_row C rq action mode d (fresh 0) in
       if wop_key row \<in> wop_key ` set (bookmark_write_operations d) then Some (None, d)
       else if account_exists (rq_account_id rq) d
       then map_option (\<lambda>t. (Some (fresh 0), d\<lparr>bookmark_write_operations := t\<rparr>))
              (insert_unique wop_id row (bookmark_write_operations d))
       else None)"

definition existing_operation ::
  "contracts \<Rightarrow> bookmark_write_request \<Rightarrow> (writeback_error, write_operation) dbio" where
  "existing_operation C rq =
     sql WbQuery (\<lambda>now fresh d.
       map_option (\<lambda>op. (op, d))
         (select_one (\<lambda>op. wop_key op = (rq_account_id rq, idempotency_digest C rq))
            (bookmark_write_operations d)))"

definition claim_operation ::
  "contracts \<Rightarrow> bookmark_write_request \<Rightarrow> write_action \<Rightarrow> execution_mode
   \<Rightarrow> (writeback_error, operation_claim) dbio" where
  "claim_operation C rq action mode =
     bind_io (insert_operation C rq action mode) (\<lambda>claimed.
       case claimed of
         Some i \<Rightarrow> then_io (append_operation_audit C i ''request_received'') (ret (Execute i))
       | None \<Rightarrow>
           bind_io (existing_operation C rq) (\<lambda>op.
             if wop_request_fingerprint op \<noteq> request_fingerprint C rq action mode
             then then_io (append_conflict_audit C (wop_id op)) (throw IdempotencyConflict)
             else case stored_write_status (wop_status op) of
                    Some status \<Rightarrow>
                      then_io (append_replay_audit C (wop_id op))
                        (ret (Replay \<lparr>wr_operation_id = wop_id op, wr_status = status\<rparr>))
                  | None \<Rightarrow> ret (InProgress (wop_id op))))"

subsection \<open>Local admission\<close>

definition REQUIRED_SCOPES :: "string list" where
  "REQUIRED_SCOPES = [''users.read'', ''tweet.read'', ''bookmark.read'', ''offline.access'', ''bookmark.write'']"

definition active_credential :: "uuid \<Rightarrow> archive \<Rightarrow> credential option" where
  "active_credential a d =
     (case rev (sort_key (\<lambda>c. (cred_created_at c, cred_id c))
              (filter (\<lambda>c. cred_account_id c = a \<and> cred_status c = CActive) (credentials d))) of
        [] \<Rightarrow> None | c # _ \<Rightarrow> Some c)"

definition scopes_cover :: "string list \<Rightarrow> string list \<Rightarrow> bool" where
  "scopes_cover cred auth \<longleftrightarrow> list_all (\<lambda>s. s \<in> set cred \<and> s \<in> set auth) REQUIRED_SCOPES"

definition require_write_authority :: "uuid \<Rightarrow> (writeback_error, unit) dbio" where
  "require_write_authority a =
     bind_io (query WbQuery (\<lambda>d. map_option cred_granted_scopes (active_credential a d))) (\<lambda>cred.
       case cred of
         None \<Rightarrow> throw WriteAuthorizationRequired
       | Some cred_scopes \<Rightarrow>
           bind_io (query WbQuery (\<lambda>d. map_option (\<lambda>r. (wau_status r, wau_granted_scopes r))
                      (select_one (\<lambda>r. wau_account_id r = a) (bookmark_write_authorizations d)))) (\<lambda>auth.
             case auth of
               None \<Rightarrow> throw WriteAuthorizationRequired
             | Some (status, auth_scopes) \<Rightarrow>
                 if status \<noteq> WActive then throw WriteAuthorizationRequired
                 else if \<not> scopes_cover cred_scopes auth_scopes then throw WriteScopeRequired
                 else ret ()))"

definition consent_live ::
  "bookmark_write_request \<Rightarrow> write_action \<Rightarrow> time \<Rightarrow> write_consent \<Rightarrow> bool" where
  "consent_live rq action now con \<longleftrightarrow>
     con_id con = rq_consent_id rq \<and> con_internal_user_id con = rq_internal_user_id rq
     \<and> con_account_id con = rq_account_id rq \<and> con_action con = action
     \<and> con_provider_post_id con = rq_provider_post_id rq
     \<and> con_consumed_at con = None \<and> con_expires_at con > now"

definition bookmark_observation :: "bookmark_write_request \<Rightarrow> archive \<Rightarrow> (time \<times> time option) option" where
  "bookmark_observation rq d =
     map_option (\<lambda>b. (bm_last_observed_saved_at b, bm_observed_removed_at b))
       (select_one (\<lambda>b. bm_account_id b = rq_account_id rq
          \<and> list_ex (\<lambda>p. pst_id p = bm_post_id b \<and> pst_provider_id p = rq_provider_post_id rq) (posts d))
          (bookmarks d))"

fun satisfied_at :: "write_action \<Rightarrow> (time \<times> time option) option \<Rightarrow> time option" where
  "satisfied_at WAdd (Some (saved, None)) = Some saved"
| "satisfied_at WRemove (Some (saved, Some removed)) = Some removed"
| "satisfied_at WAdd (Some (saved, Some removed)) = None"
| "satisfied_at WRemove (Some (saved, None)) = None"
| "satisfied_at action None = None"

definition admit_on_budget ::
  "writeback_env \<Rightarrow> bookmark_write_request \<Rightarrow> (writeback_error, local_admission) dbio" where
  "admit_on_budget E rq =
     bind_io (map_err WbBudget (inspect (wb_chrono E) (wb_gate E) (rq_account_id rq) 1)) (\<lambda>inspection.
       if insp_eligible inspection then ret (Admitted (insp_reset_at inspection))
       else ret (AdmRefused RBudgetExhausted (Some (insp_reset_at inspection))))"

definition evaluate_consent ::
  "writeback_env \<Rightarrow> bookmark_write_request \<Rightarrow> write_action \<Rightarrow> time
   \<Rightarrow> (writeback_error, local_admission) dbio" where
  "evaluate_consent E rq action now =
     bind_io (query WbQuery (\<lambda>d. list_ex (consent_live rq action now) (bookmark_write_consents d))) (\<lambda>live.
       if \<not> live then ret (AdmRefused RConsentRequired None)
       else bind_io (query WbQuery (bookmark_observation rq)) (\<lambda>observation.
         case satisfied_at action observation of
           Some t \<Rightarrow> ret (AdmAlreadySatisfied t)
         | None \<Rightarrow> admit_on_budget E rq))"

definition evaluate_local ::
  "writeback_env \<Rightarrow> bookmark_write_request \<Rightarrow> write_action \<Rightarrow> time
   \<Rightarrow> (writeback_error, local_admission) dbio" where
  "evaluate_local E rq action now =
     bind_io (attempt (account_state_of (rq_internal_user_id rq) (rq_account_id rq))) (\<lambda>state.
       case state of
         Inl OwnershipMismatch \<Rightarrow> ret (AdmRefused ROwnershipMismatch None)
       | Inl e \<Rightarrow> throw e
       | Inr s \<Rightarrow>
           if s \<noteq> Connected then ret (AdmRefused RConnectionInactive None)
           else bind_io (attempt (require_write_authority (rq_account_id rq))) (\<lambda>authority.
             case authority of
               Inl WriteAuthorizationRequired \<Rightarrow> ret (AdmRefused RWriteAuthorizationRequired None)
             | Inl WriteScopeRequired \<Rightarrow> ret (AdmRefused RWriteScopeRequired None)
             | Inl e \<Rightarrow> throw e
             | Inr _ \<Rightarrow> evaluate_consent E rq action now))"

subsection \<open>Terminal transitions\<close>

definition update_operation ::
  "uuid \<Rightarrow> write_status \<Rightarrow> (write_operation \<Rightarrow> write_operation) \<Rightarrow> archive \<Rightarrow> archive" where
  "update_operation i expected f d =
     d\<lparr>bookmark_write_operations :=
         update_where (\<lambda>op. wop_id op = i \<and> wop_status op = expected) f (bookmark_write_operations d)\<rparr>"

definition finish_operation ::
  "uuid \<Rightarrow> write_status \<Rightarrow> string \<Rightarrow> time option \<Rightarrow> (writeback_error, unit) dbio" where
  "finish_operation i status outcome observed =
     bind_io read_clock (\<lambda>now.
       exec WbQuery (update_operation i WReceived (\<lambda>op. op\<lparr>wop_status := status,
         wop_outcome := Some outcome, wop_projection_observed_at := observed\<rparr>)))"

definition complete_operation ::
  "contracts \<Rightarrow> uuid \<Rightarrow> write_status \<Rightarrow> string \<Rightarrow> time option \<Rightarrow> (writeback_error, unit) dbio" where
  "complete_operation C i status outcome observed =
     then_io (finish_operation i status outcome observed)
     (if outcome = ''already_satisfied'' then
        then_io (append_operation_audit_details C i ''gate_admitted''
                   (JObj [(''result'', JStr outcome)]))
        (then_io (append_operation_audit_details C i ''projection_reconciled''
                   (JObj [(''projection'', JStr outcome)]))
        (append_operation_audit_details C i ''operation_completed''
                   (JObj [(''result'', JStr outcome)])))
      else ret ())"

definition mark_refused :: "uuid \<Rightarrow> admission_refusal \<Rightarrow> time option \<Rightarrow> (writeback_error, unit) dbio" where
  "mark_refused i class reset =
     bind_io read_clock (\<lambda>now.
       exec WbQuery (update_operation i WReceived (\<lambda>op. op\<lparr>wop_status := WRefused,
         wop_outcome := Some (refusal_outcome class), wop_rate_limit_reset_at := reset\<rparr>)))"

definition refuse_operation ::
  "contracts \<Rightarrow> uuid \<Rightarrow> admission_refusal \<Rightarrow> time option \<Rightarrow> (writeback_error, unit) dbio" where
  "refuse_operation C i class reset =
     then_io (mark_refused i class reset)
       (append_operation_audit_details C i
          (if class = RBudgetExhausted then ''budget_refused'' else ''gate_refused'')
          (case reset of
             None \<Rightarrow> JObj [(''refusal'', JStr (refusal_outcome class))]
           | Some t \<Rightarrow> JObj [(''refusal'', JStr (refusal_outcome class)),
                            (''reset_at'', JStr (rfc3339 C t))]))"

definition mark_dry_run :: "uuid \<Rightarrow> dry_run_result \<Rightarrow> (writeback_error, unit) dbio" where
  "mark_dry_run i result =
     exec WbQuery (update_operation i WReceived (\<lambda>op. op\<lparr>wop_status := WDryRun,
       wop_outcome := Some (dry_run_outcome_token (dr_outcome result)),
       wop_rate_limit_reset_at := dr_budget_reset_at result,
       wop_projection_observed_at := dr_observed_at result\<rparr>))"

fun dry_run_gate :: "contracts \<Rightarrow> dry_run_outcome \<Rightarrow> time option \<Rightarrow> string \<times> json" where
  "dry_run_gate C (WouldRefuse RBudgetExhausted) reset =
     (''budget_refused'', JObj [(''mode'', JStr ''dry_run''),
                                (''reset_at'', jopt_str (map_option (rfc3339 C) reset))])"
| "dry_run_gate C (WouldRefuse refusal) reset =
     (''gate_refused'', JObj [(''mode'', JStr ''dry_run''),
                              (''refusal'', JStr (dry_run_outcome_token (WouldRefuse refusal)))])"
| "dry_run_gate C _ reset = (''gate_admitted'', JObj [(''mode'', JStr ''dry_run'')])"

definition complete_dry_run :: "contracts \<Rightarrow> uuid \<Rightarrow> dry_run_result \<Rightarrow> (writeback_error, unit) dbio" where
  "complete_dry_run C i result =
     then_io (mark_dry_run i result)
     (case dry_run_gate C (dr_outcome result) (dr_budget_reset_at result) of (event, details) \<Rightarrow>
       then_io (append_operation_audit_details C i event details)
         (append_operation_audit C i ''dry_run_completed''))"

definition write_merge :: "bookmark \<Rightarrow> bookmark \<Rightarrow> bookmark" where
  "write_merge new old = old\<lparr>bm_last_observed_saved_at := bm_last_observed_saved_at new,
     bm_observed_removed_at := None, bm_observed_removed_snapshot_id := None,
     bm_last_write_operation_id := bm_last_write_operation_id new,
     bm_last_write_observed_at := bm_last_write_observed_at new,
     bm_observed_removed_write_operation_id := None\<rparr>"

definition written_bookmark :: "uuid \<Rightarrow> uuid \<Rightarrow> uuid \<Rightarrow> uuid \<Rightarrow> time \<Rightarrow> bookmark" where
  "written_bookmark i op a post observed =
     \<lparr>bm_id = i, bm_account_id = a, bm_post_id = post, bm_first_observed_saved_at = observed,
      bm_last_observed_saved_at = observed, bm_observed_removed_at = None,
      bm_observed_removed_snapshot_id = None, bm_last_write_operation_id = Some op,
      bm_last_write_observed_at = Some observed, bm_observed_removed_write_operation_id = None,
      bm_last_incremental_run_id = None\<rparr>"

definition operation_exists :: "uuid \<Rightarrow> archive \<Rightarrow> bool" where
  "operation_exists i d \<longleftrightarrow> i \<in> wop_id ` set (bookmark_write_operations d)"

definition project_add :: "uuid \<Rightarrow> uuid \<Rightarrow> uuid \<Rightarrow> time \<Rightarrow> (writeback_error, bool) dbio" where
  "project_add op a post observed =
     sql WbQuery (\<lambda>now fresh d.
       let row = written_bookmark (fresh 0) op a post observed in
       if operation_exists op d \<and> account_exists a d
          \<and> (bm_key row \<in> bm_key ` set (bookmarks d) \<or> fresh 0 \<notin> bm_id ` set (bookmarks d))
       then Some (True, d\<lparr>bookmarks := upsert bm_key write_merge row (bookmarks d)\<rparr>)
       else None)"

definition project_remove :: "uuid \<Rightarrow> uuid \<Rightarrow> uuid \<Rightarrow> time \<Rightarrow> (writeback_error, bool) dbio" where
  "project_remove op a post observed =
     sql WbQuery (\<lambda>now fresh d.
       let hit = (\<lambda>b. bm_account_id b = a \<and> bm_post_id b = post) in
       if list_ex hit (bookmarks d) \<and> \<not> operation_exists op d then None
       else Some (length (filter hit (bookmarks d)) = 1,
              d\<lparr>bookmarks := update_where hit
                 (\<lambda>b. b\<lparr>bm_observed_removed_at := Some observed, bm_observed_removed_snapshot_id := None,
                        bm_observed_removed_write_operation_id := Some op\<rparr>) (bookmarks d)\<rparr>))"

definition project_confirmed_bookmark ::
  "uuid \<Rightarrow> uuid \<Rightarrow> string \<Rightarrow> write_action \<Rightarrow> time \<Rightarrow> (writeback_error, bool) dbio" where
  "project_confirmed_bookmark op a post action observed =
     bind_io (query WbQuery (\<lambda>d. map_option pst_id
                (select_one (\<lambda>p. pst_provider_id p = post) (posts d)))) (\<lambda>row.
       case row of
         None \<Rightarrow> ret False
       | Some post_id \<Rightarrow>
           (case action of
              WAdd \<Rightarrow> project_add op a post_id observed
            | WRemove \<Rightarrow> project_remove op a post_id observed))"

definition confirm_operation ::
  "uuid \<Rightarrow> bool \<Rightarrow> string option \<Rightarrow> time \<Rightarrow> archive \<Rightarrow> archive" where
  "confirm_operation i projected request_id observed =
     update_operation i WProviderInFlight (\<lambda>op.
       op\<lparr>wop_status := (if projected then WSucceeded else WProjectionPending),
          wop_outcome := Some ''confirmed'', wop_provider_request_id := request_id,
          wop_projection_observed_at := (if projected then Some observed else None)\<rparr>)"

definition confirm_audit ::
  "contracts \<Rightarrow> uuid \<Rightarrow> bool \<Rightarrow> string option \<Rightarrow> time \<Rightarrow> archive \<Rightarrow> archive" where
  "confirm_audit C i projected request_id observed d =
     append_audit (concat (map (\<lambda>op. concat (map (\<lambda>con. map (\<lambda>event.
         operation_audit C op (con_surface con) event observed request_id
           (JObj [(''projection'', JStr (if projected then ''updated'' else ''pending'')),
                  (''result'', JStr ''confirmed'')]))
         [''provider_classified'', ''projection_reconciled'', ''operation_completed''])
       (consents_of d op))) (operations_with i d))) d"

definition complete_confirmed ::
  "contracts \<Rightarrow> uuid \<Rightarrow> uuid \<Rightarrow> string \<Rightarrow> write_action \<Rightarrow> provider_evidence
   \<Rightarrow> (writeback_error, bookmark_write_status) dbio" where
  "complete_confirmed C i a post action evidence =
     bind_io read_clock (\<lambda>observed.
       transaction WbQuery
         (bind_io (project_confirmed_bookmark i a post action observed) (\<lambda>projected.
          then_io (exec WbQuery (confirm_operation i projected (ev_request_id evidence) observed))
          (then_io (exec WbQuery (confirm_audit C i projected (ev_request_id evidence) observed))
          (ret (if projected then Succeeded else ProjectionPending))))))"

definition mark_uncertain :: "uuid \<Rightarrow> provider_evidence \<Rightarrow> (writeback_error, unit) dbio" where
  "mark_uncertain i evidence =
     bind_io read_clock (\<lambda>now.
       exec WbQuery (update_operation i WProviderInFlight (\<lambda>op. op\<lparr>wop_status := WUncertain,
         wop_outcome := Some ''uncertain'', wop_provider_request_id := ev_request_id evidence\<rparr>)))"

definition complete_uncertain :: "contracts \<Rightarrow> uuid \<Rightarrow> provider_evidence \<Rightarrow> (writeback_error, unit) dbio" where
  "complete_uncertain C i evidence =
     then_io (mark_uncertain i evidence)
       (for_each (\<lambda>event. append_operation_audit_details C i event
                            (JObj [(''result'', JStr ''uncertain'')]))
          [''provider_classified'', ''outcome_uncertain'', ''operation_completed''])"

definition mark_provider_failure ::
  "uuid \<Rightarrow> string \<Rightarrow> string option \<Rightarrow> time option \<Rightarrow> (writeback_error, unit) dbio" where
  "mark_provider_failure i outcome request_id reset =
     bind_io read_clock (\<lambda>now.
       exec WbQuery (update_operation i WProviderInFlight (\<lambda>op. op\<lparr>wop_status := WFailed,
         wop_outcome := Some outcome, wop_provider_request_id := request_id,
         wop_rate_limit_reset_at := reset\<rparr>)))"

definition complete_provider_failure ::
  "contracts \<Rightarrow> chrono \<Rightarrow> uuid \<Rightarrow> provider_error \<Rightarrow> (writeback_error, unit) dbio" where
  "complete_provider_failure C c i error =
     (case provider_failure_evidence c error of (outcome, request_id, reset) \<Rightarrow>
        then_io (mark_provider_failure i outcome request_id reset)
        (then_io (append_operation_audit_details C i ''provider_classified''
                    (JObj [(''result'', JStr outcome)]))
        (append_operation_audit_details C i ''operation_completed''
                    (JObj [(''result'', JStr outcome)]))))"

subsection \<open>Spending the consent\<close>

definition refund_before_provider ::
  "writeback_env \<Rightarrow> uuid \<Rightarrow> reservation \<Rightarrow> (writeback_error, unit) dbio" where
  "refund_before_provider E a r =
     map_err WbBudget (refund (wb_gate E) a (rsv_window_start r) (rsv_cost r))"

definition spend_consent :: "uuid \<Rightarrow> time \<Rightarrow> archive \<Rightarrow> archive" where
  "spend_consent c now d =
     d\<lparr>bookmark_write_consents := update_where (\<lambda>con. con_id con = c)
         (\<lambda>con. con\<lparr>con_consumed_at := Some now\<rparr>) (bookmark_write_consents d)\<rparr>"

definition consume_transaction ::
  "contracts \<Rightarrow> uuid \<Rightarrow> bookmark_write_request \<Rightarrow> write_action \<Rightarrow> time \<Rightarrow> u32
   \<Rightarrow> (writeback_error, unit) dbio" where
  "consume_transaction C i rq action now cost =
     transaction WbQuery
       (bind_io (query WbQuery (\<lambda>d. list_ex (consent_live rq action now) (bookmark_write_consents d)))
         (\<lambda>locked.
          if \<not> locked then throw ConsentRequired
          else then_io (exec WbQuery (spend_consent (rq_consent_id rq) now))
          (then_io (exec WbQuery (update_operation i WReceived (\<lambda>op. op\<lparr>wop_status := WProviderInFlight\<rparr>)))
          (append_admission_audit C i now cost))))"

definition consume_consent ::
  "writeback_env \<Rightarrow> uuid \<Rightarrow> bookmark_write_request \<Rightarrow> write_action \<Rightarrow> time \<Rightarrow> reservation
   \<Rightarrow> (writeback_error, unit) dbio" where
  "consume_consent E i rq action now r =
     bind_io (attempt (consume_transaction (wb_contracts E) i rq action now (rsv_cost r))) (\<lambda>outcome.
       case outcome of
         Inl e \<Rightarrow> then_io (refund_before_provider E (rq_account_id rq) r) (throw e)
       | Inr _ \<Rightarrow> ret ())"

subsection \<open>Waiting for another caller\<close>

definition MAX_POLLS :: nat where
  "MAX_POLLS = 500"

definition sleep_io :: "(nat \<Rightarrow> archive \<Rightarrow> archive) \<Rightarrow> ('e, unit) dbio" where
  "sleep_io others w = (Inr (), (advance w)\<lparr>db := others (tick w) (db w)\<rparr>)"

primrec poll_operation ::
  "nat \<Rightarrow> writeback_env \<Rightarrow> uuid \<Rightarrow> (writeback_error, bookmark_write_result) dbio" where
  "poll_operation 0 E i = throw OperationInProgress"
| "poll_operation (Suc n) E i =
     bind_io (query WbQuery (\<lambda>d. map_option wop_status
                (select_one (\<lambda>op. wop_id op = i) (bookmark_write_operations d)))) (\<lambda>status.
       case Option.bind status stored_write_status of
         Some st \<Rightarrow> then_io (append_replay_audit (wb_contracts E) i)
                     (ret \<lparr>wr_operation_id = i, wr_status = st\<rparr>)
       | None \<Rightarrow> then_io (sleep_io (wb_others E)) (poll_operation n E i))"

definition wait_for_operation ::
  "writeback_env \<Rightarrow> uuid \<Rightarrow> (writeback_error, bookmark_write_result) dbio" where
  "wait_for_operation E i = poll_operation MAX_POLLS E i"

subsection \<open>Executing a request\<close>

definition valid_request :: "bookmark_write_request \<Rightarrow> writeback_error + unit" where
  "valid_request rq =
     (case validate_provider_post_id (rq_provider_post_id rq) of
        Inl e \<Rightarrow> Inl e
      | Inr _ \<Rightarrow> if rq_idempotency_key rq = [] \<or> length (rq_idempotency_key rq) > 256
                then Inl InvalidIdempotencyKey else Inr ())"

definition call_provider ::
  "writeback_env \<Rightarrow> mutation_provider \<Rightarrow> uuid \<Rightarrow> bookmark_write_request \<Rightarrow> write_action
   \<Rightarrow> (writeback_error, bookmark_write_result) dbio" where
  "call_provider E P i rq action =
     bind_io (attempt (P action (rq_account_id rq) (rq_provider_post_id rq))) (\<lambda>outcome.
       case outcome of
         Inr evidence \<Rightarrow>
           bind_io (complete_confirmed (wb_contracts E) i (rq_account_id rq) (rq_provider_post_id rq)
                      action evidence)
             (\<lambda>status. ret \<lparr>wr_operation_id = i, wr_status = status\<rparr>)
       | Inl (PUncertain _ evidence) \<Rightarrow>
           then_io (complete_uncertain (wb_contracts E) i evidence)
             (ret \<lparr>wr_operation_id = i, wr_status = StatusUncertain\<rparr>)
       | Inl error \<Rightarrow>
           then_io (complete_provider_failure (wb_contracts E) (wb_chrono E) i error)
             (throw (WbProvider error)))"

definition submit_admitted ::
  "writeback_env \<Rightarrow> mutation_provider \<Rightarrow> uuid \<Rightarrow> bookmark_write_request \<Rightarrow> write_action \<Rightarrow> time
   \<Rightarrow> (writeback_error, bookmark_write_result) dbio" where
  "submit_admitted E P i rq action now =
     bind_io (attempt (reserve (wb_chrono E) (wb_gate E) (rq_account_id rq) 1)) (\<lambda>outcome.
       case outcome of
         Inr r \<Rightarrow> then_io (consume_consent E i rq action now r) (call_provider E P i rq action)
       | Inl (Exhausted reset) \<Rightarrow>
           then_io (refuse_operation (wb_contracts E) i RBudgetExhausted (Some reset))
             (throw (WbBudget (Exhausted reset)))
       | Inl error \<Rightarrow> throw (WbBudget error))"

definition execute_claimed ::
  "writeback_env \<Rightarrow> mutation_provider \<Rightarrow> uuid \<Rightarrow> bookmark_write_request \<Rightarrow> write_action
   \<Rightarrow> (writeback_error, bookmark_write_result) dbio" where
  "execute_claimed E P i rq action =
     bind_io read_clock (\<lambda>now.
     bind_io (evaluate_local E rq action now) (\<lambda>admission.
       case admission of
         Admitted _ \<Rightarrow> submit_admitted E P i rq action now
       | AdmAlreadySatisfied observed \<Rightarrow>
           then_io (complete_operation (wb_contracts E) i WSucceeded ''already_satisfied'' (Some observed))
             (ret \<lparr>wr_operation_id = i, wr_status = AlreadySatisfied\<rparr>)
       | AdmRefused class reset \<Rightarrow>
           then_io (refuse_operation (wb_contracts E) i class reset)
             (throw (admission_refusal_error class reset))))"

definition execute ::
  "writeback_env \<Rightarrow> mutation_provider \<Rightarrow> bookmark_write_request \<Rightarrow> write_action
   \<Rightarrow> (writeback_error, bookmark_write_result) dbio" where
  "execute E P rq action =
     then_io (of_result (valid_request rq))
     (bind_io (claim_operation (wb_contracts E) rq action Live) (\<lambda>claim.
       case claim of
         Execute i \<Rightarrow> execute_claimed E P i rq action
       | Replay result \<Rightarrow> ret result
       | InProgress i \<Rightarrow> wait_for_operation E i))"

definition add_bookmark ::
  "writeback_env \<Rightarrow> mutation_provider \<Rightarrow> bookmark_write_request
   \<Rightarrow> (writeback_error, bookmark_write_result) dbio" where
  "add_bookmark E P rq = execute E P rq WAdd"

definition remove_bookmark_live ::
  "writeback_env \<Rightarrow> mutation_provider \<Rightarrow> bookmark_write_request
   \<Rightarrow> (writeback_error, bookmark_write_result) dbio" where
  "remove_bookmark_live E P rq = execute E P rq WRemove"

fun dry_run_of :: "write_action \<Rightarrow> time \<Rightarrow> local_admission \<Rightarrow> dry_run_result" where
  "dry_run_of action now (AdmRefused class reset) =
     \<lparr>dr_outcome = WouldRefuse class, dr_evaluated_at = now, dr_observed_at = None,
      dr_budget_reset_at = reset, dr_advisory = True\<rparr>"
| "dry_run_of action now (AdmAlreadySatisfied observed) =
     \<lparr>dr_outcome = WouldAlreadySatisfy action, dr_evaluated_at = now, dr_observed_at = Some observed,
      dr_budget_reset_at = None, dr_advisory = True\<rparr>"
| "dry_run_of action now (Admitted reset) =
     \<lparr>dr_outcome = WouldSubmit action, dr_evaluated_at = now, dr_observed_at = None,
      dr_budget_reset_at = Some reset, dr_advisory = True\<rparr>"

definition dry_run ::
  "writeback_env \<Rightarrow> bookmark_write_request \<Rightarrow> write_action \<Rightarrow> (writeback_error, dry_run_result) dbio" where
  "dry_run E rq action =
     then_io (of_result (valid_request rq))
     (bind_io (claim_operation (wb_contracts E) rq action DryRun) (\<lambda>claim.
       case claim of
         Execute i \<Rightarrow>
           bind_io read_clock (\<lambda>now.
           bind_io (evaluate_local E rq action now) (\<lambda>admission.
             let result = dry_run_of action now admission in
             then_io (complete_dry_run (wb_contracts E) i result) (ret result)))
       | _ \<Rightarrow> throw OperationInProgress))"

end
