(* ===== verification/Writeback_Correct.thy ===== *)
theory Writeback_Correct
  imports Writeback Snapshot_Correct
begin

text \<open>
  What a bookmark write request may touch and when it reaches the provider. The frames say which tables each
  part of the service writes (interpretations of the locale \<open>frame\<close>); \<open>admissible\<close> is the condition under which a
  request is submitted; a claimed operation is followed through to its terminal row, which a retry finds again.
\<close>

section \<open>What each step may write\<close>

text \<open>\<open>audit_frame\<close>: only the audit trail; \<open>request_frame\<close>: only operations and the audit trail.\<close>

definition audit_frame :: "archive \<Rightarrow> archive \<Rightarrow> bool" where
  "audit_frame d d' \<longleftrightarrow> d' = d\<lparr>bookmark_write_audit_events := bookmark_write_audit_events d'\<rparr>"

definition request_frame :: "archive \<Rightarrow> archive \<Rightarrow> bool" where
  "request_frame d d' \<longleftrightarrow> d' = d\<lparr>bookmark_write_operations := bookmark_write_operations d',
     bookmark_write_audit_events := bookmark_write_audit_events d'\<rparr>"

interpretation reading: frame "(=) :: archive \<Rightarrow> archive \<Rightarrow> bool"
  by unfold_locales simp_all

interpretation auditing: frame audit_frame
proof
  fix d :: archive show "audit_frame d d" by (simp add: audit_frame_def)
next
  fix d d' d'' assume d': "audit_frame d d'" and d'': "audit_frame d' d''"
  from d'' show "audit_frame d d''"
    unfolding audit_frame_def by (subst (asm) d' [unfolded audit_frame_def]) simp
qed

interpretation requesting: frame request_frame
proof
  fix d :: archive show "request_frame d d" by (simp add: request_frame_def)
next
  fix d d' d'' assume d': "request_frame d d'" and d'': "request_frame d' d''"
  from d'' show "request_frame d d''"
    unfolding request_frame_def by (subst (asm) d' [unfolded request_frame_def]) simp
qed

lemma audit_request_frame: "audit_frame d d' \<Longrightarrow> request_frame d d'"
  unfolding audit_frame_def request_frame_def
  by (metis archive.select_convs(14) archive.surjective archive.update_convs(14,16))

lemma within_audit_request: "within audit_frame m \<Longrightarrow> within request_frame m"
  by (erule within_mono) (rule audit_request_frame)

lemma within_read_audit: "within (=) m \<Longrightarrow> within audit_frame m"
  by (erule within_mono) (auto simp: auditing.frame_refl)

lemma audits_frame:
  "within audit_frame (append_operation_audit_details C i ev det)"
  "within audit_frame (append_operation_audit C i ev)"
  "within audit_frame (append_conflict_audit C i)"
  "within audit_frame (append_replay_audit C i)"
proof -
  show 1: "within audit_frame (append_operation_audit_details C i ev det)" for ev det
    unfolding append_operation_audit_details_def append_audit_def
    by (intro auditing.within_intros auditing.within_exec) (simp add: audit_frame_def)
  show 2: "within audit_frame (append_operation_audit C i ev)" for ev
    unfolding append_operation_audit_def by (rule 1)
  show "within audit_frame (append_conflict_audit C i)" "within audit_frame (append_replay_audit C i)"
    unfolding append_conflict_audit_def append_replay_audit_def by (rule 2)+
qed

lemmas audits_request = audits_frame [THEN within_audit_request]

lemma reads_only:
  "within (=) (account_state_of u a)" "within (=) (require_write_authority a)"
  "within (=) (inspect c g a n)" "within (=) (admit_on_budget E rq)"
  "within (=) (evaluate_consent E rq act t)"
proof -
  show "within (=) (account_state_of u a)"
    unfolding account_state_of_def by (intro reading.within_intros)
  show "within (=) (require_write_authority a)"
    unfolding require_write_authority_def by (intro reading.within_intros)
  show 1: "within (=) (inspect c g a n)" for c g a n
    unfolding within_def by (metis inspect_db prod.collapse)
  show 2: "within (=) (admit_on_budget E rq)"
    unfolding admit_on_budget_def by (intro reading.within_intros 1)
  show "within (=) (evaluate_consent E rq act t)"
    unfolding evaluate_consent_def by (intro reading.within_intros 2)
qed

lemma evaluate_local_reads: "within (=) (evaluate_local E rq act t)"
  unfolding evaluate_local_def
  by (intro reading.within_intros reads_only) (auto split: writeback_error.splits intro: reading.within_intros reads_only)

lemma update_operation_request: "request_frame d (update_operation i st f d)"
  by (simp add: update_operation_def request_frame_def)

lemma transitions_request:
  "within request_frame (finish_operation i st out t)"
  "within request_frame (mark_refused i cls reset)"
  "within request_frame (mark_dry_run i res)"
  "within request_frame (mark_uncertain i ev)"
  "within request_frame (mark_provider_failure i o' q reset)"
  unfolding finish_operation_def mark_refused_def mark_dry_run_def mark_uncertain_def mark_provider_failure_def
  by (intro requesting.within_intros requesting.within_exec update_operation_request)+

lemma completions_request:
  "within request_frame (complete_operation C i st out t)"
  "within request_frame (refuse_operation C i cls reset)"
  "within request_frame (complete_dry_run C i res)"
  "within request_frame (complete_uncertain C i ev)"
  "within request_frame (complete_provider_failure C c i err)"
  unfolding complete_operation_def refuse_operation_def complete_dry_run_def complete_uncertain_def
    complete_provider_failure_def
  by (intro requesting.within_intros transitions_request audits_request)+

lemma claim_request: "within request_frame (claim_operation C rq act mode)"
proof -
  have 1: "within request_frame (insert_operation C rq act mode)"
    unfolding insert_operation_def
    by (rule requesting.within_sql)
       (auto simp: Let_def request_frame_def split: if_splits)
  have 2: "within request_frame (existing_operation C rq)"
    unfolding existing_operation_def by (rule requesting.within_sql) (auto simp: requesting.frame_refl)
  show ?thesis
    unfolding claim_operation_def by (intro requesting.within_intros 1 2 audits_request)
qed

lemma dry_run_request: "within request_frame (dry_run E rq act)"
proof -
  have ev: "within request_frame (evaluate_local E rq act t)" for t
    by (rule within_audit_request [OF within_read_audit [OF evaluate_local_reads]])
  show ?thesis
    unfolding dry_run_def Let_def
    by (intro requesting.within_intros claim_request)
       (auto split: operation_claim.splits intro!: requesting.within_intros ev completions_request)
qed

section \<open>Admission\<close>

definition owner_connected :: "bookmark_write_request \<Rightarrow> archive \<Rightarrow> bool" where
  "owner_connected rq d \<longleftrightarrow>
     map_option acc_state (select_one (\<lambda>r. acc_id r = rq_account_id rq
        \<and> acc_internal_user_id r = rq_internal_user_id rq) (accounts d)) = Some Connected"

definition write_authorized :: "uuid \<Rightarrow> archive \<Rightarrow> bool" where
  "write_authorized a d \<longleftrightarrow>
     (case (active_credential a d, select_one (\<lambda>r. wau_account_id r = a) (bookmark_write_authorizations d)) of
        (Some c, Some r) \<Rightarrow> wau_status r = WActive \<and> scopes_cover (cred_granted_scopes c) (wau_granted_scopes r)
      | _ \<Rightarrow> False)"

definition admissible :: "bookmark_write_request \<Rightarrow> write_action \<Rightarrow> time \<Rightarrow> archive \<Rightarrow> bool" where
  "admissible rq action now d \<longleftrightarrow>
     owner_connected rq d \<and> write_authorized (rq_account_id rq) d
     \<and> list_ex (consent_live rq action now) (bookmark_write_consents d)
     \<and> satisfied_at action (bookmark_observation rq d) = None"

lemma require_write_authority_Inr:
  "require_write_authority a w = (Inr x, w') \<Longrightarrow> write_authorized a (db w)"
  by (auto simp: require_write_authority_def write_authorized_def io_run split: option.splits prod.splits if_splits)

lemma account_state_of_Inr:
  "account_state_of u a w = (Inr s, w') \<Longrightarrow>
     map_option acc_state (select_one (\<lambda>r. acc_id r = a \<and> acc_internal_user_id r = u) (accounts (db w))) = Some s"
  by (auto simp: account_state_of_def io_run split: option.splits)

lemma evaluate_consent_Admitted:
  assumes "evaluate_consent E rq act t w = (Inr (Admitted reset), w')"
  shows "list_ex (consent_live rq act t) (bookmark_write_consents (db w))
    \<and> satisfied_at act (bookmark_observation rq (db w)) = None"
  using assms by (auto simp: evaluate_consent_def io_run split: option.splits if_splits)

lemma evaluate_local_Admitted:
  assumes "evaluate_local E rq act t w = (Inr (Admitted reset), w')"
  shows "db w' = db w \<and> admissible rq act t (db w)"
proof -
  from assms obtain s w1 where s: "account_state_of (rq_internal_user_id rq) (rq_account_id rq) w = (s, w1)"
    and rest: "(case s of Inl OwnershipMismatch \<Rightarrow> ret (AdmRefused ROwnershipMismatch None)
       | Inl e \<Rightarrow> throw e
       | Inr s \<Rightarrow>
           if s \<noteq> Connected then ret (AdmRefused RConnectionInactive None)
           else bind_io (attempt (require_write_authority (rq_account_id rq))) (\<lambda>authority.
             case authority of
               Inl WriteAuthorizationRequired \<Rightarrow> ret (AdmRefused RWriteAuthorizationRequired None)
             | Inl WriteScopeRequired \<Rightarrow> ret (AdmRefused RWriteScopeRequired None)
             | Inl e \<Rightarrow> throw e
             | Inr _ \<Rightarrow> evaluate_consent E rq act t)) w1 = (Inr (Admitted reset), w')"
    unfolding evaluate_local_def by (auto simp: bind_io_Inr attempt_Inr)
  have db1: "db w1 = db w" using withinD [OF reads_only(1) s] by simp
  from rest obtain st where st: "s = Inr st" "st = Connected"
    and rest2: "bind_io (attempt (require_write_authority (rq_account_id rq))) (\<lambda>authority.
             case authority of
               Inl WriteAuthorizationRequired \<Rightarrow> ret (AdmRefused RWriteAuthorizationRequired None)
             | Inl WriteScopeRequired \<Rightarrow> ret (AdmRefused RWriteScopeRequired None)
             | Inl e \<Rightarrow> throw e
             | Inr _ \<Rightarrow> evaluate_consent E rq act t) w1 = (Inr (Admitted reset), w')"
    by (cases s) (auto simp: ret_Inr throw_Inr split: writeback_error.splits if_splits)
  from rest2 obtain au w2 where au: "require_write_authority (rq_account_id rq) w1 = (au, w2)"
    and rest3: "(case au of
               Inl WriteAuthorizationRequired \<Rightarrow> ret (AdmRefused RWriteAuthorizationRequired None)
             | Inl WriteScopeRequired \<Rightarrow> ret (AdmRefused RWriteScopeRequired None)
             | Inl e \<Rightarrow> throw e
             | Inr _ \<Rightarrow> evaluate_consent E rq act t) w2 = (Inr (Admitted reset), w')"
    by (auto simp: bind_io_Inr attempt_Inr)
  have db2: "db w2 = db w1" using withinD [OF reads_only(2) au] by simp
  from rest3 obtain x where x: "au = Inr x" and ev: "evaluate_consent E rq act t w2 = (Inr (Admitted reset), w')"
    by (cases au) (auto simp: ret_Inr throw_Inr split: writeback_error.splits)
  have db3: "db w' = db w2" using withinD [OF reads_only(5) ev] by simp
  show ?thesis
    using account_state_of_Inr [OF s [unfolded st]] require_write_authority_Inr [OF au [unfolded x]]
      evaluate_consent_Admitted [OF ev] db1 db2 db3
    by (simp add: admissible_def owner_connected_def)
qed

section \<open>Following one operation\<close>

lemma claim_Execute:
  assumes "claim_operation C rq act mode w = (Inr (Execute i), w')"
  shows "(rq_account_id rq, idempotency_digest C rq) \<notin> wop_key ` set (bookmark_write_operations (db w))"
    and "i \<notin> wop_id ` set (bookmark_write_operations (db w))"
    and "bookmark_write_operations (db w') = bookmark_write_operations (db w) @ [claimed_row C rq act mode (db w) i]"
proof -
  from assms obtain c w1 where c: "insert_operation C rq act mode w = (Inr c, w1)"
    and rest: "(case c of
         Some i \<Rightarrow> then_io (append_operation_audit C i ''request_received'') (ret (Execute i))
       | None \<Rightarrow>
           bind_io (existing_operation C rq) (\<lambda>op.
             if wop_request_fingerprint op \<noteq> request_fingerprint C rq act mode
             then then_io (append_conflict_audit C (wop_id op)) (throw IdempotencyConflict)
             else case stored_write_status (wop_status op) of
                    Some status \<Rightarrow>
                      then_io (append_replay_audit C (wop_id op))
                        (ret (Replay \<lparr>wr_operation_id = wop_id op, wr_status = status\<rparr>))
                  | None \<Rightarrow> ret (InProgress (wop_id op)))) w1 = (Inr (Execute i), w')"
    unfolding claim_operation_def bind_io_Inr by blast
  from rest have "c = Some i"
    by (cases c) (auto simp: bind_io_Inr then_io_Inr ret_Inr throw_Inr split: if_splits option.splits)
  with c rest have ins: "insert_operation C rq act mode w = (Inr (Some i), w1)"
    and aud: "append_operation_audit C i ''request_received'' w1 = (Inr (), w')"
    by (simp_all add: then_io_Inr ret_Inr)
  have "audit_frame (db w1) (db w')" by (rule withinD [OF audits_frame(2) aud])
  then have same: "bookmark_write_operations (db w') = bookmark_write_operations (db w1)"
    unfolding audit_frame_def by (metis archive.select_convs(14) archive.surjective archive.update_convs(16))
  have key: "wop_key (claimed_row C rq act mode (db w) j) = (rq_account_id rq, idempotency_digest C rq)" for j
    by (simp add: wop_key_def claimed_row_def)
  have wid: "wop_id (claimed_row C rq act mode (db w) j) = j" for j
    by (simp add: claimed_row_def)
  from ins show "(rq_account_id rq, idempotency_digest C rq) \<notin> wop_key ` set (bookmark_write_operations (db w))"
    and "i \<notin> wop_id ` set (bookmark_write_operations (db w))"
    and "bookmark_write_operations (db w') = bookmark_write_operations (db w) @ [claimed_row C rq act mode (db w) i]"
    by (auto simp: insert_operation_def sql_Inr Let_def key wid insert_unique_Some same split: if_splits)
qed

lemma claim_steady: "steady (claim_operation C rq act mode)"
  unfolding claim_operation_def insert_operation_def existing_operation_def append_conflict_audit_def
    append_replay_audit_def append_operation_audit_def append_operation_audit_details_def
  by (intro steady_intros)

lemma execute_depends_on_provider:
  assumes "execute E P rq act w \<noteq> execute E P' rq act w"
  obtains i w1 reset w2 r w3 w4 where
    "claim_operation (wb_contracts E) rq act Live w = (Inr (Execute i), w1)"
    "evaluate_local E rq act (clock (sched w1) (tick w1)) (advance w1) = (Inr (Admitted reset), w2)"
    "reserve (wb_chrono E) (wb_gate E) (rq_account_id rq) 1 w2 = (Inr r, w3)"
    "consume_consent E i rq act (clock (sched w1) (tick w1)) r w3 = (Inr (), w4)"
proof -
  have "valid_request rq = Inr ()"
    using assms by (cases "valid_request rq") (auto simp: execute_def then_io_def bind_io_def of_result_def)
  then have exec: "execute E Q rq act w =
      bind_io (claim_operation (wb_contracts E) rq act Live) (\<lambda>claim.
       case claim of
         Execute i \<Rightarrow> execute_claimed E Q i rq act
       | Replay result \<Rightarrow> ret result
       | InProgress i \<Rightarrow> wait_for_operation E i) w" for Q
    by (simp add: execute_def then_io_def bind_io_def of_result_def)
  obtain claim w1 where claim: "claim_operation (wb_contracts E) rq act Live w = (claim, w1)" by fastforce
  with assms obtain i where i: "claim = Inr (Execute i)"
    and diff: "execute_claimed E P i rq act w1 \<noteq> execute_claimed E P' i rq act w1"
    by (cases claim) (auto simp: exec bind_io_def split: operation_claim.splits)
  let ?now = "clock (sched w1) (tick w1)"
  obtain adm w2 where adm: "evaluate_local E rq act ?now (advance w1) = (adm, w2)" by fastforce
  with diff obtain reset where reset: "adm = Inr (Admitted reset)"
    and diff2: "submit_admitted E P i rq act ?now w2 \<noteq> submit_admitted E P' i rq act ?now w2"
    unfolding execute_claimed_def bind_read_clock
    by (cases adm) (auto simp: bind_io_def split: local_admission.splits)
  obtain rs w3 where rs: "reserve (wb_chrono E) (wb_gate E) (rq_account_id rq) 1 w2 = (rs, w3)" by fastforce
  with diff2 obtain r where r: "rs = Inr r"
    and diff3: "then_io (consume_consent E i rq act ?now r) (call_provider E P i rq act) w3
       \<noteq> then_io (consume_consent E i rq act ?now r) (call_provider E P' i rq act) w3"
    by (cases rs) (auto simp: submit_admitted_def bind_io_def attempt_def split: budget_error.splits)
  obtain cs w4 where cs: "consume_consent E i rq act ?now r w3 = (cs, w4)" by fastforce
  with diff3 have "cs = Inr ()" by (cases cs) (auto simp: then_io_def bind_io_def)
  with that claim i adm reset rs r cs show thesis by blast
qed

lemma request_frame_tables:
  assumes "request_frame d d'"
  shows "accounts d' = accounts d" "credentials d' = credentials d" "posts d' = posts d"
    "bookmark_write_authorizations d' = bookmark_write_authorizations d" "bookmarks d' = bookmarks d"
    "bookmark_write_consents d' = bookmark_write_consents d" "api_budget_windows d' = api_budget_windows d"
  by (subst assms [unfolded request_frame_def], simp)+

lemma admissible_frame: "request_frame d d' \<Longrightarrow> admissible rq act t d' = admissible rq act t d"
  by (simp add: admissible_def owner_connected_def write_authorized_def active_credential_def
      bookmark_observation_def request_frame_tables)

text \<open>
  C6. The provider is contacted only for an admitted request. If the outcome of a live request depends on
  the provider in any way (it is called), then no operation of the account was stored under the request's idempotency key, the
  account belongs to the requesting user and is connected, an active credential and an active write
  authorization both carry every required scope, a consent of that user for exactly this account, action
  and post is unconsumed and unexpired at the evaluation instant, and the archive does not already show the requested state.
\<close>

theorem provider_called_only_when_admitted:
  assumes "execute E P rq act w \<noteq> execute E P' rq act w"
  shows "(rq_account_id rq, idempotency_digest (wb_contracts E) rq)
           \<notin> wop_key ` set (bookmark_write_operations (db w))
    \<and> (\<exists>k. admissible rq act (clock (sched w) k) (db w))"
proof -
  from assms obtain i w1 reset w2 r w3 w4 where
    claim: "claim_operation (wb_contracts E) rq act Live w = (Inr (Execute i), w1)" and
    adm: "evaluate_local E rq act (clock (sched w1) (tick w1)) (advance w1) = (Inr (Admitted reset), w2)"
    by (rule execute_depends_on_provider)
  have "admissible rq act (clock (sched w1) (tick w1)) (db w1)"
    using evaluate_local_Admitted [OF adm] by simp
  moreover have "request_frame (db w) (db w1)" by (rule withinD [OF claim_request claim])
  moreover have "sched w1 = sched w" by (rule steadyD [OF claim_steady claim])
  ultimately show ?thesis
    using claim_Execute(1) [OF claim] by (auto simp: admissible_frame)
qed

section \<open>The life of a claimed operation\<close>

definition budget_frame :: "archive \<Rightarrow> archive \<Rightarrow> bool" where
  "budget_frame d d' \<longleftrightarrow> d' = d\<lparr>api_budget_windows := api_budget_windows d'\<rparr>"

interpretation budgeting: frame budget_frame
proof
  fix d :: archive show "budget_frame d d" by (simp add: budget_frame_def)
next
  fix d d' d'' assume d': "budget_frame d d'" and d'': "budget_frame d' d''"
  from d'' show "budget_frame d d''"
    unfolding budget_frame_def by (subst (asm) d' [unfolded budget_frame_def]) simp
qed

lemma gate_budget_frame: "within budget_frame (reserve c g a n)" "within budget_frame (refund g a ws n)"
proof -
  have st: "within budget_frame (ensure_window a cls ws secs cap)" "within budget_frame (read_usage a cls ws)"
    "within budget_frame (bump_usage a cls ws cost)" "within budget_frame (refund_window a cls ws m)"
    for a cls ws secs cap cost m
    unfolding ensure_window_def read_usage_def bump_usage_def refund_window_def
    by (intro budgeting.within_intros budgeting.within_sql budgeting.within_exec,
        auto simp: budget_frame_def split: if_splits option.splits)+
  have "within budget_frame (charge a cls ws secs cap cost)" for a cls ws secs cap cost
    unfolding charge_def by (intro budgeting.within_intros st)
  then show "within budget_frame (reserve c g a n)"
    unfolding reserve_def Let_def
    by (intro budgeting.within_intros) (auto split: window_charge.splits intro!: budgeting.within_intros)
  show "within budget_frame (refund g a ws n)"
    unfolding refund_def Let_def by (intro budgeting.within_intros st)
qed

lemma frame_operations:
  "audit_frame d d' \<Longrightarrow> bookmark_write_operations d' = bookmark_write_operations d"
  "budget_frame d d' \<Longrightarrow> bookmark_write_operations d' = bookmark_write_operations d"
  by (subst audit_frame_def [THEN iffD1], assumption, simp)
     (subst budget_frame_def [THEN iffD1], assumption, simp)


lemma consume_transaction_Inr:
  assumes "consume_transaction C i rq act now cost w = (Inr x, w')"
  shows "list_ex (consent_live rq act now) (bookmark_write_consents (db w))"
    and "\<exists>ev. db w' = append_audit ev (update_operation i WReceived (\<lambda>op. op\<lparr>wop_status := WProviderInFlight\<rparr>)
           (spend_consent (rq_consent_id rq) now (db w)))"
  using assms unfolding consume_transaction_def append_admission_audit_def
  by (auto simp: io_run split: if_splits)

lemma consume_consent_Inr:
  assumes "consume_consent E i rq act now r w = (Inr x, w')"
  shows "consume_transaction (wb_contracts E) i rq act now (rsv_cost r) w = (Inr (), w')"
proof -
  obtain o' w1 where o': "consume_transaction (wb_contracts E) i rq act now (rsv_cost r) w = (o', w1)" by fastforce
  with assms show ?thesis
    by (cases o') (auto simp: consume_consent_def bind_io_def then_io_def attempt_def throw_def ret_def
        split: prod.splits sum.splits)
qed

definition bookmark_frame :: "archive \<Rightarrow> archive \<Rightarrow> bool" where
  "bookmark_frame d d' \<longleftrightarrow> d' = d\<lparr>bookmarks := bookmarks d'\<rparr>"

interpretation projecting: frame bookmark_frame
proof
  fix d :: archive show "bookmark_frame d d" by (simp add: bookmark_frame_def)
next
  fix d d' d'' assume d': "bookmark_frame d d'" and d'': "bookmark_frame d' d''"
  from d'' show "bookmark_frame d d''"
    unfolding bookmark_frame_def by (subst (asm) d' [unfolded bookmark_frame_def]) simp
qed

lemma project_bookmark_frame: "within bookmark_frame (project_confirmed_bookmark i a post act t)"
proof -
  have "within bookmark_frame (project_add i a p t)" "within bookmark_frame (project_remove i a p t)" for p
    unfolding project_add_def project_remove_def
    by (intro projecting.within_sql, auto simp: Let_def bookmark_frame_def split: if_splits)+
  then show ?thesis
    unfolding project_confirmed_bookmark_def
    by (intro projecting.within_intros) (auto split: write_action.splits)
qed

lemma complete_confirmed_Inr:
  assumes "complete_confirmed C i a post act ev w = (Inr st, w')"
  obtains observed projected w1 events w2 where
    "project_confirmed_bookmark i a post act observed w1 = (Inr projected, w2)" "db w1 = db w"
    "st = (if projected then Succeeded else ProjectionPending)"
    "db w' = append_audit events (confirm_operation i projected (ev_request_id ev) observed (db w2))"
proof -
  from assms obtain w1 projected w2 w3 where
    "project_confirmed_bookmark i a post act (clock (sched w) (tick w)) w1 = (Inr projected, w2)" "db w1 = db w"
    "st = (if projected then Succeeded else ProjectionPending)"
    "db w' = confirm_audit C i projected (ev_request_id ev) (clock (sched w) (tick w))
       (confirm_operation i projected (ev_request_id ev) (clock (sched w) (tick w)) (db w2))"
    unfolding complete_confirmed_def bind_read_clock by (auto simp: io_run)
  then show thesis unfolding confirm_audit_def by (rule that)
qed

text \<open>The operation under execution is the last row of its table.\<close>

definition op_last :: "uuid \<Rightarrow> write_operation list \<Rightarrow> write_operation \<Rightarrow> archive \<Rightarrow> bool" where
  "op_last i ops row d \<longleftrightarrow>
     bookmark_write_operations d = ops @ [row] \<and> wop_id row = i \<and> i \<notin> wop_id ` set ops"

lemma op_last_operations:
  "bookmark_write_operations d' = bookmark_write_operations d \<Longrightarrow> op_last i ops row d \<Longrightarrow> op_last i ops row d'"
  by (simp add: op_last_def)

lemma op_last_append_audit [simp]: "op_last i ops row (append_audit ev d) \<longleftrightarrow> op_last i ops row d"
  by (simp add: op_last_def append_audit_def)

lemma op_last_spend [simp]: "op_last i ops row (spend_consent c t d) \<longleftrightarrow> op_last i ops row d"
  by (simp add: op_last_def spend_consent_def)

lemma op_last_update:
  assumes "op_last i ops row d" and "wop_status row = st" and "wop_id (f row) = wop_id row"
  shows "op_last i ops (f row) (update_operation i st f d)"
proof -
  have "update_where (\<lambda>op. wop_id op = i \<and> wop_status op = st) f ops = ops"
    using assms(1) by (intro update_where_none) (auto simp: op_last_def image_iff)
  then show ?thesis
    using assms by (simp add: op_last_def update_operation_def update_where_def)
qed

fun replayed :: "bookmark_write_status \<Rightarrow> bookmark_write_status" where
  "replayed AlreadySatisfied = Succeeded"
| "replayed st = st"

lemma replayed_eq: "replayed st = (if st = AlreadySatisfied then Succeeded else st)"
  by (cases st) simp_all

definition same_request :: "write_operation \<Rightarrow> write_operation \<Rightarrow> bool" where
  "same_request row row' \<longleftrightarrow> wop_key row' = wop_key row
     \<and> wop_request_fingerprint row' = wop_request_fingerprint row \<and> wop_consent_id row' = wop_consent_id row"

lemma call_provider_Inr:
  assumes "call_provider E P i rq act w = (Inr res, w')" and "within (=) (P act (rq_account_id rq) (rq_provider_post_id rq))"
    and "op_last i ops row (db w)" and "wop_status row = WProviderInFlight"
  shows "wr_operation_id res = i \<and> (\<exists>row'. op_last i ops row' (db w') \<and> same_request row row'
    \<and> stored_write_status (wop_status row') = Some (wr_status res) \<and> wr_status res \<noteq> AlreadySatisfied)"
proof -
  obtain out w1 where out: "P act (rq_account_id rq) (rq_provider_post_id rq) w = (out, w1)" by fastforce
  have last: "op_last i ops row (db w1)" using assms(3) withinD [OF assms(2) out] by simp
  show ?thesis
  proof (cases out)
    case (Inr ev)
    with assms(1) out obtain st where st: "complete_confirmed (wb_contracts E) i (rq_account_id rq) (rq_provider_post_id rq) act ev w1
         = (Inr st, w')" and res: "res = \<lparr>wr_operation_id = i, wr_status = st\<rparr>"
      by (auto simp: call_provider_def bind_io_def attempt_def ret_def split: prod.splits sum.splits)
    from st obtain observed projected w2 events w3 where
      p: "project_confirmed_bookmark i (rq_account_id rq) (rq_provider_post_id rq) act observed w2 = (Inr projected, w3)"
        "db w2 = db w1" "st = (if projected then Succeeded else ProjectionPending)"
        "db w' = append_audit events (confirm_operation i projected (ev_request_id ev) observed (db w3))"
      by (rule complete_confirmed_Inr)
    have "bookmark_frame (db w2) (db w3)" by (rule withinD [OF project_bookmark_frame p(1)])
    then have "bookmark_write_operations (db w3) = bookmark_write_operations (db w1)"
      unfolding bookmark_frame_def p(2) by (metis archive.select_convs(14) archive.surjective archive.update_convs(7))
    from op_last_operations [OF this last]
    have "op_last i ops row (db w3)" .
    let ?f = "\<lambda>op. op\<lparr>wop_status := (if projected then WSucceeded else WProjectionPending),
          wop_outcome := Some ''confirmed'', wop_provider_request_id := ev_request_id ev,
          wop_projection_observed_at := (if projected then Some observed else None)\<rparr>"
    have "op_last i ops (?f row) (db w')"
      using op_last_update [OF \<open>op_last i ops row (db w3)\<close> assms(4), where f = ?f]
      by (simp add: p(4) confirm_operation_def)
    then show ?thesis
      by (intro conjI exI [of _ "?f row"]) (simp_all add: res p(3) same_request_def wop_key_def)
  next
    case (Inl e)
    with assms(1) out obtain status ev where e: "e = PUncertain status ev"
      and unc: "complete_uncertain (wb_contracts E) i ev w1 = (Inr (), w')"
      and res: "res = \<lparr>wr_operation_id = i, wr_status = StatusUncertain\<rparr>"
      by (auto simp: call_provider_def bind_io_def then_io_def attempt_def ret_def throw_def
          split: prod.splits sum.splits provider_error.splits)
    from unc obtain w2 where w2: "mark_uncertain i ev w1 = (Inr (), w2)"
      and aud: "for_each (\<lambda>event. append_operation_audit_details (wb_contracts E) i event
                            (JObj [(''result'', JStr ''uncertain'')]))
          [''provider_classified'', ''outcome_uncertain'', ''operation_completed''] w2 = (Inr (), w')"
      unfolding complete_uncertain_def then_io_Inr by auto
    have "within audit_frame (for_each (\<lambda>event. append_operation_audit_details (wb_contracts E) i event det) xs)"
      for det xs by (intro auditing.within_intros audits_frame)
    from frame_operations(1) [OF withinD [OF this aud]]
    have "bookmark_write_operations (db w') = bookmark_write_operations (db w2)" .
    moreover have "op_last i ops (row\<lparr>wop_status := WUncertain, wop_outcome := Some ''uncertain'',
         wop_provider_request_id := ev_request_id ev\<rparr>) (db w2)"
      using w2 op_last_update [OF last assms(4), where f = "\<lambda>op. op\<lparr>wop_status := WUncertain,
         wop_outcome := Some ''uncertain'', wop_provider_request_id := ev_request_id ev\<rparr>"]
      unfolding mark_uncertain_def bind_read_clock by (auto simp: exec_Inr)
    ultimately show ?thesis
      using op_last_operations by (fastforce simp: res same_request_def wop_key_def)
  qed
qed


lemma complete_operation_Inr:
  assumes "complete_operation C i WSucceeded ''already_satisfied'' t w = (Inr x, w')"
    and "op_last i ops row (db w)" and "wop_status row = WReceived"
  shows "\<exists>row'. op_last i ops row' (db w') \<and> same_request row row' \<and> wop_status row' = WSucceeded"
proof -
  let ?f = "\<lambda>op. op\<lparr>wop_status := WSucceeded, wop_outcome := Some ''already_satisfied'', wop_projection_observed_at := t\<rparr>"
  from assms(1) obtain w1 where w1: "finish_operation i WSucceeded ''already_satisfied'' t w = (Inr (), w1)"
    and aud: "then_io (append_operation_audit_details C i ''gate_admitted'' (JObj [(''result'', JStr ''already_satisfied'')]))
        (then_io (append_operation_audit_details C i ''projection_reconciled''
                   (JObj [(''projection'', JStr ''already_satisfied'')]))
        (append_operation_audit_details C i ''operation_completed''
                   (JObj [(''result'', JStr ''already_satisfied'')]))) w1 = (Inr x, w')"
    unfolding complete_operation_def then_io_Inr [of "finish_operation _ _ _ _"] by auto
  have "within audit_frame (then_io (append_operation_audit_details C i e1 d1)
      (then_io (append_operation_audit_details C i e2 d2) (append_operation_audit_details C i e3 d3)))"
    for e1 e2 e3 d1 d2 d3 by (intro auditing.within_intros audits_frame)
  from frame_operations(1) [OF withinD [OF this aud]]
  have same: "bookmark_write_operations (db w') = bookmark_write_operations (db w1)" .
  have "op_last i ops (?f row) (db w1)"
    using w1 op_last_update [OF assms(2,3), where f = ?f]
    unfolding finish_operation_def bind_read_clock by (auto simp: exec_Inr)
  then show ?thesis
    by (intro exI [of _ "?f row"]) (simp add: op_last_operations [OF same] same_request_def wop_key_def)
qed

lemma execute_claimed_Inr:
  assumes "execute_claimed E P i rq act w = (Inr res, w')"
    and "within (=) (P act (rq_account_id rq) (rq_provider_post_id rq))"
    and "op_last i ops row (db w)" and "wop_status row = WReceived"
  shows "wr_operation_id res = i \<and> (\<exists>row'. op_last i ops row' (db w') \<and> same_request row row'
    \<and> stored_write_status (wop_status row') = Some (replayed (wr_status res)))"
proof -
  let ?now = "clock (sched w) (tick w)"
  from assms(1) obtain adm w1 where adm: "evaluate_local E rq act ?now (advance w) = (Inr adm, w1)"
    and rest: "(case adm of
         Admitted _ \<Rightarrow> submit_admitted E P i rq act ?now
       | AdmAlreadySatisfied observed \<Rightarrow>
           then_io (complete_operation (wb_contracts E) i WSucceeded ''already_satisfied'' (Some observed))
             (ret \<lparr>wr_operation_id = i, wr_status = AlreadySatisfied\<rparr>)
       | AdmRefused class reset \<Rightarrow>
           then_io (refuse_operation (wb_contracts E) i class reset)
             (throw (admission_refusal_error class reset))) w1 = (Inr res, w')"
    unfolding execute_claimed_def bind_read_clock bind_io_Inr by blast
  have last: "op_last i ops row (db w1)" using withinD [OF evaluate_local_reads adm] assms(3) by simp
  show ?thesis
  proof (cases adm)
    case (AdmRefused c r)
    with rest show ?thesis by (simp add: then_io_Inr throw_Inr)
  next
    case (AdmAlreadySatisfied t)
    with rest obtain x where x: "complete_operation (wb_contracts E) i WSucceeded ''already_satisfied'' (Some t) w1 = (Inr x, w')"
      and res: "res = \<lparr>wr_operation_id = i, wr_status = AlreadySatisfied\<rparr>"
      by (auto simp: then_io_Inr ret_Inr)
    from complete_operation_Inr [OF x last assms(4)] show ?thesis by (auto simp: res)
  next
    case (Admitted reset)
    with rest have sub: "submit_admitted E P i rq act ?now w1 = (Inr res, w')" by simp
    obtain rs w2 where rs: "reserve (wb_chrono E) (wb_gate E) (rq_account_id rq) 1 w1 = (rs, w2)" by fastforce
    with sub obtain r where r: "rs = Inr r"
      and sub2: "then_io (consume_consent E i rq act ?now r) (call_provider E P i rq act) w2 = (Inr res, w')"
      by (cases rs) (auto simp: submit_admitted_def bind_io_def [of "attempt _"] attempt_def then_io_Inr throw_Inr throw_def
          split: budget_error.splits)
    from sub2 obtain w3 where w3: "consume_consent E i rq act ?now r w2 = (Inr (), w3)"
      and call: "call_provider E P i rq act w3 = (Inr res, w')"
      by (auto simp: then_io_Inr)
    have last2: "op_last i ops row (db w2)"
      using op_last_operations [OF frame_operations(2) [OF withinD [OF gate_budget_frame(1) rs]] last] .
    from consume_transaction_Inr(2) [OF consume_consent_Inr [OF w3]]
    have "op_last i ops (row\<lparr>wop_status := WProviderInFlight\<rparr>) (db w3)"
      using op_last_update [where f = "\<lambda>op. op\<lparr>wop_status := WProviderInFlight\<rparr>" and st = WReceived
          and d = "spend_consent (rq_consent_id rq) ?now (db w2)" and i = i] last2 assms(4)
      by auto
    from call_provider_Inr [OF call assms(2) this] obtain row' where
      row': "wr_operation_id res = i" "op_last i ops row' (db w')"
        "same_request (row\<lparr>wop_status := WProviderInFlight\<rparr>) row'"
        "stored_write_status (wop_status row') = Some (wr_status res)" "wr_status res \<noteq> AlreadySatisfied"
      by auto
    have "replayed (wr_status res) = wr_status res" using row'(5) by (cases "wr_status res") simp_all
    with row' show ?thesis
      by (intro conjI exI [of _ row']) (simp_all add: same_request_def wop_key_def)
  qed
qed

section \<open>Retries\<close>

lemma claim_found:
  assumes "select_one (\<lambda>op. wop_key op = (rq_account_id rq, idempotency_digest C rq))
           (bookmark_write_operations (db w)) = Some op"
  shows "claim_operation C rq act mode w =
    (if fault_now w then (Inl WbQuery, advance w)
     else if fault_now (advance w) then (Inl WbQuery, advance (advance w))
     else (if wop_request_fingerprint op \<noteq> request_fingerprint C rq act mode
           then then_io (append_conflict_audit C (wop_id op)) (throw IdempotencyConflict)
           else case stored_write_status (wop_status op) of
                  Some status \<Rightarrow> then_io (append_replay_audit C (wop_id op))
                        (ret (Replay \<lparr>wr_operation_id = wop_id op, wr_status = status\<rparr>))
                | None \<Rightarrow> ret (InProgress (wop_id op))) (advance (advance w)))"
proof -
  have hit: "wop_key (claimed_row C rq act mode (db w) j) \<in> wop_key ` set (bookmark_write_operations (db w))" for j
    using select_one_Some [OF assms] by (force simp: wop_key_def claimed_row_def)
  have ins: "insert_operation C rq act mode w = (if fault_now w then (Inl WbQuery, advance w) else (Inr None, advance w))"
    by (auto simp: insert_operation_def sql_def Let_def hit advance_def)
  have ex: "existing_operation C rq v = (if fault_now v then (Inl WbQuery, advance v) else (Inr op, advance v))"
    if "db v = db w" for v
    using assms that by (auto simp: existing_operation_def sql_def advance_def)
  show ?thesis
    by (cases "fault_now w"; cases "fault_now (advance w)")
       (simp_all add: claim_operation_def bind_io_def ins ex)
qed

lemma replay_audit_Inl: "append_replay_audit C i w = (Inl e, w') \<Longrightarrow> e = WbQuery"
  by (auto simp: append_replay_audit_def append_operation_audit_def append_operation_audit_details_def
      bind_read_clock exec_def sql_def split: if_splits)

lemma claim_existing:
  assumes "claim_operation C rq act mode w = (r, w')"
    and "select_one (\<lambda>op. wop_key op = (rq_account_id rq, idempotency_digest C rq))
           (bookmark_write_operations (db w)) = Some op"
    and "wop_request_fingerprint op = request_fingerprint C rq act mode"
  shows "audit_frame (db w) (db w')
    \<and> (r = Inl WbQuery \<or> (case stored_write_status (wop_status op) of
         Some st \<Rightarrow> r = Inr (Replay \<lparr>wr_operation_id = wop_id op, wr_status = st\<rparr>)
       | None \<Rightarrow> r = Inr (InProgress (wop_id op))))
    \<and> (stored_write_status (wop_status op) = None \<longrightarrow> db w' = db w)"
proof (cases "stored_write_status (wop_status op)")
  case None
  with assms show ?thesis
    by (auto simp: claim_found ret_def auditing.frame_refl split: if_splits)
next
  case (Some st)
  obtain x w1 where x: "append_replay_audit C (wop_id op) (advance (advance w)) = (x, w1)" by fastforce
  have "audit_frame (db w) (db w1)" using withinD [OF audits_frame(4) x] by simp
  moreover have "x = Inl WbQuery" if "x = Inl e" for e
    using replay_audit_Inl x that by blast
  ultimately show ?thesis
    using assms Some x
    by (cases x) (auto simp: claim_found then_io_def bind_io_def ret_def auditing.frame_refl split: if_splits)
qed

definition quiet :: "writeback_env \<Rightarrow> bool" where
  "quiet E \<longleftrightarrow> wb_others E = (\<lambda>n d. d)"

lemma poll_quiet:
  assumes "quiet E"
    and "Option.bind (map_option wop_status (select_one (\<lambda>op. wop_id op = i) (bookmark_write_operations (db w))))
           stored_write_status = None"
    and "poll_operation n E i w = (r, w')"
  shows "r \<in> {Inl OperationInProgress, Inl WbQuery} \<and> db w' = db w"
  using assms(2,3)
proof (induction n arbitrary: w)
  case 0
  then show ?case by (auto simp: throw_def)
next
  case (Suc n)
  let ?q = "query WbQuery (\<lambda>d. map_option wop_status (select_one (\<lambda>op. wop_id op = i) (bookmark_write_operations d)))
     :: (writeback_error, write_status option) dbio"
  show ?case
  proof (cases "fault_now w")
    case True
    with Suc.prems(2) show ?thesis by (auto simp: bind_io_def query_def sql_def)
  next
    case False
    let ?w1 = "(advance (advance w))\<lparr>db := db w\<rparr>"
    have "?q w = (Inr (map_option wop_status (select_one (\<lambda>op. wop_id op = i) (bookmark_write_operations (db w)))), advance w)"
      using False by (simp add: query_Inr)
    with Suc.prems assms(1) have "poll_operation n E i ?w1 = (r, w')"
      by (simp add: bind_io_def then_io_def sleep_io_def quiet_def)
    from Suc.IH [OF _ this] Suc.prems(1) show ?thesis by simp
  qed
qed

lemma of_valid_request: "of_result (valid_request rq) w = (Inr x, w') \<longleftrightarrow> valid_request rq = Inr () \<and> w' = w"
  by (auto simp: of_result_def)

lemma execute_valid:
  "valid_request rq = Inr () \<Longrightarrow> execute E P rq act w =
     bind_io (claim_operation (wb_contracts E) rq act Live) (\<lambda>claim.
       case claim of
         Execute i \<Rightarrow> execute_claimed E P i rq act
       | Replay result \<Rightarrow> ret result
       | InProgress i \<Rightarrow> wait_for_operation E i) w"
  by (simp add: execute_def then_io_def bind_io_def of_result_def)

text \<open>A stored terminal result answers the request, whatever the provider does.\<close>

lemma execute_stored:
  assumes "execute E P rq act w = (r, w')" and "valid_request rq = Inr ()"
    and "select_one (\<lambda>op. wop_key op = (rq_account_id rq, idempotency_digest (wb_contracts E) rq))
           (bookmark_write_operations (db w)) = Some op"
    and "wop_request_fingerprint op = request_fingerprint (wb_contracts E) rq act Live"
    and "stored_write_status (wop_status op) = Some st"
  shows "(r = Inl WbQuery \<or> r = Inr \<lparr>wr_operation_id = wop_id op, wr_status = st\<rparr>) \<and> audit_frame (db w) (db w')"
proof -
  obtain c w1 where c: "claim_operation (wb_contracts E) rq act Live w = (c, w1)" by fastforce
  from claim_existing [OF c assms(3,4)] assms(1,5) show ?thesis
    unfolding execute_valid [OF assms(2)] by (auto simp: bind_io_def c ret_def)
qed

lemma stored_write_status_replayed: "stored_write_status s = Some st \<Longrightarrow> replayed st = st"
  by (cases s) auto

lemma claim_fresh:
  assumes "claim_operation C rq act mode w = (Inr cl, v)"
    and "(rq_account_id rq, idempotency_digest C rq) \<notin> wop_key ` set (bookmark_write_operations (db w))"
  shows "\<exists>i. cl = Execute i"
proof -
  have miss: "wop_key (claimed_row C rq act mode (db w) j) \<notin> wop_key ` set (bookmark_write_operations (db w))" for j
    using assms(2) by (simp add: wop_key_def claimed_row_def)
  have ins: "\<exists>i. x = Some i" if "insert_operation C rq act mode w = (Inr x, v')" for x v'
    using that by (auto simp: insert_operation_def sql_Inr Let_def miss split: if_splits)
  from assms(1) [unfolded claim_operation_def bind_io_Inr] obtain x v' where
    x: "insert_operation C rq act mode w = (Inr x, v')" and
    rest: "(case x of
         Some i \<Rightarrow> then_io (append_operation_audit C i ''request_received'') (ret (Execute i))
       | None \<Rightarrow>
           bind_io (existing_operation C rq) (\<lambda>op.
             if wop_request_fingerprint op \<noteq> request_fingerprint C rq act mode
             then then_io (append_conflict_audit C (wop_id op)) (throw IdempotencyConflict)
             else case stored_write_status (wop_status op) of
                    Some status \<Rightarrow>
                      then_io (append_replay_audit C (wop_id op))
                        (ret (Replay \<lparr>wr_operation_id = wop_id op, wr_status = status\<rparr>))
                  | None \<Rightarrow> ret (InProgress (wop_id op)))) v' = (Inr cl, v)"
    by blast
  from ins [OF x] rest show ?thesis by (auto simp: then_io_Inr ret_Inr)
qed

text \<open>The record an answered request leaves, when its key was free and when an operation was stored under it.\<close>

lemma answered_fresh:
  assumes "execute E P rq act w = (Inr res, w1)" and "within (=) (P act (rq_account_id rq) (rq_provider_post_id rq))"
    and valid: "valid_request rq = Inr ()"
    and None: "select_one (\<lambda>op. wop_key op = (rq_account_id rq, idempotency_digest (wb_contracts E) rq))
      (bookmark_write_operations (db w)) = None"
  shows "\<exists>op. select_one (\<lambda>op. wop_key op = (rq_account_id rq, idempotency_digest (wb_contracts E) rq))
        (bookmark_write_operations (db w1)) = Some op
      \<and> wop_request_fingerprint op = request_fingerprint (wb_contracts E) rq act Live
      \<and> stored_write_status (wop_status op) = Some (replayed (wr_status res)) \<and> wop_id op = wr_operation_id res"
proof -
  let ?C = "wb_contracts E"
  let ?key = "(rq_account_id rq, idempotency_digest ?C rq)"
  obtain c v where c: "claim_operation ?C rq act Live w = (c, v)" by fastforce
  from assms(1) c obtain cl where cl: "c = Inr cl"
    by (cases c) (auto simp: execute_valid [OF valid] bind_io_def)
  have "?key \<notin> wop_key ` set (bookmark_write_operations (db w))"
    using None by (auto simp: select_one_None)
  from claim_fresh [OF c [unfolded cl] this] cl have "\<exists>i. c = Inr (Execute i)" by blast
  then obtain i where i: "claim_operation ?C rq act Live w = (Inr (Execute i), v)" using c by auto
  let ?row = "claimed_row ?C rq act Live (db w) i"
  have last: "op_last i (bookmark_write_operations (db w)) ?row (db v)"
    using claim_Execute(2,3) [OF i] by (simp add: op_last_def claimed_row_def)
  have "execute_claimed E P i rq act v = (Inr res, w1)"
    using assms(1) i by (simp add: execute_valid [OF valid] bind_io_def)
  from execute_claimed_Inr [OF this assms(2) last] obtain row' where
    row': "wr_operation_id res = i" "op_last i (bookmark_write_operations (db w)) row' (db w1)"
      "same_request ?row row'" "stored_write_status (wop_status row') = Some (replayed (wr_status res))"
    by (auto simp: claimed_row_def)
  have key': "wop_key row' = ?key" "wop_request_fingerprint row' = request_fingerprint ?C rq act Live"
    using row'(3) by (simp_all add: same_request_def wop_key_def claimed_row_def)
  have "select_one (\<lambda>op. wop_key op = ?key) (bookmark_write_operations (db w1)) = Some row'"
    using row'(2) key' None unfolding op_last_def by (simp add: select_one_append) (simp add: select_one_def)
  with key' row' show ?thesis by (auto simp: op_last_def)
qed

lemma answered_existing:
  assumes "execute E P rq act w = (Inr res, w1)" and "quiet E"
    and keyed: "keyed_by wop_id (bookmark_write_operations (db w))" and valid: "valid_request rq = Inr ()"
    and Some: "select_one (\<lambda>op. wop_key op = (rq_account_id rq, idempotency_digest (wb_contracts E) rq))
      (bookmark_write_operations (db w)) = Some op"
  shows "\<exists>op. select_one (\<lambda>op. wop_key op = (rq_account_id rq, idempotency_digest (wb_contracts E) rq))
        (bookmark_write_operations (db w1)) = Some op
      \<and> wop_request_fingerprint op = request_fingerprint (wb_contracts E) rq act Live
      \<and> stored_write_status (wop_status op) = Some (replayed (wr_status res)) \<and> wop_id op = wr_operation_id res"
proof -
  let ?C = "wb_contracts E"
  obtain c v where c: "claim_operation ?C rq act Live w = (c, v)" by fastforce
  have fp: "wop_request_fingerprint op = request_fingerprint ?C rq act Live"
  proof (rule ccontr)
    assume neq: "wop_request_fingerprint op \<noteq> request_fingerprint ?C rq act Live"
    have "fst (claim_operation ?C rq act Live w) \<noteq> Inr x" for x
      using neq by (auto simp: claim_found [OF Some] bind_io_def then_io_def throw_def split: prod.splits sum.splits)
    with c assms(1) show False
      by (cases c) (auto simp: execute_valid [OF valid] bind_io_def)
  qed
  from claim_existing [OF c Some fp] have cases: "audit_frame (db w) (db v)"
    "c = Inl WbQuery \<or> (case stored_write_status (wop_status op) of
       Some st \<Rightarrow> c = Inr (Replay \<lparr>wr_operation_id = wop_id op, wr_status = st\<rparr>)
     | None \<Rightarrow> c = Inr (InProgress (wop_id op)))"
    "stored_write_status (wop_status op) = None \<Longrightarrow> db v = db w" by simp_all
  show ?thesis
  proof (cases "stored_write_status (wop_status op)")
    case None
    have "select_one (\<lambda>op'. wop_id op' = wop_id op) (bookmark_write_operations (db w)) = Some op"
      using select_one_keyed [OF keyed] select_one_Some [OF Some] by blast
    then have "Option.bind (map_option wop_status (select_one (\<lambda>op'. wop_id op' = wop_id op)
        (bookmark_write_operations (db v)))) stored_write_status = None"
      using cases(3) [OF None] None by simp
    note polls = poll_quiet [OF assms(2) this, of MAX_POLLS "Inr res" w1]
    show ?thesis
      using cases(2) None assms(1) c polls
      by (auto simp: execute_valid [OF valid] bind_io_def wait_for_operation_def)
  next
    case st: (Some st)
    have "w1 = v \<and> res = \<lparr>wr_operation_id = wop_id op, wr_status = st\<rparr>"
      using cases(2) st assms(1) c by (auto simp: execute_valid [OF valid] bind_io_def ret_def)
    then show ?thesis
      using frame_operations(1) [OF cases(1)] Some fp st stored_write_status_replayed [OF st] by auto
  qed
qed

text \<open>
  C8. Write-back repeats nothing under retry. Once a live request has been answered, repeating it (with any provider, which
  is therefore not called again) is answered with the same operation or fails on the database, and changes nothing but the
  audit trail. The repeated answer has the status of the first one, with one exception: a request answered
  \<^verbatim>\<open>AlreadySatisfied\<close> (the bookmark was already as asked, the provider was not called) is stored as succeeded, so its
  repetition is answered \<^verbatim>\<open>Succeeded\<close>, the status of a completed provider mutation, although the specification of
  write-back asks for the first result. The provider only reads the archive, no other process acts in between, and
  operation identifiers are unique.
\<close>

theorem write_replay_idempotent:
  assumes "execute E P rq act w = (Inr res, w1)" and "within (=) (P act (rq_account_id rq) (rq_provider_post_id rq))"
    and "quiet E" and "keyed_by wop_id (bookmark_write_operations (db w))"
    and "db w2 = db w1" and "execute E P' rq act w2 = (r, w3)"
  shows "(r = Inl WbQuery \<or> r = Inr \<lparr>wr_operation_id = wr_operation_id res,
        wr_status = (if wr_status res = AlreadySatisfied then Succeeded else wr_status res)\<rparr>)
    \<and> audit_frame (db w1) (db w3)"
proof -
  have valid: "valid_request rq = Inr ()"
    using assms(1) by (auto simp: execute_def then_io_Inr of_result_Inr)
  have "\<exists>op. select_one (\<lambda>op. wop_key op = (rq_account_id rq, idempotency_digest (wb_contracts E) rq))
        (bookmark_write_operations (db w1)) = Some op
      \<and> wop_request_fingerprint op = request_fingerprint (wb_contracts E) rq act Live
      \<and> stored_write_status (wop_status op) = Some (replayed (wr_status res)) \<and> wop_id op = wr_operation_id res"
    using answered_fresh [OF assms(1), OF assms(2) valid] answered_existing [OF assms(1,3,4) valid]
    by (cases "select_one (\<lambda>op. wop_key op = (rq_account_id rq, idempotency_digest (wb_contracts E) rq))
        (bookmark_write_operations (db w))") simp_all
  then obtain op where op: "select_one (\<lambda>op. wop_key op = (rq_account_id rq, idempotency_digest (wb_contracts E) rq))
        (bookmark_write_operations (db w2)) = Some op"
      "wop_request_fingerprint op = request_fingerprint (wb_contracts E) rq act Live"
      "stored_write_status (wop_status op) = Some (replayed (wr_status res))" "wop_id op = wr_operation_id res"
    using assms(5) by auto
  from execute_stored [OF assms(6) valid op(1-3)] show ?thesis by (simp add: op(4) assms(5) replayed_eq)
qed

text \<open>
  C35. A refused or failed request blocks its key. When the operation stored for a request is refused, failed or
  was abandoned before its terminal transition, repeating the request never reaches the provider and never learns that
  outcome: with no other process at work it ends \<^verbatim>\<open>OperationInProgress\<close> (or a database failure), and the archive is
  unchanged.
\<close>

theorem unsettled_key_blocks_retry:
  assumes "execute E P rq act w = (r, w')" and "quiet E" and "valid_request rq = Inr ()"
    and "keyed_by wop_id (bookmark_write_operations (db w))" and "keyed_by wop_key (bookmark_write_operations (db w))"
    and "op \<in> set (bookmark_write_operations (db w))"
    and "wop_key op = (rq_account_id rq, idempotency_digest (wb_contracts E) rq)"
    and "wop_request_fingerprint op = request_fingerprint (wb_contracts E) rq act Live"
    and "wop_status op \<in> {WReceived, WRefused, WDryRun, WProviderInFlight, WFailed}"
  shows "r \<in> {Inl OperationInProgress, Inl WbQuery} \<and> db w' = db w"
proof -
  have none: "stored_write_status (wop_status op) = None" using assms(9) by auto
  have sel: "select_one (\<lambda>op. wop_key op = (rq_account_id rq, idempotency_digest (wb_contracts E) rq))
      (bookmark_write_operations (db w)) = Some op"
    using select_one_keyed [OF assms(5,6)] assms(7) by simp
  have sel2: "select_one (\<lambda>op'. wop_id op' = wop_id op) (bookmark_write_operations (db w)) = Some op"
    by (rule select_one_keyed [OF assms(4,6)])
  obtain c v where c: "claim_operation (wb_contracts E) rq act Live w = (c, v)" by fastforce
  from claim_existing [OF c sel assms(8)] none have c': "c = Inl WbQuery \<or> c = Inr (InProgress (wop_id op))"
    and dv: "db v = db w" by auto
  show ?thesis
  proof (cases "c = Inl WbQuery")
    case True
    with dv assms(1) c show ?thesis by (auto simp: execute_valid [OF assms(3)] bind_io_def)
  next
    case False
    then have p: "poll_operation MAX_POLLS E (wop_id op) v = (r, w')"
      using c' assms(1) c by (auto simp: execute_valid [OF assms(3)] bind_io_def wait_for_operation_def)
    from poll_quiet [OF assms(2) _ p] sel2 none dv show ?thesis by simp
  qed
qed

end
