(* ===== verification/Writeback_Machine.thy ===== *)
theory Writeback_Machine
  imports Writeback_Correct
begin

text \<open>
  Write-back under concurrency. An abstract machine on operations and consents (\<open>life_step\<close>) keeps the invariant
  \<open>spent_once\<close>; the committed statements of the service (\<open>writeback_step\<close>) refine it, and a live request is a sequence of
  such statements.
\<close>

section \<open>Concurrent executors\<close>

text \<open>
  The abstract machine. Its state is the operations and the consents; its events are what the service
  promises: an operation is claimed once in the state \<^verbatim>\<open>received\<close> and then only advances, a consent is granted
  once, and spending a live consent is what moves a received operation to the provider.
\<close>

fun next_status :: "write_status \<Rightarrow> write_status list" where
  "next_status WReceived = [WRefused, WDryRun, WSucceeded, WProviderInFlight]"
| "next_status WProviderInFlight = [WSucceeded, WProjectionPending, WUncertain, WFailed]"
| "next_status WUncertain = [WReconciledSucceeded, WReconciledNotCurrent]"
| "next_status _ = []"

definition attempted :: "write_operation \<Rightarrow> bool" where
  "attempted op \<longleftrightarrow> wop_status op \<notin> {WReceived, WRefused, WDryRun}
     \<and> \<not> (wop_status op = WSucceeded \<and> wop_outcome op = Some ''already_satisfied'')"

definition advances :: "write_operation \<Rightarrow> write_operation \<Rightarrow> bool" where
  "advances op op' \<longleftrightarrow> wop_id op' = wop_id op \<and> same_request op op'
     \<and> (wop_status op' = wop_status op \<or> wop_status op' \<in> set (next_status (wop_status op)))"

type_synonym life = "write_operation list \<times> write_consent list"

inductive life_step :: "life \<Rightarrow> life \<Rightarrow> bool" where
  Claim: "wop_id row \<notin> wop_id ` set ops \<Longrightarrow> wop_status row = WReceived \<Longrightarrow>
     life_step (ops, cons) (ops @ [row], cons)"
| Grant: "con_id con \<notin> con_id ` set cons \<Longrightarrow> con_consumed_at con = None \<Longrightarrow>
     life_step (ops, cons) (ops, cons @ [con])"
| Advance: "(\<And>op. op \<in> set ops \<Longrightarrow> advances op (f op) \<and> (attempted (f op) \<longrightarrow> attempted op)) \<Longrightarrow>
     life_step (ops, cons) (map f ops, cons)"
| Spend: "con \<in> set cons \<Longrightarrow> con_id con = c \<Longrightarrow> con_consumed_at con = None \<Longrightarrow>
     (\<And>op. op \<in> set ops \<Longrightarrow> wop_id op = i \<Longrightarrow> wop_consent_id op \<in> {None, Some c}) \<Longrightarrow>
     life_step (ops, cons)
       (update_where (\<lambda>op. wop_id op = i \<and> wop_status op = WReceived)
          (\<lambda>op. op\<lparr>wop_status := WProviderInFlight\<rparr>) ops,
        update_where (\<lambda>con. con_id con = c) (\<lambda>con. con\<lparr>con_consumed_at := Some t\<rparr>) cons)"

inductive_cases life_stepE: "life_step (ops, cons) s"

definition spent_once :: "life \<Rightarrow> bool" where
  "spent_once s \<longleftrightarrow> keyed_by wop_id (fst s) \<and> keyed_by con_id (snd s)
     \<and> (\<forall>op \<in> set (fst s). \<forall>c. attempted op \<and> wop_consent_id op = Some c \<longrightarrow>
          (\<exists>con \<in> set (snd s). con_id con = c \<and> con_consumed_at con \<noteq> None))
     \<and> (\<forall>op \<in> set (fst s). \<forall>op' \<in> set (fst s). \<forall>c. attempted op \<and> attempted op'
          \<and> wop_consent_id op = Some c \<and> wop_consent_id op' = Some c \<longrightarrow> wop_id op = wop_id op')"

lemma spent_onceI:
  assumes "keyed_by wop_id ops" and "keyed_by con_id cons"
    and "\<And>op c. op \<in> set ops \<Longrightarrow> attempted op \<Longrightarrow> wop_consent_id op = Some c \<Longrightarrow>
       \<exists>con \<in> set cons. con_id con = c \<and> con_consumed_at con \<noteq> None"
    and "\<And>op op' c. op \<in> set ops \<Longrightarrow> op' \<in> set ops \<Longrightarrow> attempted op \<Longrightarrow> attempted op' \<Longrightarrow>
       wop_consent_id op = Some c \<Longrightarrow> wop_consent_id op' = Some c \<Longrightarrow> wop_id op = wop_id op'"
  shows "spent_once (ops, cons)"
  unfolding spent_once_def fst_conv snd_conv using assms by blast

lemma spent_onceD:
  assumes "spent_once (ops, cons)"
  shows "keyed_by wop_id ops" and "keyed_by con_id cons"
    and "op \<in> set ops \<Longrightarrow> attempted op \<Longrightarrow> wop_consent_id op = Some c \<Longrightarrow>
       \<exists>con \<in> set cons. con_id con = c \<and> con_consumed_at con \<noteq> None"
    and "op \<in> set ops \<Longrightarrow> op' \<in> set ops \<Longrightarrow> attempted op \<Longrightarrow> attempted op' \<Longrightarrow>
       wop_consent_id op = Some c \<Longrightarrow> wop_consent_id op' = Some c \<Longrightarrow> wop_id op = wop_id op'"
  using assms unfolding spent_once_def fst_conv snd_conv by blast+

lemma life_step_advances:
  assumes "life_step (ops, cons) (ops', cons')" and "op \<in> set ops"
  shows "\<exists>op' \<in> set ops'. advances op op'"
  using assms
proof (cases rule: life_step.cases)
  case (Spend con c i t)
  then show ?thesis
    using assms(2)
    by (intro bexI [of _ "if wop_id op = i \<and> wop_status op = WReceived then op\<lparr>wop_status := WProviderInFlight\<rparr> else op"])
       (auto simp: update_where_def advances_def same_request_def wop_key_def)
qed (auto simp: advances_def same_request_def)

lemma spent_once_Claim:
  assumes "spent_once (ops, cons)" and "wop_id row \<notin> wop_id ` set ops" and "wop_status row = WReceived"
  shows "spent_once (ops @ [row], cons)"
proof (rule spent_onceI)
  have row: "\<not> attempted row" using assms(3) by (simp add: attempted_def)
  show "keyed_by wop_id (ops @ [row])" "keyed_by con_id cons"
    using spent_onceD(1,2) [OF assms(1)] assms(2) by (simp_all add: keyed_by_snoc)
  fix op c assume op: "op \<in> set (ops @ [row])" "attempted op" "wop_consent_id op = Some c"
  then show "\<exists>con \<in> set cons. con_id con = c \<and> con_consumed_at con \<noteq> None"
    using row spent_onceD(3) [OF assms(1)] by auto
  fix op' assume op': "op' \<in> set (ops @ [row])" "attempted op'" "wop_consent_id op' = Some c"
  have "op \<in> set ops" "op' \<in> set ops" using op op' row by auto
  then show "wop_id op = wop_id op'" using op op' by (intro spent_onceD(4) [OF assms(1)])
qed

lemma spent_once_Grant:
  assumes "spent_once (ops, cons)" and "con_id con \<notin> con_id ` set cons"
  shows "spent_once (ops, cons @ [con])"
proof (rule spent_onceI)
  show "keyed_by wop_id ops" "keyed_by con_id (cons @ [con])"
    using spent_onceD(1,2) [OF assms(1)] assms(2) by (simp_all add: keyed_by_snoc)
  fix op c assume op: "op \<in> set ops" "attempted op" "wop_consent_id op = Some c"
  show "\<exists>con \<in> set (cons @ [con]). con_id con = c \<and> con_consumed_at con \<noteq> None"
    using spent_onceD(3) [OF assms(1) op] by auto
  fix op' assume "op' \<in> set ops" "attempted op'" "wop_consent_id op' = Some c"
  then show "wop_id op = wop_id op'" using op by (intro spent_onceD(4) [OF assms(1)])
qed

lemma spent_once_Advance:
  assumes inv: "spent_once (ops, cons)"
    and adv: "\<And>op. op \<in> set ops \<Longrightarrow> advances op (f op) \<and> (attempted (f op) \<longrightarrow> attempted op)"
  shows "spent_once (map f ops, cons)"
proof (rule spent_onceI)
  have same: "wop_consent_id (f op) = wop_consent_id op" "wop_id (f op) = wop_id op" if "op \<in> set ops" for op
    using adv [OF that] by (simp_all add: advances_def same_request_def)
  have "map wop_id (map f ops) = map wop_id ops" by (simp add: same)
  then show "keyed_by wop_id (map f ops)" "keyed_by con_id cons"
    using spent_onceD(1,2) [OF inv] unfolding keyed_by_def by metis+
  fix op c assume "op \<in> set (map f ops)" "attempted op" "wop_consent_id op = Some c"
  then obtain o1 where o1: "o1 \<in> set ops" "op = f o1" "attempted o1" "wop_consent_id o1 = Some c"
    using adv same by auto
  then show "\<exists>con \<in> set cons. con_id con = c \<and> con_consumed_at con \<noteq> None"
    by (intro spent_onceD(3) [OF inv])
  fix op' assume "op' \<in> set (map f ops)" "attempted op'" "wop_consent_id op' = Some c"
  then obtain o2 where o2: "o2 \<in> set ops" "op' = f o2" "attempted o2" "wop_consent_id o2 = Some c"
    using adv same by auto
  have "wop_id o1 = wop_id o2" using o1 o2 by (intro spent_onceD(4) [OF inv])
  then show "wop_id op = wop_id op'" using o1 o2 same by simp
qed

lemma spent_once_Spend:
  assumes inv: "spent_once (ops, cons)" and con: "con \<in> set cons" "con_id con = c" "con_consumed_at con = None"
    and own: "\<And>op. op \<in> set ops \<Longrightarrow> wop_id op = i \<Longrightarrow> wop_consent_id op \<in> {None, Some c}"
  shows "spent_once (update_where (\<lambda>op. wop_id op = i \<and> wop_status op = WReceived)
          (\<lambda>op. op\<lparr>wop_status := WProviderInFlight\<rparr>) ops,
        update_where (\<lambda>con. con_id con = c) (\<lambda>con. con\<lparr>con_consumed_at := Some t\<rparr>) cons)"
proof -
  define g :: "write_operation \<Rightarrow> write_operation" where "g = (\<lambda>op. if wop_id op = i \<and> wop_status op = WReceived then op\<lparr>wop_status := WProviderInFlight\<rparr> else op)"
  have cid: "wop_consent_id (g op) = wop_consent_id op" "wop_id (g op) = wop_id op"
    and att: "attempted (g op) \<longleftrightarrow> attempted op \<or> wop_id op = i \<and> wop_status op = WReceived" for op
    by (auto simp: g_def attempted_def)
  let ?cons = "update_where (\<lambda>con. con_id con = c) (\<lambda>con. con\<lparr>con_consumed_at := Some t\<rparr>) cons"
  have "map wop_id (map g ops) = map wop_id ops" "map con_id ?cons = map con_id cons"
    by (simp_all add: cid update_where_def)
  then have keys: "keyed_by wop_id (map g ops)" "keyed_by con_id ?cons"
    using spent_onceD(1,2) [OF inv] unfolding keyed_by_def by metis+
  have free: "\<not> attempted op" if "op \<in> set ops" "wop_consent_id op = Some c" for op
  proof
    assume "attempted op"
    with spent_onceD(3) [OF inv that(1) _ that(2)] obtain con' where
      "con' \<in> set cons" "con_id con' = c" "con_consumed_at con' \<noteq> None" by blast
    with con keyed_by_inj [OF spent_onceD(2) [OF inv], of con con'] show False by auto
  qed
  have before: "attempted op" if "op \<in> set ops" "attempted (g op)" "wop_consent_id op = Some c'" "c' \<noteq> c" for op c'
    using own [OF that(1)] that att by auto
  have moved: "wop_id op = i" if "op \<in> set ops" "attempted (g op)" "wop_consent_id op = Some c" for op
    using free that att by blast
  have spent: "\<exists>con \<in> set ?cons. con_id con = c' \<and> con_consumed_at con \<noteq> None"
    if "con' \<in> set cons" "con_id con' = c'" "con_consumed_at con' \<noteq> None \<or> c' = c" for con' c'
    using that
    by (intro bexI [of _ "if con_id con' = c then con'\<lparr>con_consumed_at := Some t\<rparr> else con'"])
       (auto simp: update_where_def)
  show ?thesis
    unfolding update_where_def [where f = "\<lambda>op. op\<lparr>wop_status := WProviderInFlight\<rparr>"] g_def [symmetric]
  proof (rule spent_onceI)
    fix op c' assume "op \<in> set (map g ops)" "attempted op" "wop_consent_id op = Some c'"
    then obtain o1 where o1: "o1 \<in> set ops" "op = g o1" "attempted (g o1)" "wop_consent_id o1 = Some c'"
      by (auto simp: cid)
    show "\<exists>con \<in> set ?cons. con_id con = c' \<and> con_consumed_at con \<noteq> None"
    proof (cases "c' = c")
      case True
      then show ?thesis using spent [OF con(1)] con(2) by simp
    next
      case False
      from spent_onceD(3) [OF inv o1(1) before [OF o1(1,3,4) False] o1(4)] obtain con' where
        "con' \<in> set cons" "con_id con' = c'" "con_consumed_at con' \<noteq> None" by blast
      then show ?thesis by (intro spent [of con']) simp_all
    qed
    fix op' assume "op' \<in> set (map g ops)" "attempted op'" "wop_consent_id op' = Some c'"
    then obtain o2 where o2: "o2 \<in> set ops" "op' = g o2" "attempted (g o2)" "wop_consent_id o2 = Some c'"
      by (auto simp: cid)
    have "wop_id o1 = wop_id o2"
    proof (cases "c' = c")
      case True
      with moved o1 o2 show ?thesis by metis
    next
      case False
      with o1 o2 before show ?thesis by (intro spent_onceD(4) [OF inv]) blast+
    qed
    then show "wop_id op = wop_id op'" using o1(2) o2(2) cid by metis
  qed (fact keys)+
qed

lemma life_step_spent_once:
  assumes "life_step s s'" and "spent_once s"
  shows "spent_once s'"
  using assms
  by (induction rule: life_step.induct)
     (blast intro: spent_once_Claim spent_once_Grant spent_once_Advance spent_once_Spend)+

text \<open>
  The concrete steps: one committed statement or transaction of any executor at a time, so that a sequence
  of steps is any interleaving of concurrent requests, of dry runs, of consents, of snapshot completions and
  of every other part of the service (which writes neither operations nor consents).
\<close>

definition life :: "archive \<Rightarrow> life" where
  "life d = (bookmark_write_operations d, bookmark_write_consents d)"

definition claimed_for :: "uuid \<Rightarrow> bookmark_write_request \<Rightarrow> archive \<Rightarrow> bool" where
  "claimed_for i rq d \<longleftrightarrow>
     list_all (\<lambda>op. wop_id op = i \<longrightarrow> wop_consent_id op \<in> {None, Some (rq_consent_id rq)})
       (bookmark_write_operations d)"

inductive writeback_step :: "archive \<Rightarrow> archive \<Rightarrow> bool" where
  StepClaim: "insert_operation C rq act mode w = (r, w') \<Longrightarrow> writeback_step (db w) (db w')"
| StepConsent: "record_consent E u a act post t s w = (r', w') \<Longrightarrow> writeback_step (db w) (db w')"
| StepFinish: "finish_operation i WSucceeded ''already_satisfied'' obs w = (r'', w') \<Longrightarrow> writeback_step (db w) (db w')"
| StepRefuse: "mark_refused i cls reset w = (r'', w') \<Longrightarrow> writeback_step (db w) (db w')"
| StepDryRun: "mark_dry_run i res w = (r'', w') \<Longrightarrow> writeback_step (db w) (db w')"
| StepConsume: "claimed_for i rq (db w) \<Longrightarrow> consume_transaction C i rq act now cost w = (r'', w') \<Longrightarrow>
     writeback_step (db w) (db w')"
| StepUncertain: "mark_uncertain i ev w = (r'', w') \<Longrightarrow> writeback_step (db w) (db w')"
| StepFailure: "mark_provider_failure i out req reset w = (r'', w') \<Longrightarrow> writeback_step (db w) (db w')"
| StepConfirm: "complete_confirmed C i a post act ev w = (r3, w') \<Longrightarrow> writeback_step (db w) (db w')"
| StepSnapshot: "complete_run C a run w = (r4, w') \<Longrightarrow> writeback_step (db w) (db w')"
| StepOther: "life d' = life d \<Longrightarrow> writeback_step d d'"

lemma life_refl: "life_step s s"
proof (cases s)
  case (Pair ops cons)
  have "life_step (ops, cons) (map (\<lambda>op. op) ops, cons)"
    by (rule life_step.Advance) (simp add: advances_def same_request_def)
  with Pair show ?thesis by simp
qed

lemma life_update:
  assumes "\<And>op. wop_status op = st \<Longrightarrow> advances op (f op) \<and> (attempted (f op) \<longrightarrow> attempted op)"
  shows "life_step (life d) (life (update_operation i st f d))"
proof -
  have "advances op op" for op by (simp add: advances_def same_request_def)
  with assms have "life_step (bookmark_write_operations d, bookmark_write_consents d)
    (map (\<lambda>op. if wop_id op = i \<and> wop_status op = st then f op else op) (bookmark_write_operations d),
     bookmark_write_consents d)"
    by (intro life_step.Advance) simp
  then show ?thesis by (simp add: life_def update_operation_def update_where_def)
qed

lemma exec_life:
  assumes "bind_io read_clock (\<lambda>now. exec WbQuery (update_operation i st (f now))) w = (r, w')"
    and "\<And>now op. wop_status op = st \<Longrightarrow> advances op (f now op) \<and> (attempted (f now op) \<longrightarrow> attempted op)"
  shows "life_step (life (db w)) (life (db w'))"
proof -
  from assms(1) have "db w' = db w \<or> db w' = update_operation i st (f (clock (sched w) (tick w))) (db w)"
    by (auto simp: bind_read_clock exec_def sql_def split: if_splits)
  then show ?thesis using life_refl life_update assms(2) by metis
qed

lemmas advance_defs = advances_def same_request_def wop_key_def attempted_def

lemma claimed_row_sel: "wop_id (claimed_row C rq act mode d i) = i" "wop_status (claimed_row C rq act mode d i) = WReceived"
  by (simp_all add: claimed_row_def)

lemma insert_operation_life:
  assumes "insert_operation C rq act mode w = (r, w')"
  shows "life_step (life (db w)) (life (db w'))"
proof -
  have "db w' = db w \<or> (\<exists>row. wop_id row \<notin> wop_id ` set (bookmark_write_operations (db w)) \<and> wop_status row = WReceived
      \<and> db w' = (db w)\<lparr>bookmark_write_operations := bookmark_write_operations (db w) @ [row]\<rparr>)"
    using assms
    by (auto simp: insert_operation_def sql_def Let_def insert_unique_def claimed_row_sel split: if_splits
        intro!: exI [of _ "claimed_row _ _ _ _ _ _"])
  then show ?thesis
    using life_refl by (auto simp: life_def intro: life_step.Claim)
qed

lemma record_consent_life:
  assumes "record_consent E u a act post t s w = (r, w')"
  shows "life_step (life (db w)) (life (db w'))"
proof -
  have "life (db w') = life (db w) \<or> (\<exists>con. con_id con \<notin> con_id ` set (bookmark_write_consents (db w))
      \<and> con_consumed_at con = None
      \<and> life (db w') = (bookmark_write_operations (db w), bookmark_write_consents (db w) @ [con]))"
  proof -
    have txn: "life (db v') = life (db v) \<or> (\<exists>con. con_id con \<notin> con_id ` set (bookmark_write_consents (db v))
      \<and> con_consumed_at con = None
      \<and> life (db v') = (bookmark_write_operations (db v), bookmark_write_consents (db v) @ [con]))"
      if "transaction WbQuery (bind_io (insert_consent u a act post t e s) (\<lambda>i.
            then_io (exec WbQuery (append_audit [aud i])) (ret (row i)))) v = (x, v')" for e aud row v x v'
    proof (cases x)
      case (Inl err)
      then show ?thesis using that transaction_Inl_db by fastforce
    next
      case (Inr y)
      then show ?thesis
        using that
        by (auto simp: transaction_Inr bind_io_Inr then_io_Inr exec_Inr ret_Inr insert_consent_def sql_Inr
            insert_unique_Some append_audit_def life_def split: if_splits)
    qed
    have acc: "db v' = db v" if "account_state_of u a v = (x, v')" for v x v'
      using withinD [OF reads_only(1) that] by simp
    show ?thesis
    proof (cases "validate_provider_post_id post")
      case (Inl e)
      with assms show ?thesis by (auto simp: record_consent_def then_io_def bind_io_def of_result_def)
    next
      case valid: (Inr y)
      obtain x v where x: "account_state_of u a w = (x, v)" by fastforce
      note dv = acc [OF x]
      show ?thesis
      proof (cases x)
        case (Inl e)
        with assms x valid dv show ?thesis by (auto simp: record_consent_def then_io_def bind_io_def of_result_def)
      next
        case (Inr st)
        with assms x valid have "(if st \<noteq> Connected then throw ConnectionInactive
       else bind_io read_clock (\<lambda>now.
         case checked_add_signed (wb_chrono E) t (wb_consent_lifetime E) of
           None \<Rightarrow> throw InvalidApprovalInstant
         | Some expires \<Rightarrow>
             if t > now \<or> expires \<le> now then throw InvalidApprovalInstant
             else transaction WbQuery
               (bind_io (insert_consent u a act post t expires s) (\<lambda>i.
                then_io (exec WbQuery (append_audit
                  [consent_audit (wb_contracts E) a i u act post s now t expires]))
                (ret \<lparr>con_id = i, con_account_id = a, con_internal_user_id = u, con_action = act,
                      con_provider_post_id = post, con_approved_at = t, con_expires_at = expires,
                      con_surface = s, con_consumed_at = None\<rparr>))))) v = (r, w')"
          by (simp add: record_consent_def then_io_def bind_io_def [of "of_result _"] bind_io_def [of "account_state_of _ _"]
              of_result_def)
        then show ?thesis
          using dv txn [of _ _ _ "advance v" r w']
          by (auto simp: bind_read_clock throw_def split: if_splits option.splits)
      qed
    qed
  qed
  then show ?thesis
    using life_refl by (auto simp: life_def intro: life_step.Grant)
qed

lemma consume_life:
  assumes "claimed_for i rq (db w)" and "consume_transaction C i rq act now cost w = (r, w')"
  shows "life_step (life (db w)) (life (db w'))"
proof (cases r)
  case (Inl e)
  with assms(2) transaction_Inl_db have "db w' = db w" unfolding consume_transaction_def by fastforce
  then show ?thesis by (simp add: life_refl)
next
  case (Inr x)
  note run = assms(2) [unfolded Inr]
  from consume_transaction_Inr(1) [OF run] obtain con where
    con: "con \<in> set (bookmark_write_consents (db w))" "con_id con = rq_consent_id rq" "con_consumed_at con = None"
    by (auto simp: list_ex_iff consent_live_def)
  from consume_transaction_Inr(2) [OF run]
  have "life (db w') = (update_where (\<lambda>op. wop_id op = i \<and> wop_status op = WReceived)
          (\<lambda>op. op\<lparr>wop_status := WProviderInFlight\<rparr>) (bookmark_write_operations (db w)),
        update_where (\<lambda>con. con_id con = rq_consent_id rq) (\<lambda>con. con\<lparr>con_consumed_at := Some now\<rparr>)
          (bookmark_write_consents (db w)))"
    by (auto simp: life_def append_audit_def update_operation_def spend_consent_def)
  moreover have "life_step (bookmark_write_operations (db w), bookmark_write_consents (db w)) \<dots>"
    using assms(1) con by (intro life_step.Spend [of con]) (auto simp: claimed_for_def list_all_iff)
  ultimately show ?thesis by (simp add: life_def)
qed

lemma complete_confirmed_life:
  assumes "complete_confirmed C i a post act ev w = (r, w')"
  shows "life_step (life (db w)) (life (db w'))"
proof (cases r)
  case (Inl e)
  with assms have "db w' = db w"
    unfolding complete_confirmed_def bind_read_clock using transaction_Inl_db by fastforce
  then show ?thesis by (simp add: life_refl)
next
  case (Inr st)
  from assms [unfolded Inr] obtain observed projected w1 events w2 where
    p: "project_confirmed_bookmark i a post act observed w1 = (Inr projected, w2)" "db w1 = db w"
    "db w' = append_audit events (confirm_operation i projected (ev_request_id ev) observed (db w2))"
    by (rule complete_confirmed_Inr)
  have "bookmark_frame (db w) (db w2)" using withinD [OF project_bookmark_frame p(1)] p(2) by simp
  then have "life (db w2) = life (db w)"
    unfolding bookmark_frame_def life_def
    by (metis archive.select_convs(14,15) archive.surjective archive.update_convs(7))
  moreover have "life (db w') = life (confirm_operation i projected (ev_request_id ev) observed (db w2))"
    by (simp add: p(3) life_def append_audit_def)
  moreover have "life_step (life (db w2)) (life (confirm_operation i projected (ev_request_id ev) observed (db w2)))"
    unfolding confirm_operation_def by (rule life_update) (auto simp: advance_defs)
  ultimately show ?thesis by simp
qed

lemma settle_rows_advances: "advances op (settle_rows t rows op) \<and> (attempted (settle_rows t rows op) \<longrightarrow> attempted op)"
  by (auto simp: settle_rows_def settle_operation_def reconciled_status_def advance_defs split: option.splits)

lemma complete_run_life:
  assumes "complete_run C a run w = (r, w')"
  shows "life_step (life (db w)) (life (db w'))"
proof (cases r)
  case (Inl e)
  with assms have "db w' = db w"
    unfolding complete_run_def bind_read_clock using transaction_Inl_db by fastforce
  then show ?thesis by (simp add: life_refl)
next
  case (Inr x)
  from assms [unfolded Inr] obtain t fresh rs auds where
    "db w' = completed_archive a run t fresh rs auds (db w)" by (rule complete_run_Inr)
  then have "life (db w') = (map (settle_rows t (uncertain_operations a (sr_snapshot_id run) (db w)))
       (bookmark_write_operations (db w)), bookmark_write_consents (db w))"
    by (simp add: life_def completed_archive_def Let_def)
  then show ?thesis
    using life_step.Advance settle_rows_advances by (simp add: life_def)
qed

text \<open>The statement-level service implements the abstract machine.\<close>

lemma step_refines:
  "writeback_step d d' \<Longrightarrow> life_step (life d) (life d')"
proof (induction rule: writeback_step.induct)
  case (StepFinish i obs w r'' w')
  then show ?case unfolding finish_operation_def by (rule exec_life) (auto simp: advance_defs)
next
  case (StepRefuse i cls reset w r'' w')
  then show ?case unfolding mark_refused_def by (rule exec_life) (auto simp: advance_defs)
next
  case (StepDryRun i res w r'' w')
  then have "db w' = db w \<or> (\<exists>f. db w' = update_operation i WReceived f (db w)
      \<and> (\<forall>op. wop_status op = WReceived \<longrightarrow> advances op (f op) \<and> (attempted (f op) \<longrightarrow> attempted op)))"
    by (auto simp: mark_dry_run_def exec_def sql_def advance_defs split: if_splits intro!: exI)
  then show ?case using life_refl life_update by metis
next
  case (StepUncertain i ev w r'' w')
  then show ?case unfolding mark_uncertain_def by (rule exec_life) (auto simp: advance_defs)
next
  case (StepFailure i out req reset w r'' w')
  then show ?case unfolding mark_provider_failure_def by (rule exec_life) (auto simp: advance_defs)
next
  case (StepOther d' d)
  then show ?case by (simp add: life_refl)
qed (blast intro: insert_operation_life record_consent_life consume_life complete_confirmed_life complete_run_life)+

interpretation stepping: frame "writeback_step\<^sup>*\<^sup>*"
  by unfold_locales (auto intro: rtranclp_trans)

lemma within_step: "(\<And>w r w'. m w = (r, w') \<Longrightarrow> writeback_step (db w) (db w')) \<Longrightarrow> within writeback_step\<^sup>*\<^sup>* m"
  by (auto simp: within_def) (metis prod.collapse r_into_rtranclp)

lemma within_other:
  assumes "within R m" and "\<And>d d'. R d d' \<Longrightarrow> life d' = life d"
  shows "within writeback_step\<^sup>*\<^sup>* m"
  using assms(1) by (rule within_mono) (blast intro: assms(2) StepOther)

lemma frame_life:
  "audit_frame d d' \<Longrightarrow> life d' = life d" "budget_frame d d' \<Longrightarrow> life d' = life d"
  by (subst audit_frame_def [THEN iffD1], assumption, simp add: life_def)
     (subst budget_frame_def [THEN iffD1], assumption, simp add: life_def)

lemma within_writeback_units:
  "within writeback_step\<^sup>*\<^sup>* (insert_operation C rq act mode)"
  "within writeback_step\<^sup>*\<^sup>* (finish_operation i WSucceeded ''already_satisfied'' obs)"
  "within writeback_step\<^sup>*\<^sup>* (mark_refused i cls reset)"
  "within writeback_step\<^sup>*\<^sup>* (mark_uncertain i ev)"
  "within writeback_step\<^sup>*\<^sup>* (mark_provider_failure i out req reset)"
  "within writeback_step\<^sup>*\<^sup>* (complete_confirmed C i a post act ev)"
  by (rule within_step, erule writeback_step.intros)+

lemmas within_writeback_others =
  audits_frame [THEN within_other, OF frame_life(1)]
  gate_budget_frame [THEN within_other, OF frame_life(2)]

lemma within_read_step: "within (=) m \<Longrightarrow> within writeback_step\<^sup>*\<^sup>* m"
  by (erule within_other) simp

lemma existing_operation_reads: "within (=) (existing_operation C rq)"
  unfolding existing_operation_def by (rule reading.within_sql) auto

lemma claim_operation_steps: "within writeback_step\<^sup>*\<^sup>* (claim_operation C rq act mode)"
  unfolding claim_operation_def
  by (intro stepping.within_intros within_writeback_units within_writeback_others
      within_read_step [OF existing_operation_reads])

lemma poll_operation_steps:
  assumes "\<And>n d. writeback_step\<^sup>*\<^sup>* d (wb_others E n d)"
  shows "within writeback_step\<^sup>*\<^sup>* (poll_operation n E i)"
proof -
  have "within writeback_step\<^sup>*\<^sup>* (sleep_io (wb_others E) :: (writeback_error, unit) dbio)"
    using assms by (simp add: within_def sleep_io_def)
  then show ?thesis
    by (induction n) (auto intro!: stepping.within_intros within_writeback_others)
qed

lemma refuse_operation_steps: "within writeback_step\<^sup>*\<^sup>* (refuse_operation C i cls reset)"
  unfolding refuse_operation_def
  by (intro stepping.within_intros within_writeback_units within_writeback_others)

lemma call_provider_steps:
  assumes "within (=) (P act (rq_account_id rq) (rq_provider_post_id rq))"
  shows "within writeback_step\<^sup>*\<^sup>* (call_provider E P i rq act)"
proof -
  have "within writeback_step\<^sup>*\<^sup>* (complete_uncertain (wb_contracts E) i ev)" for ev
    unfolding complete_uncertain_def
    by (intro stepping.within_intros within_writeback_units within_writeback_others)
  moreover have "within writeback_step\<^sup>*\<^sup>* (complete_provider_failure (wb_contracts E) (wb_chrono E) i e)" for e
    unfolding complete_provider_failure_def
    by (intro stepping.within_intros within_writeback_units within_writeback_others)
  ultimately show ?thesis
    unfolding call_provider_def
    by (intro stepping.within_intros within_writeback_others within_read_step [OF assms])
       (auto split: provider_error.splits intro!: stepping.within_intros within_writeback_units)
qed

lemma submit_admitted_steps:
  assumes "within (=) (P act (rq_account_id rq) (rq_provider_post_id rq))" and "claimed_for i rq (db w)"
    and "submit_admitted E P i rq act now w = (r, w')"
  shows "writeback_step\<^sup>*\<^sup>* (db w) (db w')"
proof -
  obtain rs w1 where rs: "reserve (wb_chrono E) (wb_gate E) (rq_account_id rq) 1 w = (rs, w1)" by fastforce
  have f: "budget_frame (db w) (db w1)" by (rule withinD [OF gate_budget_frame(1) rs])
  have start: "writeback_step\<^sup>*\<^sup>* (db w) (db w1)" by (rule r_into_rtranclp, rule StepOther, rule frame_life(2) [OF f])
  have claimed: "claimed_for i rq (db w1)" using assms(2) by (simp add: claimed_for_def frame_operations(2) [OF f])
  show ?thesis
  proof (cases rs)
    case (Inl e)
    have refused: "within writeback_step\<^sup>*\<^sup>* (then_io (refuse_operation (wb_contracts E) i RBudgetExhausted (Some reset))
             (throw (WbBudget (Exhausted reset)) :: (writeback_error, bookmark_write_result) dbio))" for reset
      by (intro stepping.within_intros refuse_operation_steps)
    have "writeback_step\<^sup>*\<^sup>* (db w1) (db w')"
      using assms(3) rs Inl withinD [OF refused]
      by (cases e) (auto simp: submit_admitted_def bind_io_def [of "attempt _"] attempt_def throw_def)
    with start show ?thesis by (rule stepping.frame_trans)
  next
    case (Inr rv)
    with assms(3) rs have run: "then_io (consume_consent E i rq act now rv) (call_provider E P i rq act) w1 = (r, w')"
      by (simp add: submit_admitted_def bind_io_def [of "attempt _"] attempt_def)
    obtain c w2 where c: "consume_transaction (wb_contracts E) i rq act now (rsv_cost rv) w1 = (c, w2)" by fastforce
    have step: "writeback_step\<^sup>*\<^sup>* (db w1) (db w2)"
      by (rule r_into_rtranclp) (rule StepConsume [OF claimed c])
    show ?thesis
    proof (cases c)
      case (Inl e)
      have "then_io (then_io (refund_before_provider E (rq_account_id rq) rv) (throw e :: (writeback_error, unit) dbio)) (call_provider E P i rq act) w2 = (r, w')"
        using run c Inl by (simp add: consume_consent_def then_io_def bind_io_def [of "bind_io _ _"] bind_io_def [of "attempt _"] attempt_def)
      moreover have "within writeback_step\<^sup>*\<^sup>* (refund_before_provider E (rq_account_id rq) rv)"
        unfolding refund_before_provider_def by (intro stepping.within_intros within_writeback_others)
      then have "within writeback_step\<^sup>*\<^sup>* (then_io (then_io (refund_before_provider E (rq_account_id rq) rv) (throw e :: (writeback_error, unit) dbio)) (call_provider E P i rq act))"
        by (intro stepping.within_intros call_provider_steps assms)
      ultimately show ?thesis using start step withinD stepping.frame_trans by metis
    next
      case (Inr y)
      have "call_provider E P i rq act w2 = (r, w')"
        using run c Inr by (simp add: consume_consent_def then_io_def bind_io_def [of "bind_io _ _"] bind_io_def [of "attempt _"] attempt_def ret_def)
      with call_provider_steps [where P = P and rq = rq and act = act, OF assms(1)] show ?thesis using start step withinD stepping.frame_trans by metis
    qed
  qed
qed

lemma execute_claimed_steps:
  assumes "within (=) (P act (rq_account_id rq) (rq_provider_post_id rq))" and row: "claimed_for i rq (db w1)"
    and ex: "execute_claimed E P i rq act w1 = (r, w')"
  shows "writeback_step\<^sup>*\<^sup>* (db w1) (db w')"
proof -
  let ?now = "clock (sched w1) (tick w1)"
  obtain adm w2 where adm: "evaluate_local E rq act ?now (advance w1) = (adm, w2)" by fastforce
  have dw2: "db w2 = db w1" using withinD [OF evaluate_local_reads adm] by simp
  have "writeback_step\<^sup>*\<^sup>* (db w2) (db w')"
  proof (cases "\<exists>reset. adm = Inr (Admitted reset)")
    case True
    with ex adm have "submit_admitted E P i rq act ?now w2 = (r, w')"
      by (auto simp: execute_claimed_def bind_read_clock bind_io_def [of "evaluate_local _ _ _ _"])
    moreover have "claimed_for i rq (db w2)" using row dw2 by simp
    ultimately show ?thesis using submit_admitted_steps [where P = P and rq = rq and act = act, OF assms(1)] by blast
  next
    case False
    have "within writeback_step\<^sup>*\<^sup>* (complete_operation (wb_contracts E) i WSucceeded ''already_satisfied'' t)" for t
      unfolding complete_operation_def
      by (intro stepping.within_intros within_writeback_units within_writeback_others)
    then have sat: "within writeback_step\<^sup>*\<^sup>* (then_io (complete_operation (wb_contracts E) i WSucceeded ''already_satisfied'' t)
           (ret res))" for t and res :: bookmark_write_result
      by (intro stepping.within_intros)
    have ref: "within writeback_step\<^sup>*\<^sup>* (then_io (refuse_operation (wb_contracts E) i cls reset)
           (throw e :: (writeback_error, bookmark_write_result) dbio))" for cls reset e
      by (intro stepping.within_intros refuse_operation_steps)
    from ex adm have rest: "(case adm of Inl e \<Rightarrow> (Inl e, w2) | Inr x \<Rightarrow>
        (case x of Admitted _ \<Rightarrow> submit_admitted E P i rq act ?now
         | AdmAlreadySatisfied observed \<Rightarrow>
             then_io (complete_operation (wb_contracts E) i WSucceeded ''already_satisfied'' (Some observed))
               (ret \<lparr>wr_operation_id = i, wr_status = AlreadySatisfied\<rparr>)
         | AdmRefused class reset \<Rightarrow>
             then_io (refuse_operation (wb_contracts E) i class reset)
               (throw (admission_refusal_error class reset))) w2) = (r, w')"
      by (simp add: execute_claimed_def bind_read_clock bind_io_def [of "evaluate_local _ _ _ _"])
    show ?thesis
    proof (cases adm)
      case (Inl e)
      with rest show ?thesis by simp
    next
      case (Inr x)
      with rest False withinD [OF sat] withinD [OF ref] show ?thesis by (cases x) simp_all
    qed
  qed
  with dw2 show ?thesis by simp
qed

lemma execute_steps:
  assumes "execute E P rq act w = (r, w')" and "within (=) (P act (rq_account_id rq) (rq_provider_post_id rq))"
    and "\<And>n d. writeback_step\<^sup>*\<^sup>* d (wb_others E n d)"
  shows "writeback_step\<^sup>*\<^sup>* (db w) (db w')"
proof (cases "valid_request rq")
  case (Inl e)
  with assms(1) show ?thesis by (auto simp: execute_def then_io_def bind_io_def of_result_def)
next
  case (Inr u)
  then have valid: "valid_request rq = Inr ()" by simp
  obtain c w1 where c: "claim_operation (wb_contracts E) rq act Live w = (c, w1)" by fastforce
  have start: "writeback_step\<^sup>*\<^sup>* (db w) (db w1)" by (rule withinD [OF claim_operation_steps c])
  note run = assms(1) [unfolded execute_valid [OF valid] bind_io_def c]
  show ?thesis
  proof (cases "\<exists>i. c = Inr (Execute i)")
    case False
    with run have "db w' = db w1 \<or> (\<exists>i. poll_operation MAX_POLLS E i w1 = (r, w'))"
      by (auto simp: ret_def wait_for_operation_def split: sum.splits operation_claim.splits)
    with start withinD [OF poll_operation_steps [OF assms(3)]] stepping.frame_trans show ?thesis by metis
  next
    case True
    then obtain i where i: "c = Inr (Execute i)" by blast
    have row: "claimed_for i rq (db w1)"
      using claim_Execute(2,3) [OF c [unfolded i]]
      by (auto simp: claimed_for_def list_all_iff claimed_row_def image_iff)
    from run i have ex: "execute_claimed E P i rq act w1 = (r, w')" by simp
    with execute_claimed_steps [where P = P and rq = rq and act = act, OF assms(2) row] start show ?thesis
      by (metis stepping.frame_trans)
  qed
qed

text \<open>
  C9. One live request is a sequence of steps of the service's state machine, whatever it returns and wherever it
  fails, and each of those steps is a step of the abstract machine on its operations and consents: what the abstract machine
  guarantees for every interleaving holds for concurrent requests. The provider only reads the archive; what the
  other processes commit while this one polls are steps, too.
\<close>

theorem execute_refines_steps:
  assumes "execute E P rq act w = (r, w')" and "within (=) (P act (rq_account_id rq) (rq_provider_post_id rq))"
    and "\<And>n d. writeback_step\<^sup>*\<^sup>* d (wb_others E n d)"
  shows "writeback_step\<^sup>*\<^sup>* (db w) (db w') \<and> life_step\<^sup>*\<^sup>* (life (db w)) (life (db w'))"
proof -
  have steps: "writeback_step\<^sup>*\<^sup>* (db w) (db w')" by (rule execute_steps [OF assms(1), OF assms(2,3)])
  then have "life_step\<^sup>*\<^sup>* (life (db w)) (life (db w'))"
    by (induction rule: rtranclp_induct) (auto intro: step_refines rtranclp.rtrancl_into_rtrancl)
  with steps show ?thesis by blast
qed

text \<open>
  C5. A consent is spent at most once, under every interleaving. In every archive reachable by steps of any
  number of concurrent executors (live requests, dry runs, consents, snapshot completions and all other
  parts of the service), two operations that were sent towards the provider on the same consent are the same
  operation, and that consent is consumed.
\<close>

theorem consent_spent_once:
  assumes "writeback_step\<^sup>*\<^sup>* d0 d" and "spent_once (life d0)"
    and "op \<in> set (bookmark_write_operations d)" and "op' \<in> set (bookmark_write_operations d)"
    and "attempted op" and "attempted op'" and "wop_consent_id op = Some c" and "wop_consent_id op' = Some c"
  shows "op = op' \<and> (\<exists>con \<in> set (bookmark_write_consents d). con_id con = c \<and> con_consumed_at con \<noteq> None)"
proof -
  from assms(1,2) have "spent_once (life d)"
    by (induction rule: rtranclp_induct) (blast intro: life_step_spent_once step_refines)+
  then have inv: "spent_once (bookmark_write_operations d, bookmark_write_consents d)" by (simp add: life_def)
  show ?thesis
    using spent_onceD(3) [OF inv assms(3,5,7)] spent_onceD(4) [OF inv assms(3-8)]
      keyed_by_inj [OF spent_onceD(1) [OF inv] assms(3,4)] by simp
qed

text \<open>
  Operations only move forward. Along every interleaving an operation that was stored stays
  stored under the same identifier, key, fingerprint and consent, and its status changes only along
  received, then refused, dry run, satisfied or in flight, then one terminal provider classification, and from
  uncertain to a reconciled state: no terminal state is ever reopened.
\<close>

theorem operation_lifecycle:
  assumes "writeback_step\<^sup>*\<^sup>* d0 d" and "op \<in> set (bookmark_write_operations d0)"
  shows "\<exists>op' \<in> set (bookmark_write_operations d). wop_id op' = wop_id op \<and> same_request op op'
    \<and> (\<lambda>s s'. s' \<in> set (next_status s))\<^sup>*\<^sup>* (wop_status op) (wop_status op')"
  using assms(1)
proof (induction rule: rtranclp_induct)
  case base
  then show ?case using assms(2) by (auto simp: same_request_def intro!: bexI [of _ op])
next
  case (step d d')
  then obtain op' where op': "op' \<in> set (bookmark_write_operations d)" "wop_id op' = wop_id op" "same_request op op'"
      "(\<lambda>s s'. s' \<in> set (next_status s))\<^sup>*\<^sup>* (wop_status op) (wop_status op')" by blast
  from life_step_advances [OF step_refines [OF step(2), unfolded life_def] op'(1)]
  obtain op'' where op'': "op'' \<in> set (bookmark_write_operations d')" "advances op' op''" by blast
  have "(\<lambda>s s'. s' \<in> set (next_status s))\<^sup>*\<^sup>* (wop_status op') (wop_status op'')"
    using op''(2) by (auto simp: advances_def)
  with op'(4) have "(\<lambda>s s'. s' \<in> set (next_status s))\<^sup>*\<^sup>* (wop_status op) (wop_status op'')" by (rule rtranclp_trans)
  with op' op'' show ?case by (intro bexI [of _ op'']) (auto simp: advances_def same_request_def)
qed

end
