(* ===== verification/Writeback_Effects.thy ===== *)
theory Writeback_Effects
  imports Writeback_Machine
begin

text \<open>
  What a write-back request leaves behind: what its fingerprint binds, that a dry run only records itself, how a confirmed
  write is projected onto the bookmarks. The last section runs the service on a concrete archive.
\<close>

section \<open>What a request is bound to\<close>

lemma digits_determine:
  fixes n n' :: nat
  assumes "\<And>k. k < m \<Longrightarrow> n div 256 ^ k mod 256 = n' div 256 ^ k mod 256"
  shows "n mod 256 ^ m = n' mod 256 ^ m"
  using assms
proof (induction m)
  case (Suc m)
  have split: "x mod 256 ^ Suc m = 256 ^ m * (x div 256 ^ m mod 256) + x mod 256 ^ m" for x :: nat
    using mod_mult2_eq [of x "256 ^ m" 256] by (simp add: mult.commute)
  have "n mod 256 ^ m = n' mod 256 ^ m" by (rule Suc.IH) (simp add: Suc.prems)
  with Suc.prems [of m] show ?case by (simp only: split lessI)
qed simp

lemma be_bytes_inj:
  assumes "be_bytes n = be_bytes n'" and "n < 2 ^ 64" and "n' < 2 ^ 64"
  shows "n = n'"
proof -
  have byte: "(of_nat x :: 8 word) = of_nat y \<longleftrightarrow> x mod 256 = y mod 256" for x y
    by (simp add: word_of_nat_eq_iff take_bit_eq_mod)
  have "n div 256 ^ k mod 256 = n' div 256 ^ k mod 256" if "k < 8" for k
  proof -
    from that consider "k = 0" | "k = 1" | "k = 2" | "k = 3" | "k = 4" | "k = 5" | "k = 6" | "k = 7" by linarith
    then show ?thesis
      using assms(1) unfolding be_bytes_def by cases (simp_all only: list.map list.inject byte)
  qed
  from digits_determine [of 8, OF this] assms(2,3) show ?thesis by simp
qed

definition framed :: "string list \<Rightarrow> 8 word list" where
  "framed parts = concat (map (\<lambda>part. be_bytes (length part) @ as_bytes part) parts)"

lemma framed_inj:
  assumes "length parts = length parts'" and "framed parts = framed parts'"
    and "\<And>p. p \<in> set parts \<union> set parts' \<Longrightarrow> length p < 2 ^ 64"
  shows "parts = parts'"
  using assms(1-3)
proof (induction parts parts' rule: list_induct2)
  case (Cons p ps q qs)
  have len: "length (be_bytes n) = 8" for n by (simp add: be_bytes_def)
  from Cons.prems(1) have eq: "be_bytes (length p) @ as_bytes p @ framed ps
      = be_bytes (length q) @ as_bytes q @ framed qs"
    by (simp add: framed_def)
  then have bytes: "be_bytes (length p) = be_bytes (length q)"
    and rest: "as_bytes p @ framed ps = as_bytes q @ framed qs"
    by (simp_all add: len append_eq_append_conv)
  have "length p = length q"
    using Cons.prems(2) [of p] Cons.prems(2) [of q] by (intro be_bytes_inj [OF bytes]) auto
  with rest have "as_bytes p = as_bytes q" "framed ps = framed qs" by simp_all
  with Cons show ?case by (auto dest: injD [OF as_bytes_inj])
qed simp

lemma hex_digit_inj: "a < 16 \<Longrightarrow> b < 16 \<Longrightarrow> hex_digit a = hex_digit b \<Longrightarrow> a = b"
proof -
  assume ab: "a < 16" "b < 16" "hex_digit a = hex_digit b"
  have "of_char (hex_digit n) = (if n < 10 then 48 + n else 87 + n)" if "n < 16" for n
    using that by (simp add: hex_digit_def)
  then have "(if a < 10 then 48 + a else 87 + a) = (if b < 10 then 48 + b else 87 + b)"
    using ab by metis
  then show ?thesis using ab(1,2) by (auto split: if_splits)
qed

lemma hex_digest_inj: "hex_digest xs = hex_digest ys \<Longrightarrow> xs = ys"
proof (induction xs arbitrary: ys)
  case Nil
  then show ?case by (cases ys) (simp_all add: hex_digest_def)
next
  case (Cons x xs)
  then obtain y ys' where ys: "ys = y # ys'" by (cases ys) (auto simp: hex_digest_def)
  have bound: "unat (b :: 8 word) < 256" for b using unsigned_less [of b, where 'a = nat] by simp
  from Cons.prems ys have eq: "hex_digit (unat x div 16) = hex_digit (unat y div 16)"
      "hex_digit (unat x mod 16) = hex_digit (unat y mod 16)" "hex_digest xs = hex_digest ys'"
    by (simp_all add: hex_digest_def)
  have "unat x div 16 = unat y div 16" by (rule hex_digit_inj [OF _ _ eq(1)]) (use bound in \<open>simp_all add: div_less_iff_less_mult\<close>)
  moreover have "unat x mod 16 = unat y mod 16" by (rule hex_digit_inj [OF _ _ eq(2)]) simp_all
  ultimately have "unat x = unat y" by (metis div_mult_mod_eq)
  then have "x = y" by (rule unsigned_word_eqI)
  with Cons.IH [OF eq(3)] ys show ?case by simp
qed

text \<open>
  An idempotency key is bound to the whole request. If two requests have the same fingerprint then, unless the hash
  function collides on them, they agree on the user, the account, the action, the post, the consent and the
  execution mode: the length-prefixed encoding cannot confuse one field with another. The texts of
  identifiers differ and no field has 2^64 bytes.
\<close>

theorem request_fingerprint_binds:
  assumes "request_fingerprint C rq act mode = request_fingerprint C rq' act' mode'"
    and "inj_on (sha256 C) {fingerprint_preimage C (request_parts C rq act mode),
                            fingerprint_preimage C (request_parts C rq' act' mode')}"
    and "inj (uuid_text C)"
    and "\<And>p. p \<in> set (request_parts C rq act mode) \<union> set (request_parts C rq' act' mode')
           \<Longrightarrow> length p < 2 ^ 64"
  shows "rq_internal_user_id rq = rq_internal_user_id rq' \<and> rq_account_id rq = rq_account_id rq'
    \<and> rq_consent_id rq = rq_consent_id rq' \<and> rq_provider_post_id rq = rq_provider_post_id rq'
    \<and> act = act' \<and> mode = mode'"
proof -
  let ?x = "request_parts C rq act mode" and ?y = "request_parts C rq' act' mode'"
  have "sha256 C (fingerprint_preimage C ?x) = sha256 C (fingerprint_preimage C ?y)"
    using assms(1) unfolding request_fingerprint_def fingerprint_parts_def by (rule hex_digest_inj)
  then have "fingerprint_preimage C ?x = fingerprint_preimage C ?y" by (rule inj_onD [OF assms(2)]) simp_all
  then have "framed ?x = framed ?y" by (simp add: fingerprint_preimage_def framed_def)
  moreover have "length ?x = length ?y" by (simp add: request_parts_def)
  ultimately have "?x = ?y" using assms(4) by (intro framed_inj)
  then have ids: "uuid_text C (rq_internal_user_id rq) = uuid_text C (rq_internal_user_id rq')"
      "uuid_text C (rq_account_id rq) = uuid_text C (rq_account_id rq')"
      "uuid_text C (rq_consent_id rq) = uuid_text C (rq_consent_id rq')"
    and post: "rq_provider_post_id rq = rq_provider_post_id rq'"
    and act: "write_action_as_str act = write_action_as_str act'"
    and mode: "execution_mode_name mode = execution_mode_name mode'"
    unfolding request_parts_def list.inject by blast+
  have "act = act'" using act by (cases act; cases act') simp_all
  moreover have "mode = mode'" using mode by (cases mode; cases mode') simp_all
  ultimately show ?thesis using ids [THEN injD [OF assms(3)]] post by simp
qed

section \<open>Dry runs\<close>

lemma claim_operations:
  assumes "claim_operation C rq act mode w = (r, w')"
  shows "bookmark_write_operations (db w') = bookmark_write_operations (db w)
       \<and> (\<forall>i. r \<noteq> Inr (Execute i))
    \<or> (\<exists>i. i \<notin> wop_id ` set (bookmark_write_operations (db w))
       \<and> bookmark_write_operations (db w') = bookmark_write_operations (db w) @ [claimed_row C rq act mode (db w) i]
       \<and> (r = Inr (Execute i) \<or> (\<exists>e. r = Inl e)))"
proof -
  obtain c w1 where c: "insert_operation C rq act mode w = (c, w1)" by fastforce
  have tail: "bookmark_write_operations (db v') = bookmark_write_operations (db v) \<and> (\<forall>i. x \<noteq> Inr (Execute i))"
    if "bind_io (existing_operation C rq) (\<lambda>op.
             if wop_request_fingerprint op \<noteq> request_fingerprint C rq act mode
             then then_io (append_conflict_audit C (wop_id op)) (throw IdempotencyConflict)
             else case stored_write_status (wop_status op) of
                    Some status \<Rightarrow>
                      then_io (append_replay_audit C (wop_id op))
                        (ret (Replay \<lparr>wr_operation_id = wop_id op, wr_status = status\<rparr>))
                  | None \<Rightarrow> ret (InProgress (wop_id op))) v = (x, v')" for v x v'
  proof -
    have "within audit_frame (bind_io (existing_operation C rq) (\<lambda>op.
             if wop_request_fingerprint op \<noteq> request_fingerprint C rq act mode
             then then_io (append_conflict_audit C (wop_id op)) (throw IdempotencyConflict)
             else case stored_write_status (wop_status op) of
                    Some status \<Rightarrow>
                      then_io (append_replay_audit C (wop_id op))
                        (ret (Replay \<lparr>wr_operation_id = wop_id op, wr_status = status\<rparr>))
                  | None \<Rightarrow> ret (InProgress (wop_id op))))"
      by (intro auditing.within_intros audits_frame within_read_audit [OF existing_operation_reads])
    from frame_operations(1) [OF withinD [OF this that]] that show ?thesis
      by (auto simp: bind_io_Inr then_io_Inr ret_Inr throw_Inr split: if_splits option.splits)
  qed
  show ?thesis
  proof (cases c)
    case (Inl e)
    have "db w1 = db w"
      using c Inl by (auto simp: insert_operation_def sql_def Let_def split: if_splits option.splits)
    with assms c Inl show ?thesis by (auto simp: claim_operation_def bind_io_def)
  next
    case (Inr x)
    show ?thesis
    proof (cases x)
      case None
      have "db w1 = db w"
        using c Inr None by (auto simp: insert_operation_def sql_Inr Let_def split: if_splits)
      with assms c Inr None tail show ?thesis by (auto simp: claim_operation_def bind_io_def [of "insert_operation _ _ _ _"])
    next
      case (Some i)
      have ins: "i \<notin> wop_id ` set (bookmark_write_operations (db w))"
        "bookmark_write_operations (db w1) = bookmark_write_operations (db w) @ [claimed_row C rq act mode (db w) i]"
        using c Inr Some
        by (auto simp: insert_operation_def sql_Inr Let_def insert_unique_Some claimed_row_sel split: if_splits)
      obtain a w2 where a: "append_operation_audit C i ''request_received'' w1 = (a, w2)" by fastforce
      from assms c Inr Some a have "w' = w2" "r = Inr (Execute i) \<or> (\<exists>e. r = Inl e)"
        by (auto simp: claim_operation_def bind_io_def then_io_def ret_def split: sum.splits prod.splits)
      with ins frame_operations(1) [OF withinD [OF audits_frame(2) a]] show ?thesis by auto
    qed
  qed
qed

lemma complete_dry_run_last:
  assumes "complete_dry_run C i res w = (y, w')" and "op_last i ops row (db w)" and "wop_status row = WReceived"
  shows "\<exists>row'. op_last i ops row' (db w') \<and> wop_execution_mode row' = wop_execution_mode row
    \<and> wop_status row' \<in> {WReceived, WDryRun}"
proof -
  let ?f = "\<lambda>op. op\<lparr>wop_status := WDryRun, wop_outcome := Some (dry_run_outcome_token (dr_outcome res)),
      wop_rate_limit_reset_at := dr_budget_reset_at res, wop_projection_observed_at := dr_observed_at res\<rparr>"
  obtain z w1 where z: "mark_dry_run i res w = (z, w1)" by fastforce
  have frame: "within audit_frame (case dry_run_gate C (dr_outcome res) (dr_budget_reset_at res) of
      (event, details) \<Rightarrow> then_io (append_operation_audit_details C i event details)
        (append_operation_audit C i ''dry_run_completed''))"
    by (intro auditing.within_intros audits_frame)
  have same: "bookmark_write_operations (db w') = bookmark_write_operations (db w1)"
    using assms(1) z frame_operations(1) withinD [OF frame]
    by (cases z) (auto simp: complete_dry_run_def then_io_def [of "mark_dry_run _ _"] bind_io_def [of "mark_dry_run _ _"])
  have "op_last i ops row (db w1) \<or> op_last i ops (?f row) (db w1)"
    using z assms(2) op_last_update [OF assms(2,3), of ?f]
    by (auto simp: mark_dry_run_def exec_def sql_def split: if_splits)
  then show ?thesis
  proof
    assume "op_last i ops row (db w1)"
    then show ?thesis using op_last_operations [OF same] assms(3) by (intro exI [of _ row]) simp
  next
    assume "op_last i ops (?f row) (db w1)"
    then show ?thesis using op_last_operations [OF same] by (intro exI [of _ "?f row"]) simp
  qed
qed

text \<open>
  A dry run has no effect but its own record. Whatever it returns, a dry run changes nothing in the archive except that
  the audit trail grows and at most one operation is added, in dry-run mode and in the state received or
  dry run: no bookmark, consent, budget window or other operation is touched, and the provider is not involved.
\<close>

theorem dry_run_only_records:
  assumes "dry_run E rq act w = (r, w')"
  shows "request_frame (db w) (db w')
    \<and> (bookmark_write_operations (db w') = bookmark_write_operations (db w)
       \<or> (\<exists>row. bookmark_write_operations (db w') = bookmark_write_operations (db w) @ [row]
            \<and> wop_execution_mode row = DryRun \<and> wop_status row \<in> {WReceived, WDryRun}))"
proof (intro conjI)
  let ?ops = "bookmark_write_operations (db w)"
  show "request_frame (db w) (db w')" by (rule withinD [OF dry_run_request assms])
  show "bookmark_write_operations (db w') = ?ops \<or> (\<exists>row. bookmark_write_operations (db w') = ?ops @ [row]
            \<and> wop_execution_mode row = DryRun \<and> wop_status row \<in> {WReceived, WDryRun})"
  proof (cases "valid_request rq")
    case (Inl e)
    with assms show ?thesis by (auto simp: dry_run_def then_io_def bind_io_def of_result_def)
  next
    case valid: (Inr u)
    obtain c w1 where c: "claim_operation (wb_contracts E) rq act DryRun w = (c, w1)" by fastforce
    show ?thesis
    proof (cases "\<exists>i. c = Inr (Execute i)")
      case False
      with assms c valid have "db w' = db w1"
        by (auto simp: dry_run_def then_io_def bind_io_def of_result_def throw_def split: sum.splits operation_claim.splits)
      with claim_operations [OF c] show ?thesis by (auto simp: claimed_row_def)
    next
      case True
      then obtain i where i: "c = Inr (Execute i)" by blast
      let ?row = "claimed_row (wb_contracts E) rq act DryRun (db w) i"
      have last: "op_last i ?ops ?row (db w1)"
        using claim_Execute(2,3) [OF c [unfolded i]] by (simp add: op_last_def claimed_row_def)
      let ?now = "clock (sched w1) (tick w1)"
      obtain adm w2 where adm: "evaluate_local E rq act ?now (advance w1) = (adm, w2)" by fastforce
      have last2: "op_last i ?ops ?row (db w2)" using withinD [OF evaluate_local_reads adm] last by simp
      show ?thesis
      proof (cases adm)
        case (Inl e)
        with assms c valid i adm have "db w' = db w2"
          by (auto simp: dry_run_def then_io_def bind_io_def of_result_def read_clock_def)
        with last2 show ?thesis by (auto simp: op_last_def claimed_row_def)
      next
        case (Inr x)
        obtain y w3 where y: "complete_dry_run (wb_contracts E) i (dry_run_of act ?now x) w2 = (y, w3)" by fastforce
        with assms c valid i adm Inr have "db w' = db w3"
          by (auto simp: dry_run_def then_io_def bind_io_def of_result_def read_clock_def Let_def ret_def
              split: sum.splits prod.splits)
        with complete_dry_run_last [OF y last2] show ?thesis by (auto simp: op_last_def claimed_row_def)
      qed
    qed
  qed
qed

section \<open>The projection of a confirmed write\<close>

interpretation write_upsert: saving_upsert write_merge
  by unfold_locales (simp_all add: write_merge_def bm_key_def)

lemma saved_posts_Cons: "saved_posts a (b # bs) =
    (if bm_active a b then insert (bm_post_id b) (saved_posts a bs) else saved_posts a bs)"
  by (auto simp: saved_posts_def)

lemma saved_posts_unsave:
  assumes "\<And>b. \<not> bm_active a (f b)"
  shows "saved_posts a (update_where (\<lambda>b. bm_account_id b = a \<and> bm_post_id b = q) f bs) = saved_posts a bs - {q}"
proof (induction bs)
  case Nil
  then show ?case by (simp add: saved_posts_def update_where_def)
next
  case (Cons b bs)
  then have IH: "saved_posts a (map (\<lambda>r. if bm_account_id r = a \<and> bm_post_id r = q then f r else r) bs) = saved_posts a bs - {q}"
    by (simp add: update_where_def)
  show ?case
    by (cases "bm_account_id b = a \<and> bm_post_id b = q")
       (auto simp: update_where_def saved_posts_Cons IH assms bm_active_def [of a b])
qed

lemma filter_keyed:
  "keyed_by key xs \<Longrightarrow> b \<in> set xs \<Longrightarrow> filter (\<lambda>x. key x = key b) xs = [b]"
proof (induction xs)
  case (Cons x xs)
  then show ?case by (cases "x = b") (auto simp: keyed_by_def filter_empty_conv image_iff)
qed simp

lemma project_add_saved:
  assumes "project_add i a q observed w = (Inr projected, w')"
  shows "projected" and "saved_posts a (bookmarks (db w')) = insert q (saved_posts a (bookmarks (db w)))"
    and "a' \<noteq> a \<Longrightarrow> filter (\<lambda>b. bm_account_id b = a') (bookmarks (db w')) = filter (\<lambda>b. bm_account_id b = a') (bookmarks (db w))"
proof -
  from assms obtain j where proj: projected and b: "bookmarks (db w') = upsert bm_key write_merge
      (written_bookmark j i a q observed) (bookmarks (db w))"
    by (auto simp: project_add_def sql_Inr Let_def split: if_splits)
  have row: "bm_active a (written_bookmark j i a q observed)" "bm_post_id (written_bookmark j i a q observed) = q"
    "bm_account_id (written_bookmark j i a q observed) = a"
    by (simp_all add: written_bookmark_def bm_active_def)
  show projected by (rule proj)
  show "saved_posts a (bookmarks (db w')) = insert q (saved_posts a (bookmarks (db w)))"
    using b row by (simp add: write_upsert.saved_posts_upsert)
  show "a' \<noteq> a \<Longrightarrow> filter (\<lambda>b. bm_account_id b = a') (bookmarks (db w')) = filter (\<lambda>b. bm_account_id b = a') (bookmarks (db w))"
    using b row by (simp add: write_upsert.account_rows_upsert)
qed

lemma project_remove_saved:
  assumes "project_remove i a q observed w = (Inr projected, w')" and "keyed_by bm_key (bookmarks (db w))"
  shows "saved_posts a (bookmarks (db w')) = saved_posts a (bookmarks (db w)) - {q}"
    and "\<not> projected \<Longrightarrow> q \<notin> saved_posts a (bookmarks (db w))"
    and "a' \<noteq> a \<Longrightarrow> filter (\<lambda>b. bm_account_id b = a') (bookmarks (db w')) = filter (\<lambda>b. bm_account_id b = a') (bookmarks (db w))"
proof -
  let ?hit = "\<lambda>b. bm_account_id b = a \<and> bm_post_id b = q"
  let ?f = "\<lambda>b. b\<lparr>bm_observed_removed_at := Some observed, bm_observed_removed_snapshot_id := None,
                    bm_observed_removed_write_operation_id := Some i\<rparr>"
  from assms(1) have proj: "projected \<longleftrightarrow> length (filter ?hit (bookmarks (db w))) = 1"
    and b: "bookmarks (db w') = update_where ?hit ?f (bookmarks (db w))"
    by (auto simp: project_remove_def sql_Inr Let_def split: if_splits)
  show "saved_posts a (bookmarks (db w')) = saved_posts a (bookmarks (db w)) - {q}"
    unfolding b by (rule saved_posts_unsave) (simp_all add: bm_active_def)
  have "filter (\<lambda>b. bm_account_id b = a') (update_where ?hit ?f xs) = filter (\<lambda>b. bm_account_id b = a') xs"
    if "a' \<noteq> a" for xs using that by (induction xs) (auto simp: update_where_def)
  then show "a' \<noteq> a \<Longrightarrow> filter (\<lambda>b. bm_account_id b = a') (bookmarks (db w')) = filter (\<lambda>b. bm_account_id b = a') (bookmarks (db w))"
    by (simp add: b)
  show "q \<notin> saved_posts a (bookmarks (db w))" if "\<not> projected"
  proof
    assume "q \<in> saved_posts a (bookmarks (db w))"
    then obtain b where b: "b \<in> set (bookmarks (db w))" "bm_key b = (a, q)"
      by (auto simp: saved_posts_def bm_active_def bm_key_def)
    have "?hit = (\<lambda>x. bm_key x = bm_key b)" using b(2) by (simp add: fun_eq_iff bm_key_def)
    with filter_keyed [OF assms(2) b(1)] that proj show False by simp
  qed
qed

text \<open>
  A confirmed write is what the archive shows. When the provider confirmed the request and the result is
  \<^verbatim>\<open>Succeeded\<close>, the post is known and is a current bookmark of the account after an add and not after a removal; when it is
  \<^verbatim>\<open>ProjectionPending\<close> no current bookmark of the account changes. The saved posts of the account differ in that
  post only, and the bookmarks of other accounts are untouched.
\<close>

theorem confirmed_write_projected:
  assumes "complete_confirmed C i a post act ev w = (Inr st, w')" and "keyed_by bm_key (bookmarks (db w))"
  shows "(st = Succeeded \<and> (\<exists>p \<in> set (posts (db w)). pst_provider_id p = post
             \<and> saved_posts a (bookmarks (db w')) = (case act of
                 WAdd \<Rightarrow> insert (pst_id p) (saved_posts a (bookmarks (db w)))
               | WRemove \<Rightarrow> saved_posts a (bookmarks (db w)) - {pst_id p}))
          \<or> st = ProjectionPending \<and> saved_posts a (bookmarks (db w')) = saved_posts a (bookmarks (db w)))
    \<and> (\<forall>a'. a' \<noteq> a \<longrightarrow> filter (\<lambda>b. bm_account_id b = a') (bookmarks (db w'))
           = filter (\<lambda>b. bm_account_id b = a') (bookmarks (db w)))"
proof -
  from assms(1) obtain observed projected w1 events w2 where
    p: "project_confirmed_bookmark i a post act observed w1 = (Inr projected, w2)" "db w1 = db w"
    "st = (if projected then Succeeded else ProjectionPending)"
    "db w' = append_audit events (confirm_operation i projected (ev_request_id ev) observed (db w2))"
    by (rule complete_confirmed_Inr)
  have bms: "bookmarks (db w') = bookmarks (db w2)"
    by (simp add: p(4) append_audit_def confirm_operation_def update_operation_def)
  from p(1) obtain row where row: "row = map_option pst_id (select_one (\<lambda>p. pst_provider_id p = post) (posts (db w)))"
    and rest: "(case row of None \<Rightarrow> ret False
       | Some post_id \<Rightarrow>
           (case act of
              WAdd \<Rightarrow> project_add i a post_id observed
            | WRemove \<Rightarrow> project_remove i a post_id observed)) (advance w1) = (Inr projected, w2)"
    unfolding project_confirmed_bookmark_def bind_io_Inr query_Inr p(2) by blast
  show ?thesis
  proof (cases row)
    case None
    with rest bms p(2,3) show ?thesis by (simp add: ret_Inr)
  next
    case (Some q)
    then obtain r where r: "r \<in> set (posts (db w))" "pst_provider_id r = post" "pst_id r = q"
      using row by (auto dest: select_one_Some)
    have keyed: "keyed_by bm_key (bookmarks (db (advance w1)))" using assms(2) p(2) by simp
    show ?thesis
    proof (cases act)
      case WAdd
      with rest Some have add: "project_add i a q observed (advance w1) = (Inr projected, w2)" by simp
      from project_add_saved [OF add] r p(2,3) WAdd show ?thesis by (auto simp: bms)
    next
      case WRemove
      with rest Some have rem: "project_remove i a q observed (advance w1) = (Inr projected, w2)" by simp
      from project_remove_saved [OF rem keyed] r p(2,3) WRemove show ?thesis
        by (cases projected) (auto simp: bms)
    qed
  qed
qed

section \<open>A concrete request\<close>

definition demo_target :: post_row where
  "demo_target = \<lparr>pst_id = 90, pst_provider_id = ''42'', pst_author_user_id = None, pst_text = ''hello'',
     pst_long_text = None, pst_expanded_urls = [], pst_language = None, pst_published_at = None,
     pst_edited_at = None, pst_conversation_provider_id = None, pst_like_count = None,
     pst_retweet_count = None, pst_reply_count = None, pst_quote_count = None,
     pst_bookmark_count = None, pst_impression_count = None, pst_parser_version = 1,
     pst_normalization_provenance = OfficialApi, pst_availability = Active\<rparr>"

definition demo_credential :: credential where
  "demo_credential = \<lparr>cred_id = 300, cred_account_id = 7, cred_encrypted_payload = [],
     cred_granted_scopes = REQUIRED_SCOPES, cred_status = CActive, cred_activation_outcome = AccAccepted,
     cred_expires_at = None, cred_superseded_refresh_hash = None, cred_created_at = 5\<rparr>"

definition demo_authorization :: write_authorization where
  "demo_authorization = \<lparr>wau_account_id = 7, wau_oauth_intent_id = 400, wau_granted_scopes = REQUIRED_SCOPES,
     wau_status = WActive, wau_authorized_at = 6, wau_revoked_at = None\<rparr>"

definition demo_consent :: write_consent where
  "demo_consent = \<lparr>con_id = 500, con_account_id = 7, con_internal_user_id = 70, con_action = WAdd,
     con_provider_post_id = ''42'', con_approved_at = 1800000000, con_expires_at = 2400000000,
     con_surface = ''web'', con_consumed_at = None\<rparr>"

definition demo_writable :: archive where
  "demo_writable = demo_archive\<lparr>posts := [demo_target], credentials := [demo_credential],
     bookmark_write_authorizations := [demo_authorization], bookmark_write_consents := [demo_consent]\<rparr>"

definition demo_request :: bookmark_write_request where
  "demo_request = \<lparr>rq_internal_user_id = 70, rq_account_id = 7, rq_consent_id = 500,
     rq_provider_post_id = ''42'', rq_idempotency_key = ''k''\<rparr>"

definition demo_writeback :: writeback_env where
  "demo_writeback = \<lparr>wb_contracts = demo_contracts, wb_chrono = demo_chrono,
     wb_gate = demo_gate\<lparr>gate_class := BookmarkWriteClass\<rparr>, wb_consent_lifetime = 600000000,
     wb_others = (\<lambda>n d. d)\<rparr>"

definition demo_provider :: mutation_provider where
  "demo_provider act a post = ret \<lparr>ev_request_id = Some ''r1''\<rparr>"

definition demo_refusing :: mutation_provider where
  "demo_refusing act a post = throw (DefiniteRefusal 404 \<lparr>ev_request_id = None\<rparr>)"

lemmas archive_eval = io_defs advance_def fault_now_def db_now_def demo_defs empty_archive_def
  account_exists_def select_one_def update_where_def insert_unique_def insert_ignore_def upsert_def

lemmas writeback_data = demo_writable_def demo_request_def demo_writeback_def demo_provider_def demo_refusing_def
  demo_target_def demo_credential_def demo_authorization_def demo_consent_def

lemmas claim_eval = execute_def valid_request_def validate_provider_post_id_def is_digit_def claim_operation_def
  insert_operation_def claimed_row_def wop_key_def existing_operation_def append_operation_audit_def
  append_operation_audit_details_def append_audit_def operations_with_def audit_surfaces_def consents_of_def
  append_replay_audit_def append_conflict_audit_def

lemmas admission_eval = execute_claimed_def evaluate_local_def account_state_of_def require_write_authority_def
  active_credential_def scopes_cover_def REQUIRED_SCOPES_def evaluate_consent_def consent_live_def
  bookmark_observation_def admit_on_budget_def inspect_def window_usage_def reset_instant_def window_start_for_def
  timestamp_def window_key_def bw_key_def

lemmas submit_eval = submit_admitted_def reserve_def charge_def window_stmts consume_consent_def consume_transaction_def
  spend_consent_def update_operation_def append_admission_audit_def i32_max_def fits_i32_def call_provider_def
  complete_confirmed_def project_confirmed_bookmark_def project_add_def written_bookmark_def operation_exists_def
  confirm_operation_def confirm_audit_def bm_key_def complete_provider_failure_def mark_provider_failure_def

definition demo_written :: "(writeback_error + bookmark_write_result) \<times> archive world" where
  "demo_written = execute demo_writeback demo_provider demo_request WAdd (demo_world demo_writable)"

lemma demo_written_fst:
  "fst demo_written = Inr \<lparr>wr_operation_id = 0, wr_status = Succeeded\<rparr>"
  unfolding demo_written_def
  by (simp add: archive_eval writeback_data claim_eval admission_eval submit_eval Let_def)

lemma demo_refusing_fst:
  "fst (execute demo_writeback demo_refusing demo_request WAdd (demo_world demo_writable))
     = Inl (WbProvider (DefiniteRefusal 404 \<lparr>ev_request_id = None\<rparr>))"
  by (simp add: archive_eval writeback_data claim_eval admission_eval submit_eval Let_def)

lemma demo_providers_read:
  "within (=) (demo_provider act a post)" "within (=) (demo_refusing act a post)"
  by (simp_all add: within_def demo_provider_def demo_refusing_def ret_def throw_def)

lemma demo_quiet: "quiet demo_writeback" "writeback_step\<^sup>*\<^sup>* d (wb_others demo_writeback n d)"
  by (simp_all add: quiet_def demo_writeback_def)

lemma demo_written_pair:
  "execute demo_writeback demo_provider demo_request WAdd (demo_world demo_writable)
     = (Inr \<lparr>wr_operation_id = 0, wr_status = Succeeded\<rparr>, snd demo_written)"
  using demo_written_fst unfolding demo_written_def by (metis prod.collapse)

definition demo_claimed :: "write_status \<Rightarrow> write_operation" where
  "demo_claimed st = (claimed_row demo_contracts demo_request WAdd Live demo_writable 9)\<lparr>wop_status := st\<rparr>"

lemma demo_claimed_sel: "wop_id (demo_claimed st) = 9" "wop_status (demo_claimed st) = st"
  by (simp_all add: demo_claimed_def claimed_row_def)

definition demo_stored :: "write_status \<Rightarrow> archive" where
  "demo_stored st = demo_writable\<lparr>bookmark_write_operations := [demo_claimed st]\<rparr>"

lemma demo_stored_tables:
  "bookmark_write_operations (demo_stored st) = [demo_claimed st]" "bookmarks (demo_stored st) = []"
  by (simp_all add: demo_stored_def demo_writable_def demo_archive_def empty_archive_def)

theorem provider_called_only_when_admitted_witness:
  "fst (execute demo_writeback demo_provider demo_request WAdd (demo_world demo_writable))
     \<noteq> fst (execute demo_writeback demo_refusing demo_request WAdd (demo_world demo_writable))
   \<and> (\<exists>k. admissible demo_request WAdd (clock (sched (demo_world demo_writable)) k) (db (demo_world demo_writable)))"
proof -
  have diff: "fst (execute demo_writeback demo_provider demo_request WAdd (demo_world demo_writable))
     \<noteq> fst (execute demo_writeback demo_refusing demo_request WAdd (demo_world demo_writable))"
    by (simp add: demo_written_pair demo_refusing_fst)
  then have "execute demo_writeback demo_provider demo_request WAdd (demo_world demo_writable)
     \<noteq> execute demo_writeback demo_refusing demo_request WAdd (demo_world demo_writable)" by metis
  with diff provider_called_only_when_admitted [OF this] show ?thesis by blast
qed

theorem write_replay_idempotent_witness:
  "fst (execute demo_writeback demo_refusing demo_request WAdd (snd demo_written))
     \<in> {Inl WbQuery, Inr \<lparr>wr_operation_id = 0, wr_status = Succeeded\<rparr>}
   \<and> audit_frame (db (snd demo_written)) (db (snd (execute demo_writeback demo_refusing demo_request WAdd (snd demo_written))))"
proof -
  have "keyed_by wop_id (bookmark_write_operations (db (demo_world demo_writable)))"
    by (simp add: keyed_by_def demo_world_def demo_writable_def demo_archive_def empty_archive_def)
  from write_replay_idempotent [OF demo_written_pair demo_providers_read(1) demo_quiet(1) this refl prod.collapse [symmetric]]
  show ?thesis by auto
qed

theorem unsettled_key_blocks_retry_witness:
  "fst (execute demo_writeback demo_provider demo_request WAdd (demo_world (demo_stored WFailed)))
     \<in> {Inl OperationInProgress, Inl WbQuery}"
proof -
  have "valid_request demo_request = Inr ()"
    by (simp add: valid_request_def validate_provider_post_id_def is_digit_def demo_request_def)
  from unsettled_key_blocks_retry [OF prod.collapse [symmetric] demo_quiet(1) this,
      where w = "demo_world (demo_stored WFailed)" and P = demo_provider and act = WAdd and op = "demo_claimed WFailed"]
  show ?thesis
    by (simp add: demo_world_def demo_stored_tables keyed_by_def demo_claimed_def claimed_row_def wop_key_def demo_writeback_def)
qed

theorem execute_refines_steps_witness:
  "writeback_step\<^sup>*\<^sup>* (db (demo_world demo_writable)) (db (snd demo_written))
   \<and> life_step\<^sup>*\<^sup>* (life (db (demo_world demo_writable))) (life (db (snd demo_written)))"
  by (rule execute_refines_steps [OF demo_written_pair demo_providers_read(1) demo_quiet(2)])

lemma demo_written_operations:
  "\<exists>op. bookmark_write_operations (db (snd demo_written)) = [op] \<and> attempted op \<and> wop_consent_id op = Some 500"
  unfolding demo_written_def
  by (simp add: archive_eval writeback_data claim_eval admission_eval submit_eval Let_def attempted_def)

theorem consent_spent_once_witness:
  "\<exists>op. bookmark_write_operations (db (snd demo_written)) = [op] \<and> attempted op \<and> wop_consent_id op = Some 500
     \<and> (\<exists>con \<in> set (bookmark_write_consents (db (snd demo_written))). con_id con = 500 \<and> con_consumed_at con \<noteq> None)"
proof -
  obtain op where op: "bookmark_write_operations (db (snd demo_written)) = [op]" "attempted op" "wop_consent_id op = Some 500"
    using demo_written_operations by blast
  have steps: "writeback_step\<^sup>*\<^sup>* (db (demo_world demo_writable)) (db (snd demo_written))"
    by (rule execute_steps [OF demo_written_pair demo_providers_read(1) demo_quiet(2)])
  have "spent_once (life (db (demo_world demo_writable)))"
    by (simp add: spent_once_def life_def demo_world_def demo_writable_def demo_archive_def empty_archive_def keyed_by_def)
  from consent_spent_once [OF steps this, of op op 500] op show ?thesis by auto
qed

theorem operation_lifecycle_witness:
  "\<exists>op' \<in> set (bookmark_write_operations (db (snd (mark_refused 9 RConsentRequired None (demo_world (demo_stored WReceived)))))).
     wop_id op' = 9 \<and> (\<lambda>s s'. s' \<in> set (next_status s))\<^sup>*\<^sup>* WReceived (wop_status op')"
proof -
  have step: "writeback_step\<^sup>*\<^sup>* (db (demo_world (demo_stored WReceived)))
      (db (snd (mark_refused 9 RConsentRequired None (demo_world (demo_stored WReceived)))))"
    by (rule r_into_rtranclp) (rule StepRefuse [OF prod.collapse [symmetric]])
  have op: "demo_claimed WReceived \<in> set (bookmark_write_operations (db (demo_world (demo_stored WReceived))))"
    by (simp add: demo_world_def demo_stored_tables)
  show ?thesis
    using operation_lifecycle [OF step op] demo_claimed_sel [of WReceived] by auto
qed

definition demo_spelled :: contracts where
  "demo_spelled = demo_contracts\<lparr>uuid_text := (\<lambda>i. replicate i CHR ''a''),
     sha256 := (\<lambda>bs. bs)\<rparr>"

lemma demo_spelled_inj: "inj (uuid_text demo_spelled)"
  by (rule injI) (simp add: demo_spelled_def replicate_eq_replicate)

theorem request_fingerprint_binds_witness:
  "request_fingerprint demo_spelled demo_request WAdd Live
     = request_fingerprint demo_spelled (demo_request\<lparr>rq_idempotency_key := ''z''\<rparr>) WAdd Live
   \<and> rq_consent_id demo_request = rq_consent_id (demo_request\<lparr>rq_idempotency_key := ''z''\<rparr>)"
proof -
  have same: "request_parts demo_spelled (demo_request\<lparr>rq_idempotency_key := ''z''\<rparr>) WAdd Live
      = request_parts demo_spelled demo_request WAdd Live" by (simp add: request_parts_def)
  then have eq: "request_fingerprint demo_spelled demo_request WAdd Live
     = request_fingerprint demo_spelled (demo_request\<lparr>rq_idempotency_key := ''z''\<rparr>) WAdd Live"
    by (simp add: request_fingerprint_def)
  have short: "length p < 2 ^ 64" if "p \<in> set (request_parts demo_spelled demo_request WAdd Live)" for p
    using that by (auto simp: demo_spelled_def request_parts_def demo_request_def)
  have "inj_on (sha256 demo_spelled) S" for S by (simp add: demo_spelled_def)
  from request_fingerprint_binds [OF eq this demo_spelled_inj] short same eq show ?thesis by auto
qed

theorem dry_run_only_records_witness:
  "request_frame (db (demo_world demo_writable)) (db (snd (dry_run demo_writeback demo_request WAdd (demo_world demo_writable))))"
  using dry_run_only_records [OF prod.collapse [symmetric]] by blast

theorem confirmed_write_projected_witness:
  "\<exists>p \<in> set (posts (demo_stored WProviderInFlight)). pst_provider_id p = ''42''
     \<and> saved_posts 7 (bookmarks (db (snd (complete_confirmed demo_contracts 9 7 ''42'' WAdd \<lparr>ev_request_id = None\<rparr>
           (demo_world (demo_stored WProviderInFlight)))))) = {pst_id p}"
proof -
  let ?run = "complete_confirmed demo_contracts 9 7 ''42'' WAdd \<lparr>ev_request_id = None\<rparr> (demo_world (demo_stored WProviderInFlight))"
  have fst: "fst ?run = Inr Succeeded"
    by (simp add: demo_stored_def demo_claimed_def archive_eval writeback_data claim_eval admission_eval submit_eval Let_def)
  then have run: "?run = (Inr Succeeded, snd ?run)" by (metis prod.collapse)
  have "keyed_by bm_key (bookmarks (db (demo_world (demo_stored WProviderInFlight))))"
    by (simp add: demo_world_def demo_stored_tables keyed_by_def)
  from confirmed_write_projected [OF run this] show ?thesis
    by (simp add: demo_world_def demo_stored_tables saved_posts_def)
qed

end
