(* ===== verification/Folders.thy ===== *)
theory Folders
  imports Snapshot
begin

text \<open>
  Native bookmark folders, \<^verbatim>\<open>x-sync/src/folders.rs\<close>: membership snapshots of one folder
  (\<^verbatim>\<open>FolderSnapshotService\<close>) and the record of a capability the provider does not grant. The membership endpoint
  (\<^verbatim>\<open>FolderMembershipPageSource\<close>) is a parameter: any function from the folder, the continuation and
  the step number to a page or a failure. Page persistence, run rows and failure marks are those of \<open>Snapshot\<close>.
  The page loop takes fuel, as there.
\<close>

section \<open>Types\<close>

record native_folder =
  nf_provider_id :: string
  nf_name :: "string option"

record folder_membership_page =
  fmp_envelope :: envelope
  fmp_next_token :: "string option"

datatype folder_source_error = FolderUnavailable | FolderLimited folder_capability

datatype folder_outcome =
    FolderIncomplete uuid
  | FolderCompleted uuid uuid
  | FolderCapabilityLimited uuid folder_capability

record folder_run =
  fr_id :: uuid
  fr_snapshot_id :: uuid
  fr_folder_id :: uuid
  fr_checkpoint :: "string option"

type_synonym folder_source =
  "native_folder \<Rightarrow> string option \<Rightarrow> nat \<Rightarrow> folder_source_error + folder_membership_page"

record folder_env =
  fe_contracts :: contracts
  fe_parse :: "string \<Rightarrow> time option"
  fe_chrono :: chrono
  fe_gate :: budget_gate
  fe_source :: folder_source

definition fetch_membership_page ::
  "folder_source \<Rightarrow> native_folder \<Rightarrow> string option
   \<Rightarrow> ('e, folder_source_error + folder_membership_page) dbio" where
  "fetch_membership_page source folder continuation w =
     (Inr (source folder continuation (tick w)), advance w)"

fun folder_run_type :: "folder_capability \<Rightarrow> run_type" where
  "folder_run_type Listing = RFolderListing"
| "folder_run_type Membership = RFolderMembership"

section \<open>Starting and resuming\<close>

definition folder_merge :: "folder \<Rightarrow> folder \<Rightarrow> folder" where
  "folder_merge new old = old\<lparr>fol_name := fol_name new\<rparr>"

definition upsert_folder :: "uuid \<Rightarrow> native_folder \<Rightarrow> (snapshot_error, uuid) dbio" where
  "upsert_folder a folder =
     sql SnapQuery (\<lambda>now fresh d.
       let row = \<lparr>fol_id = fresh 0, fol_account_id = a, fol_provider_id = nf_provider_id folder,
                  fol_name = nf_name folder\<rparr>;
           table = upsert fol_key folder_merge row (bookmark_folders d)
       in if fol_key row \<in> fol_key ` set (bookmark_folders d)
             \<or> account_exists a d \<and> fresh 0 \<notin> fol_id ` set (bookmark_folders d)
          then map_option (\<lambda>f. (fol_id f, d\<lparr>bookmark_folders := table\<rparr>))
                 (select_one (\<lambda>f. fol_key f = fol_key row) table)
          else None)"

definition insert_folder_snapshot :: "uuid \<Rightarrow> uuid \<Rightarrow> (snapshot_error, uuid) dbio" where
  "insert_folder_snapshot run folder =
     sql SnapQuery (\<lambda>now fresh d.
       map_option (\<lambda>t. (fresh 0, d\<lparr>snapshots := t\<rparr>))
         (insert_unique snap_id
            \<lparr>snap_id = fresh 0, snap_sync_run_id = run, snap_folder_id = Some folder,
             snap_complete = False, snap_completed_at = None, snap_page_count = 0\<rparr> (snapshots d)))"

definition create_folder_run :: "uuid \<Rightarrow> native_folder \<Rightarrow> (snapshot_error, folder_run) dbio" where
  "create_folder_run a folder =
     transaction SnapQuery
       (bind_io (upsert_folder a folder) (\<lambda>f.
        bind_io (insert_run a RFolderMembership) (\<lambda>run.
        bind_io (insert_folder_snapshot run f) (\<lambda>snap.
        ret \<lparr>fr_id = run, fr_snapshot_id = snap, fr_folder_id = f, fr_checkpoint = None\<rparr>))))"

definition folder_of_snapshot :: "string \<Rightarrow> archive \<Rightarrow> snapshot \<Rightarrow> uuid option" where
  "folder_of_snapshot provider d s =
     map_option fol_id (select_one (\<lambda>f. snap_folder_id s = Some (fol_id f) \<and> fol_provider_id f = provider)
       (bookmark_folders d))"

definition resumable_folder ::
  "uuid \<Rightarrow> native_folder \<Rightarrow> uuid \<Rightarrow> archive \<Rightarrow> (uuid \<times> uuid \<times> string option) option" where
  "resumable_folder a folder run d =
     (case select_one (\<lambda>r. run_id r = run \<and> run_account_id r = Some a \<and> run_run_type r = RFolderMembership
                          \<and> (run_state r = Running \<or> run_state r = RunFailed)) (sync_runs d) of
        None \<Rightarrow> None
      | Some r \<Rightarrow>
          (case select_one (\<lambda>s. snap_sync_run_id s = run_id r
                  \<and> folder_of_snapshot (nf_provider_id folder) d s \<noteq> None) (snapshots d) of
             None \<Rightarrow> None
           | Some s \<Rightarrow> map_option (\<lambda>f. (snap_id s, f, run_checkpoint r))
                        (folder_of_snapshot (nf_provider_id folder) d s)))"

definition resume_folder_run ::
  "uuid \<Rightarrow> native_folder \<Rightarrow> uuid \<Rightarrow> (snapshot_error, folder_run) dbio" where
  "resume_folder_run a folder run =
     bind_io (query SnapQuery (resumable_folder a folder run)) (\<lambda>row.
       case row of
         None \<Rightarrow> throw RunUnavailable
       | Some (snap, f, checkpoint) \<Rightarrow>
           then_io (exec SnapQuery (set_run run Running None))
             (ret \<lparr>fr_id = run, fr_snapshot_id = snap, fr_folder_id = f, fr_checkpoint = checkpoint\<rparr>))"

definition load_or_create_folder_run ::
  "uuid \<Rightarrow> native_folder \<Rightarrow> uuid option \<Rightarrow> (snapshot_error, folder_run) dbio" where
  "load_or_create_folder_run a folder resume =
     (case resume of Some run \<Rightarrow> resume_folder_run a folder run | None \<Rightarrow> create_folder_run a folder)"

section \<open>Staging a page\<close>

definition stage_membership :: "uuid \<Rightarrow> time \<Rightarrow> uuid \<Rightarrow> (snapshot_error, unit) dbio" where
  "stage_membership snap observed post =
     exec SnapQuery (\<lambda>d. d\<lparr>snapshot_folder_membership_items :=
       upsert item_key item_merge
         \<lparr>item_snapshot_id = snap, item_post_id = post, item_observed_at = observed\<rparr>
         (snapshot_folder_membership_items d)\<rparr>)"

definition record_folder_page :: "uuid \<Rightarrow> string option \<Rightarrow> int \<Rightarrow> (snapshot_error, unit) dbio" where
  "record_folder_page run next_token items =
     sql SnapQuery (\<lambda>now fresh d.
       if list_all (\<lambda>r. run_id r = run \<longrightarrow>
             fits_i32 (run_pages_fetched r + 1) \<and> fits_i32 (run_items_observed r + items)) (sync_runs d)
       then Some ((), d\<lparr>sync_runs := update_where (\<lambda>r. run_id r = run)
                (\<lambda>r. r\<lparr>run_checkpoint := next_token, run_pages_fetched := run_pages_fetched r + 1,
                       run_items_observed := run_items_observed r + items\<rparr>) (sync_runs d)\<rparr>)
       else None)"

definition stage_folder_page ::
  "folder_env \<Rightarrow> folder_run \<Rightarrow> folder_membership_page \<Rightarrow> (snapshot_error, unit) dbio" where
  "stage_folder_page E run page =
     bind_io (map_err SnapNormalize (of_result (normalize (fe_parse E) (fmp_envelope page)))) (\<lambda>b.
       if int (length (nb_posts b)) > i32_max then throw StatisticsOverflow
       else bind_io read_clock (\<lambda>observed.
         transaction SnapQuery
          (bind_io (persist_batch b) (\<lambda>ps.
           then_io (for_each (stage_membership (fr_snapshot_id run) observed) (hash_values (fe_contracts E) ps))
           (record_folder_page (fr_id run) (fmp_next_token page) (int (length (nb_posts b))))))))"

section \<open>Completing a run\<close>

definition folder_run_current :: "folder_run \<Rightarrow> archive \<Rightarrow> (bool \<times> run_state) option" where
  "folder_run_current run d =
     (case select_one (\<lambda>s. snap_id s = fr_snapshot_id run \<and> snap_folder_id s = Some (fr_folder_id run)
                         \<and> snap_sync_run_id s = fr_id run) (snapshots d) of
        None \<Rightarrow> None
      | Some s \<Rightarrow> map_option (\<lambda>r. (snap_complete s, run_state r))
          (select_one (\<lambda>r. run_id r = fr_id run) (sync_runs d)))"

definition lock_folder_finalization :: "folder_run \<Rightarrow> (snapshot_error, unit) dbio" where
  "lock_folder_finalization run =
     then_io (query SnapQuery (\<lambda>d. ()))
     (then_io (query SnapQuery (\<lambda>d. ()))
     (bind_io (query SnapQuery (folder_run_current run)) (\<lambda>current.
        if current = Some (False, Running) then ret () else throw RunUnavailable)))"

definition staged_memberships :: "uuid \<Rightarrow> archive \<Rightarrow> snapshot_item list" where
  "staged_memberships snap d =
     filter (\<lambda>i. item_snapshot_id i = snap) (snapshot_folder_membership_items d)"

definition current_membership :: "folder_item \<Rightarrow> bool" where
  "current_membership i \<longleftrightarrow> fit_observed_removed_from_folder_at i = None"

definition matching_memberships :: "uuid \<Rightarrow> snapshot_item \<Rightarrow> archive \<Rightarrow> folder_item list" where
  "matching_memberships f staged d =
     filter (\<lambda>i. fit_folder_id i = f \<and> fit_post_id i = item_post_id staged \<and> current_membership i)
       (bookmark_folder_items d)"

definition count_added :: "folder_run \<Rightarrow> archive \<Rightarrow> int" where
  "count_added run d =
     int (length (filter (\<lambda>s. matching_memberships (fr_folder_id run) s d = [])
       (staged_memberships (fr_snapshot_id run) d)))"

definition count_retained :: "folder_run \<Rightarrow> archive \<Rightarrow> int" where
  "count_retained run d =
     (\<Sum>s \<leftarrow> staged_memberships (fr_snapshot_id run) d.
        int (length (matching_memberships (fr_folder_id run) s d)))"

definition membership_observation :: "folder_run \<Rightarrow> time \<Rightarrow> observation_kind \<Rightarrow> uuid \<Rightarrow> folder_observation" where
  "membership_observation run completed_at kind post =
     \<lparr>fob_snapshot_id = fr_snapshot_id run, fob_folder_id = fr_folder_id run, fob_post_id = post,
      fob_kind = kind, fob_observed_at = completed_at\<rparr>"

definition record_added_observations :: "folder_run \<Rightarrow> time \<Rightarrow> (snapshot_error, unit) dbio" where
  "record_added_observations run completed_at =
     exec SnapQuery (\<lambda>d. d\<lparr>folder_membership_observations :=
       fold (insert_ignore fob_key)
         (map (\<lambda>s. membership_observation run completed_at ObsAdded (item_post_id s))
            (filter (\<lambda>s. matching_memberships (fr_folder_id run) s d = [])
              (staged_memberships (fr_snapshot_id run) d)))
         (folder_membership_observations d)\<rparr>)"

definition membership_of :: "uuid \<Rightarrow> snapshot_item \<Rightarrow> folder_item" where
  "membership_of f staged =
     \<lparr>fit_folder_id = f, fit_post_id = item_post_id staged,
      fit_first_observed_in_folder_at = item_observed_at staged,
      fit_observed_removed_from_folder_at = None, fit_observed_removed_snapshot_id = None\<rparr>"

definition membership_merge :: "folder_item \<Rightarrow> folder_item \<Rightarrow> folder_item" where
  "membership_merge new old = old\<lparr>fit_observed_removed_from_folder_at := None,
     fit_observed_removed_snapshot_id := None\<rparr>"

definition upsert_active_memberships :: "folder_run \<Rightarrow> (snapshot_error, unit) dbio" where
  "upsert_active_memberships run =
     exec SnapQuery (\<lambda>d. d\<lparr>bookmark_folder_items :=
       fold (\<lambda>s. upsert fit_key membership_merge (membership_of (fr_folder_id run) s))
         (staged_memberships (fr_snapshot_id run) d) (bookmark_folder_items d)\<rparr>)"

definition absent_membership :: "folder_run \<Rightarrow> archive \<Rightarrow> folder_item \<Rightarrow> bool" where
  "absent_membership run d i \<longleftrightarrow>
     fit_folder_id i = fr_folder_id run \<and> current_membership i
     \<and> fit_post_id i \<notin> item_post_id ` set (staged_memberships (fr_snapshot_id run) d)"

definition retire_membership :: "folder_run \<Rightarrow> time \<Rightarrow> folder_item \<Rightarrow> folder_item" where
  "retire_membership run completed_at i =
     i\<lparr>fit_observed_removed_from_folder_at := Some completed_at,
       fit_observed_removed_snapshot_id := Some (fr_snapshot_id run)\<rparr>"

definition deactivate_memberships :: "folder_run \<Rightarrow> time \<Rightarrow> (snapshot_error, uuid list) dbio" where
  "deactivate_memberships run completed_at =
     sql SnapQuery (\<lambda>now fresh d.
       Some (map fit_post_id (filter (absent_membership run d) (bookmark_folder_items d)),
         d\<lparr>bookmark_folder_items := update_where (absent_membership run d)
             (retire_membership run completed_at) (bookmark_folder_items d)\<rparr>))"

definition record_removed_observation :: "folder_run \<Rightarrow> time \<Rightarrow> uuid \<Rightarrow> (snapshot_error, unit) dbio" where
  "record_removed_observation run completed_at post =
     exec SnapQuery (\<lambda>d. d\<lparr>folder_membership_observations :=
       insert_ignore fob_key (membership_observation run completed_at ObsRemoved post)
         (folder_membership_observations d)\<rparr>)"

definition record_absent_memberships :: "folder_run \<Rightarrow> time \<Rightarrow> (snapshot_error, int) dbio" where
  "record_absent_memberships run completed_at =
     bind_io (deactivate_memberships run completed_at) (\<lambda>removed.
       then_io (for_each (record_removed_observation run completed_at) removed)
         (ret (int (length removed))))"

definition reconcile_memberships ::
  "folder_run \<Rightarrow> time \<Rightarrow> (snapshot_error, reconciliation_statistics) dbio" where
  "reconcile_memberships run completed_at =
     bind_io (query SnapQuery (count_added run)) (\<lambda>added.
     bind_io (query SnapQuery (count_retained run)) (\<lambda>retained.
     then_io (record_added_observations run completed_at)
     (then_io (upsert_active_memberships run)
     (bind_io (record_absent_memberships run completed_at) (\<lambda>removed.
      bind_io (i32_or_overflow added) (\<lambda>x.
      bind_io (i32_or_overflow retained) (\<lambda>y.
      bind_io (i32_or_overflow removed) (\<lambda>z.
      ret \<lparr>st_added = x, st_retained = y, st_removed = z\<rparr>))))))))"

definition record_folder_completion ::
  "folder_run \<Rightarrow> time \<Rightarrow> reconciliation_statistics \<Rightarrow> (snapshot_error, unit) dbio" where
  "record_folder_completion run completed_at st =
     then_io
       (exec SnapQuery (\<lambda>d. d\<lparr>sync_runs := update_where (\<lambda>r. run_id r = fr_id run)
          (complete_run_row completed_at st) (sync_runs d)\<rparr>))
       (exec SnapQuery (\<lambda>d. d\<lparr>snapshots := update_where (\<lambda>s. snap_id s = fr_snapshot_id run)
          (\<lambda>s. s\<lparr>snap_complete := True, snap_completed_at := Some completed_at,
                 snap_page_count := pages_of_run (fr_id run) (sync_runs d)\<rparr>) (snapshots d)\<rparr>))"

definition folder_authority_merge :: "folder_authority \<Rightarrow> folder_authority \<Rightarrow> folder_authority" where
  "folder_authority_merge new old = old\<lparr>fau_snapshot_id := fau_snapshot_id new,
     fau_updated_at := fau_updated_at new\<rparr>"

definition replace_folder_authority :: "uuid \<Rightarrow> uuid \<Rightarrow> time \<Rightarrow> (snapshot_error, unit) dbio" where
  "replace_folder_authority f snap completed_at =
     exec SnapQuery (\<lambda>d. d\<lparr>folder_membership_snapshot_authority :=
       upsert fau_folder_id folder_authority_merge
         \<lparr>fau_folder_id = f, fau_snapshot_id = snap, fau_updated_at = completed_at\<rparr>
         (folder_membership_snapshot_authority d)\<rparr>)"

definition complete_folder_run :: "folder_run \<Rightarrow> (snapshot_error, unit) dbio" where
  "complete_folder_run run =
     bind_io read_clock (\<lambda>completed_at.
       transaction SnapQuery
        (then_io (lock_folder_finalization run)
        (bind_io (reconcile_memberships run completed_at) (\<lambda>st.
         then_io (record_folder_completion run completed_at st)
         (replace_folder_authority (fr_folder_id run) (fr_snapshot_id run) completed_at)))))"

section \<open>Capability limits\<close>

definition limit_merge :: "capability_limit \<Rightarrow> capability_limit \<Rightarrow> capability_limit" where
  "limit_merge new old = old\<lparr>lim_last_run_id := lim_last_run_id new,
     lim_recorded_at := lim_recorded_at new\<rparr>"

definition fail_run_returning_account :: "uuid \<Rightarrow> time \<Rightarrow> (snapshot_error, uuid) dbio" where
  "fail_run_returning_account run recorded_at =
     sql SnapQuery (\<lambda>now fresh d.
       map_option (\<lambda>a. (a, set_run run RunFailed (Some recorded_at) d))
         (Option.bind (select_one (\<lambda>r. run_id r = run) (sync_runs d)) run_account_id))"

definition mark_capability_limited :: "uuid \<Rightarrow> folder_capability \<Rightarrow> (snapshot_error, unit) dbio" where
  "mark_capability_limited run capability =
     bind_io read_clock (\<lambda>recorded_at.
       transaction SnapQuery
        (bind_io (fail_run_returning_account run recorded_at) (\<lambda>a.
         exec SnapQuery (\<lambda>d. d\<lparr>folder_capability_limits :=
           upsert lim_key limit_merge
             \<lparr>lim_account_id = a, lim_capability = capability, lim_last_run_id = run,
              lim_recorded_at = recorded_at\<rparr> (folder_capability_limits d)\<rparr>))))"

definition record_capability_limit ::
  "uuid \<Rightarrow> folder_capability \<Rightarrow> (snapshot_error, folder_outcome) dbio" where
  "record_capability_limit a capability =
     bind_io (insert_run a (folder_run_type capability)) (\<lambda>run.
       then_io (mark_capability_limited run capability)
         (ret (FolderCapabilityLimited run capability)))"

section \<open>The page loop\<close>

fun folder_loop ::
  "nat \<Rightarrow> folder_env \<Rightarrow> uuid \<Rightarrow> native_folder \<Rightarrow> folder_run \<Rightarrow> (snapshot_error, folder_outcome option) dbio" where
  "folder_loop 0 E a folder run = ret None"
| "folder_loop (Suc n) E a folder run =
     bind_io (attempt (reserve (fe_chrono E) (fe_gate E) a 1)) (\<lambda>r.
       case r of
         Inl err \<Rightarrow>
           then_io (mark_failed (fr_id run))
             (case err of
                Exhausted _ \<Rightarrow> ret (Some (FolderIncomplete (fr_id run)))
              | _ \<Rightarrow> throw (SnapBudget err))
       | Inr _ \<Rightarrow>
           bind_io (fetch_membership_page (fe_source E) folder (fr_checkpoint run)) (\<lambda>fetched.
             case fetched of
               Inl FolderUnavailable \<Rightarrow>
                 then_io (mark_failed (fr_id run)) (ret (Some (FolderIncomplete (fr_id run))))
             | Inl (FolderLimited capability) \<Rightarrow>
                 then_io (mark_capability_limited (fr_id run) capability)
                   (ret (Some (FolderCapabilityLimited (fr_id run) capability)))
             | Inr page \<Rightarrow>
                 bind_io (attempt (stage_folder_page E run page)) (\<lambda>staged.
                   case staged of
                     Inl e \<Rightarrow> then_io (mark_failed (fr_id run)) (throw e)
                   | Inr _ \<Rightarrow>
                       (let run' = run\<lparr>fr_checkpoint := fmp_next_token page\<rparr> in
                        if fr_checkpoint run' = None
                        then then_io (complete_folder_run run')
                               (ret (Some (FolderCompleted (fr_id run) (fr_snapshot_id run))))
                        else folder_loop n E a folder run'))))"

definition run_folder ::
  "nat \<Rightarrow> folder_env \<Rightarrow> uuid \<Rightarrow> native_folder \<Rightarrow> uuid option
   \<Rightarrow> (snapshot_error, folder_outcome option) dbio" where
  "run_folder fuel E a folder resume =
     bind_io (load_or_create_folder_run a folder resume) (folder_loop fuel E a folder)"

end
