(* ===== verification/Membership.thy ===== *)
theory Membership
  imports Prelude
begin

text \<open>
  The interface between a snapshot and the table it reconciles. A row belongs to an owner (an account, a folder), names
  a member (a post) and is live or retired; the table stands for the set of live members of each owner. Saving a staged
  member inserts or revives its row, reconciling retires the live rows that were not staged; on the abstraction these are
  union and intersection, so that both together assign the staged set.
\<close>

definition members :: "('r \<Rightarrow> 'a \<times> 'm) \<Rightarrow> ('r \<Rightarrow> bool) \<Rightarrow> 'a \<Rightarrow> 'r list \<Rightarrow> 'm set" where
  "members key live a rows = {m. \<exists>r \<in> set rows. key r = (a, m) \<and> live r}"

locale membership = keyed_upsert key merge
  for key :: "'r \<Rightarrow> 'a \<times> 'm" and merge :: "'r \<Rightarrow> 'r \<Rightarrow> 'r" +
  fixes live :: "'r \<Rightarrow> bool" and retire :: "'r \<Rightarrow> 'r"
  assumes merge_live: "live (merge new old)"
    and retire_dead: "\<not> live (retire r)"
    and retire_key: "key (retire r) = key r"
begin

lemma members_upsert:
  assumes "key new = (a, m)" and "live new"
  shows "members key live b (upsert key merge new rows)
    = (if b = a then insert m (members key live b rows) else members key live b rows)"
proof (rule set_eqI)
  fix x
  show "x \<in> members key live b (upsert key merge new rows)
    \<longleftrightarrow> x \<in> (if b = a then insert m (members key live b rows) else members key live b rows)"
  proof (cases "(b, x) = key new")
    case False
    then have "r \<in> set (upsert key merge new rows) \<longleftrightarrow> r \<in> set rows" if "key r = (b, x)" for r
      using that by (intro upsert_other) simp
    with False assms(1) show ?thesis by (auto simp: members_def)
  next
    case True
    have "\<exists>r \<in> set (upsert key merge new rows). key r = key new \<and> live r"
    proof (cases "key new \<in> key ` set rows")
      case True
      then obtain old where "old \<in> set rows" "key old = key new" by auto
      then show ?thesis using upsert_hit key_merge merge_live by metis
    qed (use assms in \<open>auto simp: upsert_miss\<close>)
    with True assms(1) show ?thesis by (auto simp: members_def)
  qed
qed

lemma members_upsert_all:
  assumes "\<And>x. x \<in> set xs \<Longrightarrow> key (f x) = (a, g x) \<and> live (f x)"
  shows "members key live b (fold (\<lambda>x. upsert key merge (f x)) xs rows)
    = (if b = a then members key live b rows \<union> g ` set xs else members key live b rows)"
  using assms
proof (induction xs arbitrary: rows)
  case (Cons x xs)
  then have "members key live b (upsert key merge (f x) rows)
      = (if b = a then insert (g x) (members key live b rows) else members key live b rows)"
    by (intro members_upsert) simp_all
  with Cons show ?case by auto
qed simp

lemma members_retire:
  "members key live b (update_where (\<lambda>r. fst (key r) = a \<and> live r \<and> snd (key r) \<notin> S) retire rows)
    = (if b = a then members key live b rows \<inter> S else members key live b rows)"
proof (rule set_eqI)
  fix x
  let ?P = "\<lambda>r. fst (key r) = a \<and> live r \<and> snd (key r) \<notin> S"
  have "x \<in> members key live b (update_where ?P retire rows)
      \<longleftrightarrow> (\<exists>r \<in> set rows. \<not> ?P r \<and> key r = (b, x) \<and> live r)"
    unfolding members_def set_update_where using retire_dead by blast
  also have "\<dots> \<longleftrightarrow> (\<exists>r \<in> set rows. key r = (b, x) \<and> live r) \<and> (b = a \<longrightarrow> x \<in> S)"
    by (rule iffI; elim bexE conjE; intro conjI impI bexI) auto
  finally show "x \<in> members key live b (update_where ?P retire rows)
      \<longleftrightarrow> x \<in> (if b = a then members key live b rows \<inter> S else members key live b rows)"
    by (simp add: members_def)
qed

lemma reconciled:
  assumes "\<And>x. x \<in> set xs \<Longrightarrow> key (f x) = (a, g x) \<and> live (f x)"
  shows "members key live b (update_where (\<lambda>r. fst (key r) = a \<and> live r \<and> snd (key r) \<notin> g ` set xs) retire
      (fold (\<lambda>x. upsert key merge (f x)) xs rows))
    = (if b = a then g ` set xs else members key live b rows)"
proof -
  have all: "members key live b (fold (\<lambda>x. upsert key merge (f x)) xs rows)
      = (if b = a then members key live b rows \<union> g ` set xs else members key live b rows)" for b
    by (rule members_upsert_all) (rule assms)
  show ?thesis by (subst members_retire) (auto simp: all)
qed

end

end
