(* ===== verification/Folders_Correct.thy ===== *)
theory Folders_Correct
  imports Folders Snapshot_Correct Membership
begin

text \<open>
  Correctness of folder membership snapshots. The table of folder items is abstracted to the set of current posts of each
  folder (an interpretation of the locale \<open>membership\<close>): a completed run assigns the staged posts to its
  folder, everything short of that leaves all folders alone, and the log of observations is the difference.
\<close>

section \<open>Frames\<close>

definition membership_frame :: "archive \<Rightarrow> archive \<Rightarrow> bool" where
  "membership_frame d d' \<longleftrightarrow>
     bookmark_folder_items d' = bookmark_folder_items d
     \<and> folder_membership_snapshot_authority d' = folder_membership_snapshot_authority d
     \<and> folder_membership_observations d' = folder_membership_observations d
     \<and> bookmarks d' = bookmarks d
     \<and> bookmark_snapshot_authority d' = bookmark_snapshot_authority d
     \<and> filter snap_complete (snapshots d') = filter snap_complete (snapshots d)"

definition folders_frame :: "archive \<Rightarrow> archive \<Rightarrow> bool" where
  "folders_frame d d' \<longleftrightarrow> membership_frame d d' \<and> bookmark_folders d' = bookmark_folders d"

interpretation membership_kept: frame membership_frame
  by unfold_locales (auto simp: membership_frame_def)

interpretation folders_kept: frame folders_frame
  by unfold_locales (auto simp: folders_frame_def membership_frame_def)

lemma content_frame_folders: "content_frame d d' \<Longrightarrow> folders_frame d d'"
  by (cases d; cases d') (simp add: content_frame_def folders_frame_def membership_frame_def)

lemmas persist_folders = persist_frame [THEN within_mono, OF content_frame_folders]

lemma reserve_folders: "within folders_frame (reserve c g a cost)"
  unfolding within_def
proof
  fix w
  obtain r w' where run: "reserve c g a cost w = (r, w')" by fastforce
  from reserve_windows_only [OF this] show "folders_frame (db w) (db (snd (reserve c g a cost w)))"
    by (auto simp: run folders_frame_def membership_frame_def)
qed

lemma folder_statements_frame:
  "within folders_frame (insert_run a kind)"
  "within folders_frame (insert_folder_snapshot run f)"
  "within folders_frame (exec SnapQuery (set_run run st finished))"
  "within folders_frame (fetch_membership_page src folder tok)"
  "within folders_frame (stage_membership snap observed post)"
  "within folders_frame (record_folder_page run tok n)"
  "within folders_frame (fail_run_returning_account run t)"
proof -
  have set_run: "folders_frame d (set_run run st finished d)" for d run st finished
    by (simp add: set_run_def folders_frame_def membership_frame_def)
  show "within folders_frame (insert_run a kind)"
    unfolding insert_run_def
    by (rule folders_kept.within_sql) (auto simp: folders_frame_def membership_frame_def split: if_splits)
  show "within folders_frame (insert_folder_snapshot run f)"
    unfolding insert_folder_snapshot_def
    by (rule folders_kept.within_sql) (auto simp: folders_frame_def membership_frame_def insert_unique_Some)
  show "within folders_frame (exec SnapQuery (set_run run st finished))"
    by (rule folders_kept.within_exec) (rule set_run)
  show "within folders_frame (fetch_membership_page src folder tok)"
    by (simp add: within_def fetch_membership_page_def folders_kept.frame_refl)
  show "within folders_frame (stage_membership snap observed post)"
    unfolding stage_membership_def
    by (rule folders_kept.within_exec) (simp add: folders_frame_def membership_frame_def)
  show "within folders_frame (record_folder_page run tok n)"
    unfolding record_folder_page_def
    by (rule folders_kept.within_sql) (auto simp: folders_frame_def membership_frame_def split: if_splits)
  show "within folders_frame (fail_run_returning_account run t)"
    unfolding fail_run_returning_account_def
    by (rule folders_kept.within_sql) (auto simp: set_run)
qed

lemma mark_failed_folders: "within folders_frame (mark_failed run)"
  unfolding mark_failed_def by (intro folders_kept.within_intros folder_statements_frame)

lemma mark_capability_limited_folders: "within folders_frame (mark_capability_limited run c)"
proof -
  have "within folders_frame (exec SnapQuery (\<lambda>d. d\<lparr>folder_capability_limits := f d\<rparr>) :: (snapshot_error, unit) dbio)" for f
    by (rule folders_kept.within_exec) (simp add: folders_frame_def membership_frame_def)
  then show ?thesis
    unfolding mark_capability_limited_def by (intro folders_kept.within_intros folder_statements_frame)
qed

lemma stage_folder_page_frame: "within folders_frame (stage_folder_page E run page)"
  unfolding stage_folder_page_def persist_batch_def
  by (intro folders_kept.within_intros persist_folders folder_statements_frame)

lemma folders_membership: "within folders_frame m \<Longrightarrow> within membership_frame m"
  by (erule within_mono) (simp add: folders_frame_def)

lemma load_or_create_folder_run_frame: "within membership_frame (load_or_create_folder_run a folder resume)"
proof -
  have "within membership_frame (upsert_folder a folder)"
    unfolding upsert_folder_def
    by (rule membership_kept.within_sql) (auto simp: Let_def membership_frame_def split: if_splits)
  then show ?thesis
    unfolding load_or_create_folder_run_def create_folder_run_def resume_folder_run_def
    by (intro membership_kept.within_intros folder_statements_frame [THEN folders_membership])
qed

lemma record_capability_limit_frame: "within folders_frame (record_capability_limit a c)"
  unfolding record_capability_limit_def
  by (intro folders_kept.within_intros folder_statements_frame mark_capability_limited_folders)

lemma complete_folder_run_failed: "complete_folder_run run w = (Inl e, w') \<Longrightarrow> db w' = db w"
  by (auto simp: complete_folder_run_def bind_io_def read_clock_def dest: transaction_Inl_db split: prod.splits)

section \<open>What a completion writes\<close>

interpretation folder_members: membership fit_key membership_merge current_membership "retire_membership run t" for run t
  by unfold_locales (simp_all add: membership_merge_def fit_key_def current_membership_def retire_membership_def)

interpretation folder_upsert: keyed_upsert fol_key folder_merge
  by unfold_locales (simp add: folder_merge_def fol_key_def)

interpretation folder_authority_upsert: keyed_upsert fau_folder_id folder_authority_merge
  by unfold_locales (simp add: folder_authority_merge_def)

definition folder_members :: "uuid \<Rightarrow> archive \<Rightarrow> uuid set" where
  "folder_members f d = members fit_key current_membership f (bookmark_folder_items d)"

definition staged_posts :: "uuid \<Rightarrow> archive \<Rightarrow> uuid set" where
  "staged_posts snap d = item_post_id ` set (staged_memberships snap d)"

lemma for_each_exec_Inr:
  "for_each (\<lambda>x. exec e (f x)) xs w = (Inr y, w') \<Longrightarrow> db w' = fold f xs (db w)"
  by (induction xs arbitrary: w) (auto simp: io_run)

lemma matching_memberships_Nil:
  "matching_memberships f s d = [] \<longleftrightarrow> item_post_id s \<notin> folder_members f d"
  by (auto simp: matching_memberships_def folder_members_def members_def filter_empty_conv fit_key_def)

lemma absent_membership_alt:
  "absent_membership run d = (\<lambda>i. fst (fit_key i) = fr_folder_id run \<and> current_membership i
     \<and> snd (fit_key i) \<notin> item_post_id ` set (staged_memberships (fr_snapshot_id run) d))"
  by (simp add: fun_eq_iff absent_membership_def fit_key_def)

definition added_rows :: "folder_run \<Rightarrow> time \<Rightarrow> archive \<Rightarrow> folder_observation list" where
  "added_rows run t d = map (\<lambda>s. membership_observation run t ObsAdded (item_post_id s))
     (filter (\<lambda>s. matching_memberships (fr_folder_id run) s d = []) (staged_memberships (fr_snapshot_id run) d))"

definition saved_memberships :: "folder_run \<Rightarrow> archive \<Rightarrow> folder_item list" where
  "saved_memberships run d = fold (\<lambda>s. upsert fit_key membership_merge (membership_of (fr_folder_id run) s))
     (staged_memberships (fr_snapshot_id run) d) (bookmark_folder_items d)"

definition removed_rows :: "folder_run \<Rightarrow> time \<Rightarrow> archive \<Rightarrow> folder_observation list" where
  "removed_rows run t d = map (membership_observation run t ObsRemoved)
     (map fit_post_id (filter (absent_membership run d) (saved_memberships run d)))"

lemma fold_observations:
  "fold (\<lambda>x d. d\<lparr>folder_membership_observations := h x (folder_membership_observations d)\<rparr>) xs d
     = d\<lparr>folder_membership_observations := fold h xs (folder_membership_observations d)\<rparr>"
  by (induction xs arbitrary: d) simp_all

lemma record_absent_memberships_Inr:
  assumes "record_absent_memberships run t w = (Inr n, w')"
  shows "n = int (length (filter (absent_membership run (db w)) (bookmark_folder_items (db w))))"
    and "db w' = (db w)\<lparr>bookmark_folder_items := update_where (absent_membership run (db w)) (retire_membership run t)
             (bookmark_folder_items (db w)),
           folder_membership_observations := fold (insert_ignore fob_key) (map (membership_observation run t ObsRemoved)
             (map fit_post_id (filter (absent_membership run (db w)) (bookmark_folder_items (db w)))))
             (folder_membership_observations (db w))\<rparr>"
proof -
  let ?removed = "map fit_post_id (filter (absent_membership run (db w)) (bookmark_folder_items (db w)))"
  from assms obtain w1 where w1: "deactivate_memberships run t w = (Inr ?removed, w1)"
    and each: "for_each (record_removed_observation run t) ?removed w1 = (Inr (), w')"
    and n: "n = int (length ?removed)"
    by (auto simp: record_absent_memberships_def deactivate_memberships_def io_run)
  have d1: "db w1 = (db w)\<lparr>bookmark_folder_items := update_where (absent_membership run (db w)) (retire_membership run t)
             (bookmark_folder_items (db w))\<rparr>"
    using w1 by (auto simp: deactivate_memberships_def io_run)
  have "db w' = fold (\<lambda>p d. d\<lparr>folder_membership_observations :=
       insert_ignore fob_key (membership_observation run t ObsRemoved p) (folder_membership_observations d)\<rparr>) ?removed (db w1)"
    using each unfolding record_removed_observation_def by (rule for_each_exec_Inr)
  also have "\<dots> = (db w1)\<lparr>folder_membership_observations := fold (\<lambda>p. insert_ignore fob_key (membership_observation run t ObsRemoved p))
       ?removed (folder_membership_observations (db w1))\<rparr>"
    by (rule fold_observations)
  finally show "db w' = (db w)\<lparr>bookmark_folder_items := update_where (absent_membership run (db w)) (retire_membership run t)
             (bookmark_folder_items (db w)),
           folder_membership_observations := fold (insert_ignore fob_key) (map (membership_observation run t ObsRemoved)
             (map fit_post_id (filter (absent_membership run (db w)) (bookmark_folder_items (db w)))))
             (folder_membership_observations (db w))\<rparr>"
    by (simp add: d1 fold_map comp_def)
  show "n = int (length (filter (absent_membership run (db w)) (bookmark_folder_items (db w))))" using n by simp
qed

lemma reconcile_memberships_Inr:
  assumes "reconcile_memberships run t w = (Inr st, w')"
  shows "st_added st = count_added run (db w)" and "st_retained st = count_retained run (db w)"
    and "st_removed st = int (length (filter (absent_membership run (db w)) (saved_memberships run (db w))))"
    and "db w' = (db w)\<lparr>
           bookmark_folder_items := update_where (absent_membership run (db w)) (retire_membership run t) (saved_memberships run (db w)),
           folder_membership_observations := fold (insert_ignore fob_key) (removed_rows run t (db w))
             (fold (insert_ignore fob_key) (added_rows run t (db w)) (folder_membership_observations (db w)))\<rparr>"
proof -
  from assms obtain v w1 n where add: "record_added_observations run t (advance (advance w)) = (Inr (), v)" and ups: "upsert_active_memberships run v = (Inr (), w1)"
    and abs: "record_absent_memberships run t w1 = (Inr n, w')"
    and st: "st = \<lparr>st_added = count_added run (db w), st_retained = count_retained run (db w), st_removed = n\<rparr>"
    unfolding reconcile_memberships_def by (auto simp: io_run i32_or_overflow_Inr)
  have v: "db v = (db w)\<lparr>folder_membership_observations :=
       fold (insert_ignore fob_key) (added_rows run t (db w)) (folder_membership_observations (db w))\<rparr>"
    using add by (simp add: record_added_observations_def exec_Inr added_rows_def)
  then have w1: "db w1 = (db w)\<lparr>
       folder_membership_observations := fold (insert_ignore fob_key) (added_rows run t (db w)) (folder_membership_observations (db w)),
       bookmark_folder_items := saved_memberships run (db w)\<rparr>"
    using ups by (simp add: upsert_active_memberships_def exec_Inr saved_memberships_def staged_memberships_def)
  have "absent_membership run (db w1) = absent_membership run (db w)"
    by (simp add: fun_eq_iff absent_membership_def staged_memberships_def w1)
  with record_absent_memberships_Inr [OF abs] st w1 show "st_added st = count_added run (db w)"
    "st_retained st = count_retained run (db w)"
    "st_removed st = int (length (filter (absent_membership run (db w)) (saved_memberships run (db w))))"
    "db w' = (db w)\<lparr>
           bookmark_folder_items := update_where (absent_membership run (db w)) (retire_membership run t) (saved_memberships run (db w)),
           folder_membership_observations := fold (insert_ignore fob_key) (removed_rows run t (db w))
             (fold (insert_ignore fob_key) (added_rows run t (db w)) (folder_membership_observations (db w)))\<rparr>"
    by (simp_all add: removed_rows_def)
qed

lemma lock_folder_finalization_Inr:
  "lock_folder_finalization run w = (Inr x, w') \<Longrightarrow> folder_run_current run (db w) = Some (False, Running) \<and> db w' = db w"
  by (auto simp: lock_folder_finalization_def io_run split: if_splits)

lemma folder_authority_Inr:
  assumes "then_io (record_folder_completion run t st) (replace_folder_authority f snap t) w = (Inr x, w')"
  shows "\<exists>rs ss. db w' = (db w)\<lparr>sync_runs := rs, snapshots := ss, folder_membership_snapshot_authority :=
        upsert fau_folder_id folder_authority_merge \<lparr>fau_folder_id = f, fau_snapshot_id = snap, fau_updated_at = t\<rparr>
        (folder_membership_snapshot_authority (db w))\<rparr>"
  using assms unfolding record_folder_completion_def replace_folder_authority_def by (auto simp: io_run intro!: exI)

lemma complete_folder_run_Inr:
  assumes "complete_folder_run run w = (Inr x, w')"
  obtains t where
    "folder_run_current run (db w) = Some (False, Running)"
    "bookmark_folder_items (db w') = update_where (absent_membership run (db w)) (retire_membership run t) (saved_memberships run (db w))"
    "folder_membership_observations (db w') = fold (insert_ignore fob_key) (removed_rows run t (db w))
        (fold (insert_ignore fob_key) (added_rows run t (db w)) (folder_membership_observations (db w)))"
    "folder_membership_snapshot_authority (db w') = upsert fau_folder_id folder_authority_merge
        \<lparr>fau_folder_id = fr_folder_id run, fau_snapshot_id = fr_snapshot_id run, fau_updated_at = t\<rparr>
        (folder_membership_snapshot_authority (db w))"
    "db w' = (db w)\<lparr>bookmark_folder_items := bookmark_folder_items (db w'),
        folder_membership_observations := folder_membership_observations (db w'),
        folder_membership_snapshot_authority := folder_membership_snapshot_authority (db w'),
        sync_runs := sync_runs (db w'), snapshots := snapshots (db w')\<rparr>"
proof -
  let ?t = "clock (sched w) (tick w)"
  from assms obtain w0 w1 st w2 w3 where lock: "lock_folder_finalization run w0 = (Inr (), w1)" and w0: "db w0 = db w"
    and rec: "reconcile_memberships run ?t w1 = (Inr st, w2)"
    and tail: "then_io (record_folder_completion run ?t st) (replace_folder_authority (fr_folder_id run) (fr_snapshot_id run) ?t) w2
        = (Inr x, w3)" and w3: "db w' = db w3"
    unfolding complete_folder_run_def bind_read_clock transaction_Inr then_io_Inr [of "lock_folder_finalization _"]
      bind_io_Inr by (auto simp del: then_io_Inr)
  note w1 = lock_folder_finalization_Inr [OF lock, unfolded w0]
  obtain rs ss where "db w' = (db w2)\<lparr>sync_runs := rs, snapshots := ss, folder_membership_snapshot_authority :=
        upsert fau_folder_id folder_authority_merge
        \<lparr>fau_folder_id = fr_folder_id run, fau_snapshot_id = fr_snapshot_id run, fau_updated_at = ?t\<rparr>
        (folder_membership_snapshot_authority (db w2))\<rparr>" using folder_authority_Inr [OF tail] w3 by auto
  with reconcile_memberships_Inr(4) [OF rec] w1 show thesis by (intro that [of ?t]) simp_all
qed

section \<open>The loop\<close>

lemma complete_folder_run_checkpoint:
  "complete_folder_run (run\<lparr>fr_checkpoint := tok\<rparr>) = complete_folder_run run"
proof -
  have "folder_run_current (run\<lparr>fr_checkpoint := tok\<rparr>) = folder_run_current run"
    "absent_membership (run\<lparr>fr_checkpoint := tok\<rparr>) = absent_membership run"
    "retire_membership (run\<lparr>fr_checkpoint := tok\<rparr>) = retire_membership run"
    "membership_observation (run\<lparr>fr_checkpoint := tok\<rparr>) = membership_observation run"
    "count_added (run\<lparr>fr_checkpoint := tok\<rparr>) = count_added run"
    "count_retained (run\<lparr>fr_checkpoint := tok\<rparr>) = count_retained run"
    by (simp_all add: fun_eq_iff folder_run_current_def absent_membership_def retire_membership_def
        membership_observation_def count_added_def count_retained_def split: option.split)
  moreover from this have "record_removed_observation (run\<lparr>fr_checkpoint := tok\<rparr>) = record_removed_observation run"
    by (simp add: fun_eq_iff record_removed_observation_def)
  ultimately show ?thesis
    by (simp add: complete_folder_run_def lock_folder_finalization_def reconcile_memberships_def record_added_observations_def
        upsert_active_memberships_def record_absent_memberships_def deactivate_memberships_def record_folder_completion_def)
qed

definition folder_done :: "folder_run \<Rightarrow> archive \<Rightarrow> snapshot_error + folder_outcome option \<Rightarrow> archive world \<Rightarrow> bool" where
  "folder_done run d r w' \<longleftrightarrow>
     folders_frame d (db w') \<and> (\<forall>i s. r \<noteq> Inr (Some (FolderCompleted i s)))
     \<or> (\<exists>w1. folders_frame d (db w1) \<and> complete_folder_run run w1 = (Inr (), w')
          \<and> r = Inr (Some (FolderCompleted (fr_id run) (fr_snapshot_id run))))"

lemma folder_done_frame: "folders_frame d d1 \<Longrightarrow> folder_done run d1 r w' \<Longrightarrow> folder_done run d r w'"
  unfolding folder_done_def using folders_kept.frame_trans by blast

lemma folder_stops:
  assumes "then_io m (k :: (snapshot_error, folder_outcome option) dbio) w = (r, w')" and "within folders_frame m" and "within folders_frame k"
    and "\<And>i s v v'. k v \<noteq> (Inr (Some (FolderCompleted i s)), v')"
  shows "folder_done run (db w) r w'"
  using withinD [OF folders_kept.within_then [OF assms(2,3)] assms(1)] assms(1,4)
  by (auto simp: folder_done_def then_io_Inr)

lemma folder_loop_done:
  assumes "folder_loop n E a folder run w = (r, w')"
  shows "folder_done run (db w) r w'"
  using assms
proof (induction n arbitrary: run w)
  case 0
  then show ?case by (auto simp: folder_done_def ret_def folders_kept.frame_refl)
next
  case (Suc n)
  obtain rs w1 where rs: "reserve (fe_chrono E) (fe_gate E) a 1 w = (rs, w1)" by fastforce
  have f1: "folders_frame (db w) (db w1)" by (rule withinD [OF reserve_folders rs])
  note run = Suc.prems [unfolded folder_loop.simps bind_attempt [where m = "reserve (fe_chrono E) (fe_gate E) a 1" and w = w and r = rs and ?w1.0 = w1, OF rs]]
  have "folder_done run (db w1) r w'"
  proof (cases rs)
    case (Inl e)
    with run have "then_io (mark_failed (fr_id run)) (case e of
        Exhausted _ \<Rightarrow> ret (Some (FolderIncomplete (fr_id run))) | _ \<Rightarrow> throw (SnapBudget e)) w1 = (r, w')" by simp
    then show ?thesis
      by (rule folder_stops) (auto intro!: mark_failed_folders folders_kept.within_intros split: budget_error.splits
          simp: ret_def throw_def)
  next
    case (Inr _)
    let ?page = "fe_source E folder (fr_checkpoint run) (tick w1)"
    from run Inr have rest: "(case ?page of
               Inl FolderUnavailable \<Rightarrow>
                 then_io (mark_failed (fr_id run)) (ret (Some (FolderIncomplete (fr_id run))))
             | Inl (FolderLimited capability) \<Rightarrow>
                 then_io (mark_capability_limited (fr_id run) capability)
                   (ret (Some (FolderCapabilityLimited (fr_id run) capability)))
             | Inr page \<Rightarrow>
                 bind_io (attempt (stage_folder_page E run page)) (\<lambda>staged.
                   case staged of
                     Inl e \<Rightarrow> then_io (mark_failed (fr_id run)) (throw e)
                   | Inr _ \<Rightarrow>
                       (let run' = run\<lparr>fr_checkpoint := fmp_next_token page\<rparr> in
                        if fmp_next_token page = None
                        then then_io (complete_folder_run run')
                               (ret (Some (FolderCompleted (fr_id run) (fr_snapshot_id run))))
                        else folder_loop n E a folder run'))) (advance w1) = (r, w')"
      by (simp add: bind_io_def [of "fetch_membership_page _ _ _"] fetch_membership_page_def)
    show ?thesis
    proof (cases ?page)
      case (Inl e)
      have "folder_done run (db (advance w1)) r w'"
      proof (cases e)
        case FolderUnavailable
        with rest Inl have "then_io (mark_failed (fr_id run)) (ret (Some (FolderIncomplete (fr_id run)))) (advance w1) = (r, w')"
          by simp
        then show ?thesis
          by (rule folder_stops) (auto intro!: mark_failed_folders folders_kept.within_intros simp: ret_def)
      next
        case (FolderLimited c)
        with rest Inl have "then_io (mark_capability_limited (fr_id run) c)
            (ret (Some (FolderCapabilityLimited (fr_id run) c))) (advance w1) = (r, w')" by simp
        then show ?thesis
          by (rule folder_stops) (auto intro!: mark_capability_limited_folders folders_kept.within_intros simp: ret_def)
      qed
      then show ?thesis by simp
    next
      case (Inr page)
      obtain st w2 where st: "stage_folder_page E run page (advance w1) = (st, w2)" by fastforce
      have f2: "folders_frame (db w1) (db w2)" using withinD [OF stage_folder_page_frame st] by simp
      note rest2 = rest [unfolded Inr sum.case bind_attempt [where m = "stage_folder_page E run page" and w = "advance w1" and r = st and ?w1.0 = w2, OF st]]
      have "folder_done run (db w2) r w'"
      proof (cases st)
        case (Inl e)
        with rest2 have "then_io (mark_failed (fr_id run)) (throw e) w2 = (r, w')" by simp
        then show ?thesis
          by (rule folder_stops) (auto intro!: mark_failed_folders folders_kept.within_intros simp: throw_def)
      next
        case (Inr _)
        show ?thesis
        proof (cases "fmp_next_token page")
          case (Some tok)
          with rest2 Inr have "folder_loop n E a folder (run\<lparr>fr_checkpoint := Some tok\<rparr>) w2 = (r, w')" by (simp add: Let_def)
          from Suc.IH [OF this] show ?thesis by (simp add: folder_done_def complete_folder_run_checkpoint)
        next
          case None
          with rest2 Inr have fin: "then_io (complete_folder_run run)
              (ret (Some (FolderCompleted (fr_id run) (fr_snapshot_id run)))) w2 = (r, w')"
            by (simp add: Let_def complete_folder_run_checkpoint)
          obtain c w3 where c: "complete_folder_run run w2 = (c, w3)" by fastforce
          show ?thesis
          proof (cases c)
            case (Inl e)
            with fin c have "r = Inl e" "w' = w3" by (simp_all add: then_io_def bind_io_def)
            with complete_folder_run_failed [OF c [unfolded Inl]] show ?thesis
              by (simp add: folder_done_def folders_kept.frame_refl)
          next
            case (Inr u)
            with fin c have "r = Inr (Some (FolderCompleted (fr_id run) (fr_snapshot_id run)))" "w' = w3"
              by (simp_all add: then_io_def bind_io_def ret_def)
            with c Inr folders_kept.frame_refl show ?thesis unfolding folder_done_def by auto
          qed
        qed
      qed
      with f2 show ?thesis by (rule folder_done_frame)
    qed
  qed
  with f1 show ?case by (rule folder_done_frame)
qed

text \<open>
  Nothing short of a complete membership snapshot touches a folder. Whatever stops a folder run (budget, an unavailable page, a
  capability the provider does not grant, a failed statement, an exhausted fuel), the memberships of every
  folder, the current snapshot of every folder, the recorded observations and the bookmarks are as they were; recording a capability limit
  changes none of them either.
\<close>

theorem incomplete_folder_run_keeps_membership:
  assumes "run_folder n E a folder resume w = (r, w')" and "\<And>i s. r \<noteq> Inr (Some (FolderCompleted i s))"
    and "record_capability_limit a c w = (q, w'')"
  shows "membership_frame (db w) (db w') \<and> membership_frame (db w) (db w'')"
proof
  obtain l w1 where l: "load_or_create_folder_run a folder resume w = (l, w1)" by fastforce
  have start: "membership_frame (db w) (db w1)" by (rule withinD [OF load_or_create_folder_run_frame l])
  show "membership_frame (db w) (db w')"
  proof (cases l)
    case (Inl e)
    with assms(1) l start show ?thesis by (simp add: run_folder_def bind_io_def)
  next
    case (Inr run)
    with assms(1) l have "folder_loop n E a folder run w1 = (r, w')" by (simp add: run_folder_def bind_io_def)
    from folder_loop_done [OF this] assms(2) have "folders_frame (db w1) (db w')" by (simp add: folder_done_def)
    with start show ?thesis using membership_kept.frame_trans folders_frame_def by blast
  qed
  show "membership_frame (db w) (db w'')"
    using withinD [OF record_capability_limit_frame assms(3)] by (simp add: folders_frame_def)
qed

lemma upsert_folder_Inr:
  assumes "upsert_folder a folder w = (Inr f, w')"
  shows "\<exists>x \<in> set (bookmark_folders (db w')). fol_id x = f \<and> fol_key x = (a, nf_provider_id folder)"
proof -
  let ?row = "\<lparr>fol_id = uuids (sched w) (tick w) 0, fol_account_id = a, fol_provider_id = nf_provider_id folder,
                  fol_name = nf_name folder\<rparr>"
  let ?table = "upsert fol_key folder_merge ?row (bookmark_folders (db w))"
  from assms obtain x where sel: "select_one (\<lambda>x. fol_key x = fol_key ?row) ?table = Some x"
    and x: "fol_id x = f" "bookmark_folders (db w') = ?table"
    unfolding upsert_folder_def sql_Inr Let_def by (auto split: if_splits)
  from select_one_Some [OF sel] x show ?thesis by (auto simp: fol_key_def)
qed

lemma load_or_create_folder_run_Inr:
  assumes "load_or_create_folder_run a folder resume w = (Inr run, w')"
  shows "\<exists>f \<in> set (bookmark_folders (db w')). fol_id f = fr_folder_id run \<and> fol_provider_id f = nf_provider_id folder"
proof (cases resume)
  case (Some i)
  with assms obtain snap f cp where row: "resumable_folder a folder i (db w) = Some (snap, f, cp)"
    and run: "run = \<lparr>fr_id = i, fr_snapshot_id = snap, fr_folder_id = f, fr_checkpoint = cp\<rparr>"
    and d': "bookmark_folders (db w') = bookmark_folders (db w)"
    unfolding load_or_create_folder_run_def resume_folder_run_def
    by (auto simp: io_run set_run_def split: option.splits)
  from row obtain s where "folder_of_snapshot (nf_provider_id folder) (db w) s = Some f"
    by (auto simp: resumable_folder_def split: option.splits)
  then show ?thesis
    unfolding d' run folder_of_snapshot_def by (auto dest: select_one_Some)
next
  case None
  with assms obtain v v' w1 where up: "upsert_folder a folder v = (Inr (fr_folder_id run), v')"
    and later: "bookmark_folders (db w') = bookmark_folders (db v')"
    unfolding load_or_create_folder_run_def create_folder_run_def
    by (auto simp: io_run insert_run_def insert_folder_snapshot_def split: if_splits)
  from upsert_folder_Inr [OF up] later show ?thesis by (auto simp: fol_key_def)
qed

lemma folder_authority_stored:
  "\<exists>r \<in> set (upsert fau_folder_id folder_authority_merge \<lparr>fau_folder_id = f, fau_snapshot_id = snap, fau_updated_at = t\<rparr> rows).
     fau_folder_id r = f \<and> fau_snapshot_id r = snap"
proof (cases "f \<in> fau_folder_id ` set rows")
  case True
  let ?new = "\<lparr>fau_folder_id = f, fau_snapshot_id = snap, fau_updated_at = t\<rparr>"
  from True obtain old where old: "old \<in> set rows" "fau_folder_id old = fau_folder_id ?new" by auto
  from folder_authority_upsert.upsert_hit [OF old] show ?thesis
    by (rule rev_bexI) (use old in \<open>simp add: folder_authority_merge_def\<close>)
qed (simp add: folder_authority_upsert.upsert_miss)

text \<open>
  C27. A completed membership snapshot is the folder. When a folder run completes, the posts that are current in the folder it was asked for are
  exactly the posts its snapshot staged and that snapshot is the folder's authority; the memberships of every
  other folder and all bookmarks are untouched.
\<close>

theorem completed_folder_run_is_authoritative:
  assumes "run_folder n E a folder resume w = (Inr (Some (FolderCompleted i snap)), w')"
  shows "\<exists>f. (\<exists>x \<in> set (bookmark_folders (db w')). fol_id x = f \<and> fol_provider_id x = nf_provider_id folder)
    \<and> folder_members f (db w') = staged_posts snap (db w')
    \<and> (\<exists>r \<in> set (folder_membership_snapshot_authority (db w')). fau_folder_id r = f \<and> fau_snapshot_id r = snap)
    \<and> (\<forall>g. g \<noteq> f \<longrightarrow> folder_members g (db w') = folder_members g (db w))
    \<and> bookmarks (db w') = bookmarks (db w)"
proof -
  from assms obtain run w1 where run: "load_or_create_folder_run a folder resume w = (Inr run, w1)"
    and loop: "folder_loop n E a folder run w1 = (Inr (Some (FolderCompleted i snap)), w')"
    unfolding run_folder_def bind_io_Inr by blast
  from folder_loop_done [OF loop] obtain w2 where f2: "folders_frame (db w1) (db w2)"
    and fin: "complete_folder_run run w2 = (Inr (), w')" and snap: "snap = fr_snapshot_id run"
    by (auto simp: folder_done_def)
  have f1: "membership_frame (db w) (db w1)" by (rule withinD [OF load_or_create_folder_run_frame run])
  from complete_folder_run_Inr [OF fin] obtain t where
    items: "bookmark_folder_items (db w') = update_where (absent_membership run (db w2)) (retire_membership run t)
        (saved_memberships run (db w2))"
    and auth: "folder_membership_snapshot_authority (db w') = upsert fau_folder_id folder_authority_merge
        \<lparr>fau_folder_id = fr_folder_id run, fau_snapshot_id = fr_snapshot_id run, fau_updated_at = t\<rparr>
        (folder_membership_snapshot_authority (db w2))"
    and other: "db w' = (db w2)\<lparr>bookmark_folder_items := bookmark_folder_items (db w'),
        folder_membership_observations := folder_membership_observations (db w'),
        folder_membership_snapshot_authority := folder_membership_snapshot_authority (db w'),
        sync_runs := sync_runs (db w'), snapshots := snapshots (db w')\<rparr>" by metis
  have same: "bookmark_folders (db w') = bookmark_folders (db w2)" "bookmarks (db w') = bookmarks (db w2)"
    "snapshot_folder_membership_items (db w') = snapshot_folder_membership_items (db w2)"
    by (subst other, simp)+
  have mem: "folder_members g (db w') = (if g = fr_folder_id run then staged_posts snap (db w') else folder_members g (db w))" for g
  proof -
    have "folder_members g (db w') = (if g = fr_folder_id run then staged_posts snap (db w2) else folder_members g (db w2))"
      unfolding folder_members_def staged_posts_def items absent_membership_alt saved_memberships_def snap
      by (rule folder_members.reconciled) (simp add: membership_of_def fit_key_def current_membership_def)
    moreover have "bookmark_folder_items (db w2) = bookmark_folder_items (db w)"
      using f1 f2 by (simp add: folders_frame_def membership_frame_def)
    ultimately show ?thesis using same(3) by (simp add: folder_members_def staged_posts_def staged_memberships_def)
  qed
  have "\<exists>r \<in> set (folder_membership_snapshot_authority (db w')). fau_folder_id r = fr_folder_id run \<and> fau_snapshot_id r = snap"
    unfolding auth snap by (rule folder_authority_stored)
  moreover have "\<exists>x \<in> set (bookmark_folders (db w')). fol_id x = fr_folder_id run \<and> fol_provider_id x = nf_provider_id folder"
    using load_or_create_folder_run_Inr [OF run] f2 same(1) by (simp add: folders_frame_def)
  moreover have "bookmarks (db w') = bookmarks (db w)"
    using f1 f2 same(2) by (simp add: folders_frame_def membership_frame_def)
  ultimately show ?thesis by (intro exI [of _ "fr_folder_id run"]) (simp add: mem)
qed

section \<open>The observation log\<close>

lemma keys_fold_insert_ignore:
  "key ` set (fold (insert_ignore key) rows table) = key ` set rows \<union> key ` set table"
  by (induction rows arbitrary: table) (auto simp: insert_ignore_keys)

lemma added_rows_keys:
  "fob_key ` set (added_rows run t d) = (\<lambda>p. (fr_snapshot_id run, fr_folder_id run, p, ObsAdded))
     ` (staged_posts (fr_snapshot_id run) d - folder_members (fr_folder_id run) d)"
  by (auto simp: added_rows_def staged_posts_def matching_memberships_Nil fob_key_def membership_observation_def image_iff)

lemma removed_rows_keys:
  "fob_key ` set (removed_rows run t d) = (\<lambda>p. (fr_snapshot_id run, fr_folder_id run, p, ObsRemoved))
     ` (folder_members (fr_folder_id run) d - staged_posts (fr_snapshot_id run) d)"
proof -
  have "members fit_key current_membership (fr_folder_id run) (saved_memberships run d)
      = folder_members (fr_folder_id run) d \<union> staged_posts (fr_snapshot_id run) d"
    unfolding saved_memberships_def staged_posts_def folder_members_def
    by (subst folder_members.members_upsert_all [where g = item_post_id and a = "fr_folder_id run"])
       (simp_all add: membership_of_def fit_key_def current_membership_def)
  moreover have "fit_post_id ` set (filter (absent_membership run d) rows)
      = members fit_key current_membership (fr_folder_id run) rows - staged_posts (fr_snapshot_id run) d" for rows
    by (auto simp: absent_membership_def members_def fit_key_def staged_posts_def)
  ultimately have "fit_post_id ` set (filter (absent_membership run d) (saved_memberships run d))
      = folder_members (fr_folder_id run) d - staged_posts (fr_snapshot_id run) d"
    by (simp add: Un_Diff)
  then have "membership_observation run t ObsRemoved ` fit_post_id ` set (filter (absent_membership run d) (saved_memberships run d))
      = membership_observation run t ObsRemoved ` (folder_members (fr_folder_id run) d - staged_posts (fr_snapshot_id run) d)"
    by simp
  then show ?thesis
    by (simp add: removed_rows_def image_image fob_key_def membership_observation_def)
qed

text \<open>
  The observation log records exactly the change. Completing a membership snapshot logs one
  addition for every staged post that was not current in the folder and one removal for every current post that was not staged; it
  logs nothing else and forgets nothing.
\<close>

theorem folder_observations_exact:
  assumes "complete_folder_run run w = (Inr x, w')"
  shows "fob_key ` set (folder_membership_observations (db w')) = fob_key ` set (folder_membership_observations (db w))
    \<union> (\<lambda>p. (fr_snapshot_id run, fr_folder_id run, p, ObsAdded))
        ` (staged_posts (fr_snapshot_id run) (db w) - folder_members (fr_folder_id run) (db w))
    \<union> (\<lambda>p. (fr_snapshot_id run, fr_folder_id run, p, ObsRemoved))
        ` (folder_members (fr_folder_id run) (db w) - staged_posts (fr_snapshot_id run) (db w))"
proof -
  from complete_folder_run_Inr [OF assms] obtain t where
    "folder_membership_observations (db w') = fold (insert_ignore fob_key) (removed_rows run t (db w))
        (fold (insert_ignore fob_key) (added_rows run t (db w)) (folder_membership_observations (db w)))" by metis
  then show ?thesis by (simp add: keys_fold_insert_ignore added_rows_keys removed_rows_keys Un_ac)
qed

section \<open>A concrete folder\<close>

definition demo_folder :: native_folder where
  "demo_folder = \<lparr>nf_provider_id = ''f1'', nf_name = None\<rparr>"

definition demo_folder_env :: "folder_source \<Rightarrow> folder_env" where
  "demo_folder_env src = \<lparr>fe_contracts = demo_contracts, fe_parse = demo_parse, fe_chrono = demo_chrono,
     fe_gate = demo_gate, fe_source = src\<rparr>"

definition demo_folder_once :: folder_source where
  "demo_folder_once folder tok n = Inr \<lparr>fmp_envelope = demo_envelope [''1''], fmp_next_token = None\<rparr>"

definition demo_folder_limited :: folder_source where
  "demo_folder_limited folder tok n = Inl (FolderLimited Membership)"

definition demo_folder_done :: "(snapshot_error + folder_outcome option) \<times> archive world" where
  "demo_folder_done = run_folder 1 (demo_folder_env demo_folder_once) 7 demo_folder None (demo_world demo_archive)"

lemmas folder_eval = run_folder_def load_or_create_folder_run_def create_folder_run_def upsert_folder_def
  insert_folder_snapshot_def stage_folder_page_def stage_membership_def record_folder_page_def complete_folder_run_def
  lock_folder_finalization_def folder_run_current_def reconcile_memberships_def count_added_def count_retained_def
  staged_memberships_def matching_memberships_def record_added_observations_def upsert_active_memberships_def
  membership_of_def membership_merge_def membership_observation_def record_absent_memberships_def deactivate_memberships_def
  absent_membership_def retire_membership_def record_removed_observation_def record_folder_completion_def
  replace_folder_authority_def folder_authority_merge_def fetch_membership_page_def mark_capability_limited_def
  fail_run_returning_account_def limit_merge_def current_membership_def fol_key_def fit_key_def fob_key_def lim_key_def
  folder_merge_def demo_folder_def demo_folder_env_def demo_folder_once_def demo_folder_limited_def

lemma demo_folder_done_fst: "fst demo_folder_done = Inr (Some (FolderCompleted 2000 3000))"
  by (simp add: demo_folder_done_def folder_eval demo_normalized persist_eval publish_eval run_eval complete_eval
      folder_run_type.simps)

theorem completed_folder_run_is_authoritative_witness:
  "\<exists>f. folder_members f (db (snd demo_folder_done)) = staged_posts 3000 (db (snd demo_folder_done))"
proof -
  have "run_folder 1 (demo_folder_env demo_folder_once) 7 demo_folder None (demo_world demo_archive)
      = (Inr (Some (FolderCompleted 2000 3000)), snd demo_folder_done)"
    using demo_folder_done_fst unfolding demo_folder_done_def by (metis prod.collapse)
  from completed_folder_run_is_authoritative [OF this] show ?thesis by blast
qed

definition demo_limited_run :: "(snapshot_error + folder_outcome option) \<times> archive world" where
  "demo_limited_run = run_folder 1 (demo_folder_env demo_folder_limited) 7 demo_folder None (demo_world demo_archive)"

lemma demo_limited_run_fst: "fst demo_limited_run = Inr (Some (FolderCapabilityLimited 2000 Membership))"
  by (simp add: demo_limited_run_def folder_eval demo_normalized persist_eval publish_eval run_eval)

theorem incomplete_folder_run_keeps_membership_witness:
  "membership_frame demo_archive (db (snd demo_limited_run))"
proof -
  have "run_folder 1 (demo_folder_env demo_folder_limited) 7 demo_folder None (demo_world demo_archive)
      = (Inr (Some (FolderCapabilityLimited 2000 Membership)), snd demo_limited_run)"
    using demo_limited_run_fst unfolding demo_limited_run_def by (metis prod.collapse)
  from incomplete_folder_run_keeps_membership [OF this _ prod.collapse [symmetric]] show ?thesis
    by (simp add: demo_world_def)
qed

definition demo_folder_ready :: archive where
  "demo_folder_ready = demo_archive\<lparr>
     bookmark_folders := [\<lparr>fol_id = 60, fol_account_id = 7, fol_provider_id = ''f1'', fol_name = None\<rparr>],
     bookmark_folder_items := [\<lparr>fit_folder_id = 60, fit_post_id = 90, fit_first_observed_in_folder_at = 3,
        fit_observed_removed_from_folder_at = None, fit_observed_removed_snapshot_id = None\<rparr>],
     sync_runs := [\<lparr>run_id = 1000, run_account_id = Some 7, run_run_type = RFolderMembership, run_state = Running,
        run_checkpoint = None, run_pages_fetched = 1, run_items_observed = 1, run_added_count = 0,
        run_retained_count = 0, run_removed_count = 0, run_finished_at = None\<rparr>],
     snapshots := [\<lparr>snap_id = 2000, snap_sync_run_id = 1000, snap_folder_id = Some 60,
        snap_complete = False, snap_completed_at = None, snap_page_count = 0\<rparr>],
     snapshot_folder_membership_items := [\<lparr>item_snapshot_id = 2000, item_post_id = 91, item_observed_at = 6\<rparr>]\<rparr>"

definition demo_folder_run :: folder_run where
  "demo_folder_run = \<lparr>fr_id = 1000, fr_snapshot_id = 2000, fr_folder_id = 60, fr_checkpoint = None\<rparr>"

theorem folder_observations_exact_witness:
  "fob_key ` set (folder_membership_observations (db (snd (complete_folder_run demo_folder_run (demo_world demo_folder_ready)))))
     = {(2000, 60, 91, ObsAdded), (2000, 60, 90, ObsRemoved)}"
proof -
  have "fst (complete_folder_run demo_folder_run (demo_world demo_folder_ready)) = Inr ()"
    by (simp add: demo_folder_ready_def demo_folder_run_def folder_eval publish_eval complete_eval update_where_def upsert_def i32_max_def insert_ignore_def)
  then have "complete_folder_run demo_folder_run (demo_world demo_folder_ready)
      = (Inr (), snd (complete_folder_run demo_folder_run (demo_world demo_folder_ready)))" by (metis prod.collapse)
  from folder_observations_exact [OF this] show ?thesis
    by (simp add: demo_folder_run_def demo_folder_ready_def staged_posts_def staged_memberships_def folder_members_def
        members_def fit_key_def current_membership_def demo_world_def demo_archive_def empty_archive_def insert_commute)
qed

end
