(* ===== verification/Compliance.thy ===== *)
theory Compliance
  imports Budget Social_Sources
begin

text \<open>
  Compliance revalidation, \<^verbatim>\<open>x-sync/src/compliance.rs\<close>: the selection of due sources, the ledger of checks and the
  takedown of a source on an authoritative observation. The provider (\<^verbatim>\<open>ComplianceRevalidationSource\<close>) is a parameter: any
  function from the post and the step number to an observation or a failure. The column
  \<^verbatim>\<open>removal_reason\<close>, which is only written, is not modelled.
\<close>

section \<open>Types\<close>

datatype compliance_availability = CAvailable | CDeleted | CProtected | CAuthorSuspended | CUnavailable

record compliance_observation =
  cob_availability :: compliance_availability
  cob_provider_request_id :: "string option"

datatype compliance_source_error = CsRateLimited | CsAuthorizationLost | CsProviderFailure | CsInvalidEvidence

type_synonym compliance_source = "string \<Rightarrow> nat \<Rightarrow> compliance_source_error + compliance_observation"

record compliance_summary =
  cs_checked :: u32
  cs_takedowns :: u32
  cs_budget_exhausted :: bool

record revalidation_candidate =
  rc_source :: uuid
  rc_post :: uuid
  rc_provider_post :: string
  rc_owner :: uuid

record revalidation_evidence =
  rev_availability :: "compliance_availability option"
  rev_provider_request_id :: "string option"
  rev_outcome :: string
  rev_failure_class :: "string option"

datatype compliance_error = CmpBudget budget_error | CmpQuery | CmpContract | CmpQueue queue_error

record compliance_env =
  ce_contracts :: contracts
  ce_chrono :: chrono
  ce_gate :: budget_gate

fun post_availability :: "compliance_availability \<Rightarrow> availability" where
  "post_availability CAvailable = Active"
| "post_availability CDeleted = Deleted"
| "post_availability CProtected = Protected"
| "post_availability CAuthorSuspended = AuthorSuspended"
| "post_availability CUnavailable = Unavailable"

fun availability_outcome :: "compliance_availability \<Rightarrow> string" where
  "availability_outcome CAvailable = ''available''"
| "availability_outcome CDeleted = ''deleted''"
| "availability_outcome CProtected = ''protected''"
| "availability_outcome CAuthorSuspended = ''author_suspended''"
| "availability_outcome CUnavailable = ''unavailable''"

fun failure_token :: "compliance_source_error \<Rightarrow> string" where
  "failure_token CsRateLimited = ''rate_limited''"
| "failure_token CsAuthorizationLost = ''authorization_lost''"
| "failure_token CsProviderFailure = ''provider_failure''"
| "failure_token CsInvalidEvidence = ''invalid_evidence''"

fun evidence_of :: "compliance_source_error + compliance_observation \<Rightarrow> revalidation_evidence" where
  "evidence_of (Inr ob) =
     \<lparr>rev_availability = Some (cob_availability ob), rev_provider_request_id = cob_provider_request_id ob,
      rev_outcome = availability_outcome (cob_availability ob), rev_failure_class = None\<rparr>"
| "evidence_of (Inl e) =
     \<lparr>rev_availability = None, rev_provider_request_id = None, rev_outcome = ''indeterminate'',
      rev_failure_class = Some (failure_token e)\<rparr>"

section \<open>Due sources\<close>

definition last_checked :: "archive \<Rightarrow> social_source \<Rightarrow> time option" where
  "last_checked d s =
     (case map cmp_checked_at (filter (\<lambda>r. cmp_account_id r = src_account_id s
             \<and> cmp_social_source_id r = src_social_source_id s) (compliance_revalidation_ledger d)) of
        [] \<Rightarrow> None
      | t # ts \<Rightarrow> Some (fold max ts t))"

definition source_due :: "uuid \<Rightarrow> time \<Rightarrow> archive \<Rightarrow> social_source \<Rightarrow> bool" where
  "source_due a due_before d s \<longleftrightarrow>
     src_account_id s = a \<and> src_removed_at s = None
     \<and> (case last_checked d s of None \<Rightarrow> True | Some t \<Rightarrow> t < due_before)"

definition candidate_of :: "archive \<Rightarrow> social_source \<Rightarrow> revalidation_candidate option" where
  "candidate_of d s =
     (case select_one (\<lambda>p. pst_id p = src_post_id s) (posts d) of
        None \<Rightarrow> None
      | Some p \<Rightarrow> map_option (\<lambda>x. \<lparr>rc_source = src_social_source_id s, rc_post = src_post_id s,
                     rc_provider_post = pst_provider_id p, rc_owner = acc_internal_user_id x\<rparr>)
                   (select_one (\<lambda>x. acc_id x = src_account_id s) (accounts d)))"

definition due_candidates :: "uuid \<Rightarrow> time \<Rightarrow> u32 \<Rightarrow> archive \<Rightarrow> revalidation_candidate list" where
  "due_candidates a due_before max_items d =
     take (unat max_items)
       (List.map_filter (candidate_of d)
         (sort_key (\<lambda>s. (last_checked d s, src_social_source_id s))
           (filter (source_due a due_before d) (social_sources d))))"

section \<open>Recording one check\<close>

definition insert_revalidation ::
  "uuid \<Rightarrow> revalidation_candidate \<Rightarrow> revalidation_evidence \<Rightarrow> time \<Rightarrow> (compliance_error, uuid) dbio" where
  "insert_revalidation a c ev checked_at =
     sql CmpQuery (\<lambda>now fresh d.
       if rc_post c \<in> pst_id ` set (posts d)
          \<and> (a, rc_source c) \<in> (\<lambda>s. (src_account_id s, src_social_source_id s)) ` set (social_sources d)
       then map_option (\<lambda>t. (fresh 0, d\<lparr>compliance_revalidation_ledger := t\<rparr>))
              (insert_unique cmp_id
                 \<lparr>cmp_id = fresh 0, cmp_account_id = a, cmp_post_id = rc_post c,
                  cmp_social_source_id = rc_source c, cmp_provider_request_id = rev_provider_request_id ev,
                  cmp_outcome = rev_outcome ev, cmp_failure_class = rev_failure_class ev,
                  cmp_checked_at = checked_at\<rparr> (compliance_revalidation_ledger d))
       else None)"

definition retire_source :: "uuid \<Rightarrow> uuid \<Rightarrow> time \<Rightarrow> (compliance_error, bool) dbio" where
  "retire_source a src checked_at =
     sql CmpQuery (\<lambda>now fresh d.
       let hit = (\<lambda>s. src_account_id s = a \<and> src_social_source_id s = src \<and> src_removed_at s = None)
       in Some (length (filter hit (social_sources d)) = 1,
            d\<lparr>social_sources := update_where hit (\<lambda>s. s\<lparr>src_removed_at := Some checked_at\<rparr>) (social_sources d)\<rparr>))"

definition insert_tombstone ::
  "uuid \<Rightarrow> revalidation_candidate \<Rightarrow> compliance_availability \<Rightarrow> uuid \<Rightarrow> time \<Rightarrow> (compliance_error, unit) dbio" where
  "insert_tombstone a c availability revalidation checked_at =
     sql CmpQuery (\<lambda>now fresh d.
       if rc_source c \<in> tmb_social_source_id ` set (tombstones d)
          \<or> revalidation \<in> tmb_revalidation_id ` set (tombstones d)
       then None
       else Some ((), d\<lparr>tombstones := tombstones d @ [
         \<lparr>tmb_account_id = a, tmb_social_source_id = rc_source c, tmb_post_provider_id = rc_provider_post c,
          tmb_reason = availability_outcome availability, tmb_revalidation_id = revalidation,
          tmb_recorded_at = checked_at\<rparr>]\<rparr>))"

definition removed_payload :: "contracts \<Rightarrow> revalidation_candidate \<Rightarrow> time \<Rightarrow> json" where
  "removed_payload C c checked_at =
     JObj [(''owner'', JStr (''user:'' @ uuid_text C (rc_owner c))),
           (''reason'', JStr ''retention_policy''),
           (''removed_at'', JStr (wire_timestamp C checked_at)),
           (''social_source_id'', JStr (uuid_text C (rc_source c)))]"

definition queue_removal ::
  "contracts \<Rightarrow> revalidation_candidate \<Rightarrow> uuid \<Rightarrow> time \<Rightarrow> (compliance_error, unit) dbio" where
  "queue_removal C c revalidation checked_at =
     (if \<not> social_removed_ok C (removed_payload C c checked_at) then throw CmpContract
      else map_err CmpQueue
        (bind_io (of_result (entity C ''social_source'' (rc_source c))) (\<lambda>aggregate.
         bind_io (of_result (entity C ''compliance_revalidation'' revalidation)) (\<lambda>causation.
         then_io (queue_event C
             \<lparr>ef_aggregate = aggregate, ef_correlation = aggregate, ef_causation = Some causation,
              ef_owner = rc_owner c, ef_occurred_at = checked_at\<rparr>
             REMOVAL_EVENT_TYPE (removed_payload C c checked_at))
           (ret ())))))"

definition remove_source ::
  "contracts \<Rightarrow> uuid \<Rightarrow> revalidation_candidate \<Rightarrow> compliance_availability \<Rightarrow> uuid \<Rightarrow> time
   \<Rightarrow> (compliance_error, bool) dbio" where
  "remove_source C a c availability revalidation checked_at =
     bind_io (retire_source a (rc_source c) checked_at) (\<lambda>removed.
       if \<not> removed then ret False
       else then_io (insert_tombstone a c availability revalidation checked_at)
            (then_io (queue_removal C c revalidation checked_at) (ret True)))"

definition set_availability :: "uuid \<Rightarrow> availability \<Rightarrow> (compliance_error, unit) dbio" where
  "set_availability post av =
     exec CmpQuery (\<lambda>d. d\<lparr>posts := update_where (\<lambda>p. pst_id p = post)
       (\<lambda>p. p\<lparr>pst_availability := av\<rparr>) (posts d)\<rparr>)"

definition record_result ::
  "contracts \<Rightarrow> uuid \<Rightarrow> revalidation_candidate \<Rightarrow> revalidation_evidence \<Rightarrow> time
   \<Rightarrow> (compliance_error, bool) dbio" where
  "record_result C a c ev checked_at =
     transaction CmpQuery
       (bind_io (insert_revalidation a c ev checked_at) (\<lambda>revalidation.
         case rev_availability ev of
           None \<Rightarrow> ret False
         | Some availability \<Rightarrow>
             then_io (set_availability (rc_post c) (post_availability availability))
               (if availability \<noteq> CAvailable
                then remove_source C a c availability revalidation checked_at
                else ret False)))"

section \<open>The bounded run\<close>

definition revalidate :: "compliance_source \<Rightarrow> string \<Rightarrow> ('e, compliance_source_error + compliance_observation) dbio" where
  "revalidate source post w = (Inr (source post (tick w)), advance w)"

primrec revalidate_each ::
  "compliance_env \<Rightarrow> uuid \<Rightarrow> compliance_source \<Rightarrow> revalidation_candidate list \<Rightarrow> compliance_summary
   \<Rightarrow> (compliance_error, compliance_summary) dbio" where
  "revalidate_each E a source [] summary = ret summary"
| "revalidate_each E a source (c # cs) summary =
     bind_io (attempt (reserve (ce_chrono E) (ce_gate E) a 1)) (\<lambda>reserved.
       case reserved of
         Inl (Exhausted _) \<Rightarrow> ret (summary\<lparr>cs_budget_exhausted := True\<rparr>)
       | Inl e \<Rightarrow> throw (CmpBudget e)
       | Inr _ \<Rightarrow>
           bind_io (revalidate source (rc_provider_post c)) (\<lambda>result.
           bind_io read_clock (\<lambda>now.
           bind_io (record_result (ce_contracts E) a c (evidence_of result) now) (\<lambda>takedown.
             revalidate_each E a source cs
               (summary\<lparr>cs_checked := cs_checked summary + 1,
                        cs_takedowns := cs_takedowns summary + (if takedown then 1 else 0)\<rparr>)))))"

definition run_due ::
  "compliance_env \<Rightarrow> uuid \<Rightarrow> compliance_source \<Rightarrow> time \<Rightarrow> u32 \<Rightarrow> (compliance_error, compliance_summary) dbio" where
  "run_due E a source due_before max_items =
     bind_io (query CmpQuery (due_candidates a due_before max_items)) (\<lambda>candidates.
       revalidate_each E a source candidates
         \<lparr>cs_checked = 0, cs_takedowns = 0, cs_budget_exhausted = False\<rparr>)"

end
