(* ===== verification/Compliance_Correct.thy ===== *)
theory Compliance_Correct
  imports Compliance Snapshot_Correct
begin

text \<open>
  Correctness of compliance revalidation: the cases of one recorded check, the frame that lets a source be removed only with a
  backing tombstone and ledger entry, the bound on a run, and a concrete run that takes a source down.
\<close>

section \<open>One check\<close>

definition ledger_row :: "uuid \<Rightarrow> revalidation_candidate \<Rightarrow> revalidation_evidence \<Rightarrow> time \<Rightarrow> uuid \<Rightarrow> revalidation" where
  "ledger_row a c ev t i =
     \<lparr>cmp_id = i, cmp_account_id = a, cmp_post_id = rc_post c, cmp_social_source_id = rc_source c,
      cmp_provider_request_id = rev_provider_request_id ev, cmp_outcome = rev_outcome ev,
      cmp_failure_class = rev_failure_class ev, cmp_checked_at = t\<rparr>"

definition live_source :: "uuid \<Rightarrow> uuid \<Rightarrow> social_source \<Rightarrow> bool" where
  "live_source a src s \<longleftrightarrow> src_account_id s = a \<and> src_social_source_id s = src \<and> src_removed_at s = None"

definition stamped :: "time \<Rightarrow> social_source \<Rightarrow> social_source" where
  "stamped t s = s\<lparr>src_removed_at := Some t\<rparr>"

lemma insert_revalidation_Inr:
  "insert_revalidation a c ev t w = (Inr i, w') \<Longrightarrow>
     i \<notin> cmp_id ` set (compliance_revalidation_ledger (db w))
     \<and> db w' = (db w)\<lparr>compliance_revalidation_ledger := compliance_revalidation_ledger (db w) @ [ledger_row a c ev t i]\<rparr>"
  by (auto simp: insert_revalidation_def sql_Inr insert_unique_Some ledger_row_def split: if_splits)

lemma retire_source_Inr:
  "retire_source a src t w = (Inr k, w') \<Longrightarrow>
     (k \<longleftrightarrow> length (filter (live_source a src) (social_sources (db w))) = 1)
     \<and> db w' = (db w)\<lparr>social_sources := update_where (live_source a src) (stamped t) (social_sources (db w))\<rparr>"
  by (auto simp: retire_source_def sql_Inr Let_def live_source_def [abs_def] stamped_def [abs_def])

definition takedown :: "uuid \<Rightarrow> revalidation_candidate \<Rightarrow> compliance_availability \<Rightarrow> uuid \<Rightarrow> time \<Rightarrow> tombstone" where
  "takedown a c av i t =
     \<lparr>tmb_account_id = a, tmb_social_source_id = rc_source c, tmb_post_provider_id = rc_provider_post c,
      tmb_reason = availability_outcome av, tmb_revalidation_id = i, tmb_recorded_at = t\<rparr>"

lemma queue_removal_Inr:
  assumes "queue_removal C c i t w = (Inr x, w')"
  shows "\<exists>e. out_event_type e = REMOVAL_EVENT_TYPE \<and> we_payload (out_payload e) = removed_payload C c t
    \<and> db w' = (db w)\<lparr>outbox_events := outbox_events (db w) @ [e]\<rparr>"
proof -
  from assms obtain f e w1 where "queue_event C f REMOVAL_EVENT_TYPE (removed_payload C c t) w = (Inr e, w1)" "w' = w1"
    by (auto simp: queue_removal_def io_run split: if_splits)
  with queue_event_Inr [OF this(1)] obtain now where "we_type e = REMOVAL_EVENT_TYPE" "we_payload e = removed_payload C c t"
      "db w' = (db w)\<lparr>outbox_events := outbox_events (db w) @ [outbox_row now e]\<rparr>" by auto
  then show ?thesis by (intro exI [of _ "outbox_row now e"]) (simp add: outbox_row_def)
qed

lemma remove_source_Inr:
  assumes "remove_source C a c av i t w = (Inr k, w')"
  shows "k \<longleftrightarrow> length (filter (live_source a (rc_source c)) (social_sources (db w))) = 1"
    and "\<not> k \<Longrightarrow> db w' = (db w)\<lparr>social_sources := update_where (live_source a (rc_source c)) (stamped t) (social_sources (db w))\<rparr>"
    and "k \<Longrightarrow> \<exists>e. out_event_type e = REMOVAL_EVENT_TYPE \<and> we_payload (out_payload e) = removed_payload C c t
      \<and> db w' = (db w)\<lparr>social_sources := update_where (live_source a (rc_source c)) (stamped t) (social_sources (db w)),
          tombstones := tombstones (db w) @ [takedown a c av i t], outbox_events := outbox_events (db w) @ [e]\<rparr>"
proof -
  from assms obtain b w1 where b: "retire_source a (rc_source c) t w = (Inr b, w1)"
    and rest: "(if \<not> b then ret False else then_io (insert_tombstone a c av i t)
            (then_io (queue_removal C c i t) (ret True))) w1 = (Inr k, w')"
    unfolding remove_source_def bind_io_Inr by blast
  from rest have kb: "k = b" by (auto simp: io_run split: if_splits)
  note w1 = retire_source_Inr [OF b]
  show "k \<longleftrightarrow> length (filter (live_source a (rc_source c)) (social_sources (db w))) = 1" using w1 kb by simp
  show "\<not> k \<Longrightarrow> db w' = (db w)\<lparr>social_sources := update_where (live_source a (rc_source c)) (stamped t) (social_sources (db w))\<rparr>"
    using rest w1 kb by (simp add: ret_Inr)
  assume k
  with rest kb obtain w2 where tomb: "insert_tombstone a c av i t w1 = (Inr (), w2)"
    and q: "queue_removal C c i t w2 = (Inr (), w')" by (auto simp: then_io_Inr ret_Inr)
  have "db w2 = (db w1)\<lparr>tombstones := tombstones (db w1) @ [takedown a c av i t]\<rparr>"
    using tomb by (auto simp: insert_tombstone_def sql_Inr takedown_def split: if_splits)
  with queue_removal_Inr [OF q] w1 show "\<exists>e. out_event_type e = REMOVAL_EVENT_TYPE \<and> we_payload (out_payload e) = removed_payload C c t
      \<and> db w' = (db w)\<lparr>social_sources := update_where (live_source a (rc_source c)) (stamped t) (social_sources (db w)),
          tombstones := tombstones (db w) @ [takedown a c av i t], outbox_events := outbox_events (db w) @ [e]\<rparr>"
    by auto
qed

lemma record_result_Inr:
  assumes "record_result C a c ev t w = (Inr k, w')"
  obtains (kept) i ps where "\<not> k" "rev_availability ev \<in> {None, Some CAvailable}"
      "db w' = (db w)\<lparr>posts := ps, compliance_revalidation_ledger := compliance_revalidation_ledger (db w) @ [ledger_row a c ev t i]\<rparr>"
  | (absent) i ps where "\<not> k" "length (filter (live_source a (rc_source c)) (social_sources (db w))) \<noteq> 1"
      "db w' = (db w)\<lparr>posts := ps, compliance_revalidation_ledger := compliance_revalidation_ledger (db w) @ [ledger_row a c ev t i],
         social_sources := update_where (live_source a (rc_source c)) (stamped t) (social_sources (db w))\<rparr>"
  | (taken) i ps av e where "k" "rev_availability ev = Some av" "av \<noteq> CAvailable"
      "out_event_type e = REMOVAL_EVENT_TYPE" "we_payload (out_payload e) = removed_payload C c t"
      "db w' = (db w)\<lparr>posts := ps, compliance_revalidation_ledger := compliance_revalidation_ledger (db w) @ [ledger_row a c ev t i],
         social_sources := update_where (live_source a (rc_source c)) (stamped t) (social_sources (db w)),
         tombstones := tombstones (db w) @ [takedown a c av i t], outbox_events := outbox_events (db w) @ [e]\<rparr>"
proof -
  let ?v = "(advance w)\<lparr>txn_at := Some (clock (sched w) (tick w))\<rparr>"
  from assms obtain i v1 w1 where ins: "insert_revalidation a c ev t ?v = (Inr i, v1)"
    and rest: "(case rev_availability ev of
           None \<Rightarrow> ret False
         | Some availability \<Rightarrow>
             then_io (set_availability (rc_post c) (post_availability availability))
               (if availability \<noteq> CAvailable then remove_source C a c availability i t else ret False)) v1 = (Inr k, w1)"
    and d': "db w' = db w1"
    unfolding record_result_def transaction_Inr bind_io_Inr by auto
  have v1: "db v1 = (db w)\<lparr>compliance_revalidation_ledger := compliance_revalidation_ledger (db w) @ [ledger_row a c ev t i]\<rparr>"
    using insert_revalidation_Inr [OF ins] by simp
  show thesis
  proof (cases "rev_availability ev")
    case None
    with rest d' v1 show thesis by (intro kept [of i "posts (db w)"]) (simp_all add: ret_Inr)
  next
    case (Some av)
    with rest obtain v2 where st: "set_availability (rc_post c) (post_availability av) v1 = (Inr (), v2)"
      and rest2: "(if av \<noteq> CAvailable then remove_source C a c av i t else ret False) v2 = (Inr k, w1)"
      by (auto simp: then_io_Inr)
    define ps where "ps = update_where (\<lambda>p. pst_id p = rc_post c) (\<lambda>p. p\<lparr>pst_availability := post_availability av\<rparr>) (posts (db w))"
    have v2: "db v2 = (db w)\<lparr>posts := ps, compliance_revalidation_ledger :=
        compliance_revalidation_ledger (db w) @ [ledger_row a c ev t i]\<rparr>"
      using st v1 by (simp add: set_availability_def exec_Inr ps_def)
    show thesis
    proof (cases "av = CAvailable")
      case True
      with rest2 d' v2 Some show thesis by (intro kept [of i ps]) (simp_all add: ret_Inr)
    next
      case False
      with rest2 have rem: "remove_source C a c av i t v2 = (Inr k, w1)" by simp
      show thesis
      proof (cases k)
        case True
        from remove_source_Inr(3) [OF rem True] obtain e where e: "out_event_type e = REMOVAL_EVENT_TYPE"
          "we_payload (out_payload e) = removed_payload C c t"
          "db w1 = (db v2)\<lparr>social_sources := update_where (live_source a (rc_source c)) (stamped t) (social_sources (db v2)),
            tombstones := tombstones (db v2) @ [takedown a c av i t], outbox_events := outbox_events (db v2) @ [e]\<rparr>" by blast
        show thesis by (rule taken [OF True Some False e(1,2), where ps = ps and i = i]) (simp add: d' e(3) v2)
      next
        case k: False
        show thesis
          by (rule absent [OF k, where ps = ps and i = i])
             (use remove_source_Inr(1) [OF rem] remove_source_Inr(2) [OF rem k] k v2 d' in simp_all)
      qed
    qed
  qed
qed

section \<open>Takedowns need evidence\<close>

definition takedown_backed :: "archive \<Rightarrow> tombstone \<Rightarrow> bool" where
  "takedown_backed d t \<longleftrightarrow> (\<exists>r \<in> set (compliance_revalidation_ledger d).
     cmp_id r = tmb_revalidation_id t \<and> cmp_account_id r = tmb_account_id t
     \<and> cmp_social_source_id r = tmb_social_source_id t \<and> cmp_outcome r = tmb_reason t
     \<and> cmp_failure_class r = None \<and> cmp_outcome r \<noteq> ''available'')"

definition source_taken :: "uuid \<Rightarrow> archive \<Rightarrow> social_source \<Rightarrow> social_source \<Rightarrow> bool" where
  "source_taken a d s s' \<longleftrightarrow> s' = s \<or> src_account_id s = a \<and> src_removed_at s = None
     \<and> (\<exists>t \<in> set (tombstones d). tmb_social_source_id t = src_social_source_id s
          \<and> s' = stamped (tmb_recorded_at t) s \<and> takedown_backed d t)"

definition complies :: "uuid \<Rightarrow> archive \<Rightarrow> archive \<Rightarrow> bool" where
  "complies a d d' \<longleftrightarrow> keyed_by src_social_source_id (social_sources d) \<longrightarrow>
     keyed_by src_social_source_id (social_sources d')
     \<and> set (compliance_revalidation_ledger d) \<subseteq> set (compliance_revalidation_ledger d')
     \<and> set (tombstones d) \<subseteq> set (tombstones d')
     \<and> list_all2 (source_taken a d') (social_sources d) (social_sources d')"

lemma source_taken_refl [simp]: "source_taken a d s s"
  by (simp add: source_taken_def)

lemma takedown_backed_mono:
  "takedown_backed d t \<Longrightarrow> set (compliance_revalidation_ledger d) \<subseteq> set (compliance_revalidation_ledger d') \<Longrightarrow> takedown_backed d' t"
  by (auto simp: takedown_backed_def)

lemma source_taken_trans:
  assumes "source_taken a d s s'" and "source_taken a d' s' s''"
    and "set (compliance_revalidation_ledger d) \<subseteq> set (compliance_revalidation_ledger d')" and "set (tombstones d) \<subseteq> set (tombstones d')"
  shows "source_taken a d' s s''"
proof (cases "s' = s")
  case False
  with assms(1) obtain t where t: "src_account_id s = a" "src_removed_at s = None" "t \<in> set (tombstones d)"
      "tmb_social_source_id t = src_social_source_id s" "s' = stamped (tmb_recorded_at t) s" "takedown_backed d t"
    by (auto simp: source_taken_def)
  have "s'' = s'" using assms(2) t(5) by (auto simp: source_taken_def stamped_def)
  with t assms(3,4) takedown_backed_mono show ?thesis unfolding source_taken_def by blast
qed (use assms(2) in simp)

interpretation complying: frame "complies a" for a
proof
  fix d show "complies a d d" by (simp add: complies_def list_all2_refl)
next
  fix d d' d'' assume 1: "complies a d d'" and 2: "complies a d' d''"
  show "complies a d d''"
    unfolding complies_def
  proof (intro impI conjI)
    assume "keyed_by src_social_source_id (social_sources d)"
    with 1 2 have k: "keyed_by src_social_source_id (social_sources d'')"
      "set (compliance_revalidation_ledger d) \<subseteq> set (compliance_revalidation_ledger d')"
      "set (compliance_revalidation_ledger d') \<subseteq> set (compliance_revalidation_ledger d'')"
      "set (tombstones d) \<subseteq> set (tombstones d')" "set (tombstones d') \<subseteq> set (tombstones d'')"
      and l: "list_all2 (source_taken a d') (social_sources d) (social_sources d')"
        "list_all2 (source_taken a d'') (social_sources d') (social_sources d'')"
      by (simp_all add: complies_def)
    then show "keyed_by src_social_source_id (social_sources d'')"
      "set (compliance_revalidation_ledger d) \<subseteq> set (compliance_revalidation_ledger d'')"
      "set (tombstones d) \<subseteq> set (tombstones d'')" by blast+
    show "list_all2 (source_taken a d'') (social_sources d) (social_sources d'')"
      by (rule list_all2_trans [OF _ l]) (rule source_taken_trans [OF _ _ k(3,5)])
  qed
qed

lemma list_all2_update_where:
  "(\<And>s. P s \<Longrightarrow> R s (f s)) \<Longrightarrow> (\<And>s. R s s) \<Longrightarrow> list_all2 R xs (update_where P f xs)"
  by (induction xs) (simp_all add: update_where_def)

lemma no_live_source:
  assumes "keyed_by src_social_source_id ss" and "length (filter (live_source a src) ss) \<noteq> 1"
  shows "update_where (live_source a src) f ss = ss"
proof (rule update_where_none)
  fix s assume s: "s \<in> set ss"
  show "\<not> live_source a src s"
  proof
    assume live: "live_source a src s"
    have "filter (live_source a src) ss = filter (\<lambda>x. src_social_source_id x = src_social_source_id s) ss"
      using keyed_by_inj [OF assms(1) _ s] live by (intro filter_cong) (auto simp: live_source_def)
    also have "\<dots> = [s]" using assms(1) s
    proof (induction ss)
      case (Cons x xs)
      then show ?case by (cases "x = s") (auto simp: keyed_by_def filter_empty_conv image_iff)
    qed simp
    finally show False using assms(2) by simp
  qed
qed

lemma record_result_complies: "within (complies a) (record_result C a c (evidence_of res) t)"
  unfolding within_def
proof
  fix w
  obtain k w' where run: "record_result C a c (evidence_of res) t w = (k, w')" by fastforce
  have "complies a (db w) (db w')"
  proof (cases k)
    case (Inl e)
    with run have "db w' = db w" by (auto simp: record_result_def dest: transaction_Inl_db)
    then show ?thesis by (simp add: complying.frame_refl)
  next
    case (Inr b)
    with run have "record_result C a c (evidence_of res) t w = (Inr b, w')" by simp
    then show ?thesis
    proof (cases rule: record_result_Inr)
      case (kept i ps)
      then show ?thesis by (simp add: complies_def list_all2_refl subset_insertI)
    next
      case (absent i ps)
      show ?thesis
        unfolding complies_def
      proof
        assume key: "keyed_by src_social_source_id (social_sources (db w))"
        have "social_sources (db w') = social_sources (db w)"
          using no_live_source [OF key absent(2)] by (simp add: absent(3))
        with key show "keyed_by src_social_source_id (social_sources (db w'))
          \<and> set (compliance_revalidation_ledger (db w)) \<subseteq> set (compliance_revalidation_ledger (db w'))
          \<and> set (tombstones (db w)) \<subseteq> set (tombstones (db w'))
          \<and> list_all2 (source_taken a (db w')) (social_sources (db w)) (social_sources (db w'))"
          by (simp add: list_all2_refl) (simp add: absent(3) subset_insertI)
      qed
    next
      case (taken i ps av e)
      have "takedown_backed (db w') (takedown a c av i t)"
        using taken(2,3)
        by (cases res; cases av) (auto simp: taken(6) takedown_backed_def takedown_def ledger_row_def)
      moreover have "takedown a c av i t \<in> set (tombstones (db w'))" by (simp add: taken(6))
      ultimately have "source_taken a (db w') s (stamped t s)" if "live_source a (rc_source c) s" for s
        using that unfolding source_taken_def
        by (intro disjI2) (auto simp: live_source_def takedown_def intro!: bexI [of _ "takedown a c av i t"])
      then have "list_all2 (source_taken a (db w')) (social_sources (db w)) (social_sources (db w'))"
        unfolding taken(6) by (simp, intro list_all2_update_where) (simp_all add: taken(6))
      moreover have "keyed_by src_social_source_id (social_sources (db w'))" if "keyed_by src_social_source_id (social_sources (db w))"
        using update_where_keyed [OF that] by (simp add: taken(6) stamped_def)
      ultimately show ?thesis unfolding complies_def by (auto simp: taken(6))
    qed
  qed
  then show "complies a (db w) (db (snd (record_result C a c (evidence_of res) t w)))" by (simp add: run)
qed

lemma revalidate_each_complies: "within (complies a) (revalidate_each E a source cs summary)"
proof (induction cs arbitrary: summary)
  case Nil
  then show ?case by (simp add: complying.within_ret)
next
  case (Cons c cs)
  have res: "within (complies a) (reserve (ce_chrono E) (ce_gate E) a 1)"
    unfolding within_def
  proof
    fix w
    obtain r w' where run: "reserve (ce_chrono E) (ce_gate E) a 1 w = (r, w')" by fastforce
    from reserve_windows_only [OF this] obtain t where "db w' = (db w)\<lparr>api_budget_windows := t\<rparr>" by blast
    then show "complies a (db w) (db (snd (reserve (ce_chrono E) (ce_gate E) a 1 w)))"
      by (simp add: run complies_def list_all2_refl)
  qed
  have rev: "within (complies a) (revalidate source p)" for p
    by (simp add: within_def revalidate_def complying.frame_refl)
  show ?case
    by (auto intro!: complying.within_intros res rev record_result_complies Cons.IH split: sum.splits budget_error.splits)
qed

text \<open>
  C28. A source is taken down only on authoritative evidence. Whatever a revalidation run returns, every source is as it was, or it
  belonged to the account, was not removed before, and carries the instant of a stored tombstone that names it; that tombstone points to
  a ledger entry of the same account and source with the same classification, which is neither available nor
  a failed check. (Source identifiers are unique.)
\<close>

theorem takedown_needs_evidence:
  assumes "run_due E a source due_before max_items w = (r, w')"
    and "keyed_by src_social_source_id (social_sources (db w))"
  shows "list_all2 (source_taken a (db w')) (social_sources (db w)) (social_sources (db w'))"
proof -
  have "within (complies a) (run_due E a source due_before max_items)"
    unfolding run_due_def by (intro complying.within_intros revalidate_each_complies)
  from withinD [OF this assms(1)] assms(2) show ?thesis by (simp add: complies_def)
qed

section \<open>A run is bounded\<close>

definition checks_added :: "archive \<Rightarrow> archive \<Rightarrow> nat \<Rightarrow> nat \<Rightarrow> bool" where
  "checks_added d d' n k \<longleftrightarrow>
     length (compliance_revalidation_ledger d') = length (compliance_revalidation_ledger d) + n
     \<and> length (tombstones d') = length (tombstones d) + k
     \<and> (\<exists>es. outbox_events d' = outbox_events d @ es \<and> length es = k
          \<and> (\<forall>e \<in> set es. out_event_type e = REMOVAL_EVENT_TYPE))"

lemma checks_added_none: "checks_added d d 0 0"
  by (simp add: checks_added_def)

lemma checks_added_trans:
  assumes "checks_added d d' n k" and "checks_added d' d'' m l"
  shows "checks_added d d'' (n + m) (k + l)"
proof -
  from assms obtain es es' where "outbox_events d' = outbox_events d @ es" "length es = k"
      "\<forall>e \<in> set es. out_event_type e = REMOVAL_EVENT_TYPE"
      "outbox_events d'' = outbox_events d' @ es'" "length es' = l"
      "\<forall>e \<in> set es'. out_event_type e = REMOVAL_EVENT_TYPE"
    by (auto simp: checks_added_def)
  with assms show ?thesis by (auto simp: checks_added_def intro!: exI [of _ "es @ es'"])
qed

lemma record_result_adds:
  assumes "record_result C a c ev t w = (Inr k, w')"
  shows "checks_added (db w) (db w') 1 (if k then 1 else 0)"
  using assms by (cases rule: record_result_Inr) (simp_all add: checks_added_def)

lemma revalidate_each_adds:
  assumes "revalidate_each E a source cs s w = (Inr s', w')"
    and "unat (cs_checked s) + length cs < 2 ^ 32" and "unat (cs_takedowns s) \<le> unat (cs_checked s)"
  obtains n k where "n \<le> length cs" "k \<le> n" "unat (cs_checked s') = unat (cs_checked s) + n"
    "unat (cs_takedowns s') = unat (cs_takedowns s) + k" "checks_added (db w) (db w') n k"
  using assms
proof (induction cs arbitrary: s w thesis)
  case Nil
  then show ?case by (auto simp: ret_Inr checks_added_none)
next
  case (Cons c cs)
  obtain r w1 where r: "reserve (ce_chrono E) (ce_gate E) a 1 w = (r, w1)" by fastforce
  from reserve_windows_only [OF this] obtain t where w1: "db w1 = (db w)\<lparr>api_budget_windows := t\<rparr>" by blast
  show ?case
  proof (cases r)
    case (Inl e)
    with Cons.prems(2) r have "s' = s\<lparr>cs_budget_exhausted := True\<rparr>" "w' = w1"
      by (auto simp: bind_io_def attempt_def ret_def throw_def split: budget_error.splits)
    with w1 show ?thesis by (intro Cons.prems(1) [of 0 0]) (simp_all add: checks_added_def)
  next
    case (Inr u)
    with Cons.prems(2) r obtain res now b v v' where
      rec: "record_result (ce_contracts E) a c (evidence_of res) now v = (Inr b, v')" and v: "db v = db w1"
      and rest: "revalidate_each E a source cs (s\<lparr>cs_checked := cs_checked s + 1,
          cs_takedowns := cs_takedowns s + (if b then 1 else 0)\<rparr>) v' = (Inr s', w')"
      by (auto simp: bind_io_def attempt_def revalidate_def read_clock_def split: prod.splits sum.splits)
    have c1: "unat (cs_checked s + 1) = unat (cs_checked s) + 1"
      using Cons.prems(3) by (simp add: unat_word_ariths)
    have k1: "unat (cs_takedowns s + (if b then 1 else 0)) = unat (cs_takedowns s) + (if b then 1 else 0)"
      using Cons.prems(3,4) by (simp add: unat_word_ariths)
    obtain n k where nk: "n \<le> length cs" "k \<le> n" "unat (cs_checked s') = unat (cs_checked s + 1) + n"
        "unat (cs_takedowns s') = unat (cs_takedowns s + (if b then 1 else 0)) + k" "checks_added (db v') (db w') n k"
      using Cons.IH [OF _ rest] Cons.prems(3,4) c1 k1 by (auto split: if_splits)
    have "checks_added (db w) (db v') 1 (if b then 1 else 0)"
      using record_result_adds [OF rec] by (simp add: v w1 checks_added_def)
    from checks_added_trans [OF this nk(5)] show ?thesis
      using nk c1 k1 by (intro Cons.prems(1) [of "1 + n" "(if b then 1 else 0) + k"]) simp_all
  qed
qed

text \<open>
  A revalidation run is bounded and its summary counts what it stored. A run that returns has checked at most the requested
  number of sources and taken down at most as many as it checked; the ledger has one new entry per check,
  and there is one new tombstone and one new queued event per takedown, every one of these events a removal. (The
  32-bit counters do not wrap.)
\<close>

theorem compliance_run_bounded:
  assumes "run_due E a source due_before max_items w = (Inr s, w')"
  shows "cs_checked s \<le> max_items \<and> cs_takedowns s \<le> cs_checked s
    \<and> checks_added (db w) (db w') (unat (cs_checked s)) (unat (cs_takedowns s))"
proof -
  from assms have run: "revalidate_each E a source (due_candidates a due_before max_items (db w))
         \<lparr>cs_checked = 0, cs_takedowns = 0, cs_budget_exhausted = False\<rparr> (advance w) = (Inr s, w')"
    by (auto simp: run_due_def bind_io_Inr query_Inr)
  have len: "length (due_candidates a due_before max_items (db w)) \<le> unat max_items" by (simp add: due_candidates_def)
  also have "\<dots> < 2 ^ 32" using unsigned_less [of max_items] by simp
  finally obtain n k where "n \<le> length (due_candidates a due_before max_items (db w))" "k \<le> n"
      "unat (cs_checked s) = n" "unat (cs_takedowns s) = k" "checks_added (db w) (db w') n k"
    using revalidate_each_adds [OF run] by auto
  with len show ?thesis by (auto simp: word_le_nat_alt)
qed

section \<open>A concrete takedown\<close>

definition demo_deleted :: compliance_source where
  "demo_deleted p t = Inr \<lparr>cob_availability = CDeleted, cob_provider_request_id = None\<rparr>"

definition demo_published :: archive where
  "demo_published = demo_source_db\<lparr>social_sources := [demo_source demo_digest None]\<rparr>"

definition demo_compliance :: compliance_env where
  "demo_compliance = \<lparr>ce_contracts = demo_contracts, ce_chrono = demo_chrono, ce_gate = demo_gate\<rparr>"

definition demo_takedown_run :: "(compliance_error + compliance_summary) \<times> archive world" where
  "demo_takedown_run = run_due demo_compliance 7 demo_deleted 5 10 (demo_world demo_published)"

lemmas compliance_eval = run_due_def due_candidates_def source_due_def last_checked_def candidate_of_def map_filter_def
  revalidate_def record_result_def insert_revalidation_def set_availability_def remove_source_def retire_source_def
  insert_tombstone_def queue_removal_def removed_payload_def reserve_def charge_def window_stmts
  window_start_for_def timestamp_def fits_i32_def i32_max_def account_exists_def insert_ignore_def update_where_def bw_key_def
  window_key_def Let_def

lemma demo_takedown_fst:
  "fst demo_takedown_run = Inr \<lparr>cs_checked = 1, cs_takedowns = 1, cs_budget_exhausted = False\<rparr>"
  by (simp add: demo_takedown_run_def demo_deleted_def demo_published_def demo_compliance_def compliance_eval publish_eval
      demo_chrono_def demo_gate_def demo_source_def REMOVAL_EVENT_TYPE_def)

lemma demo_takedown_run_eq:
  "run_due demo_compliance 7 demo_deleted 5 10 (demo_world demo_published) =
     (Inr \<lparr>cs_checked = 1, cs_takedowns = 1, cs_budget_exhausted = False\<rparr>, snd demo_takedown_run)"
  using demo_takedown_fst unfolding demo_takedown_run_def by (metis prod.collapse)

theorem takedown_needs_evidence_witness:
  "run_due demo_compliance 7 demo_deleted 5 10 (demo_world demo_published) =
     (Inr \<lparr>cs_checked = 1, cs_takedowns = 1, cs_budget_exhausted = False\<rparr>, snd demo_takedown_run)
   \<and> source_taken 7 (db (snd demo_takedown_run)) (demo_source demo_digest None) (hd (social_sources (db (snd demo_takedown_run))))"
proof -
  have ss: "social_sources (db (demo_world demo_published)) = [demo_source demo_digest None]"
    by (simp add: demo_world_def demo_published_def)
  then have "keyed_by src_social_source_id (social_sources (db (demo_world demo_published)))" by (simp add: keyed_by_def)
  from takedown_needs_evidence [OF demo_takedown_run_eq this] show ?thesis
    by (auto simp: ss list_all2_Cons1 demo_takedown_run_eq)
qed

theorem compliance_run_bounded_witness:
  "checks_added demo_published (db (snd demo_takedown_run)) 1 1
   \<and> length (outbox_events (db (snd demo_takedown_run))) = 1"
proof -
  have "outbox_events demo_published = []"
    by (simp add: demo_published_def demo_source_db_def demo_archive_def empty_archive_def)
  with compliance_run_bounded [OF demo_takedown_run_eq] show ?thesis
    by (auto simp: demo_world_def checks_added_def)
qed

end
