(* ===== verification/Knowledge.thy ===== *)
theory Knowledge
  imports Social_Sources
begin

text \<open>
  Knowledge completion linkage, \<^verbatim>\<open>x-sync/src/knowledge.rs\<close>: one inbound completion is linked at most once to a retained
  revision of a source that its tenant owns. Decoding the envelope and its payload is the shared contract
  library's and a parameter, as is the name of the event type; a payload that does not decode, or whose instant does not parse, is \<open>None\<close>.
\<close>

datatype knowledge_admission = LinkedCurrent | LinkedHistorical | KnowledgeDuplicate

datatype knowledge_error = InvalidCompletion | KnowledgeQuery

record analysis_completion =
  anc_owner :: string
  anc_social_source_id :: uuid
  anc_content_digest :: json
  anc_completed_at :: "time option"

record knowledge_event =
  kne_event_id :: string
  kne_producer :: string
  kne_tenant_id :: "string option"
  kne_completion :: "analysis_completion option"

record knowledge_contract =
  knc_decode :: "string \<Rightarrow> knowledge_event option"
  knc_event_type :: string

definition admit_completion ::
  "knowledge_contract \<Rightarrow> string \<Rightarrow> knowledge_error + (string \<times> analysis_completion \<times> time)" where
  "admit_completion K serialized =
     (case knc_decode K serialized of
        None \<Rightarrow> Inl InvalidCompletion
      | Some e \<Rightarrow>
          if kne_producer e \<noteq> ''ratatoskr-knowledge'' then Inl InvalidCompletion
          else case kne_completion e of
            None \<Rightarrow> Inl InvalidCompletion
          | Some c \<Rightarrow>
              if kne_tenant_id e \<noteq> Some (anc_owner c) then Inl InvalidCompletion
              else case anc_completed_at c of
                None \<Rightarrow> Inl InvalidCompletion
              | Some t \<Rightarrow> Inr (kne_event_id e, c, t))"

definition linkable_source :: "analysis_completion \<Rightarrow> archive \<Rightarrow> (uuid \<times> json \<times> time option) option" where
  "linkable_source c d =
     (case select_one (\<lambda>s. src_social_source_id s = anc_social_source_id c) (social_sources d) of
        None \<Rightarrow> None
      | Some s \<Rightarrow>
          if (src_social_source_id s, anc_content_digest c) \<notin> rev_key ` set (social_source_revisions d) then None
          else map_option (\<lambda>x. (acc_internal_user_id x, src_current_content_digest s, src_removed_at s))
                 (select_one (\<lambda>x. acc_id x = src_account_id s) (accounts d)))"

definition claim_inbox :: "knowledge_contract \<Rightarrow> string \<Rightarrow> string \<Rightarrow> (knowledge_error, bool) dbio" where
  "claim_inbox K event_id serialized =
     sql KnowledgeQuery (\<lambda>now fresh d.
       Some (event_id \<notin> inb_event_id ` set (inbox_events d),
         d\<lparr>inbox_events := insert_ignore inb_event_id
             \<lparr>inb_source = ''ratatoskr-knowledge'', inb_event_type = knc_event_type K,
              inb_event_id = event_id, inb_payload = serialized, inb_consumed_at = Some now\<rparr>
             (inbox_events d)\<rparr>))"

definition link_analysis :: "string \<Rightarrow> analysis_completion \<Rightarrow> time \<Rightarrow> (knowledge_error, bool) dbio" where
  "link_analysis event_id c completed_at =
     sql KnowledgeQuery (\<lambda>now fresh d.
       if (anc_social_source_id c, anc_content_digest c) \<in> kal_key ` set (knowledge_analysis_links d)
       then Some (False, d)
       else if event_id \<in> kal_inbox_event_id ` set (knowledge_analysis_links d) then None
       else Some (True, d\<lparr>knowledge_analysis_links := knowledge_analysis_links d @ [
              \<lparr>kal_inbox_event_id = event_id, kal_social_source_id = anc_social_source_id c,
               kal_content_digest = anc_content_digest c, kal_completed_at = completed_at\<rparr>]\<rparr>))"

definition consume_completion ::
  "contracts \<Rightarrow> knowledge_contract \<Rightarrow> string \<Rightarrow> (knowledge_error, knowledge_admission) dbio" where
  "consume_completion C K serialized =
     bind_io (of_result (admit_completion K serialized)) (\<lambda>(event_id, c, completed_at).
       transaction KnowledgeQuery
        (bind_io (query KnowledgeQuery (linkable_source c)) (\<lambda>source.
          case source of
            None \<Rightarrow> throw InvalidCompletion
          | Some (owner, current, removed) \<Rightarrow>
              if anc_owner c \<noteq> ''user:'' @ uuid_text C owner \<or> removed \<noteq> None then throw InvalidCompletion
              else bind_io (claim_inbox K event_id serialized) (\<lambda>claimed.
                if \<not> claimed then ret KnowledgeDuplicate
                else bind_io (link_analysis event_id c completed_at) (\<lambda>linked.
                  ret (if \<not> linked then KnowledgeDuplicate
                       else if current = anc_content_digest c then LinkedCurrent
                       else LinkedHistorical))))))"

section \<open>Linking at most once\<close>

lemma linkable_source_frame [simp]:
  "linkable_source c (d\<lparr>inbox_events := x\<rparr>) = linkable_source c d"
  "linkable_source c (d\<lparr>knowledge_analysis_links := y\<rparr>) = linkable_source c d"
  by (simp_all add: linkable_source_def split: option.split)

lemma consume_completion_Inr:
  assumes "consume_completion C K serialized w = (Inr a, w')"
  obtains event_id c t owner current where
    "admit_completion K serialized = Inr (event_id, c, t)"
    "linkable_source c (db w) = Some (owner, current, None)" "anc_owner c = ''user:'' @ uuid_text C owner"
    "event_id \<in> inb_event_id ` set (inbox_events (db w))" "a = KnowledgeDuplicate" "db w' = db w"
  | event_id c t owner current now where
    "admit_completion K serialized = Inr (event_id, c, t)"
    "linkable_source c (db w) = Some (owner, current, None)" "anc_owner c = ''user:'' @ uuid_text C owner"
    "(anc_social_source_id c, anc_content_digest c) \<in> kal_key ` set (knowledge_analysis_links (db w))"
    "a = KnowledgeDuplicate" "event_id \<notin> inb_event_id ` set (inbox_events (db w))"
    "db w' = (db w)\<lparr>inbox_events := inbox_events (db w) @ [
        \<lparr>inb_source = ''ratatoskr-knowledge'', inb_event_type = knc_event_type K,
         inb_event_id = event_id, inb_payload = serialized, inb_consumed_at = Some now\<rparr>]\<rparr>"
  | event_id c t owner current now where
    "admit_completion K serialized = Inr (event_id, c, t)"
    "linkable_source c (db w) = Some (owner, current, None)" "anc_owner c = ''user:'' @ uuid_text C owner"
    "(anc_social_source_id c, anc_content_digest c) \<notin> kal_key ` set (knowledge_analysis_links (db w))"
    "a = (if current = anc_content_digest c then LinkedCurrent else LinkedHistorical)"
    "event_id \<notin> inb_event_id ` set (inbox_events (db w))"
    "db w' = (db w)\<lparr>inbox_events := inbox_events (db w) @ [
        \<lparr>inb_source = ''ratatoskr-knowledge'', inb_event_type = knc_event_type K,
         inb_event_id = event_id, inb_payload = serialized, inb_consumed_at = Some now\<rparr>],
       knowledge_analysis_links := knowledge_analysis_links (db w) @ [
         \<lparr>kal_inbox_event_id = event_id, kal_social_source_id = anc_social_source_id c,
          kal_content_digest = anc_content_digest c, kal_completed_at = t\<rparr>]\<rparr>"
proof -
  from assms obtain event_id c t w1 where adm: "admit_completion K serialized = Inr (event_id, c, t)"
    and body: "bind_io (query KnowledgeQuery (linkable_source c)) (\<lambda>source.
          case source of
            None \<Rightarrow> throw InvalidCompletion
          | Some (owner, current, removed) \<Rightarrow>
              if anc_owner c \<noteq> ''user:'' @ uuid_text C owner \<or> removed \<noteq> None then throw InvalidCompletion
              else bind_io (claim_inbox K event_id serialized) (\<lambda>claimed.
                if \<not> claimed then ret KnowledgeDuplicate
                else bind_io (link_analysis event_id c t) (\<lambda>linked.
                  ret (if \<not> linked then KnowledgeDuplicate
                       else if current = anc_content_digest c then LinkedCurrent
                       else LinkedHistorical))))
        ((advance w)\<lparr>txn_at := Some (clock (sched w) (tick w))\<rparr>) = (Inr a, w1)" and d': "db w' = db w1"
    unfolding consume_completion_def bind_io_Inr [of "of_result _"] of_result_Inr by (auto simp: transaction_Inr)
  let ?w2 = "advance ((advance w)\<lparr>txn_at := Some (clock (sched w) (tick w))\<rparr>)"
  let ?k = "\<lambda>current claimed. if \<not> claimed then ret KnowledgeDuplicate
                else bind_io (link_analysis event_id c t) (\<lambda>linked.
                  ret (if \<not> linked then KnowledgeDuplicate
                       else if current = anc_content_digest c then LinkedCurrent
                       else LinkedHistorical))"
  obtain owner current removed where row: "linkable_source c (db w) = Some (owner, current, removed)"
    using body by (cases "linkable_source c (db w)") (auto simp: bind_io_Inr [of "query _ _"] query_Inr throw_Inr)
  have ok: "anc_owner c = ''user:'' @ uuid_text C owner \<and> removed = None"
    using body row by (cases "anc_owner c = ''user:'' @ uuid_text C owner \<and> removed = None")
      (auto simp: bind_io_Inr [of "query _ _"] query_Inr throw_Inr)
  have src: "linkable_source c (db w) = Some (owner, current, None)" "anc_owner c = ''user:'' @ uuid_text C owner"
    using row ok by simp_all
  have "bind_io (claim_inbox K event_id serialized) (?k current) ?w2 = (Inr a, w1)"
    using body row ok by (simp add: bind_io_Inr [of "query _ _"] query_Inr)
  then obtain claimed w3 where claim: "claim_inbox K event_id serialized ?w2 = (Inr claimed, w3)"
    and rest: "?k current claimed w3 = (Inr a, w1)" unfolding bind_io_Inr [of "claim_inbox _ _ _"] by blast
  let ?row = "\<lparr>inb_source = ''ratatoskr-knowledge'', inb_event_type = knc_event_type K,
         inb_event_id = event_id, inb_payload = serialized, inb_consumed_at = Some (db_now ?w2)\<rparr>"
  have claimed: "claimed \<longleftrightarrow> event_id \<notin> inb_event_id ` set (inbox_events (db w))"
    "db w3 = (db w)\<lparr>inbox_events := insert_ignore inb_event_id ?row (inbox_events (db w))\<rparr>"
    using claim by (simp_all add: claim_inbox_def sql_Inr)
  have miss: "\<not> claimed \<Longrightarrow> db w3 = db w"
    and hit: "claimed \<Longrightarrow> db w3 = (db w)\<lparr>inbox_events := inbox_events (db w) @ [?row]\<rparr>"
    using claimed by (simp_all add: insert_ignore_def)
  show thesis
  proof (cases claimed)
    case False
    with rest claimed(1) miss d' show thesis by (intro that(1) [OF adm src(1,2)]) (simp_all add: ret_Inr)
  next
    case True
    with rest obtain linked where link: "link_analysis event_id c t w3 = (Inr linked, w1)"
      and a: "a = (if \<not> linked then KnowledgeDuplicate
                   else if current = anc_content_digest c then LinkedCurrent else LinkedHistorical)"
      by (auto simp: bind_io_Inr ret_Inr)
    show thesis
    proof (cases linked)
      case False
      with link claimed(1) hit [OF True] True d' a show thesis
        by (intro that(2) [where now = "db_now ?w2", OF adm src]) (auto simp: link_analysis_def sql_Inr split: if_splits)
    next
      case linked: True
      with link claimed(1) hit [OF True] True d' a show thesis
        by (intro that(3) [where now = "db_now ?w2", OF adm src]) (auto simp: link_analysis_def sql_Inr split: if_splits)
    qed
  qed
qed

text \<open>
  C33. A completion is linked at most once and only by its owner. When a completion is accepted, the tenant it names
  owns the source, the source is not removed and the digest is one of its retained revisions. It is answered as a duplicate exactly
  when its event had been consumed before or a link for that revision existed, and then the links are unchanged (an event identifier that was
  consumed before, even with another digest, gets no link). Otherwise exactly one link is added, for that revision, which had none, and the
  answer says whether the revision is the current one of the source. Afterwards the event counts as consumed, and delivering the same
  message again (with no other process in between) is answered as a duplicate, or fails on the database, and changes nothing.
\<close>

theorem completion_linked_once:
  assumes "consume_completion C K serialized w = (Inr a, w')"
    and "db w1 = db w'" and "consume_completion C K serialized w1 = (r, w2)"
  shows "\<exists>event_id c t s. admit_completion K serialized = Inr (event_id, c, t)
    \<and> s \<in> set (social_sources (db w)) \<and> src_social_source_id s = anc_social_source_id c \<and> src_removed_at s = None
    \<and> (\<exists>x \<in> set (accounts (db w)). acc_id x = src_account_id s \<and> anc_owner c = ''user:'' @ uuid_text C (acc_internal_user_id x))
    \<and> (anc_social_source_id c, anc_content_digest c) \<in> rev_key ` set (social_source_revisions (db w))
    \<and> (if event_id \<in> inb_event_id ` set (inbox_events (db w))
            \<or> (anc_social_source_id c, anc_content_digest c) \<in> kal_key ` set (knowledge_analysis_links (db w))
        then a = KnowledgeDuplicate \<and> knowledge_analysis_links (db w') = knowledge_analysis_links (db w)
        else a = (if src_current_content_digest s = anc_content_digest c then LinkedCurrent else LinkedHistorical)
          \<and> map kal_key (knowledge_analysis_links (db w'))
            = map kal_key (knowledge_analysis_links (db w)) @ [(anc_social_source_id c, anc_content_digest c)])
    \<and> event_id \<in> inb_event_id ` set (inbox_events (db w'))
    \<and> r \<in> {Inr KnowledgeDuplicate, Inl KnowledgeQuery} \<and> db w2 = db w'"
proof -
  have source: "\<exists>s. s \<in> set (social_sources d) \<and> src_social_source_id s = anc_social_source_id c \<and> src_removed_at s = None
      \<and> src_current_content_digest s = current
      \<and> (\<exists>x \<in> set (accounts d). acc_id x = src_account_id s \<and> owner = acc_internal_user_id x)
      \<and> (anc_social_source_id c, anc_content_digest c) \<in> rev_key ` set (social_source_revisions d)"
    if "linkable_source c d = Some (owner, current, None)" for c d owner current
    using that unfolding linkable_source_def
    by (auto split: option.splits if_splits dest!: select_one_Some)
  have again: "r \<in> {Inr KnowledgeDuplicate, Inl KnowledgeQuery} \<and> db w2 = db w'"
    if "admit_completion K serialized = Inr (event_id, c, t)" "linkable_source c (db w') = Some (owner, current, None)"
      "anc_owner c = ''user:'' @ uuid_text C owner" "event_id \<in> inb_event_id ` set (inbox_events (db w'))"
    for event_id c t owner current
    using assms(2,3) that unfolding consume_completion_def claim_inbox_def insert_ignore_def
    by (auto simp: io_defs advance_def split: if_splits)
  from assms(1) show ?thesis
  proof (cases rule: consume_completion_Inr)
    case (1 event_id c t owner current)
    with source [OF 1(2)] again [OF 1(1)] show ?thesis by (intro exI [of _ event_id] exI [of _ c] exI [of _ t]) auto
  next
    case (2 event_id c t owner current now)
    have "linkable_source c (db w') = Some (owner, current, None)" using 2(2,7) by (simp add: linkable_source_frame)
    with source [OF 2(2)] again [OF 2(1)] 2 show ?thesis by auto
  next
    case (3 event_id c t owner current now)
    have "linkable_source c (db w') = Some (owner, current, None)" using 3(2,7) by (simp add: linkable_source_frame)
    with source [OF 3(2)] again [OF 3(1)] 3 show ?thesis by (auto simp: kal_key_def)
  qed
qed

section \<open>A concrete completion\<close>

definition demo_knowledge :: knowledge_contract where
  "demo_knowledge = \<lparr>knc_decode = (\<lambda>s. Some \<lparr>kne_event_id = ''e1'', kne_producer = ''ratatoskr-knowledge'',
       kne_tenant_id = Some ''user:'', kne_completion = Some \<lparr>anc_owner = ''user:'', anc_social_source_id = 50,
         anc_content_digest = demo_digest, anc_completed_at = Some 9\<rparr>\<rparr>),
     knc_event_type = ''knowledge.analysis.completed.v1''\<rparr>"

definition demo_linkable :: archive where
  "demo_linkable = demo_source_db\<lparr>social_sources := [demo_source demo_digest None],
     social_source_revisions := [\<lparr>rev_social_source_id = 50, rev_content_digest = demo_digest, rev_captured_at = 0,
       rev_acquisition = ''official_api'', rev_saved_authority = ''authoritative_platform_state''\<rparr>]\<rparr>"

definition demo_linked :: "(knowledge_error + knowledge_admission) \<times> archive world" where
  "demo_linked = consume_completion demo_contracts demo_knowledge [] (demo_world demo_linkable)"

lemma demo_linked_fst: "fst demo_linked = Inr LinkedCurrent"
  by (simp add: demo_linked_def demo_linkable_def demo_knowledge_def consume_completion_def admit_completion_def
      linkable_source_def claim_inbox_def link_analysis_def demo_source_def rev_key_def kal_key_def publish_eval)

theorem completion_linked_once_witness:
  "map kal_key (knowledge_analysis_links (db (snd demo_linked))) = [(50, demo_digest)]
   \<and> db (snd (consume_completion demo_contracts demo_knowledge [] (snd demo_linked))) = db (snd demo_linked)"
proof -
  have "consume_completion demo_contracts demo_knowledge [] (demo_world demo_linkable) = (Inr LinkedCurrent, snd demo_linked)"
    using demo_linked_fst unfolding demo_linked_def by (metis prod.collapse)
  from completion_linked_once [OF this refl prod.collapse [symmetric]] show ?thesis
    by (auto simp: admit_completion_def demo_knowledge_def demo_linkable_def demo_source_db_def demo_world_def
        demo_archive_def empty_archive_def)
qed

end
