(* ===== verification/Tokens.thy ===== *)
theory Tokens
  imports Prelude "HOL-Library.Sublist"
begin

text \<open>
  Credential material at rest, \<^verbatim>\<open>x-oauth/src/payload.rs\<close> and \<^verbatim>\<open>x-oauth/src/cipher.rs\<close>, and the scope audit of
  \<^verbatim>\<open>x-oauth/src/scope.rs\<close>. AES-256-GCM and the byte form of a UUID come from libraries and are
  parameters with their documented laws. The decoders of \<^verbatim>\<open>core::str\<close> are modelled on the bytes of a text.
\<close>

type_synonym bytes = "8 word list"

section \<open>UTF-8\<close>

text \<open>
  One step of the UTF-8 decoder: whether the sequence at the head is well formed, and the number of bytes it spans.
  An ill-formed sequence spans its maximal valid prefix, as in \<^verbatim>\<open>core::str::Utf8Chunks\<close>.
\<close>

definition continuation :: "8 word \<Rightarrow> bool" where
  "continuation b \<longleftrightarrow> 0x80 \<le> b \<and> b \<le> 0xBF"

definition second_ok :: "8 word \<Rightarrow> 8 word \<Rightarrow> bool" where
  "second_ok b c \<longleftrightarrow>
     (if b = 0xE0 then 0xA0 \<le> c \<and> c \<le> 0xBF
      else if b = 0xED then 0x80 \<le> c \<and> c \<le> 0x9F
      else if b = 0xF0 then 0x90 \<le> c \<and> c \<le> 0xBF
      else if b = 0xF4 then 0x80 \<le> c \<and> c \<le> 0x8F
      else continuation c)"

fun continued :: "nat \<Rightarrow> nat \<Rightarrow> bytes \<Rightarrow> bool \<times> nat" where
  "continued 0 n bs = (True, n)"
| "continued (Suc k) n [] = (False, n)"
| "continued (Suc k) n (b # bs) = (if continuation b then continued k (Suc n) bs else (False, n))"

definition after_lead :: "nat \<Rightarrow> 8 word \<Rightarrow> bytes \<Rightarrow> bool \<times> nat" where
  "after_lead k b bs =
     (case bs of [] \<Rightarrow> (False, 1) | c # cs \<Rightarrow> if second_ok b c then continued k 2 cs else (False, 1))"

definition utf8_step :: "8 word \<Rightarrow> bytes \<Rightarrow> bool \<times> nat" where
  "utf8_step b bs =
     (if b < 0x80 then (True, 1)
      else if 0xC2 \<le> b \<and> b \<le> 0xDF then after_lead 0 b bs
      else if 0xE0 \<le> b \<and> b \<le> 0xEF then after_lead 1 b bs
      else if 0xF0 \<le> b \<and> b \<le> 0xF4 then after_lead 2 b bs
      else (False, 1))"

lemma continued_pos: "0 < n \<Longrightarrow> 0 < snd (continued k n bs)"
  by (induction k n bs rule: continued.induct) auto

lemma utf8_step_pos [simp]: "0 < snd (utf8_step b bs)"
  by (auto simp: utf8_step_def after_lead_def continued_pos split: list.split)

function utf8_valid :: "bytes \<Rightarrow> bool" where
  "utf8_valid [] = True"
| "utf8_valid (b # bs) = (fst (utf8_step b bs) \<and> utf8_valid (drop (snd (utf8_step b bs) - 1) bs))"
  by pat_completeness auto
termination by (relation "measure length") auto

text \<open>\<^verbatim>\<open>String::from_utf8\<close> and \<^verbatim>\<open>String::from_utf8_lossy\<close>; the replacement character is three bytes long.\<close>

definition text_of_bytes :: "bytes \<Rightarrow> string" where
  "text_of_bytes bs = map (\<lambda>b. char_of (unat b)) bs"

definition from_utf8 :: "bytes \<Rightarrow> string option" where
  "from_utf8 bs = (if utf8_valid bs then Some (text_of_bytes bs) else None)"

function lossy :: "bytes \<Rightarrow> bytes" where
  "lossy [] = []"
| "lossy (b # bs) =
     (case utf8_step b bs of (ok, n) \<Rightarrow>
        (if ok then b # take (n - 1) bs else [0xEF, 0xBF, 0xBD]) @ lossy (drop (n - 1) bs))"
  by pat_completeness auto
termination by (relation "measure length") auto

definition from_utf8_lossy :: "bytes \<Rightarrow> string" where
  "from_utf8_lossy bs = text_of_bytes (lossy bs)"

lemma unat_lt_256: "unat b < 256" for b :: "8 word"
proof -
  have "unat b < 2 ^ LENGTH(8)" by (rule unsigned_less)
  then show ?thesis by simp
qed

lemma text_of_as_bytes [simp]: "text_of_bytes (as_bytes s) = s"
  by (simp add: text_of_bytes_def as_bytes_def comp_def unat_of_nat of_char_mod_256 map_idI)

lemma as_text_of_bytes [simp]: "as_bytes (text_of_bytes bs) = bs"
proof -
  have "unat b mod 256 = unat b" for b :: "8 word" by (simp add: unat_lt_256)
  then show ?thesis by (simp add: text_of_bytes_def as_bytes_def comp_def)
qed

lemma as_bytes_append [simp]: "as_bytes (s @ t) = as_bytes s @ as_bytes t"
  by (simp add: as_bytes_def)

lemma from_utf8_Some: "from_utf8 bs = Some s \<longleftrightarrow> utf8_valid bs \<and> bs = as_bytes s"
  by (auto simp: from_utf8_def)

section \<open>Length-prefixed payloads\<close>

record credential_payload =
  cp_access_token :: string
  cp_refresh_token :: string

text \<open>\<^verbatim>\<open>to_be_bytes\<close> of a \<open>k\<close>-byte integer and \<^verbatim>\<open>from_be_bytes\<close>.\<close>

definition be_digits :: "nat \<Rightarrow> nat \<Rightarrow> bytes" where
  "be_digits k n = map (\<lambda>i. of_nat (n div 256 ^ i)) (rev [0..<k])"

definition of_be :: "bytes \<Rightarrow> nat" where
  "of_be bs = foldl (\<lambda>n b. 256 * n + unat b) 0 bs"

definition append_length_prefixed :: "bytes \<Rightarrow> bytes" where
  "append_length_prefixed v = be_digits 4 (if length v < 2 ^ 32 then length v else 2 ^ 32 - 1) @ v"

definition payload_encode :: "credential_payload \<Rightarrow> bytes" where
  "payload_encode p = append_length_prefixed (as_bytes (cp_access_token p))
     @ append_length_prefixed (as_bytes (cp_refresh_token p))"

definition take_length_prefixed :: "bytes \<Rightarrow> (bytes \<times> bytes) option" where
  "take_length_prefixed bs =
     (if length bs < 4 then None
      else let len = of_be (take 4 bs)
           in if length bs < 4 + len then None
              else Some (take len (drop 4 bs), drop (4 + len) bs))"

definition payload_decode :: "bytes \<Rightarrow> credential_payload option" where
  "payload_decode bs =
     (case take_length_prefixed bs of
        None \<Rightarrow> None
      | Some (access, rest) \<Rightarrow>
          (case take_length_prefixed rest of
             None \<Rightarrow> None
           | Some (refresh, tail) \<Rightarrow>
               if tail \<noteq> [] then None
               else case from_utf8 access of
                      None \<Rightarrow> None
                    | Some a \<Rightarrow> map_option (\<lambda>r. \<lparr>cp_access_token = a, cp_refresh_token = r\<rparr>) (from_utf8 refresh)))"

definition storable :: "string \<Rightarrow> bool" where
  "storable s \<longleftrightarrow> utf8_valid (as_bytes s) \<and> length s < 2 ^ 32"

lemma be_digits_Suc: "be_digits (Suc k) n = be_digits k (n div 256) @ [of_nat n]"
  by (simp add: be_digits_def rev_map [symmetric] map_Suc_upt [symmetric] comp_def div_mult2_eq del: upt_Suc map_Suc_upt)
     (simp add: upt_conv_Cons map_Suc_upt [symmetric] comp_def div_mult2_eq del: map_Suc_upt upt_Suc)

lemma length_be_digits [simp]: "length (be_digits k n) = k"
  by (simp add: be_digits_def)

lemma of_be_snoc: "of_be (bs @ [b]) = 256 * of_be bs + unat b"
  by (simp add: of_be_def)

lemma byte_of_digits: "of_nat (256 * n + unat b) = b" for b :: "8 word"
proof -
  have "(256 :: 8 word) = 0" by simp
  then have "of_nat (256 * n) = (0 :: 8 word)" by (metis mult_zero_left of_nat_mult of_nat_numeral)
  then show ?thesis by (simp only: of_nat_add add_0) simp
qed

lemma of_be_digits: "n < 256 ^ k \<Longrightarrow> of_be (be_digits k n) = n"
proof (induction k arbitrary: n)
  case (Suc k)
  then have "n div 256 < 256 ^ k" by (simp add: less_mult_imp_div_less mult.commute)
  with Suc.IH show ?case by (simp add: be_digits_Suc of_be_snoc unat_of_nat take_bit_eq_mod)
qed (simp add: be_digits_def of_be_def)

lemma be_digits_of_be: "be_digits (length bs) (of_be bs) = bs \<and> of_be bs < 256 ^ length bs"
proof (induction bs rule: rev_induct)
  case (snoc b bs)
  have lt: "unat b < 256" by (rule unat_lt_256)
  then have "(256 * of_be bs + unat b) div 256 = of_be bs" by simp
  with snoc lt show ?case
    by (simp add: be_digits_Suc of_be_snoc byte_of_digits del: of_nat_add of_nat_mult)
qed (simp add: be_digits_def of_be_def)

lemma take_append_length_prefixed:
  "length v < 2 ^ 32 \<Longrightarrow> take_length_prefixed (append_length_prefixed v @ rest) = Some (v, rest)"
  by (simp add: take_length_prefixed_def append_length_prefixed_def of_be_digits Let_def)

lemma take_length_prefixed_Some:
  "take_length_prefixed bs = Some (v, rest) \<longleftrightarrow> length v < 2 ^ 32 \<and> bs = append_length_prefixed v @ rest"
proof
  assume some: "take_length_prefixed bs = Some (v, rest)"
  define len where "len = of_be (take 4 bs)"
  from some have 4: "4 \<le> length bs" and le: "4 + len \<le> length bs" and v: "v = take len (drop 4 bs)" and r: "rest = drop (4 + len) bs"
    by (auto simp: take_length_prefixed_def len_def Let_def split: if_splits)
  have be: "be_digits 4 len = take 4 bs" "len < 2 ^ 32" using be_digits_of_be [of "take 4 bs"] 4 by (simp_all add: len_def min_absorb2)
  have len: "length v = len" using le by (simp add: v)
  have "append_length_prefixed v = take 4 bs @ v" using be len by (simp add: append_length_prefixed_def)
  moreover have "bs = take 4 bs @ v @ rest" unfolding v r by (metis append_take_drop_id drop_drop add.commute)
  ultimately show "length v < 2 ^ 32 \<and> bs = append_length_prefixed v @ rest" using be(2) len by simp
qed (auto simp: take_append_length_prefixed)

text \<open>
  The stored form of a token pair is canonical: bytes decode to a pair exactly when they are the encoding of that pair, and both
  tokens are well-formed UTF-8 of less than \<open>2 ^ 32\<close> bytes.
\<close>

lemma payload_decode_Some:
  "payload_decode bs = Some p \<longleftrightarrow>
     bs = payload_encode p \<and> storable (cp_access_token p) \<and> storable (cp_refresh_token p)"
proof -
  have "payload_decode bs = Some p \<longleftrightarrow> (\<exists>access rest refresh. take_length_prefixed bs = Some (access, rest)
      \<and> take_length_prefixed rest = Some (refresh, []) \<and> from_utf8 access = Some (cp_access_token p)
      \<and> from_utf8 refresh = Some (cp_refresh_token p))"
    by (auto simp: payload_decode_def split: option.splits prod.splits if_splits)
  also have "\<dots> \<longleftrightarrow> bs = payload_encode p \<and> storable (cp_access_token p) \<and> storable (cp_refresh_token p)"
    by (auto simp: take_length_prefixed_Some from_utf8_Some payload_encode_def storable_def)
  finally show ?thesis .
qed

section \<open>Sealed envelopes\<close>

text \<open>
  \<open>gcm\<close> is the AES-256-GCM implementation together with the byte form of a UUID. The laws say that decryption is the partial
  inverse of encryption, that the tag adds sixteen bytes, and that a 128-bit identifier is sixteen bytes.
\<close>

record gcm =
  gcm_encrypt :: "bytes \<Rightarrow> bytes \<Rightarrow> bytes \<Rightarrow> bytes"
  gcm_decrypt :: "bytes \<Rightarrow> bytes \<Rightarrow> bytes \<Rightarrow> bytes option"
  uuid_bytes :: "uuid \<Rightarrow> bytes"
  uuid_from_slice :: "bytes \<Rightarrow> uuid option"

definition gcm_laws :: "gcm \<Rightarrow> bool" where
  "gcm_laws A \<longleftrightarrow>
     (\<forall>key nonce plain. length (gcm_encrypt A key nonce plain) = length plain + 16)
     \<and> (\<forall>key nonce cipher plain. gcm_decrypt A key nonce cipher = Some plain \<longleftrightarrow> cipher = gcm_encrypt A key nonce plain)
     \<and> (\<forall>u < 2 ^ 128. length (uuid_bytes A u) = 16)
     \<and> (\<forall>bs u. length bs = 16 \<longrightarrow> uuid_from_slice A bs = Some u \<longrightarrow> uuid_bytes A u = bs)
     \<and> (\<forall>u < 2 ^ 128. uuid_from_slice A (uuid_bytes A u) = Some u)"

datatype cipher_error = KeyError | AuthError | BindingError | VersionError

datatype envelope_purpose = Credential | IntentVerifier

definition VERSION_PREFIX :: bytes where
  "VERSION_PREFIX = [0x76, 0x01]"

definition NONCE_LEN :: nat where
  "NONCE_LEN = 12"

definition TAG_LEN :: nat where
  "TAG_LEN = 16"

fun purpose_label :: "envelope_purpose \<Rightarrow> bytes" where
  "purpose_label Credential = as_bytes ''ratatoskr/x/credential/v1''"
| "purpose_label IntentVerifier = as_bytes ''ratatoskr/x/intent-verifier/v1''"

definition binding_prefix :: "gcm \<Rightarrow> envelope_purpose \<Rightarrow> uuid \<Rightarrow> bytes" where
  "binding_prefix A purpose owner = purpose_label purpose @ uuid_bytes A owner"

definition matched_label :: "bytes \<Rightarrow> (envelope_purpose \<times> nat) option" where
  "matched_label inner =
     (case filter (\<lambda>p. prefix (purpose_label p) inner) [Credential, IntentVerifier] of
        [] \<Rightarrow> None | p # _ \<Rightarrow> Some (p, length (purpose_label p)))"

definition KEY_LEN :: nat where
  "KEY_LEN = 32"

definition new_cipher :: "bytes \<Rightarrow> cipher_error + bytes" where
  "new_cipher key = (if length key \<noteq> KEY_LEN then Inl KeyError else Inr key)"

text \<open>A cipher is its key; the nonce, drawn from the operating system, is an argument.\<close>

definition seal :: "gcm \<Rightarrow> bytes \<Rightarrow> bytes \<Rightarrow> uuid \<Rightarrow> envelope_purpose \<Rightarrow> bytes \<Rightarrow> bytes" where
  "seal A key nonce owner purpose plaintext =
     VERSION_PREFIX @ nonce @ gcm_encrypt A key nonce (binding_prefix A purpose owner @ plaintext)"

definition open_inner :: "gcm \<Rightarrow> uuid \<Rightarrow> envelope_purpose \<Rightarrow> bytes \<Rightarrow> cipher_error + bytes" where
  "open_inner A owner purpose inner =
     (case matched_label inner of
        None \<Rightarrow> Inl BindingError
      | Some (sealed_purpose, label_len) \<Rightarrow>
          if length inner < label_len + 16 then Inl BindingError
          else case uuid_from_slice A (take 16 (drop label_len inner)) of
                 None \<Rightarrow> Inl BindingError
               | Some sealed_owner \<Rightarrow>
                   if sealed_purpose \<noteq> purpose \<or> sealed_owner \<noteq> owner then Inl BindingError
                   else Inr (drop (label_len + 16) inner))"

definition open_envelope :: "gcm \<Rightarrow> bytes \<Rightarrow> uuid \<Rightarrow> envelope_purpose \<Rightarrow> bytes \<Rightarrow> cipher_error + bytes" where
  "open_envelope A key owner purpose envelope =
     (if take 2 envelope \<noteq> VERSION_PREFIX then Inl VersionError
      else let body_start = length VERSION_PREFIX + NONCE_LEN
           in if length envelope < body_start + TAG_LEN then Inl AuthError
              else case gcm_decrypt A key (take NONCE_LEN (drop 2 envelope)) (drop body_start envelope) of
                     None \<Rightarrow> Inl AuthError
                   | Some inner \<Rightarrow> open_inner A owner purpose inner)"

lemma label_lengths [simp]: "length (purpose_label Credential) = 25" "length (purpose_label IntentVerifier) = 30"
  by simp_all

lemma labels_disjoint: "prefix (purpose_label p) inner \<Longrightarrow> prefix (purpose_label q) inner \<Longrightarrow> p = q"
proof -
  have "\<not> prefix (purpose_label Credential) (purpose_label IntentVerifier)"
    "\<not> prefix (purpose_label IntentVerifier) (purpose_label Credential)"
    by (simp_all add: as_bytes_def)
  then show "prefix (purpose_label p) inner \<Longrightarrow> prefix (purpose_label q) inner \<Longrightarrow> p = q"
    by (metis envelope_purpose.exhaust prefix_same_cases)
qed

lemma matched_label_Some:
  "matched_label inner = Some (p, n) \<longleftrightarrow> prefix (purpose_label p) inner \<and> n = length (purpose_label p)"
  using labels_disjoint [of p inner Credential] labels_disjoint [of p inner IntentVerifier]
  by (cases p) (auto simp: matched_label_def simp del: purpose_label.simps)

lemma open_inner_Inr:
  assumes "gcm_laws A" and "owner < 2 ^ 128"
  shows "open_inner A owner purpose inner = Inr plain \<longleftrightarrow> inner = binding_prefix A purpose owner @ plain"
proof
  assume "open_inner A owner purpose inner = Inr plain"
  then have lab: "prefix (purpose_label purpose) inner" and len: "length (purpose_label purpose) + 16 \<le> length inner"
    and own: "uuid_from_slice A (take 16 (drop (length (purpose_label purpose)) inner)) = Some owner"
    and pl: "plain = drop (length (purpose_label purpose) + 16) inner"
    by (auto simp: open_inner_def matched_label_Some simp del: purpose_label.simps split: option.splits if_splits)
  from lab obtain t where t: "inner = purpose_label purpose @ t" by (auto simp: prefix_def)
  have "uuid_bytes A owner = take 16 t" using assms(1) own len by (auto simp: gcm_laws_def t)
  then show "inner = binding_prefix A purpose owner @ plain" by (simp add: t pl binding_prefix_def add.commute)
next
  assume inner: "inner = binding_prefix A purpose owner @ plain"
  then have "matched_label inner = Some (purpose, length (purpose_label purpose))"
    by (simp add: matched_label_Some binding_prefix_def prefix_def del: purpose_label.simps)
  moreover have "length (uuid_bytes A owner) = 16" "uuid_from_slice A (uuid_bytes A owner) = Some owner"
    using assms by (simp_all add: gcm_laws_def)
  ultimately show "open_inner A owner purpose inner = Inr plain"
    by (simp add: open_inner_def inner binding_prefix_def del: purpose_label.simps)
qed

lemma open_envelope_Inr:
  assumes "gcm_laws A" and "owner < 2 ^ 128"
  shows "open_envelope A key owner purpose env = Inr plain \<longleftrightarrow>
    (\<exists>nonce. length nonce = NONCE_LEN \<and> env = seal A key nonce owner purpose plain)"
proof
  assume op: "open_envelope A key owner purpose env = Inr plain"
  let ?nonce = "take NONCE_LEN (drop 2 env)"
  from op obtain inner where v: "take 2 env = VERSION_PREFIX" and len: "30 \<le> length env"
    and dec: "gcm_decrypt A key ?nonce (drop (2 + NONCE_LEN) env) = Some inner"
    and inner: "open_inner A owner purpose inner = Inr plain"
    by (auto simp: open_envelope_def VERSION_PREFIX_def NONCE_LEN_def TAG_LEN_def Let_def split: option.splits if_splits)
  have "drop (2 + NONCE_LEN) env = gcm_encrypt A key ?nonce (binding_prefix A purpose owner @ plain)"
    using dec assms(1) inner open_inner_Inr [OF assms] by (simp add: gcm_laws_def)
  moreover have "env = take 2 env @ ?nonce @ drop (2 + NONCE_LEN) env"
    by (metis append_take_drop_id drop_drop add.commute)
  ultimately have "env = seal A key ?nonce owner purpose plain" by (simp add: seal_def v)
  moreover have "length ?nonce = NONCE_LEN" using len by (simp add: NONCE_LEN_def)
  ultimately show "\<exists>nonce. length nonce = NONCE_LEN \<and> env = seal A key nonce owner purpose plain" by blast
next
  assume "\<exists>nonce. length nonce = NONCE_LEN \<and> env = seal A key nonce owner purpose plain"
  then obtain nonce where n: "length nonce = NONCE_LEN" and env: "env = seal A key nonce owner purpose plain" by blast
  let ?c = "gcm_encrypt A key nonce (binding_prefix A purpose owner @ plain)"
  have c: "16 \<le> length ?c" "gcm_decrypt A key nonce ?c = Some (binding_prefix A purpose owner @ plain)"
    using assms(1) by (simp_all add: gcm_laws_def)
  then show "open_envelope A key owner purpose env = Inr plain"
    using n by (simp add: open_envelope_def env seal_def VERSION_PREFIX_def NONCE_LEN_def TAG_LEN_def open_inner_Inr [OF assms])
qed

text \<open>
  C4. Sealed envelopes are authentic and bound. Opening for an owner and a purpose succeeds with a plaintext exactly on the
  envelopes that seal that plaintext, under the same key, for the same owner and the same purpose; an envelope sealed for another
  owner or another purpose is refused as a binding failure. (Hypotheses: decryption inverts encryption and
  accepts nothing else; identifiers are 128 bits.)
\<close>

theorem envelope_authentic:
  assumes "gcm_laws A" and "owner < 2 ^ 128" and "owner' < 2 ^ 128"
  shows "(open_envelope A key owner purpose env = Inr plain \<longleftrightarrow>
      (\<exists>nonce. length nonce = NONCE_LEN \<and> env = seal A key nonce owner purpose plain)) \<and>
    (length nonce = NONCE_LEN \<longrightarrow> (owner', purpose') \<noteq> (owner, purpose) \<longrightarrow>
      open_envelope A key owner purpose (seal A key nonce owner' purpose' plain') = Inl BindingError)"
proof (intro conjI impI open_envelope_Inr [OF assms(1,2)])
  assume n: "length nonce = NONCE_LEN" and ne: "(owner', purpose') \<noteq> (owner, purpose)"
  let ?inner = "binding_prefix A purpose' owner' @ plain'"
  have m: "matched_label ?inner = Some (purpose', length (purpose_label purpose'))"
    by (simp add: matched_label_Some binding_prefix_def prefix_def del: purpose_label.simps)
  have u: "length (uuid_bytes A owner') = 16" "uuid_from_slice A (uuid_bytes A owner') = Some owner'"
    using assms by (simp_all add: gcm_laws_def)
  have inner: "open_inner A owner purpose ?inner = Inl BindingError"
    using m u ne by (auto simp: open_inner_def binding_prefix_def simp del: purpose_label.simps)
  have "16 \<le> length (gcm_encrypt A key nonce ?inner)" "gcm_decrypt A key nonce (gcm_encrypt A key nonce ?inner) = Some ?inner"
    using assms(1) by (simp_all add: gcm_laws_def)
  then show "open_envelope A key owner purpose (seal A key nonce owner' purpose' plain') = Inl BindingError"
    using n inner by (simp add: open_envelope_def seal_def VERSION_PREFIX_def NONCE_LEN_def TAG_LEN_def)
qed

section \<open>Scope audit\<close>

fun missing_from :: "string list \<Rightarrow> string list \<Rightarrow> string list" where
  "missing_from [] remaining = []"
| "missing_from (s # ss) remaining =
     (if s \<in> set remaining then missing_from ss (remove1 s remaining) else s # missing_from ss remaining)"

definition missing_scopes :: "string list \<Rightarrow> string list \<Rightarrow> string list" where
  "missing_scopes requested granted = missing_from requested granted"

lemma missing_from_mset: "mset (missing_from req remaining) = mset req - mset remaining"
proof (induction req remaining rule: missing_from.induct)
  case (2 s ss remaining)
  show ?case
  proof (cases "s \<in> set remaining")
    case True
    then have "mset remaining = add_mset s (mset remaining - {#s#})" by simp
    then have "add_mset s (mset ss) - mset remaining = mset ss - (mset remaining - {#s#})"
      by (metis add_mset_diff_bothsides)
    with 2 True show ?thesis by simp
  next
    case False
    with 2 show ?thesis by (simp add: not_in_iff multiset_eq_iff)
  qed
qed simp

lemma missing_from_subseq: "subseq (missing_from req remaining) req"
  by (induction req remaining rule: missing_from.induct) auto

text \<open>
  The audit reports exactly the missing scopes, each as often as it is missing and in the order of the request; it is empty exactly
  when the grant covers the request.
\<close>

lemma missing_scopes_exact:
  "mset (missing_scopes requested granted) = mset requested - mset granted
   \<and> subseq (missing_scopes requested granted) requested
   \<and> (missing_scopes requested granted = [] \<longleftrightarrow> mset requested \<subseteq># mset granted)"
proof -
  have "missing_scopes requested granted = [] \<longleftrightarrow> mset (missing_scopes requested granted) = {#}" by simp
  also have "\<dots> \<longleftrightarrow> mset requested \<subseteq># mset granted"
    by (simp only: missing_scopes_def missing_from_mset Diff_eq_empty_iff_mset)
  finally show ?thesis by (simp add: missing_scopes_def missing_from_mset missing_from_subseq)
qed

lemma no_missing_scopes: "missing_scopes requested granted = [] \<Longrightarrow> set requested \<subseteq> set granted"
  using missing_scopes_exact [of requested granted] set_mset_mono [of "mset requested" "mset granted"] by simp

section \<open>Concrete envelopes\<close>

definition demo_gcm :: gcm where
  "demo_gcm = \<lparr>gcm_encrypt = (\<lambda>key nonce plain. plain @ replicate 16 0),
     gcm_decrypt = (\<lambda>key nonce cipher. if cipher = take (length cipher - 16) cipher @ replicate 16 0
        then Some (take (length cipher - 16) cipher) else None),
     uuid_bytes = be_digits 16, uuid_from_slice = (\<lambda>bs. Some (of_be bs))\<rparr>"

lemma demo_gcm_laws: "gcm_laws demo_gcm"
proof -
  have "uuid_from_slice demo_gcm bs = Some u \<longrightarrow> uuid_bytes demo_gcm u = bs" if "length bs = 16" for bs u
    using be_digits_of_be [of bs] that by (auto simp: demo_gcm_def)
  moreover have "u < 2 ^ 128 \<longrightarrow> uuid_from_slice demo_gcm (uuid_bytes demo_gcm u) = Some u" for u
    using of_be_digits [of u 16] by (simp add: demo_gcm_def)
  ultimately show ?thesis by (auto simp: gcm_laws_def demo_gcm_def)
qed

theorem envelope_authentic_witness:
  "open_envelope demo_gcm [] 7 Credential (seal demo_gcm [] (replicate 12 0) 7 Credential [1, 2]) = Inr [1, 2]
   \<and> open_envelope demo_gcm [] 7 Credential (seal demo_gcm [] (replicate 12 0) 8 Credential [1, 2]) = Inl BindingError"
  using envelope_authentic [OF demo_gcm_laws, of 7 7 "[]" Credential "seal demo_gcm [] (replicate 12 0) 7 Credential [1, 2]" "[1, 2]" ]
    envelope_authentic [OF demo_gcm_laws, of 7 8 "[]" Credential _ _ "replicate 12 0" Credential "[1, 2]"]
  by (auto simp: NONCE_LEN_def intro!: exI [of _ "replicate 12 0"])

end
