(* ===== verification/Token_Client.thy ===== *)
theory Token_Client
  imports Tokens Articles
begin

text \<open>
  The provider's token endpoint, \<^verbatim>\<open>x-oauth/src/token_client.rs\<close>, with the form encoding it shares with
  \<^verbatim>\<open>x-oauth/src/intent.rs\<close> and the failures of \<^verbatim>\<open>x-oauth/src/error.rs\<close>. The HTTP library is a parameter: a function from a request
  and a step number to a failure or a response. The texts of a response are scanned byte by byte: every
  character the scanner distinguishes is a single byte.
\<close>

section \<open>Requests and responses\<close>

datatype http_auth = NoAuth | BearerAuth string | BasicAuth string string

record http_request =
  hq_method :: string
  hq_url :: string
  hq_auth :: http_auth
  hq_content_type :: "string option"
  hq_body :: "string option"

record http_failure =
  hf_connect :: bool
  hf_status :: "nat option"

record http_response =
  hr_status :: nat
  hr_headers :: "string \<Rightarrow> string option"
  hr_content_length :: "nat option"
  hr_chunks :: "bytes list"
  hr_broken :: "http_failure option"

type_synonym http = "http_request \<Rightarrow> nat \<Rightarrow> http_failure + http_response"

definition send_request :: "http \<Rightarrow> http_request \<Rightarrow> ('d, http_failure, http_response) io" where
  "send_request H q w = (H q (tick w), advance w)"

definition is_success :: "nat \<Rightarrow> bool" where
  "is_success status \<longleftrightarrow> 200 \<le> status \<and> status < 300"

datatype flow_error =
    FlowConfiguration
  | FlowPersistence
  | FlowCipher cipher_error
  | FlowDowngrade "string list"
  | ProviderIdentityMismatch
  | UnknownCallbackState
  | ExpiredCallbackIntent
  | ReplayedCallbackState
  | StaleRefreshToken
  | RefreshReplay
  | CredentialInactive
  | UpstreamInvalidation
  | FlowTransport
  | MalformedProviderResponse
  | FlowPanic

section \<open>Form encoding\<close>

definition upper_hex :: "nat \<Rightarrow> char" where
  "upper_hex n = char_of (if n < 10 then 48 + n else 55 + n)"

definition unreserved :: "char \<Rightarrow> bool" where
  "unreserved c \<longleftrightarrow> is_alphanumeric c \<or> c = CHR ''-'' \<or> c = CHR ''.'' \<or> c = CHR ''_'' \<or> c = CHR ''~''"

definition percent_encode :: "string \<Rightarrow> string" where
  "percent_encode s = concat (map (\<lambda>c. if unreserved c then [c]
     else [CHR ''%'', upper_hex (of_char c div 16), upper_hex (of_char c mod 16)]) s)"

definition form_field :: "string \<times> string \<Rightarrow> string" where
  "form_field f = percent_encode (fst f) @ ''='' @ percent_encode (snd f)"

fun urlencoded :: "(string \<times> string) list \<Rightarrow> string" where
  "urlencoded [] = []"
| "urlencoded [f] = form_field f"
| "urlencoded (f # fs) = form_field f @ ''&'' @ urlencoded fs"

section \<open>White space\<close>

text \<open>The white-space characters of one, two and three bytes (\<^verbatim>\<open>char::is_whitespace\<close>), and the length of the one at the head of a text.\<close>

definition space1 :: "char \<Rightarrow> bool" where
  "space1 b \<longleftrightarrow> b \<in> {CHR 0x09, CHR 0x0A, CHR 0x0B, CHR 0x0C, CHR 0x0D, CHR 0x20}"

definition space2 :: "char \<Rightarrow> char \<Rightarrow> bool" where
  "space2 b c \<longleftrightarrow> b = CHR 0xC2 \<and> (c = CHR 0x85 \<or> c = CHR 0xA0)"

definition space3 :: "char \<Rightarrow> char \<Rightarrow> char \<Rightarrow> bool" where
  "space3 b c e \<longleftrightarrow>
     b = CHR 0xE1 \<and> c = CHR 0x9A \<and> e = CHR 0x80
     \<or> b = CHR 0xE2 \<and> c = CHR 0x80
         \<and> (0x80 \<le> (of_char e :: nat) \<and> (of_char e :: nat) \<le> 0x8A \<or> e \<in> {CHR 0xA8, CHR 0xA9, CHR 0xAF})
     \<or> b = CHR 0xE2 \<and> c = CHR 0x81 \<and> e = CHR 0x9F
     \<or> b = CHR 0xE3 \<and> c = CHR 0x80 \<and> e = CHR 0x80"

fun space_len :: "string \<Rightarrow> nat" where
  "space_len [] = 0"
| "space_len [b] = (if space1 b then 1 else 0)"
| "space_len [b, c] = (if space1 b then 1 else if space2 b c then 2 else 0)"
| "space_len (b # c # e # _) = (if space1 b then 1 else if space2 b c then 2 else if space3 b c e then 3 else 0)"

function trim_start :: "string \<Rightarrow> string" where
  "trim_start s = (if s = [] \<or> space_len s = 0 then s else trim_start (drop (space_len s) s))"
  by pat_completeness auto
termination by (relation "measure length") auto

declare trim_start.simps [simp del]

fun trim_end :: "string \<Rightarrow> string" where
  "trim_end [] = []"
| "trim_end (c # cs) = (if trim_start (c # cs) = [] then [] else c # trim_end cs)"

definition trim :: "string \<Rightarrow> string" where
  "trim s = trim_end (trim_start s)"

function split_words :: "string \<Rightarrow> string \<Rightarrow> string list" where
  "split_words word s =
     (if s = [] then (if word = [] then [] else [word])
      else if space_len s = 0 then split_words (word @ [hd s]) (tl s)
      else (if word = [] then [] else [word]) @ split_words [] (drop (space_len s) s))"
  by pat_completeness auto
termination by (relation "measure (length \<circ> snd)") (auto simp: neq_Nil_conv)

declare split_words.simps [simp del]

definition split_whitespace :: "string \<Rightarrow> string list" where
  "split_whitespace s = split_words [] s"

section \<open>Members of a flat object\<close>

abbreviation quote :: char where
  "quote \<equiv> CHR 0x22"

abbreviation backslash :: char where
  "backslash \<equiv> CHR 0x5C"

fun scan_members :: "nat \<Rightarrow> bool \<Rightarrow> bool \<Rightarrow> string \<Rightarrow> string \<Rightarrow> string list option" where
  "scan_members depth in_string escaped member [] = (if in_string then None else Some [member])"
| "scan_members depth in_string escaped member (c # cs) =
     (if in_string
      then (if escaped then scan_members depth True False (member @ [c]) cs
            else if c = backslash then scan_members depth True True (member @ [c]) cs
            else scan_members depth (c \<noteq> quote) False (member @ [c]) cs)
      else if c = quote then scan_members depth True escaped (member @ [c]) cs
      else if c = CHR ''{'' \<or> c = CHR ''['' then scan_members (depth + 1) False escaped (member @ [c]) cs
      else if c = CHR ''}'' \<or> c = CHR '']'' then scan_members (depth - 1) False escaped (member @ [c]) cs
      else if c = CHR '','' \<and> depth = 0 then map_option (Cons member) (scan_members depth False escaped [] cs)
      else scan_members depth False escaped (member @ [c]) cs)"

definition strip_ends :: "char \<Rightarrow> char \<Rightarrow> string \<Rightarrow> string option" where
  "strip_ends l r s = (if s \<noteq> [] \<and> hd s = l \<and> tl s \<noteq> [] \<and> last (tl s) = r then Some (butlast (tl s)) else None)"

definition split_member :: "string \<Rightarrow> (string \<times> string) option" where
  "split_member member =
     (case split_once '':'' member of
        None \<Rightarrow> None
      | Some (key, value) \<Rightarrow> map_option (\<lambda>k. (k, trim value)) (strip_ends quote quote (trim key)))"

fun split_pairs :: "string list \<Rightarrow> (string \<times> string) list option" where
  "split_pairs [] = Some []"
| "split_pairs (m # ms) =
     (if trim m = [] then split_pairs ms
      else case split_member (trim m) of
             None \<Rightarrow> None
           | Some p \<Rightarrow> map_option (Cons p) (split_pairs ms))"

definition split_top_level_members :: "string \<Rightarrow> flow_error + (string \<times> string) list" where
  "split_top_level_members body =
     (case strip_ends CHR ''{'' CHR ''}'' (trim body) of
        None \<Rightarrow> Inl MalformedProviderResponse
      | Some inner \<Rightarrow>
          case scan_members 0 False False [] inner of
            None \<Rightarrow> Inl MalformedProviderResponse
          | Some members \<Rightarrow>
              case split_pairs members of
                None \<Rightarrow> Inl MalformedProviderResponse
              | Some pairs \<Rightarrow> Inr pairs)"

definition find_member :: "string \<Rightarrow> string \<Rightarrow> flow_error + string option" where
  "find_member body key =
     (case split_top_level_members body of Inl e \<Rightarrow> Inl e | Inr pairs \<Rightarrow> Inr (map_of pairs key))"

section \<open>Values\<close>

text \<open>\<^verbatim>\<open>u16::from_str_radix(_, 16)\<close> on at most four characters: an optional plus sign and at least one digit.\<close>

definition hex_value :: "char \<Rightarrow> nat option" where
  "hex_value c =
     (if is_digit c then Some (of_char c - 48)
      else if 97 \<le> (of_char c :: nat) \<and> (of_char c :: nat) \<le> 102 then Some (of_char c - 87)
      else if 65 \<le> (of_char c :: nat) \<and> (of_char c :: nat) \<le> 70 then Some (of_char c - 55)
      else None)"

fun hex_digits :: "nat \<Rightarrow> string \<Rightarrow> nat option" where
  "hex_digits n [] = Some n"
| "hex_digits n (c # cs) = (case hex_value c of None \<Rightarrow> None | Some d \<Rightarrow> hex_digits (16 * n + d) cs)"

definition parse_hex :: "string \<Rightarrow> nat option" where
  "parse_hex s =
     (let digits = (if s \<noteq> [] \<and> hd s = CHR ''+'' then tl s else s) in
      if digits = [] then None else hex_digits 0 digits)"

text \<open>\<^verbatim>\<open>String::push\<close> of a code point: its UTF-8 bytes.\<close>

definition utf8_encode :: "nat \<Rightarrow> string" where
  "utf8_encode n = map char_of
     (if n < 0x80 then [n]
      else if n < 0x800 then [0xC0 + n div 64, 0x80 + n mod 64]
      else if n < 0x10000 then [0xE0 + n div 4096, 0x80 + n div 64 mod 64, 0x80 + n mod 64]
      else [0xF0 + n div 262144, 0x80 + n div 4096 mod 64, 0x80 + n div 64 mod 64, 0x80 + n mod 64])"

definition simple_escape :: "char \<Rightarrow> char option" where
  "simple_escape c =
     (if c = quote then Some quote else if c = backslash then Some backslash
      else if c = CHR ''/'' then Some CHR ''/'' else if c = CHR ''b'' then Some CHR 0x08
      else if c = CHR ''f'' then Some CHR 0x0C else if c = CHR ''n'' then Some CHR 0x0A
      else if c = CHR ''r'' then Some CHR 0x0D else if c = CHR ''t'' then Some CHR 0x09 else None)"

definition unicode_unit :: "nat option \<Rightarrow> nat \<Rightarrow> (string \<times> nat option) option" where
  "unicode_unit pending unit =
     (if 0xD800 \<le> unit \<and> unit < 0xDC00 then Some ([], Some unit)
      else if 0xDC00 \<le> unit \<and> unit < 0xE000
      then map_option (\<lambda>high. (utf8_encode (0x10000 + (high - 0xD800) * 1024 + (unit - 0xDC00)), None)) pending
      else Some (utf8_encode unit, pending))"

function decode_string :: "nat option \<Rightarrow> string \<Rightarrow> string \<Rightarrow> string option" where
  "decode_string pending decoded [] = None"
| "decode_string pending decoded (c # cs) =
     (if c = quote then (if cs = [] then Some decoded else None)
      else if c = backslash then
        (case cs of
           [] \<Rightarrow> None
         | e # rest \<Rightarrow>
             if e = CHR ''u'' then
               (case parse_hex (take 4 rest) of
                  None \<Rightarrow> None
                | Some unit \<Rightarrow>
                    (case unicode_unit pending unit of
                       None \<Rightarrow> None
                     | Some (out, pending') \<Rightarrow> decode_string pending' (decoded @ out) (drop 4 rest)))
             else (case simple_escape e of
                     None \<Rightarrow> None
                   | Some out \<Rightarrow> decode_string pending (decoded @ [out]) rest))
      else decode_string pending (decoded @ [c]) cs)"
  by pat_completeness auto
termination by (relation "measure (\<lambda>(p, d, s). length s)") auto

definition extract_string_member :: "string \<Rightarrow> string \<Rightarrow> flow_error + string option" where
  "extract_string_member body key =
     (case find_member body key of
        Inl e \<Rightarrow> Inl e
      | Inr None \<Rightarrow> Inr None
      | Inr (Some raw) \<Rightarrow>
          if raw = [] \<or> hd raw \<noteq> quote then Inl MalformedProviderResponse
          else case decode_string None [] (tl raw) of
                 None \<Rightarrow> Inl MalformedProviderResponse
               | Some s \<Rightarrow> Inr (Some s))"

definition extract_object_member :: "string \<Rightarrow> string \<Rightarrow> flow_error + string option" where
  "extract_object_member body key =
     (case find_member body key of
        Inl e \<Rightarrow> Inl e
      | Inr None \<Rightarrow> Inr None
      | Inr (Some raw) \<Rightarrow>
          if starts_with ''{'' raw \<and> ends_with ''}'' raw then Inr (Some raw) else Inl MalformedProviderResponse)"

definition extract_number_member :: "string \<Rightarrow> string \<Rightarrow> flow_error + nat option" where
  "extract_number_member body key =
     (case find_member body key of
        Inl e \<Rightarrow> Inl e
      | Inr None \<Rightarrow> Inr None
      | Inr (Some raw) \<Rightarrow>
          if \<not> list_all is_digit raw \<or> raw = [] \<or> 2 ^ 64 \<le> nat_of_digits raw then Inl MalformedProviderResponse
          else Inr (Some (nat_of_digits raw)))"

record token_response =
  tr_access_token :: string
  tr_refresh_token :: string
  tr_expires_in :: nat
  tr_scope :: "string option"

definition bind_result :: "'e + 'a \<Rightarrow> ('a \<Rightarrow> 'e + 'b) \<Rightarrow> 'e + 'b" where
  "bind_result r k = (case r of Inl e \<Rightarrow> Inl e | Inr x \<Rightarrow> k x)"

definition ok_or :: "'e \<Rightarrow> 'e + 'a option \<Rightarrow> 'e + 'a" where
  "ok_or err r = (case r of Inl e \<Rightarrow> Inl e | Inr None \<Rightarrow> Inl err | Inr (Some x) \<Rightarrow> Inr x)"

definition parse_token_response :: "string \<Rightarrow> flow_error + token_response" where
  "parse_token_response body =
     bind_result (ok_or MalformedProviderResponse (extract_string_member body ''access_token'')) (\<lambda>access.
     bind_result (ok_or MalformedProviderResponse (extract_number_member body ''expires_in'')) (\<lambda>expires.
     bind_result (extract_string_member body ''refresh_token'') (\<lambda>refresh.
     bind_result (extract_string_member body ''scope'') (\<lambda>scope.
       Inr \<lparr>tr_access_token = access, tr_refresh_token = (case refresh of None \<Rightarrow> [] | Some r \<Rightarrow> r),
            tr_expires_in = expires, tr_scope = scope\<rparr>))))"

section \<open>The client\<close>

definition MAX_BODY_BYTES :: nat where
  "MAX_BODY_BYTES = 64 * 1024"

record token_client =
  tc_http :: http
  tc_token_url :: string
  tc_authenticated_user_url :: string
  tc_revocation_url :: string
  tc_client_id :: "string option"
  tc_client_secret :: "string option"

definition bounded_response :: "http_response \<Rightarrow> flow_error + (nat \<times> string)" where
  "bounded_response r =
     (if (case hr_content_length r of None \<Rightarrow> False | Some n \<Rightarrow> MAX_BODY_BYTES < n) then Inl MalformedProviderResponse
      else if hr_broken r \<noteq> None then Inl FlowTransport
      else let body = concat (hr_chunks r)
           in if MAX_BODY_BYTES < length body then Inl MalformedProviderResponse
              else Inr (hr_status r, from_utf8_lossy body))"

definition post_form_raw ::
  "token_client \<Rightarrow> string \<Rightarrow> (string \<times> string) list \<Rightarrow> ('d, flow_error, nat \<times> string) io" where
  "post_form_raw T url form =
     bind_io (map_err (\<lambda>_. FlowTransport) (send_request (tc_http T)
       \<lparr>hq_method = ''POST'', hq_url = url,
        hq_auth = (case (tc_client_id T, tc_client_secret T) of
            (Some i, Some secret) \<Rightarrow> BasicAuth i secret | _ \<Rightarrow> NoAuth),
        hq_content_type = Some ''application/x-www-form-urlencoded'', hq_body = Some (urlencoded form)\<rparr>))
     (\<lambda>response. of_result (bounded_response response))"

definition post_token_form :: "token_client \<Rightarrow> (string \<times> string) list \<Rightarrow> ('d, flow_error, token_response) io" where
  "post_token_form T form =
     bind_io (post_form_raw T (tc_token_url T) form) (\<lambda>(status, body).
       if is_success status then of_result (parse_token_response body) else throw UpstreamInvalidation)"

definition exchange_code_form ::
  "token_client \<Rightarrow> string \<Rightarrow> string \<Rightarrow> string \<Rightarrow> ('d, flow_error, token_response) io" where
  "exchange_code_form T code redirect_uri code_verifier =
     post_token_form T [(''grant_type'', ''authorization_code''), (''code'', code),
       (''redirect_uri'', redirect_uri), (''code_verifier'', code_verifier)]"

definition refresh_token_form :: "token_client \<Rightarrow> string \<Rightarrow> ('d, flow_error, token_response) io" where
  "refresh_token_form T refresh =
     post_token_form T [(''grant_type'', ''refresh_token''), (''refresh_token'', refresh)]"

definition authenticated_user_id :: "token_client \<Rightarrow> string \<Rightarrow> ('d, flow_error, string) io" where
  "authenticated_user_id T access =
     bind_io (map_err (\<lambda>_. FlowTransport) (send_request (tc_http T)
       \<lparr>hq_method = ''GET'', hq_url = tc_authenticated_user_url T, hq_auth = BearerAuth access,
        hq_content_type = None, hq_body = None\<rparr>)) (\<lambda>response.
     bind_io (of_result (bounded_response response)) (\<lambda>(status, body).
       if \<not> is_success status then throw UpstreamInvalidation
       else of_result
         (bind_result (ok_or MalformedProviderResponse (extract_object_member body ''data'')) (\<lambda>data.
          ok_or MalformedProviderResponse (extract_string_member data ''id'')))))"

definition notify_revocation :: "token_client \<Rightarrow> string \<Rightarrow> ('d, flow_error, unit) io" where
  "notify_revocation T token =
     then_io (post_form_raw T (tc_revocation_url T) [(''token'', token)]) (ret ())"

end
