(* ===== verification/Provider.thy ===== *)
theory Provider
  imports Token_Client Writeback
begin

text \<open>
  The official mutation endpoint, \<^verbatim>\<open>x-sync/src/writeback/provider.rs\<close>: the account-bound credential of a write, the request, and
  the classification of every answer. The HTTP client and the JSON library are parameters. A header is given as its text, absent
  when its value is not text (\<^verbatim>\<open>HeaderValue::to_str\<close>).
\<close>

section \<open>The adapter\<close>

record official_provider =
  op_gcm :: gcm
  op_key :: bytes
  op_base_url :: string
  op_http :: "http option"
  op_parse_json :: "bytes \<Rightarrow> json option"
  op_print_json :: "json \<Rightarrow> string"

definition with_timeout ::
  "gcm \<Rightarrow> bytes \<Rightarrow> string \<Rightarrow> http option \<Rightarrow> (bytes \<Rightarrow> json option) \<Rightarrow> (json \<Rightarrow> string) \<Rightarrow> official_provider" where
  "with_timeout A key base_url client parse print =
     \<lparr>op_gcm = A, op_key = key, op_base_url = rev (dropWhile (\<lambda>c. c = CHR ''/'') (rev base_url)), op_http = client,
      op_parse_json = parse, op_print_json = print\<rparr>"

definition MAX_RESPONSE_SIZE :: nat where
  "MAX_RESPONSE_SIZE = 64 * 1024"

section \<open>Credentials\<close>

definition credential_state :: "uuid \<Rightarrow> archive \<Rightarrow> (string \<times> bytes \<times> string list \<times> string list) option" where
  "credential_state a d =
     (case select_one (\<lambda>x. acc_id x = a \<and> acc_state x = Connected) (accounts d) of
        None \<Rightarrow> None
      | Some account \<Rightarrow>
          (case select_one (\<lambda>r. wau_account_id r = a \<and> wau_status r = WActive) (bookmark_write_authorizations d) of
             None \<Rightarrow> None
           | Some write_auth \<Rightarrow>
               map_option (\<lambda>c. (acc_provider_user_id account, cred_encrypted_payload c, cred_granted_scopes c,
                  wau_granted_scopes write_auth)) (active_credential a d)))"

definition provider_credential ::
  "official_provider \<Rightarrow> uuid \<Rightarrow> (provider_error, string \<times> credential_payload) dbio" where
  "provider_credential V a =
     bind_io (query CredentialUnavailable (credential_state a)) (\<lambda>row.
       case row of
         None \<Rightarrow> throw CredentialUnavailable
       | Some (provider_user_id, encrypted, credential_scopes, authorization_scopes) \<Rightarrow>
           if list_ex (\<lambda>s. s \<notin> set credential_scopes \<or> s \<notin> set authorization_scopes) REQUIRED_SCOPES
           then throw CredentialScopeRequired
           else (case open_envelope (op_gcm V) (op_key V) a Credential encrypted of
                   Inl _ \<Rightarrow> throw CredentialInvalid
                 | Inr opened \<Rightarrow>
                     (case payload_decode opened of
                        None \<Rightarrow> throw CredentialInvalid
                      | Some payload \<Rightarrow> ret (provider_user_id, payload))))"

section \<open>Answers\<close>

definition classify_transport :: "http_failure \<Rightarrow> provider_error" where
  "classify_transport f = (if hf_connect f then Transient else PUncertain (hf_status f) \<lparr>ev_request_id = None\<rparr>)"

definition bounded_request_id :: "string \<Rightarrow> string option" where
  "bounded_request_id s =
     (if s \<noteq> [] \<and> length s \<le> 128
        \<and> list_all (\<lambda>c. is_alphanumeric c \<or> c = CHR ''.'' \<or> c = CHR ''_'' \<or> c = CHR '':'' \<or> c = CHR ''-'') s
      then Some s else None)"

definition response_evidence :: "http_response \<Rightarrow> provider_evidence" where
  "response_evidence r = \<lparr>ev_request_id = Option.bind (hr_headers r ''x-request-id'') bounded_request_id\<rparr>"

text \<open>\<^verbatim>\<open>str::parse::<i64>\<close>.\<close>

definition parse_i64 :: "string \<Rightarrow> int option" where
  "parse_i64 s =
     (let negative = (case s of c # _ \<Rightarrow> c = CHR ''-'' | [] \<Rightarrow> False);
          ds = (case s of c # cs \<Rightarrow> if c = CHR ''-'' \<or> c = CHR ''+'' then cs else s | [] \<Rightarrow> []);
          n = (if negative then - int (nat_of_digits ds) else int (nat_of_digits ds))
      in if ds \<noteq> [] \<and> list_all is_digit ds \<and> - (2 ^ 63) \<le> n \<and> n < 2 ^ 63 then Some n else None)"

fun read_chunks ::
  "nat \<Rightarrow> provider_evidence \<Rightarrow> bytes \<Rightarrow> bytes list \<Rightarrow> http_failure option \<Rightarrow> provider_error + bytes" where
  "read_chunks status evidence body [] broken =
     (case broken of Some f \<Rightarrow> Inl (classify_transport f) | None \<Rightarrow> Inr body)"
| "read_chunks status evidence body (chunk # chunks) broken =
     (if MAX_RESPONSE_SIZE < length body + length chunk then Inl (PUncertain (Some status) evidence)
      else read_chunks status evidence (body @ chunk) chunks broken)"

text \<open>\<^verbatim>\<open>Value::pointer\<close> for a path of member names.\<close>

fun json_pointer :: "string list \<Rightarrow> json \<Rightarrow> json option" where
  "json_pointer [] v = Some v"
| "json_pointer (k # ks) (JObj kvs) = Option.bind (map_of kvs k) (json_pointer ks)"
| "json_pointer (k # ks) _ = None"

definition classify_response :: "official_provider \<Rightarrow> bool \<Rightarrow> http_response \<Rightarrow> provider_error + provider_evidence" where
  "classify_response V expected r =
     (let evidence = response_evidence r; status = hr_status r in
      if status = 401 \<or> status = 403 then Inl (AuthorizationLost evidence)
      else if status = 429 then
        Inl (RateLimited (Option.bind (hr_headers r ''x-rate-limit-reset'') parse_i64) evidence)
      else if 400 \<le> status \<and> status < 500 then Inl (DefiniteRefusal status evidence)
      else if 500 \<le> status \<and> status < 600 \<or> \<not> is_success status then Inl (PUncertain (Some status) evidence)
      else if (case hr_content_length r of None \<Rightarrow> False | Some n \<Rightarrow> MAX_RESPONSE_SIZE < n)
      then Inl (PUncertain (Some status) evidence)
      else case read_chunks status evidence [] (hr_chunks r) (hr_broken r) of
             Inl e \<Rightarrow> Inl e
           | Inr body \<Rightarrow>
               (case op_parse_json V body of
                  None \<Rightarrow> Inl (PUncertain (Some status) evidence)
                | Some v \<Rightarrow>
                    if json_pointer [''data'', ''bookmarked''] v = Some (JBool expected) then Inr evidence
                    else Inl (PUncertain (Some status) evidence)))"

section \<open>Requests\<close>

definition send ::
  "official_provider \<Rightarrow> string \<Rightarrow> string \<Rightarrow> credential_payload \<Rightarrow> string option \<Rightarrow> bool
   \<Rightarrow> (provider_error, provider_evidence) dbio" where
  "send V verb url payload post expected =
     (case op_http V of
        None \<Rightarrow> throw Transient
      | Some H \<Rightarrow>
          bind_io (map_err classify_transport (send_request H
            \<lparr>hq_method = verb, hq_url = url, hq_auth = BearerAuth (cp_access_token payload),
             hq_content_type = map_option (\<lambda>_. ''application/json'') post,
             hq_body = map_option (\<lambda>p. op_print_json V (JObj [(''tweet_id'', JStr p)])) post\<rparr>))
          (\<lambda>response. of_result (classify_response V expected response)))"

definition provider_add :: "official_provider \<Rightarrow> uuid \<Rightarrow> string \<Rightarrow> (provider_error, provider_evidence) dbio" where
  "provider_add V a post =
     bind_io (provider_credential V a) (\<lambda>(provider_user_id, payload).
       send V ''POST'' (op_base_url V @ ''/2/users/'' @ provider_user_id @ ''/bookmarks'') payload (Some post) True)"

definition provider_remove :: "official_provider \<Rightarrow> uuid \<Rightarrow> string \<Rightarrow> (provider_error, provider_evidence) dbio" where
  "provider_remove V a post =
     bind_io (provider_credential V a) (\<lambda>(provider_user_id, payload).
       send V ''DELETE'' (op_base_url V @ ''/2/users/'' @ provider_user_id @ ''/bookmarks/'' @ post) payload None False)"

fun official_mutation :: "official_provider \<Rightarrow> mutation_provider" where
  "official_mutation V WAdd a post = provider_add V a post"
| "official_mutation V WRemove a post = provider_remove V a post"

end
