(* ===== verification/Oauth.thy ===== *)
theory Oauth
  imports Token_Client Writeback
begin

text \<open>
  The OAuth connection of an account: authorization intents (\<^verbatim>\<open>x-oauth/src/intent.rs\<close>, \<^verbatim>\<open>x-oauth/src/pkce.rs\<close>), callbacks
  (\<^verbatim>\<open>x-oauth/src/callback.rs\<close>), the connection service (\<^verbatim>\<open>x-oauth/src/service.rs\<close>) and the tables behind them
  (\<^verbatim>\<open>x-persistence/src/oauth_intents.rs\<close>, \<^verbatim>\<open>credentials.rs\<close>, \<^verbatim>\<open>bookmark_write_authorizations.rs\<close>). Adding a lifetime to
  an instant, which panics out of range, is the date library's and a parameter; \<open>FlowPanic\<close> is that panic. The operating system's
  random bytes are a parameter indexed by the step.
\<close>

section \<open>Configuration and parameters\<close>

record oauth_config =
  oc_authorize_url :: string
  oc_token_url :: string
  oc_revocation_url :: string
  oc_client_id :: "string option"
  oc_client_secret :: "string option"
  oc_redirect_uri :: "string option"
  oc_read_scopes :: "string list"
  oc_intent_ttl_seconds :: nat

record oauth_env =
  oe_contracts :: contracts
  oe_gcm :: gcm
  oe_key :: bytes
  oe_nonce :: "nat \<Rightarrow> bytes"
  oe_base64url :: "bytes \<Rightarrow> string"
  oe_add_seconds :: "time \<Rightarrow> nat \<Rightarrow> time option"
  oe_client :: token_client
  oe_oauth :: oauth_config

definition new_client :: "http \<Rightarrow> (string \<Rightarrow> string \<Rightarrow> string option) \<Rightarrow> oauth_config \<Rightarrow> flow_error + token_client" where
  "new_client H url_join oauth =
     (case url_join (oc_token_url oauth) ''/2/users/me'' of
        None \<Rightarrow> Inl FlowConfiguration
      | Some user_url \<Rightarrow>
          Inr \<lparr>tc_http = H, tc_token_url = oc_token_url oauth, tc_authenticated_user_url = user_url,
               tc_revocation_url = oc_revocation_url oauth, tc_client_id = oc_client_id oauth,
               tc_client_secret = oc_client_secret oauth\<rparr>)"

section \<open>Authorization intents\<close>

datatype intent_purpose = ReadConnection | BookmarkWrite uuid

fun persistence_binding :: "intent_purpose \<Rightarrow> string \<times> uuid option" where
  "persistence_binding ReadConnection = (''read_connection'', None)"
| "persistence_binding (BookmarkWrite a) = (''bookmark_write'', Some a)"

record authorization_intent =
  ai_state :: string
  ai_code_verifier :: string
  ai_code_challenge :: string

definition challenge_from_verifier :: "oauth_env \<Rightarrow> string \<Rightarrow> string" where
  "challenge_from_verifier E verifier = oe_base64url E (sha256 (oe_contracts E) (as_bytes verifier))"

definition issue :: "oauth_env \<Rightarrow> bytes \<Rightarrow> bytes \<Rightarrow> authorization_intent" where
  "issue E verifier_entropy state_entropy =
     (let verifier = oe_base64url E verifier_entropy
      in \<lparr>ai_state = oe_base64url E state_entropy, ai_code_verifier = verifier,
          ai_code_challenge = challenge_from_verifier E verifier\<rparr>)"

definition write_scopes :: "oauth_config \<Rightarrow> string list" where
  "write_scopes oauth =
     (if ''bookmark.write'' \<in> set (oc_read_scopes oauth) then oc_read_scopes oauth
      else oc_read_scopes oauth @ [''bookmark.write''])"

definition configured :: "string option \<Rightarrow> string option" where
  "configured v = (case v of None \<Rightarrow> None | Some s \<Rightarrow> if s = [] then None else Some s)"

definition authorization_url :: "oauth_config \<Rightarrow> authorization_intent \<Rightarrow> intent_purpose \<Rightarrow> flow_error + string" where
  "authorization_url oauth intent purpose =
     (case configured (oc_client_id oauth) of
        None \<Rightarrow> Inl FlowConfiguration
      | Some client_id \<Rightarrow>
          case configured (oc_redirect_uri oauth) of
            None \<Rightarrow> Inl FlowConfiguration
          | Some redirect_uri \<Rightarrow>
              let scopes = (case purpose of BookmarkWrite _ \<Rightarrow> write_scopes oauth | ReadConnection \<Rightarrow> oc_read_scopes oauth)
              in Inr (oc_authorize_url oauth @ ''?response_type=code&client_id='' @ percent_encode client_id
                    @ ''&redirect_uri='' @ percent_encode redirect_uri
                    @ ''&scope='' @ percent_encode (join_with '' '' scopes)
                    @ ''&state='' @ percent_encode (ai_state intent)
                    @ ''&code_challenge='' @ percent_encode (ai_code_challenge intent)
                    @ ''&code_challenge_method=S256''))"

record new_intent =
  ni_internal_user_id :: uuid
  ni_account_id :: "uuid option"
  ni_purpose :: string
  ni_state_hash :: string
  ni_code_verifier_encrypted :: bytes
  ni_nonce :: string
  ni_redirect_uri :: string
  ni_requested_scopes :: "string list"
  ni_created_at :: time
  ni_expires_at :: time

definition purpose_bound :: "string \<Rightarrow> uuid option \<Rightarrow> bool" where
  "purpose_bound purpose account \<longleftrightarrow>
     purpose = ''read_connection'' \<and> account = None \<or> purpose = ''bookmark_write'' \<and> account \<noteq> None"

definition intent_row :: "uuid \<Rightarrow> new_intent \<Rightarrow> oauth_intent" where
  "intent_row i n =
     \<lparr>oin_id = i, oin_internal_user_id = ni_internal_user_id n, oin_account_id = ni_account_id n,
      oin_purpose = ni_purpose n, oin_state_hash = ni_state_hash n,
      oin_code_verifier_encrypted = ni_code_verifier_encrypted n, oin_nonce = ni_nonce n,
      oin_redirect_uri = ni_redirect_uri n, oin_requested_scopes = ni_requested_scopes n,
      oin_created_at = ni_created_at n, oin_expires_at = ni_expires_at n, oin_consumed_at = None\<rparr>"

definition insert_intent :: "new_intent \<Rightarrow> (persistence_error, uuid) dbio" where
  "insert_intent n =
     sql PersistenceQuery (\<lambda>now fresh d.
       if ni_state_hash n \<in> oin_state_hash ` set (oauth_intents d)
          \<or> \<not> purpose_bound (ni_purpose n) (ni_account_id n)
          \<or> (case ni_account_id n of None \<Rightarrow> False | Some a \<Rightarrow> \<not> account_exists a d)
       then None
       else map_option (\<lambda>t. (fresh 0, d\<lparr>oauth_intents := t\<rparr>))
              (insert_unique oin_id (intent_row (fresh 0) n) (oauth_intents d)))"

definition find_intent_by_state_hash :: "string \<Rightarrow> (persistence_error, oauth_intent option) dbio" where
  "find_intent_by_state_hash h =
     query PersistenceQuery (\<lambda>d. select_one (\<lambda>i. oin_state_hash i = h) (oauth_intents d))"

datatype consume_outcome = Consumed | AlreadyConsumed

definition unconsumed :: "uuid \<Rightarrow> oauth_intent \<Rightarrow> bool" where
  "unconsumed i row \<longleftrightarrow> oin_id row = i \<and> oin_consumed_at row = None"

definition consume_intent :: "uuid \<Rightarrow> time \<Rightarrow> (persistence_error, consume_outcome) dbio" where
  "consume_intent i now =
     sql PersistenceQuery (\<lambda>_ _ d.
       Some (if list_ex (unconsumed i) (oauth_intents d) then Consumed else AlreadyConsumed,
             d\<lparr>oauth_intents := update_where (unconsumed i) (\<lambda>row. row\<lparr>oin_consumed_at := Some now\<rparr>) (oauth_intents d)\<rparr>))"

section \<open>Callbacks\<close>

record accepted_callback =
  ac_intent_id :: uuid
  ac_internal_user_id :: uuid
  ac_purpose :: intent_purpose
  ac_requested_scopes :: "string list"
  ac_code_verifier :: string

datatype callback_resolution =
    CallbackAccepted accepted_callback
  | CallbackExpired
  | CallbackReplayed
  | CallbackUnmatched

definition state_digest :: "oauth_env \<Rightarrow> string \<Rightarrow> string" where
  "state_digest E state = sha256_hex (oe_contracts E) (as_bytes state)"

definition stored_purpose :: "string \<Rightarrow> uuid option \<Rightarrow> flow_error + intent_purpose" where
  "stored_purpose purpose account =
     (if purpose = ''read_connection'' \<and> account = None then Inr ReadConnection
      else if purpose = ''bookmark_write''
      then (case account of Some a \<Rightarrow> Inr (BookmarkWrite a) | None \<Rightarrow> Inl FlowConfiguration)
      else Inl FlowConfiguration)"

definition open_verifier :: "oauth_env \<Rightarrow> oauth_intent \<Rightarrow> flow_error + callback_resolution" where
  "open_verifier E intent =
     (case open_envelope (oe_gcm E) (oe_key E) (oin_internal_user_id intent) IntentVerifier
             (oin_code_verifier_encrypted intent) of
        Inl e \<Rightarrow> Inl (FlowCipher e)
      | Inr verifier_bytes \<Rightarrow>
          bind_result (stored_purpose (oin_purpose intent) (oin_account_id intent)) (\<lambda>purpose.
            case from_utf8 verifier_bytes of
              None \<Rightarrow> Inl (FlowCipher AuthError)
            | Some verifier \<Rightarrow> Inr (CallbackAccepted
                \<lparr>ac_intent_id = oin_id intent, ac_internal_user_id = oin_internal_user_id intent,
                 ac_purpose = purpose, ac_requested_scopes = oin_requested_scopes intent,
                 ac_code_verifier = verifier\<rparr>)))"

definition resolve_callback :: "oauth_env \<Rightarrow> string \<Rightarrow> (flow_error, callback_resolution) dbio" where
  "resolve_callback E presented_state =
     bind_io (map_err (\<lambda>_. FlowPersistence) (find_intent_by_state_hash (state_digest E presented_state))) (\<lambda>row.
       case row of
         None \<Rightarrow> ret CallbackUnmatched
       | Some intent \<Rightarrow>
           bind_io read_clock (\<lambda>now.
             if oin_expires_at intent \<le> now then ret CallbackExpired
             else bind_io read_clock (\<lambda>consumed_at.
               bind_io (map_err (\<lambda>_. FlowPersistence) (consume_intent (oin_id intent) consumed_at)) (\<lambda>consumed.
                 if consumed = AlreadyConsumed then ret CallbackReplayed
                 else of_result (open_verifier E intent)))))"

section \<open>Credential rows\<close>

record new_credential =
  nc_account_id :: uuid
  nc_encrypted_payload :: bytes
  nc_granted_scopes :: "string list"
  nc_expires_at :: "time option"

definition insert_credential_row :: "credential \<Rightarrow> archive \<Rightarrow> (uuid \<times> archive) option" where
  "insert_credential_row c d =
     (if \<not> account_exists (cred_account_id c) d then None
      else map_option (\<lambda>t. (cred_id c, d\<lparr>credentials := t\<rparr>)) (insert_unique cred_id c (credentials d)))"

definition insert_with_status :: "new_credential \<Rightarrow> credential_status \<Rightarrow> (persistence_error, uuid) dbio" where
  "insert_with_status n status =
     sql PersistenceQuery (\<lambda>now fresh d.
       insert_credential_row \<lparr>cred_id = fresh 0, cred_account_id = nc_account_id n,
         cred_encrypted_payload = nc_encrypted_payload n, cred_granted_scopes = nc_granted_scopes n,
         cred_status = status, cred_activation_outcome = AccAccepted, cred_expires_at = nc_expires_at n,
         cred_superseded_refresh_hash = None, cred_created_at = now\<rparr> d)"

definition insert_rejected_write_grant ::
  "uuid \<Rightarrow> string list \<Rightarrow> activation_outcome \<Rightarrow> (persistence_error, uuid) dbio" where
  "insert_rejected_write_grant a scopes outcome =
     sql PersistenceQuery (\<lambda>now fresh d.
       insert_credential_row \<lparr>cred_id = fresh 0, cred_account_id = a, cred_encrypted_payload = [],
         cred_granted_scopes = scopes, cred_status = CExpired, cred_activation_outcome = outcome,
         cred_expires_at = None, cred_superseded_refresh_hash = None, cred_created_at = now\<rparr> d)"

definition latest_for_account :: "uuid \<Rightarrow> (persistence_error, credential option) dbio" where
  "latest_for_account a =
     query PersistenceQuery (\<lambda>d.
       case rev (sort_key (\<lambda>c. (cred_created_at c, cred_id c)) (filter (\<lambda>c. cred_account_id c = a) (credentials d))) of
         [] \<Rightarrow> None | c # _ \<Rightarrow> Some c)"

definition read_account_state :: "uuid \<Rightarrow> (persistence_error, account_state option) dbio" where
  "read_account_state a =
     query PersistenceQuery (\<lambda>d. map_option acc_state (select_one (\<lambda>x. acc_id x = a) (accounts d)))"

definition set_account_state :: "uuid \<Rightarrow> account_state \<Rightarrow> (persistence_error, unit) dbio" where
  "set_account_state a st =
     exec PersistenceQuery (\<lambda>d. d\<lparr>accounts := update_where (\<lambda>x. acc_id x = a) (\<lambda>x. x\<lparr>acc_state := st\<rparr>) (accounts d)\<rparr>)"

definition lock_active_for_account :: "uuid \<Rightarrow> (persistence_error, credential option) dbio" where
  "lock_active_for_account a = query PersistenceQuery (active_credential a)"

definition rotated :: "bytes \<Rightarrow> time option \<Rightarrow> string \<Rightarrow> credential \<Rightarrow> credential" where
  "rotated payload expires retired c =
     c\<lparr>cred_encrypted_payload := payload, cred_expires_at := expires, cred_superseded_refresh_hash := Some retired\<rparr>"

definition rotatable :: "uuid \<Rightarrow> string option \<Rightarrow> credential \<Rightarrow> bool" where
  "rotatable i expected c \<longleftrightarrow> cred_id c = i \<and> cred_status c = CActive \<and> cred_superseded_refresh_hash c = expected"

definition rotate_guarded ::
  "uuid \<Rightarrow> bytes \<Rightarrow> time option \<Rightarrow> string \<Rightarrow> string option \<Rightarrow> (persistence_error, bool) dbio" where
  "rotate_guarded i payload expires retired expected =
     sql PersistenceQuery (\<lambda>_ _ d.
       Some (length (filter (rotatable i expected) (credentials d)) = 1,
             d\<lparr>credentials := update_where (rotatable i expected) (rotated payload expires retired) (credentials d)\<rparr>))"

definition rotate_credential :: "uuid \<Rightarrow> bytes \<Rightarrow> string \<Rightarrow> time option \<Rightarrow> (persistence_error, unit) dbio" where
  "rotate_credential i payload retired expires =
     exec PersistenceQuery (\<lambda>d. d\<lparr>credentials := update_where (\<lambda>c. cred_id c = i) (rotated payload expires retired) (credentials d)\<rparr>)"

definition scrub_revoke :: "uuid \<Rightarrow> (persistence_error, unit) dbio" where
  "scrub_revoke i =
     exec PersistenceQuery (\<lambda>d. d\<lparr>credentials := update_where (\<lambda>c. cred_id c = i)
       (\<lambda>c. c\<lparr>cred_encrypted_payload := [], cred_status := CRevoked\<rparr>) (credentials d)\<rparr>)"

definition mark_expired :: "uuid \<Rightarrow> (persistence_error, unit) dbio" where
  "mark_expired i =
     exec PersistenceQuery (\<lambda>d. d\<lparr>credentials := update_where (\<lambda>c. cred_id c = i)
       (\<lambda>c. c\<lparr>cred_status := CExpired\<rparr>) (credentials d)\<rparr>)"

section \<open>Activation of a write grant\<close>

record account_binding =
  ab_internal_user_id :: uuid
  ab_provider_user_id :: string

record write_grant_activation =
  wga_oauth_intent_id :: uuid
  wga_account_id :: uuid
  wga_internal_user_id :: uuid
  wga_provider_user_id :: string
  wga_encrypted_payload :: bytes
  wga_granted_scopes :: "string list"
  wga_expires_at :: "time option"
  wga_authorized_at :: time

datatype grant_outcome = Activated | BindingMismatch

text \<open>
  \<open>early_transaction\<close>: a transaction whose body may return early with a value, by throwing \<open>Inr\<close>; the handle is then dropped
  without a commit.
\<close>

definition early_transaction :: "'e \<Rightarrow> ('d, 'e + 'a, 'a) io \<Rightarrow> ('d, 'e, 'a) io" where
  "early_transaction err body =
     bind_io (attempt (transaction (Inl err) body)) (\<lambda>r.
       case r of Inr x \<Rightarrow> ret x | Inl (Inl e) \<Rightarrow> throw e | Inl (Inr x) \<Rightarrow> ret x)"

definition lock_account :: "uuid \<Rightarrow> (persistence_error, account_binding option) dbio" where
  "lock_account a =
     query PersistenceQuery (\<lambda>d. map_option
       (\<lambda>x. \<lparr>ab_internal_user_id = acc_internal_user_id x, ab_provider_user_id = acc_provider_user_id x\<rparr>)
       (select_one (\<lambda>x. acc_id x = a) (accounts d)))"

definition expire_active :: "uuid \<Rightarrow> (persistence_error, unit) dbio" where
  "expire_active a =
     exec PersistenceQuery (\<lambda>d. d\<lparr>credentials := update_where (\<lambda>c. cred_account_id c = a \<and> cred_status c = CActive)
       (\<lambda>c. c\<lparr>cred_status := CExpired\<rparr>) (credentials d)\<rparr>)"

definition authorization_merge :: "write_authorization \<Rightarrow> write_authorization \<Rightarrow> write_authorization" where
  "authorization_merge excluded row =
     row\<lparr>wau_oauth_intent_id := wau_oauth_intent_id excluded, wau_granted_scopes := wau_granted_scopes excluded,
         wau_status := WActive, wau_authorized_at := wau_authorized_at excluded, wau_revoked_at := None\<rparr>"

definition upsert_authorization :: "write_grant_activation \<Rightarrow> (persistence_error, unit) dbio" where
  "upsert_authorization g =
     sql PersistenceQuery (\<lambda>_ _ d.
       if wga_oauth_intent_id g \<notin> oin_id ` set (oauth_intents d) then None
       else Some ((), d\<lparr>bookmark_write_authorizations := upsert wau_account_id authorization_merge
         \<lparr>wau_account_id = wga_account_id g, wau_oauth_intent_id = wga_oauth_intent_id g,
          wau_granted_scopes = wga_granted_scopes g, wau_status = WActive,
          wau_authorized_at = wga_authorized_at g, wau_revoked_at = None\<rparr>
         (bookmark_write_authorizations d)\<rparr>))"

definition replace_credential :: "write_grant_activation \<Rightarrow> (persistence_error, grant_outcome) dbio" where
  "replace_credential g =
     then_io (expire_active (wga_account_id g))
       (then_io (insert_with_status
           \<lparr>nc_account_id = wga_account_id g, nc_encrypted_payload = wga_encrypted_payload g,
            nc_granted_scopes = wga_granted_scopes g, nc_expires_at = wga_expires_at g\<rparr> CActive)
       (then_io (upsert_authorization g) (ret Activated)))"

definition activate_body ::
  "write_grant_activation \<Rightarrow> (persistence_error + grant_outcome, grant_outcome) dbio" where
  "activate_body g =
     bind_io (map_err Inl (lock_account (wga_account_id g))) (\<lambda>account.
       case account of
         None \<Rightarrow> throw (Inr BindingMismatch)
       | Some b \<Rightarrow>
           if ab_internal_user_id b \<noteq> wga_internal_user_id g \<or> ab_provider_user_id b \<noteq> wga_provider_user_id g
           then throw (Inr BindingMismatch)
           else map_err Inl (replace_credential g))"

definition activate :: "write_grant_activation \<Rightarrow> (persistence_error, grant_outcome) dbio" where
  "activate g = early_transaction PersistenceQuery (activate_body g)"

section \<open>The connection service\<close>

definition persistence :: "(persistence_error, 'a) dbio \<Rightarrow> (flow_error, 'a) dbio" where
  "persistence m = map_err (\<lambda>_. FlowPersistence) m"

definition observed_grant :: "string option \<Rightarrow> string list \<Rightarrow> string list" where
  "observed_grant scope requested =
     (case scope of Some s \<Rightarrow> split_whitespace s | None \<Rightarrow> requested)"

definition seal_payload :: "oauth_env \<Rightarrow> uuid \<Rightarrow> credential_payload \<Rightarrow> ('d, 'e, bytes) io" where
  "seal_payload E a p w =
     (Inr (seal (oe_gcm E) (oe_key E) (oe_nonce E (tick w)) a Credential (payload_encode p)), advance w)"

definition expiry :: "oauth_env \<Rightarrow> time \<Rightarrow> nat \<Rightarrow> ('d, flow_error, time) io" where
  "expiry E now seconds = of_result (case oe_add_seconds E now seconds of None \<Rightarrow> Inl FlowPanic | Some t \<Rightarrow> Inr t)"

definition redirect_target :: "oauth_env \<Rightarrow> ('d, flow_error, string) io" where
  "redirect_target E =
     of_result (case configured (oc_redirect_uri (oe_oauth E)) of None \<Rightarrow> Inl FlowConfiguration | Some u \<Rightarrow> Inr u)"

definition refuse_downgrade :: "uuid \<Rightarrow> string list \<Rightarrow> string list \<Rightarrow> (flow_error, unit) dbio" where
  "refuse_downgrade a granted missing =
     then_io (persistence (insert_with_status
         \<lparr>nc_account_id = a, nc_encrypted_payload = [], nc_granted_scopes = granted, nc_expires_at = None\<rparr> CExpired))
       (throw (FlowDowngrade missing))"

definition store_connection :: "oauth_env \<Rightarrow> uuid \<Rightarrow> string list \<Rightarrow> token_response \<Rightarrow> (flow_error, unit) dbio" where
  "store_connection E a granted tokens =
     bind_io (seal_payload E a \<lparr>cp_access_token = tr_access_token tokens, cp_refresh_token = tr_refresh_token tokens\<rparr>) (\<lambda>sealed.
     bind_io read_clock (\<lambda>now.
     bind_io (expiry E now (tr_expires_in tokens)) (\<lambda>expires_at.
     then_io (persistence (insert_with_status
         \<lparr>nc_account_id = a, nc_encrypted_payload = sealed, nc_granted_scopes = granted, nc_expires_at = Some expires_at\<rparr> CActive))
     (bind_io read_clock (\<lambda>_. persistence (set_account_state a Connected))))))"

definition exchange_code :: "oauth_env \<Rightarrow> uuid \<Rightarrow> accepted_callback \<Rightarrow> string \<Rightarrow> (flow_error, unit) dbio" where
  "exchange_code E a accepted code =
     bind_io (redirect_target E) (\<lambda>redirect_uri.
     bind_io (exchange_code_form (oe_client E) code redirect_uri (ac_code_verifier accepted)) (\<lambda>tokens.
       let requested = oc_read_scopes (oe_oauth E);
           granted = observed_grant (tr_scope tokens) requested;
           missing = missing_scopes requested granted
       in if missing \<noteq> [] then refuse_downgrade a granted missing
          else store_connection E a granted tokens))"

definition conclude_grant :: "uuid \<Rightarrow> string list \<Rightarrow> grant_outcome \<Rightarrow> (flow_error, unit) dbio" where
  "conclude_grant a granted outcome =
     (case outcome of
        Activated \<Rightarrow> ret ()
      | BindingMismatch \<Rightarrow>
          then_io (persistence (insert_rejected_write_grant a granted AccProviderIdentityMismatch))
            (throw ProviderIdentityMismatch))"

definition grant_write ::
  "oauth_env \<Rightarrow> uuid \<Rightarrow> accepted_callback \<Rightarrow> string list \<Rightarrow> token_response \<Rightarrow> (flow_error, unit) dbio" where
  "grant_write E a accepted granted tokens =
     bind_io (authenticated_user_id (oe_client E) (tr_access_token tokens)) (\<lambda>provider_user_id.
     bind_io (seal_payload E a \<lparr>cp_access_token = tr_access_token tokens, cp_refresh_token = tr_refresh_token tokens\<rparr>) (\<lambda>sealed.
     bind_io read_clock (\<lambda>now.
     bind_io (expiry E now (tr_expires_in tokens)) (\<lambda>expires_at.
     bind_io (persistence (activate
         \<lparr>wga_oauth_intent_id = ac_intent_id accepted, wga_account_id = a,
          wga_internal_user_id = ac_internal_user_id accepted, wga_provider_user_id = provider_user_id,
          wga_encrypted_payload = sealed, wga_granted_scopes = granted, wga_expires_at = Some expires_at,
          wga_authorized_at = now\<rparr>)) (conclude_grant a granted)))))"

definition refuse_write_downgrade :: "uuid \<Rightarrow> string list \<Rightarrow> string list \<Rightarrow> (flow_error, unit) dbio" where
  "refuse_write_downgrade a granted missing =
     then_io (persistence (insert_rejected_write_grant a granted AccScopeDowngrade)) (throw (FlowDowngrade missing))"

definition exchange_bookmark_write_code ::
  "oauth_env \<Rightarrow> accepted_callback \<Rightarrow> string \<Rightarrow> (flow_error, unit) dbio" where
  "exchange_bookmark_write_code E accepted code =
     (case ac_purpose accepted of
        ReadConnection \<Rightarrow> throw FlowConfiguration
      | BookmarkWrite a \<Rightarrow>
          let required = write_scopes (oe_oauth E) in
          if ac_requested_scopes accepted \<noteq> required then throw FlowConfiguration
          else
            bind_io (redirect_target E) (\<lambda>redirect_uri.
            bind_io (exchange_code_form (oe_client E) code redirect_uri (ac_code_verifier accepted)) (\<lambda>tokens.
              let granted = observed_grant (tr_scope tokens) required;
                  missing = missing_scopes required granted
              in if missing \<noteq> [] then refuse_write_downgrade a granted missing
                 else grant_write E a accepted granted tokens)))"

definition open_credential :: "oauth_env \<Rightarrow> uuid \<Rightarrow> credential \<Rightarrow> flow_error + credential_payload" where
  "open_credential E a row =
     (case open_envelope (oe_gcm E) (oe_key E) a Credential (cred_encrypted_payload row) of
        Inl e \<Rightarrow> Inl (FlowCipher e)
      | Inr opened \<Rightarrow>
          (case payload_decode opened of None \<Rightarrow> Inl MalformedProviderResponse | Some p \<Rightarrow> Inr p))"

definition rotate_with ::
  "oauth_env \<Rightarrow> uuid \<Rightarrow> credential \<Rightarrow> credential_payload \<Rightarrow> token_response \<Rightarrow> (flow_error, flow_error + unit) dbio" where
  "rotate_with E a row stored response =
     bind_io (seal_payload E a \<lparr>cp_access_token = tr_access_token response, cp_refresh_token = tr_refresh_token response\<rparr>) (\<lambda>sealed.
     bind_io read_clock (\<lambda>now.
     bind_io (expiry E now (tr_expires_in response)) (\<lambda>expires_at.
     bind_io (persistence (rotate_guarded (cred_id row) sealed (Some expires_at)
         (sha256_hex (oe_contracts E) (as_bytes (cp_refresh_token stored))) (cred_superseded_refresh_hash row))) (\<lambda>applied.
       if applied then ret (Inr ()) else throw CredentialInactive))))"

text \<open>
  The body of the refresh transaction: a thrown error rolls back, \<open>Inl e\<close> is a refusal \<open>e\<close> whose effects are committed.
  \<open>refresh_opened\<close> is its part after the stored pair is opened.
\<close>

definition refuse_replay :: "uuid \<Rightarrow> credential \<Rightarrow> (flow_error, flow_error + unit) dbio" where
  "refuse_replay a row =
     then_io (persistence (scrub_revoke (cred_id row)))
       (bind_io read_clock (\<lambda>_.
        then_io (persistence (set_account_state a ReauthRequired)) (ret (Inl RefreshReplay))))"

definition refuse_invalidated :: "uuid \<Rightarrow> credential \<Rightarrow> (flow_error, flow_error + unit) dbio" where
  "refuse_invalidated a row =
     then_io (persistence (mark_expired (cred_id row)))
       (bind_io read_clock (\<lambda>_.
        then_io (persistence (set_account_state a ReauthRequired)) (ret (Inl UpstreamInvalidation))))"

definition refresh_opened ::
  "oauth_env \<Rightarrow> uuid \<Rightarrow> string option \<Rightarrow> credential \<Rightarrow> credential_payload \<Rightarrow> (flow_error, flow_error + unit) dbio" where
  "refresh_opened E a presented_refresh_token row stored =
     (let presented = (case presented_refresh_token of None \<Rightarrow> cp_refresh_token stored | Some t \<Rightarrow> t) in
      if presented \<noteq> cp_refresh_token stored then
        (let retired = (case cred_superseded_refresh_hash row of None \<Rightarrow> [] | Some h \<Rightarrow> h) in
         if sha256_hex (oe_contracts E) (as_bytes presented) = retired then refuse_replay a row
         else throw StaleRefreshToken)
      else
        bind_io (attempt (refresh_token_form (oe_client E) presented)) (\<lambda>r.
          case r of
            Inr response \<Rightarrow> rotate_with E a row stored response
          | Inl e \<Rightarrow> if e = UpstreamInvalidation then refuse_invalidated a row else throw e))"

definition refresh_body ::
  "oauth_env \<Rightarrow> uuid \<Rightarrow> string option \<Rightarrow> (flow_error, flow_error + unit) dbio" where
  "refresh_body E a presented =
     bind_io (persistence (lock_active_for_account a)) (\<lambda>found.
       case found of
         None \<Rightarrow> throw CredentialInactive
       | Some row \<Rightarrow> bind_io (of_result (open_credential E a row)) (refresh_opened E a presented row))"

definition refresh :: "oauth_env \<Rightarrow> uuid \<Rightarrow> string option \<Rightarrow> (flow_error, unit) dbio" where
  "refresh E a presented = bind_io (transaction FlowPersistence (refresh_body E a presented)) of_result"

definition revoke_opened :: "oauth_env \<Rightarrow> uuid \<Rightarrow> credential \<Rightarrow> credential_payload \<Rightarrow> (flow_error, unit) dbio" where
  "revoke_opened E a row stored =
     then_io (notify_revocation (oe_client E) (cp_access_token stored))
       (then_io (persistence (scrub_revoke (cred_id row)))
       (bind_io read_clock (\<lambda>_. persistence (set_account_state a Revoked))))"

definition revoke_body :: "oauth_env \<Rightarrow> uuid \<Rightarrow> (flow_error, unit) dbio" where
  "revoke_body E a =
     bind_io (persistence (lock_active_for_account a)) (\<lambda>found.
       case found of
         None \<Rightarrow> ret ()
       | Some row \<Rightarrow> bind_io (of_result (open_credential E a row)) (revoke_opened E a row))"

definition revoke :: "oauth_env \<Rightarrow> uuid \<Rightarrow> (flow_error, unit) dbio" where
  "revoke E a = transaction FlowPersistence (revoke_body E a)"

end
