(* ===== verification/Oauth_Callbacks.thy ===== *)
theory Oauth_Callbacks
  imports Oauth
begin

text \<open>
  Authorization callbacks: which programs leave the archive alone, the frame of the intent table, histories of the connection's calls
  in which an intent is accepted at most once, and the way of an intent from its issue to its callback.
\<close>

section \<open>Programs that only talk to the provider\<close>

lemma persistence_Inr [io_run]: "persistence m w = (Inr x, w') \<longleftrightarrow> m w = (Inr x, w')"
  by (simp add: persistence_def map_err_Inr)

lemma seal_payload_Inr [io_run]:
  "seal_payload E a p w = (Inr s, w') \<longleftrightarrow>
     s = seal (oe_gcm E) (oe_key E) (oe_nonce E (tick w)) a Credential (payload_encode p) \<and> w' = advance w"
  by (auto simp: seal_payload_def)

definition silent :: "('d, 'e, 'a) io \<Rightarrow> bool" where
  "silent m \<longleftrightarrow> (\<forall>w. db (snd (m w)) = db w)"

interpretation unchanged: frame "\<lambda>d d'. d' = d"
  by unfold_locales simp_all

lemma silent_within: "silent m \<longleftrightarrow> within (\<lambda>d d'. d' = d) m"
  by (simp add: silent_def within_def)

lemma silentD: "silent m \<Longrightarrow> m w = (r, w') \<Longrightarrow> db w' = db w"
  by (metis silent_def snd_conv)

lemma silent_send: "silent (send_request H q)"
  by (simp add: silent_def send_request_def)

lemma silent_seal: "silent (seal_payload E a p)"
  by (simp add: silent_def seal_payload_def)

lemma silent_client:
  "silent (post_form_raw T url form)" "silent (post_token_form T form)" "silent (exchange_code_form T code uri v)"
  "silent (refresh_token_form T t)" "silent (authenticated_user_id T access)" "silent (notify_revocation T t)"
proof -
  note send = silent_send [unfolded silent_within]
  show raw: "silent (post_form_raw T url form)" for url form
    unfolding silent_within post_form_raw_def by (intro unchanged.within_intros send)
  show form: "silent (post_token_form T form)" for form
    unfolding silent_within post_token_form_def by (intro unchanged.within_intros raw [unfolded silent_within])
  show "silent (exchange_code_form T code uri v)" "silent (refresh_token_form T t)"
    unfolding exchange_code_form_def refresh_token_form_def by (rule form)+
  show "silent (authenticated_user_id T access)"
    unfolding silent_within authenticated_user_id_def by (intro unchanged.within_intros send)
  show "silent (notify_revocation T t)"
    unfolding silent_within notify_revocation_def by (intro unchanged.within_intros raw [unfolded silent_within])
qed

lemma silent_basic: "silent (expiry E t n)" "silent (redirect_target E)" "silent read_clock"
  by (simp_all add: silent_def expiry_def redirect_target_def of_result_def read_clock_def)

lemmas silent_intros = silent_send silent_seal silent_client silent_basic

section \<open>Intents are consumed once\<close>

definition spent_intents :: "archive \<Rightarrow> uuid set" where
  "spent_intents d = oin_id ` {i \<in> set (oauth_intents d). oin_consumed_at i \<noteq> None}"

definition intents_frame :: "archive \<Rightarrow> archive \<Rightarrow> bool" where
  "intents_frame d d' \<longleftrightarrow> (keyed_by oin_id (oauth_intents d) \<longrightarrow> keyed_by oin_id (oauth_intents d'))
     \<and> spent_intents d \<subseteq> spent_intents d'"

interpretation intents: frame intents_frame
  by unfold_locales (auto simp: intents_frame_def)

lemma intents_same: "oauth_intents d' = oauth_intents d \<Longrightarrow> intents_frame d d'"
  by (simp add: intents_frame_def spent_intents_def)

lemma intents_silent: "silent m \<Longrightarrow> within intents_frame m"
  by (simp add: silent_def within_def intents.frame_refl)

lemma intents_persistence: "within intents_frame m \<Longrightarrow> within intents_frame (persistence m)"
  unfolding persistence_def by (rule intents.within_map_err)

lemma insert_intent_frame: "within intents_frame (insert_intent n)"
  unfolding insert_intent_def
  by (rule intents.within_sql)
     (auto simp: intents_frame_def spent_intents_def keyed_by_def insert_unique_def intent_row_def split: if_splits)

lemma consume_intent_frame: "within intents_frame (consume_intent i now)"
  unfolding consume_intent_def
proof (rule intents.within_sql, clarsimp)
  fix d :: archive
  let ?f = "\<lambda>row. row\<lparr>oin_consumed_at := Some now\<rparr>"
  have "keyed_by oin_id (update_where (unconsumed i) ?f (oauth_intents d))" if "keyed_by oin_id (oauth_intents d)"
    using update_where_keyed [OF that] by simp
  moreover have "x \<in> set (update_where (unconsumed i) ?f (oauth_intents d))"
    if "x \<in> set (oauth_intents d)" "oin_consumed_at x \<noteq> None" for x
    using that by (force simp: update_where_def unconsumed_def)
  ultimately show "intents_frame d (d\<lparr>oauth_intents := update_where (unconsumed i) ?f (oauth_intents d)\<rparr>)"
    by (auto simp: intents_frame_def spent_intents_def)
qed

lemma resolve_callback_frame: "within intents_frame (resolve_callback E s)"
  unfolding resolve_callback_def find_intent_by_state_hash_def
  by (intro intents.within_intros consume_intent_frame)

lemma insert_credential_row_db: "insert_credential_row c d = Some (i, d') \<Longrightarrow> \<exists>t. d' = d\<lparr>credentials := t\<rparr>"
  by (auto simp: insert_credential_row_def split: if_splits)

lemma service_statements_frame:
  "within intents_frame (insert_with_status n st)" "within intents_frame (insert_rejected_write_grant a scopes out)"
  "within intents_frame (set_account_state a s)" "within intents_frame (lock_active_for_account a)"
  "within intents_frame (rotate_guarded i p t h e)" "within intents_frame (scrub_revoke i)"
  "within intents_frame (mark_expired i)" "within intents_frame (lock_account a)" "within intents_frame (expire_active a)"
  "within intents_frame (upsert_authorization g)"
  unfolding insert_with_status_def insert_rejected_write_grant_def set_account_state_def lock_active_for_account_def
    rotate_guarded_def scrub_revoke_def mark_expired_def lock_account_def expire_active_def upsert_authorization_def
  by (auto intro!: intents.within_sql intents.within_exec intents.within_query intents_same
      dest!: insert_credential_row_db split: if_splits)

lemma early_transaction_frame: "within intents_frame body \<Longrightarrow> within intents_frame (early_transaction err body)"
  unfolding early_transaction_def
  by (intro intents.within_intros) (auto intro: intents.within_intros split: sum.split)

lemma activate_frame: "within intents_frame (activate g)"
  unfolding activate_def activate_body_def replace_credential_def
  by (intro early_transaction_frame intents.within_intros service_statements_frame)

lemmas frame_intros = intents_persistence silent_intros [THEN intents_silent] service_statements_frame activate_frame
  intents.within_intros

lemma exchange_code_frame: "within intents_frame (exchange_code E a acc code)"
  unfolding exchange_code_def refuse_downgrade_def store_connection_def Let_def by (intro frame_intros)

lemma grant_write_frame: "within intents_frame (grant_write E a acc granted tokens)"
proof -
  have "within intents_frame (conclude_grant a granted outcome)" for outcome
    unfolding conclude_grant_def by (cases outcome) (simp_all, (intro frame_intros)+)
  then show ?thesis unfolding grant_write_def by (intro frame_intros)
qed

lemma exchange_bookmark_write_code_frame: "within intents_frame (exchange_bookmark_write_code E acc code)"
  unfolding exchange_bookmark_write_code_def refuse_write_downgrade_def Let_def
  by (cases "ac_purpose acc") (simp_all only: intent_purpose.case, (intro frame_intros grant_write_frame)+)

lemma refresh_frame: "within intents_frame (refresh E a t)"
  unfolding refresh_def refresh_body_def refresh_opened_def refuse_replay_def refuse_invalidated_def rotate_with_def Let_def
  by (intro frame_intros)

lemma revoke_frame: "within intents_frame (revoke E a)"
  unfolding revoke_def revoke_body_def revoke_opened_def by (intro frame_intros)

section \<open>Histories\<close>

datatype oauth_call =
    CallIssue new_intent
  | CallResolve string
  | CallExchange uuid accepted_callback string
  | CallExchangeWrite accepted_callback string
  | CallRefresh uuid "string option"
  | CallRevoke uuid

fun accepted_of :: "flow_error + callback_resolution \<Rightarrow> uuid list" where
  "accepted_of (Inr (CallbackAccepted c)) = [ac_intent_id c]"
| "accepted_of _ = []"

fun run_call :: "oauth_env \<Rightarrow> oauth_call \<Rightarrow> archive world \<Rightarrow> uuid list \<times> archive world" where
  "run_call E (CallIssue n) w = ([], snd (insert_intent n w))"
| "run_call E (CallResolve s) w = (let (r, w') = resolve_callback E s w in (accepted_of r, w'))"
| "run_call E (CallExchange a acc code) w = ([], snd (exchange_code E a acc code w))"
| "run_call E (CallExchangeWrite acc code) w = ([], snd (exchange_bookmark_write_code E acc code w))"
| "run_call E (CallRefresh a t) w = ([], snd (refresh E a t w))"
| "run_call E (CallRevoke a) w = ([], snd (revoke E a w))"

fun run_calls :: "oauth_env \<Rightarrow> oauth_call list \<Rightarrow> archive world \<Rightarrow> uuid list \<times> archive world" where
  "run_calls E [] w = ([], w)"
| "run_calls E (c # cs) w =
     (let (ids, w1) = run_call E c w; (ids', w2) = run_calls E cs w1 in (ids @ ids', w2))"

lemma run_call_frame: "intents_frame (db w) (db (snd (run_call E c w)))"
proof (cases c)
  case (CallResolve s)
  then show ?thesis
    using resolve_callback_frame [unfolded within_def, rule_format, of w E s] by (simp add: case_prod_beta Let_def)
qed (use insert_intent_frame exchange_code_frame exchange_bookmark_write_code_frame refresh_frame revoke_frame
     in \<open>simp_all add: within_def\<close>)

lemma resolve_callback_accepted:
  assumes "resolve_callback E s w = (Inr (CallbackAccepted c), w')" and "keyed_by oin_id (oauth_intents (db w))"
  shows "ac_intent_id c \<notin> spent_intents (db w) \<and> ac_intent_id c \<in> spent_intents (db w')"
proof -
  from assms(1) obtain i now w1 where find: "select_one (\<lambda>i. oin_state_hash i = state_digest E s) (oauth_intents (db w)) = Some i"
    and cons: "consume_intent (oin_id i) now w1 = (Inr Consumed, w')" and w1: "db w1 = db w"
    and c: "open_verifier E i = Inr (CallbackAccepted c)"
    by (auto simp: resolve_callback_def find_intent_by_state_hash_def io_run split: option.splits if_splits)
       (metis advance_simps(1) consume_outcome.exhaust)
  have id: "ac_intent_id c = oin_id i"
    using c by (auto simp: open_verifier_def bind_result_def split: sum.splits option.splits)
  from cons w1 have ex: "list_ex (unconsumed (oin_id i)) (oauth_intents (db w))"
    and d': "db w' = (db w)\<lparr>oauth_intents := update_where (unconsumed (oin_id i)) (\<lambda>row. row\<lparr>oin_consumed_at := Some now\<rparr>) (oauth_intents (db w))\<rparr>"
    by (auto simp: consume_intent_def sql_Inr split: if_splits)
  from ex obtain row where row: "row \<in> set (oauth_intents (db w))" "oin_id row = oin_id i" "oin_consumed_at row = None"
    by (auto simp: list_ex_iff unconsumed_def)
  have "oin_id i \<notin> spent_intents (db w)"
    using keyed_by_inj [OF assms(2) _ row(1)] row(2,3) by (auto simp: spent_intents_def)
  moreover have "oin_id i \<in> spent_intents (db w')"
    using update_where_hit [of row _ "unconsumed (oin_id i)" "\<lambda>row. row\<lparr>oin_consumed_at := Some now\<rparr>"] row
    by (force simp: spent_intents_def d' unconsumed_def image_iff)
  ultimately show ?thesis by (simp add: id)
qed

lemma run_call_spends:
  assumes "run_call E c w = (ids, w')" and "keyed_by oin_id (oauth_intents (db w))"
  shows "distinct ids \<and> set ids \<inter> spent_intents (db w) = {} \<and> set ids \<subseteq> spent_intents (db w')"
proof (cases c)
  case (CallResolve s)
  then obtain r where r: "resolve_callback E s w = (r, w')" and ids: "ids = accepted_of r"
    using assms(1) by (auto split: prod.splits)
  then show ?thesis using resolve_callback_accepted [of E s w _ w'] assms(2)
    by (cases r rule: accepted_of.cases) auto
qed (use assms(1) in auto)

lemma run_calls_spends:
  assumes "run_calls E cs w = (ids, w')" and "keyed_by oin_id (oauth_intents (db w))"
  shows "distinct ids \<and> set ids \<inter> spent_intents (db w) = {} \<and> set ids \<subseteq> spent_intents (db w')"
  using assms
proof (induction cs arbitrary: w ids)
  case (Cons c cs)
  obtain ids1 w1 where c: "run_call E c w = (ids1, w1)" by fastforce
  obtain ids2 w2 where cs: "run_calls E cs w1 = (ids2, w2)" by fastforce
  have ids: "ids = ids1 @ ids2" "w2 = w'" using Cons.prems(1) c cs by auto
  have fr: "intents_frame (db w) (db w1)" using run_call_frame [of w E c] by (simp add: c)
  then have k: "keyed_by oin_id (oauth_intents (db w1))" and sub: "spent_intents (db w) \<subseteq> spent_intents (db w1)"
    using Cons.prems(2) by (simp_all add: intents_frame_def)
  have "spent_intents (db w1) \<subseteq> spent_intents (db w2)"
    using cs
  proof (induction cs arbitrary: w1 ids2)
    case (Cons c' cs')
    obtain x v where v: "run_call E c' w1 = (x, v)" by fastforce
    obtain y u where u: "run_calls E cs' v = (y, u)" by fastforce
    have "spent_intents (db v) \<subseteq> spent_intents (db w2)" using Cons u v by auto
    then show ?case using run_call_frame [of w1 E c'] v by (auto simp: intents_frame_def)
  qed simp
  with run_call_spends [OF c Cons.prems(2)] Cons.IH [OF cs [unfolded ids(2)] k] sub show ?case
    by (auto simp: ids)
qed simp

text \<open>
  C3. An authorization callback is accepted once. Along every history of issued intents, presented states, code exchanges, refreshes and
  revocations, under every schedule of faults, no authorization intent is accepted twice, none that had been consumed
  before is accepted at all, and every accepted one is stored as consumed. (Intent identifiers are unique.)
\<close>

theorem callback_accepted_once:
  assumes "run_calls E cs w = (accepted, w')" and "keyed_by oin_id (oauth_intents (db w))"
  shows "distinct accepted \<and> set accepted \<inter> spent_intents (db w) = {} \<and> set accepted \<subseteq> spent_intents (db w')"
  using assms by (rule run_calls_spends)

section \<open>From intent to callback\<close>

lemma insert_intent_Inr:
  assumes "insert_intent n w = (Inr i, w')"
  shows "db w' = (db w)\<lparr>oauth_intents := oauth_intents (db w) @ [intent_row i n]\<rparr>"
    and "i \<notin> oin_id ` set (oauth_intents (db w))" and "ni_state_hash n \<notin> oin_state_hash ` set (oauth_intents (db w))"
  using assms by (auto simp: insert_intent_def sql_Inr insert_unique_def intent_row_def split: if_splits)

lemma select_one_snoc:
  "(\<And>x. x \<in> set xs \<Longrightarrow> \<not> p x) \<Longrightarrow> p y \<Longrightarrow> select_one p (xs @ [y]) = Some y"
  by (induction xs) (auto simp: select_one_def)

definition stored_intent :: "oauth_env \<Rightarrow> bytes \<Rightarrow> string \<Rightarrow> string \<Rightarrow> intent_purpose \<Rightarrow> new_intent \<Rightarrow> bool" where
  "stored_intent E nonce state verifier purpose n \<longleftrightarrow>
     ni_state_hash n = state_digest E state
     \<and> (ni_purpose n, ni_account_id n) = persistence_binding purpose
     \<and> ni_code_verifier_encrypted n
         = seal (oe_gcm E) (oe_key E) nonce (ni_internal_user_id n) IntentVerifier (as_bytes verifier)"

lemma stored_purpose_binding: "(x, y) = persistence_binding p \<Longrightarrow> stored_purpose x y = Inr p"
  by (cases p) (simp_all add: stored_purpose_def)

lemma open_verifier_stored:
  assumes "stored_intent E nonce state verifier purpose n" and "gcm_laws (oe_gcm E)" and "ni_internal_user_id n < 2 ^ 128"
    and "length nonce = NONCE_LEN" and "utf8_valid (as_bytes verifier)"
  shows "open_verifier E (intent_row i n) = Inr (CallbackAccepted
    \<lparr>ac_intent_id = i, ac_internal_user_id = ni_internal_user_id n, ac_purpose = purpose,
     ac_requested_scopes = ni_requested_scopes n, ac_code_verifier = verifier\<rparr>)"
proof -
  have "open_envelope (oe_gcm E) (oe_key E) (ni_internal_user_id n) IntentVerifier (ni_code_verifier_encrypted n) = Inr (as_bytes verifier)"
    using open_envelope_Inr [OF assms(2,3)] assms(1,4) by (auto simp: stored_intent_def)
  with assms(1,5) stored_purpose_binding show ?thesis
    by (auto simp: open_verifier_def intent_row_def stored_intent_def bind_result_def from_utf8_def)
qed

lemma resolve_callback_run:
  assumes "\<And>t. \<not> faults (sched w) t" and "select_one (\<lambda>i. oin_state_hash i = state_digest E s) (oauth_intents (db w)) = Some row"
  shows "resolve_callback E s w =
    (if oin_expires_at row \<le> clock (sched w) (tick w + 1) then (Inr CallbackExpired, advance (advance w))
     else let w' = (advance (advance (advance (advance w))))\<lparr>db := (db w)\<lparr>oauth_intents :=
            update_where (unconsumed (oin_id row)) (\<lambda>r. r\<lparr>oin_consumed_at := Some (clock (sched w) (tick w + 2))\<rparr>)
              (oauth_intents (db w))\<rparr>\<rparr>
          in (if list_ex (unconsumed (oin_id row)) (oauth_intents (db w)) then open_verifier E row else Inr CallbackReplayed, w'))"
  using assms(2)
  by (simp add: resolve_callback_def find_intent_by_state_hash_def consume_intent_def io_defs fault_now_def assms(1) Let_def advance_def)

text \<open>
  A connection flow comes back with what it started from. When an intent was stored with the digest of a state and with the verifier sealed for
  its user, presenting the state before the intent expires is accepted, and the callback carries the identity, the user, the purpose, the scopes
  and the very verifier of the intent; presenting the state a second time is refused as a replay or as expired. (The database answers, and
  the library laws hold.)
\<close>

theorem issued_intent_comes_back:
  assumes "stored_intent E nonce state verifier purpose n" and "insert_intent n w = (Inr i, w1)"
    and "\<And>t. \<not> faults (sched w1) t" and "clock (sched w1) (tick w1 + 1) < ni_expires_at n"
    and "gcm_laws (oe_gcm E)" and "ni_internal_user_id n < 2 ^ 128" and "length nonce = NONCE_LEN"
    and "utf8_valid (as_bytes verifier)"
  shows "\<exists>w2. resolve_callback E state w1 = (Inr (CallbackAccepted
      \<lparr>ac_intent_id = i, ac_internal_user_id = ni_internal_user_id n, ac_purpose = purpose,
       ac_requested_scopes = ni_requested_scopes n, ac_code_verifier = verifier\<rparr>), w2)
    \<and> fst (resolve_callback E state w2) \<in> {Inr CallbackReplayed, Inr CallbackExpired}"
proof -
  note ins = insert_intent_Inr [OF assms(2)]
  have hash: "oin_state_hash (intent_row i n) = state_digest E state" using assms(1) by (simp add: intent_row_def stored_intent_def)
  have old: "oin_state_hash x \<noteq> state_digest E state" "oin_id x \<noteq> i" if "x \<in> set (oauth_intents (db w))" for x
    using that ins(2,3) assms(1) by (force simp: stored_intent_def)+
  let ?f = "\<lambda>r. r\<lparr>oin_consumed_at := Some (clock (sched w1) (tick w1 + 2))\<rparr>"
  let ?w2 = "(advance (advance (advance (advance w1))))\<lparr>db := (db w1)\<lparr>oauth_intents := oauth_intents (db w) @ [?f (intent_row i n)]\<rparr>\<rparr>"
  have upd: "update_where (unconsumed i) ?f (oauth_intents (db w1)) = oauth_intents (db w) @ [?f (intent_row i n)]"
    using old(2) by (auto simp: ins(1) update_where_def unconsumed_def intent_row_def intro: map_idI)
  have "select_one (\<lambda>x. oin_state_hash x = state_digest E state) (oauth_intents (db w1)) = Some (intent_row i n)"
    unfolding ins(1) using old(1) hash by (simp add: select_one_snoc)
  from resolve_callback_run [OF assms(3) this] assms(4) open_verifier_stored [OF assms(1,5,6,7,8)]
  have first: "resolve_callback E state w1 = (Inr (CallbackAccepted
      \<lparr>ac_intent_id = i, ac_internal_user_id = ni_internal_user_id n, ac_purpose = purpose,
       ac_requested_scopes = ni_requested_scopes n, ac_code_verifier = verifier\<rparr>), ?w2)"
    using upd by (simp add: ins(1) intent_row_def unconsumed_def Let_def list_ex_iff)
  have "\<not> faults (sched ?w2) t" for t using assms(3) by simp
  moreover have "select_one (\<lambda>x. oin_state_hash x = state_digest E state) (oauth_intents (db ?w2)) = Some (?f (intent_row i n))"
    using old(1) hash by (simp add: select_one_snoc)
  ultimately have "fst (resolve_callback E state ?w2) \<in> {Inr CallbackReplayed, Inr CallbackExpired}"
    using resolve_callback_run [of ?w2 E state "?f (intent_row i n)"] old(2)
    by (auto simp: Let_def list_ex_iff unconsumed_def intent_row_def)
  with first show ?thesis by blast
qed

end
