(* ===== verification/Oauth_Connections.thy ===== *)
theory Oauth_Connections
  imports Oauth_Callbacks
begin

text \<open>
  Credentials of a connection: the effects of a refresh, detection of a reused refresh token, connecting and revoking, and
  the activation of a write grant together with the write gate it opens.
\<close>

section \<open>Failures of the client\<close>

definition client_failures :: "flow_error set" where
  "client_failures = {FlowTransport, MalformedProviderResponse, UpstreamInvalidation}"

lemma member_failures:
  "find_member body k = Inl e \<Longrightarrow> e = MalformedProviderResponse"
  "extract_string_member body k = Inl e \<Longrightarrow> e = MalformedProviderResponse"
  "extract_number_member body k = Inl e \<Longrightarrow> e = MalformedProviderResponse"
proof -
  show find: "find_member body k = Inl e \<Longrightarrow> e = MalformedProviderResponse" for body k e
    by (auto simp: find_member_def split_top_level_members_def split: sum.splits option.splits)
  then show "extract_string_member body k = Inl e \<Longrightarrow> e = MalformedProviderResponse"
    "extract_number_member body k = Inl e \<Longrightarrow> e = MalformedProviderResponse"
    by (auto simp: extract_string_member_def extract_number_member_def split: sum.splits option.splits if_splits)
qed

lemma parse_token_response_failure: "parse_token_response body = Inl e \<Longrightarrow> e = MalformedProviderResponse"
  by (auto simp: parse_token_response_def bind_result_def ok_or_def dest: member_failures split: sum.splits option.splits)

lemma post_token_form_failure: "post_token_form T form w = (Inl e, w') \<Longrightarrow> e \<in> client_failures"
  by (auto simp: post_token_form_def post_form_raw_def bounded_response_def io_defs client_failures_def Let_def
      dest: parse_token_response_failure split: prod.splits sum.splits if_splits)

section \<open>What the provider is asked and answers\<close>

text \<open>The request of a refresh and the reading of its answer, without the state they run in.\<close>

definition token_request :: "token_client \<Rightarrow> (string \<times> string) list \<Rightarrow> http_request" where
  "token_request T form =
     \<lparr>hq_method = ''POST'', hq_url = tc_token_url T,
      hq_auth = (case (tc_client_id T, tc_client_secret T) of
          (Some i, Some secret) \<Rightarrow> BasicAuth i secret | _ \<Rightarrow> NoAuth),
      hq_content_type = Some ''application/x-www-form-urlencoded'', hq_body = Some (urlencoded form)\<rparr>"

definition refresh_request :: "token_client \<Rightarrow> string \<Rightarrow> http_request" where
  "refresh_request T token = token_request T [(''grant_type'', ''refresh_token''), (''refresh_token'', token)]"

definition token_answer :: "http_response \<Rightarrow> flow_error + token_response" where
  "token_answer answer = bind_result (bounded_response answer)
     (\<lambda>(status, body). if is_success status then parse_token_response body else Inl UpstreamInvalidation)"

lemma refresh_token_form_run: "refresh_token_form T token w =
   ((case tc_http T (refresh_request T token) (tick w) of
       Inl _ \<Rightarrow> Inl FlowTransport | Inr answer \<Rightarrow> token_answer answer), advance w)"
  by (auto simp: refresh_token_form_def post_token_form_def post_form_raw_def token_answer_def refresh_request_def token_request_def
      bind_result_def send_request_def io_defs split: sum.splits prod.splits)

lemma bounded_not_invalid: "bounded_response answer \<noteq> Inl UpstreamInvalidation"
  by (simp add: bounded_response_def Let_def)

lemma token_answer_invalid: "token_answer answer = Inl UpstreamInvalidation \<longleftrightarrow>
    (\<exists>status body. bounded_response answer = Inr (status, body) \<and> \<not> is_success status)"
  by (auto simp: token_answer_def bind_result_def bounded_not_invalid dest: parse_token_response_failure split: sum.splits)

section \<open>The refresh transaction\<close>

definition retired_hash :: "oauth_env \<Rightarrow> string \<Rightarrow> string" where
  "retired_hash E token = sha256_hex (oe_contracts E) (as_bytes token)"

definition scrubbed :: "uuid \<Rightarrow> credential list \<Rightarrow> credential list" where
  "scrubbed i = update_where (\<lambda>c. cred_id c = i) (\<lambda>c. c\<lparr>cred_encrypted_payload := [], cred_status := CRevoked\<rparr>)"

definition expired :: "uuid \<Rightarrow> credential list \<Rightarrow> credential list" where
  "expired i = update_where (\<lambda>c. cred_id c = i) (\<lambda>c. c\<lparr>cred_status := CExpired\<rparr>)"

definition moved :: "uuid \<Rightarrow> account_state \<Rightarrow> account list \<Rightarrow> account list" where
  "moved a st = update_where (\<lambda>x. acc_id x = a) (\<lambda>x. x\<lparr>acc_state := st\<rparr>)"

definition swapped :: "oauth_env \<Rightarrow> credential \<Rightarrow> string \<Rightarrow> bytes \<Rightarrow> time \<Rightarrow> credential list \<Rightarrow> credential list" where
  "swapped E row old sealed t =
     update_where (rotatable (cred_id row) (cred_superseded_refresh_hash row)) (rotated sealed (Some t) (retired_hash E old))"

lemma rotate_with_Inr:
  assumes "rotate_with E a row stored response w = (Inr x, w')"
  shows "x = Inr () \<and> (\<exists>t. oe_add_seconds E (clock (sched w) (tick w + 1)) (tr_expires_in response) = Some t
     \<and> db w' = (db w)\<lparr>credentials := swapped E row (cp_refresh_token stored)
      (seal (oe_gcm E) (oe_key E) (oe_nonce E (tick w)) a Credential (payload_encode
         \<lparr>cp_access_token = tr_access_token response, cp_refresh_token = tr_refresh_token response\<rparr>)) t (credentials (db w))\<rparr>)"
  using assms
  by (auto simp: rotate_with_def io_run rotate_guarded_def swapped_def retired_hash_def expiry_def seal_payload_def split: if_splits option.splits)

lemma refresh_body_Inr:
  fixes w w' :: "archive world"
  assumes "refresh_body E a presented w = (Inr x, w')"
  obtains (rotation) row stored answer response t where "x = Inr ()" "active_credential a (db w) = Some row"
      "open_credential E a row = Inr stored" "presented \<in> {None, Some (cp_refresh_token stored)}"
      "tc_http (oe_client E) (refresh_request (oe_client E) (cp_refresh_token stored)) (tick w + 1) = Inr answer"
      "token_answer answer = Inr response"
      "oe_add_seconds E (clock (sched w) (tick w + 3)) (tr_expires_in response) = Some t"
      "db w' = (db w)\<lparr>credentials := swapped E row (cp_refresh_token stored)
        (seal (oe_gcm E) (oe_key E) (oe_nonce E (tick w + 2)) a Credential (payload_encode
           \<lparr>cp_access_token = tr_access_token response, cp_refresh_token = tr_refresh_token response\<rparr>)) t (credentials (db w))\<rparr>"
  | (replay) row stored token where "x = Inl RefreshReplay" "active_credential a (db w) = Some row"
      "open_credential E a row = Inr stored" "presented = Some token" "token \<noteq> cp_refresh_token stored"
      "retired_hash E token = (case cred_superseded_refresh_hash row of None \<Rightarrow> [] | Some h \<Rightarrow> h)"
      "db w' = (db w)\<lparr>credentials := scrubbed (cred_id row) (credentials (db w)),
         accounts := moved a ReauthRequired (accounts (db w))\<rparr>"
  | (invalidation) row stored answer where "x = Inl UpstreamInvalidation" "active_credential a (db w) = Some row"
      "open_credential E a row = Inr stored" "presented \<in> {None, Some (cp_refresh_token stored)}"
      "tc_http (oe_client E) (refresh_request (oe_client E) (cp_refresh_token stored)) (tick w + 1) = Inr answer"
      "token_answer answer = Inl UpstreamInvalidation"
      "db w' = (db w)\<lparr>credentials := expired (cred_id row) (credentials (db w)),
         accounts := moved a ReauthRequired (accounts (db w))\<rparr>"
proof -
  from assms obtain row stored where row: "active_credential a (db w) = Some row" and st: "open_credential E a row = Inr stored"
    and rest: "refresh_opened E a presented row stored (advance w) = (Inr x, w')"
    by (auto simp: refresh_body_def io_run lock_active_for_account_def split: option.splits)
  define tok where "tok = (case presented of None \<Rightarrow> cp_refresh_token stored | Some t \<Rightarrow> t)"
  show thesis
  proof (cases "tok = cp_refresh_token stored")
    case False
    then have t: "presented = Some tok" by (auto simp: tok_def split: option.splits)
    from rest False have hash: "retired_hash E tok = (case cred_superseded_refresh_hash row of None \<Rightarrow> [] | Some h \<Rightarrow> h)"
      and ref: "refuse_replay a row (advance w) = (Inr x, w')"
      by (auto simp: refresh_opened_def Let_def tok_def [symmetric] retired_hash_def throw_Inr split: if_splits)
    from ref show thesis
      by (intro replay [OF _ row st t False hash])
         (auto simp: refuse_replay_def scrubbed_def moved_def scrub_revoke_def set_account_state_def io_run)
  next
    case True
    then have pres: "presented \<in> {None, Some (cp_refresh_token stored)}" by (auto simp: tok_def split: option.splits)
    define reply where "reply = tc_http (oe_client E) (refresh_request (oe_client E) (cp_refresh_token stored)) (tick w + 1)"
    define r where "r = (case reply of Inl _ \<Rightarrow> Inl FlowTransport | Inr answer \<Rightarrow> token_answer answer)"
    from rest True have body: "(case r of Inr response \<Rightarrow> rotate_with E a row stored response
          | Inl e \<Rightarrow> if e = UpstreamInvalidation then refuse_invalidated a row else throw e) (advance (advance w)) = (Inr x, w')"
      by (simp add: refresh_opened_def Let_def tok_def [symmetric] bind_io_def attempt_def refresh_token_form_run reply_def r_def split: sum.splits)
    show thesis
    proof (cases r)
      case (Inr response)
      then obtain answer where answer: "reply = Inr answer" "token_answer answer = Inr response" by (auto simp: r_def split: sum.splits)
      from Inr body have "rotate_with E a row stored response (advance (advance w)) = (Inr x, w')" by simp
      from rotate_with_Inr [OF this] show thesis
        by (auto intro: rotation [OF _ row st pres answer(1) [unfolded reply_def] answer(2)] simp: numeral_3_eq_3)
    next
      case (Inl e)
      with body have ref: "e = UpstreamInvalidation" "refuse_invalidated a row (advance (advance w)) = (Inr x, w')"
        by (auto simp: throw_Inr split: if_splits)
      from Inl ref(1) obtain answer where answer: "reply = Inr answer" "token_answer answer = Inl UpstreamInvalidation"
        by (auto simp: r_def split: sum.splits)
      from ref(2) show thesis
        by (intro invalidation [OF _ row st pres answer(1) [unfolded reply_def] answer(2)])
           (auto simp: refuse_invalidated_def expired_def moved_def mark_expired_def set_account_state_def io_run)
    qed
  qed
qed

lemma open_credential_failure: "open_credential E a row = Inl e \<Longrightarrow> e \<notin> {RefreshReplay, UpstreamInvalidation}"
  by (auto simp: open_credential_def split: sum.splits option.splits)

lemma never_persistence: "e \<noteq> FlowPersistence \<Longrightarrow> never e (persistence m)"
  by (auto simp: persistence_def intro!: never_basic(10))

lemma never_expiry: "e \<noteq> FlowPanic \<Longrightarrow> never e (expiry E t n)"
  by (auto simp: never_def expiry_def of_result_def split: option.splits)

lemma never_seal: "never e (seal_payload E a p)"
  by (simp add: never_def seal_payload_def)

lemma refresh_body_never:
  assumes "e \<in> {RefreshReplay, UpstreamInvalidation}"
  shows "never e (refresh_body E a presented)"
proof -
  have e: "e \<noteq> FlowPersistence" "e \<noteq> FlowPanic" "CredentialInactive \<noteq> e" "StaleRefreshToken \<noteq> e" using assms by auto
  note intros = never_persistence [OF e(1)] never_expiry [OF e(2)] never_seal never_basic never_bind never_then never_cases e(3,4)
  have rot: "never e (rotate_with E a row stored response)" for row stored response
    unfolding rotate_with_def by (intro intros)
  have ref: "never e (refuse_replay a row)" "never e (refuse_invalidated a row)" for row
    unfolding refuse_replay_def refuse_invalidated_def by (intro intros)+
  have client: "never e (case r of Inr response \<Rightarrow> rotate_with E a row stored response
      | Inl e' \<Rightarrow> if e' = UpstreamInvalidation then refuse_invalidated a row else throw e')"
    if "attempt (refresh_token_form T t) w = (Inr r, w')" for T t w w' r row stored
  proof (cases r)
    case (Inl e')
    with that have "e' \<in> client_failures"
      using post_token_form_failure by (auto simp: attempt_Inr refresh_token_form_def)
    with Inl ref assms show ?thesis by (auto simp: client_failures_def intro: never_basic)
  qed (simp add: rot)
  have op: "never e (refresh_opened E a presented row stored)" for row stored
    unfolding refresh_opened_def Let_def by (intro never_cases never_bind never_basic ref e client)
  show ?thesis
    unfolding refresh_body_def
    by (intro never_bind never_cases never_persistence e never_basic op) (use assms open_credential_failure in blast)
qed

lemma refresh_outcomes:
  assumes "refresh E a presented w = (r, w')"
  shows "case r of
      Inr _ \<Rightarrow> \<exists>row stored answer response t. active_credential a (db w) = Some row \<and> open_credential E a row = Inr stored
        \<and> presented \<in> {None, Some (cp_refresh_token stored)}
        \<and> tc_http (oe_client E) (refresh_request (oe_client E) (cp_refresh_token stored)) (tick w + 2) = Inr answer
        \<and> token_answer answer = Inr response
        \<and> oe_add_seconds E (clock (sched w) (tick w + 4)) (tr_expires_in response) = Some t
        \<and> db w' = (db w)\<lparr>credentials := swapped E row (cp_refresh_token stored)
            (seal (oe_gcm E) (oe_key E) (oe_nonce E (tick w + 3)) a Credential (payload_encode
               \<lparr>cp_access_token = tr_access_token response, cp_refresh_token = tr_refresh_token response\<rparr>)) t (credentials (db w))\<rparr>
    | Inl e \<Rightarrow>
        if e = RefreshReplay then
          \<exists>row stored token. active_credential a (db w) = Some row \<and> open_credential E a row = Inr stored
          \<and> presented = Some token \<and> token \<noteq> cp_refresh_token stored
          \<and> retired_hash E token = (case cred_superseded_refresh_hash row of None \<Rightarrow> [] | Some h \<Rightarrow> h)
          \<and> db w' = (db w)\<lparr>credentials := scrubbed (cred_id row) (credentials (db w)),
               accounts := moved a ReauthRequired (accounts (db w))\<rparr>
        else if e = UpstreamInvalidation then
          \<exists>row stored answer status body. active_credential a (db w) = Some row \<and> open_credential E a row = Inr stored
          \<and> presented \<in> {None, Some (cp_refresh_token stored)}
          \<and> tc_http (oe_client E) (refresh_request (oe_client E) (cp_refresh_token stored)) (tick w + 2) = Inr answer
          \<and> bounded_response answer = Inr (status, body) \<and> \<not> is_success status
          \<and> db w' = (db w)\<lparr>credentials := expired (cred_id row) (credentials (db w)),
               accounts := moved a ReauthRequired (accounts (db w))\<rparr>
        else db w' = db w"
proof -
  let ?v = "(advance w)\<lparr>txn_at := Some (clock (sched w) (tick w))\<rparr>"
  obtain q w1 where q: "transaction FlowPersistence (refresh_body E a presented) w = (q, w1)" by fastforce
  show ?thesis
  proof (cases q)
    case (Inl e)
    with assms q have r: "r = Inl e" "w' = w1" by (auto simp: refresh_def bind_io_def)
    have "never e' (transaction FlowPersistence (refresh_body E a presented))" if "e' \<in> {RefreshReplay, UpstreamInvalidation}" for e'
      using that by (auto intro!: never_transaction refresh_body_never)
    then have "e \<notin> {RefreshReplay, UpstreamInvalidation}" using neverD q Inl by fastforce
    with r transaction_Inl_db [OF q [unfolded Inl]] show ?thesis by simp
  next
    case (Inr x)
    with assms q have r: "r = x" "w' = w1" by (auto simp: refresh_def bind_io_def of_result_def)
    from q Inr obtain v' where body: "refresh_body E a presented ?v = (Inr x, v')" and d: "db w1 = db v'"
      by (auto simp: transaction_Inr)
    from body show ?thesis
    proof (cases rule: refresh_body_Inr)
      case (rotation row stored answer response t)
      have "tick ?v + 1 = tick w + 2" "tick ?v + 2 = tick w + 3" "tick ?v + 3 = tick w + 4" by simp_all
      note ticks = rotation [unfolded this]
      from ticks(2-) show ?thesis unfolding r d rotation(1) by (simp only: sum.case, intro exI conjI) simp_all
    next
      case (replay row stored token)
      then show ?thesis unfolding r d by simp
    next
      case (invalidation row stored answer)
      obtain status body where st: "bounded_response answer = Inr (status, body)" "\<not> is_success status"
        using invalidation(6) unfolding token_answer_invalid by blast
      have "tick ?v + 1 = tick w + 2" by simp
      note ticks = invalidation [unfolded this]
      have "db v' = (db w)\<lparr>credentials := expired (cred_id row) (credentials (db w)), accounts := moved a ReauthRequired (accounts (db w))\<rparr>"
        "active_credential a (db w) = Some row" using ticks(2,7) by simp_all
      with ticks(3-5) st show ?thesis unfolding r d invalidation(1) by auto
    qed
  qed
qed

text \<open>
  C16. Refreshing a credential has exactly four effects. A success replaces the newest active credential's envelope by the sealed new pair, sets its
  expiry and retires the old refresh token's hash, and only for the current token or for none: the new pair is the access and the refresh token of the answer
  the provider gave to the refresh request with the stored refresh token, sealed with the nonce drawn next, and the expiry is the clock's reading after that
  plus the lifetime of the answer. A replay of the retired token empties
  and revokes the credential and asks for reauthorization; a rejection by the provider (an answer to that request whose status is no success) expires the
  credential, keeps its payload and asks for reauthorization; every other failure, whatever stops the call, leaves the archive as it was.
\<close>

theorem refresh_effects:
  assumes "refresh E a presented w = (r, w')"
  shows "case r of
      Inr _ \<Rightarrow> \<exists>row stored answer response t. active_credential a (db w) = Some row \<and> open_credential E a row = Inr stored
        \<and> presented \<in> {None, Some (cp_refresh_token stored)}
        \<and> tc_http (oe_client E) (refresh_request (oe_client E) (cp_refresh_token stored)) (tick w + 2) = Inr answer
        \<and> token_answer answer = Inr response
        \<and> oe_add_seconds E (clock (sched w) (tick w + 4)) (tr_expires_in response) = Some t
        \<and> db w' = (db w)\<lparr>credentials := swapped E row (cp_refresh_token stored)
            (seal (oe_gcm E) (oe_key E) (oe_nonce E (tick w + 3)) a Credential (payload_encode
               \<lparr>cp_access_token = tr_access_token response, cp_refresh_token = tr_refresh_token response\<rparr>)) t (credentials (db w))\<rparr>
    | Inl e \<Rightarrow>
        if e = RefreshReplay then
          \<exists>row stored token. active_credential a (db w) = Some row \<and> open_credential E a row = Inr stored
          \<and> presented = Some token \<and> token \<noteq> cp_refresh_token stored
          \<and> retired_hash E token = (case cred_superseded_refresh_hash row of None \<Rightarrow> [] | Some h \<Rightarrow> h)
          \<and> db w' = (db w)\<lparr>credentials := scrubbed (cred_id row) (credentials (db w)),
               accounts := moved a ReauthRequired (accounts (db w))\<rparr>
        else if e = UpstreamInvalidation then
          \<exists>row stored answer status body. active_credential a (db w) = Some row \<and> open_credential E a row = Inr stored
          \<and> presented \<in> {None, Some (cp_refresh_token stored)}
          \<and> tc_http (oe_client E) (refresh_request (oe_client E) (cp_refresh_token stored)) (tick w + 2) = Inr answer
          \<and> bounded_response answer = Inr (status, body) \<and> \<not> is_success status
          \<and> db w' = (db w)\<lparr>credentials := expired (cred_id row) (credentials (db w)),
               accounts := moved a ReauthRequired (accounts (db w))\<rparr>
        else db w' = db w"
  using assms by (rule refresh_outcomes)

section \<open>The newest active credential\<close>

lemma insort_key_map: "insort_key k (g x) (map g xs) = map g (insort_key (k \<circ> g) x xs)"
  by (induction xs) simp_all

lemma sort_key_map: "sort_key k (map g xs) = map g (sort_key (k \<circ> g) xs)"
  by (induction xs) (simp_all add: insort_key_map comp_def)

lemma active_credential_map:
  assumes "\<And>c. cred_account_id (g c) = cred_account_id c" "\<And>c. cred_status (g c) = cred_status c"
    and "\<And>c. cred_created_at (g c) = cred_created_at c" "\<And>c. cred_id (g c) = cred_id c"
  shows "active_credential a (d\<lparr>credentials := map g (credentials d)\<rparr>) = map_option g (active_credential a d)"
proof -
  have "filter (\<lambda>c. cred_account_id c = a \<and> cred_status c = CActive) (map g (credentials d))
      = map g (filter (\<lambda>c. cred_account_id c = a \<and> cred_status c = CActive) (credentials d))"
    by (simp add: filter_map comp_def assms)
  then show ?thesis
    by (simp add: active_credential_def sort_key_map comp_def assms rev_map [symmetric] split: list.split)
qed

lemma active_credential_Some:
  assumes "active_credential a d = Some c"
  shows "c \<in> set (credentials d) \<and> cred_account_id c = a \<and> cred_status c = CActive"
proof -
  let ?k = "\<lambda>c. (cred_created_at c, cred_id c)"
  let ?xs = "filter (\<lambda>c. cred_account_id c = a \<and> cred_status c = CActive) (credentials d)"
  from assms obtain cs where "rev (sort_key ?k ?xs) = c # cs" by (auto simp: active_credential_def split: list.splits)
  then have "c \<in> set (rev (sort_key ?k ?xs))" by simp
  then show ?thesis by simp
qed

lemma active_credential_None: "active_credential a d = None \<longleftrightarrow>
    (\<forall>c \<in> set (credentials d). \<not> (cred_account_id c = a \<and> cred_status c = CActive))"
proof -
  let ?xs = "filter (\<lambda>c. cred_account_id c = a \<and> cred_status c = CActive) (credentials d)"
  have "active_credential a d = None \<longleftrightarrow> rev (sort_key (\<lambda>c. (cred_created_at c, cred_id c)) ?xs) = []"
    unfolding active_credential_def by (cases "rev (sort_key (\<lambda>c. (cred_created_at c, cred_id c)) ?xs)") simp_all
  also have "\<dots> \<longleftrightarrow> set (rev (sort_key (\<lambda>c. (cred_created_at c, cred_id c)) ?xs)) = {}" by (simp only: set_empty)
  also have "\<dots> \<longleftrightarrow> (\<forall>c \<in> set (credentials d). \<not> (cred_account_id c = a \<and> cred_status c = CActive))"
    by (simp only: set_rev set_sort set_filter) blast
  finally show ?thesis .
qed

section \<open>Reuse of a retired refresh token\<close>

lemma swapped_active:
  assumes "active_credential a d = Some row"
  shows "active_credential a (d\<lparr>credentials := swapped E row old sealed t (credentials d)\<rparr>)
    = Some (rotated sealed (Some t) (retired_hash E old) row)"
proof -
  let ?g = "\<lambda>c. if rotatable (cred_id row) (cred_superseded_refresh_hash row) c
     then rotated sealed (Some t) (retired_hash E old) c else c"
  have "swapped E row old sealed t (credentials d) = map ?g (credentials d)" by (simp add: swapped_def update_where_def)
  moreover have "active_credential a (d\<lparr>credentials := map ?g (credentials d)\<rparr>) = map_option ?g (active_credential a d)"
    by (rule active_credential_map) (simp_all add: rotated_def)
  moreover have "rotatable (cred_id row) (cred_superseded_refresh_hash row) row"
    using active_credential_Some [OF assms] by (simp add: rotatable_def)
  ultimately show ?thesis by (simp add: assms)
qed

lemma refuse_replay_result:
  "refuse_replay a row v = (q, v') \<Longrightarrow> q = Inl FlowPersistence \<or> q = Inr (Inl RefreshReplay)"
  by (auto simp: refuse_replay_def persistence_def scrub_revoke_def set_account_state_def io_defs
      split: prod.splits sum.splits if_splits)

lemma refresh_replayed:
  assumes "active_credential a (db w) = Some row" and "open_credential E a row = Inr stored"
    and "token \<noteq> cp_refresh_token stored" and "cred_superseded_refresh_hash row = Some (retired_hash E token)"
    and "refresh E a (Some token) w = (r, w')"
  shows "r \<in> {Inl RefreshReplay, Inl FlowPersistence}"
proof -
  have op: "refresh_opened E a (Some token) row stored = refuse_replay a row"
    using assms(3,4) by (simp add: refresh_opened_def retired_hash_def)
  have "q = Inl FlowPersistence \<or> q = Inr (Inl RefreshReplay)"
    if "refresh_body E a (Some token) v = (q, v')" "db v = db w" for q v v'
  proof (cases "fault_now v")
    case True
    with that(1) show ?thesis by (auto simp: refresh_body_def persistence_def lock_active_for_account_def io_defs)
  next
    case False
    then have "persistence (lock_active_for_account a) v = (Inr (Some row), advance v)"
      using that(2) assms(1) by (simp add: persistence_Inr lock_active_for_account_def query_Inr)
    with that(1) assms(2) op have "refuse_replay a row (advance v) = (q, v')"
      by (simp add: refresh_body_def bind_io_def of_result_def)
    then show ?thesis by (rule refuse_replay_result)
  qed
  then have "fst (transaction FlowPersistence (refresh_body E a (Some token)) w) \<in> {Inl FlowPersistence, Inr (Inl RefreshReplay)}"
    by (auto simp: transaction_def split: prod.splits sum.splits) (metis Inl_Inr_False sum.inject(1,2) advance_simps(1) world.select_convs(1) world.surjective world.update_convs(4))+
  then show ?thesis using assms(5) by (auto simp: refresh_def bind_io_def of_result_def split: prod.splits sum.splits)
qed

text \<open>
  Reuse of a rotated refresh token is detected. After a successful refresh, presenting the refresh token that the refresh retired never
  rotates anything: unless the database fails (which changes nothing), the call is refused as a replay, the credential is emptied and
  revoked, no other credential changes, and the account must reauthorize. (The pair stored by the refresh opens, and its refresh token is a new one.)
\<close>

theorem retired_token_reuse_detected:
  assumes "refresh E a presented w = (Inr (), w1)"
    and "active_credential a (db w) = Some row" and "open_credential E a row = Inr stored"
    and "active_credential a (db w1) = Some row1" and "open_credential E a row1 = Inr stored1"
    and "cp_refresh_token stored1 \<noteq> cp_refresh_token stored"
    and "refresh E a (Some (cp_refresh_token stored)) w1 = (r, w2)"
  shows "r \<in> {Inl RefreshReplay, Inl FlowPersistence} \<and>
    db w2 = (if r = Inl RefreshReplay
      then (db w1)\<lparr>credentials := scrubbed (cred_id row1) (credentials (db w1)), accounts := moved a ReauthRequired (accounts (db w1))\<rparr>
      else db w1)"
proof -
  from refresh_outcomes [OF assms(1)] assms(2,3) obtain response :: token_response and t nonce where
    "db w1 = (db w)\<lparr>credentials := swapped E row (cp_refresh_token stored)
      (seal (oe_gcm E) (oe_key E) (oe_nonce E nonce) a Credential (payload_encode
         \<lparr>cp_access_token = tr_access_token response, cp_refresh_token = tr_refresh_token response\<rparr>)) t (credentials (db w))\<rparr>"
    by auto
  with swapped_active [OF assms(2)] assms(4) have "cred_superseded_refresh_hash row1 = Some (retired_hash E (cp_refresh_token stored))"
    by (auto simp: rotated_def)
  from refresh_replayed [OF assms(4,5) assms(6) [symmetric] this assms(7)]
  have r: "r \<in> {Inl RefreshReplay, Inl FlowPersistence}" .
  then show ?thesis using refresh_outcomes [OF assms(7)] assms(4) by auto
qed

section \<open>Connecting and disconnecting\<close>

definition new_active :: "uuid \<Rightarrow> string list \<Rightarrow> credential \<Rightarrow> bool" where
  "new_active a scopes c \<longleftrightarrow> cred_account_id c = a \<and> cred_status c = CActive \<and> cred_granted_scopes c = scopes"

lemma insert_with_status_Inr:
  assumes "insert_with_status n st w = (Inr i, w')"
  obtains c where "db w' = (db w)\<lparr>credentials := credentials (db w) @ [c]\<rparr>" "cred_id c \<notin> cred_id ` set (credentials (db w))"
    "cred_account_id c = nc_account_id n" "cred_status c = st" "cred_granted_scopes c = nc_granted_scopes n"
    "cred_encrypted_payload c = nc_encrypted_payload n"
  using assms by (auto simp: insert_with_status_def sql_Inr insert_credential_row_def insert_unique_def split: if_splits)

lemma set_account_state_Inr:
  "set_account_state a st w = (Inr u, w') \<Longrightarrow> db w' = (db w)\<lparr>accounts := moved a st (accounts (db w))\<rparr>"
  by (auto simp: set_account_state_def exec_Inr moved_def)

lemma store_connection_Inr:
  assumes "store_connection E a granted tokens w = (Inr u, w')"
  shows "\<exists>c. db w' = (db w)\<lparr>credentials := credentials (db w) @ [c], accounts := moved a Connected (accounts (db w))\<rparr>
    \<and> cred_id c \<notin> cred_id ` set (credentials (db w)) \<and> new_active a granted c"
proof -
  from assms obtain sealed t i w4 where ins: "insert_with_status \<lparr>nc_account_id = a, nc_encrypted_payload = sealed,
      nc_granted_scopes = granted, nc_expires_at = t\<rparr> CActive (advance (advance w)) = (Inr i, w4)"
    and st: "set_account_state a Connected (advance w4) = (Inr u, w')"
    by (auto simp: store_connection_def io_run expiry_def split: option.splits)
  from ins obtain c where "db w4 = (db w)\<lparr>credentials := credentials (db w) @ [c]\<rparr>" "cred_id c \<notin> cred_id ` set (credentials (db w))"
      "new_active a granted c"
    by (auto elim!: insert_with_status_Inr simp: new_active_def)
  with set_account_state_Inr [OF st] show ?thesis by (intro exI [of _ c]) simp
qed

lemma moved_state:
  assumes "x \<in> set (moved a st xs)" and "acc_id x = a"
  shows "acc_state x = st"
proof -
  from assms(1) obtain y where y: "x = (if acc_id y = a then y\<lparr>acc_state := st\<rparr> else y)"
    unfolding moved_def update_where_def set_map by (elim imageE)
  show ?thesis
  proof (cases "acc_id y = a")
    case False
    with y assms(2) show ?thesis by simp
  qed (simp add: y)
qed

lemma exchange_code_Inr:
  assumes "exchange_code E a accepted code w = (Inr u, w')"
  obtains c where "new_active a (cred_granted_scopes c) c" "set (oc_read_scopes (oe_oauth E)) \<subseteq> set (cred_granted_scopes c)"
    "cred_id c \<notin> cred_id ` set (credentials (db w))"
    "db w' = (db w)\<lparr>credentials := credentials (db w) @ [c], accounts := moved a Connected (accounts (db w))\<rparr>"
proof -
  let ?req = "oc_read_scopes (oe_oauth E)"
  from assms obtain uri w1 tokens w2 where uri: "redirect_target E w = (Inr uri, w1)"
    and tok: "exchange_code_form (oe_client E) code uri (ac_code_verifier accepted) w1 = (Inr tokens, w2)"
    and miss: "missing_scopes ?req (observed_grant (tr_scope tokens) ?req) = []"
    and store: "store_connection E a (observed_grant (tr_scope tokens) ?req) tokens w2 = (Inr u, w')"
    unfolding exchange_code_def Let_def bind_io_Inr by (auto simp: refuse_downgrade_def then_io_Inr throw_Inr split: if_splits)
  have w2: "db w2 = db w" using silentD [OF silent_basic(2) uri] silentD [OF silent_client(3) tok] by simp
  from store_connection_Inr [OF store] obtain c where c: "db w' = (db w2)\<lparr>credentials := credentials (db w2) @ [c],
      accounts := moved a Connected (accounts (db w2))\<rparr>" "cred_id c \<notin> cred_id ` set (credentials (db w2))"
      "new_active a (observed_grant (tr_scope tokens) ?req) c" by blast
  show thesis
    by (rule that [of c]) (use c w2 no_missing_scopes [OF miss] in \<open>simp_all add: new_active_def\<close>)
qed

lemma revoke_Inr:
  assumes "revoke E a w = (Inr u, w')"
  obtains (absent) "active_credential a (db w) = None" "db w' = db w"
  | (revoked) row where "active_credential a (db w) = Some row"
      "db w' = (db w)\<lparr>credentials := scrubbed (cred_id row) (credentials (db w)), accounts := moved a Revoked (accounts (db w))\<rparr>"
proof -
  let ?v = "(advance w)\<lparr>txn_at := Some (clock (sched w) (tick w))\<rparr>"
  from assms obtain v where body: "revoke_body E a ?v = (Inr u, v)" and d: "db w' = db v"
    by (auto simp: revoke_def transaction_Inr)
  show thesis
  proof (cases "active_credential a (db w)")
    case None
    with body d show thesis
      by (intro absent) (auto simp: revoke_body_def io_run lock_active_for_account_def)
  next
    case (Some row)
    with body obtain stored where op: "revoke_opened E a row stored (advance ?v) = (Inr u, v)"
      by (auto simp: revoke_body_def io_run lock_active_for_account_def)
    then obtain v1 v2 where n: "notify_revocation (oe_client E) (cp_access_token stored) (advance ?v) = (Inr v1, v2)"
      and s: "then_io (persistence (scrub_revoke (cred_id row))) (bind_io read_clock (\<lambda>_. persistence (set_account_state a Revoked))) v2 = (Inr u, v)"
      unfolding revoke_opened_def then_io_Inr [of "notify_revocation _ _"] by blast
    have "db v2 = db w" using silentD [OF silent_client(6) n] by simp
    with s d show thesis
      by (intro revoked [OF Some]) (auto simp: io_run scrub_revoke_def scrubbed_def dest!: set_account_state_Inr)
  qed
qed

text \<open>
  C36. Disconnecting revokes one credential, not all of them. An account that was connected twice has two active credentials; when its
  connection is then revoked successfully, the account is marked revoked, and still one of its credentials is active with its sealed tokens
  in place.
\<close>

theorem revocation_leaves_older_credential:
  assumes "exchange_code E a accepted code w = (Inr (), w1)" and "revoke E a w1 = (Inr (), w2)"
    and "c \<in> set (credentials (db w))" and "cred_account_id c = a" and "cred_status c = CActive"
  shows "(\<forall>x \<in> set (accounts (db w2)). acc_id x = a \<longrightarrow> acc_state x = Revoked)
    \<and> (\<exists>c' \<in> set (credentials (db w2)). cred_account_id c' = a \<and> cred_status c' = CActive \<and> c' \<in> set (credentials (db w1)))"
proof -
  from assms(1) obtain new where new: "new_active a (cred_granted_scopes new) new"
      "cred_id new \<notin> cred_id ` set (credentials (db w))"
      and "db w1 = (db w)\<lparr>credentials := credentials (db w) @ [new], accounts := moved a Connected (accounts (db w))\<rparr>"
    by (rule exchange_code_Inr)
  then have cs: "credentials (db w1) = credentials (db w) @ [new]" by simp
  have c: "c \<in> set (credentials (db w1))" "new \<in> set (credentials (db w1))" "cred_id new \<noteq> cred_id c"
    using new cs assms(3) by auto
  from assms(2) show ?thesis
  proof (cases rule: revoke_Inr)
    case absent
    with c(1) assms(4,5) show ?thesis by (auto simp: active_credential_None)
  next
    case (revoked row)
    obtain keep where keep: "keep \<in> set (credentials (db w1))" "cred_id keep \<noteq> cred_id row" "cred_account_id keep = a" "cred_status keep = CActive"
      using new(1) assms(4,5) c unfolding new_active_def by metis
    then have "keep \<in> set (credentials (db w2))"
      by (simp add: revoked(2) scrubbed_def set_update_where)
    moreover have "\<forall>x \<in> set (accounts (db w2)). acc_id x = a \<longrightarrow> acc_state x = Revoked"
      using moved_state by (simp add: revoked(2))
    ultimately show ?thesis using keep by blast
  qed
qed

section \<open>Write grants\<close>

definition active_of :: "uuid \<Rightarrow> credential list \<Rightarrow> credential list" where
  "active_of a cs = filter (\<lambda>c. cred_account_id c = a \<and> cred_status c = CActive) cs"

lemma active_of_single: "active_of a (credentials d) = [c] \<Longrightarrow> active_credential a d = Some c"
  by (simp add: active_of_def active_credential_def)

lemma upsert_authorization_select:
  "\<exists>auth. select_one (\<lambda>r. wau_account_id r = wau_account_id new) (upsert wau_account_id authorization_merge new rows) = Some auth
     \<and> wau_status auth \<in> {WActive, wau_status new} \<and> wau_granted_scopes auth = wau_granted_scopes new"
proof (cases "wau_account_id new \<in> wau_account_id ` set rows")
  case True
  then show ?thesis
    by (induction rows) (auto simp: upsert_def select_one_def authorization_merge_def split: if_splits)
next
  case False
  then show ?thesis
    by (auto simp: upsert_def image_iff intro!: exI [of _ new] select_one_snoc)
qed

definition granted_to :: "write_grant_activation \<Rightarrow> archive \<Rightarrow> archive \<Rightarrow> bool" where
  "granted_to g d d' \<longleftrightarrow> (\<exists>cs c auths auth. d' = d\<lparr>credentials := cs @ [c], bookmark_write_authorizations := auths\<rparr>
     \<and> active_of (wga_account_id g) cs = [] \<and> new_active (wga_account_id g) (wga_granted_scopes g) c
     \<and> select_one (\<lambda>r. wau_account_id r = wga_account_id g) auths = Some auth
     \<and> wau_status auth = WActive \<and> wau_granted_scopes auth = wga_granted_scopes g)"

lemma replace_credential_Inr:
  assumes "replace_credential g w = (Inr out, w')"
  shows "out = Activated \<and> granted_to g (db w) (db w')"
proof -
  from assms obtain v2 i v3 where ex: "expire_active (wga_account_id g) w = (Inr (), v2)"
      and ins: "insert_with_status \<lparr>nc_account_id = wga_account_id g, nc_encrypted_payload = wga_encrypted_payload g,
                    nc_granted_scopes = wga_granted_scopes g, nc_expires_at = wga_expires_at g\<rparr> CActive v2 = (Inr i, v3)"
      and up: "upsert_authorization g v3 = (Inr (), w')" and out: "out = Activated"
    by (auto simp: replace_credential_def then_io_Inr ret_Inr)
  define cs where "cs = update_where (\<lambda>c. cred_account_id c = wga_account_id g \<and> cred_status c = CActive)
       (\<lambda>c. c\<lparr>cred_status := CExpired\<rparr>) (credentials (db w))"
  have v2: "db v2 = (db w)\<lparr>credentials := cs\<rparr>" using ex by (simp add: expire_active_def exec_Inr cs_def)
  have none: "active_of (wga_account_id g) cs = []"
    by (auto simp: active_of_def cs_def filter_empty_conv set_update_where)
  from ins obtain c where c: "new_active (wga_account_id g) (wga_granted_scopes g) c" "db v3 = (db w)\<lparr>credentials := cs @ [c]\<rparr>"
    by (auto elim!: insert_with_status_Inr simp: v2 new_active_def)
  define new where "new = \<lparr>wau_account_id = wga_account_id g, wau_oauth_intent_id = wga_oauth_intent_id g,
        wau_granted_scopes = wga_granted_scopes g, wau_status = WActive,
        wau_authorized_at = wga_authorized_at g, wau_revoked_at = None\<rparr>"
  define auths where "auths = upsert wau_account_id authorization_merge new (bookmark_write_authorizations (db w))"
  have v: "db w' = (db w)\<lparr>credentials := cs @ [c], bookmark_write_authorizations := auths\<rparr>"
    using up c(2) by (auto simp: upsert_authorization_def sql_Inr auths_def new_def split: if_splits)
  obtain auth where "select_one (\<lambda>r. wau_account_id r = wga_account_id g) auths = Some auth" "wau_status auth = WActive"
      "wau_granted_scopes auth = wga_granted_scopes g"
    using upsert_authorization_select [of new "bookmark_write_authorizations (db w)"] by (auto simp: auths_def new_def)
  with v none c(1) out show ?thesis unfolding granted_to_def by blast
qed

lemma replace_credential_Inl: "replace_credential g w = (Inl e, w') \<Longrightarrow> e = PersistenceQuery"
  by (auto simp: replace_credential_def expire_active_def insert_with_status_def upsert_authorization_def io_defs
      split: prod.splits sum.splits if_splits option.splits)

lemma activate_Inr:
  assumes "activate g w = (Inr out, w')"
  obtains (mismatch) "out = BindingMismatch" "db w' = db w"
  | (activated) x where "out = Activated" "x \<in> set (accounts (db w))" "acc_id x = wga_account_id g"
      "acc_internal_user_id x = wga_internal_user_id g" "acc_provider_user_id x = wga_provider_user_id g"
      "granted_to g (db w) (db w')"
proof -
  let ?v = "(advance w)\<lparr>txn_at := Some (clock (sched w) (tick w))\<rparr>"
  obtain q w1 where q: "transaction (Inl PersistenceQuery) (activate_body g) w = (q, w1)" by fastforce
  show thesis
  proof (cases q)
    case (Inl e)
    with assms q have w': "w' = w1" "e = Inr out"
      by (auto simp: activate_def early_transaction_def bind_io_def attempt_def ret_def throw_def split: sum.splits)
    have "never (Inr Activated) (transaction (Inl PersistenceQuery) (activate_body g))"
      unfolding activate_body_def lock_account_def
      by (intro never_intros) simp_all
    then have "e \<noteq> Inr Activated" using neverD q Inl by fastforce
    then have "out = BindingMismatch" using w'(2) by (cases out) simp_all
    with w' transaction_Inl_db [OF q [unfolded Inl]] show thesis by (intro mismatch) simp_all
  next
    case (Inr y)
    with assms q have w': "w' = w1" "y = out"
      by (auto simp: activate_def early_transaction_def bind_io_def attempt_def ret_def)
    from q Inr obtain v where run: "activate_body g ?v = (Inr y, v)" and d: "db w1 = db v" by (auto simp: transaction_Inr)
    from run obtain x where x: "select_one (\<lambda>x. acc_id x = wga_account_id g) (accounts (db w)) = Some x"
      and bind: "acc_internal_user_id x = wga_internal_user_id g" "acc_provider_user_id x = wga_provider_user_id g"
      and rep: "replace_credential g (advance ?v) = (Inr y, v)"
      by (auto simp: activate_body_def bind_io_Inr map_err_Inr throw_Inr lock_account_def query_Inr split: option.splits if_splits)
    from replace_credential_Inr [OF rep] have "y = Activated" "granted_to g (db w) (db v)" by simp_all
    with select_one_Some [OF x] bind w' d show thesis by (intro activated [of x]) simp_all
  qed
qed

lemma activate_Inl: "activate g w = (Inl e, w') \<Longrightarrow> db w' = db w"
  by (auto simp: activate_def early_transaction_def bind_io_def attempt_def ret_def throw_def
      dest: transaction_Inl_db split: prod.splits sum.splits)

lemma silent_bindE:
  assumes "bind_io m k w = (r, w')" and "silent m"
  obtains (failed) e where "r = Inl e" "db w' = db w"
  | (went) x w1 where "m w = (Inr x, w1)" "db w1 = db w" "k x w1 = (r, w')"
proof -
  obtain q w1 where q: "m w = (q, w1)" by fastforce
  with silentD [OF assms(2) q] assms(1) failed went show thesis by (cases q) (auto simp: bind_io_def)
qed

definition grant_kept :: "uuid \<Rightarrow> archive \<Rightarrow> archive \<Rightarrow> bool" where
  "grant_kept a d d' \<longleftrightarrow> active_of a (credentials d') = active_of a (credentials d)
     \<and> bookmark_write_authorizations d' = bookmark_write_authorizations d"

interpretation kept: frame "grant_kept a" for a
  by unfold_locales (simp_all add: grant_kept_def)

lemma rejected_grant_kept: "within (grant_kept a) (insert_rejected_write_grant b scopes out)"
  unfolding insert_rejected_write_grant_def
  by (rule kept.within_sql)
     (auto simp: grant_kept_def insert_credential_row_def insert_unique_def active_of_def split: if_splits)

lemma refusals_kept:
  "within (grant_kept a) (refuse_write_downgrade b granted missing)"
  "within (grant_kept a) (conclude_grant b granted BindingMismatch)"
  unfolding refuse_write_downgrade_def conclude_grant_def persistence_def
  by (simp_all, (intro kept.within_intros rejected_grant_kept)+)

lemma grant_write_result:
  assumes "grant_write E a accepted granted tokens w = (r, w')"
  shows "case r of
      Inr _ \<Rightarrow> \<exists>g x. wga_account_id g = a \<and> wga_granted_scopes g = granted \<and> x \<in> set (accounts (db w)) \<and> acc_id x = a
        \<and> acc_internal_user_id x = ac_internal_user_id accepted \<and> granted_to g (db w) (db w')
    | Inl _ \<Rightarrow> grant_kept a (db w) (db w')"
  using assms unfolding grant_write_def
proof (rule silent_bindE [OF _ silent_client(5)])
  fix u w1 assume w1: "db w1 = db w" and "bind_io (seal_payload E a \<lparr>cp_access_token = tr_access_token tokens, cp_refresh_token = tr_refresh_token tokens\<rparr>)
     (\<lambda>sealed. bind_io read_clock (\<lambda>now. bind_io (expiry E now (tr_expires_in tokens)) (\<lambda>expires_at.
     bind_io (persistence (activate
         \<lparr>wga_oauth_intent_id = ac_intent_id accepted, wga_account_id = a,
          wga_internal_user_id = ac_internal_user_id accepted, wga_provider_user_id = u,
          wga_encrypted_payload = sealed, wga_granted_scopes = granted, wga_expires_at = Some expires_at,
          wga_authorized_at = now\<rparr>)) (conclude_grant a granted)))) w1 = (r, w')"
  then show ?thesis
  proof (elim silent_bindE [OF _ silent_seal] silent_bindE [OF _ silent_basic(3)] silent_bindE [OF _ silent_basic(1)])
    fix sealed and w2 :: "archive world" and now and w3 :: "archive world" and t and w4 :: "archive world"
    assume "db w2 = db w1" "db w3 = db w2" "db w4 = db w3"
    then have w4: "db w4 = db w" using w1 by simp
    define g where "g = \<lparr>wga_oauth_intent_id = ac_intent_id accepted, wga_account_id = a,
          wga_internal_user_id = ac_internal_user_id accepted, wga_provider_user_id = u,
          wga_encrypted_payload = sealed, wga_granted_scopes = granted, wga_expires_at = Some t, wga_authorized_at = now\<rparr>"
    assume "bind_io (persistence (activate
         \<lparr>wga_oauth_intent_id = ac_intent_id accepted, wga_account_id = a,
          wga_internal_user_id = ac_internal_user_id accepted, wga_provider_user_id = u,
          wga_encrypted_payload = sealed, wga_granted_scopes = granted, wga_expires_at = Some t,
          wga_authorized_at = now\<rparr>)) (conclude_grant a granted) w4 = (r, w')"
    then have run: "bind_io (persistence (activate g)) (conclude_grant a granted) w4 = (r, w')" by (simp only: g_def)
    obtain q w5 where q: "activate g w4 = (q, w5)" by fastforce
    show ?thesis
    proof (cases q)
      case (Inl e)
      with q have "db w5 = db w4" by (rule_tac activate_Inl) simp
      with run q Inl w4 show ?thesis by (auto simp: bind_io_def persistence_def map_err_def kept.frame_refl)
    next
      case (Inr out)
      with run q have con: "conclude_grant a granted out w5 = (r, w')" by (simp add: bind_io_def persistence_def map_err_def)
      from q [unfolded Inr] show ?thesis
      proof (cases rule: activate_Inr)
        case mismatch
        with con w4 withinD [OF refusals_kept(2), where w = w5 and w' = w'] have "grant_kept a (db w) (db w')" by simp
        moreover have "r \<noteq> Inr ()" using con mismatch by (auto simp: conclude_grant_def then_io_Inr throw_Inr)
        ultimately show ?thesis by (simp split: sum.split)
      next
        case (activated x)
        with con w4 have "r = Inr ()" "granted_to g (db w) (db w')" by (simp_all add: conclude_grant_def ret_def)
        with activated(2-5) w4 show ?thesis by (auto simp: g_def intro!: exI [of _ g])
      qed
    qed
  qed (simp_all add: kept.frame_refl w1)
qed (simp add: kept.frame_refl)

lemma granted_admits:
  assumes "granted_to g d d'" and "db w' = d'" and "set REQUIRED_SCOPES \<subseteq> set (wga_granted_scopes g)"
  shows "(\<exists>c. active_of (wga_account_id g) (credentials d') = [c] \<and> cred_granted_scopes c = wga_granted_scopes g)
    \<and> fst (require_write_authority (wga_account_id g) w') \<in> {Inr (), Inl WbQuery}"
proof -
  from assms(1) obtain cs c auths auth where d': "d' = d\<lparr>credentials := cs @ [c], bookmark_write_authorizations := auths\<rparr>"
     and cs: "active_of (wga_account_id g) cs = []" and c: "new_active (wga_account_id g) (wga_granted_scopes g) c"
     and auth: "select_one (\<lambda>r. wau_account_id r = wga_account_id g) auths = Some auth"
     "wau_status auth = WActive" "wau_granted_scopes auth = wga_granted_scopes g"
    unfolding granted_to_def by blast
  have one: "active_of (wga_account_id g) (credentials d') = [c]" using cs c by (simp add: d' active_of_def new_active_def)
  from active_of_single [OF this] have "active_credential (wga_account_id g) (db w') = Some c" by (simp add: assms(2))
  then have "fst (require_write_authority (wga_account_id g) w') \<in> {Inr (), Inl WbQuery}"
    using auth c assms(2,3)
    by (auto simp: require_write_authority_def io_defs d' new_active_def scopes_cover_def list_all_iff advance_def)
  with one c show ?thesis by (auto simp: new_active_def)
qed

text \<open>
  C15. A write grant is bound to its account and opens the write gate. When the code of a bookmark-write callback is exchanged successfully, the account of the
  intent belongs to the intent's user, it has exactly one active credential, whose scopes cover the read scopes and
  \<open>bookmark.write\<close>, and the write gate of the write-back service admits the account (unless its queries fail). When the exchange fails, for whatever
  reason, the account's active credentials and all write authorizations are as before. (The configured scopes cover those the gate requires.)
\<close>

theorem write_grant_bound:
  assumes "exchange_bookmark_write_code E accepted code w = (r, w')" and "ac_purpose accepted = BookmarkWrite a"
    and "set REQUIRED_SCOPES \<subseteq> set (write_scopes (oe_oauth E))"
  shows "case r of
      Inr _ \<Rightarrow> (\<exists>x \<in> set (accounts (db w)). acc_id x = a \<and> acc_internal_user_id x = ac_internal_user_id accepted)
        \<and> (\<exists>c. active_of a (credentials (db w')) = [c] \<and> set (write_scopes (oe_oauth E)) \<subseteq> set (cred_granted_scopes c))
        \<and> fst (require_write_authority a w') \<in> {Inr (), Inl WbQuery}
    | Inl e \<Rightarrow> active_of a (credentials (db w')) = active_of a (credentials (db w))
        \<and> bookmark_write_authorizations (db w') = bookmark_write_authorizations (db w)"
proof -
  let ?req = "write_scopes (oe_oauth E)"
  have kept: "grant_kept a (db w) (db w') \<Longrightarrow> r = Inl e \<Longrightarrow> ?thesis" for e by (simp add: grant_kept_def)
  show ?thesis
  proof (cases "ac_requested_scopes accepted = ?req")
    case False
    with assms(1,2) show ?thesis by (auto simp: exchange_bookmark_write_code_def throw_def Let_def)
  next
    case True
    with assms(1,2) have "bind_io (redirect_target E) (\<lambda>uri.
        bind_io (exchange_code_form (oe_client E) code uri (ac_code_verifier accepted)) (\<lambda>tokens.
          let granted = observed_grant (tr_scope tokens) ?req; missing = missing_scopes ?req granted
          in if missing \<noteq> [] then refuse_write_downgrade a granted missing else grant_write E a accepted granted tokens)) w = (r, w')"
      by (simp add: exchange_bookmark_write_code_def Let_def)
    then show ?thesis
    proof (elim silent_bindE [OF _ silent_basic(2)] silent_bindE [OF _ silent_client(3)])
      fix uri and w1 :: "archive world" and tokens :: token_response and w2 :: "archive world"
      define granted where "granted = observed_grant (tr_scope tokens) ?req"
      assume "db w1 = db w" "db w2 = db w1"
      then have w2: "db w2 = db w" by simp
      assume "(let granted = observed_grant (tr_scope tokens) ?req; missing = missing_scopes ?req granted
          in if missing \<noteq> [] then refuse_write_downgrade a granted missing else grant_write E a accepted granted tokens) w2 = (r, w')"
      then have run: "(if missing_scopes ?req granted \<noteq> [] then refuse_write_downgrade a granted (missing_scopes ?req granted)
          else grant_write E a accepted granted tokens) w2 = (r, w')"
        unfolding Let_def granted_def .
      show ?thesis
      proof (cases "missing_scopes ?req granted = []")
        case False
        with run have ref: "refuse_write_downgrade a granted (missing_scopes ?req granted) w2 = (r, w')" by simp
        obtain e where "r = Inl e" using ref by (cases r) (auto simp: refuse_write_downgrade_def then_io_Inr throw_Inr)
        with withinD [OF refusals_kept(1) ref] w2 show ?thesis by (intro kept) simp_all
      next
        case True
        with run have gw: "grant_write E a accepted granted tokens w2 = (r, w')" by simp
        show ?thesis
        proof (cases r)
          case (Inl e)
          with grant_write_result [OF gw] w2 show ?thesis by (intro kept) simp_all
        next
          case (Inr u)
          with grant_write_result [OF gw] w2 obtain g x where g: "wga_account_id g = a" "wga_granted_scopes g = granted"
            and x: "x \<in> set (accounts (db w))" "acc_id x = a" "acc_internal_user_id x = ac_internal_user_id accepted"
            and to: "granted_to g (db w) (db w')" by auto
          have sub: "set ?req \<subseteq> set (wga_granted_scopes g)" using no_missing_scopes [OF True] g by simp
          with assms(3) have "set REQUIRED_SCOPES \<subseteq> set (wga_granted_scopes g)" by (rule order_trans)
          from granted_admits [OF to refl this] sub g x Inr show ?thesis by auto
        qed
      qed
    qed (simp_all add: kept kept.frame_refl grant_kept_def)
  qed
qed

end
