(* ===== verification/Token_Client_Correct.thy ===== *)
theory Token_Client_Correct
  imports Token_Client Article_Urls
begin

text \<open>
  Reading token responses: a printer of flat JSON objects, and the proof that the member scanner of \<open>Token_Client\<close> reads back what it prints.
\<close>

section \<open>A reference printer\<close>

datatype member_value = VStr string | VNum nat

definition escape_char :: "char \<Rightarrow> string" where
  "escape_char c = (if c = quote \<or> c = backslash then [backslash, c] else [c])"

fun print_value :: "member_value \<Rightarrow> string" where
  "print_value (VStr s) = quote # concat (map escape_char s) @ [quote]"
| "print_value (VNum n) = show_nat n"

definition print_member :: "string \<times> member_value \<Rightarrow> string" where
  "print_member m = quote # fst m @ [quote, CHR '':''] @ print_value (snd m)"

definition print_object :: "(string \<times> member_value) list \<Rightarrow> string" where
  "print_object ms = ''{'' @ join_with '','' (map print_member ms) @ ''}''"

definition plain_key :: "string \<Rightarrow> bool" where
  "plain_key k \<longleftrightarrow> list_all (\<lambda>c. is_alphanumeric c \<or> c = CHR ''_'') k"

section \<open>Scanning members\<close>

definition scan_plain :: "char \<Rightarrow> bool" where
  "scan_plain c \<longleftrightarrow> c \<noteq> quote \<and> c \<notin> set ''{}[],''"

lemma scan_plain_step:
  "list_all scan_plain s \<Longrightarrow> scan_members 0 False False m (s @ rest) = scan_members 0 False False (m @ s) rest"
  by (induction s arbitrary: m) (auto simp: scan_plain_def)

lemma scan_string_step:
  "scan_members 0 True False m (concat (map escape_char s) @ quote # rest)
     = scan_members 0 False False (m @ concat (map escape_char s) @ [quote]) rest"
  by (induction s arbitrary: m) (auto simp: escape_char_def)

lemma scan_key_step:
  assumes "list_all (\<lambda>c. c \<noteq> quote \<and> c \<noteq> backslash) k"
  shows "scan_members 0 True False m (k @ quote # rest) = scan_members 0 False False (m @ k @ [quote]) rest"
  using assms by (induction k arbitrary: m) auto

lemma plain_key_chars:
  "plain_key k \<Longrightarrow> list_all (\<lambda>c. c \<noteq> quote \<and> c \<noteq> backslash \<and> c \<noteq> CHR '':'') k"
  by (auto simp: plain_key_def list_all_iff is_alphanumeric_def is_digit_def is_upper_def is_lower_def)

lemma digits_scan_plain: "list_all is_digit s \<Longrightarrow> list_all scan_plain s"
  by (auto simp: list_all_iff scan_plain_def is_digit_def)

lemma scan_member_step:
  assumes "plain_key (fst kv)"
  shows "scan_members 0 False False m (print_member kv @ rest) = scan_members 0 False False (m @ print_member kv) rest"
proof -
  obtain k v where kv: "kv = (k, v)" by fastforce
  have k: "list_all (\<lambda>c. c \<noteq> quote \<and> c \<noteq> backslash) k"
    using plain_key_chars [OF assms] by (auto simp: kv list_all_iff)
  have "scan_members 0 False False m' (print_value v @ rest) = scan_members 0 False False (m' @ print_value v) rest" for m'
    using digits_scan_plain show_nat_digits
    by (cases v) (auto simp: scan_string_step scan_plain_step)
  then show ?thesis using scan_key_step [OF k] by (simp add: kv print_member_def)
qed

lemma scan_members_printed:
  assumes "list_all (plain_key \<circ> fst) ms" and "ms \<noteq> []"
  shows "scan_members 0 False False [] (join_with '','' (map print_member ms)) = Some (map print_member ms)"
  using assms
proof (induction ms rule: induct_list012)
  case (2 x)
  then show ?case using scan_member_step [of x "[]" "[]"] by simp
next
  case (3 x y zs)
  then have "scan_members 0 False False [] (join_with '','' (map print_member (y # zs))) = Some (map print_member (y # zs))" by simp
  with 3 show ?case
    using scan_member_step [of x "[]" "CHR '','' # join_with '','' (map print_member (y # zs))"] by simp
qed simp

section \<open>Trimming\<close>

definition solid :: "char \<Rightarrow> bool" where
  "solid c \<longleftrightarrow> c = quote \<or> is_digit c \<or> c = CHR ''{'' \<or> c = CHR ''}''"

lemma solid_spaces [simp]:
  "solid b \<Longrightarrow> \<not> space1 b" "solid b \<Longrightarrow> \<not> space2 b c" "solid b \<Longrightarrow> \<not> space3 b c e"
  "solid c \<Longrightarrow> \<not> space2 b c" "solid e \<Longrightarrow> \<not> space3 b c e"
  by (auto simp: solid_def space1_def space2_def space3_def is_digit_def)

lemma space_len_solid: "solid c \<Longrightarrow> space_len (c # s) = 0"
  by (cases "c # s" rule: space_len.cases) auto

lemma space_len_bound: "space_len s \<le> length s"
  by (cases s rule: space_len.cases) auto

lemma space_len_last: "0 < space_len s \<Longrightarrow> space_len s = length s \<Longrightarrow> \<not> solid (last s)"
  by (cases s rule: space_len.cases) (auto split: if_splits)

lemma trim_start_solid: "s \<noteq> [] \<Longrightarrow> solid (last s) \<Longrightarrow> trim_start s \<noteq> []"
proof (induction s rule: trim_start.induct)
  case (1 s)
  show ?case
  proof (cases "space_len s = 0")
    case False
    then have "space_len s < length s" using 1(3) space_len_last [of s] space_len_bound [of s] by fastforce
    with 1 False show ?thesis by (simp add: trim_start.simps [of s])
  qed (use 1 in \<open>simp add: trim_start.simps [of s]\<close>)
qed

lemma trim_end_solid: "s \<noteq> [] \<Longrightarrow> solid (last s) \<Longrightarrow> trim_end s = s"
proof (induction s)
  case (Cons c s)
  then show ?case using trim_start_solid [of "c # s"] by (cases "s = []") auto
qed simp

lemma trim_solid: "s \<noteq> [] \<Longrightarrow> solid (hd s) \<Longrightarrow> solid (last s) \<Longrightarrow> trim s = s"
  using trim_end_solid [of s] by (cases s) (simp_all add: trim_def trim_start.simps space_len_solid)

section \<open>Reading printed members back\<close>

lemma print_value_solid: "print_value v \<noteq> [] \<and> solid (hd (print_value v)) \<and> solid (last (print_value v))"
proof (cases v)
  case (VNum n)
  with show_nat_digits [of n] show ?thesis by (auto simp: solid_def list_all_iff)
qed (simp add: solid_def)

lemma print_member_solid:
  "print_member kv \<noteq> [] \<and> solid (hd (print_member kv)) \<and> solid (last (print_member kv))"
  using print_value_solid [of "snd kv"] by (simp add: print_member_def) (simp add: solid_def)

lemma split_once_colon:
  "list_all (\<lambda>c. c \<noteq> CHR '':'') k \<Longrightarrow> split_once '':'' (k @ CHR '':'' # rest) = Some (k, rest)"
  by (induction k) (auto simp: starts_with_def)

lemma split_member_printed:
  assumes "plain_key k"
  shows "split_member (print_member (k, v)) = Some (k, print_value v)"
proof -
  have "list_all (\<lambda>c. c \<noteq> CHR '':'') (quote # k @ [quote])"
    using plain_key_chars [OF assms] by (auto simp: list_all_iff)
  from split_once_colon [OF this] have "split_once '':'' (print_member (k, v)) = Some (quote # k @ [quote], print_value v)"
    by (simp add: print_member_def)
  moreover have "trim (quote # k @ [quote]) = quote # k @ [quote]" by (rule trim_solid) (simp_all add: solid_def)
  moreover have "trim (print_value v) = print_value v" using print_value_solid [of v] by (intro trim_solid) auto
  ultimately show ?thesis by (simp add: split_member_def strip_ends_def)
qed

lemma split_pairs_printed:
  "list_all (plain_key \<circ> fst) ms \<Longrightarrow>
     split_pairs (map print_member ms) = Some (map (\<lambda>(k, v). (k, print_value v)) ms)"
proof (induction ms)
  case (Cons kv ms)
  obtain k v where kv: "kv = (k, v)" by fastforce
  have "trim (print_member kv) = print_member kv" "print_member kv \<noteq> []"
    using print_member_solid [of kv] by (auto intro: trim_solid)
  with Cons show ?case by (simp add: kv split_member_printed)
qed simp

lemma find_member_printed:
  assumes "list_all (plain_key \<circ> fst) ms"
  shows "find_member (print_object ms) k = Inr (map_option print_value (map_of ms k))"
proof -
  let ?j = "join_with '','' (map print_member ms)"
  have "trim (print_object ms) = print_object ms"
    by (rule trim_solid) (simp_all add: print_object_def solid_def)
  moreover have "strip_ends CHR ''{'' CHR ''}'' (print_object ms) = Some ?j"
    by (simp add: strip_ends_def print_object_def)
  moreover have "\<exists>x. scan_members 0 False False [] ?j = Some x \<and> split_pairs x = Some (map (\<lambda>(k, v). (k, print_value v)) ms)"
  proof (cases "ms = []")
    case True
    then show ?thesis by (simp add: trim_def trim_start.simps)
  next
    case False
    with scan_members_printed [OF assms] split_pairs_printed [OF assms] show ?thesis by simp
  qed
  ultimately show ?thesis by (auto simp: find_member_def split_top_level_members_def map_of_map)
qed

lemma decode_string_printed:
  "decode_string None decoded (concat (map escape_char s) @ [quote]) = Some (decoded @ s)"
  by (induction s arbitrary: decoded) (auto simp: escape_char_def simple_escape_def)

text \<open>
  Reading a printed member back: a string member gives its text, a number member its value, an absent member nothing, and a
  member of the other kind is malformed.
\<close>

lemma extract_string_printed:
  assumes "list_all (plain_key \<circ> fst) ms"
  shows "extract_string_member (print_object ms) k =
    (case map_of ms k of None \<Rightarrow> Inr None | Some (VStr s) \<Rightarrow> Inr (Some s) | Some (VNum n) \<Rightarrow> Inl MalformedProviderResponse)"
proof -
  have "hd (show_nat n) \<noteq> quote" for n
    using show_nat_digits [of n] by (cases "show_nat n") (auto simp: is_digit_def)
  then show ?thesis
    using decode_string_printed [of "[]"]
    by (auto simp: extract_string_member_def find_member_printed [OF assms] split: option.split member_value.split)
qed

lemma extract_number_printed:
  assumes "list_all (plain_key \<circ> fst) ms"
  shows "extract_number_member (print_object ms) k =
    (case map_of ms k of None \<Rightarrow> Inr None
     | Some (VNum n) \<Rightarrow> if n < 2 ^ 64 then Inr (Some n) else Inl MalformedProviderResponse
     | Some (VStr s) \<Rightarrow> Inl MalformedProviderResponse)"
proof -
  have "\<not> is_digit quote" by (simp add: is_digit_def)
  then show ?thesis
    using show_nat_digits
    by (auto simp: extract_number_member_def find_member_printed [OF assms] split: option.split member_value.split)
qed

lemma parse_printed:
  assumes "list_all (plain_key \<circ> fst) ms"
    and "map_of ms ''access_token'' = Some (VStr access)"
    and "map_of ms ''expires_in'' = Some (VNum seconds)" and "seconds < 2 ^ 64"
    and "map_of ms ''refresh_token'' = map_option VStr refresh"
    and "map_of ms ''scope'' = map_option VStr scope"
  shows "parse_token_response (print_object ms) =
    Inr \<lparr>tr_access_token = access, tr_refresh_token = (case refresh of None \<Rightarrow> [] | Some r \<Rightarrow> r),
         tr_expires_in = seconds, tr_scope = scope\<rparr>"
  using assms
  by (cases refresh; cases scope)
     (simp_all add: parse_token_response_def extract_string_printed extract_number_printed bind_result_def ok_or_def)

text \<open>
  C29. A token response is read back as it was written. From every flat JSON object with plain member names in which the access token is
  a string and the lifetime a 64-bit number, whatever the order of its members, whatever other string and number members it has and
  whatever quotes and backslashes its strings escape, the client reads exactly the access token, the lifetime, the refresh token (empty when there is
  none) and the granted scope (absent when there is none).
\<close>

theorem token_response_roundtrip:
  assumes "list_all (plain_key \<circ> fst) ms"
    and "map_of ms ''access_token'' = Some (VStr access)"
    and "map_of ms ''expires_in'' = Some (VNum seconds)" and "seconds < 2 ^ 64"
    and "map_of ms ''refresh_token'' = map_option VStr refresh"
    and "map_of ms ''scope'' = map_option VStr scope"
  shows "parse_token_response (print_object ms) =
    Inr \<lparr>tr_access_token = access, tr_refresh_token = (case refresh of None \<Rightarrow> [] | Some r \<Rightarrow> r),
         tr_expires_in = seconds, tr_scope = scope\<rparr>"
  using assms by (rule parse_printed)

theorem token_response_roundtrip_witness:
  "parse_token_response (print_object [(''expires_in'', VNum 7200), (''token_type'', VStr ''bearer''),
       (''access_token'', VStr ''a'')])
     = Inr \<lparr>tr_access_token = ''a'', tr_refresh_token = [], tr_expires_in = 7200, tr_scope = None\<rparr>"
  using token_response_roundtrip [of "[(''expires_in'', VNum 7200), (''token_type'', VStr ''bearer''), (''access_token'', VStr ''a'')]"
      "''a''" 7200 None None]
  by (simp add: plain_key_def is_alphanumeric_def is_digit_def is_upper_def is_lower_def)

end
