(* ===== verification/Oauth_Examples.thy ===== *)
theory Oauth_Examples
  imports Oauth_Connections Token_Client_Correct Writeback_Effects
begin

text \<open>
  A concrete provider, account and intent on which the theorems on callbacks and connections are applied.
\<close>

section \<open>Plain texts\<close>

definition ascii :: "string \<Rightarrow> bool" where
  "ascii s \<longleftrightarrow> list_all (\<lambda>c. of_char c < (128 :: nat)) s"

lemma ascii_byte: "of_char c < (128 :: nat) \<Longrightarrow> (of_nat (of_char c) :: 8 word) < 0x80"
  by (simp add: word_less_nat_alt unat_of_nat)

lemma ascii_utf8:
  assumes "ascii s"
  shows "utf8_valid (as_bytes s) \<and> lossy (as_bytes s) = as_bytes s"
  using assms
proof (induction s)
  case (Cons c s)
  then have "utf8_step (of_nat (of_char c)) (as_bytes s) = (True, 1)"
    using ascii_byte [of c] by (simp add: utf8_step_def ascii_def)
  with Cons show ?case by (simp add: as_bytes_def ascii_def)
qed (simp add: as_bytes_def)

lemma ascii_texts: "ascii s \<Longrightarrow> from_utf8_lossy (as_bytes s) = s" "ascii s \<Longrightarrow> from_utf8 (as_bytes s) = Some s"
  "ascii s \<Longrightarrow> length s < 2 ^ 32 \<Longrightarrow> storable s"
  using ascii_utf8 by (simp_all add: from_utf8_lossy_def from_utf8_def storable_def)

section \<open>A refresh that succeeds\<close>

lemma open_sealed_credential:
  assumes "gcm_laws (oe_gcm E)" and "a < 2 ^ 128" and "length nonce = NONCE_LEN"
    and "storable (cp_access_token p)" and "storable (cp_refresh_token p)"
    and "cred_encrypted_payload row = seal (oe_gcm E) (oe_key E) nonce a Credential (payload_encode p)"
  shows "open_credential E a row = Inr p"
proof -
  have "open_envelope (oe_gcm E) (oe_key E) a Credential (cred_encrypted_payload row) = Inr (payload_encode p)"
    using open_envelope_Inr [OF assms(1,2)] assms(3,6) by auto
  moreover have "payload_decode (payload_encode p) = Some p" using payload_decode_Some assms(4,5) by simp
  ultimately show ?thesis by (simp add: open_credential_def)
qed

lemma post_token_form_run:
  assumes "\<And>q t. hq_url q = tc_token_url T \<Longrightarrow> tc_http T q t = Inr \<lparr>hr_status = 200, hr_headers = h, hr_content_length = None,
      hr_chunks = [as_bytes body], hr_broken = None\<rparr>"
    and "ascii body" and "length body \<le> 65536" and "parse_token_response body = Inr tokens"
  shows "post_token_form T form w = (Inr tokens, advance w)"
  using assms
  by (simp add: post_token_form_def post_form_raw_def send_request_def bounded_response_def is_success_def MAX_BODY_BYTES_def
      ascii_texts io_defs)

lemma no_faults: "(\<And>t. \<not> faults (sched w) t) \<Longrightarrow> \<not> fault_now w"
  by (simp add: fault_now_def)

lemma rotatable_single:
  assumes "keyed_by cred_id cs" and "row \<in> set cs" and "cred_status row = CActive"
  shows "filter (rotatable (cred_id row) (cred_superseded_refresh_hash row)) cs = [row]"
  using assms
proof (induction cs)
  case (Cons c cs)
  then show ?case
    by (cases "c = row") (auto simp: keyed_by_def rotatable_def filter_empty_conv image_iff)
qed simp

lemma refresh_run:
  assumes "\<And>t. \<not> faults (sched w) t" and "active_credential a (db w) = Some row" and "open_credential E a row = Inr stored"
    and "\<And>v :: archive world. post_token_form (oe_client E) [(''grant_type'', ''refresh_token''), (''refresh_token'', cp_refresh_token stored)] v
       = (Inr response, advance v)"
    and "\<And>now. oe_add_seconds E now (tr_expires_in response) = Some (later now)" and "keyed_by cred_id (credentials (db w))"
  shows "\<exists>w' nonce t. refresh E a None w = (Inr (), w') \<and> db w' = (db w)\<lparr>credentials := swapped E row (cp_refresh_token stored)
      (seal (oe_gcm E) (oe_key E) (oe_nonce E nonce) a Credential (payload_encode
         \<lparr>cp_access_token = tr_access_token response, cp_refresh_token = tr_refresh_token response\<rparr>)) t (credentials (db w))\<rparr>
    \<and> sched w' = sched w"
proof -
  have one: "length (filter (rotatable (cred_id row) (cred_superseded_refresh_hash row)) (credentials (db w))) = 1"
    using rotatable_single [OF assms(6)] active_credential_Some [OF assms(2)] by simp
  have "\<exists>v' nonce t. refresh_body E a None v = (Inr (Inr ()), v') \<and> sched v' = sched v \<and> db v' = (db w)\<lparr>credentials := swapped E row (cp_refresh_token stored)
      (seal (oe_gcm E) (oe_key E) (oe_nonce E nonce) a Credential (payload_encode
         \<lparr>cp_access_token = tr_access_token response, cp_refresh_token = tr_refresh_token response\<rparr>)) t (credentials (db w))\<rparr>"
    if v: "db v = db w" "sched v = sched w" for v
  proof -
    have nf: "\<not> fault_now v" "\<not> fault_now (advance (advance (advance (advance v))))" using assms(1) v by (simp_all add: fault_now_def)
    have "persistence (lock_active_for_account a) v = (Inr (Some row), advance v)"
      using nf(1) v assms(2) by (simp add: persistence_Inr lock_active_for_account_def query_Inr)
    then have "refresh_body E a None v = rotate_with E a row stored response (advance (advance v))"
      using assms(3,4)
      by (simp add: refresh_body_def refresh_opened_def refresh_token_form_def bind_io_def of_result_def attempt_def)
    also have "\<exists>v' nonce t. rotate_with E a row stored response (advance (advance v)) = (Inr (Inr ()), v') \<and> sched v' = sched v
        \<and> db v' = (db w)\<lparr>credentials := swapped E row (cp_refresh_token stored)
      (seal (oe_gcm E) (oe_key E) (oe_nonce E nonce) a Credential (payload_encode
         \<lparr>cp_access_token = tr_access_token response, cp_refresh_token = tr_refresh_token response\<rparr>)) t (credentials (db w))\<rparr>"
      using nf(2) v one assms(5)
      by (simp add: rotate_with_def seal_payload_def bind_io_def read_clock_def expiry_def of_result_def persistence_def map_err_def
          rotate_guarded_def sql_def ret_def swapped_def retired_hash_def) blast
    finally show ?thesis .
  qed
  from this [of "(advance w)\<lparr>txn_at := Some (clock (sched w) (tick w))\<rparr>"] obtain v' nonce t where
    body: "refresh_body E a None ((advance w)\<lparr>txn_at := Some (clock (sched w) (tick w))\<rparr>) = (Inr (Inr ()), v')" "sched v' = sched w"
      "db v' = (db w)\<lparr>credentials := swapped E row (cp_refresh_token stored)
      (seal (oe_gcm E) (oe_key E) (oe_nonce E nonce) a Credential (payload_encode
         \<lparr>cp_access_token = tr_access_token response, cp_refresh_token = tr_refresh_token response\<rparr>)) t (credentials (db w))\<rparr>" by auto
  have "\<not> fault_now w" "\<not> fault_now v'" using assms(1) body(2) by (simp_all add: fault_now_def)
  with body(1) have "refresh E a None w = (Inr (), (advance v')\<lparr>txn_at := txn_at w\<rparr>)"
    by (simp add: refresh_def transaction_def bind_io_def of_result_def)
  then show ?thesis using body(2,3) by (intro exI [of _ "(advance v')\<lparr>txn_at := txn_at w\<rparr>"] exI [of _ nonce] exI [of _ t]) simp
qed

definition demo_tokens :: "(string \<times> member_value) list" where
  "demo_tokens = [(''access_token'', VStr ''b''), (''expires_in'', VNum 60), (''refresh_token'', VStr ''s'')]"

definition demo_identity :: string where
  "demo_identity = [CHR ''{'', quote, CHR ''d'', CHR ''a'', CHR ''t'', CHR ''a'', quote, CHR '':'']
     @ print_object [(''id'', VStr ''p7'')] @ [CHR ''}'']"

definition demo_http :: http where
  "demo_http q t = Inr \<lparr>hr_status = 200, hr_headers = (\<lambda>_. None), hr_content_length = None,
     hr_chunks = [as_bytes (if hq_url q = ''u'' then demo_identity else print_object demo_tokens)], hr_broken = None\<rparr>"

definition demo_oauth :: oauth_env where
  "demo_oauth = \<lparr>oe_contracts = demo_contracts, oe_gcm = demo_gcm, oe_key = [], oe_nonce = (\<lambda>_. replicate 12 0),
     oe_base64url = (\<lambda>_. []), oe_add_seconds = (\<lambda>t n. Some (t + int n * 1000000)),
     oe_client = \<lparr>tc_http = demo_http, tc_token_url = ''t'', tc_authenticated_user_url = ''u'', tc_revocation_url = ''r'',
       tc_client_id = None, tc_client_secret = None\<rparr>,
     oe_oauth = \<lparr>oc_authorize_url = [], oc_token_url = ''t'', oc_revocation_url = ''r'', oc_client_id = None,
       oc_client_secret = None, oc_redirect_uri = Some ''x'', oc_read_scopes = REQUIRED_SCOPES, oc_intent_ttl_seconds = 60\<rparr>\<rparr>"

definition demo_pair :: credential where
  "demo_pair = \<lparr>cred_id = 300, cred_account_id = 7,
     cred_encrypted_payload = seal demo_gcm [] (replicate 12 0) 7 Credential
       (payload_encode \<lparr>cp_access_token = ''a'', cp_refresh_token = ''r''\<rparr>),
     cred_granted_scopes = [''users.read''], cred_status = CActive, cred_activation_outcome = AccAccepted,
     cred_expires_at = None, cred_superseded_refresh_hash = None, cred_created_at = 5\<rparr>"

definition demo_connected :: archive where
  "demo_connected = demo_archive\<lparr>credentials := [demo_pair]\<rparr>"


lemma demo_tokens_form: "post_token_form (oe_client demo_oauth) form w =
   (Inr \<lparr>tr_access_token = ''b'', tr_refresh_token = ''s'', tr_expires_in = 60, tr_scope = None\<rparr>, advance w)"
proof (rule post_token_form_run [where body = "print_object demo_tokens"])
  have printed: "print_object demo_tokens = [CHR ''{'', quote] @ ''access_token'' @ [quote, CHR '':'', quote, CHR ''b'', quote, CHR '','', quote]
      @ ''expires_in'' @ [quote, CHR '':'', CHR ''6'', CHR ''0'', CHR '','', quote] @ ''refresh_token'' @ [quote, CHR '':'', quote, CHR ''s'', quote, CHR ''}'']"
    by (simp add: print_object_def demo_tokens_def print_member_def escape_char_def show_nat.simps char_of_def bit_0)
  show "ascii (print_object demo_tokens)" "length (print_object demo_tokens) \<le> 65536" unfolding printed by (simp_all add: ascii_def)
  show "parse_token_response (print_object demo_tokens) =
     Inr \<lparr>tr_access_token = ''b'', tr_refresh_token = ''s'', tr_expires_in = 60, tr_scope = None\<rparr>"
    using parse_printed [of demo_tokens "''b''" 60 "Some ''s''" None]
    by (simp add: demo_tokens_def plain_key_def is_alphanumeric_def is_digit_def is_upper_def is_lower_def)
qed (simp add: demo_oauth_def demo_http_def)

lemma demo_schedule_clear [simp]: "\<not> faults (sched (demo_world d)) t"
  by (simp add: demo_world_def demo_schedule_def)

lemma storable_char: "of_char c < (128 :: nat) \<Longrightarrow> storable [c]"
  by (rule ascii_texts) (simp_all add: ascii_def)

lemma demo_pair_active: "active_credential 7 (db (demo_world demo_connected)) = Some demo_pair"
  by (simp add: active_credential_def demo_world_def demo_connected_def demo_pair_def)

lemma demo_pair_opens: "open_credential demo_oauth 7 demo_pair = Inr \<lparr>cp_access_token = ''a'', cp_refresh_token = ''r''\<rparr>"
  by (rule open_sealed_credential [where nonce = "replicate 12 0"])
     (simp_all add: demo_oauth_def demo_gcm_laws demo_pair_def NONCE_LEN_def storable_char)

lemma demo_refreshed:
  "\<exists>w1 row1. refresh demo_oauth 7 None (demo_world demo_connected) = (Inr (), w1)
     \<and> active_credential 7 (db w1) = Some row1 \<and> open_credential demo_oauth 7 row1 = Inr \<lparr>cp_access_token = ''b'', cp_refresh_token = ''s''\<rparr>
     \<and> length (credentials (db w1)) = 1"
proof -
  have "keyed_by cred_id (credentials (db (demo_world demo_connected)))"
    by (simp add: demo_world_def demo_connected_def keyed_by_def)
  from refresh_run [OF demo_schedule_clear demo_pair_active demo_pair_opens demo_tokens_form _ this, of "\<lambda>t. t + 60000000"]
  obtain w1 nonce t where w1: "refresh demo_oauth 7 None (demo_world demo_connected) = (Inr (), w1)"
    and d: "db w1 = (db (demo_world demo_connected))\<lparr>credentials := swapped demo_oauth demo_pair ''r''
      (seal (oe_gcm demo_oauth) (oe_key demo_oauth) (oe_nonce demo_oauth nonce) 7 Credential (payload_encode
         \<lparr>cp_access_token = ''b'', cp_refresh_token = ''s''\<rparr>)) t (credentials (db (demo_world demo_connected)))\<rparr>"
    by (auto simp: demo_oauth_def)
  let ?row1 = "rotated (seal (oe_gcm demo_oauth) (oe_key demo_oauth) (oe_nonce demo_oauth nonce) 7 Credential (payload_encode
         \<lparr>cp_access_token = ''b'', cp_refresh_token = ''s''\<rparr>)) (Some t) (retired_hash demo_oauth ''r'') demo_pair"
  have "active_credential 7 (db w1) = Some ?row1" unfolding d by (rule swapped_active [OF demo_pair_active])
  moreover have "open_credential demo_oauth 7 ?row1 = Inr \<lparr>cp_access_token = ''b'', cp_refresh_token = ''s''\<rparr>"
    by (rule open_sealed_credential [where nonce = "replicate 12 0"])
       (simp_all add: demo_oauth_def demo_gcm_laws NONCE_LEN_def storable_char rotated_def)
  moreover have "length (credentials (db w1)) = 1"
    by (simp add: d swapped_def update_where_def demo_world_def demo_connected_def)
  ultimately show ?thesis using w1 by blast
qed

theorem refresh_effects_witness:
  "\<exists>w1. refresh demo_oauth 7 None (demo_world demo_connected) = (Inr (), w1) \<and> accounts (db w1) = accounts demo_connected
     \<and> map cred_encrypted_payload (credentials (db w1)) = [seal demo_gcm [] (replicate 12 0) 7 Credential
         (payload_encode \<lparr>cp_access_token = ''b'', cp_refresh_token = ''s''\<rparr>)]
     \<and> map cred_expires_at (credentials (db w1)) = [Some (clock demo_schedule 4 + 60000000)]"
proof -
  obtain w1 where w1: "refresh demo_oauth 7 None (demo_world demo_connected) = (Inr (), w1)" using demo_refreshed by blast
  have w: "tick (demo_world demo_connected) = 0" "sched (demo_world demo_connected) = demo_schedule" "db (demo_world demo_connected) = demo_connected"
    by (simp_all add: demo_world_def)
  from refresh_effects [OF w1] obtain answer response t where e: "tc_http (oe_client demo_oauth) (refresh_request (oe_client demo_oauth) ''r'') 2 = Inr answer"
    "token_answer answer = Inr response" "oe_add_seconds demo_oauth (clock demo_schedule 4) (tr_expires_in response) = Some t"
    "db w1 = demo_connected\<lparr>credentials := swapped demo_oauth demo_pair ''r''
        (seal (oe_gcm demo_oauth) (oe_key demo_oauth) (oe_nonce demo_oauth 3) 7 Credential (payload_encode
           \<lparr>cp_access_token = tr_access_token response, cp_refresh_token = tr_refresh_token response\<rparr>)) t (credentials demo_connected)\<rparr>"
    using demo_pair_active demo_pair_opens by (auto simp: w numeral_2_eq_2)
  have "response = \<lparr>tr_access_token = ''b'', tr_refresh_token = ''s'', tr_expires_in = 60, tr_scope = None\<rparr>"
    using demo_tokens_form [of _ "(demo_world demo_connected)\<lparr>tick := 2\<rparr>"]
      refresh_token_form_run [of "oe_client demo_oauth" "''r''" "(demo_world demo_connected)\<lparr>tick := 2\<rparr>"] e(1,2)
    by (simp add: refresh_token_form_def)
  with w1 e(3,4) show ?thesis
    by (auto simp: demo_connected_def swapped_def update_where_def rotated_def rotatable_def demo_pair_def demo_oauth_def)
qed

theorem retired_token_reuse_detected_witness:
  "\<exists>w1. refresh demo_oauth 7 None (demo_world demo_connected) = (Inr (), w1)
     \<and> fst (refresh demo_oauth 7 (Some ''r'') w1) \<in> {Inl RefreshReplay, Inl FlowPersistence}"
proof -
  obtain w1 row1 where w1: "refresh demo_oauth 7 None (demo_world demo_connected) = (Inr (), w1)"
    "active_credential 7 (db w1) = Some row1" "open_credential demo_oauth 7 row1 = Inr \<lparr>cp_access_token = ''b'', cp_refresh_token = ''s''\<rparr>"
    using demo_refreshed by blast
  obtain r w2 where "refresh demo_oauth 7 (Some ''r'') w1 = (r, w2)" by fastforce
  with retired_token_reuse_detected [OF w1(1) demo_pair_active demo_pair_opens w1(2,3), of r w2] w1(1) show ?thesis by auto
qed

lemma demo_identity_text: "demo_identity = [CHR ''{'', quote, CHR ''d'', CHR ''a'', CHR ''t'', CHR ''a'', quote, CHR '':'',
     CHR ''{'', quote, CHR ''i'', CHR ''d'', quote, CHR '':'', quote, CHR ''p'', CHR ''7'', quote, CHR ''}'', CHR ''}'']"
  by (simp add: demo_identity_def print_object_def print_member_def escape_char_def)

lemma demo_identity_data: "extract_object_member demo_identity ''data'' = Inr (Some (print_object [(''id'', VStr ''p7'')]))"
proof -
  have inner: "print_object [(''id'', VStr ''p7'')] = [CHR ''{'', quote, CHR ''i'', CHR ''d'', quote, CHR '':'', quote, CHR ''p'', CHR ''7'', quote, CHR ''}'']"
    by (simp add: print_object_def print_member_def escape_char_def)
  have t: "trim s = s" if "s \<noteq> []" "solid (hd s)" "solid (last s)" for s using that by (rule trim_solid)
  show ?thesis
    by (simp add: extract_object_member_def find_member_def split_top_level_members_def strip_ends_def demo_identity_text inner t solid_def
        split_member_def starts_with_def ends_with_def)
qed

lemma demo_user: "authenticated_user_id (oe_client demo_oauth) access w = (Inr ''p7'', advance w)"
proof -
  have "ascii demo_identity" "length demo_identity \<le> 65536" unfolding demo_identity_text by (simp_all add: ascii_def)
  moreover have "extract_string_member (print_object [(''id'', VStr ''p7'')]) ''id'' = Inr (Some ''p7'')"
    by (subst extract_string_printed) (simp_all add: plain_key_def is_alphanumeric_def is_digit_def is_upper_def is_lower_def)
  ultimately show ?thesis
    by (simp add: authenticated_user_id_def send_request_def io_defs demo_oauth_def demo_http_def bounded_response_def MAX_BODY_BYTES_def
        is_success_def ascii_texts demo_identity_data bind_result_def ok_or_def)
qed

lemmas archive_run = io_defs advance_def fault_now_def db_now_def demo_world_def demo_schedule_def demo_connected_def
  demo_archive_def empty_archive_def demo_account_def persistence_def insert_with_status_def insert_credential_row_def insert_unique_def
  account_exists_def set_account_state_def update_where_def seal_payload_def expiry_def

definition demo_accepted :: accepted_callback where
  "demo_accepted = \<lparr>ac_intent_id = 400, ac_internal_user_id = 70, ac_purpose = BookmarkWrite 7,
     ac_requested_scopes = REQUIRED_SCOPES, ac_code_verifier = ''v''\<rparr>"

lemma demo_redirect: "redirect_target demo_oauth w = (Inr ''x'', w)"
  by (simp add: redirect_target_def configured_def demo_oauth_def of_result_def)

lemma demo_no_missing: "missing_scopes REQUIRED_SCOPES REQUIRED_SCOPES = []"
  by (simp add: missing_scopes_exact)

definition demo_second :: credential where
  "demo_second = \<lparr>cred_id = 3000, cred_account_id = 7,
     cred_encrypted_payload = seal demo_gcm [] (replicate 12 0) 7 Credential
       (payload_encode \<lparr>cp_access_token = ''b'', cp_refresh_token = ''s''\<rparr>),
     cred_granted_scopes = REQUIRED_SCOPES, cred_status = CActive, cred_activation_outcome = AccAccepted,
     cred_expires_at = Some 1860000002, cred_superseded_refresh_hash = None, cred_created_at = 1800000003\<rparr>"

lemma demo_oauth_simps [simp]:
  "oe_gcm demo_oauth = demo_gcm" "oe_key demo_oauth = []" "oe_nonce demo_oauth t = replicate 12 0"
  "oe_add_seconds demo_oauth u n = Some (u + int n * 1000000)" "oc_read_scopes (oe_oauth demo_oauth) = REQUIRED_SCOPES"
  "write_scopes (oe_oauth demo_oauth) = REQUIRED_SCOPES"
  by (simp_all add: demo_oauth_def write_scopes_def REQUIRED_SCOPES_def)

lemma demo_reconnected:
  "\<exists>w1. exchange_code demo_oauth 7 demo_accepted ''c'' (demo_world demo_connected) = (Inr (), w1)
     \<and> credentials (db w1) = [demo_pair, demo_second] \<and> sched w1 = demo_schedule"
  by (simp add: exchange_code_def demo_redirect exchange_code_form_def demo_tokens_form bind_io_def Let_def observed_grant_def demo_no_missing
      store_connection_def)
     (simp add: archive_run demo_pair_def demo_second_def)

lemma demo_second_opens: "open_credential demo_oauth 7 demo_second = Inr \<lparr>cp_access_token = ''b'', cp_refresh_token = ''s''\<rparr>"
  by (rule open_sealed_credential [where nonce = "replicate 12 0"])
     (simp_all add: demo_gcm_laws demo_second_def NONCE_LEN_def storable_char)

lemma demo_notify: "notify_revocation (oe_client demo_oauth) token w = (Inr (), advance w)"
proof -
  have "length (print_object demo_tokens) \<le> 65536"
    by (simp add: print_object_def demo_tokens_def print_member_def escape_char_def show_nat.simps)
  then show ?thesis
    by (simp add: notify_revocation_def post_form_raw_def send_request_def io_defs demo_oauth_def demo_http_def bounded_response_def
        MAX_BODY_BYTES_def)
qed

lemma revoke_run:
  assumes "\<And>t. \<not> faults (sched w) t" and "active_credential a (db w) = Some row" and "open_credential E a row = Inr stored"
    and "\<And>v :: archive world. notify_revocation (oe_client E) (cp_access_token stored) v = (Inr (), advance v)"
  shows "fst (revoke E a w) = Inr ()"
proof -
  let ?v = "(advance w)\<lparr>txn_at := Some (clock (sched w) (tick w))\<rparr>"
  have f: "\<not> fault_now v" if "sched v = sched w" for v :: "archive world" using assms(1) that by (simp add: fault_now_def)
  have "persistence (lock_active_for_account a) ?v = (Inr (Some row), advance ?v)"
    using f assms(2) by (simp add: persistence_Inr lock_active_for_account_def query_Inr)
  then have "revoke_body E a ?v = revoke_opened E a row stored (advance ?v)"
    using assms(3) by (simp add: revoke_body_def bind_io_def of_result_def)
  moreover have "\<exists>v'. revoke_opened E a row stored (advance ?v) = (Inr (), v') \<and> sched v' = sched w"
    using f assms(4) by (simp add: revoke_opened_def then_io_def bind_io_def persistence_def map_err_def scrub_revoke_def set_account_state_def
        exec_def sql_def read_clock_def)
  ultimately show ?thesis using f by (auto simp: revoke_def transaction_def)
qed

theorem revocation_leaves_older_credential_witness:
  "\<exists>w1 w2. exchange_code demo_oauth 7 demo_accepted ''c'' (demo_world demo_connected) = (Inr (), w1)
     \<and> revoke demo_oauth 7 w1 = (Inr (), w2)
     \<and> (\<exists>c' \<in> set (credentials (db w2)). cred_account_id c' = 7 \<and> cred_status c' = CActive)"
proof -
  obtain w1 where w1: "exchange_code demo_oauth 7 demo_accepted ''c'' (demo_world demo_connected) = (Inr (), w1)"
    "credentials (db w1) = [demo_pair, demo_second]" "sched w1 = demo_schedule" using demo_reconnected by blast
  have "active_credential 7 (db w1) = Some demo_second"
    by (simp add: active_credential_def w1(2) demo_pair_def demo_second_def)
  from revoke_run [OF _ this demo_second_opens demo_notify] obtain w2 where w2: "revoke demo_oauth 7 w1 = (Inr (), w2)"
    by (metis demo_schedule_clear demo_world_def prod.collapse w1(3) world.select_convs(3))
  have "demo_pair \<in> set (credentials (db (demo_world demo_connected)))" by (simp add: demo_world_def demo_connected_def)
  from revocation_leaves_older_credential [OF w1(1) w2 this] w1 w2 show ?thesis
    by (auto simp: demo_pair_def)
qed

section \<open>A concrete write grant\<close>

definition demo_intent :: new_intent where
  "demo_intent = \<lparr>ni_internal_user_id = 70, ni_account_id = Some 7, ni_purpose = ''bookmark_write'',
     ni_state_hash = state_digest demo_oauth ''s'',
     ni_code_verifier_encrypted = seal demo_gcm [] (replicate 12 0) 70 IntentVerifier (as_bytes ''v''), ni_nonce = [],
     ni_redirect_uri = ''x'', ni_requested_scopes = REQUIRED_SCOPES, ni_created_at = 0, ni_expires_at = 9000000000\<rparr>"

definition demo_intended :: archive where
  "demo_intended = demo_connected\<lparr>oauth_intents := [intent_row 400 demo_intent]\<rparr>"

lemma demo_granted:
  "\<exists>w1. exchange_bookmark_write_code demo_oauth demo_accepted ''c'' (demo_world demo_intended) = (Inr (), w1)"
  by (simp add: exchange_bookmark_write_code_def demo_accepted_def demo_redirect exchange_code_form_def demo_tokens_form bind_io_def
      Let_def observed_grant_def demo_no_missing grant_write_def demo_user)
     (simp add: archive_run activate_def early_transaction_def activate_body_def lock_account_def replace_credential_def expire_active_def
      upsert_authorization_def conclude_grant_def demo_intended_def demo_pair_def select_one_def intent_row_def)

theorem write_grant_bound_witness:
  "\<exists>w1. exchange_bookmark_write_code demo_oauth demo_accepted ''c'' (demo_world demo_intended) = (Inr (), w1)
     \<and> (\<exists>c. active_of 7 (credentials (db w1)) = [c]) \<and> fst (require_write_authority 7 w1) \<in> {Inr (), Inl WbQuery}"
proof -
  obtain w1 where w1: "exchange_bookmark_write_code demo_oauth demo_accepted ''c'' (demo_world demo_intended) = (Inr (), w1)"
    using demo_granted by blast
  from write_grant_bound [OF this, of 7] show ?thesis using w1 by (auto simp: demo_accepted_def)
qed

section \<open>A concrete callback\<close>

lemma demo_stored: "stored_intent demo_oauth (replicate 12 0) ''s'' ''v'' (BookmarkWrite 7) demo_intent"
  by (simp add: stored_intent_def demo_intent_def)

lemma demo_issued:
  "\<exists>w1. insert_intent demo_intent (demo_world demo_connected) = (Inr 0, w1) \<and> sched w1 = demo_schedule \<and> tick w1 = 1"
  by (simp add: insert_intent_def archive_run purpose_bound_def demo_intent_def)

theorem issued_intent_comes_back_witness:
  "\<exists>w1 w2. insert_intent demo_intent (demo_world demo_connected) = (Inr 0, w1)
     \<and> resolve_callback demo_oauth ''s'' w1 = (Inr (CallbackAccepted \<lparr>ac_intent_id = 0, ac_internal_user_id = 70,
          ac_purpose = BookmarkWrite 7, ac_requested_scopes = REQUIRED_SCOPES, ac_code_verifier = ''v''\<rparr>), w2)"
proof -
  obtain w1 where w1: "insert_intent demo_intent (demo_world demo_connected) = (Inr 0, w1)" "sched w1 = demo_schedule" "tick w1 = 1"
    using demo_issued by blast
  have "utf8_valid (as_bytes ''v'')" using storable_char [of "CHR ''v''"] by (simp add: storable_def)
  then show ?thesis
    using issued_intent_comes_back [OF demo_stored w1(1)] w1
    by (auto simp: demo_schedule_def demo_gcm_laws NONCE_LEN_def demo_intent_def)
qed

theorem callback_accepted_once_witness:
  "distinct (fst (run_calls demo_oauth [CallResolve ''s'', CallRefresh 7 None, CallResolve ''s''] (demo_world demo_intended)))
   \<and> hd (fst (run_calls demo_oauth [CallResolve ''s'', CallRefresh 7 None, CallResolve ''s''] (demo_world demo_intended))) = 400"
proof -
  let ?w = "demo_world demo_intended"
  have "keyed_by oin_id (oauth_intents (db ?w))" by (simp add: demo_world_def demo_intended_def keyed_by_def)
  moreover have "accepted_of (fst (resolve_callback demo_oauth ''s'' ?w)) = [400]"
  proof -
    have row: "select_one (\<lambda>i. oin_state_hash i = state_digest demo_oauth ''s'') (oauth_intents (db ?w)) = Some (intent_row 400 demo_intent)"
      by (simp add: demo_world_def demo_intended_def select_one_def intent_row_def demo_intent_def)
    have v: "utf8_valid (as_bytes ''v'')" using storable_char [of "CHR ''v''"] by (simp add: storable_def)
    have "open_verifier demo_oauth (intent_row 400 demo_intent) = Inr (CallbackAccepted
        \<lparr>ac_intent_id = 400, ac_internal_user_id = 70, ac_purpose = BookmarkWrite 7, ac_requested_scopes = REQUIRED_SCOPES, ac_code_verifier = ''v''\<rparr>)"
      using open_verifier_stored [OF demo_stored _ _ _ v, of 400] by (simp add: demo_gcm_laws NONCE_LEN_def demo_intent_def)
    then show ?thesis
      using resolve_callback_run [OF demo_schedule_clear row]
      by (simp add: Let_def demo_world_def demo_schedule_def demo_intended_def unconsumed_def intent_row_def demo_intent_def)
  qed
  ultimately show ?thesis
    using callback_accepted_once [of demo_oauth "[CallResolve ''s'', CallRefresh 7 None, CallResolve ''s'']" ?w _ _, OF prod.collapse [symmetric]]
    by (simp add: case_prod_beta Let_def)
qed

end
