(* ===== verification/Provider_Correct.thy ===== *)
theory Provider_Correct
  imports Provider Writeback_Effects Oauth_Examples
begin

text \<open>
  The classification of answers agrees with a verdict on the whole answer; the official adapter only reads the archive; a write that is
  reported done rests on a confirming answer to a request of the account itself.
\<close>

section \<open>Classification\<close>

lemma read_chunks_concat:
  assumes "length body \<le> MAX_RESPONSE_SIZE"
  shows "read_chunks status evidence body chunks broken =
    (if MAX_RESPONSE_SIZE < length body + length (concat chunks) then Inl (PUncertain (Some status) evidence)
     else case broken of Some f \<Rightarrow> Inl (classify_transport f) | None \<Rightarrow> Inr (body @ concat chunks))"
  using assms by (induction chunks arbitrary: body) (auto split: option.split)

text \<open>
  What an answer means, stated on the whole answer: it confirms the mutation when it is complete, small enough and says so; every other
  answer is a refusal, a lost authorization, a rate limit, or leaves the outcome open.
\<close>

definition oversized :: "http_response \<Rightarrow> bool" where
  "oversized r \<longleftrightarrow> MAX_RESPONSE_SIZE < length (concat (hr_chunks r)) \<or> (\<exists>n. hr_content_length r = Some n \<and> MAX_RESPONSE_SIZE < n)"

definition says :: "official_provider \<Rightarrow> bool \<Rightarrow> http_response \<Rightarrow> bool" where
  "says V expected r \<longleftrightarrow> (\<exists>v. op_parse_json V (concat (hr_chunks r)) = Some v
     \<and> json_pointer [''data'', ''bookmarked''] v = Some (JBool expected))"

definition confirms :: "official_provider \<Rightarrow> bool \<Rightarrow> http_response \<Rightarrow> bool" where
  "confirms V expected r \<longleftrightarrow> is_success (hr_status r) \<and> \<not> oversized r \<and> hr_broken r = None \<and> says V expected r"

definition refusal :: "http_response \<Rightarrow> provider_error" where
  "refusal r =
     (if hr_status r \<in> {401, 403} then AuthorizationLost (response_evidence r)
      else if hr_status r = 429 then RateLimited (Option.bind (hr_headers r ''x-rate-limit-reset'') parse_i64) (response_evidence r)
      else DefiniteRefusal (hr_status r) (response_evidence r))"

definition verdict :: "official_provider \<Rightarrow> bool \<Rightarrow> http_response \<Rightarrow> provider_error + provider_evidence" where
  "verdict V expected r =
     (if confirms V expected r then Inr (response_evidence r)
      else if hr_status r \<in> {400 ..< 500} then Inl (refusal r)
      else if is_success (hr_status r) \<and> \<not> oversized r \<and> hr_broken r \<noteq> None then Inl (classify_transport (the (hr_broken r)))
      else Inl (PUncertain (Some (hr_status r)) (response_evidence r)))"

lemma classify_response_verdict: "classify_response V expected r = verdict V expected r"
proof (cases "is_success (hr_status r)")
  case False
  then show ?thesis
    by (auto simp: classify_response_def verdict_def confirms_def refusal_def Let_def)
next
  case True
  then have s: "200 \<le> hr_status r" "hr_status r < 300" by (simp_all add: is_success_def)
  then have v: "verdict V expected r =
     (if confirms V expected r then Inr (response_evidence r)
      else if \<not> oversized r \<and> hr_broken r \<noteq> None then Inl (classify_transport (the (hr_broken r)))
      else Inl (PUncertain (Some (hr_status r)) (response_evidence r)))"
    using True by (simp add: verdict_def)
  show ?thesis
    unfolding v classify_response_def Let_def read_chunks_concat [of "[]", simplified]
    using s True by (auto simp: confirms_def oversized_def says_def split: option.splits)
qed

text \<open>
  C12. Reading an answer piece by piece agrees with judging it as a whole. The client, which reads chunks under a size limit and stops early, gives
  for every answer the verdict on the whole answer: the mutation is confirmed exactly by a complete successful answer of at most 64 KiB
  whose document says so; an answer with a client error status is a refusal, a lost authorization or a rate limit; everything else leaves the outcome open (or, for a body that
  breaks off, is the transport's failure).
\<close>

theorem answer_classified_as_whole:
  "classify_response V expected r = verdict V expected r"
  by (rule classify_response_verdict)

section \<open>The contract of a provider\<close>

text \<open>
  What the write-back service relies on: a provider only reads the archive. Every live request is then a sequence of steps of
  the service's machine.
\<close>

locale reading_provider =
  fixes P :: mutation_provider
  assumes reads_only: "within (=) (P act a post)"
begin

lemma executes_in_steps:
  assumes "execute E P rq act w = (r, w')" and "\<And>n d. writeback_step\<^sup>*\<^sup>* d (wb_others E n d)"
  shows "writeback_step\<^sup>*\<^sup>* (db w) (db w')"
  using execute_steps [OF assms(1)] reads_only assms(2) by blast

lemma answers_and_stores:
  assumes "execute E P rq act w = (Inr res, w1)" and "valid_request rq = Inr ()"
    and "select_one (\<lambda>op. wop_key op = (rq_account_id rq, idempotency_digest (wb_contracts E) rq)) (bookmark_write_operations (db w)) = None"
  obtains op where "op \<in> set (bookmark_write_operations (db w1))" "wop_id op = wr_operation_id res"
    "stored_write_status (wop_status op) = Some (replayed (wr_status res))"
  using answered_fresh [OF assms(1) reads_only assms(2,3)] by (auto dest: select_one_Some)

end

lemma provider_credential_reads: "within (=) (provider_credential V a)"
  unfolding provider_credential_def by (intro reading.within_intros)

lemma send_reads: "within (=) (send V verb url payload post expected)"
  unfolding send_def
  by (intro reading.within_intros) (simp add: within_def send_request_def)

interpretation official: reading_provider "official_mutation V" for V
proof
  show "within (=) (official_mutation V act a post)" for act a post
    by (cases act) (simp_all add: provider_add_def provider_remove_def, (intro reading.within_intros provider_credential_reads send_reads)+)
qed

section \<open>What a confirmed write rests on\<close>

text \<open>The request of a mutation, for the account's provider identity and with its access token.\<close>

fun mutation_request :: "official_provider \<Rightarrow> write_action \<Rightarrow> string \<Rightarrow> string \<Rightarrow> string \<Rightarrow> http_request" where
  "mutation_request V WAdd user token post =
     \<lparr>hq_method = ''POST'', hq_url = op_base_url V @ ''/2/users/'' @ user @ ''/bookmarks'', hq_auth = BearerAuth token,
      hq_content_type = Some ''application/json'', hq_body = Some (op_print_json V (JObj [(''tweet_id'', JStr post)]))\<rparr>"
| "mutation_request V WRemove user token post =
     \<lparr>hq_method = ''DELETE'', hq_url = op_base_url V @ ''/2/users/'' @ user @ ''/bookmarks/'' @ post, hq_auth = BearerAuth token,
      hq_content_type = None, hq_body = None\<rparr>"

definition writes_as :: "official_provider \<Rightarrow> uuid \<Rightarrow> archive \<Rightarrow> string \<Rightarrow> string \<Rightarrow> bool" where
  "writes_as V a d user token \<longleftrightarrow> (\<exists>x c r payload opened.
     x \<in> set (accounts d) \<and> acc_id x = a \<and> acc_state x = Connected \<and> acc_provider_user_id x = user
     \<and> active_credential a d = Some c \<and> r \<in> set (bookmark_write_authorizations d) \<and> wau_account_id r = a \<and> wau_status r = WActive
     \<and> scopes_cover (cred_granted_scopes c) (wau_granted_scopes r)
     \<and> open_envelope (op_gcm V) (op_key V) a Credential (cred_encrypted_payload c) = Inr opened
     \<and> payload_decode opened = Some payload \<and> cp_access_token payload = token)"

lemma provider_credential_Inr:
  assumes "provider_credential V a w = (Inr (user, payload), w')"
  shows "writes_as V a (db w) user (cp_access_token payload)" and "w' = advance w"
proof -
  from assms obtain enc cs ss opened where s: "credential_state a (db w) = Some (user, enc, cs, ss)" "scopes_cover cs ss"
    "open_envelope (op_gcm V) (op_key V) a Credential enc = Inr opened" "payload_decode opened = Some payload"
    and w: "w' = advance w"
    by (auto simp: provider_credential_def io_run scopes_cover_def list_ex_iff list_all_iff split: option.splits if_splits sum.splits)
  show "w' = advance w" by (rule w)
  show "writes_as V a (db w) user (cp_access_token payload)"
    using s unfolding writes_as_def credential_state_def
    by (fastforce split: option.splits dest: select_one_Some)
qed

lemma send_Inr:
  assumes "send V verb url payload post expected w = (Inr ev, w')"
  obtains H r where "op_http V = Some H" "H \<lparr>hq_method = verb, hq_url = url, hq_auth = BearerAuth (cp_access_token payload),
             hq_content_type = map_option (\<lambda>_. ''application/json'') post,
             hq_body = map_option (\<lambda>p. op_print_json V (JObj [(''tweet_id'', JStr p)])) post\<rparr> (tick w) = Inr r"
    "confirms V expected r" "ev = response_evidence r"
  using assms
  by (auto simp: send_def io_run send_request_def classify_response_verdict verdict_def split: option.splits if_splits)

lemma official_Inr:
  assumes "official_mutation V act a post w = (Inr ev, w')"
  obtains user token H r where "writes_as V a (db w) user token" "op_http V = Some H"
    "H (mutation_request V act user token post) (Suc (tick w)) = Inr r" "confirms V (act = WAdd) r" "ev = response_evidence r"
proof -
  note run = provider_add_def provider_remove_def bind_io_Inr
  from assms obtain user payload w1 verb url body where
    c: "provider_credential V a w = (Inr (user, payload), w1)"
    and s: "send V verb url payload body (act = WAdd) w1 = (Inr ev, w')"
    and q: "\<lparr>hq_method = verb, hq_url = url, hq_auth = BearerAuth (cp_access_token payload),
       hq_content_type = map_option (\<lambda>_. ''application/json'') body,
       hq_body = map_option (\<lambda>p. op_print_json V (JObj [(''tweet_id'', JStr p)])) body\<rparr>
       = mutation_request V act user (cp_access_token payload) post"
    by (cases act) (auto simp: run split: prod.splits)
  from s show thesis
    by (rule send_Inr) (use provider_credential_Inr [OF c] q in \<open>auto intro: that\<close>)
qed

definition authority_tables :: "archive \<Rightarrow> account list \<times> credential list \<times> write_authorization list" where
  "authority_tables d = (accounts d, credentials d, bookmark_write_authorizations d)"

lemma writes_as_tables: "authority_tables d = authority_tables d' \<Longrightarrow> writes_as V a d user token = writes_as V a d' user token"
  by (simp add: authority_tables_def writes_as_def active_credential_def)

lemma authority_tables_frame:
  "request_frame d d' \<Longrightarrow> authority_tables d' = authority_tables d" "budget_frame d d' \<Longrightarrow> authority_tables d' = authority_tables d"
  by (subst request_frame_def [THEN iffD1], assumption, simp add: authority_tables_def)
     (subst budget_frame_def [THEN iffD1], assumption, simp add: authority_tables_def)

lemma consume_transaction_tables:
  "consume_transaction C i rq act now cost w = (Inr x, w') \<Longrightarrow> authority_tables (db w') = authority_tables (db w)"
  by (drule consume_transaction_Inr(2)) (auto simp: authority_tables_def append_audit_def update_operation_def spend_consent_def)

lemma submit_succeeded:
  assumes "submit_admitted E P i rq act now w = (Inr res, w')" and "wr_status res \<in> {Succeeded, ProjectionPending}"
  obtains w1 ev w2 where "P act (rq_account_id rq) (rq_provider_post_id rq) w1 = (Inr ev, w2)"
    "authority_tables (db w1) = authority_tables (db w)"
proof -
  obtain q v where q: "reserve (wb_chrono E) (wb_gate E) (rq_account_id rq) 1 w = (q, v)" by fastforce
  have v: "authority_tables (db v) = authority_tables (db w)"
    by (rule authority_tables_frame(2) [OF withinD [OF gate_budget_frame(1) q]])
  show thesis
  proof (cases q)
    case (Inl e)
    with assms(1) q show thesis
      by (cases e) (auto simp: submit_admitted_def bind_attempt [where m = "reserve _ _ _ _", OF q] io_run)
  next
    case (Inr r)
    with assms(1) q obtain w1 where c: "consume_consent E i rq act now r v = (Inr (), w1)"
      and p: "call_provider E P i rq act w1 = (Inr res, w')"
      by (auto simp: submit_admitted_def bind_attempt [where m = "reserve _ _ _ _", OF q] then_io_Inr)
    obtain oc w2 where oc: "P act (rq_account_id rq) (rq_provider_post_id rq) w1 = (oc, w2)" by fastforce
    from p assms(2) have "\<exists>ev. oc = Inr ev"
      by (cases oc) (auto simp: call_provider_def bind_attempt [where m = "P _ _ _", OF oc] io_run split: provider_error.splits)
    with oc c v show thesis
      by (auto intro!: that simp: consume_transaction_tables [OF consume_consent_Inr [OF c]])
  qed
qed

lemma execute_succeeded:
  assumes "execute E P rq act w = (Inr res, w')" and "wr_status res \<in> {Succeeded, ProjectionPending}"
    and fresh: "(rq_account_id rq, idempotency_digest (wb_contracts E) rq) \<notin> wop_key ` set (bookmark_write_operations (db w))"
  obtains w1 ev w2 where "P act (rq_account_id rq) (rq_provider_post_id rq) w1 = (Inr ev, w2)"
    "authority_tables (db w1) = authority_tables (db w)"
proof -
  have valid: "valid_request rq = Inr ()"
    using assms(1) by (auto simp: execute_def then_io_Inr of_result_Inr)
  from assms(1) obtain cl v where cl: "claim_operation (wb_contracts E) rq act Live w = (Inr cl, v)"
    by (auto simp: execute_valid [OF valid] bind_io_Inr)
  from claim_fresh [OF this fresh] obtain i where i: "cl = Execute i" by blast
  with assms(1) cl have "execute_claimed E P i rq act v = (Inr res, w')"
    by (simp add: execute_valid [OF valid] bind_io_def)
  then obtain adm u where adm: "evaluate_local E rq act (clock (sched v) (tick v)) (advance v) = (Inr adm, u)"
    and rest: "(case adm of
         Admitted _ \<Rightarrow> submit_admitted E P i rq act (clock (sched v) (tick v))
       | AdmAlreadySatisfied observed \<Rightarrow>
           then_io (complete_operation (wb_contracts E) i WSucceeded ''already_satisfied'' (Some observed))
             (ret \<lparr>wr_operation_id = i, wr_status = AlreadySatisfied\<rparr>)
       | AdmRefused class reset \<Rightarrow>
           then_io (refuse_operation (wb_contracts E) i class reset)
             (throw (admission_refusal_error class reset))) u = (Inr res, w')"
    by (auto simp: execute_claimed_def bind_read_clock bind_io_Inr)
  from rest assms(2) have sub: "submit_admitted E P i rq act (clock (sched v) (tick v)) u = (Inr res, w')"
    by (auto simp: io_run split: local_admission.splits)
  have "authority_tables (db u) = authority_tables (db w)"
    using authority_tables_frame(1) [OF withinD [OF claim_request cl]] withinD [OF evaluate_local_reads adm] by simp
  with submit_succeeded [OF sub assms(2)] that show thesis by metis
qed

text \<open>
  C13. A write that is reported done was confirmed by the provider. When a fresh live request through the official adapter is answered as done (projected or
  still to be projected), one request for exactly this action and post was sent with the sealed credential of the connected
  account, whose scopes and active write authorization cover a write, and the provider's answer confirmed the new state; nothing is reported done on the
  strength of an unreadable, oversized, contradicting or failed answer.
\<close>

theorem done_write_was_confirmed:
  assumes "execute E (official_mutation V) rq act w = (Inr res, w')" and "wr_status res \<in> {Succeeded, ProjectionPending}"
    and "(rq_account_id rq, idempotency_digest (wb_contracts E) rq) \<notin> wop_key ` set (bookmark_write_operations (db w))"
  shows "\<exists>user token H t r. writes_as V (rq_account_id rq) (db w) user token \<and> op_http V = Some H
    \<and> H (mutation_request V act user token (rq_provider_post_id rq)) t = Inr r \<and> confirms V (act = WAdd) r"
proof -
  from execute_succeeded [OF assms] obtain w1 ev w2 where
    c: "official_mutation V act (rq_account_id rq) (rq_provider_post_id rq) w1 = (Inr ev, w2)"
    and t: "authority_tables (db w1) = authority_tables (db w)" .
  from c show ?thesis by (rule official_Inr) (use writes_as_tables [OF t] in blast)
qed

definition demo_official :: official_provider where
  "demo_official = with_timeout demo_gcm [] ''https://x/'' (Some (\<lambda>q t. Inr \<lparr>hr_status = 200, hr_headers = (\<lambda>_. None),
     hr_content_length = None, hr_chunks = [], hr_broken = None\<rparr>))
     (\<lambda>_. Some (JObj [(''data'', JObj [(''bookmarked'', JBool True)])])) (\<lambda>_. [])"

definition demo_sealed :: archive where
  "demo_sealed = demo_writable\<lparr>credentials := [demo_credential\<lparr>cred_encrypted_payload := cred_encrypted_payload demo_pair\<rparr>]\<rparr>"

lemma demo_official_sel: "op_gcm demo_official = oe_gcm demo_oauth" "op_key demo_official = oe_key demo_oauth"
  by (simp_all add: demo_official_def with_timeout_def demo_oauth_def)

lemma demo_sealed_opens:
  obtains opened payload where
    "open_envelope (op_gcm demo_official) (op_key demo_official) 7 Credential (cred_encrypted_payload demo_pair) = Inr opened"
    "payload_decode opened = Some payload"
  using demo_pair_opens unfolding open_credential_def demo_official_sel [symmetric] by (auto split: sum.splits option.splits)

lemma demo_official_adds:
  assumes "authority_tables (db w) = authority_tables demo_sealed" and "\<not> fault_now w"
  shows "official_mutation demo_official WAdd 7 ''42'' w = (Inr \<lparr>ev_request_id = None\<rparr>, advance (advance w))"
proof -
  obtain opened payload where o: "open_envelope (op_gcm demo_official) (op_key demo_official) 7 Credential (cred_encrypted_payload demo_pair) = Inr opened"
    "payload_decode opened = Some payload" by (rule demo_sealed_opens)
  have "credential_state 7 (db w) = credential_state 7 demo_sealed"
    using assms(1) by (simp add: authority_tables_def credential_state_def active_credential_def cong: option.case_cong)
  also have "\<dots> = Some (''p7'', cred_encrypted_payload demo_pair, REQUIRED_SCOPES, REQUIRED_SCOPES)"
    by (simp add: credential_state_def demo_sealed_def writeback_data demo_archive_def empty_archive_def demo_defs
        active_credential_def select_one_def)
  finally have c: "provider_credential demo_official 7 w = (Inr (''p7'', payload), advance w)"
    using o assms(2) by (simp add: provider_credential_def io_defs advance_def list_ex_iff)
  have "send demo_official verb url payload post True v = (Inr \<lparr>ev_request_id = None\<rparr>, advance v)" for verb url post v
    by (simp add: send_def demo_official_def with_timeout_def io_defs send_request_def
        classify_response_def is_success_def response_evidence_def Let_def)
  then show ?thesis by (simp add: provider_add_def bind_io_def c)
qed

lemma demo_official_run:
  "fst (execute demo_writeback (official_mutation demo_official) demo_request WAdd (demo_world demo_sealed))
     = Inr \<lparr>wr_operation_id = 0, wr_status = Succeeded\<rparr>"
  by (simp add: archive_eval writeback_data claim_eval admission_eval submit_eval Let_def demo_official_adds demo_sealed_def authority_tables_def
     del: official_mutation.simps)

theorem done_write_was_confirmed_witness:
  "\<exists>token H t r. writes_as demo_official 7 demo_sealed ''p7'' token \<and> op_http demo_official = Some H
     \<and> H (mutation_request demo_official WAdd ''p7'' token ''42'') t = Inr r \<and> confirms demo_official True r"
proof -
  have f: "(7, idempotency_digest (wb_contracts demo_writeback) demo_request) \<notin> wop_key ` set (bookmark_write_operations (db (demo_world demo_sealed)))"
    by (simp add: demo_world_def demo_sealed_def demo_writable_def demo_archive_def empty_archive_def)
  have u: "writes_as demo_official 7 demo_sealed user token \<Longrightarrow> user = ''p7''" for user token
    by (auto simp: writes_as_def demo_sealed_def demo_writable_def demo_archive_def empty_archive_def demo_account_def)
  obtain w' where "execute demo_writeback (official_mutation demo_official) demo_request WAdd (demo_world demo_sealed)
     = (Inr \<lparr>wr_operation_id = 0, wr_status = Succeeded\<rparr>, w')"
    using demo_official_run by (metis prod.collapse)
  note c = done_write_was_confirmed [OF this]
  have "rq_account_id demo_request = 7" "rq_provider_post_id demo_request = ''42''" "db (demo_world demo_sealed) = demo_sealed"
    by (simp_all add: demo_request_def demo_world_def)
  with c f show ?thesis using u by (metis bookmark_write_result.select_convs(2) insertI1)
qed

end
