(* ===== verification/Captures.thy ===== *)
theory Captures
  imports Articles
begin

text \<open>
  Explicit browser captures, \<^verbatim>\<open>x-capture/src/lib.rs\<close>: validation of a command, the status a permalink names, the transaction that
  claims the delivery, stores the capture and queues the operation report, and the consumer loop with what it tells the broker. The
  shared contract crates (decoding and encoding commands, building reports) are the parameter \<open>capture_library\<close>.
\<close>

section \<open>Commands and the contract library\<close>

datatype social_provider = ProviderX | OtherProvider

record capture_request =
  cq_provider :: social_provider
  cq_acquisition :: string
  cq_saved_authority :: string
  cq_operation_id :: uuid
  cq_original_permalink :: string
  cq_captured_at :: string

record command_envelope =
  ce_command_id :: string
  ce_command_type :: string
  ce_tenant_id :: "uuid option"
  ce_payload :: json

datatype unavailability = UDeleted | UInaccessible | UTransient

record capture_library =
  cl_contracts :: contracts
  cl_from_json :: "string \<Rightarrow> command_envelope option"
  cl_to_json :: "command_envelope \<Rightarrow> string option"
  cl_payload :: "json \<Rightarrow> capture_request option"
  cl_parse_time :: "string \<Rightarrow> time option"
  cl_command_id_ok :: "string \<Rightarrow> bool"
  cl_queued_report :: "uuid \<Rightarrow> json option"
  cl_preserved_report :: "uuid \<Rightarrow> uuid \<Rightarrow> json option"
  cl_unavailable_report :: "uuid \<Rightarrow> unavailability \<Rightarrow> json option"
  cl_report_envelope :: "string \<Rightarrow> uuid \<Rightarrow> uuid \<Rightarrow> string \<Rightarrow> string \<Rightarrow> uuid \<Rightarrow> json \<Rightarrow> wire_envelope option"

datatype capture_command_error = CInvalidPayload | CInvalidProvenance | CWrongProvider | CMissingTenant

datatype delivery_error =
    DCommand capture_command_error
  | DPersistence
  | DSerialize
  | DInvalidTimestamp
  | DInvalidIdentifier
  | DReport
  | DOutbox outbox_error

definition delivery_is_permanent :: "delivery_error \<Rightarrow> bool" where
  "delivery_is_permanent e \<longleftrightarrow> (\<exists>c. e = DCommand c) \<or> e = DInvalidTimestamp \<or> e = DSerialize"

definition validate_browser_capture :: "capture_library \<Rightarrow> command_envelope \<Rightarrow> capture_command_error + unit" where
  "validate_browser_capture L command =
     (case cl_payload L (ce_payload command) of
        None \<Rightarrow> Inl CInvalidPayload
      | Some capture \<Rightarrow>
          if cq_provider capture \<noteq> ProviderX then Inl CWrongProvider
          else if cq_acquisition capture \<noteq> ''browser_extension'' \<or> cq_saved_authority capture \<noteq> ''explicit_user_capture''
          then Inl CInvalidProvenance
          else if ce_tenant_id command = None then Inl CMissingTenant
          else Inr ())"

section \<open>Permalinks\<close>

definition STATUS_HOSTS :: "string list" where
  "STATUS_HOSTS = [''x.com'', ''www.x.com'', ''mobile.x.com'', ''twitter.com'', ''www.twitter.com'', ''mobile.twitter.com'']"

definition eq_ignore_ascii_case :: "string \<Rightarrow> string \<Rightarrow> bool" where
  "eq_ignore_ascii_case a b \<longleftrightarrow> to_ascii_lowercase a = to_ascii_lowercase b"

fun after_status :: "string list \<Rightarrow> string option" where
  "after_status [] = None"
| "after_status (segment # segments) =
     (if segment = ''status'' \<or> segment = ''statuses''
      then (case segments of [] \<Rightarrow> None | i # _ \<Rightarrow> Some i)
      else after_status segments)"

definition status_id_ok :: "string \<Rightarrow> bool" where
  "status_id_ok i \<longleftrightarrow> 1 \<le> length i \<and> length i \<le> 19 \<and> list_all is_digit i"

definition status_id_from_permalink :: "string \<Rightarrow> string option" where
  "status_id_from_permalink permalink =
     (case split_once ''://'' permalink of
        None \<Rightarrow> None
      | Some (scheme, rest) \<Rightarrow>
          if \<not> eq_ignore_ascii_case scheme ''https'' \<and> \<not> eq_ignore_ascii_case scheme ''http'' then None
          else case split_once ''/'' rest of
            None \<Rightarrow> None
          | Some (host, path) \<Rightarrow>
              if \<not> list_ex (\<lambda>allowed. eq_ignore_ascii_case allowed host) STATUS_HOSTS then None
              else case after_status (split_on CHR ''/'' (takeWhile (\<lambda>c. c \<noteq> CHR ''?'' \<and> c \<noteq> CHR ''#'') path)) of
                None \<Rightarrow> None
              | Some i \<Rightarrow> if status_id_ok i then Some i else None)"

section \<open>Persisting a capture\<close>

datatype delivery = DeliveryApplied | DeliveryDuplicate

definition REPORT_TYPE :: string where
  "REPORT_TYPE = ''platform.operation.reported.v1''"

definition command_row :: "command_envelope \<Rightarrow> string \<Rightarrow> time \<Rightarrow> inbox_event" where
  "command_row command document now =
     \<lparr>inb_source = ''platform'', inb_event_type = ce_command_type command, inb_event_id = ce_command_id command,
      inb_payload = document, inb_consumed_at = Some now\<rparr>"

definition claim_command :: "capture_library \<Rightarrow> command_envelope \<Rightarrow> (delivery_error, bool) dbio" where
  "claim_command L command =
     (case cl_to_json L command of
        None \<Rightarrow> throw DSerialize
      | Some document \<Rightarrow>
          sql DPersistence (\<lambda>now u d.
            Some (ce_command_id command \<notin> inb_event_id ` set (inbox_events d),
              d\<lparr>inbox_events := insert_ignore inb_event_id (command_row command document now) (inbox_events d)\<rparr>)))"

definition queue_capture_report ::
  "capture_library \<Rightarrow> uuid \<Rightarrow> uuid \<Rightarrow> uuid \<Rightarrow> string \<Rightarrow> json \<Rightarrow> (delivery_error, unit) dbio" where
  "queue_capture_report L owner operation capture_id command_id report =
     bind_io (map_err (\<lambda>_. DInvalidIdentifier) (of_result (entity (cl_contracts L) ''capture'' capture_id))) (\<lambda>aggregate.
     bind_io new_uuid (\<lambda>event_id.
       case cl_report_envelope L PRODUCER owner operation aggregate command_id event_id report of
         None \<Rightarrow> throw DReport
       | Some envelope \<Rightarrow> map_err DOutbox (enqueue_event (cl_contracts L) envelope)))"

definition capture_row ::
  "uuid \<Rightarrow> command_envelope \<Rightarrow> capture_request \<Rightarrow> uuid \<Rightarrow> time \<Rightarrow> time \<Rightarrow> explicit_capture" where
  "capture_row capture_id command capture owner captured_at now =
     (let post = status_id_from_permalink (cq_original_permalink capture) in
      \<lparr>xc_capture_id = capture_id, xc_command_id = ce_command_id command, xc_operation_id = cq_operation_id capture,
       xc_owner = owner, xc_provider_post_id = post, xc_original_permalink = cq_original_permalink capture,
       xc_captured_at = captured_at, xc_acquisition = ''browser_extension'', xc_saved_authority = ''explicit_user_capture'',
       xc_status = (if post = None then CaptureUnavailable else CaptureAccepted), xc_attempts = 0, xc_next_attempt_at = now,
       xc_social_source_id = None, xc_reported_at = (if post = None then Some now else None), xc_created_at = now\<rparr>)"

definition insert_capture ::
  "uuid \<Rightarrow> command_envelope \<Rightarrow> capture_request \<Rightarrow> uuid \<Rightarrow> time \<Rightarrow> (delivery_error, unit) dbio" where
  "insert_capture capture_id command capture owner captured_at =
     sql DPersistence (\<lambda>now u d.
       if capture_id \<in> xc_capture_id ` set (explicit_captures d) \<or> ce_command_id command \<in> xc_command_id ` set (explicit_captures d)
       then None
       else Some ((), d\<lparr>explicit_captures := explicit_captures d @ [capture_row capture_id command capture owner captured_at now]\<rparr>))"

definition apply_capture ::
  "capture_library \<Rightarrow> command_envelope \<Rightarrow> capture_request \<Rightarrow> uuid \<Rightarrow> time \<Rightarrow> (delivery_error, delivery) dbio" where
  "apply_capture L command capture owner captured_at =
     bind_io new_uuid (\<lambda>capture_id.
       case (case status_id_from_permalink (cq_original_permalink capture) of
               Some _ \<Rightarrow> cl_queued_report L (cq_operation_id capture)
             | None \<Rightarrow> cl_unavailable_report L (cq_operation_id capture) UInaccessible) of
         None \<Rightarrow> throw DReport
       | Some report \<Rightarrow>
           then_io (insert_capture capture_id command capture owner captured_at)
           (then_io (queue_capture_report L owner (cq_operation_id capture) capture_id (ce_command_id command) report)
           (ret DeliveryApplied)))"

definition persist_browser_capture :: "capture_library \<Rightarrow> command_envelope \<Rightarrow> (delivery_error, delivery) dbio" where
  "persist_browser_capture L command =
     (case validate_browser_capture L command of
        Inl e \<Rightarrow> throw (DCommand e)
      | Inr _ \<Rightarrow>
          case (cl_payload L (ce_payload command), ce_tenant_id command) of
            (Some capture, Some owner) \<Rightarrow>
              (case cl_parse_time L (cq_captured_at capture) of
                 None \<Rightarrow> throw DInvalidTimestamp
               | Some captured_at \<Rightarrow>
                   transact DPersistence
                     (bind_io (claim_command L command) (\<lambda>claimed.
                        if \<not> claimed then ret (Rollback DeliveryDuplicate)
                        else bind_io (apply_capture L command capture owner captured_at) (\<lambda>x. ret (Commit x)))))
          | (None, _) \<Rightarrow> throw (DCommand CInvalidPayload)
          | (Some _, None) \<Rightarrow> throw (DCommand CMissingTenant))"

section \<open>The consumer\<close>

record consumer_report =
  cr_applied :: nat
  cr_duplicates :: nat
  cr_rejected :: nat
  cr_retryable_failures :: nat

datatype ack_kind = AckStored | AckTerm | AckNak

datatype consumer_error = BusError | ConsumerStopped

text \<open>What the message stream yields; the end of a list of items is the shutdown.\<close>

datatype bus_item = BusMessage string | BusRecoverable | BusFatal | BusEnded

definition dispose :: "capture_library \<Rightarrow> string \<Rightarrow> (delivery_error, delivery) dbio" where
  "dispose L payload =
     (case cl_from_json L payload of
        Some command \<Rightarrow> persist_browser_capture L command
      | None \<Rightarrow> throw (DCommand CInvalidPayload))"

fun settlement :: "delivery_error + delivery \<Rightarrow> ack_kind" where
  "settlement (Inr _) = AckStored"
| "settlement (Inl e) = (if delivery_is_permanent e then AckTerm else AckNak)"

fun count_delivery :: "delivery_error + delivery \<Rightarrow> consumer_report \<Rightarrow> consumer_report" where
  "count_delivery (Inr DeliveryApplied) report = report\<lparr>cr_applied := cr_applied report + 1\<rparr>"
| "count_delivery (Inr DeliveryDuplicate) report = report\<lparr>cr_duplicates := cr_duplicates report + 1\<rparr>"
| "count_delivery (Inl e) report =
     (if delivery_is_permanent e then report\<lparr>cr_rejected := cr_rejected report + 1\<rparr>
      else report\<lparr>cr_retryable_failures := cr_retryable_failures report + 1\<rparr>)"

fun consume_items ::
  "capture_library \<Rightarrow> bus_item list \<Rightarrow> consumer_report \<Rightarrow> ack_kind list
   \<Rightarrow> (unit, (consumer_error + consumer_report) \<times> ack_kind list) dbio" where
  "consume_items L [] report acks = ret (Inr report, acks)"
| "consume_items L (BusEnded # items) report acks = ret (Inl ConsumerStopped, acks)"
| "consume_items L (BusFatal # items) report acks = ret (Inl BusError, acks)"
| "consume_items L (BusRecoverable # items) report acks = consume_items L items report acks"
| "consume_items L (BusMessage payload # items) report acks =
     bind_io (attempt (dispose L payload)) (\<lambda>outcome.
       consume_items L items (count_delivery outcome report) (acks @ [settlement outcome]))"

record consumer_config =
  cfg_durable_name :: "string option"
  cfg_filter_subject :: string
  cfg_explicit_ack :: bool
  cfg_deliver_subject :: "string option"

definition COMMAND_SUBJECT :: string where
  "COMMAND_SUBJECT = ''cmd.x.capture.requested.v1''"

definition browser_consumer :: "string \<Rightarrow> consumer_config option \<Rightarrow> consumer_error + consumer_config" where
  "browser_consumer durable found =
     (case found of
        None \<Rightarrow> Inl BusError
      | Some config \<Rightarrow>
          if cfg_durable_name config \<noteq> Some durable \<or> cfg_filter_subject config \<noteq> COMMAND_SUBJECT
             \<or> \<not> cfg_explicit_ack config \<or> cfg_deliver_subject config \<noteq> None
          then Inl BusError else Inr config)"

definition consume_browser_commands ::
  "capture_library \<Rightarrow> string \<Rightarrow> consumer_config option \<Rightarrow> bool \<Rightarrow> bus_item list
   \<Rightarrow> (unit, (consumer_error + consumer_report) \<times> ack_kind list) dbio" where
  "consume_browser_commands L durable found opens items =
     (case browser_consumer durable found of
        Inl e \<Rightarrow> ret (Inl e, [])
      | Inr _ \<Rightarrow>
          if \<not> opens then ret (Inl BusError, [])
          else consume_items L items \<lparr>cr_applied = 0, cr_duplicates = 0, cr_rejected = 0, cr_retryable_failures = 0\<rparr> [])"

end
