(* ===== verification/Permalinks.thy ===== *)
theory Permalinks
  imports Captures
begin

text \<open>
  Which status a permalink names.
\<close>

section \<open>Permalinks\<close>

lemma split_once_Some: "split_once sep s = Some (a, b) \<Longrightarrow> s = a @ sep @ b"
proof (induction sep s arbitrary: a rule: split_once.induct)
  case (2 sep c cs)
  show ?case
  proof (cases "starts_with sep (c # cs)")
    case True
    with 2(2) show ?thesis
      by (metis append_Nil append_take_drop_id option.inject prod.inject split_once.simps(2) starts_with_def)
  next
    case False
    with 2(2) obtain a' where "split_once sep cs = Some (a', b)" "a = c # a'" by auto
    with 2(1) [OF False] show ?thesis by simp
  qed
qed (auto split: if_splits)

lemma split_once_at:
  assumes "x \<notin> set a" and "sep = x # sep'"
  shows "split_once sep (a @ sep @ b) = Some (a, b)"
  using assms(1)
proof (induction a)
  case Nil
  then show ?case by (simp add: assms(2) starts_with_def)
next
  case (Cons c a)
  then have "c \<noteq> x" by auto
  with Cons show ?case by (simp add: assms(2) starts_with_def)
qed

definition status_word :: "string \<Rightarrow> bool" where
  "status_word w \<longleftrightarrow> w = ''status'' \<or> w = ''statuses''"

lemma after_status_Some:
  "after_status segments = Some i \<longleftrightarrow>
     (\<exists>pre word post. segments = pre @ word # i # post \<and> status_word word \<and> list_all (\<lambda>x. \<not> status_word x) pre)"
proof (induction segments)
  case (Cons x xs)
  show ?case
  proof (cases "status_word x")
    case True
    then have "after_status (x # xs) = Some i \<longleftrightarrow> (\<exists>post. xs = i # post)" by (cases xs) (auto simp: status_word_def)
    also have "\<dots> \<longleftrightarrow> (\<exists>pre word post. x # xs = pre @ word # i # post \<and> status_word word \<and> list_all (\<lambda>x. \<not> status_word x) pre)"
    proof
      assume "\<exists>post. xs = i # post"
      then obtain post where "x # xs = [] @ x # i # post" by auto
      with True show "\<exists>pre word post. x # xs = pre @ word # i # post \<and> status_word word \<and> list_all (\<lambda>x. \<not> status_word x) pre"
        by (metis list.pred_inject(1))
    qed (use True in \<open>auto simp: Cons_eq_append_conv\<close>)
    finally show ?thesis .
  next
    case False
    then have "after_status (x # xs) = Some i \<longleftrightarrow> after_status xs = Some i" by (auto simp: status_word_def)
    also have "\<dots> \<longleftrightarrow> (\<exists>pre word post. x # xs = pre @ word # i # post \<and> status_word word \<and> list_all (\<lambda>x. \<not> status_word x) pre)"
      unfolding Cons using False by (auto simp: Cons_eq_append_conv) (metis list.pred_inject(2))+
    finally show ?thesis .
  qed
qed simp

lemma lower_keeps: "\<not> is_upper c \<Longrightarrow> lower_char x = c \<Longrightarrow> x = c \<or> is_upper x"
  by (auto simp: lower_char_def split: if_splits)

lemma lower_no_char:
  assumes "c \<in> {CHR '':'', CHR ''/''}" and "c \<notin> set (to_ascii_lowercase s)"
  shows "c \<notin> set s"
proof
  assume "c \<in> set s"
  then have "lower_char c \<in> set (to_ascii_lowercase s)" by (simp add: to_ascii_lowercase_def)
  moreover have "lower_char c = c" using assms(1) by (auto simp: lower_char_def is_upper_def)
  ultimately show False using assms(2) by simp
qed

lemma ignore_case: "eq_ignore_ascii_case scheme ''https'' \<longleftrightarrow> to_ascii_lowercase scheme = ''https''"
  "eq_ignore_ascii_case scheme ''http'' \<longleftrightarrow> to_ascii_lowercase scheme = ''http''"
  "list_ex (\<lambda>allowed. eq_ignore_ascii_case allowed host) STATUS_HOSTS \<longleftrightarrow> to_ascii_lowercase host \<in> set STATUS_HOSTS"
  by (auto simp: eq_ignore_ascii_case_def STATUS_HOSTS_def to_ascii_lowercase_def lower_char_def is_upper_def)

text \<open>A status permalink: what the link says, read off its parts.\<close>

definition status_permalink :: "string \<Rightarrow> string \<Rightarrow> bool" where
  "status_permalink link i \<longleftrightarrow> (\<exists>scheme host path tail pre word post.
     link = scheme @ ''://'' @ host @ ''/'' @ path @ tail
     \<and> to_ascii_lowercase scheme \<in> {''https'', ''http''} \<and> to_ascii_lowercase host \<in> set STATUS_HOSTS
     \<and> list_all (\<lambda>c. c \<noteq> CHR ''?'' \<and> c \<noteq> CHR ''#'') path \<and> (tail = [] \<or> hd tail \<in> {CHR ''?'', CHR ''#''})
     \<and> split_on CHR ''/'' path = pre @ word # i # post \<and> status_word word \<and> list_all (\<lambda>x. \<not> status_word x) pre
     \<and> status_id_ok i)"

lemma permalink_iff: "status_id_from_permalink link = Some i \<longleftrightarrow> status_permalink link i"
proof
  assume "status_id_from_permalink link = Some i"
  then obtain scheme rest host path where s: "split_once ''://'' link = Some (scheme, rest)"
    and sc: "to_ascii_lowercase scheme \<in> {''https'', ''http''}"
    and h: "split_once ''/'' rest = Some (host, path)" and ho: "to_ascii_lowercase host \<in> set STATUS_HOSTS"
    and a: "after_status (split_on CHR ''/'' (takeWhile (\<lambda>c. c \<noteq> CHR ''?'' \<and> c \<noteq> CHR ''#'') path)) = Some i" and ok: "status_id_ok i"
    unfolding status_id_from_permalink_def ignore_case by (auto split: option.splits if_splits)
  let ?p = "\<lambda>c. c \<noteq> CHR ''?'' \<and> c \<noteq> CHR ''#''"
  have "link = scheme @ ''://'' @ host @ ''/'' @ takeWhile ?p path @ dropWhile ?p path"
    using split_once_Some [OF s] split_once_Some [OF h] by simp
  moreover have "list_all ?p (takeWhile ?p path)" by (auto simp: list_all_iff dest: set_takeWhileD)
  moreover have "dropWhile ?p path = [] \<or> hd (dropWhile ?p path) \<in> {CHR ''?'', CHR ''#''}"
    using hd_dropWhile [of ?p path] by auto
  ultimately show "status_permalink link i"
    using sc ho ok a [unfolded after_status_Some] unfolding status_permalink_def by blast
next
  assume "status_permalink link i"
  then obtain scheme host path tail where l: "link = scheme @ ''://'' @ host @ ''/'' @ path @ tail"
    and sc: "to_ascii_lowercase scheme \<in> {''https'', ''http''}" and ho: "to_ascii_lowercase host \<in> set STATUS_HOSTS"
    and p: "list_all (\<lambda>c. c \<noteq> CHR ''?'' \<and> c \<noteq> CHR ''#'') path" "tail = [] \<or> hd tail \<in> {CHR ''?'', CHR ''#''}"
    and a: "after_status (split_on CHR ''/'' path) = Some i" and ok: "status_id_ok i"
    unfolding status_permalink_def after_status_Some by blast
  have "CHR '':'' \<notin> set scheme" by (rule lower_no_char) (use sc in auto)
  from split_once_at [OF this, of "''://''" "''//''" "host @ ''/'' @ path @ tail"] have s: "split_once ''://'' link = Some (scheme, host @ ''/'' @ path @ tail)" by (simp add: l)
  have "CHR ''/'' \<notin> set host" by (rule lower_no_char) (use ho in \<open>auto simp: STATUS_HOSTS_def\<close>)
  from split_once_at [OF this, of "''/''" "[]" "path @ tail"] have h: "split_once ''/'' (host @ ''/'' @ path @ tail) = Some (host, path @ tail)" by simp
  have "takeWhile (\<lambda>c. c \<noteq> CHR ''?'' \<and> c \<noteq> CHR ''#'') (path @ tail) = path"
    using p by (cases tail) (auto simp: list_all_iff takeWhile_append)
  with s h a ok sc ho show "status_id_from_permalink link = Some i"
    unfolding status_id_from_permalink_def ignore_case by auto
qed

text \<open>
  A permalink names a status exactly when its parts say so. The status read off a link by splitting it step by step is the number behind the
  first \<open>status\<close> or \<open>statuses\<close> segment of the path of an \<open>http\<close> or \<open>https\<close> link to one of the six hosts, in any letter case, with query and fragment ignored,
  when it is of 1 to 19 digits, the range the capture table admits; every other link names none.
\<close>

theorem permalink_names_status:
  "status_id_from_permalink link = Some i \<longleftrightarrow> status_permalink link i"
  by (rule permalink_iff)

end
