(* ===== verification/Public_Capture.thy ===== *)
theory Public_Capture
  imports Captures Social_Sources Token_Client
begin

text \<open>
  Public resolution of one post with the application's own credential (\<^verbatim>\<open>x-sync/src/public_post.rs\<close>) and the worker that
  resolves queued explicit captures and reports each one (\<^verbatim>\<open>x-sync/src/public_capture.rs\<close>). The HTTP client, the URL builder and the
  decoding of a response document are parameters.
\<close>

section \<open>Public posts\<close>

record public_author =
  pa_id :: string
  pa_username :: "string option"
  pa_name :: "string option"

record public_post =
  pp_provider_id :: string
  pp_author :: public_author
  pp_text :: string
  pp_long_text :: "string option"
  pp_published_at :: "time option"
  pp_expanded_urls :: "string list"

datatype public_post_failure = PostDeleted | PostInaccessible | PostTransient

definition PUBLIC_MAX_BODY_BYTES :: nat where
  "PUBLIC_MAX_BODY_BYTES = 1024 * 1024"

record app_bearer_resolver =
  ab_http :: http
  ab_endpoint :: string
  ab_bearer_token :: string
  ab_url_with_params :: "string \<Rightarrow> (string \<times> string) list \<Rightarrow> string option"
  ab_decode :: "bytes \<Rightarrow> envelope option"
  ab_parse_time :: "string \<Rightarrow> time option"

definition classify_status :: "nat \<Rightarrow> public_post_failure option" where
  "classify_status status =
     (if is_success status then None
      else if status = 401 \<or> status = 403 then Some PostTransient
      else if status = 402 then Some PostTransient
      else if status = 429 \<or> status = 408 \<or> 500 \<le> status \<and> status < 600 \<or> 300 \<le> status \<and> status < 400 then Some PostTransient
      else Some PostInaccessible)"

fun read_capped_chunks :: "bytes \<Rightarrow> bytes list \<Rightarrow> http_failure option \<Rightarrow> public_post_failure + bytes" where
  "read_capped_chunks body [] broken = (case broken of Some _ \<Rightarrow> Inl PostTransient | None \<Rightarrow> Inr body)"
| "read_capped_chunks body (chunk # chunks) broken =
     (if PUBLIC_MAX_BODY_BYTES < length body + length chunk then Inl PostInaccessible
      else read_capped_chunks (body @ chunk) chunks broken)"

definition read_capped :: "http_response \<Rightarrow> public_post_failure + bytes" where
  "read_capped r =
     (if (case hr_content_length r of None \<Rightarrow> False | Some n \<Rightarrow> PUBLIC_MAX_BODY_BYTES < n) then Inl PostInaccessible
      else read_capped_chunks [] (hr_chunks r) (hr_broken r))"

definition problem_type :: "json \<Rightarrow> string option" where
  "problem_type problem =
     (case problem of
        JObj kvs \<Rightarrow> (case map_of kvs ''type'' of Some (JStr t) \<Rightarrow> Some t | _ \<Rightarrow> None)
      | _ \<Rightarrow> None)"

definition classify_problems :: "envelope \<Rightarrow> public_post_failure" where
  "classify_problems e =
     (let problems = (case map_of (env_extension e) ''errors'' of
                        Some (JArr ps) \<Rightarrow> List.map_filter problem_type ps
                      | _ \<Rightarrow> [])
      in if list_ex (\<lambda>problem. ends_with ''resource-not-found'' problem) problems then PostDeleted else PostInaccessible)"

definition parse_post :: "app_bearer_resolver \<Rightarrow> bytes \<Rightarrow> public_post_failure + public_post" where
  "parse_post R body =
     (case ab_decode R body of
        None \<Rightarrow> Inl PostInaccessible
      | Some e \<Rightarrow>
          if env_data e = [] then Inl (classify_problems e)
          else case validate (ab_parse_time R) e of
            Inl _ \<Rightarrow> Inl PostInaccessible
          | Inr _ \<Rightarrow>
              (case normalize (ab_parse_time R) e of
                 Inl _ \<Rightarrow> Inl PostInaccessible
               | Inr batch \<Rightarrow>
                   (case nb_posts batch of
                      [] \<Rightarrow> Inl PostInaccessible
                    | post # _ \<Rightarrow>
                        let author = find (\<lambda>u. nu_provider_id u = np_author_provider_id post) (nb_users batch)
                        in Inr \<lparr>pp_provider_id = np_provider_id post,
                                pp_author = \<lparr>pa_id = np_author_provider_id post,
                                  pa_username = Option.bind author nu_username, pa_name = Option.bind author nu_display_name\<rparr>,
                                pp_text = np_text post, pp_long_text = np_long_text post,
                                pp_published_at = np_published_at post, pp_expanded_urls = np_expanded_urls post\<rparr>)))"

definition lookup_params :: "string \<Rightarrow> (string \<times> string) list" where
  "lookup_params post =
     [(''ids'', post), (''expansions'', ''author_id,attachments.media_keys,referenced_tweets.id''),
      (''tweet.fields'', ''created_at,text,entities,note_tweet,lang,conversation_id,public_metrics,referenced_tweets,attachments''),
      (''user.fields'', ''username,name''),
      (''media.fields'', ''type,url,preview_image_url,width,height,alt_text,duration_ms'')]"

definition lookup :: "app_bearer_resolver \<Rightarrow> string \<Rightarrow> ('d, public_post_failure, public_post) io" where
  "lookup R post =
     (case ab_url_with_params R (ab_endpoint R) (lookup_params post) of
        None \<Rightarrow> throw PostTransient
      | Some url \<Rightarrow>
          bind_io (map_err (\<lambda>_. PostTransient) (send_request (ab_http R)
            \<lparr>hq_method = ''GET'', hq_url = url, hq_auth = BearerAuth (ab_bearer_token R), hq_content_type = None, hq_body = None\<rparr>))
          (\<lambda>response.
             case classify_status (hr_status response) of
               Some failure \<Rightarrow> throw failure
             | None \<Rightarrow> bind_io (of_result (read_capped response)) (\<lambda>body. of_result (parse_post R body))))"

section \<open>The worker\<close>

type_synonym post_resolver = "string \<Rightarrow> (public_post_failure, public_post) dbio"

record capture_policy =
  cpo_max_attempts :: u32
  cpo_batch_size :: u32

record capture_summary =
  cs_claimed :: nat
  cs_preserved :: nat
  cs_unavailable :: nat
  cs_deferred :: nat

datatype public_capture_error =
    PcQuery
  | PcSnapshot snapshot_error
  | PcQueue queue_error
  | PcReport
  | PcOutbox outbox_error

record claimed_capture =
  cc_capture_id :: uuid
  cc_command_id :: string
  cc_operation_id :: uuid
  cc_owner :: uuid
  cc_provider_post_id :: string
  cc_attempts :: int
  cc_captured_at :: time

record capture_worker =
  cw_library :: capture_library
  cw_resolver :: post_resolver
  cw_policy :: capture_policy

definition LEASE :: time where
  "LEASE = 120 * 1000000"

definition claimed_of :: "explicit_capture \<Rightarrow> claimed_capture" where
  "claimed_of c = \<lparr>cc_capture_id = xc_capture_id c, cc_command_id = xc_command_id c, cc_operation_id = xc_operation_id c,
     cc_owner = xc_owner c, cc_provider_post_id = the (xc_provider_post_id c), cc_attempts = xc_attempts c,
     cc_captured_at = xc_captured_at c\<rparr>"

definition capture_due :: "time \<Rightarrow> explicit_capture \<Rightarrow> bool" where
  "capture_due now c \<longleftrightarrow> xc_status c = CaptureAccepted \<and> xc_provider_post_id c \<noteq> None \<and> xc_next_attempt_at c \<le> now"

definition due_captures :: "time \<Rightarrow> nat \<Rightarrow> archive \<Rightarrow> explicit_capture list" where
  "due_captures now n d = take n (sort_key (\<lambda>c. (xc_next_attempt_at c, xc_capture_id c)) (filter (capture_due now) (explicit_captures d)))"

definition claim_due :: "capture_worker \<Rightarrow> (public_capture_error, claimed_capture list) dbio" where
  "claim_due W =
     bind_io read_clock (\<lambda>now.
       sql PcQuery (\<lambda>_ u d.
         let due = due_captures now (unat (cpo_batch_size (cw_policy W))) d
         in Some (map claimed_of due,
              d\<lparr>explicit_captures := update_where (\<lambda>c. xc_capture_id c \<in> xc_capture_id ` set due)
                  (\<lambda>c. c\<lparr>xc_next_attempt_at := now + LEASE\<rparr>) (explicit_captures d)\<rparr>)))"

text \<open>\<^verbatim>\<open>i32::saturating_add\<close> of one and \<^verbatim>\<open>u32::try_from\<close>.\<close>

definition attempts_made :: "claimed_capture \<Rightarrow> int" where
  "attempts_made c = min (cc_attempts c + 1) i32_max"

definition has_attempts_left :: "capture_worker \<Rightarrow> claimed_capture \<Rightarrow> bool" where
  "has_attempts_left W c \<longleftrightarrow> 0 \<le> attempts_made c \<and> attempts_made c < uint (cpo_max_attempts (cw_policy W))"

definition retry_delay :: "int \<Rightarrow> time" where
  "retry_delay failures = min (30 * 4 ^ min 8 (nat (failures - 1))) (30 * 60) * 1000000"

definition capture_open :: "claimed_capture \<Rightarrow> explicit_capture \<Rightarrow> bool" where
  "capture_open c x \<longleftrightarrow> xc_capture_id x = cc_capture_id c \<and> xc_status x = CaptureAccepted \<and> xc_reported_at x = None"

text \<open>\<^verbatim>\<open>attempts = attempts + 1\<close> on the open row of a capture, with what else is set; whether a row was open.\<close>

definition advance_capture ::
  "claimed_capture \<Rightarrow> (explicit_capture \<Rightarrow> explicit_capture) \<Rightarrow> (public_capture_error, bool) dbio" where
  "advance_capture c f =
     sql PcQuery (\<lambda>now u d.
       if list_ex (\<lambda>x. capture_open c x \<and> \<not> fits_i32 (xc_attempts x + 1)) (explicit_captures d) then None
       else Some (length (filter (capture_open c) (explicit_captures d)) = 1,
              d\<lparr>explicit_captures := update_where (capture_open c) (\<lambda>x. (f x)\<lparr>xc_attempts := xc_attempts x + 1\<rparr>) (explicit_captures d)\<rparr>))"

definition defer_capture :: "claimed_capture \<Rightarrow> (public_capture_error, unit) dbio" where
  "defer_capture c =
     bind_io read_clock (\<lambda>now.
       then_io (advance_capture c (\<lambda>x. x\<lparr>xc_next_attempt_at := now + retry_delay (attempts_made c)\<rparr>)) (ret ()))"

definition queue_report :: "capture_library \<Rightarrow> claimed_capture \<Rightarrow> json \<Rightarrow> (public_capture_error, unit) dbio" where
  "queue_report L c report =
     (if \<not> cl_command_id_ok L (cc_command_id c) then throw (PcQueue Identifier)
      else bind_io (map_err PcQueue (of_result (entity (cl_contracts L) ''capture'' (cc_capture_id c)))) (\<lambda>aggregate.
        bind_io new_uuid (\<lambda>event_id.
          case cl_report_envelope L PRODUCER (cc_owner c) (cc_operation_id c) aggregate (cc_command_id c) event_id report of
            None \<Rightarrow> throw PcReport
          | Some envelope \<Rightarrow> map_err PcOutbox (enqueue_event (cl_contracts L) envelope))))"

definition lock_owner_post :: "claimed_capture \<Rightarrow> (public_capture_error, unit) dbio" where
  "lock_owner_post c = query PcQuery (\<lambda>d. ())"

definition owner_post :: "claimed_capture \<Rightarrow> explicit_source \<Rightarrow> bool" where
  "owner_post c s \<longleftrightarrow> xs_key s = (cc_owner c, cc_provider_post_id c)"

definition owner_removed_payload :: "contracts \<Rightarrow> claimed_capture \<Rightarrow> uuid \<Rightarrow> time \<Rightarrow> queue_error + json" where
  "owner_removed_payload C c src removed_at =
     (let payload = JObj [(''owner'', JStr (''user:'' @ uuid_text C (cc_owner c))), (''reason'', JStr ''retention_policy''),
            (''removed_at'', JStr (wire_timestamp C removed_at)), (''social_source_id'', JStr (uuid_text C src))]
      in if social_removed_ok C payload then Inr payload else Inl PayloadError)"

definition remove_owner_source :: "contracts \<Rightarrow> claimed_capture \<Rightarrow> time \<Rightarrow> (public_capture_error, unit) dbio" where
  "remove_owner_source C c removed_at =
     bind_io (sql PcQuery (\<lambda>now u d.
         Some (map_option xs_social_source_id (select_one (owner_post c) (explicit_sources d)),
               d\<lparr>explicit_sources := filter (\<lambda>s. \<not> owner_post c s) (explicit_sources d)\<rparr>))) (\<lambda>removed.
       case removed of
         None \<Rightarrow> ret ()
       | Some src \<Rightarrow>
           map_err PcQueue
            (bind_io (of_result (owner_removed_payload C c src removed_at)) (\<lambda>payload.
             bind_io (of_result (entity C ''social_source'' src)) (\<lambda>aggregate.
             bind_io (of_result (entity C ''capture'' (cc_capture_id c))) (\<lambda>causation.
             then_io (queue_event C
                 \<lparr>ef_aggregate = aggregate, ef_correlation = aggregate, ef_causation = Some causation, ef_owner = cc_owner c,
                  ef_occurred_at = removed_at\<rparr> REMOVAL_EVENT_TYPE payload)
               (ret ()))))))"

fun unavailability_of :: "public_post_failure \<Rightarrow> unavailability" where
  "unavailability_of PostDeleted = UDeleted"
| "unavailability_of PostInaccessible = UInaccessible"
| "unavailability_of PostTransient = UTransient"

definition report_unavailable ::
  "capture_library \<Rightarrow> claimed_capture \<Rightarrow> public_post_failure \<Rightarrow> (public_capture_error, unit) dbio" where
  "report_unavailable L c failure =
     then_io (if failure = PostDeleted then bind_io read_clock (remove_owner_source (cl_contracts L) c) else ret ())
       (case cl_unavailable_report L (cc_operation_id c) (unavailability_of failure) of
          None \<Rightarrow> throw PcReport
        | Some report \<Rightarrow> queue_report L c report)"

definition terminate_body :: "capture_library \<Rightarrow> claimed_capture \<Rightarrow> public_post_failure \<Rightarrow> (public_capture_error, unit) dbio" where
  "terminate_body L c failure =
     then_io (lock_owner_post c)
     (bind_io read_clock (\<lambda>now.
      bind_io (advance_capture c (\<lambda>x. x\<lparr>xc_status := CaptureUnavailable, xc_reported_at := Some now, xc_next_attempt_at := now\<rparr>))
        (\<lambda>guarded. if guarded then report_unavailable L c failure else ret ())))"

definition terminate :: "capture_library \<Rightarrow> claimed_capture \<Rightarrow> public_post_failure \<Rightarrow> (public_capture_error, unit) dbio" where
  "terminate L c failure = transaction PcQuery (terminate_body L c failure)"

definition facts_of_post :: "public_post \<Rightarrow> source_facts" where
  "facts_of_post p = \<lparr>sf_provider_id = pp_provider_id p, sf_text = pp_text p, sf_long_text = pp_long_text p,
     sf_published_at = pp_published_at p, sf_availability = ''active'', sf_author_provider_id = pa_id (pp_author p),
     sf_author_username = pa_username (pp_author p), sf_author_display_name = pa_name (pp_author p),
     sf_expanded_urls = pp_expanded_urls p\<rparr>"

definition owner_source_of :: "claimed_capture \<Rightarrow> public_post \<Rightarrow> uuid \<Rightarrow> json \<Rightarrow> time \<Rightarrow> explicit_source" where
  "owner_source_of c p src digest now =
     \<lparr>xs_social_source_id = src, xs_owner = cc_owner c, xs_provider_post_id = cc_provider_post_id c,
      xs_author_provider_id = pa_id (pp_author p), xs_author_username = pa_username (pp_author p),
      xs_author_display_name = pa_name (pp_author p), xs_text = pp_text p, xs_long_text = pp_long_text p,
      xs_published_at = pp_published_at p, xs_expanded_urls = pp_expanded_urls p, xs_current_content_digest = digest,
      xs_captured_at = cc_captured_at c, xs_created_at = now, xs_updated_at = now\<rparr>"

definition owner_source_merge :: "explicit_source \<Rightarrow> explicit_source \<Rightarrow> explicit_source" where
  "owner_source_merge new old =
     old\<lparr>xs_author_provider_id := xs_author_provider_id new, xs_author_username := xs_author_username new,
       xs_author_display_name := xs_author_display_name new, xs_text := xs_text new, xs_long_text := xs_long_text new,
       xs_published_at := xs_published_at new, xs_expanded_urls := xs_expanded_urls new,
       xs_current_content_digest := xs_current_content_digest new, xs_captured_at := xs_captured_at new,
       xs_updated_at := xs_updated_at new\<rparr>"

definition store_owner_source ::
  "claimed_capture \<Rightarrow> public_post \<Rightarrow> uuid \<Rightarrow> json \<Rightarrow> (public_capture_error, unit) dbio" where
  "store_owner_source c p src digest =
     sql PcQuery (\<lambda>now u d.
       if \<not> list_ex (owner_post c) (explicit_sources d) \<and> src \<in> xs_social_source_id ` set (explicit_sources d) then None
       else Some ((), d\<lparr>explicit_sources := upsert xs_key owner_source_merge (owner_source_of c p src digest now) (explicit_sources d)\<rparr>))"

definition write_owner_source ::
  "contracts \<Rightarrow> claimed_capture \<Rightarrow> public_post \<Rightarrow> json \<Rightarrow> uuid \<Rightarrow> source_fact \<Rightarrow> (public_capture_error, uuid) dbio" where
  "write_owner_source C c p digest src kind =
     bind_io (map_err PcSnapshot (of_result
         (facts_snapshot C (facts_of_post p) src (cc_owner c) digest (cc_captured_at c) EXPLICIT_PROVENANCE))) (\<lambda>snap.
     then_io (store_owner_source c p src digest)
     (then_io (map_err PcSnapshot (queue_source_event C (cc_owner c) kind src snap (cc_captured_at c)))
     (ret src)))"

definition upsert_owner_source :: "contracts \<Rightarrow> claimed_capture \<Rightarrow> public_post \<Rightarrow> (public_capture_error, uuid) dbio" where
  "upsert_owner_source C c p =
     bind_io (map_err PcSnapshot (of_result (facts_digest C (facts_of_post p) EXPLICIT_PROVENANCE))) (\<lambda>digest.
     bind_io (query PcQuery (\<lambda>d. select_one (owner_post c) (explicit_sources d))) (\<lambda>existing.
       case existing of
         Some s \<Rightarrow>
           if xs_current_content_digest s = digest then ret (xs_social_source_id s)
           else write_owner_source C c p digest (xs_social_source_id s) SourceUpdated
       | None \<Rightarrow> bind_io new_uuid (\<lambda>src. write_owner_source C c p digest src SourceCaptured)))"

definition report_preserved :: "capture_library \<Rightarrow> claimed_capture \<Rightarrow> uuid \<Rightarrow> (public_capture_error, unit txn_end) dbio" where
  "report_preserved L c src =
     (case cl_preserved_report L (cc_operation_id c) src of
        None \<Rightarrow> throw PcReport
      | Some report \<Rightarrow> then_io (queue_report L c report) (ret (Commit ())))"

definition preserve_body ::
  "capture_library \<Rightarrow> claimed_capture \<Rightarrow> public_post \<Rightarrow> (public_capture_error, unit txn_end) dbio" where
  "preserve_body L c p =
     then_io (lock_owner_post c)
     (bind_io (upsert_owner_source (cl_contracts L) c p) (\<lambda>src.
      bind_io read_clock (\<lambda>now.
      bind_io (advance_capture c (\<lambda>x. x\<lparr>xc_status := CaptureResolved, xc_social_source_id := Some src,
           xc_reported_at := Some now, xc_next_attempt_at := now\<rparr>)) (\<lambda>guarded.
        if guarded then report_preserved L c src else ret (Rollback ())))))"

definition preserve :: "capture_library \<Rightarrow> claimed_capture \<Rightarrow> public_post \<Rightarrow> (public_capture_error, unit) dbio" where
  "preserve L c p = transact PcQuery (preserve_body L c p)"

fun contract_failure :: "public_capture_error \<Rightarrow> bool" where
  "contract_failure (PcSnapshot ContractError) = True"
| "contract_failure _ = False"

definition conclude_preserve ::
  "capture_library \<Rightarrow> claimed_capture \<Rightarrow> public_post \<Rightarrow> capture_summary \<Rightarrow> (public_capture_error, capture_summary) dbio" where
  "conclude_preserve L c p summary =
     bind_io (attempt (preserve L c p)) (\<lambda>outcome.
       case outcome of
         Inr _ \<Rightarrow> ret (summary\<lparr>cs_preserved := cs_preserved summary + 1\<rparr>)
       | Inl e \<Rightarrow>
           if contract_failure e
           then then_io (terminate L c PostInaccessible) (ret (summary\<lparr>cs_unavailable := cs_unavailable summary + 1\<rparr>))
           else throw e)"

definition process_capture ::
  "capture_worker \<Rightarrow> claimed_capture \<Rightarrow> capture_summary \<Rightarrow> (public_capture_error, capture_summary) dbio" where
  "process_capture W c summary =
     bind_io (attempt (cw_resolver W (cc_provider_post_id c))) (\<lambda>outcome.
       case outcome of
         Inr p \<Rightarrow>
           if pp_provider_id p = cc_provider_post_id c then conclude_preserve (cw_library W) c p summary
           else then_io (terminate (cw_library W) c PostInaccessible) (ret (summary\<lparr>cs_unavailable := cs_unavailable summary + 1\<rparr>))
       | Inl failure \<Rightarrow>
           if failure = PostTransient \<and> has_attempts_left W c
           then then_io (defer_capture c) (ret (summary\<lparr>cs_deferred := cs_deferred summary + 1\<rparr>))
           else then_io (terminate (cw_library W) c failure) (ret (summary\<lparr>cs_unavailable := cs_unavailable summary + 1\<rparr>)))"

definition run_due_once :: "capture_worker \<Rightarrow> (public_capture_error, capture_summary) dbio" where
  "run_due_once W =
     bind_io (claim_due W) (\<lambda>claimed.
       fold_io (process_capture W) claimed
         \<lparr>cs_claimed = length claimed, cs_preserved = 0, cs_unavailable = 0, cs_deferred = 0\<rparr>)"

end
