(* ===== verification/Relay.thy ===== *)
theory Relay
  imports Outbox Writeback Tokens
begin

text \<open>
  The outbox relay, \<^verbatim>\<open>x-capture/src/relay.rs\<close>: passes that publish stored envelopes to the broker, back off refused rows, set aside
  rows the broker can never take, publish unacknowledged removals again, and judge the relay's health. The broker is a parameter:
  what it answers to a message may depend on the step at which it is asked. The health flag is the value a pass returns; logging and metrics
  are left out.
\<close>

section \<open>Subjects and publishers\<close>

definition BATCH_SIZE :: nat where
  "BATCH_SIZE = 32"

definition PAYLOAD_HEADROOM :: nat where
  "PAYLOAD_HEADROOM = 1024"

definition UNHEALTHY_ATTEMPTS :: int where
  "UNHEALTHY_ATTEMPTS = 3"

definition UNHEALTHY_AGE_SECONDS :: int where
  "UNHEALTHY_AGE_SECONDS = 300"

definition PAYLOAD_TOO_LARGE :: string where
  "PAYLOAD_TOO_LARGE = ''payload_too_large''"

definition subject_for :: "string \<Rightarrow> string option" where
  "subject_for event_type =
     (if event_type \<in> {''platform.operation.reported.v1'', ''social.source.captured.v1'',
          ''social.source.updated.v1'', ''social.source.removed.v1''} then Some (''evt.'' @ event_type)
      else if event_type = ''content.capture.requested.v1'' then Some (''cmd.'' @ event_type)
      else None)"

text \<open>A failure is its class; \<open>None\<close> is the broker's acknowledgement.\<close>

type_synonym outbox_publisher = "string \<Rightarrow> string \<Rightarrow> bytes \<Rightarrow> nat \<Rightarrow> string option"

definition is_permanent :: "string \<Rightarrow> bool" where
  "is_permanent failure \<longleftrightarrow> failure = PAYLOAD_TOO_LARGE"

datatype broker_answer = NotSent | AckReceived | AckRejected | AckTimedOut

definition jetstream_send ::
  "nat \<Rightarrow> (string \<Rightarrow> string \<Rightarrow> bytes \<Rightarrow> nat \<Rightarrow> broker_answer) \<Rightarrow> outbox_publisher" where
  "jetstream_send limit broker subject message_id payload t =
     (if 0 < limit \<and> limit - PAYLOAD_HEADROOM < length payload then Some PAYLOAD_TOO_LARGE
      else case broker subject message_id payload t of
             NotSent \<Rightarrow> Some ''publish_failed''
           | AckReceived \<Rightarrow> None
           | AckRejected \<Rightarrow> Some ''ack_rejected''
           | AckTimedOut \<Rightarrow> Some ''ack_timeout'')"

section \<open>The relay\<close>

record outbox_relay =
  rl_publisher :: outbox_publisher
  rl_resend :: resend_policy
  rl_uuid_text :: "uuid \<Rightarrow> string"
  rl_payload_text :: "wire_envelope \<Rightarrow> bytes"

record relay_report =
  rr_published :: nat
  rr_failed :: nat
  rr_resent :: nat
  rr_undeliverable :: nat

definition no_report :: relay_report where
  "no_report = \<lparr>rr_published = 0, rr_failed = 0, rr_resent = 0, rr_undeliverable = 0\<rparr>"

datatype relay_error = UnmappableEventType string | RelayQuery | RelayTransition

definition publish :: "outbox_relay \<Rightarrow> string \<Rightarrow> outbox_event \<Rightarrow> (relay_error, string option) dbio" where
  "publish E subject row w =
     (Inr (rl_publisher E subject (rl_uuid_text E (out_id row)) (rl_payload_text E (out_payload row)) (tick w)), advance w)"

definition record_undeliverable :: "uuid \<Rightarrow> string \<Rightarrow> (relay_error, unit) dbio" where
  "record_undeliverable i failure =
     sql RelayQuery (\<lambda>now u d.
       if list_ex (\<lambda>r. out_id r = i \<and> out_published_at r = None \<and> \<not> fits_i32 (out_attempt_count r + 1)) (outbox_events d) then None
       else Some ((), d\<lparr>outbox_events :=
         update_where (\<lambda>r. out_id r = i \<and> out_published_at r = None)
           (\<lambda>r. r\<lparr>out_attempt_count := out_attempt_count r + 1, out_last_error := Some failure, out_undeliverable_at := Some now\<rparr>)
           (outbox_events d)\<rparr>))"

definition backoff :: "int \<Rightarrow> time" where
  "backoff attempts = min 300 (10 * 2 ^ nat (min (attempts + 1) 5)) * 1000000"

definition record_failure :: "uuid \<Rightarrow> string \<Rightarrow> bool \<Rightarrow> (relay_error, unit) dbio" where
  "record_failure i failure republish =
     sql RelayQuery (\<lambda>now u d.
       if list_ex (\<lambda>r. out_id r = i \<and> (out_published_at r = None) \<noteq> republish \<and> \<not> fits_i32 (out_attempt_count r + 1)) (outbox_events d)
       then None
       else Some ((), d\<lparr>outbox_events :=
         update_where (\<lambda>r. out_id r = i \<and> (out_published_at r = None) \<noteq> republish)
           (\<lambda>r. r\<lparr>out_attempt_count := out_attempt_count r + 1, out_last_error := Some failure,
                  out_next_attempt_at := now + backoff (out_attempt_count r)\<rparr>)
           (outbox_events d)\<rparr>))"

definition publishable :: "time \<Rightarrow> outbox_event \<Rightarrow> bool" where
  "publishable now r \<longleftrightarrow> out_published_at r = None \<and> out_undeliverable_at r = None \<and> out_next_attempt_at r \<le> now"

definition due_rows :: "(relay_error, outbox_event list) dbio" where
  "due_rows = sql RelayQuery (\<lambda>now u d.
     Some (take BATCH_SIZE (sort_key (\<lambda>r. (out_created_at r, out_id r)) (filter (publishable now) (outbox_events d))), d))"

text \<open>The arms of the match on the broker's answer: what is recorded, what is counted, and whether the pass goes on.\<close>

definition settle_row :: "outbox_relay \<Rightarrow> uuid \<Rightarrow> string option \<Rightarrow> (relay_error, unit) dbio" where
  "settle_row E i answer =
     (case answer of
        None \<Rightarrow> map_err (\<lambda>_. RelayTransition) (mark_published i (rl_resend E))
      | Some failure \<Rightarrow> if is_permanent failure then record_undeliverable i failure else record_failure i failure False)"

definition tally :: "string option \<Rightarrow> relay_report \<Rightarrow> relay_report" where
  "tally answer report =
     (case answer of
        None \<Rightarrow> report\<lparr>rr_published := rr_published report + 1\<rparr>
      | Some failure \<Rightarrow>
          if is_permanent failure then report\<lparr>rr_undeliverable := rr_undeliverable report + 1\<rparr>
          else report\<lparr>rr_failed := rr_failed report + 1\<rparr>)"

definition goes_on :: "string option \<Rightarrow> bool" where
  "goes_on answer \<longleftrightarrow> (case answer of None \<Rightarrow> True | Some failure \<Rightarrow> is_permanent failure)"

fun publish_rows :: "outbox_relay \<Rightarrow> outbox_event list \<Rightarrow> relay_report \<Rightarrow> (relay_error, relay_report) dbio" where
  "publish_rows E [] report = ret report"
| "publish_rows E (row # rows) report =
     (case subject_for (out_event_type row) of
        None \<Rightarrow> throw (UnmappableEventType (out_event_type row))
      | Some subject \<Rightarrow>
          bind_io (publish E subject row) (\<lambda>answer.
            then_io (settle_row E (out_id row) answer)
              (if goes_on answer then publish_rows E rows (tally answer report) else ret (tally answer report))))"

definition resend_due :: "time \<Rightarrow> outbox_event \<Rightarrow> bool" where
  "resend_due now r \<longleftrightarrow> out_event_type r = REMOVAL_EVENT_TYPE \<and> out_published_at r \<noteq> None \<and> out_acknowledged_at r = None
     \<and> (case out_next_resend_at r of None \<Rightarrow> False | Some t \<Rightarrow> t \<le> now) \<and> out_next_attempt_at r \<le> now"

definition due_resends :: "(relay_error, outbox_event list) dbio" where
  "due_resends = sql RelayQuery (\<lambda>now u d.
     Some (take BATCH_SIZE (sort_key (\<lambda>r. (the (out_next_resend_at r), out_id r)) (filter (resend_due now) (outbox_events d))), d))"

fun resend_rows :: "outbox_relay \<Rightarrow> outbox_event list \<Rightarrow> relay_report \<Rightarrow> (relay_error, relay_report) dbio" where
  "resend_rows E [] report = ret report"
| "resend_rows E (row # rows) report =
     (case subject_for REMOVAL_EVENT_TYPE of
        None \<Rightarrow> throw (UnmappableEventType REMOVAL_EVENT_TYPE)
      | Some subject \<Rightarrow>
          bind_io (publish E subject row) (\<lambda>answer.
            case answer of
              None \<Rightarrow>
                then_io (map_err (\<lambda>_. RelayTransition) (record_resend (out_id row) (rl_resend E)))
                  (resend_rows E rows (report\<lparr>rr_resent := rr_resent report + 1\<rparr>))
            | Some failure \<Rightarrow>
                then_io (record_failure (out_id row) failure True)
                  (ret (report\<lparr>rr_failed := rr_failed report + 1\<rparr>))))"

definition resend_unacknowledged :: "outbox_relay \<Rightarrow> relay_report \<Rightarrow> (relay_error, relay_report) dbio" where
  "resend_unacknowledged E report = bind_io due_resends (\<lambda>due. resend_rows E due report)"

definition stuck :: "time \<Rightarrow> outbox_event \<Rightarrow> bool" where
  "stuck now r \<longleftrightarrow> out_published_at r = None \<and> out_undeliverable_at r = None \<and> 1 \<le> out_attempt_count r
     \<and> (UNHEALTHY_ATTEMPTS \<le> out_attempt_count r \<or> out_created_at r < now - UNHEALTHY_AGE_SECONDS * 1000000)"

definition refresh_health :: "(relay_error, bool) dbio" where
  "refresh_health = sql RelayQuery (\<lambda>now u d. Some (\<not> list_ex (stuck now) (outbox_events d), d))"

definition refresh_tombstone_gauges :: "(relay_error, unit) dbio" where
  "refresh_tombstone_gauges = then_io (map_err (\<lambda>_. RelayTransition) unacknowledged_removals) (ret ())"

definition run_once :: "outbox_relay \<Rightarrow> (relay_error, relay_report \<times> bool) dbio" where
  "run_once E =
     bind_io due_rows (\<lambda>rows.
     bind_io (publish_rows E rows no_report) (\<lambda>report.
     bind_io (if rr_failed report = 0 then resend_unacknowledged E report else ret report) (\<lambda>report.
     bind_io refresh_health (\<lambda>healthy.
     then_io refresh_tombstone_gauges (ret (report, healthy))))))"

text \<open>
  The service loop up to the shutdown: \<open>n\<close> pauses, during which other processes act on the archive. It returns the verdicts handed to the
  caller.
\<close>

primrec relay_run :: "outbox_relay \<Rightarrow> (nat \<Rightarrow> archive \<Rightarrow> archive) \<Rightarrow> nat \<Rightarrow> (relay_error, bool list) dbio" where
  "relay_run E others 0 = bind_io (run_once E) (\<lambda>(report, healthy). ret [healthy])"
| "relay_run E others (Suc n) =
     bind_io (run_once E) (\<lambda>(report, healthy).
     then_io (sleep_io others)
     (bind_io (relay_run E others n) (\<lambda>verdicts. ret (healthy # verdicts))))"

end
