(* ===== verification/Relay_Correct.thy ===== *)
theory Relay_Correct
  imports Relay Delivery
begin

text \<open>
  The relay publishes stored messages unchanged and marks only what the broker acknowledged; every stored event has a subject; a broker
  that accepts drains the outbox.
\<close>

section \<open>What a pass leaves alone\<close>

text \<open>
  The fate of a row: its message never changes, a publication is never undone, and a row is published only when the broker
  acknowledged that row's own message under that row's subject.
\<close>

definition acknowledged_message :: "outbox_relay \<Rightarrow> outbox_event \<Rightarrow> bool" where
  "acknowledged_message E r \<longleftrightarrow> (\<exists>subject t. subject_for (out_event_type r) = Some subject
     \<and> rl_publisher E subject (rl_uuid_text E (out_id r)) (rl_payload_text E (out_payload r)) t = None)"

definition message :: "outbox_event \<Rightarrow> uuid \<times> string \<times> string \<times> wire_envelope \<times> string \<times> string option \<times> time" where
  "message r = (out_id r, out_aggregate r, out_event_type r, out_payload r, out_correlation_id r, out_causation_id r, out_created_at r)"

definition acknowledgement :: "outbox_event \<Rightarrow> time option \<times> string option" where
  "acknowledgement r = (out_acknowledged_at r, out_ack_outcome r)"

definition carried :: "outbox_relay \<Rightarrow> outbox_event \<Rightarrow> outbox_event \<Rightarrow> bool" where
  "carried E r r' \<longleftrightarrow> message r' = message r \<and> acknowledgement r' = acknowledgement r
     \<and> (out_published_at r \<noteq> None \<longrightarrow> out_published_at r' = out_published_at r)
     \<and> (out_published_at r = None \<longrightarrow> out_published_at r' \<noteq> None \<longrightarrow> acknowledged_message E r)"

definition relay_frame :: "outbox_relay \<Rightarrow> archive \<Rightarrow> archive \<Rightarrow> bool" where
  "relay_frame E d d' \<longleftrightarrow> d' = d\<lparr>outbox_events := outbox_events d'\<rparr> \<and> list_all2 (carried E) (outbox_events d) (outbox_events d')"

lemma message_sel:
  "message r' = message r \<Longrightarrow> out_id r' = out_id r \<and> out_event_type r' = out_event_type r \<and> out_payload r' = out_payload r
     \<and> out_created_at r' = out_created_at r"
  by (simp add: message_def)

lemma acknowledged_message_cong: "message r' = message r \<Longrightarrow> acknowledged_message E r' = acknowledged_message E r"
  by (simp add: acknowledged_message_def message_def)

lemma carried_trans: "carried E r r' \<Longrightarrow> carried E r' r'' \<Longrightarrow> carried E r r''"
  unfolding carried_def using acknowledged_message_cong by metis

interpretation relaying: frame "relay_frame E" for E
proof
  fix d :: archive show "relay_frame E d d" by (simp add: relay_frame_def list_all2_refl carried_def)
next
  fix d d' d'' :: archive assume d': "relay_frame E d d'" and d'': "relay_frame E d' d''"
  have "d'' = d'\<lparr>outbox_events := outbox_events d''\<rparr>" "d' = d\<lparr>outbox_events := outbox_events d'\<rparr>"
    using d' d'' by (simp_all add: relay_frame_def)
  then have "d'' = d\<lparr>outbox_events := outbox_events d''\<rparr>" by (metis archive.surjective archive.update_convs(21))
  moreover have "list_all2 (carried E) (outbox_events d) (outbox_events d'')"
    by (rule list_all2_trans [OF _ d' [unfolded relay_frame_def, THEN conjunct2] d'' [unfolded relay_frame_def, THEN conjunct2]])
      (rule carried_trans)
  ultimately show "relay_frame E d d''" by (simp add: relay_frame_def)
qed

lemma relay_update:
  assumes "\<And>r. r \<in> set (outbox_events d) \<Longrightarrow> p r \<Longrightarrow> carried E r (f r)"
  shows "relay_frame E d (d\<lparr>outbox_events := update_where p f (outbox_events d)\<rparr>)"
  using assms by (auto simp: relay_frame_def update_where_def list_all2_conv_all_nth carried_def)

lemma carried_same_publication:
  "message r' = message r \<Longrightarrow> acknowledgement r' = acknowledgement r \<Longrightarrow> out_published_at r' = out_published_at r \<Longrightarrow> carried E r r'"
  by (simp add: carried_def)

lemmas row_parts = message_def acknowledgement_def

lemma relay_statements_frame:
  "within (relay_frame E) due_rows" "within (relay_frame E) due_resends" "within (relay_frame E) refresh_health"
  "within (relay_frame E) refresh_tombstone_gauges" "within (relay_frame E) (publish E subject row)"
  "within (relay_frame E) (record_undeliverable i failure)" "within (relay_frame E) (record_failure i failure b)"
  "within (relay_frame E) (record_resend i policy)"
proof -
  show "within (relay_frame E) due_rows" "within (relay_frame E) due_resends" "within (relay_frame E) refresh_health"
    unfolding due_rows_def due_resends_def refresh_health_def
    by (auto intro!: relaying.within_sql simp: relaying.frame_refl)
  have "within (relay_frame E) unacknowledged_removals"
    unfolding unacknowledged_removals_def by (auto intro!: relaying.within_sql simp: relaying.frame_refl Let_def)
  then show "within (relay_frame E) refresh_tombstone_gauges"
    unfolding refresh_tombstone_gauges_def by (intro relaying.within_intros)
  show "within (relay_frame E) (publish E subject row)" by (simp add: within_def publish_def relaying.frame_refl)
  show "within (relay_frame E) (record_undeliverable i failure)" "within (relay_frame E) (record_failure i failure b)"
    "within (relay_frame E) (record_resend i policy)"
    unfolding record_undeliverable_def record_failure_def record_resend_def
    by (auto intro!: relaying.within_sql relay_update carried_same_publication simp: row_parts split: if_splits)
qed

lemma resend_rows_frame: "within (relay_frame E) (resend_rows E rows report)"
  by (induction rows arbitrary: report)
     (simp_all, (intro relaying.within_intros relay_statements_frame | assumption)+)

lemma mark_published_frame:
  assumes "mark_published i policy w = (r, w')" and "\<And>row. row \<in> set (outbox_events (db w)) \<Longrightarrow> out_id row = i \<Longrightarrow> acknowledged_message E row"
  shows "relay_frame E (db w) (db w')"
proof (cases r)
  case (Inl e)
  with assms(1) show ?thesis by (auto simp: mark_published_def sql_def relaying.frame_refl split: if_splits)
next
  case (Inr x)
  with assms show ?thesis
    by (auto simp: mark_published_def sql_Inr carried_def row_parts intro!: relay_update)
qed

text \<open>The rows a pass holds are rows of the archive: what is stored under their identity carries their message.\<close>

definition holds :: "outbox_event list \<Rightarrow> archive \<Rightarrow> bool" where
  "holds rows d \<longleftrightarrow> (\<forall>row \<in> set rows. \<forall>r \<in> set (outbox_events d). out_id r = out_id row \<longrightarrow> message r = message row)"

lemma holds_frame: "holds rows d \<Longrightarrow> relay_frame E d d' \<Longrightarrow> holds rows d'"
proof -
  assume h: "holds rows d" and "relay_frame E d d'"
  then have c: "list_all2 (carried E) (outbox_events d) (outbox_events d')" by (simp add: relay_frame_def)
  have "message r' = message row" if r': "r' \<in> set (outbox_events d')" "out_id r' = out_id row" and row: "row \<in> set rows" for r' row
  proof -
    from r'(1) c obtain r where "r \<in> set (outbox_events d)" "message r' = message r"
      by (metis (no_types, lifting) carried_def in_set_conv_nth list_all2_conv_all_nth)
    with h row r'(2) message_sel show ?thesis by (metis holds_def)
  qed
  then show ?thesis by (simp add: holds_def)
qed

lemma holds_Cons: "holds (row # rows) d \<Longrightarrow> holds rows d"
  by (simp add: holds_def)

lemma settle_row_frame:
  assumes "settle_row E (out_id row) answer w = (r, w')" and "holds [row] (db w)" and "answer = None \<Longrightarrow> acknowledged_message E row"
  shows "relay_frame E (db w) (db w')"
proof (cases answer)
  case None
  have "acknowledged_message E r" if "r \<in> set (outbox_events (db w))" "out_id r = out_id row" for r
  proof -
    have "message r = message row" using that assms(2) by (simp add: holds_def)
    from acknowledged_message_cong [OF this] assms(3) None show ?thesis by simp
  qed
  moreover obtain q where "mark_published (out_id row) (rl_resend E) w = (q, w')"
    using assms(1) None by (auto simp: settle_row_def map_err_def split: prod.splits sum.splits)
  ultimately show ?thesis by (auto intro: mark_published_frame)
next
  case (Some failure)
  with assms(1) withinD [OF relay_statements_frame(6)] withinD [OF relay_statements_frame(7)] show ?thesis
    by (auto simp: settle_row_def split: if_splits)
qed

lemma publish_rows_frame:
  "publish_rows E rows report w = (r, w') \<Longrightarrow> holds rows (db w) \<Longrightarrow> relay_frame E (db w) (db w')"
proof (induction rows arbitrary: report w)
  case Nil
  then show ?case by (simp add: ret_def relaying.frame_refl)
next
  case (Cons row rows)
  show ?case
  proof (cases "subject_for (out_event_type row)")
    case None
    with Cons.prems(1) show ?thesis by (auto simp: throw_def relaying.frame_refl)
  next
    case (Some subject)
    let ?answer = "rl_publisher E subject (rl_uuid_text E (out_id row)) (rl_payload_text E (out_payload row)) (tick w)"
    obtain x v where x: "settle_row E (out_id row) ?answer (advance w) = (x, v)" by fastforce
    have "holds [row] (db (advance w))" using Cons.prems(2) by (simp add: holds_def)
    moreover have "?answer = None \<Longrightarrow> acknowledged_message E row" using Some by (auto simp: acknowledged_message_def)
    ultimately have v: "relay_frame E (db w) (db v)" using settle_row_frame [OF x] by simp
    have run: "(case x of Inl e \<Rightarrow> (Inl e, v) | Inr _ \<Rightarrow>
        (if goes_on ?answer then publish_rows E rows (tally ?answer report) else ret (tally ?answer report)) v) = (r, w')"
      using Cons.prems(1) Some x by (simp add: bind_io_def then_io_def publish_def split: sum.splits)
    have "relay_frame E (db v) (db w')" if "publish_rows E rows (tally ?answer report) v = (r, w')"
      using Cons.IH [OF that holds_frame [OF holds_Cons [OF Cons.prems(2)] v]] .
    with run v show ?thesis
      by (auto simp: ret_def intro: relaying.frame_trans split: sum.splits if_splits)
  qed
qed

section \<open>Messages are published unchanged, and only when acknowledged\<close>

lemma keyed_holds: "keyed_by out_id (outbox_events d) \<Longrightarrow> set rows \<subseteq> set (outbox_events d) \<Longrightarrow> holds rows d"
  unfolding holds_def by (metis keyed_by_inj subsetD)

lemma due_rows_Inr:
  "due_rows w = (Inr rows, w') \<Longrightarrow> set rows \<subseteq> set (outbox_events (db w)) \<and> w' = advance w"
  by (auto simp: due_rows_def sql_Inr dest!: in_set_takeD simp flip: advance_def)

lemma run_once_frame:
  assumes "run_once E w = (r, w')" and "keyed_by out_id (outbox_events (db w))"
  shows "relay_frame E (db w) (db w')"
proof -
  have rest: "within (relay_frame E) (bind_io (if rr_failed report = 0 then resend_unacknowledged E report else ret report) (\<lambda>report.
     bind_io refresh_health (\<lambda>healthy. then_io refresh_tombstone_gauges (ret (report, healthy)))))" for report
    unfolding resend_unacknowledged_def
    by (intro relaying.within_intros relay_statements_frame resend_rows_frame)
  obtain x v where x: "due_rows w = (x, v)" by fastforce
  show ?thesis
  proof (cases x)
    case (Inl e)
    with assms(1) x withinD [OF relay_statements_frame(1) x] show ?thesis by (auto simp: run_once_def bind_io_def)
  next
    case (Inr rows)
    with x have rows: "set rows \<subseteq> set (outbox_events (db w))" "db v = db w"
      using due_rows_Inr [of w rows v] by simp_all
    obtain y u where y: "publish_rows E rows no_report v = (y, u)" by fastforce
    have u: "relay_frame E (db w) (db u)"
      using publish_rows_frame [OF y] keyed_holds [OF assms(2) rows(1)] rows(2) by simp
    show ?thesis
    proof (cases y)
      case (Inl e)
      with assms(1) x Inr y u show ?thesis by (simp add: run_once_def bind_io_def)
    next
      case (Inr report)
      with assms(1) x \<open>x = Inr rows\<close> y u withinD [OF rest] show ?thesis
        by (auto simp: run_once_def bind_io_def [of due_rows] bind_io_def [of "publish_rows E rows no_report"]
            intro: relaying.frame_trans)
    qed
  qed
qed

text \<open>
  C11. The relay publishes stored messages unchanged and marks only what the broker acknowledged. Whatever a pass returns and wherever it
  fails, it touches no other table, it drops and adds no row, it alters no message and no acknowledgement, it never undoes a
  publication, and a row that became published is one whose own stored payload the broker acknowledged under the row's subject and
  identity. (Row identities are unique.)
\<close>

theorem published_only_when_acknowledged:
  assumes "run_once E w = (r, w')" and "keyed_by out_id (outbox_events (db w))"
  shows "db w' = (db w)\<lparr>outbox_events := outbox_events (db w')\<rparr>
    \<and> list_all2 (\<lambda>r r'. message r' = message r \<and> acknowledgement r' = acknowledgement r
        \<and> (out_published_at r \<noteq> None \<longrightarrow> out_published_at r' = out_published_at r)
        \<and> (out_published_at r = None \<longrightarrow> out_published_at r' \<noteq> None \<longrightarrow>
            (\<exists>subject t. subject_for (out_event_type r) = Some subject
              \<and> rl_publisher E subject (rl_uuid_text E (out_id r)) (rl_payload_text E (out_payload r)) t = None)))
      (outbox_events (db w)) (outbox_events (db w'))"
  using run_once_frame [OF assms] unfolding relay_frame_def carried_def acknowledged_message_def .

section \<open>Every stored row has a subject\<close>

definition relayable :: "archive \<Rightarrow> bool" where
  "relayable d \<longleftrightarrow> list_all (\<lambda>r. out_event_type r \<in> set allowed_event_types) (outbox_events d)"

lemma subject_for_allowed: "subject_for e \<noteq> None \<longleftrightarrow> e \<in> set allowed_event_types"
  by (auto simp: subject_for_def allowed_event_types_def)

lemma relay_frame_row:
  "relay_frame E d d' \<Longrightarrow> r' \<in> set (outbox_events d') \<Longrightarrow> \<exists>r \<in> set (outbox_events d). carried E r r'"
  unfolding relay_frame_def by (metis in_set_conv_nth list_all2_conv_all_nth)

lemma relayable_frame: "relay_frame E d d' \<Longrightarrow> relayable d \<Longrightarrow> relayable d'"
  unfolding relayable_def list_all_iff using relay_frame_row by (metis carried_def message_sel)

lemma keyed_frame: "relay_frame E d d' \<Longrightarrow> keyed_by out_id (outbox_events d) \<Longrightarrow> keyed_by out_id (outbox_events d')"
proof -
  assume f: "relay_frame E d d'" and k: "keyed_by out_id (outbox_events d)"
  have "map out_id (outbox_events d') = map out_id (outbox_events d)"
    using f unfolding relay_frame_def
    by (auto simp: list_all2_conv_all_nth carried_def message_def intro!: nth_equalityI)
  with k show ?thesis by (simp add: keyed_by_def)
qed

lemma relay_never:
  "never (UnmappableEventType t) due_rows" "never (UnmappableEventType t) due_resends" "never (UnmappableEventType t) refresh_health"
  "never (UnmappableEventType t) refresh_tombstone_gauges" "never (UnmappableEventType t) (publish E subject row)"
  "never (UnmappableEventType t) (record_undeliverable i failure)" "never (UnmappableEventType t) (record_failure i failure b)"
  by (simp_all add: due_rows_def due_resends_def refresh_health_def refresh_tombstone_gauges_def record_undeliverable_def
      record_failure_def never_basic never_then)
     (simp add: never_def publish_def)

lemma publish_rows_never:
  "list_all (\<lambda>r. out_event_type r \<in> set allowed_event_types) rows \<Longrightarrow> never (UnmappableEventType t) (publish_rows E rows report)"
proof (induction rows arbitrary: report)
  case (Cons row rows)
  then obtain subject where s: "subject_for (out_event_type row) = Some subject"
    using subject_for_allowed by fastforce
  have "never (UnmappableEventType t) (settle_row E i answer)" for i answer
    by (simp add: settle_row_def relay_never never_basic split: option.split)
  with Cons show ?case by (simp add: s) (intro never_bind never_then relay_never, auto simp: never_basic)
qed (simp add: never_basic)

lemma resend_rows_never: "never (UnmappableEventType t) (resend_rows E rows report)"
proof (induction rows arbitrary: report)
  case (Cons row rows)
  have s: "subject_for REMOVAL_EVENT_TYPE = Some (''evt.'' @ REMOVAL_EVENT_TYPE)"
    by (simp add: subject_for_def REMOVAL_EVENT_TYPE_def)
  show ?case
    by (simp add: s, intro never_bind relay_never) (auto intro!: never_then relay_never never_basic Cons split: option.split)
qed (simp add: never_basic)

lemma run_once_never:
  assumes "relayable (db w)"
  shows "fst (run_once E w) \<noteq> Inl (UnmappableEventType t)"
proof -
  have rest: "never (UnmappableEventType t) (bind_io (publish_rows E rows no_report) (\<lambda>report.
     bind_io (if rr_failed report = 0 then resend_unacknowledged E report else ret report) (\<lambda>report.
     bind_io refresh_health (\<lambda>healthy. then_io refresh_tombstone_gauges (ret (report, healthy))))))"
    if "list_all (\<lambda>r. out_event_type r \<in> set allowed_event_types) rows" for rows
    unfolding resend_unacknowledged_def
    by (intro never_bind never_then publish_rows_never [OF that] relay_never never_basic)
       (auto intro!: never_bind relay_never resend_rows_never never_basic)
  obtain x v where x: "due_rows w = (x, v)" by fastforce
  show ?thesis
  proof (cases x)
    case (Inl e)
    with x neverD [OF relay_never(1) x [unfolded Inl]] show ?thesis by (simp add: run_once_def bind_io_def)
  next
    case (Inr rows)
    with x assms due_rows_Inr [of w rows v] have "list_all (\<lambda>r. out_event_type r \<in> set allowed_event_types) rows"
      by (auto simp: relayable_def list_all_iff)
    from rest [OF this] x Inr show ?thesis by (simp add: run_once_def bind_io_def [of due_rows] never_def)
  qed
qed

lemma enqueue_relayable: "enqueue_event C e w = (r, w') \<Longrightarrow> relayable (db w) \<Longrightarrow> relayable (db w')"
  by (auto simp: enqueue_event_def insert_outbox_def sql_def throw_def relayable_def insert_unique_def outbox_row_def list_all_iff
      split: if_splits option.splits)

text \<open>
  C32. Every stored event has a subject. The relay's closed list of subjects is the list of event types the table admits: whatever a producer
  enqueues and whatever a pass does, every row keeps an admitted type, and on such an archive a pass never stops for an event type it cannot map.
\<close>

theorem stored_events_have_subjects:
  assumes "relayable (db w)"
  shows "(\<forall>e. subject_for e \<noteq> None \<longleftrightarrow> e \<in> set allowed_event_types)
    \<and> fst (run_once E w) \<noteq> Inl (UnmappableEventType t)
    \<and> (keyed_by out_id (outbox_events (db w)) \<longrightarrow> relayable (db (snd (run_once E w))))
    \<and> relayable (db (snd (enqueue_event C env w)))"
proof -
  have "relayable (db (snd (run_once E w)))" if "keyed_by out_id (outbox_events (db w))"
    using relayable_frame [OF run_once_frame [OF prod.collapse [symmetric] that] assms] .
  then show ?thesis
    using subject_for_allowed run_once_never [OF assms] enqueue_relayable [OF prod.collapse [symmetric] assms] by blast
qed

section \<open>A broker that accepts drains the outbox\<close>

definition pending :: "archive \<Rightarrow> outbox_event list" where
  "pending d = filter (\<lambda>r. out_published_at r = None \<and> out_undeliverable_at r = None) (outbox_events d)"

text \<open>The database answers every statement, and the broker acknowledges every message.\<close>

definition fair :: "outbox_relay \<Rightarrow> archive world \<Rightarrow> bool" where
  "fair E w \<longleftrightarrow> (\<forall>t. \<not> faults (sched w) t) \<and> txn_at w = None \<and> (\<forall>s i p t. rl_publisher E s i p t = None)"

definition same_outside :: "archive world \<Rightarrow> archive world \<Rightarrow> bool" where
  "same_outside w w' \<longleftrightarrow> sched w' = sched w \<and> txn_at w' = txn_at w"

lemma fair_outside: "same_outside w w' \<Longrightarrow> fair E w' = fair E w"
  by (simp add: same_outside_def fair_def)

lemma fair_sql: "fair E w \<Longrightarrow> f (clock (sched w) (tick w)) (uuids (sched w) (tick w)) (db w) = Some (x, d)
    \<Longrightarrow> sql e f w = (Inr x, (advance w)\<lparr>db := d\<rparr>)"
  by (simp add: fair_def sql_def fault_now_def db_now_def)

lemma pending_published:
  "filter (\<lambda>r. out_published_at r = None \<and> out_undeliverable_at r = None)
     (update_where (\<lambda>r. out_id r = i \<and> out_published_at r = None) (\<lambda>r. r\<lparr>out_published_at := Some t, out_last_error := None, out_next_resend_at := n r\<rparr>) xs)
   = filter (\<lambda>r. out_id r \<noteq> i) (filter (\<lambda>r. out_published_at r = None \<and> out_undeliverable_at r = None) xs)"
  by (induction xs) (auto simp: update_where_def)

lemma fair_settle:
  assumes "fair E w"
  shows "\<exists>w'. settle_row E i None w = (Inr (), w') \<and> same_outside w w' \<and> pending (db w') = filter (\<lambda>r. out_id r \<noteq> i) (pending (db w))"
  using assms
  by (simp add: settle_row_def map_err_def mark_published_def fair_sql same_outside_def pending_def pending_published)

lemma fair_publish_rows:
  assumes "fair E w" and "list_all (\<lambda>r. out_event_type r \<in> set allowed_event_types) rows"
  shows "\<exists>w'. publish_rows E rows report w = (Inr (report\<lparr>rr_published := rr_published report + length rows\<rparr>), w')
    \<and> same_outside w w' \<and> pending (db w') = filter (\<lambda>r. out_id r \<notin> out_id ` set rows) (pending (db w))"
  using assms
proof (induction rows arbitrary: report w)
  case Nil
  then show ?case by (simp add: ret_def same_outside_def)
next
  case (Cons row rows)
  obtain subject where s: "subject_for (out_event_type row) = Some subject"
    using Cons.prems(2) subject_for_allowed by fastforce
  have ans: "rl_publisher E s i p t = None" for s i p t using Cons.prems(1) by (simp add: fair_def)
  have f: "fair E (advance w)" using Cons.prems(1) by (simp add: fair_def)
  from fair_settle [OF this, of "out_id row"] obtain v where
    v: "settle_row E (out_id row) None (advance w) = (Inr (), v)" "same_outside (advance w) v"
       "pending (db v) = filter (\<lambda>r. out_id r \<noteq> out_id row) (pending (db w))" by auto
  have "fair E v" using fair_outside [OF v(2)] f by simp
  from Cons.IH [OF this, of "report\<lparr>rr_published := rr_published report + 1\<rparr>"] Cons.prems(2) obtain w' where
    w': "publish_rows E rows (report\<lparr>rr_published := rr_published report + 1\<rparr>) v
      = (Inr (report\<lparr>rr_published := rr_published report + 1 + length rows\<rparr>), w')" "same_outside v w'"
      "pending (db w') = filter (\<lambda>r. out_id r \<notin> out_id ` set rows) (pending (db v))" by auto
  have "publish_rows E (row # rows) report w = (Inr (report\<lparr>rr_published := rr_published report + length (row # rows)\<rparr>), w')"
    using v(1) w'(1) by (simp add: s bind_io_def publish_def ans then_io_def goes_on_def tally_def)
  moreover have "same_outside w w'" using v(2) w'(2) by (simp add: same_outside_def)
  moreover have "pending (db w') = filter (\<lambda>r. out_id r \<notin> out_id ` set (row # rows)) (pending (db w))"
    by (auto simp: w'(3) v(3) intro!: filter_cong)
  ultimately show ?case by blast
qed

lemma fair_resend_rows:
  "fair E w \<Longrightarrow> \<exists>n w'. resend_rows E rows report w = (Inr (report\<lparr>rr_resent := n\<rparr>), w') \<and> same_outside w w' \<and> pending (db w') = pending (db w)"
proof (induction rows arbitrary: report w)
  case Nil
  have "report = report\<lparr>rr_resent := rr_resent report\<rparr>" by simp
  then show ?case by (metis resend_rows.simps(1) ret_def same_outside_def)
next
  case (Cons row rows)
  have s: "subject_for REMOVAL_EVENT_TYPE = Some (''evt.'' @ REMOVAL_EVENT_TYPE)"
    by (simp add: subject_for_def REMOVAL_EVENT_TYPE_def)
  have ans: "rl_publisher E s i p t = None" for s i p t using Cons.prems by (simp add: fair_def)
  have f: "fair E (advance w)" using Cons.prems by (simp add: fair_def)
  have keep: "filter (\<lambda>r. out_published_at r = None \<and> out_undeliverable_at r = None) (update_where
      (\<lambda>r. out_id r = i \<and> out_event_type r = REMOVAL_EVENT_TYPE \<and> out_published_at r \<noteq> None \<and> out_acknowledged_at r = None) g xs)
    = filter (\<lambda>r. out_published_at r = None \<and> out_undeliverable_at r = None) xs"
    if "\<And>r. out_published_at (g r) = out_published_at r" for i g xs
    using that by (induction xs) (auto simp: update_where_def)
  obtain v where v: "record_resend (out_id row) (rl_resend E) (advance w) = (Inr (), v)" "same_outside (advance w) v"
      "pending (db v) = pending (db w)"
    using f by (simp add: record_resend_def fair_sql same_outside_def pending_def keep [simplified])
  have "fair E v" using fair_outside [OF v(2)] f by simp
  from Cons.IH [OF this, of "report\<lparr>rr_resent := rr_resent report + 1\<rparr>"] obtain n w' where
    w': "resend_rows E rows (report\<lparr>rr_resent := rr_resent report + 1\<rparr>) v = (Inr (report\<lparr>rr_resent := n\<rparr>), w')"
      "same_outside v w'" "pending (db w') = pending (db v)" by auto
  have "resend_rows E (row # rows) report w = (Inr (report\<lparr>rr_resent := n\<rparr>), w')"
    using v(1) w'(1) by (simp add: s bind_io_def publish_def ans then_io_def map_err_def)
  with v w' show ?case by (auto simp: same_outside_def)
qed


lemma length_filter_taken:
  assumes "distinct (map f xs)"
  shows "length (filter (\<lambda>x. f x \<notin> f ` set (take n (sort_key k xs))) xs) = length xs - n"
proof -
  let ?ys = "sort_key k xs"
  let ?p = "\<lambda>x. f x \<notin> f ` set (take n ?ys)"
  have "length (filter ?p xs) = length (filter ?p ?ys)"
    by (metis mset_filter mset_sort size_mset)
  also have "distinct (map f ?ys)" using assms by (simp add: distinct_map)
  then have "distinct (map f (take n ?ys @ drop n ?ys))" by (simp only: append_take_drop_id)
  then have "f ` set (take n ?ys) \<inter> f ` set (drop n ?ys) = {}" unfolding map_append distinct_append set_map by blast
  then have "\<forall>x \<in> set (drop n ?ys). ?p x" by blast
  then have "filter ?p (take n ?ys) = []" "filter ?p (drop n ?ys) = drop n ?ys" by (simp_all add: filter_empty_conv)
  then have "filter ?p (take n ?ys @ drop n ?ys) = drop n ?ys" unfolding filter_append by simp
  then have "length (filter ?p ?ys) = length xs - n" by simp
  finally show ?thesis .
qed

lemma fair_run_once:
  assumes "fair E w" and "relayable (db w)" and "keyed_by out_id (outbox_events (db w))"
    and "\<And>r t. r \<in> set (pending (db w)) \<Longrightarrow> out_next_attempt_at r \<le> clock (sched w) t"
  shows "\<exists>report w'. run_once E w = (Inr (report, \<not> list_ex (stuck (clock (sched w) (tick w' - 2))) (outbox_events (db w'))), w')
    \<and> same_outside w w' \<and> rr_failed report = 0 \<and> rr_published report = min BATCH_SIZE (length (pending (db w)))
    \<and> set (pending (db w')) \<subseteq> set (pending (db w)) \<and> length (pending (db w')) = length (pending (db w)) - BATCH_SIZE"
proof -
  let ?now = "clock (sched w) (tick w)"
  let ?rows = "take BATCH_SIZE (sort_key (\<lambda>r. (out_created_at r, out_id r)) (pending (db w)))"
  have due: "filter (publishable ?now) (outbox_events (db w)) = pending (db w)"
    unfolding pending_def using assms(4) by (intro filter_cong) (auto simp: publishable_def pending_def)
  have rows: "due_rows w = (Inr ?rows, advance w)"
    using assms(1) by (simp add: due_rows_def fair_sql due advance_def)
  have f1: "fair E (advance w)" using assms(1) by (simp add: fair_def)
  have sub: "set ?rows \<subseteq> set (pending (db w))" by (metis set_sort set_take_subset)
  then have "list_all (\<lambda>r. out_event_type r \<in> set allowed_event_types) ?rows"
    using assms(2) by (auto simp: relayable_def list_all_iff pending_def)
  from fair_publish_rows [OF f1 this, of no_report] obtain v where
    v: "publish_rows E ?rows no_report (advance w) = (Inr (no_report\<lparr>rr_published := length ?rows\<rparr>), v)"
      "same_outside (advance w) v" "pending (db v) = filter (\<lambda>r. out_id r \<notin> out_id ` set ?rows) (pending (db w))"
    by (auto simp: no_report_def)
  have f2: "fair E v" using fair_outside [OF v(2)] f1 by simp
  then obtain due where d: "due_resends v = (Inr due, advance v)" by (simp add: due_resends_def fair_sql advance_def)
  have f3: "fair E (advance v)" using f2 by (simp add: fair_def)
  from fair_resend_rows [OF this, of due "no_report\<lparr>rr_published := length ?rows\<rparr>"] obtain n u where
    u: "resend_rows E due (no_report\<lparr>rr_published := length ?rows\<rparr>) (advance v)
       = (Inr (no_report\<lparr>rr_published := length ?rows, rr_resent := n\<rparr>), u)"
      "same_outside (advance v) u" "pending (db u) = pending (db v)" by auto
  have f4: "fair E u" using fair_outside [OF u(2)] f3 by simp
  have sch: "sched u = sched w" "txn_at u = txn_at w" using v(2) u(2) by (simp_all add: same_outside_def)
  have h: "refresh_health u = (Inr (\<not> list_ex (stuck (clock (sched w) (tick u))) (outbox_events (db u))), advance u)"
    using f4 sch by (simp add: refresh_health_def fair_sql advance_def)
  have "refresh_tombstone_gauges (advance u) = (Inr (), advance (advance u))"
    using f4 by (simp add: refresh_tombstone_gauges_def then_io_def bind_io_def map_err_def unacknowledged_removals_def
        fair_def sql_def fault_now_def Let_def ret_def advance_def)
  then have run: "run_once E w = (Inr (no_report\<lparr>rr_published := length ?rows, rr_resent := n\<rparr>,
      \<not> list_ex (stuck (clock (sched w) (tick u))) (outbox_events (db u))), advance (advance u))"
    using rows v(1) d u(1) h
    by (simp add: run_once_def bind_io_def then_io_def resend_unacknowledged_def no_report_def ret_def)
  have dist: "distinct (map out_id (pending (db w)))"
    using assms(3) unfolding keyed_by_def pending_def by (rule distinct_map_filter)
  have "length (filter (\<lambda>r. out_id r \<notin> out_id ` set ?rows) (pending (db w))) = length (pending (db w)) - BATCH_SIZE"
    by (rule length_filter_taken [OF dist])
  with v(3) u(3) have "length (pending (db u)) = length (pending (db w)) - BATCH_SIZE" "set (pending (db u)) \<subseteq> set (pending (db w))" by auto
  with run sch show ?thesis
    by (intro exI [of _ "no_report\<lparr>rr_published := length ?rows, rr_resent := n\<rparr>"] exI [of _ "advance (advance u)"])
       (simp add: same_outside_def no_report_def min.commute)
qed


lemma fair_relay_run:
  assumes "fair E w" and "relayable (db w)" and "keyed_by out_id (outbox_events (db w))"
    and "\<And>r t. r \<in> set (pending (db w)) \<Longrightarrow> out_next_attempt_at r \<le> clock (sched w) t"
  shows "\<exists>verdicts w' t. relay_run E (\<lambda>_ d. d) n w = (Inr verdicts, w') \<and> verdicts \<noteq> []
    \<and> last verdicts = (\<not> list_ex (stuck (clock (sched w) t)) (outbox_events (db w')))
    \<and> length (pending (db w')) = length (pending (db w)) - BATCH_SIZE * Suc n"
  using assms
proof (induction n arbitrary: w)
  case 0
  from fair_run_once [OF 0] show ?case by (auto simp: bind_io_def ret_def)
next
  case (Suc n)
  from fair_run_once [OF Suc.prems] obtain report h v where
    v: "run_once E w = (Inr (report, h), v)" "same_outside w v" "set (pending (db v)) \<subseteq> set (pending (db w))"
      "length (pending (db v)) = length (pending (db w)) - BATCH_SIZE" by blast
  let ?v = "(advance v)\<lparr>db := db v\<rparr>"
  note frame = run_once_frame [OF v(1) Suc.prems(3)]
  have "fair E ?v" using Suc.prems(1) v(2) by (simp add: fair_def same_outside_def)
  moreover have "relayable (db ?v)" "keyed_by out_id (outbox_events (db ?v))"
    using relayable_frame [OF frame Suc.prems(2)] keyed_frame [OF frame Suc.prems(3)] by simp_all
  moreover have "out_next_attempt_at r \<le> clock (sched ?v) t" if "r \<in> set (pending (db ?v))" for r t
    using that Suc.prems(4) v(2,3) by (auto simp: same_outside_def)
  ultimately obtain verdicts w' t where
    w': "relay_run E (\<lambda>_ d. d) n ?v = (Inr verdicts, w')" "verdicts \<noteq> []"
      "last verdicts = (\<not> list_ex (stuck (clock (sched ?v) t)) (outbox_events (db w')))"
      "length (pending (db w')) = length (pending (db ?v)) - BATCH_SIZE * Suc n"
    using Suc.IH [of ?v] by blast
  have "relay_run E (\<lambda>_ d. d) (Suc n) w = (Inr (h # verdicts), w')"
    using v(1) w'(1) by (simp add: bind_io_def then_io_def sleep_io_def ret_def)
  moreover have "sched ?v = sched w" using v(2) by (simp add: same_outside_def)
  ultimately show ?case using w' v(4) by (intro exI [of _ "h # verdicts"] exI [of _ w'] exI [of _ t]) simp
qed

text \<open>
  C24. A broker that accepts drains the outbox. When the database answers and the broker acknowledges, the service loop does not stop, and
  after as many passes as batches of 32 were waiting, no deliverable row is left unpublished and the last verdict is healthy. (No
  waiting row is backed off into the future, and producers pause.)
\<close>

theorem accepting_broker_drains:
  assumes "fair E w" and "relayable (db w)" and "keyed_by out_id (outbox_events (db w))"
    and "\<And>r t. r \<in> set (pending (db w)) \<Longrightarrow> out_next_attempt_at r \<le> clock (sched w) t"
    and "length (pending (db w)) \<le> BATCH_SIZE * Suc n"
  shows "\<exists>verdicts w'. relay_run E (\<lambda>_ d. d) n w = (Inr verdicts, w') \<and> pending (db w') = [] \<and> last verdicts"
proof -
  from fair_relay_run [OF assms(1-4)] obtain verdicts w' t where
    r: "relay_run E (\<lambda>_ d. d) n w = (Inr verdicts, w')"
      "last verdicts = (\<not> list_ex (stuck (clock (sched w) t)) (outbox_events (db w')))"
      "length (pending (db w')) = length (pending (db w)) - BATCH_SIZE * Suc n" by blast
  from r(3) assms(5) have e: "pending (db w') = []" by simp
  then have "\<not> list_ex (stuck (clock (sched w) t)) (outbox_events (db w'))"
    by (auto simp: pending_def stuck_def list_ex_iff filter_empty_conv)
  with r e show ?thesis by blast
qed

section \<open>A concrete pass\<close>

definition demo_relay :: outbox_relay where
  "demo_relay = \<lparr>rl_publisher = jetstream_send 0 (\<lambda>subject i payload t. AckReceived), rl_resend = \<lparr>rp_after = 60, rp_cap = 600\<rparr>,
     rl_uuid_text = (\<lambda>_. ''u''), rl_payload_text = (\<lambda>_. [])\<rparr>"

lemma demo_outbox_db: "outbox_events (db demo_outbox) = [outbox_row 3 demo_removal]"
  by (simp add: demo_outbox_def demo_world_def)

lemma demo_outbox_keyed: "keyed_by out_id (outbox_events (db demo_outbox))"
  by (simp add: demo_outbox_db keyed_by_def)

lemma demo_outbox_relayable: "relayable (db demo_outbox)"
  by (simp add: relayable_def demo_outbox_db outbox_row_def demo_removal_def REMOVAL_EVENT_TYPE_def allowed_event_types_def)

lemma demo_relay_fair: "fair demo_relay demo_outbox"
  by (simp add: fair_def demo_outbox_def demo_world_def demo_schedule_def demo_relay_def jetstream_send_def PAYLOAD_HEADROOM_def)

lemma demo_pending: "pending (db demo_outbox) = [outbox_row 3 demo_removal]"
  by (simp add: pending_def demo_outbox_db outbox_row_def)

lemma demo_due: "r \<in> set (pending (db demo_outbox)) \<Longrightarrow> out_next_attempt_at r \<le> clock (sched demo_outbox) t"
  unfolding demo_pending by (simp add: outbox_row_def demo_outbox_def demo_world_def demo_schedule_def)

theorem accepting_broker_drains_witness:
  "\<exists>verdicts w'. relay_run demo_relay (\<lambda>_ d. d) 0 demo_outbox = (Inr verdicts, w') \<and> pending (db w') = [] \<and> last verdicts"
  using accepting_broker_drains [OF demo_relay_fair demo_outbox_relayable demo_outbox_keyed demo_due, of 0]
  by (simp add: demo_pending BATCH_SIZE_def)

theorem stored_events_have_subjects_witness:
  "fst (run_once demo_relay demo_outbox) \<noteq> Inl (UnmappableEventType ''x'') \<and> relayable (db (snd (run_once demo_relay demo_outbox)))
   \<and> subject_for REMOVAL_EVENT_TYPE \<noteq> None"
  using stored_events_have_subjects [OF demo_outbox_relayable, of demo_relay "''x''"] demo_outbox_keyed
  by (simp add: REMOVAL_EVENT_TYPE_def allowed_event_types_def)

theorem published_only_when_acknowledged_witness:
  "pending (db demo_outbox) \<noteq> [] \<and> pending (db (snd (run_once demo_relay demo_outbox))) = []
   \<and> map message (outbox_events (db (snd (run_once demo_relay demo_outbox)))) = [message (outbox_row 3 demo_removal)]"
proof -
  obtain r w' where w': "run_once demo_relay demo_outbox = (r, w')" by fastforce
  from fair_run_once [OF demo_relay_fair demo_outbox_relayable demo_outbox_keyed demo_due] w'
  have "pending (db w') = []" by (auto simp: demo_pending BATCH_SIZE_def)
  moreover have "map message (outbox_events (db w')) = [message (outbox_row 3 demo_removal)]"
    using published_only_when_acknowledged [OF w' demo_outbox_keyed]
    by (auto simp: demo_outbox_db list_all2_Cons1)
  ultimately show ?thesis by (simp add: w' demo_pending)
qed

end
