(* ===== verification/Capture_Reports.thy ===== *)
theory Capture_Reports
  imports Public_Capture Relay_Correct
begin

text \<open>
  Every explicit capture is reported exactly once, under every interleaving of deliveries, workers and relay passes.
\<close>

section \<open>Reports\<close>

text \<open>What the report library promises: an envelope of the report type for the aggregate and the owner it was given.\<close>

definition report_laws :: "capture_library \<Rightarrow> bool" where
  "report_laws L \<longleftrightarrow> inj (uuid_text (cl_contracts L)) \<and>
     (\<forall>producer owner operation aggregate command event report e.
        cl_report_envelope L producer owner operation aggregate command event report = Some e \<longrightarrow>
        we_type e = REPORT_TYPE \<and> we_aggregate_id e = aggregate \<and> we_tenant_id e = Some (tenant_ref (cl_contracts L) owner))"

definition capture_ref :: "capture_library \<Rightarrow> uuid \<Rightarrow> string" where
  "capture_ref L i = ''capture:'' @ uuid_text (cl_contracts L) i"

definition reports_of :: "capture_library \<Rightarrow> uuid \<Rightarrow> outbox_event list \<Rightarrow> outbox_event list" where
  "reports_of L i rows = filter (\<lambda>r. out_event_type r = REPORT_TYPE \<and> out_aggregate r = capture_ref L i) rows"

lemma reports_append [simp]: "reports_of L i (xs @ ys) = reports_of L i xs @ reports_of L i ys"
  by (simp add: reports_of_def)

lemma entity_Inr: "entity C kind i = Inr ref \<Longrightarrow> ref = kind @ '':'' @ uuid_text C i"
  by (auto simp: entity_def Let_def split: if_splits)

lemma enqueue_event_Inr:
  assumes "enqueue_event C e w = (Inr x, w')"
  obtains now where "db w' = (db w)\<lparr>outbox_events := outbox_events (db w) @ [outbox_row now e]\<rparr>" "we_id e \<notin> out_id ` set (outbox_events (db w))"
  using assms
  by (auto simp: enqueue_event_def insert_outbox_def sql_Inr throw_Inr insert_unique_def outbox_row_def split: if_splits)

definition reported_to :: "capture_library \<Rightarrow> uuid \<Rightarrow> archive \<Rightarrow> archive \<Rightarrow> bool" where
  "reported_to L i d d' \<longleftrightarrow> (\<exists>r. d' = d\<lparr>outbox_events := outbox_events d @ [r]\<rparr> \<and> out_event_type r = REPORT_TYPE
     \<and> out_aggregate r = capture_ref L i \<and> out_id r \<notin> out_id ` set (outbox_events d))"

lemma enqueue_reported:
  assumes "enqueue_event C e w = (Inr x, w')" and "we_type e = REPORT_TYPE" and "we_aggregate_id e = capture_ref L i"
  shows "reported_to L i (db w) (db w')"
  using assms(1)
proof (rule enqueue_event_Inr)
  fix now assume "db w' = (db w)\<lparr>outbox_events := outbox_events (db w) @ [outbox_row now e]\<rparr>" "we_id e \<notin> out_id ` set (outbox_events (db w))"
  then show ?thesis
    using assms(2,3) unfolding reported_to_def by (intro exI [of _ "outbox_row now e"]) (simp add: outbox_row_def)
qed

lemma queue_capture_report_Inr:
  assumes "report_laws L" and "queue_capture_report L owner operation i command report w = (Inr x, w')"
  shows "reported_to L i (db w) (db w')"
proof -
  from assms(2) obtain aggregate e where
    a: "entity (cl_contracts L) ''capture'' i = Inr aggregate"
    and e: "cl_report_envelope L PRODUCER owner operation aggregate command (uuids (sched w) (tick w) 0) report = Some e"
    and q: "enqueue_event (cl_contracts L) e (advance w) = (Inr x, w')"
    by (auto simp: queue_capture_report_def io_run split: option.splits)
  have "aggregate = capture_ref L i" using entity_Inr [OF a] by (simp add: capture_ref_def)
  with enqueue_reported [OF q] e assms(1) show ?thesis by (auto simp: report_laws_def)
qed

lemma queue_report_Inr:
  assumes "report_laws L" and "queue_report L c report w = (Inr x, w')"
  shows "reported_to L (cc_capture_id c) (db w) (db w')"
proof -
  from assms(2) obtain aggregate e where
    a: "entity (cl_contracts L) ''capture'' (cc_capture_id c) = Inr aggregate"
    and e: "cl_report_envelope L PRODUCER (cc_owner c) (cc_operation_id c) aggregate (cc_command_id c)
       (uuids (sched w) (tick w) 0) report = Some e"
    and q: "enqueue_event (cl_contracts L) e (advance w) = (Inr x, w')"
    by (auto simp: queue_report_def io_run split: option.splits if_splits)
  have "aggregate = capture_ref L (cc_capture_id c)" using entity_Inr [OF a] by (simp add: capture_ref_def)
  with enqueue_reported [OF q] e assms(1) show ?thesis by (auto simp: report_laws_def)
qed

section \<open>Sources of an owner\<close>

context frame
begin

lemma within_bind_Inr:
  assumes "within R m" and "\<And>w x w'. m w = (Inr x, w') \<Longrightarrow> within R (k x)"
  shows "within R (bind_io m k)"
  unfolding within_def
proof
  fix w
  obtain r v where r: "m w = (r, v)" by fastforce
  show "R (db w) (db (snd (bind_io m k w)))"
  proof (cases r)
    case (Inl e)
    with r withinD [OF assms(1) r] show ?thesis by (simp add: bind_io_def)
  next
    case (Inr x)
    obtain q u where q: "k x v = (q, u)" by fastforce
    from frame_trans [OF withinD [OF assms(1) r] withinD [OF assms(2) q]] r Inr q show ?thesis by (simp add: bind_io_def)
  qed
qed

end

text \<open>Writing and removing an owner's source touches that table and queues events that are not reports.\<close>

definition source_frame :: "archive \<Rightarrow> archive \<Rightarrow> bool" where
  "source_frame d d' \<longleftrightarrow>
     d'\<lparr>explicit_sources := [], outbox_events := []\<rparr> = d\<lparr>explicit_sources := [], outbox_events := []\<rparr>
     \<and> (keyed_by out_id (outbox_events d) \<longrightarrow> keyed_by out_id (outbox_events d'))
     \<and> (\<exists>new. outbox_events d' = outbox_events d @ new \<and> (\<forall>r \<in> set new. out_event_type r \<noteq> REPORT_TYPE))"

interpretation sourcing: frame source_frame
proof
  fix d show "source_frame d d" by (simp add: source_frame_def)
next
  fix d d' d'' assume "source_frame d d'" "source_frame d' d''"
  then show "source_frame d d''" by (auto simp: source_frame_def)
qed

lemma enqueue_sourcing: "we_type e \<noteq> REPORT_TYPE \<Longrightarrow> within source_frame (enqueue_event C e)"
  unfolding enqueue_event_def insert_outbox_def
  by (intro sourcing.within_intros sourcing.within_sql)
     (auto simp: source_frame_def insert_unique_Some keyed_by_snoc outbox_row_def split: if_splits)

lemma build_envelope_type: "build_envelope C f etype payload w = (Inr e, w') \<Longrightarrow> we_type e = etype"
  by (auto simp: build_envelope_def io_run split: if_splits)

lemma queue_event_sourcing: "etype \<noteq> REPORT_TYPE \<Longrightarrow> within source_frame (queue_event C f etype payload)"
proof -
  assume t: "etype \<noteq> REPORT_TYPE"
  have b: "within source_frame (build_envelope C f etype payload)"
    unfolding build_envelope_def by (intro sourcing.within_intros)
  show ?thesis unfolding queue_event_def
    by (rule sourcing.within_bind_Inr [OF b]) (use t build_envelope_type in \<open>auto intro!: sourcing.within_intros enqueue_sourcing\<close>)
qed

lemma source_types: "source_event_type kind \<noteq> REPORT_TYPE" "REMOVAL_EVENT_TYPE \<noteq> REPORT_TYPE"
  by (cases kind) (simp_all add: REPORT_TYPE_def REMOVAL_EVENT_TYPE_def)

lemma remove_owner_source_frame: "within source_frame (remove_owner_source C c t)"
proof -
  have s: "within source_frame (sql PcQuery (\<lambda>now u d.
         Some (map_option xs_social_source_id (select_one (owner_post c) (explicit_sources d)),
               d\<lparr>explicit_sources := filter (\<lambda>s. \<not> owner_post c s) (explicit_sources d)\<rparr>)))"
    by (rule sourcing.within_sql) (auto simp: source_frame_def)
  show ?thesis
    unfolding remove_owner_source_def by (intro sourcing.within_intros s queue_event_sourcing source_types)
qed

lemma upsert_owner_source_frame: "within source_frame (upsert_owner_source C c p)"
proof -
  have s: "within source_frame (store_owner_source c p src digest)" for src digest
    unfolding store_owner_source_def by (rule sourcing.within_sql) (auto simp: source_frame_def split: if_splits)
  have q: "within source_frame (queue_source_event C owner kind src snap t)" for owner kind src snap t
    unfolding queue_source_event_def by (intro sourcing.within_intros queue_event_sourcing source_types)
  have w: "within source_frame (write_owner_source C c p digest src kind)" for digest src kind
    unfolding write_owner_source_def by (intro sourcing.within_intros s q)
  show ?thesis unfolding upsert_owner_source_def by (intro sourcing.within_intros w)
qed

section \<open>One terminal report for every capture\<close>

text \<open>
  The reports of a capture: the first is queued when it is stored, and a capture that named a status gets a second one, the
  terminal report, exactly when it is marked reported. A capture is open as long as it is not reported.
\<close>

definition reports_due :: "explicit_capture \<Rightarrow> nat" where
  "reports_due c = (if xc_provider_post_id c \<noteq> None \<and> xc_reported_at c \<noteq> None then 2 else 1)"

definition capture_wf :: "explicit_capture \<Rightarrow> bool" where
  "capture_wf c \<longleftrightarrow> (xc_status c = CaptureAccepted \<longleftrightarrow> xc_reported_at c = None)
     \<and> (xc_status c = CaptureAccepted \<longrightarrow> xc_provider_post_id c \<noteq> None)"

definition reported_once :: "capture_library \<Rightarrow> archive \<Rightarrow> bool" where
  "reported_once L d \<longleftrightarrow> keyed_by xc_capture_id (explicit_captures d) \<and> keyed_by out_id (outbox_events d)
     \<and> (\<forall>c \<in> set (explicit_captures d). capture_wf c \<and> length (reports_of L (xc_capture_id c) (outbox_events d)) = reports_due c)
     \<and> (\<forall>i. i \<notin> xc_capture_id ` set (explicit_captures d) \<longrightarrow> reports_of L i (outbox_events d) = [])"

inductive capture_step :: "capture_library \<Rightarrow> archive \<Rightarrow> archive \<Rightarrow> bool" for L where
  step_persist: "persist_browser_capture L command w = (r, w') \<Longrightarrow> capture_step L (db w) (db w')"
| step_claim: "claim_due W w = (r, w') \<Longrightarrow> capture_step L (db w) (db w')"
| step_defer: "defer_capture c w = (r, w') \<Longrightarrow> capture_step L (db w) (db w')"
| step_terminate: "terminate L c failure w = (r, w') \<Longrightarrow> capture_step L (db w) (db w')"
| step_preserve: "preserve L c p w = (r, w') \<Longrightarrow> capture_step L (db w) (db w')"
| step_relay: "run_once E w = (r, w') \<Longrightarrow> capture_step L (db w) (db w')"

lemma reported_onceI:
  assumes "reported_once L d" and "explicit_captures d' = update_where p f (explicit_captures d)"
    and "keyed_by out_id (outbox_events d')"
    and "\<And>i. i \<notin> xc_capture_id ` set (explicit_captures d) \<Longrightarrow> reports_of L i (outbox_events d') = reports_of L i (outbox_events d)"
    and "\<And>c. c \<in> set (explicit_captures d) \<Longrightarrow> p c \<Longrightarrow> xc_capture_id (f c) = xc_capture_id c \<and> capture_wf (f c)
      \<and> length (reports_of L (xc_capture_id c) (outbox_events d')) = reports_due (f c)"
    and "\<And>c. c \<in> set (explicit_captures d) \<Longrightarrow> \<not> p c \<Longrightarrow>
      length (reports_of L (xc_capture_id c) (outbox_events d')) = length (reports_of L (xc_capture_id c) (outbox_events d))"
  shows "reported_once L d'"
proof -
  have k: "map xc_capture_id (explicit_captures d') = map xc_capture_id (explicit_captures d)"
    unfolding assms(2) by (rule map_update_where) (use assms(5) in blast)
  then have ids: "xc_capture_id ` set (explicit_captures d') = xc_capture_id ` set (explicit_captures d)"
    by (metis set_map)
  have "capture_wf c \<and> length (reports_of L (xc_capture_id c) (outbox_events d')) = reports_due c" if "c \<in> set (explicit_captures d')" for c
  proof -
    from that obtain x where x: "x \<in> set (explicit_captures d)" "c = (if p x then f x else x)"
      by (auto simp: assms(2) update_where_def)
    with assms(1) assms(5,6) [of x] show ?thesis by (auto simp: reported_once_def)
  qed
  moreover have "keyed_by xc_capture_id (explicit_captures d')" using assms(1) k by (simp add: reported_once_def keyed_by_def)
  ultimately show ?thesis using assms(1,3,4) ids by (auto simp: reported_once_def)
qed

lemma reported_once_captures_only:
  assumes "reported_once L d" and "d' = d\<lparr>explicit_captures := update_where p f (explicit_captures d)\<rparr>"
    and "\<And>c. p c \<Longrightarrow> capture_wf c \<Longrightarrow> xc_capture_id (f c) = xc_capture_id c \<and> capture_wf (f c) \<and> reports_due (f c) = reports_due c"
  shows "reported_once L d'"
  by (rule reported_onceI [OF assms(1), where p = p and f = f]) (use assms in \<open>auto simp: reported_once_def\<close>)

lemma capture_open_unique:
  assumes "reported_once L d" and "length (filter (capture_open c) (explicit_captures d)) = 1"
  obtains x where "x \<in> set (explicit_captures d)" "capture_open c x"
    "\<And>y. y \<in> set (explicit_captures d) \<Longrightarrow> xc_capture_id y = cc_capture_id c \<Longrightarrow> y = x"
proof -
  from assms(2) obtain x where "filter (capture_open c) (explicit_captures d) = [x]" by (auto simp: length_Suc_conv)
  then have x: "x \<in> set (explicit_captures d)" "capture_open c x" by (auto simp: filter_eq_Cons_iff)
  moreover have "y = x" if "y \<in> set (explicit_captures d)" "xc_capture_id y = cc_capture_id c" for y
    using keyed_by_inj [of xc_capture_id] assms(1) x that by (metis reported_once_def capture_open_def)
  ultimately show thesis by (rule that)
qed

text \<open>Closing the open row of a capture goes with exactly one report.\<close>

lemma reported_once_close:
  assumes "reported_once L d" and "inj (uuid_text (cl_contracts L))"
    and "length (filter (capture_open c) (explicit_captures d)) = 1"
    and "d1 = d\<lparr>explicit_captures := update_where (capture_open c) f (explicit_captures d)\<rparr>"
    and "source_frame d1 d2" and "reported_to L (cc_capture_id c) d2 d3"
    and "\<And>x. xc_capture_id (f x) = xc_capture_id x \<and> xc_provider_post_id (f x) = xc_provider_post_id x
      \<and> xc_status (f x) \<noteq> CaptureAccepted \<and> xc_reported_at (f x) \<noteq> None"
  shows "reported_once L d3"
proof -
  from assms(5) obtain new where new: "outbox_events d2 = outbox_events d @ new" "\<forall>r \<in> set new. out_event_type r \<noteq> REPORT_TYPE"
    and c2: "explicit_captures d2 = explicit_captures d1" and k2: "keyed_by out_id (outbox_events d2)"
    using assms(1) by (auto simp: source_frame_def assms(4) reported_once_def) (metis archive.select_convs(35) archive.surjective archive.update_convs)+
  from assms(6) obtain r where r: "d3 = d2\<lparr>outbox_events := outbox_events d2 @ [r]\<rparr>" "out_event_type r = REPORT_TYPE"
    "out_aggregate r = capture_ref L (cc_capture_id c)" "out_id r \<notin> out_id ` set (outbox_events d2)"
    by (auto simp: reported_to_def)
  have ref: "capture_ref L i = capture_ref L j \<longleftrightarrow> i = j" for i j
    using assms(2) by (auto simp: capture_ref_def dest: injD)
  have "reports_of L i new = []" for i using new(2) by (auto simp: reports_of_def filter_empty_conv)
  then have rep: "reports_of L i (outbox_events d3) = reports_of L i (outbox_events d) @ (if i = cc_capture_id c then [r] else [])" for i
    by (simp add: r new(1)) (simp add: reports_of_def r ref)
  obtain x where x: "x \<in> set (explicit_captures d)" "capture_open c x"
    "\<And>y. y \<in> set (explicit_captures d) \<Longrightarrow> xc_capture_id y = cc_capture_id c \<Longrightarrow> y = x"
    using capture_open_unique [OF assms(1,3)] by metis
  show ?thesis
  proof (rule reported_onceI [OF assms(1), where p = "capture_open c" and f = f])
    show "explicit_captures d3 = update_where (capture_open c) f (explicit_captures d)" by (simp add: r c2 assms(4))
    show "keyed_by out_id (outbox_events d3)" using k2 r by (simp add: keyed_by_snoc)
    show "reports_of L i (outbox_events d3) = reports_of L i (outbox_events d)"
      if "i \<notin> xc_capture_id ` set (explicit_captures d)" for i
    proof -
      have "cc_capture_id c \<in> xc_capture_id ` set (explicit_captures d)" using x(1,2) by (force simp: capture_open_def)
      with that show ?thesis by (auto simp: rep)
    qed
    show "length (reports_of L (xc_capture_id y) (outbox_events d3)) = length (reports_of L (xc_capture_id y) (outbox_events d))"
      if "y \<in> set (explicit_captures d)" "\<not> capture_open c y" for y
      using that x by (auto simp: rep)
    show "xc_capture_id (f y) = xc_capture_id y \<and> capture_wf (f y) \<and> length (reports_of L (xc_capture_id y) (outbox_events d3)) = reports_due (f y)"
      if "y \<in> set (explicit_captures d)" "capture_open c y" for y
      using that assms(1) assms(7) [of y] by (auto simp: rep reported_once_def capture_open_def capture_wf_def reports_due_def)
  qed
qed


lemma advance_capture_Inr:
  assumes "advance_capture c f w = (Inr guarded, w')"
  shows "guarded \<longleftrightarrow> length (filter (capture_open c) (explicit_captures (db w))) = 1"
    and "db w' = (db w)\<lparr>explicit_captures :=
      update_where (capture_open c) (\<lambda>x. (f x)\<lparr>xc_attempts := xc_attempts x + 1\<rparr>) (explicit_captures (db w))\<rparr>"
  using assms by (auto simp: advance_capture_def sql_Inr split: if_splits)

lemma not_open_unchanged:
  assumes "reported_once L d" and "length (filter (capture_open c) (explicit_captures d)) \<noteq> 1"
  shows "update_where (capture_open c) f (explicit_captures d) = explicit_captures d"
proof -
  have "x \<notin> set (explicit_captures d)" if "capture_open c x" for x
  proof
    assume x: "x \<in> set (explicit_captures d)"
    have "filter (capture_open c) (explicit_captures d) = [x]"
      using assms(1) that by (intro filter_keyed_one [of xc_capture_id, OF _ x]) (auto simp: reported_once_def capture_open_def)
    with assms(2) show False by simp
  qed
  then show ?thesis by (auto intro: update_where_none)
qed

lemma claim_reported: "claim_due W w = (r, w') \<Longrightarrow> reported_once L (db w) \<Longrightarrow> reported_once L (db w')"
proof (cases r)
  case (Inr x)
  assume c: "claim_due W w = (r, w')" and inv: "reported_once L (db w)"
  let ?now = "clock (sched w) (tick w)"
  let ?due = "due_captures ?now (unat (cpo_batch_size (cw_policy W))) (db w)"
  from c Inr have "db w' = (db w)\<lparr>explicit_captures := update_where (\<lambda>c. xc_capture_id c \<in> xc_capture_id ` set ?due)
      (\<lambda>c. c\<lparr>xc_next_attempt_at := ?now + LEASE\<rparr>) (explicit_captures (db w))\<rparr>"
    by (auto simp: claim_due_def io_run Let_def)
  with inv show ?thesis by (rule reported_once_captures_only) (simp add: capture_wf_def reports_due_def)
qed (auto simp: claim_due_def bind_io_def read_clock_def sql_def Let_def split: if_splits)

lemma defer_reported: "defer_capture c w = (r, w') \<Longrightarrow> reported_once L (db w) \<Longrightarrow> reported_once L (db w')"
proof -
  assume d: "defer_capture c w = (r, w')" and inv: "reported_once L (db w)"
  then obtain now f q where a: "advance_capture c f (advance w) = (q, w')" and f: "f = (\<lambda>x. x\<lparr>xc_next_attempt_at := now\<rparr>)"
    by (auto simp: defer_capture_def bind_io_def read_clock_def then_io_def ret_def split: prod.splits sum.splits)
  show ?thesis
  proof (cases q)
    case (Inl e)
    with a inv show ?thesis by (auto simp: advance_capture_def sql_def split: if_splits)
  next
    case (Inr g)
    have "db w' = (db w)\<lparr>explicit_captures :=
        update_where (capture_open c) (\<lambda>x. (f x)\<lparr>xc_attempts := xc_attempts x + 1\<rparr>) (explicit_captures (db w))\<rparr>"
      using advance_capture_Inr(2) [OF a [unfolded Inr]] by simp
    then show ?thesis by (rule reported_once_captures_only [OF inv]) (simp add: f capture_wf_def reports_due_def)
  qed
qed

lemma source_frame_captures: "source_frame d d' \<Longrightarrow> explicit_captures d' = explicit_captures d"
  unfolding source_frame_def by (metis archive.select_convs(35) archive.surjective archive.update_convs(21,36))

lemma reported_once_source:
  assumes "reported_once L d" and "source_frame d d'"
  shows "reported_once L d'"
proof -
  from assms(2) obtain new where new: "outbox_events d' = outbox_events d @ new" "\<forall>r \<in> set new. out_event_type r \<noteq> REPORT_TYPE"
    by (auto simp: source_frame_def)
  then have "reports_of L i (outbox_events d') = reports_of L i (outbox_events d)" for i
    by (auto simp: reports_of_def filter_empty_conv)
  moreover have "keyed_by out_id (outbox_events d')" using assms by (simp add: source_frame_def reported_once_def)
  ultimately show ?thesis using assms(1) source_frame_captures [OF assms(2)] by (simp add: reported_once_def)
qed

lemma report_unavailable_Inr:
  assumes "report_unavailable L c failure v = (Inr u, v1)"
  obtains v2 report where "source_frame (db v) (db v2)" "queue_report L c report v2 = (Inr u, v1)"
proof -
  from assms obtain x v2 where
    m: "(if failure = PostDeleted then bind_io read_clock (remove_owner_source (cl_contracts L) c) else ret ()) v = (Inr x, v2)"
    and q: "(case cl_unavailable_report L (cc_operation_id c) (unavailability_of failure) of
          None \<Rightarrow> throw PcReport | Some report \<Rightarrow> queue_report L c report) v2 = (Inr u, v1)"
    unfolding report_unavailable_def then_io_Inr by blast
  have "within source_frame (if failure = PostDeleted then bind_io read_clock (remove_owner_source (cl_contracts L) c) else ret ())"
    by (intro sourcing.within_intros remove_owner_source_frame)
  from withinD [OF this m] q show thesis by (auto intro: that simp: throw_Inr split: option.splits)
qed

lemma terminate_reported:
  assumes "report_laws L" and "terminate L c failure w = (r, w')" and inv: "reported_once L (db w)"
  shows "reported_once L (db w')"
proof (cases r)
  case (Inl e)
  from transaction_Inl_db [OF assms(2) [unfolded terminate_def Inl]] inv show ?thesis by simp
next
  case (Inr u)
  let ?v0 = "advance (advance ((advance w)\<lparr>txn_at := Some (clock (sched w) (tick w))\<rparr>))"
  let ?now = "clock (sched w) (Suc (Suc (tick w)))"
  have d0: "db ?v0 = db w" by simp
  from assms(2) Inr obtain guarded v v1 where
    a: "advance_capture c (\<lambda>x. x\<lparr>xc_status := CaptureUnavailable, xc_reported_at := Some ?now, xc_next_attempt_at := ?now\<rparr>) ?v0 = (Inr guarded, v)"
    and rest: "(if guarded then report_unavailable L c failure else ret ()) v = (Inr u, v1)" and d1: "db w' = db v1"
    by (auto simp: terminate_def terminate_body_def io_run lock_owner_post_def)
  note adv = advance_capture_Inr [OF a, unfolded d0]
  show ?thesis
  proof (cases guarded)
    case True
    with rest obtain v2 report where s: "source_frame (db v) (db v2)" and q: "queue_report L c report v2 = (Inr u, v1)"
      by (auto elim: report_unavailable_Inr)
    show ?thesis
      unfolding d1
      by (rule reported_once_close [OF inv _ _ adv(2) s queue_report_Inr [OF assms(1) q]])
         (use assms(1) True adv(1) in \<open>auto simp: report_laws_def\<close>)
  next
    case False
    with adv not_open_unchanged [OF inv] have "db v = db w" by simp
    with rest False d1 inv show ?thesis by (simp add: ret_Inr)
  qed
qed

lemma preserve_reported:
  assumes "report_laws L" and "preserve L c p w = (r, w')" and inv: "reported_once L (db w)"
  shows "reported_once L (db w')"
proof (cases r)
  case (Inl e)
  from transact_Inl_db [OF assms(2) [unfolded preserve_def Inl]] inv show ?thesis by simp
next
  case (Inr u)
  let ?w = "(advance w)\<lparr>txn_at := Some (clock (sched w) (tick w))\<rparr>"
  from assms(2) Inr obtain e v where body: "preserve_body L c p ?w = (Inr e, v)"
    and d: "e = Commit () \<and> db w' = db v \<or> e = Rollback () \<and> db w' = db w"
    by (auto simp: preserve_def transact_Inr)
  show ?thesis
  proof (cases e)
    case (Commit x)
    with body obtain src v1 v2 report where
      s: "upsert_owner_source (cl_contracts L) c p (advance ?w) = (Inr src, v1)"
      and a: "advance_capture c (\<lambda>x. x\<lparr>xc_status := CaptureResolved, xc_social_source_id := Some src,
             xc_reported_at := Some (clock (sched v1) (tick v1)), xc_next_attempt_at := clock (sched v1) (tick v1)\<rparr>) (advance v1) = (Inr True, v2)"
      and q: "queue_report L c report v2 = (Inr (), v)"
      by (auto simp: preserve_body_def report_preserved_def io_run lock_owner_post_def split: if_splits option.splits)
    have "source_frame (db w) (db v1)" using withinD [OF upsert_owner_source_frame s] by simp
    from reported_once_source [OF inv this] have inv1: "reported_once L (db v1)" .
    have "reported_once L (db v)"
      by (rule reported_once_close [OF inv1 _ _ _ sourcing.frame_refl queue_report_Inr [OF assms(1) q]])
         (use assms(1) advance_capture_Inr [OF a] in \<open>auto simp: report_laws_def\<close>)
    with d Commit show ?thesis by auto
  qed (use d inv in auto)
qed

lemma persist_cases:
  assumes "persist_browser_capture L command w = (r, w')"
  obtains (unchanged) "db w' = db w"
  | (applied) capture owner t v v' x where "r = Inr DeliveryApplied" "validate_browser_capture L command = Inr ()"
      "cl_payload L (ce_payload command) = Some capture" "ce_tenant_id command = Some owner"
      "ce_command_id command \<notin> inb_event_id ` set (inbox_events (db w))"
      "\<exists>document now. db v = (db w)\<lparr>inbox_events := inbox_events (db w) @ [command_row command document now]\<rparr>"
      "apply_capture L command capture owner t v = (Inr x, v')" "db w' = db v'"
proof (cases "validate_browser_capture L command")
  case (Inl e)
  with assms show thesis by (intro unchanged) (simp add: persist_browser_capture_def throw_def)
next
  case (Inr u)
  then obtain capture owner where p: "cl_payload L (ce_payload command) = Some capture" "ce_tenant_id command = Some owner"
    by (auto simp: validate_browser_capture_def split: option.splits if_splits)
  show thesis
  proof (cases "cl_parse_time L (cq_captured_at capture)")
    case None
    with Inr p assms show thesis by (intro unchanged) (simp add: persist_browser_capture_def throw_def)
  next
    case (Some t)
    let ?body = "bind_io (claim_command L command) (\<lambda>claimed.
        if \<not> claimed then ret (Rollback DeliveryDuplicate)
        else bind_io (apply_capture L command capture owner t) (\<lambda>x. ret (Commit x)))"
    from Inr p Some assms have t: "transact DPersistence ?body w = (r, w')"
      by (simp add: persist_browser_capture_def)
    show thesis
    proof (cases r)
      case (Inl e)
      from transact_Inl_db [OF t [unfolded Inl]] show thesis by (rule unchanged)
    next
      case (Inr y)
      let ?w = "(advance w)\<lparr>txn_at := Some (clock (sched w) (tick w))\<rparr>"
      from t Inr obtain e v1 where b: "?body ?w = (Inr e, v1)" and e: "e = Commit y \<and> db w' = db v1 \<or> e = Rollback y \<and> db w' = db w"
        by (auto simp: transact_Inr)
      show thesis
      proof (cases e)
        case (Rollback z)
        with e show thesis by (intro unchanged) simp
      next
        case (Commit z)
        with b obtain v where c: "claim_command L command ?w = (Inr True, v)" and a: "apply_capture L command capture owner t v = (Inr z, v1)"
          by (auto simp: io_run split: if_splits)
        from c have "ce_command_id command \<notin> inb_event_id ` set (inbox_events (db w))"
          "\<exists>document now. db v = (db w)\<lparr>inbox_events := inbox_events (db w) @ [command_row command document now]\<rparr>"
          by (auto simp: claim_command_def io_run insert_ignore_def command_row_def split: option.splits)
        moreover have "z = DeliveryApplied" using a by (auto simp: apply_capture_def io_run split: option.splits)
        ultimately show thesis using p a e Commit \<open>r = Inr y\<close> \<open>validate_browser_capture L command = Inr u\<close>
          by (intro applied) auto
      qed
    qed
  qed
qed

lemma apply_capture_Inr:
  assumes "report_laws L" and "apply_capture L command capture owner t v = (Inr x, v')"
  obtains i now where "i \<notin> xc_capture_id ` set (explicit_captures (db v))" "ce_command_id command \<notin> xc_command_id ` set (explicit_captures (db v))"
    "reported_to L i ((db v)\<lparr>explicit_captures := explicit_captures (db v) @ [capture_row i command capture owner t now]\<rparr>) (db v')"
proof -
  let ?i = "uuids (sched v) (tick v) 0"
  from assms(2) obtain report v1 y where
    ins: "insert_capture ?i command capture owner t (advance v) = (Inr (), v1)"
    and q: "queue_capture_report L owner (cq_operation_id capture) ?i (ce_command_id command) report v1 = (Inr y, v')"
    by (auto simp: apply_capture_def io_run split: option.splits)
  let ?now = "db_now (advance v)"
  have new: "?i \<notin> xc_capture_id ` set (explicit_captures (db v))" "ce_command_id command \<notin> xc_command_id ` set (explicit_captures (db v))"
    "db v1 = (db v)\<lparr>explicit_captures := explicit_captures (db v) @ [capture_row ?i command capture owner t ?now]\<rparr>"
    using ins by (simp_all add: insert_capture_def sql_Inr split: if_splits)
  show thesis by (rule that [OF new(1,2)]) (use queue_capture_report_Inr [OF assms(1) q] new(3) in simp)
qed

lemma reported_toE:
  assumes "reported_to L i d d'"
  obtains r where "d' = d\<lparr>outbox_events := outbox_events d @ [r]\<rparr>" "out_event_type r = REPORT_TYPE"
    "out_aggregate r = capture_ref L i" "out_id r \<notin> out_id ` set (outbox_events d)"
  using assms unfolding reported_to_def by blast

lemma capture_row_wf: "capture_wf (capture_row i command capture owner t now)" "reports_due (capture_row i command capture owner t now) = 1"
  "xc_capture_id (capture_row i command capture owner t now) = i"
  by (simp_all add: capture_wf_def reports_due_def capture_row_def Let_def)

lemma persist_reported:
  assumes "report_laws L" and "persist_browser_capture L command w = (r, w')" and inv: "reported_once L (db w)"
  shows "reported_once L (db w')"
  using assms(2)
proof (cases rule: persist_cases)
  case (applied capture owner t v v' x)
  from applied(6) have v: "explicit_captures (db v) = explicit_captures (db w)" "outbox_events (db v) = outbox_events (db w)" by auto
  from apply_capture_Inr [OF assms(1) applied(7)] obtain i now where
    i: "i \<notin> xc_capture_id ` set (explicit_captures (db w))"
    and rep: "reported_to L i ((db v)\<lparr>explicit_captures := explicit_captures (db w) @ [capture_row i command capture owner t now]\<rparr>) (db w')"
    unfolding v applied(8) by metis
  let ?d = "(db v)\<lparr>explicit_captures := explicit_captures (db w) @ [capture_row i command capture owner t now]\<rparr>"
  obtain r where rr: "db w' = ?d\<lparr>outbox_events := outbox_events ?d @ [r]\<rparr>" and rt: "out_event_type r = REPORT_TYPE"
    "out_aggregate r = capture_ref L i" "out_id r \<notin> out_id ` set (outbox_events ?d)"
    using rep by (rule reported_toE)
  have r: "outbox_events (db w') = outbox_events (db w) @ [r]" "out_event_type r = REPORT_TYPE"
    "out_aggregate r = capture_ref L i" "out_id r \<notin> out_id ` set (outbox_events (db w))"
    "explicit_captures (db w') = explicit_captures (db w) @ [capture_row i command capture owner t now]"
    using rt by (simp_all add: rr v)
  have "inj (uuid_text (cl_contracts L))" using assms(1) by (simp add: report_laws_def)
  then have ref: "capture_ref L i = capture_ref L j \<longleftrightarrow> i = j" for j
    by (auto simp: capture_ref_def dest: injD)
  have rep: "reports_of L j (outbox_events (db w')) = reports_of L j (outbox_events (db w)) @ (if j = i then [r] else [])" for j
    unfolding r(1) reports_append by (simp add: reports_of_def r(2,3) ref)
  let ?cs = "explicit_captures (db w)"
  have old: "capture_wf c" "length (reports_of L (xc_capture_id c) (outbox_events (db w'))) = reports_due c" if "c \<in> set ?cs" for c
  proof -
    have "xc_capture_id c \<noteq> i" using that i by blast
    with that inv show "capture_wf c" "length (reports_of L (xc_capture_id c) (outbox_events (db w'))) = reports_due c"
      by (simp_all add: rep reported_once_def)
  qed
  have new: "length (reports_of L i (outbox_events (db w'))) = 1" using inv i by (simp add: rep reported_once_def)
  have none: "reports_of L j (outbox_events (db w')) = []" if "j \<notin> insert i (xc_capture_id ` set ?cs)" for j
    using that inv by (simp add: rep reported_once_def)
  have keys: "keyed_by xc_capture_id ?cs" "keyed_by out_id (outbox_events (db w))" using inv by (simp_all add: reported_once_def)
  show ?thesis
    unfolding reported_once_def r(5)
  proof (intro conjI)
    show "keyed_by xc_capture_id (?cs @ [capture_row i command capture owner t now])"
      using keys i by (simp add: keyed_by_snoc capture_row_wf)
    show "keyed_by out_id (outbox_events (db w'))" using keys r by (simp add: keyed_by_snoc)
  qed (use old new none in \<open>auto simp: capture_row_wf\<close>)
qed (use inv in simp)

lemma relay_reported:
  assumes "run_once E w = (r, w')" and inv: "reported_once L (db w)"
  shows "reported_once L (db w')"
proof -
  have k: "keyed_by out_id (outbox_events (db w))" using inv by (simp add: reported_once_def)
  note f = run_once_frame [OF assms(1) k]
  from f have c: "explicit_captures (db w') = explicit_captures (db w)"
    unfolding relay_frame_def by (metis archive.select_convs(35) archive.surjective archive.update_convs(21))
  have "length (reports_of L i xs) = length (reports_of L i ys)" if "list_all2 (carried E) ys xs" for i xs ys
    using that by (induction rule: list_all2_induct) (auto simp: reports_of_def carried_def message_def)
  then have n: "length (reports_of L i (outbox_events (db w'))) = length (reports_of L i (outbox_events (db w)))" for i
    using f by (simp add: relay_frame_def)
  moreover have "keyed_by out_id (outbox_events (db w'))" by (rule keyed_frame [OF f k])
  ultimately show ?thesis using inv c n by (simp add: reported_once_def flip: length_0_conv)
qed

lemma capture_step_reported:
  "capture_step L d d' \<Longrightarrow> report_laws L \<Longrightarrow> reported_once L d \<Longrightarrow> reported_once L d'"
  by (induction rule: capture_step.induct)
     (blast intro: persist_reported claim_reported defer_reported terminate_reported preserve_reported relay_reported)+

section \<open>The worker takes only such steps\<close>

interpretation capturing: frame "(capture_step L)\<^sup>*\<^sup>*" for L
  by unfold_locales auto

lemma worker_steps:
  "within (capture_step L)\<^sup>*\<^sup>* (claim_due W)" "within (capture_step L)\<^sup>*\<^sup>* (defer_capture c)"
  "within (capture_step L)\<^sup>*\<^sup>* (terminate L c failure)" "within (capture_step L)\<^sup>*\<^sup>* (preserve L c p)"
  unfolding within_def by (metis capture_step.intros prod.collapse r_into_rtranclp)+

lemma process_capture_steps:
  assumes "\<And>post. within (=) (cw_resolver W post)"
  shows "within (capture_step (cw_library W))\<^sup>*\<^sup>* (process_capture W c summary)"
proof -
  have r: "within (capture_step (cw_library W))\<^sup>*\<^sup>* (cw_resolver W post)" for post
    using assms by (simp add: within_def)
  show ?thesis
    unfolding process_capture_def conclude_preserve_def
    by (intro capturing.within_intros worker_steps r)
qed

lemma run_due_once_steps:
  assumes "\<And>post. within (=) (cw_resolver W post)"
  shows "within (capture_step (cw_library W))\<^sup>*\<^sup>* (run_due_once W)"
  unfolding run_due_once_def
  by (intro capturing.within_intros worker_steps process_capture_steps assms)

text \<open>
  C10. Every explicit capture is reported exactly once, under every interleaving. In every archive reached from a consistent one by
  deliveries of commands, claims, deferrals, terminations and preservations of any number of workers (with claims however stale) and
  relay passes, each in any order and under every schedule of faults, a capture has the one report it was stored with, plus exactly one
  terminal report if it named a status and has been marked reported; it is open exactly until then; nothing reports a
  capture that is not stored; and a worker's pass is a sequence of such steps. (The report library builds report envelopes for the aggregate it is given.)
\<close>

theorem capture_reported_once:
  assumes "report_laws L" and "reported_once L d" and "(capture_step L)\<^sup>*\<^sup>* d d'"
    and "cw_library W = L" and "\<And>post. within (=) (cw_resolver W post)" and "run_due_once W w = (r, w')" and "db w = d'"
  shows "reported_once L d' \<and> (capture_step L)\<^sup>*\<^sup>* d (db w') \<and> reported_once L (db w')"
proof -
  have steps: "reported_once L x" if "(capture_step L)\<^sup>*\<^sup>* d x" for x
    using that assms(2) by (induction rule: rtranclp_induct) (blast intro: capture_step_reported [OF _ assms(1)])+
  have "(capture_step L)\<^sup>*\<^sup>* d' (db w')"
    using withinD [OF run_due_once_steps [OF assms(5)] assms(6)] assms(4,7) by simp
  with assms(3) have "(capture_step L)\<^sup>*\<^sup>* d (db w')" by (rule rtranclp_trans)
  with steps assms(3) show ?thesis by blast
qed

end
