(* ===== verification/Capture_Lifecycle.thy ===== *)
theory Capture_Lifecycle
  imports Capture_Reports
begin

text \<open>
  A command is applied once; a capture ends or backs off; it stays with its owner.
\<close>

section \<open>A command is applied once\<close>

lemma persist_again:
  assumes "persist_browser_capture L command w = (r, w')" and "ce_command_id command \<in> inb_event_id ` set (inbox_events (db w))"
    and "validate_browser_capture L command = Inr ()" and "cl_payload L (ce_payload command) = Some capture"
    and "cl_parse_time L (cq_captured_at capture) = Some t" and "cl_to_json L command = Some document"
  shows "r \<in> {Inr DeliveryDuplicate, Inl DPersistence} \<and> db w' = db w"
proof -
  obtain owner where o: "ce_tenant_id command = Some owner"
    using assms(3) by (auto simp: validate_browser_capture_def split: option.splits if_splits)
  have claim: "claim_command L command v = (if fault_now v then (Inl DPersistence, advance v) else (Inr False, advance v))"
    if "inbox_events (db v) = inbox_events (db w)" for v
    using assms(2) that by (simp add: claim_command_def assms(6) sql_def insert_ignore_def command_row_def advance_def)
  show ?thesis
    using assms(1) by (auto simp: persist_browser_capture_def assms(3-5) o transact_def bind_io_def claim ret_def split: if_splits)
qed

lemma persist_applied:
  assumes "report_laws L" and "persist_browser_capture L command w = (Inr DeliveryApplied, w')"
  obtains capture owner t document i now where "validate_browser_capture L command = Inr ()"
    "cl_payload L (ce_payload command) = Some capture" "ce_tenant_id command = Some owner"
    "cl_parse_time L (cq_captured_at capture) = Some t" "cl_to_json L command = Some document"
    "explicit_captures (db w') = explicit_captures (db w) @ [capture_row i command capture owner t now]"
    "ce_command_id command \<notin> xc_command_id ` set (explicit_captures (db w))"
    "ce_command_id command \<in> inb_event_id ` set (inbox_events (db w'))"
proof -
  from assms(2) obtain capture owner where p: "validate_browser_capture L command = Inr ()"
    "cl_payload L (ce_payload command) = Some capture" "ce_tenant_id command = Some owner"
    by (cases "validate_browser_capture L command")
       (auto simp: persist_browser_capture_def throw_def validate_browser_capture_def split: option.splits if_splits)
  with assms(2) obtain t where t: "cl_parse_time L (cq_captured_at capture) = Some t"
    by (cases "cl_parse_time L (cq_captured_at capture)") (simp_all add: persist_browser_capture_def throw_def)
  let ?w = "(advance w)\<lparr>txn_at := Some (clock (sched w) (tick w))\<rparr>"
  from assms(2) p t obtain e v1 where b: "bind_io (claim_command L command) (\<lambda>claimed.
        if \<not> claimed then ret (Rollback DeliveryDuplicate)
        else bind_io (apply_capture L command capture owner t) (\<lambda>x. ret (Commit x))) ?w = (Inr e, v1)"
    and e: "e = Commit DeliveryApplied \<and> db w' = db v1 \<or> e = Rollback DeliveryApplied \<and> db w' = db w"
    by (auto simp: persist_browser_capture_def transact_Inr)
  from b e obtain v where c: "claim_command L command ?w = (Inr True, v)"
    and a: "apply_capture L command capture owner t v = (Inr DeliveryApplied, v1)" and d: "db w' = db v1"
    by (auto simp: io_run split: if_splits)
  from c obtain document where doc: "cl_to_json L command = Some document" by (auto simp: claim_command_def throw_def split: option.splits)
  have v: "explicit_captures (db v) = explicit_captures (db w)" "inbox_events (db v) = inbox_events (db w) @ [command_row command document (db_now ?w)]"
    using c by (auto simp: claim_command_def doc sql_Inr insert_ignore_def command_row_def)
  from apply_capture_Inr [OF assms(1) a] obtain i now where n: "ce_command_id command \<notin> xc_command_id ` set (explicit_captures (db v))"
    and rep: "reported_to L i ((db v)\<lparr>explicit_captures := explicit_captures (db v) @ [capture_row i command capture owner t now]\<rparr>) (db v1)"
    by metis
  from rep have "explicit_captures (db v1) = explicit_captures (db v) @ [capture_row i command capture owner t now]"
    "inbox_events (db v1) = inbox_events (db v)" by (rule reported_toE, simp)+
  with that [OF p t doc] v d n show thesis by (simp add: command_row_def)
qed

text \<open>
  A capture command is applied once, and for its tenant. When a delivery is applied, the command is a valid capture of X by an explicit browser
  capture, exactly one capture is added, owned by the command's tenant and naming the status of its permalink, and no capture had been
  stored for the command; every later delivery of it is absorbed as a duplicate or fails on the database, and changes nothing as long as the inbox keeps it.
\<close>

theorem command_applied_once:
  assumes "report_laws L" and "persist_browser_capture L command w = (Inr DeliveryApplied, w')"
  shows "(\<exists>capture owner row. cl_payload L (ce_payload command) = Some capture \<and> cq_provider capture = ProviderX
      \<and> cq_acquisition capture = ''browser_extension'' \<and> cq_saved_authority capture = ''explicit_user_capture''
      \<and> ce_tenant_id command = Some owner
      \<and> explicit_captures (db w') = explicit_captures (db w) @ [row] \<and> xc_owner row = owner
      \<and> xc_command_id row = ce_command_id command \<and> xc_command_id row \<notin> xc_command_id ` set (explicit_captures (db w))
      \<and> xc_provider_post_id row = status_id_from_permalink (cq_original_permalink capture))
    \<and> (\<forall>w2 r w3. inbox_events (db w2) = inbox_events (db w') \<longrightarrow> persist_browser_capture L command w2 = (r, w3) \<longrightarrow>
        r \<in> {Inr DeliveryDuplicate, Inl DPersistence} \<and> db w3 = db w2)"
  using assms
proof (rule persist_applied)
  fix capture owner t document i now
  assume p: "validate_browser_capture L command = Inr ()"
    "cl_payload L (ce_payload command) = Some capture" "ce_tenant_id command = Some owner"
    "cl_parse_time L (cq_captured_at capture) = Some t" "cl_to_json L command = Some document"
    "explicit_captures (db w') = explicit_captures (db w) @ [capture_row i command capture owner t now]"
    "ce_command_id command \<notin> xc_command_id ` set (explicit_captures (db w))"
    "ce_command_id command \<in> inb_event_id ` set (inbox_events (db w'))"
  from p(1,2) have "cq_provider capture = ProviderX" "cq_acquisition capture = ''browser_extension''"
    "cq_saved_authority capture = ''explicit_user_capture''"
    by (auto simp: validate_browser_capture_def split: if_splits)
  with p have "\<exists>capture owner row. cl_payload L (ce_payload command) = Some capture \<and> cq_provider capture = ProviderX
      \<and> cq_acquisition capture = ''browser_extension'' \<and> cq_saved_authority capture = ''explicit_user_capture''
      \<and> ce_tenant_id command = Some owner
      \<and> explicit_captures (db w') = explicit_captures (db w) @ [row] \<and> xc_owner row = owner
      \<and> xc_command_id row = ce_command_id command \<and> xc_command_id row \<notin> xc_command_id ` set (explicit_captures (db w))
      \<and> xc_provider_post_id row = status_id_from_permalink (cq_original_permalink capture)"
    by (intro exI [of _ capture] exI [of _ owner] exI [of _ "capture_row i command capture owner t now"]) (simp add: capture_row_def Let_def)
  moreover have "r \<in> {Inr DeliveryDuplicate, Inl DPersistence} \<and> db w3 = db w2"
    if "inbox_events (db w2) = inbox_events (db w')" "persist_browser_capture L command w2 = (r, w3)" for w2 r w3
    by (rule persist_again [OF that(2) _ p(1,2,4,5)]) (use that(1) p(8) in simp)
  ultimately show ?thesis by blast
qed

section \<open>Every capture ends\<close>

















section \<open>A capture stays with its owner\<close>

definition shows_post :: "public_post \<Rightarrow> explicit_source \<Rightarrow> bool" where
  "shows_post p s \<longleftrightarrow> xs_provider_post_id s = pp_provider_id p \<and> xs_text s = pp_text p \<and> xs_long_text s = pp_long_text p
     \<and> xs_author_provider_id s = pa_id (pp_author p) \<and> xs_author_username s = pa_username (pp_author p)
     \<and> xs_author_display_name s = pa_name (pp_author p) \<and> xs_published_at s = pp_published_at p
     \<and> xs_expanded_urls s = pp_expanded_urls p"

definition owner_frame :: "string \<Rightarrow> claimed_capture \<Rightarrow> (public_post \<Rightarrow> bool) \<Rightarrow> archive \<Rightarrow> archive \<Rightarrow> bool" where
  "owner_frame tenant c answer d d' \<longleftrightarrow>
     d'\<lparr>explicit_captures := [], explicit_sources := [], outbox_events := []\<rparr>
       = d\<lparr>explicit_captures := [], explicit_sources := [], outbox_events := []\<rparr>
     \<and> filter (\<lambda>x. xc_capture_id x \<noteq> cc_capture_id c) (explicit_captures d')
       = filter (\<lambda>x. xc_capture_id x \<noteq> cc_capture_id c) (explicit_captures d)
     \<and> filter (\<lambda>s. \<not> owner_post c s) (explicit_sources d') = filter (\<lambda>s. \<not> owner_post c s) (explicit_sources d)
     \<and> (\<forall>s \<in> set (explicit_sources d'). s \<in> set (explicit_sources d) \<or> owner_post c s \<and> (\<exists>p. answer p \<and> shows_post p s))
     \<and> (\<exists>new. outbox_events d' = outbox_events d @ new \<and> (\<forall>r \<in> set new. we_tenant_id (out_payload r) = Some tenant))"

interpretation owning: frame "owner_frame tenant c answer" for tenant c answer
proof
  fix d :: archive show "owner_frame tenant c answer d d" by (simp add: owner_frame_def)
next
  fix d d' d'' :: archive assume "owner_frame tenant c answer d d'" "owner_frame tenant c answer d' d''"
  then show "owner_frame tenant c answer d d''" unfolding owner_frame_def by (elim conjE exE, intro conjI) (simp, simp, simp, blast, auto)
qed

interpretation owner_upsert: keyed_upsert xs_key owner_source_merge
  by unfold_locales (simp add: xs_key_def owner_source_merge_def)

lemma filter_update_same:
  "(\<And>x. p x \<Longrightarrow> \<not> q x \<and> \<not> q (f x)) \<Longrightarrow> filter q (update_where p f xs) = filter q xs"
  by (induction xs) (auto simp: update_where_def)

lemma advance_capture_owning:
  assumes "\<And>x. xc_capture_id (f x) = xc_capture_id x"
  shows "within (owner_frame tenant c answer) (advance_capture c f)"
  unfolding advance_capture_def
proof (rule owning.within_sql)
  have "filter (\<lambda>x. xc_capture_id x \<noteq> cc_capture_id c) (update_where (capture_open c) (\<lambda>x. (f x)\<lparr>xc_attempts := xc_attempts x + 1\<rparr>) xs)
      = filter (\<lambda>x. xc_capture_id x \<noteq> cc_capture_id c) xs" for xs
    by (rule filter_update_same) (simp add: capture_open_def assms)
  then show "owner_frame tenant c answer d d'"
    if "(if list_ex (\<lambda>x. capture_open c x \<and> \<not> fits_i32 (xc_attempts x + 1)) (explicit_captures d) then None
       else Some (length (filter (capture_open c) (explicit_captures d)) = 1,
              d\<lparr>explicit_captures := update_where (capture_open c) (\<lambda>x. (f x)\<lparr>xc_attempts := xc_attempts x + 1\<rparr>) (explicit_captures d)\<rparr>))
       = Some (x, d')" for d x d'
    using that by (auto simp: owner_frame_def split: if_splits)
qed

lemma enqueue_owning: "we_tenant_id e = Some tenant \<Longrightarrow> within (owner_frame tenant c answer) (enqueue_event C e)"
  unfolding enqueue_event_def insert_outbox_def
  by (intro owning.within_intros owning.within_sql)
     (auto simp: owner_frame_def insert_unique_Some outbox_row_def split: if_splits)

lemma queue_event_owning:
  assumes "tenant = tenant_ref C (ef_owner f)"
  shows "within (owner_frame tenant c answer) (queue_event C f etype payload)"
proof -
  have b: "within (owner_frame tenant c answer) (build_envelope C f etype payload)"
    unfolding build_envelope_def by (intro owning.within_intros)
  show ?thesis unfolding queue_event_def
    by (rule owning.within_bind_Inr [OF b]) (use build_envelope_Inr assms in \<open>auto intro!: owning.within_intros enqueue_owning\<close>)
qed

lemma queue_report_owning:
  assumes "report_laws L"
  shows "within (owner_frame (tenant_ref (cl_contracts L) (cc_owner c)) c answer) (queue_report L c report)"
proof -
  let ?R = "owner_frame (tenant_ref (cl_contracts L) (cc_owner c)) c answer"
  have "within ?R (case cl_report_envelope L PRODUCER (cc_owner c) (cc_operation_id c) aggregate (cc_command_id c) event_id report of
      None \<Rightarrow> throw PcReport | Some envelope \<Rightarrow> map_err PcOutbox (enqueue_event (cl_contracts L) envelope))" for aggregate event_id
    using assms by (auto simp: report_laws_def split: option.split intro!: owning.within_throw owning.within_map_err enqueue_owning)
  then show ?thesis unfolding queue_report_def
    by (intro owning.within_if owning.within_bind owning.within_map_err owning.within_throw owning.within_of_result owning.within_new_uuid)
qed

lemma remove_owner_source_owning:
  "within (owner_frame (tenant_ref C (cc_owner c)) c answer) (remove_owner_source C c t)"
proof -
  have s: "within (owner_frame (tenant_ref C (cc_owner c)) c answer) (sql PcQuery (\<lambda>now u d.
         Some (map_option xs_social_source_id (select_one (owner_post c) (explicit_sources d)),
               d\<lparr>explicit_sources := filter (\<lambda>s. \<not> owner_post c s) (explicit_sources d)\<rparr>)))"
    by (rule owning.within_sql) (auto simp: owner_frame_def)
  show ?thesis
    unfolding remove_owner_source_def by (intro owning.within_intros s queue_event_owning) simp
qed

lemma store_owner_source_owning:
  assumes "answer p" and "pp_provider_id p = cc_provider_post_id c"
  shows "within (owner_frame tenant c answer) (store_owner_source c p src digest)"
proof -
  have k: "xs_key (owner_source_of c p src digest now) = (cc_owner c, cc_provider_post_id c)" for now
    by (simp add: owner_source_of_def xs_key_def)
  have f: "filter (\<lambda>s. \<not> owner_post c s) (upsert xs_key owner_source_merge (owner_source_of c p src digest now) xs)
      = filter (\<lambda>s. \<not> owner_post c s) xs" for now xs
  proof -
    have "filter (\<lambda>s. \<not> owner_post c s) (map (\<lambda>r. if xs_key r = (cc_owner c, cc_provider_post_id c)
        then owner_source_merge (owner_source_of c p src digest now) r else r) xs) = filter (\<lambda>s. \<not> owner_post c s) xs"
      by (induction xs) (auto simp: owner_post_def owner_upsert.key_merge)
    then show ?thesis by (simp add: upsert_def k) (simp add: owner_post_def k)
  qed
  have n: "s \<in> set xs \<or> owner_post c s \<and> (\<exists>p. answer p \<and> shows_post p s)"
    if "s \<in> set (upsert xs_key owner_source_merge (owner_source_of c p src digest now) xs)" for s now xs
    using owner_upsert.upsert_cases [OF that] assms
    by (auto simp: owner_post_def k owner_upsert.key_merge shows_post_def owner_source_of_def owner_source_merge_def xs_key_def)
  show ?thesis
    unfolding store_owner_source_def
    by (rule owning.within_sql) (auto simp: owner_frame_def f split: if_splits dest: n)
qed


lemma upsert_owner_source_owning:
  assumes "answer p" and "pp_provider_id p = cc_provider_post_id c"
  shows "within (owner_frame (tenant_ref C (cc_owner c)) c answer) (upsert_owner_source C c p)"
proof -
  have q: "within (owner_frame (tenant_ref C (cc_owner c)) c answer) (queue_source_event C (cc_owner c) kind src snap t)" for kind src snap t
    unfolding queue_source_event_def by (intro owning.within_intros queue_event_owning) simp
  have w: "within (owner_frame (tenant_ref C (cc_owner c)) c answer) (write_owner_source C c p digest src kind)" for digest src kind
    unfolding write_owner_source_def by (intro owning.within_intros store_owner_source_owning assms q)
  show ?thesis unfolding upsert_owner_source_def by (intro owning.within_intros w)
qed

lemma capture_transactions_owning:
  assumes "report_laws L"
  shows "within (owner_frame (tenant_ref (cl_contracts L) (cc_owner c)) c answer) (terminate L c failure)"
    and "within (owner_frame (tenant_ref (cl_contracts L) (cc_owner c)) c answer) (defer_capture c)"
    and "answer p \<Longrightarrow> pp_provider_id p = cc_provider_post_id c \<Longrightarrow>
      within (owner_frame (tenant_ref (cl_contracts L) (cc_owner c)) c answer) (preserve L c p)"
proof -
  let ?R = "owner_frame (tenant_ref (cl_contracts L) (cc_owner c)) c answer"
  note rep = queue_report_owning [OF assms]
  have un: "within ?R (report_unavailable L c failure)"
    unfolding report_unavailable_def by (intro owning.within_intros remove_owner_source_owning rep)
  have lock: "within ?R (lock_owner_post c)" unfolding lock_owner_post_def by (intro owning.within_intros)
  show "within ?R (terminate L c failure)"
    unfolding terminate_def terminate_body_def by (intro owning.within_intros advance_capture_owning un lock) simp
  show "within ?R (defer_capture c)"
    unfolding defer_capture_def by (intro owning.within_intros advance_capture_owning) simp
  show "within ?R (preserve L c p)" if "answer p" "pp_provider_id p = cc_provider_post_id c"
    unfolding preserve_def preserve_body_def report_preserved_def
    by (intro owning.within_intros advance_capture_owning upsert_owner_source_owning that rep lock) simp
qed

lemma process_capture_owning:
  assumes "report_laws (cw_library W)" and "within (=) (cw_resolver W (cc_provider_post_id c))"
    and "process_capture W c s w = (r, w')"
    and "answer = (\<lambda>p. \<exists>v. cw_resolver W (cc_provider_post_id c) w = (Inr p, v))"
  shows "owner_frame (tenant_ref (cl_contracts (cw_library W)) (cc_owner c)) c answer (db w) (db w')"
proof -
  let ?R = "owner_frame (tenant_ref (cl_contracts (cw_library W)) (cc_owner c)) c answer"
  obtain q v where q: "cw_resolver W (cc_provider_post_id c) w = (q, v)" by fastforce
  have v: "db v = db w" using withinD [OF assms(2) q] by simp
  note run = assms(3) [unfolded process_capture_def bind_attempt [where m = "cw_resolver W (cc_provider_post_id c)", OF q]]
  note tx = capture_transactions_owning [OF assms(1), where answer = answer]
  have keep: "within ?R (conclude_preserve (cw_library W) c p s)" if "q = Inr p" "pp_provider_id p = cc_provider_post_id c" for p
  proof -
    have "answer p" using q that(1) assms(4) by auto
    from tx(3) [OF this that(2)] show ?thesis
      unfolding conclude_preserve_def by (intro owning.within_intros tx(1))
  qed
  have "?R (db v) (db w')"
  proof (cases q)
    case (Inl failure)
    have "within ?R (if failure = PostTransient \<and> has_attempts_left W c
           then then_io (defer_capture c) (ret (s\<lparr>cs_deferred := cs_deferred s + 1\<rparr>))
           else then_io (terminate (cw_library W) c failure) (ret (s\<lparr>cs_unavailable := cs_unavailable s + 1\<rparr>)))"
      by (intro owning.within_intros tx(1,2))
    from withinD [OF this] run Inl show ?thesis by simp
  next
    case (Inr p)
    have "within ?R (then_io (terminate (cw_library W) c PostInaccessible) (ret (s\<lparr>cs_unavailable := cs_unavailable s + 1\<rparr>)))"
      by (intro owning.within_intros tx(1))
    from withinD [OF this] withinD [OF keep [OF Inr]] run Inr show ?thesis by (auto split: if_splits)
  qed
  with v show ?thesis by simp
qed

text \<open>
  A capture stays with its owner and shows what the public call returned. Whatever happens while a worker settles a capture, it changes no
  other capture, no source of another owner or another post and no other table; every event it queues is addressed to the owner's tenant; and a source it
  writes is the owner's source for the captured post and carries the answer to the public lookup of that very post, never
  another one. (The resolver only reads; the report library addresses reports to the owner it is given.)
\<close>

theorem capture_stays_with_owner:
  assumes "report_laws (cw_library W)" and "within (=) (cw_resolver W (cc_provider_post_id c))" and "process_capture W c s w = (r, w')"
  shows "(db w')\<lparr>explicit_captures := [], explicit_sources := [], outbox_events := []\<rparr>
       = (db w)\<lparr>explicit_captures := [], explicit_sources := [], outbox_events := []\<rparr>
     \<and> filter (\<lambda>x. xc_capture_id x \<noteq> cc_capture_id c) (explicit_captures (db w'))
       = filter (\<lambda>x. xc_capture_id x \<noteq> cc_capture_id c) (explicit_captures (db w))
     \<and> filter (\<lambda>s. \<not> owner_post c s) (explicit_sources (db w')) = filter (\<lambda>s. \<not> owner_post c s) (explicit_sources (db w))
     \<and> (\<forall>x \<in> set (explicit_sources (db w')). x \<in> set (explicit_sources (db w)) \<or> owner_post c x
          \<and> (\<exists>p v. cw_resolver W (cc_provider_post_id c) w = (Inr p, v) \<and> shows_post p x))
     \<and> (\<exists>new. outbox_events (db w') = outbox_events (db w) @ new
          \<and> (\<forall>e \<in> set new. we_tenant_id (out_payload e) = Some (tenant_ref (cl_contracts (cw_library W)) (cc_owner c))))"
  using process_capture_owning [OF assms refl] unfolding owner_frame_def by auto

end
