(* ===== verification/Capture_Examples.thy ===== *)
theory Capture_Examples
  imports Capture_Lifecycle Writeback_Effects
begin

text \<open>
  The application's resolver meets the contract of the worker, and concrete runs of the capture path.
\<close>

section \<open>The application's resolver\<close>

text \<open>What the worker relies on: resolving a post reads nothing but the provider's answer.\<close>

locale post_resolution =
  fixes resolve :: post_resolver
  assumes reads_only: "within (=) (resolve post)" and keeps_schedule: "steady (resolve post)"
begin

lemma worker_takes_steps: "cw_resolver W = resolve \<Longrightarrow> within (capture_step (cw_library W))\<^sup>*\<^sup>* (run_due_once W)"
  by (rule run_due_once_steps) (simp add: reads_only)

end

interpretation app_bearer: post_resolution "lookup R" for R
proof
  have s: "within (=) (send_request H q :: (archive, http_failure, http_response) io)" "steady (send_request H q :: (archive, http_failure, http_response) io)" for H q
    by (simp_all add: within_def steady_def send_request_def)
  show "within (=) (lookup R post :: (public_post_failure, public_post) dbio)" for post
    unfolding lookup_def by (intro reading.within_intros s(1))
  show "steady (lookup R post :: (public_post_failure, public_post) dbio)" for post
    unfolding lookup_def by (intro steady_intros s(2))
qed

lemma read_capped_whole:
  assumes "hr_content_length r = None"
  shows "read_capped r = (if PUBLIC_MAX_BODY_BYTES < length (concat (hr_chunks r)) then Inl PostInaccessible
    else if hr_broken r \<noteq> None then Inl PostTransient else Inr (concat (hr_chunks r)))"
proof -
  have "read_capped_chunks body chunks broken = (if PUBLIC_MAX_BODY_BYTES < length body + length (concat chunks) then Inl PostInaccessible
      else if broken \<noteq> None then Inl PostTransient else Inr (body @ concat chunks))"
    if "length body \<le> PUBLIC_MAX_BODY_BYTES" for body chunks broken
    using that by (induction chunks arbitrary: body) (auto split: option.split)
  from this [of "[]"] assms show ?thesis by (simp add: read_capped_def)
qed

section \<open>A concrete capture\<close>

definition demo_captured :: capture_request where
  "demo_captured = \<lparr>cq_provider = ProviderX, cq_acquisition = ''browser_extension'', cq_saved_authority = ''explicit_user_capture'',
     cq_operation_id = 11, cq_original_permalink = ''https://x.com/u/status/42'', cq_captured_at = []\<rparr>"

definition demo_library :: capture_library where
  "demo_library = \<lparr>cl_contracts = demo_spelled, cl_from_json = (\<lambda>_. None), cl_to_json = (\<lambda>_. Some []), cl_payload = (\<lambda>_. Some demo_captured),
     cl_parse_time = (\<lambda>_. Some 5), cl_command_id_ok = (\<lambda>_. True), cl_queued_report = (\<lambda>_. Some JNull),
     cl_preserved_report = (\<lambda>_ _. Some JNull), cl_unavailable_report = (\<lambda>_ _. Some JNull),
     cl_report_envelope = (\<lambda>producer owner operation aggregate command event report. Some
       \<lparr>we_id = event, we_type = REPORT_TYPE, we_at = [], we_producer = producer, we_aggregate_id = aggregate,
        we_correlation_id = [], we_causation_id = None, we_tenant_id = Some (tenant_ref demo_spelled owner), we_payload = report\<rparr>)\<rparr>"

definition demo_command :: command_envelope where
  "demo_command = \<lparr>ce_command_id = ''k'', ce_command_type = ''x.capture.requested.v1'', ce_tenant_id = Some 70, ce_payload = JNull\<rparr>"

lemma demo_library_laws: "report_laws demo_library"
  by (simp add: report_laws_def demo_library_def demo_spelled_inj)

lemma demo_status: "status_id_from_permalink ''https://x.com/u/status/42'' = Some ''42''"
  by (simp add: status_id_from_permalink_def starts_with_def eq_ignore_ascii_case_def STATUS_HOSTS_def to_ascii_lowercase_def lower_char_def
      is_upper_def is_digit_def status_id_ok_def)

definition demo_delivered :: "(delivery_error + delivery) \<times> archive world" where
  "demo_delivered = persist_browser_capture demo_library demo_command (demo_world demo_archive)"

lemma demo_delivered_applied: "demo_delivered = (Inr DeliveryApplied, snd demo_delivered)"
proof -
  have "fst demo_delivered = Inr DeliveryApplied"
    by (simp add: demo_delivered_def persist_browser_capture_def validate_browser_capture_def demo_library_def demo_command_def demo_captured_def
        io_defs claim_command_def apply_capture_def insert_capture_def queue_capture_report_def demo_status entity_def
        enqueue_event_def insert_outbox_def insert_unique_def demo_world_def demo_archive_def demo_schedule_def empty_archive_def fault_now_def
        demo_spelled_def demo_contracts_def Let_def allowed_event_types_def REPORT_TYPE_def)
  then show ?thesis by (metis prod.collapse)
qed


lemmas demo_delivered_run = demo_delivered_applied [unfolded demo_delivered_def]

theorem command_applied_once_witness:
  "fst (persist_browser_capture demo_library demo_command (snd demo_delivered)) \<in> {Inr DeliveryDuplicate, Inl DPersistence}
   \<and> db (snd (persist_browser_capture demo_library demo_command (snd demo_delivered))) = db (snd demo_delivered)
   \<and> map xc_owner (explicit_captures (db (snd demo_delivered))) = [70]"
proof -
  note t = command_applied_once [OF demo_library_laws demo_delivered_applied [unfolded demo_delivered_def]]
  have e: "explicit_captures (db (demo_world demo_archive)) = []" "ce_tenant_id demo_command = Some 70"
    by (simp_all add: demo_world_def demo_archive_def empty_archive_def demo_command_def)
  from t [THEN conjunct1] obtain row where "explicit_captures (db (snd demo_delivered)) = [row]" "xc_owner row = 70"
    unfolding e demo_delivered_def by auto
  then have "map xc_owner (explicit_captures (db (snd demo_delivered))) = [70]" by simp
  moreover obtain r w3 where "persist_browser_capture demo_library demo_command (snd demo_delivered) = (r, w3)" by fastforce
  moreover from this t [THEN conjunct2] have "r \<in> {Inr DeliveryDuplicate, Inl DPersistence} \<and> db w3 = db (snd demo_delivered)"
    unfolding demo_delivered_def by blast
  ultimately show ?thesis by simp
qed

definition demo_public :: public_post where
  "demo_public = \<lparr>pp_provider_id = ''42'', pp_author = \<lparr>pa_id = ''9'', pa_username = None, pa_name = None\<rparr>, pp_text = ''hello'',
     pp_long_text = None, pp_published_at = None, pp_expanded_urls = []\<rparr>"

definition demo_worker :: "(public_post_failure + public_post) \<Rightarrow> capture_worker" where
  "demo_worker answer = \<lparr>cw_library = demo_library, cw_resolver = (\<lambda>_. of_result answer), cw_policy = \<lparr>cpo_max_attempts = 5, cpo_batch_size = 10\<rparr>\<rparr>"

lemma demo_worker_reads: "within (=) (cw_resolver (demo_worker answer) post)" "steady (cw_resolver (demo_worker answer) post)"
  by (simp_all add: demo_worker_def within_def steady_def of_result_def)

theorem capture_reported_once_witness:
  "reported_once demo_library (db (snd (run_due_once (demo_worker (Inr demo_public)) (snd demo_delivered))))"
proof -
  have inv: "reported_once demo_library demo_archive"
    by (simp add: reported_once_def demo_archive_def empty_archive_def reports_of_def)
  have "capture_step demo_library (db (demo_world demo_archive)) (db (snd demo_delivered))"
    using step_persist [OF demo_delivered_run] by (simp add: demo_delivered_def)
  then have "(capture_step demo_library)\<^sup>*\<^sup>* demo_archive (db (snd demo_delivered))" by (simp add: demo_world_def r_into_rtranclp)
  from capture_reported_once [OF demo_library_laws inv this _ demo_worker_reads(1) prod.collapse [symmetric] refl, of "Inr demo_public"]
  show ?thesis by (simp add: demo_worker_def)
qed

definition demo_open :: explicit_capture where
  "demo_open = capture_row 3 demo_command demo_captured 70 5 6"

definition demo_waiting :: "archive world" where
  "demo_waiting = demo_world (demo_archive\<lparr>explicit_captures := [demo_open]\<rparr>)"


definition demo_summary :: capture_summary where
  "demo_summary = \<lparr>cs_claimed = 1, cs_preserved = 0, cs_unavailable = 0, cs_deferred = 0\<rparr>"



theorem capture_stays_with_owner_witness:
  "list_all (owner_post (claimed_of demo_open))
     (explicit_sources (db (snd (process_capture (demo_worker (Inr demo_public)) (claimed_of demo_open) demo_summary demo_waiting))))"
proof -
  have "explicit_sources (db demo_waiting) = []" by (simp add: demo_waiting_def demo_world_def demo_archive_def empty_archive_def)
  with capture_stays_with_owner [of "demo_worker (Inr demo_public)", OF _ demo_worker_reads(1) prod.collapse [symmetric],
      of "claimed_of demo_open" demo_summary demo_waiting] demo_library_laws
  show ?thesis by (auto simp: list_all_iff demo_worker_def)
qed

end
