(* ===== verification/Bus_Consumers.thy ===== *)
theory Bus_Consumers
  imports Captures Delivery Tokens
begin

text \<open>
  The two consumers of the events stream in \<^verbatim>\<open>services/x/src\<close>: \<^verbatim>\<open>deletion_acks.rs\<close>, which records Knowledge's answers to removals, and
  \<^verbatim>\<open>extractor_reports.rs\<close>, which completes article captures. Decoding an envelope is the shared contract library's and a parameter. A
  payload is the text of its bytes; what the broker yields is the list of items of \<open>Captures\<close>, whose end is the shutdown.
\<close>

section \<open>The durable of a consumer\<close>

record events_config = consumer_config +
  cfg_ack_wait :: time

definition ACK_WAIT :: time where
  "ACK_WAIT = 30 * 1000000"

definition ACKS_FILTER_SUBJECT :: string where
  "ACKS_FILTER_SUBJECT = ''evt.knowledge.deletion.acknowledged.v1''"

definition REPORTS_FILTER_SUBJECT :: string where
  "REPORTS_FILTER_SUBJECT = ''evt.platform.operation.reported.v1''"

definition acks_consumer :: "string \<Rightarrow> events_config option \<Rightarrow> consumer_error + events_config" where
  "acks_consumer durable found =
     (case found of
        None \<Rightarrow> Inl BusError
      | Some config \<Rightarrow>
          if cfg_durable_name config \<noteq> Some durable \<or> cfg_filter_subject config \<noteq> ACKS_FILTER_SUBJECT
             \<or> \<not> cfg_explicit_ack config \<or> cfg_ack_wait config \<noteq> ACK_WAIT \<or> cfg_deliver_subject config \<noteq> None
          then Inl BusError else Inr config)"

definition reports_consumer :: "string \<Rightarrow> events_config option \<Rightarrow> consumer_error + events_config" where
  "reports_consumer durable found =
     (case found of
        None \<Rightarrow> Inl BusError
      | Some config \<Rightarrow>
          if cfg_durable_name config \<noteq> Some durable \<or> cfg_filter_subject config \<noteq> REPORTS_FILTER_SUBJECT
             \<or> \<not> cfg_explicit_ack config \<or> cfg_ack_wait config \<noteq> ACK_WAIT \<or> cfg_deliver_subject config \<noteq> None
          then Inl BusError else Inr config)"

section \<open>Deletion acknowledgements\<close>

datatype ack_family = SocialFamily | SiblingFamily

datatype ack_answer = AnswerApplied | AnswerRefused | AnswerUnknown

record deletion_acknowledged =
  da_owner :: string
  da_event_id :: uuid
  da_family :: ack_family
  da_outcome :: ack_answer

record ack_envelope =
  ake_producer :: string
  ake_tenant_id :: "string option"
  ake_payload :: "deletion_acknowledged option"

type_synonym ack_decoder = "bytes \<Rightarrow> ack_envelope option"

datatype handled = HandledApplied | HandledRefused | HandledIgnored

datatype rejected = Unattributable | RejectedDatabase

definition decode_ack :: "ack_decoder \<Rightarrow> string \<Rightarrow> deletion_acknowledged option" where
  "decode_ack D payload =
     (case D (as_bytes payload) of
        None \<Rightarrow> None
      | Some envelope \<Rightarrow>
          if ake_producer envelope \<noteq> ''ratatoskr-knowledge'' then None
          else case ake_payload envelope of
            None \<Rightarrow> None
          | Some acknowledgement \<Rightarrow>
              if ake_tenant_id envelope = Some (da_owner acknowledgement) then Some acknowledgement else None)"

fun answer_outcome :: "ack_answer \<Rightarrow> ack_outcome option" where
  "answer_outcome AnswerApplied = Some Applied"
| "answer_outcome AnswerRefused = Some Refused"
| "answer_outcome AnswerUnknown = None"

definition handled_as :: "bool \<Rightarrow> ack_outcome \<Rightarrow> handled" where
  "handled_as changed outcome =
     (if \<not> changed then HandledIgnored else case outcome of Applied \<Rightarrow> HandledApplied | Refused \<Rightarrow> HandledRefused)"

definition apply_ack :: "ack_decoder \<Rightarrow> string \<Rightarrow> (rejected, handled) dbio" where
  "apply_ack D payload =
     (case decode_ack D payload of
        None \<Rightarrow> throw Unattributable
      | Some a \<Rightarrow>
          if da_family a \<noteq> SocialFamily then ret HandledIgnored
          else case answer_outcome (da_outcome a) of
            None \<Rightarrow> throw Unattributable
          | Some outcome \<Rightarrow>
              bind_io (map_err (\<lambda>_. RejectedDatabase) (acknowledge (da_event_id a) (da_owner a) outcome))
                (\<lambda>changed. ret (handled_as changed outcome)))"

record acks_summary =
  as_applied :: nat
  as_refused :: nat
  as_ignored :: nat
  as_terminated :: nat
  as_retried :: nat

fun count_ack :: "rejected + handled \<Rightarrow> acks_summary \<Rightarrow> acks_summary" where
  "count_ack (Inr HandledApplied) s = s\<lparr>as_applied := as_applied s + 1\<rparr>"
| "count_ack (Inr HandledRefused) s = s\<lparr>as_refused := as_refused s + 1\<rparr>"
| "count_ack (Inr HandledIgnored) s = s\<lparr>as_ignored := as_ignored s + 1\<rparr>"
| "count_ack (Inl Unattributable) s = s\<lparr>as_terminated := as_terminated s + 1\<rparr>"
| "count_ack (Inl RejectedDatabase) s = s\<lparr>as_retried := as_retried s + 1\<rparr>"

fun ack_kind_of :: "rejected + handled \<Rightarrow> ack_kind" where
  "ack_kind_of (Inr _) = AckStored"
| "ack_kind_of (Inl Unattributable) = AckTerm"
| "ack_kind_of (Inl RejectedDatabase) = AckNak"

fun acks_items ::
  "ack_decoder \<Rightarrow> bus_item list \<Rightarrow> acks_summary \<Rightarrow> ack_kind list
   \<Rightarrow> (unit, (consumer_error + acks_summary) \<times> ack_kind list) dbio" where
  "acks_items D [] s acks = ret (Inr s, acks)"
| "acks_items D (BusEnded # items) s acks = ret (Inl ConsumerStopped, acks)"
| "acks_items D (BusFatal # items) s acks = ret (Inl BusError, acks)"
| "acks_items D (BusRecoverable # items) s acks = acks_items D items s acks"
| "acks_items D (BusMessage payload # items) s acks =
     bind_io (attempt (apply_ack D payload)) (\<lambda>outcome.
       acks_items D items (count_ack outcome s) (acks @ [ack_kind_of outcome]))"

definition no_acks :: acks_summary where
  "no_acks = \<lparr>as_applied = 0, as_refused = 0, as_ignored = 0, as_terminated = 0, as_retried = 0\<rparr>"

definition consume_deletion_acks ::
  "ack_decoder \<Rightarrow> string \<Rightarrow> events_config option \<Rightarrow> bool \<Rightarrow> bus_item list
   \<Rightarrow> (unit, (consumer_error + acks_summary) \<times> ack_kind list) dbio" where
  "consume_deletion_acks D durable found opens items =
     (case acks_consumer durable found of
        Inl e \<Rightarrow> ret (Inl e, [])
      | Inr _ \<Rightarrow> if \<not> opens then ret (Inl BusError, []) else acks_items D items no_acks [])"

section \<open>Extractor reports\<close>

record reports_summary =
  rs_applied :: nat
  rs_ignored :: nat
  rs_retried :: nat

definition apply_report :: "contracts \<Rightarrow> (string \<Rightarrow> inbound_event option) \<Rightarrow> string \<Rightarrow> (article_error, unit) dbio" where
  "apply_report C decode payload =
     (case from_utf8 (as_bytes payload) of
        Some document \<Rightarrow> consume_extractor_operation_report C decode document
      | None \<Rightarrow> throw InvalidOutcome)"

fun count_report :: "article_error + unit \<Rightarrow> reports_summary \<Rightarrow> reports_summary" where
  "count_report (Inr _) s = s\<lparr>rs_applied := rs_applied s + 1\<rparr>"
| "count_report (Inl e) s =
     (if e = InvalidOutcome \<or> e = SourceUnavailable then s\<lparr>rs_ignored := rs_ignored s + 1\<rparr>
      else s\<lparr>rs_retried := rs_retried s + 1\<rparr>)"

fun report_kind_of :: "article_error + unit \<Rightarrow> ack_kind" where
  "report_kind_of (Inr _) = AckStored"
| "report_kind_of (Inl e) = (if e = InvalidOutcome \<or> e = SourceUnavailable then AckStored else AckNak)"

fun reports_items ::
  "contracts \<Rightarrow> (string \<Rightarrow> inbound_event option) \<Rightarrow> bus_item list \<Rightarrow> reports_summary \<Rightarrow> ack_kind list
   \<Rightarrow> (unit, (consumer_error + reports_summary) \<times> ack_kind list) dbio" where
  "reports_items C decode [] s acks = ret (Inr s, acks)"
| "reports_items C decode (BusEnded # items) s acks = ret (Inl ConsumerStopped, acks)"
| "reports_items C decode (BusFatal # items) s acks = ret (Inl BusError, acks)"
| "reports_items C decode (BusRecoverable # items) s acks = reports_items C decode items s acks"
| "reports_items C decode (BusMessage payload # items) s acks =
     bind_io (attempt (apply_report C decode payload)) (\<lambda>outcome.
       reports_items C decode items (count_report outcome s) (acks @ [report_kind_of outcome]))"

definition consume_extractor_reports ::
  "contracts \<Rightarrow> (string \<Rightarrow> inbound_event option) \<Rightarrow> string \<Rightarrow> events_config option \<Rightarrow> bool \<Rightarrow> bus_item list
   \<Rightarrow> (unit, (consumer_error + reports_summary) \<times> ack_kind list) dbio" where
  "consume_extractor_reports C decode durable found opens items =
     (case reports_consumer durable found of
        Inl e \<Rightarrow> ret (Inl e, [])
      | Inr _ \<Rightarrow>
          if \<not> opens then ret (Inl BusError, [])
          else reports_items C decode items \<lparr>rs_applied = 0, rs_ignored = 0, rs_retried = 0\<rparr> [])"

section \<open>The contract of a message loop\<close>

text \<open>
  The three loops of the service (browser commands, acknowledgements, reports) are one: messages are handled in order until the stream stops
  or the shutdown comes, each is answered by what its handling returned, and only then the next one is taken.
\<close>

fun deliveries :: "bus_item list \<Rightarrow> string list" where
  "deliveries (BusMessage payload # items) = payload # deliveries items"
| "deliveries (BusRecoverable # items) = deliveries items"
| "deliveries _ = []"

fun stop_of :: "bus_item list \<Rightarrow> consumer_error option" where
  "stop_of [] = None"
| "stop_of (BusEnded # items) = Some ConsumerStopped"
| "stop_of (BusFatal # items) = Some BusError"
| "stop_of (_ # items) = stop_of items"

fun handle_all :: "(string \<Rightarrow> ('e, 'a) dbio) \<Rightarrow> string list \<Rightarrow> archive world \<Rightarrow> ('e + 'a) list \<times> archive world" where
  "handle_all handle [] w = ([], w)"
| "handle_all handle (p # ps) w =
     (let (r, w1) = handle p w; (rs, w2) = handle_all handle ps w1 in (r # rs, w2))"

locale message_loop =
  fixes loop :: "bus_item list \<Rightarrow> 's \<Rightarrow> ack_kind list \<Rightarrow> (unit, (consumer_error + 's) \<times> ack_kind list) dbio"
    and handle :: "string \<Rightarrow> ('e, 'a) dbio"
    and tally :: "'e + 'a \<Rightarrow> 's \<Rightarrow> 's"
    and answer :: "'e + 'a \<Rightarrow> ack_kind"
  assumes loop_Nil: "loop [] s acks = ret (Inr s, acks)"
    and loop_stops: "loop (BusEnded # items) s acks = ret (Inl ConsumerStopped, acks)"
      "loop (BusFatal # items) s acks = ret (Inl BusError, acks)"
    and loop_waits: "loop (BusRecoverable # items) s acks = loop items s acks"
    and loop_handles: "loop (BusMessage p # items) s acks =
      bind_io (attempt (handle p)) (\<lambda>r. loop items (tally r s) (acks @ [answer r]))"
begin

lemma loop_handle_all:
  assumes "handle_all handle (deliveries items) w = (rs, w')"
  shows "loop items s acks w =
    (Inr (case stop_of items of None \<Rightarrow> Inr (fold tally rs s) | Some e \<Rightarrow> Inl e, acks @ map answer rs), w')"
  using assms
proof (induction items arbitrary: s acks w rs)
  case Nil
  then show ?case by (simp add: loop_Nil ret_def)
next
  case (Cons item items)
  show ?case
  proof (cases item)
    case (BusMessage p)
    obtain r w1 where r: "handle p w = (r, w1)" by fastforce
    obtain rs1 w2 where rs1: "handle_all handle (deliveries items) w1 = (rs1, w2)" by fastforce
    have e: "rs = r # rs1" "w' = w2" using Cons.prems BusMessage r rs1 by auto
    from Cons.IH [OF rs1 [folded e(2)]] show ?thesis
      using r e by (simp add: BusMessage loop_handles bind_attempt split: option.split)
  qed (use Cons in \<open>auto simp: loop_stops loop_waits ret_def\<close>)
qed

lemma one_answer_each:
  assumes "loop items s acks w = (Inr (res, acks'), w')"
  obtains rs where "handle_all handle (deliveries items) w = (rs, w')" "acks' = acks @ map answer rs"
    "res = (case stop_of items of None \<Rightarrow> Inr (fold tally rs s) | Some e \<Rightarrow> Inl e)"
proof -
  obtain rs w1 where h: "handle_all handle (deliveries items) w = (rs, w1)" by fastforce
  with assms loop_handle_all [OF h, of s acks] that show thesis by auto
qed

end

interpretation browser: message_loop "consume_items L" "dispose L" count_delivery settlement for L
  by unfold_locales simp_all

interpretation acks: message_loop "acks_items D" "apply_ack D" count_ack ack_kind_of for D
  by unfold_locales simp_all

interpretation reports: message_loop "reports_items C decode" "apply_report C decode" count_report report_kind_of for C decode
  by unfold_locales simp_all

section \<open>Acknowledged removals\<close>

lemma apply_ack_cases:
  assumes "apply_ack D p w = (r, w')"
  obtains (other) "db w' = db w" "r = Inl Unattributable \<or> r = Inl RejectedDatabase"
    | (sibling) a where "db w' = db w" "r = Inr HandledIgnored" "decode_ack D p = Some a" "da_family a \<noteq> SocialFamily"
    | (recorded) a outcome h where "decode_ack D p = Some a" "da_family a = SocialFamily" "answer_outcome (da_outcome a) = Some outcome" "r = Inr h"
        "db w' = (db w)\<lparr>outbox_events := update_where (ack_matches (da_event_id a) (da_owner a)) (acked (db_now w) outcome) (outbox_events (db w))\<rparr>"
proof -
  consider "decode_ack D p = None" | a where "decode_ack D p = Some a" "da_family a \<noteq> SocialFamily"
    | a where "decode_ack D p = Some a" "da_family a = SocialFamily" "answer_outcome (da_outcome a) = None"
    | a outcome where "decode_ack D p = Some a" "da_family a = SocialFamily" "answer_outcome (da_outcome a) = Some outcome"
    by (metis not_None_eq)
  then show thesis
  proof cases
    case 1 with assms that(1) show thesis by (simp add: apply_ack_def throw_def)
  next
    case (2 a) with assms that(2) show thesis by (simp add: apply_ack_def ret_def)
  next
    case (3 a) with assms that(1) show thesis by (simp add: apply_ack_def throw_def)
  next
    case (4 a outcome)
    obtain b w1 where k: "acknowledge (da_event_id a) (da_owner a) outcome w = (b, w1)" by fastforce
    show thesis
    proof (cases b)
      case (Inl e)
      have "db w1 = db w" using k Inl by (auto simp: acknowledge_def sql_def split: if_splits)
      with that(1) 4 assms k Inl show thesis by (simp add: apply_ack_def bind_io_def map_err_def)
    next
      case (Inr changed)
      with 4 assms k have "r = Inr (handled_as changed outcome)" "w' = w1"
        by (simp_all add: apply_ack_def bind_io_def map_err_def ret_def)
      with that(3) [OF 4] acknowledge_Inr [OF k [unfolded Inr]] show thesis by simp
    qed
  qed
qed

text \<open>A row carries over, or is settled by one of the messages.\<close>

definition names_removal :: "ack_decoder \<Rightarrow> string \<Rightarrow> outbox_event \<Rightarrow> ack_outcome \<Rightarrow> bool" where
  "names_removal D p r outcome \<longleftrightarrow> (\<exists>a. decode_ack D p = Some a \<and> da_family a = SocialFamily
     \<and> answer_outcome (da_outcome a) = Some outcome \<and> ack_matches (da_event_id a) (da_owner a) r)"

definition settled_by :: "ack_decoder \<Rightarrow> string list \<Rightarrow> outbox_event \<Rightarrow> outbox_event \<Rightarrow> bool" where
  "settled_by D ps r r' \<longleftrightarrow> r' = r \<or> (\<exists>p t outcome. p \<in> set ps \<and> names_removal D p r outcome \<and> r' = acked t outcome r)"

definition in_force :: "ack_decoder \<Rightarrow> archive \<Rightarrow> string \<Rightarrow> bool" where
  "in_force D d p \<longleftrightarrow> (\<forall>r \<in> set (outbox_events d). \<forall>outcome. \<not> names_removal D p r outcome)"

lemma names_removal_acked: "\<not> names_removal D p (acked t outcome r) outcome'"
  by (simp add: names_removal_def acked_settled)

lemma settled_by_trans: "settled_by D ps r r' \<Longrightarrow> settled_by D qs r' r'' \<Longrightarrow> settled_by D (ps @ qs) r r''"
  by (auto simp: settled_by_def names_removal_acked)

lemma in_force_kept: "in_force D d p \<Longrightarrow> list_all2 (settled_by D ps) (outbox_events d) (outbox_events d') \<Longrightarrow> in_force D d' p"
  unfolding in_force_def list_all2_conv_all_nth settled_by_def
  by (metis (no_types, lifting) in_set_conv_nth names_removal_acked)

lemma apply_ack_settles:
  assumes "apply_ack D p w = (r, w')"
  shows "db w' = (db w)\<lparr>outbox_events := outbox_events (db w')\<rparr>
    \<and> list_all2 (settled_by D [p]) (outbox_events (db w)) (outbox_events (db w'))
    \<and> (ack_kind_of r = AckStored \<longrightarrow> in_force D (db w') p)"
  using assms
proof (cases rule: apply_ack_cases)
  case other
  then show ?thesis by (auto simp: settled_by_def intro: list_all2_refl)
next
  case (sibling a)
  then show ?thesis by (auto simp: settled_by_def in_force_def names_removal_def intro: list_all2_refl)
next
  case (recorded a outcome h)
  have "settled_by D [p] x (if ack_matches (da_event_id a) (da_owner a) x then acked (db_now w) outcome x else x)" for x
    using recorded(1-3) by (auto simp: settled_by_def names_removal_def)
  moreover have "in_force D (db w') p"
    using recorded by (auto simp: in_force_def names_removal_def set_update_where acked_settled)
  ultimately show ?thesis
    by (simp add: recorded(5) update_where_def list_all2_map2 list.rel_refl)
qed

lemma handle_all_settles:
  assumes "handle_all (apply_ack D) ps w = (rs, w')"
  shows "db w' = (db w)\<lparr>outbox_events := outbox_events (db w')\<rparr>
    \<and> list_all2 (settled_by D ps) (outbox_events (db w)) (outbox_events (db w'))
    \<and> (\<forall>(p, k) \<in> set (zip ps (map ack_kind_of rs)). k = AckStored \<longrightarrow> in_force D (db w') p)"
  using assms
proof (induction ps arbitrary: w rs)
  case Nil
  then show ?case by (auto simp: settled_by_def intro: list_all2_refl)
next
  case (Cons p ps)
  obtain r w1 where r: "apply_ack D p w = (r, w1)" by fastforce
  obtain rs1 where rs1: "handle_all (apply_ack D) ps w1 = (rs1, w')" "rs = r # rs1"
    using Cons.prems r by (auto simp: Let_def split: prod.splits)
  note one = apply_ack_settles [OF r] and rest = Cons.IH [OF rs1(1)]
  have "list_all2 (settled_by D (p # ps)) (outbox_events (db w)) (outbox_events (db w'))"
    using list_all2_trans [of "settled_by D [p]" "settled_by D ps" "settled_by D (p # ps)"] settled_by_trans [of D "[p]" _ _ ps] one rest by fastforce
  moreover have "db w' = (db w)\<lparr>outbox_events := outbox_events (db w')\<rparr>"
    by (subst conjunct1 [OF rest], subst conjunct1 [OF one]) simp
  ultimately show ?case using one rest in_force_kept [of D "db w1" p ps "db w'"] by (auto simp: rs1(2))
qed


text \<open>
  The answer each message is due: a message that is no acknowledgement of Knowledge, or whose outcome is unknown, is terminated; one that is for a sibling is confirmed; of
  the others, each takes one statement, and it is confirmed if the database carries that statement out and handed back for redelivery if it fails there.
\<close>

definition unattributable :: "ack_decoder \<Rightarrow> string \<Rightarrow> bool" where
  "unattributable D p \<longleftrightarrow>
     (case decode_ack D p of None \<Rightarrow> True | Some a \<Rightarrow> da_family a = SocialFamily \<and> answer_outcome (da_outcome a) = None)"

definition addressed :: "ack_decoder \<Rightarrow> string \<Rightarrow> bool" where
  "addressed D p \<longleftrightarrow>
     (case decode_ack D p of None \<Rightarrow> False | Some a \<Rightarrow> da_family a = SocialFamily \<and> answer_outcome (da_outcome a) \<noteq> None)"

fun answers_due :: "ack_decoder \<Rightarrow> (nat \<Rightarrow> bool) \<Rightarrow> nat \<Rightarrow> string list \<Rightarrow> ack_kind list" where
  "answers_due D fails n [] = []"
| "answers_due D fails n (p # ps) =
     (if unattributable D p then AckTerm # answers_due D fails n ps
      else if addressed D p then (if fails n then AckNak else AckStored) # answers_due D fails (n + 1) ps
      else AckStored # answers_due D fails n ps)"

lemma apply_ack_answer:
  assumes "apply_ack D p w = (r, w')"
  shows "ack_kind_of r = (if unattributable D p then AckTerm else if addressed D p \<and> fault_now w then AckNak else AckStored)
    \<and> tick w' = tick w + (if addressed D p then 1 else 0) \<and> sched w' = sched w"
  using assms
  by (auto simp: apply_ack_def unattributable_def addressed_def acknowledge_def io_defs split: option.splits if_splits)

lemma handle_all_answers:
  "handle_all (apply_ack D) ps w = (rs, w') \<Longrightarrow> map ack_kind_of rs = answers_due D (faults (sched w)) (tick w) ps"
proof (induction ps arbitrary: w rs)
  case (Cons p ps)
  obtain r w1 where r: "apply_ack D p w = (r, w1)" by fastforce
  obtain rs1 where rs1: "handle_all (apply_ack D) ps w1 = (rs1, w')" "rs = r # rs1"
    using Cons.prems r by (auto simp: Let_def split: prod.splits)
  have "\<not> (unattributable D p \<and> addressed D p)" by (auto simp: unattributable_def addressed_def split: option.splits)
  with Cons.IH [OF rs1(1)] apply_ack_answer [OF r] rs1(2) show ?case by (auto simp: fault_now_def)
qed simp

text \<open>
  C25. A removal ends only on Knowledge's word, and an answer that was confirmed is in force. A session of the consumer touches only the outbox; a
  row of it changes only by becoming acknowledged with the outcome of a delivered message, which Knowledge sent for the tenant of the row and
  which names the row. When the durable has the expected shape and opens, every delivered message is answered, once and in order, and otherwise none: a message that is no
  acknowledgement of Knowledge, or whose outcome is unknown, is terminated, a message whose statement the database failed is handed back for redelivery, and every other one is
  confirmed; and of a message that was confirmed to the broker, no removal it names is left unacknowledged.
\<close>

theorem removal_ended_by_knowledge:
  assumes "consume_deletion_acks D durable found opens items w = (Inr (res, acks), w')"
  shows "db w' = (db w)\<lparr>outbox_events := outbox_events (db w')\<rparr>
    \<and> list_all2 (settled_by D (deliveries items)) (outbox_events (db w)) (outbox_events (db w'))
    \<and> acks = (if opens \<and> (\<exists>config. acks_consumer durable found = Inr config)
              then answers_due D (faults (sched w)) (tick w) (deliveries items) else [])
    \<and> (\<forall>(p, k) \<in> set (zip (deliveries items) acks). k = AckStored \<longrightarrow> in_force D (db w') p)"
proof (cases "opens \<and> (\<exists>config. acks_consumer durable found = Inr config)")
  case False
  with assms have "acks = []" "w' = w"
    by (auto simp: consume_deletion_acks_def ret_def split: sum.splits if_splits)
  with False show ?thesis by (auto simp: settled_by_def intro: list_all2_refl)
next
  case True
  with assms have "acks_items D items no_acks [] w = (Inr (res, acks), w')"
    by (auto simp: consume_deletion_acks_def)
  then obtain rs where "handle_all (apply_ack D) (deliveries items) w = (rs, w')" "acks = map ack_kind_of rs"
    by (rule acks.one_answer_each) simp
  with True handle_all_settles [of D "deliveries items" w rs w'] handle_all_answers [of D "deliveries items" w rs w']
  show ?thesis by simp
qed

section \<open>A concrete session\<close>

definition demo_acks :: ack_decoder where
  "demo_acks p = Some \<lparr>ake_producer = ''ratatoskr-knowledge'', ake_tenant_id = Some ''user:u'',
     ake_payload = Some \<lparr>da_owner = ''user:u'', da_event_id = 5, da_family = SocialFamily, da_outcome = AnswerApplied\<rparr>\<rparr>"

definition demo_durable :: events_config where
  "demo_durable = \<lparr>cfg_durable_name = Some ''d'', cfg_filter_subject = ACKS_FILTER_SUBJECT, cfg_explicit_ack = True,
     cfg_deliver_subject = None, cfg_ack_wait = ACK_WAIT\<rparr>"

definition demo_session :: "(unit + (consumer_error + acks_summary) \<times> ack_kind list) \<times> archive world" where
  "demo_session = consume_deletion_acks demo_acks ''d'' (Some demo_durable) True [BusRecoverable, BusMessage ''m''] demo_outbox"

lemma demo_session_fst: "fst demo_session = Inr (Inr (no_acks\<lparr>as_applied := 1\<rparr>), [AckStored])"
  by (simp add: demo_session_def consume_deletion_acks_def acks_consumer_def demo_durable_def apply_ack_def decode_ack_def demo_acks_def
      acknowledge_def io_defs fault_now_def demo_outbox_def demo_world_def demo_schedule_def demo_removal_def outbox_row_def
      ack_matches_def handled_as_def no_acks_def)

theorem removal_ended_by_knowledge_witness: "\<not> list_ex (ack_matches 5 ''user:u'') (outbox_events (db (snd demo_session)))"
proof -
  have "demo_session = (Inr (Inr (no_acks\<lparr>as_applied := 1\<rparr>), [AckStored]), snd demo_session)"
    using demo_session_fst by (metis prod.collapse)
  from removal_ended_by_knowledge [OF this [unfolded demo_session_def]] have "in_force demo_acks (db (snd demo_session)) ''m''"
    by (simp add: demo_session_def)
  then show ?thesis
    by (auto simp: in_force_def names_removal_def decode_ack_def demo_acks_def list_ex_iff)
qed

end
