(* ===== verification/Legacy_Sources.thy ===== *)
theory Legacy_Sources
  imports Provider
begin

text \<open>
  The sources of the legacy transition, \<^verbatim>\<open>x-sync/src/legacy_transition/sources.rs\<close> and \<^verbatim>\<open>source_validation.rs\<close>: a retired CSV export, a
  JSON-lines cache and a SQLite index are read twice, bounded, validated field by field and turned into one batch of records. The
  JSON, URL and date libraries and the SQLite driver are parameters, as is the file system: a file is what it shows at each moment.
\<close>

section \<open>Sources, limits and errors\<close>

datatype legacy_source_kind = MonolithBookmarkMetadataCsv | FieldTheoryJsonl | FieldTheorySqlite

datatype legacy_source_version = MonolithBookmarkMetadata | FieldTheoryJsonl1 | FieldTheorySqlite6

record source_limits =
  sl_max_bytes :: nat
  sl_max_rows :: nat
  sl_max_text_bytes :: nat
  sl_max_json_depth :: nat

definition default_limits :: source_limits where
  "default_limits = \<lparr>sl_max_bytes = 64 * 1024 * 1024, sl_max_rows = 100000, sl_max_text_bytes = 1000000, sl_max_json_depth = 32\<rparr>"

datatype legacy_error =
    NotImplemented
  | MissingSource
  | LegacySourceUnavailable
  | SourceTooLarge
  | RowLimitExceeded
  | TextLimitExceeded string
  | JsonDepthExceeded
  | InvalidEncoding
  | InvalidTimestamp string
  | UnsupportedField string
  | ForbiddenField string
  | UnsupportedSourceVersion
  | UnsupportedSqliteSchema
  | InvalidField string
  | DuplicateSourceKey
  | SourceChanged
  | SourceDatabase
  | MissingOwnershipApproval
  | InvalidOwnershipApproval
  | TargetAccountNotFound
  | TargetAccountNotConnected
  | CurrentIdentityUnavailable
  | CurrentIdentityMismatch
  | LegacyDatabase
  | ImportRunUnavailable
  | SnapshotNotAuthoritative
  | ShadowReportUnavailable
  | ChecklistDigestMismatch

record url_parts =
  up_host :: "string option"
  up_segments :: "string list option"
  up_plain :: string

record legacy_library =
  ll_contracts :: contracts
  ll_parse_json :: "string \<Rightarrow> json option"
  ll_parse_time :: "string \<Rightarrow> time option"
  ll_print_time :: "time \<Rightarrow> string"
  ll_parse_url :: "string \<Rightarrow> url_parts option"

record legacy_record =
  lr_source_record_key :: string
  lr_provider_post_id :: "string option"
  lr_url_provider_post_id :: "string option"
  lr_canonical_url_digest :: "string option"
  lr_text :: string
  lr_posted_at :: "time option"
  lr_bookmarked_at :: "time option"
  lr_synced_at :: time
  lr_categories :: "string list"
  lr_folder_ids :: "string list"
  lr_folder_names :: "string list"
  lr_record_digest :: string

record preflight_batch =
  pb_source_kind :: legacy_source_kind
  pb_source_version :: legacy_source_version
  pb_source_digest :: string
  pb_row_count :: nat
  pb_records :: "legacy_record list"

section \<open>Checks of a JSON record\<close>

text \<open>A check that must succeed before the next one, and a check of every element in order.\<close>

definition and_then :: "'e + unit \<Rightarrow> 'e + 'a \<Rightarrow> 'e + 'a" where
  "and_then a b = (case a of Inl e \<Rightarrow> Inl e | Inr _ \<Rightarrow> b)"

fun check_all :: "('a \<Rightarrow> 'e + unit) \<Rightarrow> 'a list \<Rightarrow> 'e + unit" where
  "check_all f [] = Inr ()"
| "check_all f (x # xs) = and_then (f x) (check_all f xs)"

fun map_all :: "('a \<Rightarrow> 'e + 'b) \<Rightarrow> 'a list \<Rightarrow> 'e + 'b list" where
  "map_all f [] = Inr []"
| "map_all f (x # xs) = bind_result (f x) (\<lambda>y. bind_result (map_all f xs) (\<lambda>ys. Inr (y # ys)))"

type_synonym json_object = "(string \<times> json) list"

definition optional_string :: "json_object \<Rightarrow> string \<Rightarrow> legacy_error + string option" where
  "optional_string object field =
     (case map_of object field of
        None \<Rightarrow> Inr None
      | Some JNull \<Rightarrow> Inr None
      | Some (JStr s) \<Rightarrow> if s \<noteq> [] then Inr (Some s) else Inl (InvalidField field)
      | _ \<Rightarrow> Inl (InvalidField field))"

definition required_string :: "json_object \<Rightarrow> string \<Rightarrow> legacy_error + string" where
  "required_string object field =
     bind_result (optional_string object field) (\<lambda>s. case s of None \<Rightarrow> Inl (InvalidField field) | Some s \<Rightarrow> Inr s)"

fun array_string :: "string \<Rightarrow> json \<Rightarrow> legacy_error + string" where
  "array_string field (JStr s) = (if s \<noteq> [] then Inr s else Inl (InvalidField field))"
| "array_string field _ = Inl (InvalidField field)"

definition optional_string_array :: "json_object \<Rightarrow> string \<Rightarrow> legacy_error + string list" where
  "optional_string_array object field =
     (case map_of object field of
        None \<Rightarrow> Inr []
      | Some JNull \<Rightarrow> Inr []
      | Some (JArr vs) \<Rightarrow> map_all (array_string field) vs
      | _ \<Rightarrow> Inl (InvalidField field))"

definition validate_optional_string_value :: "json_object \<Rightarrow> string \<Rightarrow> legacy_error + unit" where
  "validate_optional_string_value object field =
     (case map_of object field of
        None \<Rightarrow> Inr () | Some JNull \<Rightarrow> Inr () | Some (JStr _) \<Rightarrow> Inr () | _ \<Rightarrow> Inl (InvalidField field))"

definition validate_optional_bool_value :: "json_object \<Rightarrow> string \<Rightarrow> legacy_error + unit" where
  "validate_optional_bool_value object field =
     (case map_of object field of None \<Rightarrow> Inr () | Some (JBool _) \<Rightarrow> Inr () | _ \<Rightarrow> Inl (InvalidField field))"

definition validate_optional_number_value :: "json_object \<Rightarrow> string \<Rightarrow> legacy_error + unit" where
  "validate_optional_number_value object field =
     (case map_of object field of None \<Rightarrow> Inr () | Some (JNum _) \<Rightarrow> Inr () | _ \<Rightarrow> Inl (InvalidField field))"

definition reject_unknown_fields :: "json_object \<Rightarrow> string list \<Rightarrow> legacy_error + unit" where
  "reject_unknown_fields object allowed =
     check_all (\<lambda>field. if field \<in> set allowed then Inr () else Inl (UnsupportedField field)) (map fst object)"

definition validate_optional_object ::
  "json_object \<Rightarrow> string \<Rightarrow> string list \<Rightarrow> (json_object \<Rightarrow> legacy_error + unit) \<Rightarrow> legacy_error + unit" where
  "validate_optional_object object field allowed check =
     (case map_of object field of
        None \<Rightarrow> Inr ()
      | Some (JObj nested) \<Rightarrow> and_then (reject_unknown_fields nested allowed) (check nested)
      | _ \<Rightarrow> Inl (InvalidField field))"

definition author_fields :: "string list" where
  "author_fields = [''handle'', ''name'', ''profileImageUrl'', ''description'', ''location'', ''url'', ''verified'', ''followersCount'',
     ''followingCount'', ''statusesCount'']"

definition validate_author_shape :: "json_object \<Rightarrow> legacy_error + unit" where
  "validate_author_shape object =
     and_then (check_all (validate_optional_string_value object)
       [''handle'', ''name'', ''profileImageUrl'', ''description'', ''location'', ''url''])
     (and_then (validate_optional_bool_value object ''verified'')
     (check_all (validate_optional_number_value object) [''followersCount'', ''followingCount'', ''statusesCount'']))"

definition engagement_fields :: "string list" where
  "engagement_fields = [''likeCount'', ''repostCount'', ''replyCount'', ''quoteCount'', ''bookmarkCount'', ''viewCount'']"

definition validate_engagement_shape :: "json_object \<Rightarrow> legacy_error + unit" where
  "validate_engagement_shape object = check_all (validate_optional_number_value object) engagement_fields"

definition check_variant :: "string \<Rightarrow> json \<Rightarrow> legacy_error + unit" where
  "check_variant field variant =
     (case variant of
        JObj v \<Rightarrow>
          and_then (reject_unknown_fields v [''url'', ''contentType'', ''bitrate''])
          (and_then (validate_optional_string_value v ''url'')
          (and_then (validate_optional_string_value v ''contentType'')
          (validate_optional_number_value v ''bitrate'')))
      | _ \<Rightarrow> Inl (InvalidField field))"

definition validate_media_variants :: "json_object \<Rightarrow> string \<Rightarrow> legacy_error + unit" where
  "validate_media_variants object field =
     (case map_of object field of
        None \<Rightarrow> Inr ()
      | Some (JArr variants) \<Rightarrow> check_all (check_variant field) variants
      | _ \<Rightarrow> Inl (InvalidField field))"

definition check_media :: "string \<Rightarrow> json \<Rightarrow> legacy_error + unit" where
  "check_media field entry =
     (case entry of
        JObj m \<Rightarrow>
          and_then (reject_unknown_fields m [''url'', ''mediaUrl'', ''expandedUrl'', ''previewUrl'', ''type'', ''altText'',
            ''extAltText'', ''width'', ''height'', ''videoVariants'', ''variants''])
          (and_then (check_all (validate_optional_string_value m)
            [''url'', ''mediaUrl'', ''expandedUrl'', ''previewUrl'', ''type'', ''altText'', ''extAltText''])
          (and_then (check_all (validate_optional_number_value m) [''width'', ''height''])
          (check_all (validate_media_variants m) [''videoVariants'', ''variants''])))
      | _ \<Rightarrow> Inl (InvalidField field))"

definition validate_media_objects :: "json_object \<Rightarrow> string \<Rightarrow> legacy_error + unit" where
  "validate_media_objects object field =
     (case map_of object field of
        None \<Rightarrow> Inr ()
      | Some (JArr entries) \<Rightarrow> check_all (check_media field) entries
      | _ \<Rightarrow> Inl (InvalidField field))"

text \<open>A check whose value is not used, \<^verbatim>\<open>f(...)?;\<close>.\<close>

definition checked :: "'e + 'a \<Rightarrow> 'e + unit" where
  "checked r = (case r of Inl e \<Rightarrow> Inl e | Inr _ \<Rightarrow> Inr ())"

definition validate_quoted_tweet_shape :: "json_object \<Rightarrow> legacy_error + unit" where
  "validate_quoted_tweet_shape object =
     and_then (check_all (\<lambda>field. checked (required_string object field)) [''id'', ''text'', ''url''])
     (and_then (check_all (validate_optional_string_value object) [''authorHandle'', ''authorName'', ''authorProfileImageUrl'', ''postedAt''])
     (and_then (checked (optional_string_array object ''media''))
     (validate_media_objects object ''mediaObjects'')))"

definition check_ingested_via :: "json_object \<Rightarrow> legacy_error + unit" where
  "check_ingested_via object =
     bind_result (optional_string object ''ingestedVia'') (\<lambda>via.
       case via of
         None \<Rightarrow> Inr ()
       | Some v \<Rightarrow> if v \<in> {''api'', ''browser'', ''graphql''} then Inr () else Inl (InvalidField ''ingestedVia''))"

definition validate_field_theory_record_shape :: "json_object \<Rightarrow> legacy_error + unit" where
  "validate_field_theory_record_shape object =
     and_then (checked (required_string object ''tweetId''))
     (and_then (check_all (validate_optional_string_value object)
       [''tweetId'', ''authorHandle'', ''authorName'', ''authorProfileImageUrl'', ''postedAt'', ''bookmarkedAt'', ''sortIndex'',
        ''conversationId'', ''inReplyToStatusId'', ''inReplyToUserId'', ''quotedStatusId'', ''articleTitle'', ''articleText'',
        ''articleSite'', ''enrichedAt'', ''language'', ''sourceApp'', ''ingestedVia'', ''textExpandedAt'', ''quotedTweetFailedAt''])
     (and_then (validate_optional_bool_value object ''possiblySensitive'')
     (and_then (check_ingested_via object)
     (and_then (check_all (\<lambda>field. checked (optional_string_array object field))
       [''media'', ''links'', ''tags'', ''folderIds'', ''folderNames''])
     (and_then (validate_optional_object object ''author'' author_fields validate_author_shape)
     (and_then (validate_optional_object object ''engagement'' engagement_fields validate_engagement_shape)
     (and_then (validate_optional_object object ''quotedTweet''
       [''id'', ''text'', ''authorHandle'', ''authorName'', ''authorProfileImageUrl'', ''postedAt'', ''media'', ''mediaObjects'', ''url'']
       validate_quoted_tweet_shape)
     (validate_media_objects object ''mediaObjects''))))))))"

section \<open>Names and nesting\<close>

definition contains :: "string \<Rightarrow> string \<Rightarrow> bool" where
  "contains word s \<longleftrightarrow> split_once word s \<noteq> None"

definition FORBIDDEN_WORDS :: "string list" where
  "FORBIDDEN_WORDS = [''token'', ''cookie'', ''session'', ''password'', ''secret'', ''authorization'', ''bearer'', ''credential'']"

definition forbidden_field_name :: "string \<Rightarrow> bool" where
  "forbidden_field_name field \<longleftrightarrow>
     list_ex (\<lambda>word. contains word (to_ascii_lowercase (filter is_alphanumeric field))) FORBIDDEN_WORDS"

fun reject_forbidden_fields :: "json \<Rightarrow> legacy_error + unit"
  and reject_forbidden_members :: "json_object \<Rightarrow> legacy_error + unit"
  and reject_forbidden_values :: "json list \<Rightarrow> legacy_error + unit" where
  "reject_forbidden_fields (JObj kvs) = reject_forbidden_members kvs"
| "reject_forbidden_fields (JArr vs) = reject_forbidden_values vs"
| "reject_forbidden_fields _ = Inr ()"
| "reject_forbidden_members [] = Inr ()"
| "reject_forbidden_members ((field, nested) # kvs) =
     (if forbidden_field_name field then Inl (ForbiddenField field)
      else and_then (reject_forbidden_fields nested) (reject_forbidden_members kvs))"
| "reject_forbidden_values [] = Inr ()"
| "reject_forbidden_values (v # vs) = and_then (reject_forbidden_fields v) (reject_forbidden_values vs)"

fun json_depth :: "json \<Rightarrow> nat"
  and members_depth :: "json_object \<Rightarrow> nat"
  and values_depth :: "json list \<Rightarrow> nat" where
  "json_depth (JObj kvs) = 1 + members_depth kvs"
| "json_depth (JArr vs) = 1 + values_depth vs"
| "json_depth _ = 0"
| "members_depth [] = 0"
| "members_depth ((k, v) # kvs) = max (json_depth v) (members_depth kvs)"
| "values_depth [] = 0"
| "values_depth (v # vs) = max (json_depth v) (values_depth vs)"

section \<open>Texts, instants and lists\<close>

definition nonempty :: "string \<Rightarrow> string option" where
  "nonempty s = (if s = [] then None else Some s)"

definition parse_optional_timestamp :: "legacy_library \<Rightarrow> string \<Rightarrow> string \<Rightarrow> legacy_error + time option" where
  "parse_optional_timestamp L field v =
     (case nonempty v of
        None \<Rightarrow> Inr None
      | Some s \<Rightarrow> (case ll_parse_time L s of None \<Rightarrow> Inl (InvalidTimestamp field) | Some t \<Rightarrow> Inr (Some t)))"

definition parse_required_timestamp :: "legacy_library \<Rightarrow> string \<Rightarrow> string \<Rightarrow> legacy_error + time" where
  "parse_required_timestamp L field v =
     bind_result (parse_optional_timestamp L field v) (\<lambda>t. case t of None \<Rightarrow> Inl (InvalidField field) | Some t \<Rightarrow> Inr t)"

definition optional_timestamp_from_json :: "legacy_library \<Rightarrow> json_object \<Rightarrow> string \<Rightarrow> legacy_error + time option" where
  "optional_timestamp_from_json L object field =
     bind_result (optional_string object field) (\<lambda>s.
       case s of None \<Rightarrow> Inr None | Some s \<Rightarrow> bind_result (parse_required_timestamp L field s) (\<lambda>t. Inr (Some t)))"

definition required_timestamp_from_json :: "legacy_library \<Rightarrow> json_object \<Rightarrow> string \<Rightarrow> legacy_error + time" where
  "required_timestamp_from_json L object field = bind_result (required_string object field) (parse_required_timestamp L field)"

definition validate_text :: "string \<Rightarrow> string \<Rightarrow> nat \<Rightarrow> legacy_error + unit" where
  "validate_text field v max_bytes = (if max_bytes < length v then Inl (TextLimitExceeded field) else Inr ())"

definition sort_unique :: "string list \<Rightarrow> string list" where
  "sort_unique vs = remdups_adj (sort vs)"

fun strings_of :: "json list \<Rightarrow> string list option" where
  "strings_of [] = Some []"
| "strings_of (JStr s # vs) = map_option (Cons s) (strings_of vs)"
| "strings_of _ = None"

definition parse_legacy_list :: "legacy_library \<Rightarrow> string option \<Rightarrow> legacy_error + string list" where
  "parse_legacy_list L v =
     (case Option.bind v nonempty of
        None \<Rightarrow> Inr []
      | Some s \<Rightarrow>
          if starts_with ''['' (trim_start s)
          then (case ll_parse_json L s of
                  Some (JArr vs) \<Rightarrow>
                    (case strings_of vs of
                       Some items \<Rightarrow> Inr (filter (\<lambda>i. i \<noteq> []) items)
                     | None \<Rightarrow> Inl InvalidEncoding)
                | _ \<Rightarrow> Inl InvalidEncoding)
          else Inr (filter (\<lambda>i. i \<noteq> []) (map trim (split_on CHR '','' s))))"

definition merge_legacy_lists :: "legacy_library \<Rightarrow> string option \<Rightarrow> string option \<Rightarrow> legacy_error + string list" where
  "merge_legacy_lists L categories primary =
     bind_result (parse_legacy_list L categories) (\<lambda>vs.
       Inr (sort_unique (case Option.bind primary nonempty of None \<Rightarrow> vs | Some p \<Rightarrow> vs @ [p])))"

definition legacy_sha256 :: "legacy_library \<Rightarrow> bytes \<Rightarrow> string" where
  "legacy_sha256 L bs = concat (map (\<lambda>b. [hex_digit (unat b div 16), hex_digit (unat b mod 16)]) (sha256 (ll_contracts L) bs))"

definition valid_sha256 :: "string \<Rightarrow> bool" where
  "valid_sha256 s \<longleftrightarrow> length s = 64 \<and> list_all (\<lambda>c. is_digit c \<or> CHR ''a'' \<le> c \<and> c \<le> CHR ''f'') s"

fun status_segment :: "string list \<Rightarrow> string option" where
  "status_segment [] = None"
| "status_segment (segment # segments) =
     (if segment = ''status'' then (case segments of [] \<Rightarrow> None | i # _ \<Rightarrow> Some i) else status_segment segments)"

definition parse_x_status_url :: "legacy_library \<Rightarrow> string \<Rightarrow> string option \<times> string option" where
  "parse_x_status_url L v =
     (case ll_parse_url L v of
        None \<Rightarrow> (None, None)
      | Some url \<Rightarrow>
          (case map_option to_ascii_lowercase (up_host url) of
             None \<Rightarrow> (None, None)
           | Some host \<Rightarrow>
               if host \<notin> {''x.com'', ''www.x.com'', ''twitter.com'', ''www.twitter.com''} then (None, None)
               else (case status_segment (case up_segments url of None \<Rightarrow> [] | Some ss \<Rightarrow> ss) of
                       None \<Rightarrow> (None, None)
                     | Some i \<Rightarrow>
                         if i = [] \<or> \<not> list_all is_digit i then (None, None)
                         else (Some i, Some (legacy_sha256 L (as_bytes (up_plain url)))))))"

section \<open>Records and batches\<close>

definition jopt_time :: "legacy_library \<Rightarrow> time option \<Rightarrow> json" where
  "jopt_time L v = (case v of None \<Rightarrow> JNull | Some t \<Rightarrow> JStr (ll_print_time L t))"

definition record_digest_value :: "legacy_library \<Rightarrow> legacy_record \<Rightarrow> json" where
  "record_digest_value L r = JObj
     [(''bookmarked_at'', jopt_time L (lr_bookmarked_at r)), (''canonical_url_digest'', jopt_str (lr_canonical_url_digest r)),
      (''categories'', JArr (map JStr (lr_categories r))), (''content_digest'', JStr (legacy_sha256 L (as_bytes (lr_text r)))),
      (''folder_ids'', JArr (map JStr (lr_folder_ids r))), (''folder_names'', JArr (map JStr (lr_folder_names r))),
      (''posted_at'', jopt_time L (lr_posted_at r)), (''provider_post_id'', jopt_str (lr_provider_post_id r)),
      (''source_record_key'', JStr (lr_source_record_key r)), (''synced_at'', JStr (ll_print_time L (lr_synced_at r))),
      (''url_provider_post_id'', jopt_str (lr_url_provider_post_id r))]"

text \<open>The input of a record is a record whose digest is still to be computed.\<close>

definition build_record :: "legacy_library \<Rightarrow> legacy_record \<Rightarrow> legacy_error + legacy_record" where
  "build_record L input =
     (if lr_source_record_key input = [] then Inl (InvalidField ''id'')
      else let r = input\<lparr>lr_categories := sort_unique (lr_categories input), lr_folder_ids := sort_unique (lr_folder_ids input),
                         lr_folder_names := sort_unique (lr_folder_names input)\<rparr>
           in case json_bytes (ll_contracts L) (record_digest_value L r) of
                None \<Rightarrow> Inl InvalidEncoding
              | Some bs \<Rightarrow> Inr (r\<lparr>lr_record_digest := legacy_sha256 L bs\<rparr>))"

text \<open>\<^verbatim>\<open>BTreeMap::insert\<close>.\<close>

fun btree_insert :: "'k :: linorder \<Rightarrow> 'v \<Rightarrow> ('k \<times> 'v) list \<Rightarrow> ('k \<times> 'v) list" where
  "btree_insert k v [] = [(k, v)]"
| "btree_insert k v ((k', v') # kvs) =
     (if k < k' then (k, v) # (k', v') # kvs else if k = k' then (k, v) # kvs else (k', v') # btree_insert k v kvs)"

fun collect_unique :: "(string \<times> legacy_record) list \<Rightarrow> legacy_record list \<Rightarrow> legacy_error + (string \<times> legacy_record) list" where
  "collect_unique unique [] = Inr unique"
| "collect_unique unique (r # rs) =
     (case map_of unique (lr_source_record_key r) of
        Some existing \<Rightarrow>
          if lr_record_digest existing \<noteq> lr_record_digest r then Inl DuplicateSourceKey else collect_unique unique rs
      | None \<Rightarrow> collect_unique (btree_insert (lr_source_record_key r) r unique) rs)"

definition finish_batch ::
  "legacy_source_kind \<Rightarrow> legacy_source_version \<Rightarrow> string \<Rightarrow> legacy_record list \<Rightarrow> legacy_error + preflight_batch" where
  "finish_batch kind version digest records =
     bind_result (collect_unique [] records) (\<lambda>unique.
       Inr \<lparr>pb_source_kind = kind, pb_source_version = version, pb_source_digest = digest, pb_row_count = length unique,
            pb_records = map snd unique\<rparr>)"

section \<open>Reading a file\<close>

record file_view =
  fv_is_file :: bool
  fv_readable :: bool
  fv_bytes :: bytes

type_synonym source_file = "nat \<Rightarrow> file_view option"

definition read_file :: "source_file \<Rightarrow> nat \<Rightarrow> bytes option" where
  "read_file file t = (case file t of None \<Rightarrow> None | Some v \<Rightarrow> if fv_readable v then Some (fv_bytes v) else None)"

text \<open>The metadata at moment \<open>t\<close>, the first reading at \<open>t + 1\<close>, the second at \<open>t + 2\<close>.\<close>

definition read_source_bytes :: "source_file \<Rightarrow> nat \<Rightarrow> nat \<Rightarrow> legacy_error + bytes" where
  "read_source_bytes file t max_bytes =
     (case file t of
        None \<Rightarrow> Inl LegacySourceUnavailable
      | Some metadata \<Rightarrow>
          if \<not> fv_is_file metadata then Inl LegacySourceUnavailable
          else if max_bytes < length (fv_bytes metadata) then Inl SourceTooLarge
          else (case read_file file (t + 1) of
                  None \<Rightarrow> Inl LegacySourceUnavailable
                | Some first \<Rightarrow>
                    if max_bytes < length first then Inl SourceTooLarge
                    else (case read_file file (t + 2) of
                            None \<Rightarrow> Inl LegacySourceUnavailable
                          | Some second \<Rightarrow>
                              if max_bytes < length second then Inl SourceTooLarge
                              else if first \<noteq> second then Inl SourceChanged
                              else Inr first)))"

section \<open>CSV\<close>

definition LF :: char where "LF = CHR 0x0A"

definition CR :: char where "CR = CHR 0x0D"

definition DQ :: char where "DQ = CHR 0x22"

text \<open>The state of the scanner: inside quotes, just behind closing quotes, the field, the row and the rows read so far.\<close>

fun csv_scan :: "bool \<Rightarrow> bool \<Rightarrow> string \<Rightarrow> string list \<Rightarrow> string list list \<Rightarrow> string \<Rightarrow> legacy_error + string list list" where
  "csv_scan quoted closed field row rows [] =
     (if quoted then Inl InvalidEncoding
      else if field \<noteq> [] \<or> row \<noteq> [] then Inr (rows @ [row @ [field]])
      else Inr rows)"
| "csv_scan True closed field row rows (c # cs) =
     (if c = DQ
      then (case cs of
              c' # cs' \<Rightarrow> if c' = DQ then csv_scan True closed (field @ [DQ]) row rows cs' else csv_scan False True field row rows cs
            | [] \<Rightarrow> csv_scan False True field row rows cs)
      else csv_scan True closed (field @ [c]) row rows cs)"
| "csv_scan False closed field row rows (c # cs) =
     (if c = DQ \<and> field = [] \<and> \<not> closed then csv_scan True closed field row rows cs
      else if c = CHR '','' then csv_scan False False [] (row @ [field]) rows cs
      else if c = LF then
        csv_scan False False [] []
          (rows @ [row @ [if field \<noteq> [] \<and> last field = CR \<and> \<not> closed then butlast field else field]]) cs
      else if c = CR \<and> starts_with [LF] cs then csv_scan False closed field row rows cs
      else if closed then Inl InvalidEncoding
      else csv_scan False closed (field @ [c]) row rows cs)"

definition parse_csv :: "string \<Rightarrow> legacy_error + string list list" where
  "parse_csv source = csv_scan False False [] [] [] source"

definition MONOLITH_HEADERS :: "string list" where
  "MONOLITH_HEADERS = [''request_id'', ''bookmark_external_id'', ''x_category'', ''tweet_text'', ''tweet_text_tsv'', ''tweet_author'',
     ''tweet_url'', ''posted_at'', ''synced_at'']"

definition csv_record :: "legacy_library \<Rightarrow> source_limits \<Rightarrow> string list \<Rightarrow> legacy_error + legacy_record" where
  "csv_record L limits row =
     (case row of
        [request_id, external_id, category, tweet_text, _, _, tweet_url, posted_at, synced_at] \<Rightarrow>
          and_then (validate_text ''tweet_text'' tweet_text (sl_max_text_bytes limits))
          (bind_result (parse_optional_timestamp L ''posted_at'' posted_at) (\<lambda>posted.
           bind_result (parse_required_timestamp L ''synced_at'' synced_at) (\<lambda>synced.
             build_record L
               \<lparr>lr_source_record_key = request_id, lr_provider_post_id = nonempty external_id,
                lr_url_provider_post_id = fst (parse_x_status_url L tweet_url),
                lr_canonical_url_digest = snd (parse_x_status_url L tweet_url), lr_text = tweet_text, lr_posted_at = posted,
                lr_bookmarked_at = None, lr_synced_at = synced,
                lr_categories = (case nonempty category of None \<Rightarrow> [] | Some c \<Rightarrow> [c]),
                lr_folder_ids = [], lr_folder_names = [], lr_record_digest = []\<rparr>)))
      | _ \<Rightarrow> Inl InvalidEncoding)"

definition preflight_monolith_csv :: "legacy_library \<Rightarrow> source_file \<Rightarrow> source_limits \<Rightarrow> legacy_error + preflight_batch" where
  "preflight_monolith_csv L file limits =
     bind_result (read_source_bytes file 0 (sl_max_bytes limits)) (\<lambda>bytes.
       case from_utf8 bytes of
         None \<Rightarrow> Inl InvalidEncoding
       | Some source \<Rightarrow>
           bind_result (parse_csv source) (\<lambda>rows.
             case rows of
               [] \<Rightarrow> Inl UnsupportedSourceVersion
             | header # rows \<Rightarrow>
                 if header \<noteq> MONOLITH_HEADERS then Inl UnsupportedSourceVersion
                 else if sl_max_rows limits < length rows then Inl RowLimitExceeded
                 else bind_result (map_all (csv_record L limits) rows)
                        (finish_batch MonolithBookmarkMetadataCsv MonolithBookmarkMetadata (legacy_sha256 L bytes))))"

section \<open>JSON lines\<close>

definition strip_cr :: "string \<Rightarrow> string" where
  "strip_cr s = (if s \<noteq> [] \<and> last s = CR then butlast s else s)"

text \<open>\<^verbatim>\<open>str::lines\<close>.\<close>

definition lines_of :: "string \<Rightarrow> string list" where
  "lines_of s = (let parts = split_on LF s
     in map strip_cr (butlast parts) @ (if last parts = [] then [] else [last parts]))"

definition FIELD_THEORY_JSONL_FIELDS :: "string list" where
  "FIELD_THEORY_JSONL_FIELDS = [''id'', ''tweetId'', ''authorHandle'', ''authorName'', ''authorProfileImageUrl'', ''author'', ''url'',
     ''text'', ''postedAt'', ''bookmarkedAt'', ''sortIndex'', ''syncedAt'', ''conversationId'', ''inReplyToStatusId'', ''inReplyToUserId'',
     ''quotedStatusId'', ''quotedTweet'', ''articleTitle'', ''articleText'', ''articleSite'', ''enrichedAt'', ''language'', ''sourceApp'',
     ''possiblySensitive'', ''engagement'', ''media'', ''mediaObjects'', ''links'', ''tags'', ''ingestedVia'', ''folderIds'', ''folderNames'',
     ''textExpandedAt'', ''quotedTweetFailedAt'']"

definition jsonl_object :: "legacy_library \<Rightarrow> source_limits \<Rightarrow> string \<Rightarrow> legacy_error + json_object" where
  "jsonl_object L limits line =
     (case ll_parse_json L line of
        None \<Rightarrow> Inl InvalidEncoding
      | Some v \<Rightarrow>
          if sl_max_json_depth limits < json_depth v then Inl JsonDepthExceeded
          else and_then (reject_forbidden_fields v)
            (case v of
               JObj object \<Rightarrow>
                 and_then (reject_unknown_fields object FIELD_THEORY_JSONL_FIELDS)
                 (and_then (validate_field_theory_record_shape object) (Inr object))
             | _ \<Rightarrow> Inl (InvalidField ''record'')))"

definition jsonl_record :: "legacy_library \<Rightarrow> source_limits \<Rightarrow> string \<Rightarrow> legacy_error + legacy_record" where
  "jsonl_record L limits line =
     bind_result (jsonl_object L limits line) (\<lambda>object.
     bind_result (required_string object ''id'') (\<lambda>key.
     bind_result (optional_string object ''tweetId'') (\<lambda>provider_post_id.
     bind_result (required_string object ''url'') (\<lambda>url.
     bind_result (required_string object ''text'') (\<lambda>body.
     and_then (validate_text ''text'' body (sl_max_text_bytes limits))
     (bind_result (optional_string_array object ''folderIds'') (\<lambda>folder_ids.
     bind_result (optional_string_array object ''folderNames'') (\<lambda>folder_names.
     bind_result (optional_timestamp_from_json L object ''postedAt'') (\<lambda>posted.
     bind_result (optional_timestamp_from_json L object ''bookmarkedAt'') (\<lambda>bookmarked.
     bind_result (required_timestamp_from_json L object ''syncedAt'') (\<lambda>synced.
       build_record L
         \<lparr>lr_source_record_key = key, lr_provider_post_id = provider_post_id,
          lr_url_provider_post_id = fst (parse_x_status_url L url), lr_canonical_url_digest = snd (parse_x_status_url L url),
          lr_text = body, lr_posted_at = posted, lr_bookmarked_at = bookmarked, lr_synced_at = synced, lr_categories = [],
          lr_folder_ids = folder_ids, lr_folder_names = folder_names, lr_record_digest = []\<rparr>)))))))))))"

fun jsonl_records ::
  "legacy_library \<Rightarrow> source_limits \<Rightarrow> legacy_record list \<Rightarrow> string list \<Rightarrow> legacy_error + legacy_record list" where
  "jsonl_records L limits records [] = Inr records"
| "jsonl_records L limits records (line # lines) =
     (if length records = sl_max_rows limits then Inl RowLimitExceeded
      else bind_result (jsonl_record L limits line) (\<lambda>r. jsonl_records L limits (records @ [r]) lines))"

definition preflight_field_theory_jsonl :: "legacy_library \<Rightarrow> source_file \<Rightarrow> source_limits \<Rightarrow> legacy_error + preflight_batch" where
  "preflight_field_theory_jsonl L file limits =
     bind_result (read_source_bytes file 0 (sl_max_bytes limits)) (\<lambda>bytes.
       case from_utf8 bytes of
         None \<Rightarrow> Inl InvalidEncoding
       | Some source \<Rightarrow>
           bind_result (jsonl_records L limits [] (filter (\<lambda>line. trim line \<noteq> []) (lines_of source)))
             (finish_batch FieldTheoryJsonl FieldTheoryJsonl1 (legacy_sha256 L bytes)))"

section \<open>SQLite\<close>

datatype sqlite_value = SqlText string | SqlNull | SqlOther

type_synonym sqlite_row = "string \<Rightarrow> sqlite_value"

text \<open>What the driver answers: whether it connects, the schema version, the columns, the rows up to a limit, whether it closes.\<close>

record sqlite_source =
  sq_connects :: bool
  sq_schema_version :: "string option"
  sq_columns :: "string list option"
  sq_rows :: "nat \<Rightarrow> sqlite_row list option"
  sq_closes :: bool

definition sqlite_string :: "sqlite_row \<Rightarrow> string \<Rightarrow> legacy_error + string" where
  "sqlite_string row field = (case row field of SqlText s \<Rightarrow> Inr s | _ \<Rightarrow> Inl (InvalidField field))"

definition sqlite_optional_string :: "sqlite_row \<Rightarrow> string \<Rightarrow> legacy_error + string option" where
  "sqlite_optional_string row field =
     (case row field of SqlText s \<Rightarrow> Inr (Some s) | SqlNull \<Rightarrow> Inr None | SqlOther \<Rightarrow> Inl (InvalidField field))"

definition FIELD_THEORY_SQLITE_COLUMNS :: "string list" where
  "FIELD_THEORY_SQLITE_COLUMNS = [''id'', ''tweet_id'', ''url'', ''text'', ''author_handle'', ''author_name'', ''author_profile_image_url'',
     ''posted_at'', ''bookmarked_at'', ''synced_at'', ''conversation_id'', ''in_reply_to_status_id'', ''quoted_status_id'', ''language'',
     ''like_count'', ''repost_count'', ''reply_count'', ''quote_count'', ''bookmark_count'', ''view_count'', ''media_count'', ''link_count'',
     ''links_json'', ''tags_json'', ''ingested_via'', ''categories'', ''primary_category'', ''github_urls'', ''domains'', ''primary_domain'',
     ''quoted_tweet_json'', ''article_title'', ''article_text'', ''article_site'', ''enriched_at'', ''folder_ids'', ''folder_names'']"

definition or_empty :: "string option \<Rightarrow> string" where
  "or_empty v = (case v of None \<Rightarrow> [] | Some s \<Rightarrow> s)"

definition sqlite_record :: "legacy_library \<Rightarrow> source_limits \<Rightarrow> sqlite_row \<Rightarrow> legacy_error + legacy_record" where
  "sqlite_record L limits row =
     bind_result (sqlite_string row ''id'') (\<lambda>key.
     bind_result (sqlite_string row ''tweet_id'') (\<lambda>provider_post_id.
     bind_result (sqlite_string row ''url'') (\<lambda>url.
     bind_result (sqlite_string row ''text'') (\<lambda>body.
     and_then (validate_text ''text'' body (sl_max_text_bytes limits))
     (bind_result (sqlite_optional_string row ''posted_at'') (\<lambda>posted_at.
     bind_result (sqlite_optional_string row ''bookmarked_at'') (\<lambda>bookmarked_at.
     bind_result (sqlite_string row ''synced_at'') (\<lambda>synced_at.
     bind_result (sqlite_optional_string row ''categories'') (\<lambda>categories.
     bind_result (sqlite_optional_string row ''primary_category'') (\<lambda>primary.
     bind_result (merge_legacy_lists L categories primary) (\<lambda>merged.
     bind_result (sqlite_optional_string row ''folder_ids'') (\<lambda>ids.
     bind_result (parse_legacy_list L ids) (\<lambda>folder_ids.
     bind_result (sqlite_optional_string row ''folder_names'') (\<lambda>names.
     bind_result (parse_legacy_list L names) (\<lambda>folder_names.
     bind_result (parse_optional_timestamp L ''posted_at'' (or_empty posted_at)) (\<lambda>posted.
     bind_result (parse_optional_timestamp L ''bookmarked_at'' (or_empty bookmarked_at)) (\<lambda>bookmarked.
     bind_result (parse_required_timestamp L ''synced_at'' synced_at) (\<lambda>synced.
       build_record L
         \<lparr>lr_source_record_key = key, lr_provider_post_id = Some provider_post_id,
          lr_url_provider_post_id = fst (parse_x_status_url L url), lr_canonical_url_digest = snd (parse_x_status_url L url),
          lr_text = body, lr_posted_at = posted, lr_bookmarked_at = bookmarked, lr_synced_at = synced, lr_categories = merged,
          lr_folder_ids = folder_ids, lr_folder_names = folder_names, lr_record_digest = []\<rparr>))))))))))))))))))"

definition sqlite_rows :: "sqlite_source \<Rightarrow> source_limits \<Rightarrow> legacy_error + sqlite_row list" where
  "sqlite_rows S limits =
     (if \<not> sq_connects S then Inl SourceDatabase
      else case sq_schema_version S of
        None \<Rightarrow> Inl SourceDatabase
      | Some version \<Rightarrow>
          if version \<noteq> ''6'' then Inl UnsupportedSourceVersion
          else case sq_columns S of
            None \<Rightarrow> Inl SourceDatabase
          | Some columns \<Rightarrow>
              (case find forbidden_field_name columns of
                 Some field \<Rightarrow> Inl (ForbiddenField field)
               | None \<Rightarrow>
                   if columns \<noteq> FIELD_THEORY_SQLITE_COLUMNS then Inl UnsupportedSqliteSchema
                   else case sq_rows S (min (sl_max_rows limits + 1) (2 ^ 63 - 1)) of
                     None \<Rightarrow> Inl SourceDatabase
                   | Some rows \<Rightarrow> if sl_max_rows limits < length rows then Inl RowLimitExceeded else Inr rows))"

definition preflight_field_theory_sqlite ::
  "legacy_library \<Rightarrow> source_file \<Rightarrow> sqlite_source \<Rightarrow> source_limits \<Rightarrow> legacy_error + preflight_batch" where
  "preflight_field_theory_sqlite L file S limits =
     bind_result (read_source_bytes file 0 (sl_max_bytes limits)) (\<lambda>before.
     bind_result (sqlite_rows S limits) (\<lambda>rows.
     bind_result (map_all (sqlite_record L limits) rows) (\<lambda>records.
       if \<not> sq_closes S then Inl SourceDatabase
       else bind_result (read_source_bytes file 3 (sl_max_bytes limits)) (\<lambda>after.
         if before \<noteq> after then Inl SourceChanged
         else finish_batch FieldTheorySqlite FieldTheorySqlite6 (legacy_sha256 L before) records))))"

datatype legacy_source_selection =
    MonolithCsv source_file
  | FieldTheory "source_file option" "(source_file \<times> sqlite_source) option"

fun preflight_source :: "legacy_library \<Rightarrow> legacy_source_selection \<Rightarrow> source_limits \<Rightarrow> legacy_error + preflight_batch" where
  "preflight_source L (MonolithCsv file) limits = preflight_monolith_csv L file limits"
| "preflight_source L (FieldTheory jsonl sqlite) limits =
     (case jsonl of
        Some file \<Rightarrow> preflight_field_theory_jsonl L file limits
      | None \<Rightarrow>
          (case sqlite of
             Some (file, S) \<Rightarrow> preflight_field_theory_sqlite L file S limits
           | None \<Rightarrow> Inl MissingSource))"

end
