(* ===== verification/Legacy_Import.thy ===== *)
theory Legacy_Import
  imports Legacy_Sources
begin

text \<open>
  The import of a legacy batch, \<^verbatim>\<open>x-sync/src/legacy_transition.rs\<close> (the identity adapter), \<^verbatim>\<open>legacy_transition/imports.rs\<close> and
  \<^verbatim>\<open>LegacyTransitionService::import_batch\<close>: owner approval, the identity of the connected account as X reports it, one transaction that inserts the
  run, the posts and one item per record, and the reuse of a completed run. A \<^verbatim>\<open>CHECK\<close> of the item table that the data can violate is checked. Not distinguished:
  a NUL character in a text, which the database refuses, and parts of an instant below its microsecond, which it drops.
\<close>

section \<open>Approvals, outcomes and counts\<close>

definition IMPORTER_PARSER_VERSION :: int where
  "IMPORTER_PARSER_VERSION = 1"

record ownership_approval =
  oa_account_id :: uuid
  oa_internal_owner_id :: uuid
  oa_source_digest :: string
  oa_approval_digest :: string

record import_counts =
  ic_inserted :: nat
  ic_matched :: nat
  ic_updated :: nat
  ic_conflicted :: nat
  ic_rejected :: nat
  ic_unmapped :: nat

definition no_counts :: import_counts where
  "no_counts = \<lparr>ic_inserted = 0, ic_matched = 0, ic_updated = 0, ic_conflicted = 0, ic_rejected = 0, ic_unmapped = 0\<rparr>"

record import_outcome =
  io_run_id :: uuid
  io_counts :: import_counts
  io_reused :: bool

datatype legacy_resolution = ProviderPost | UrlDerivedPost | IdentityConflict | Unmapped

section \<open>The identity of the connected account\<close>

type_synonym current_identity = "uuid \<Rightarrow> (legacy_error, string) dbio"

record identity_adapter =
  ida_gcm :: gcm
  ida_key :: bytes
  ida_base_url :: string
  ida_http :: "http option"
  ida_parse_json :: "bytes \<Rightarrow> json option"

definition identity_credential :: "uuid \<Rightarrow> archive \<Rightarrow> (bytes \<times> string list) option" where
  "identity_credential a d =
     (case select_one (\<lambda>x. acc_id x = a \<and> acc_state x = Connected) (accounts d) of
        None \<Rightarrow> None
      | Some _ \<Rightarrow> map_option (\<lambda>c. (cred_encrypted_payload c, cred_granted_scopes c)) (active_credential a d))"

definition IDENTITY_LIMIT :: nat where
  "IDENTITY_LIMIT = 64 * 1024"

fun identity_chunks :: "bytes \<Rightarrow> bytes list \<Rightarrow> http_failure option \<Rightarrow> bytes option" where
  "identity_chunks body [] broken = (case broken of Some _ \<Rightarrow> None | None \<Rightarrow> Some body)"
| "identity_chunks body (chunk # chunks) broken =
     (if IDENTITY_LIMIT < length body + length chunk then None else identity_chunks (body @ chunk) chunks broken)"

definition identity_answer :: "identity_adapter \<Rightarrow> http_response \<Rightarrow> string option" where
  "identity_answer I r =
     (if \<not> is_success (hr_status r) \<or> (case hr_content_length r of None \<Rightarrow> False | Some n \<Rightarrow> IDENTITY_LIMIT < n) then None
      else case identity_chunks [] (hr_chunks r) (hr_broken r) of
        None \<Rightarrow> None
      | Some body \<Rightarrow>
          (case Option.bind (ida_parse_json I body) (json_pointer [''data'', ''id'']) of
             Some (JStr s) \<Rightarrow> if s = [] then None else Some s
           | _ \<Rightarrow> None))"

definition identity_request :: "identity_adapter \<Rightarrow> credential_payload \<Rightarrow> http_request" where
  "identity_request I p = \<lparr>hq_method = ''GET'', hq_url = ida_base_url I @ ''/2/users/me'', hq_auth = BearerAuth (cp_access_token p),
     hq_content_type = None, hq_body = None\<rparr>"

definition ask_identity :: "identity_adapter \<Rightarrow> credential_payload \<Rightarrow> (legacy_error, string) dbio" where
  "ask_identity I p =
     (case ida_http I of
        None \<Rightarrow> throw CurrentIdentityUnavailable
      | Some H \<Rightarrow>
          bind_io (map_err (\<lambda>_. CurrentIdentityUnavailable) (send_request H (identity_request I p))) (\<lambda>response.
            case identity_answer I response of None \<Rightarrow> throw CurrentIdentityUnavailable | Some user \<Rightarrow> ret user))"

definition current_provider_user_id :: "identity_adapter \<Rightarrow> current_identity" where
  "current_provider_user_id I a =
     bind_io (query CurrentIdentityUnavailable (identity_credential a)) (\<lambda>row.
       case row of
         None \<Rightarrow> throw CurrentIdentityUnavailable
       | Some (encrypted, scopes) \<Rightarrow>
           if ''users.read'' \<notin> set scopes then throw CurrentIdentityUnavailable
           else (case open_envelope (ida_gcm I) (ida_key I) a Credential encrypted of
                   Inl _ \<Rightarrow> throw CurrentIdentityUnavailable
                 | Inr opened \<Rightarrow>
                     (case payload_decode opened of
                        None \<Rightarrow> throw CurrentIdentityUnavailable
                      | Some payload \<Rightarrow> ask_identity I payload)))"

section \<open>The identity of a record\<close>

definition valid_provider_post_id :: "string \<Rightarrow> bool" where
  "valid_provider_post_id s \<longleftrightarrow> s \<noteq> [] \<and> length s \<le> 19 \<and> list_all is_digit s"

definition valid_id :: "string option \<Rightarrow> string option" where
  "valid_id v = (case v of None \<Rightarrow> None | Some s \<Rightarrow> if valid_provider_post_id s then Some s else None)"

definition resolve_record_identity :: "legacy_record \<Rightarrow> legacy_resolution \<times> string option \<times> string option" where
  "resolve_record_identity r =
     (case (valid_id (lr_provider_post_id r), valid_id (lr_url_provider_post_id r)) of
        (Some explicit, Some from_url) \<Rightarrow>
          if explicit \<noteq> from_url then (IdentityConflict, None, Some from_url) else (ProviderPost, Some explicit, None)
      | (Some explicit, None) \<Rightarrow> (ProviderPost, Some explicit, None)
      | (None, Some from_url) \<Rightarrow> (UrlDerivedPost, Some from_url, None)
      | (None, None) \<Rightarrow> (Unmapped, None, None))"

fun resolution_database_value :: "legacy_resolution \<Rightarrow> string" where
  "resolution_database_value ProviderPost = ''provider_post''"
| "resolution_database_value UrlDerivedPost = ''canonical_url''"
| "resolution_database_value IdentityConflict = ''identity_conflict''"
| "resolution_database_value Unmapped = ''unmapped''"

fun source_database_identity :: "legacy_source_kind \<Rightarrow> legacy_source_version \<Rightarrow> legacy_error + (string \<times> int)" where
  "source_database_identity MonolithBookmarkMetadataCsv MonolithBookmarkMetadata = Inr (''monolith_csv'', 1)"
| "source_database_identity FieldTheoryJsonl FieldTheoryJsonl1 = Inr (''field_theory_jsonl'', 1)"
| "source_database_identity FieldTheorySqlite FieldTheorySqlite6 = Inr (''field_theory_sqlite'', 6)"
| "source_database_identity _ _ = Inl UnsupportedSourceVersion"

definition bounded_count :: "nat \<Rightarrow> legacy_error + int" where
  "bounded_count n = (if int n \<le> i32_max then Inr (int n) else Inl LegacyDatabase)"

definition nonnegative_count :: "int \<Rightarrow> legacy_error + nat" where
  "nonnegative_count n = (if 0 \<le> n then Inr (nat n) else Inl LegacyDatabase)"

section \<open>Posts and items\<close>

definition imported_post :: "uuid \<Rightarrow> string \<Rightarrow> legacy_record \<Rightarrow> post_row" where
  "imported_post i provider_post_id r =
     \<lparr>pst_id = i, pst_provider_id = provider_post_id, pst_author_user_id = None, pst_text = lr_text r, pst_long_text = None,
      pst_expanded_urls = [], pst_language = None, pst_published_at = lr_posted_at r, pst_edited_at = None,
      pst_conversation_provider_id = None, pst_like_count = None, pst_retweet_count = None, pst_reply_count = None, pst_quote_count = None,
      pst_bookmark_count = None, pst_impression_count = None, pst_parser_version = IMPORTER_PARSER_VERSION,
      pst_normalization_provenance = LegacyImport, pst_availability = Unknown\<rparr>"

definition insert_imported_post :: "string \<Rightarrow> legacy_record \<Rightarrow> (legacy_error, uuid) dbio" where
  "insert_imported_post provider_post_id r =
     sql LegacyDatabase (\<lambda>now u d.
       if u 0 \<in> pst_id ` set (posts d) then None
       else map_option (\<lambda>t. (u 0, d\<lparr>posts := t\<rparr>)) (insert_unique pst_provider_id (imported_post (u 0) provider_post_id r) (posts d)))"

definition refreshed_post :: "legacy_record \<Rightarrow> post_row \<Rightarrow> post_row" where
  "refreshed_post r p = p\<lparr>pst_text := lr_text r, pst_published_at := lr_posted_at r, pst_parser_version := IMPORTER_PARSER_VERSION,
     pst_availability := Unknown\<rparr>"

definition refresh_imported_post :: "uuid \<Rightarrow> legacy_record \<Rightarrow> (legacy_error, unit) dbio" where
  "refresh_imported_post i r =
     exec LegacyDatabase (\<lambda>d. d\<lparr>posts :=
       update_where (\<lambda>p. pst_id p = i \<and> pst_normalization_provenance p = LegacyImport) (refreshed_post r) (posts d)\<rparr>)"

definition upsert_imported_post ::
  "string \<Rightarrow> legacy_record \<Rightarrow> import_counts \<Rightarrow> (legacy_error, uuid \<times> import_counts) dbio" where
  "upsert_imported_post provider_post_id r counts =
     bind_io (query LegacyDatabase (\<lambda>d. select_one (\<lambda>p. pst_provider_id p = provider_post_id) (posts d))) (\<lambda>existing.
       case existing of
         None \<Rightarrow>
           bind_io (insert_imported_post provider_post_id r) (\<lambda>i. ret (i, counts\<lparr>ic_inserted := ic_inserted counts + 1\<rparr>))
       | Some p \<Rightarrow>
           if pst_normalization_provenance p = LegacyImport \<and> (pst_text p \<noteq> lr_text r \<or> pst_published_at p \<noteq> lr_posted_at r)
           then then_io (refresh_imported_post (pst_id p) r) (ret (pst_id p, counts\<lparr>ic_updated := ic_updated counts + 1\<rparr>))
           else ret (pst_id p, counts\<lparr>ic_matched := ic_matched counts + 1\<rparr>))"

text \<open>\<^verbatim>\<open>length(text)\<close> counts characters: the bytes that do not continue one.\<close>

definition char_length :: "string \<Rightarrow> nat" where
  "char_length s = length (filter (\<lambda>c. \<not> (128 \<le> (of_char c :: nat) \<and> (of_char c :: nat) < 192)) s)"

definition folder_metadata :: "legacy_record \<Rightarrow> json" where
  "folder_metadata r = JArr (map (\<lambda>i. JObj [(''id'', JStr i)]) (lr_folder_ids r) @ map (\<lambda>n. JObj [(''name'', JStr n)]) (lr_folder_names r))"

definition import_item ::
  "legacy_library \<Rightarrow> uuid \<Rightarrow> legacy_record \<Rightarrow> legacy_resolution \<Rightarrow> string option \<Rightarrow> string option \<Rightarrow> uuid option \<Rightarrow> legacy_import_item" where
  "import_item L run r resolution resolved conflicting post =
     \<lparr>lit_import_run_id = run, lit_source_record_key = lr_source_record_key r, lit_source_row_digest = lr_record_digest r,
      lit_provider_post_id = (case resolved of Some i \<Rightarrow> Some i | None \<Rightarrow> valid_id (lr_provider_post_id r)),
      lit_conflicting_provider_post_id = conflicting, lit_post_id = post, lit_canonical_url_digest = lr_canonical_url_digest r,
      lit_content_digest = Some (legacy_sha256 L (as_bytes (lr_text r))), lit_source_observed_saved_at = lr_bookmarked_at r,
      lit_source_synced_at = Some (lr_synced_at r), lit_legacy_category_metadata = JArr (map JStr (lr_categories r)),
      lit_legacy_folder_metadata = folder_metadata r, lit_resolution = resolution_database_value resolution\<rparr>"

definition item_admitted :: "legacy_import_item \<Rightarrow> bool" where
  "item_admitted x \<longleftrightarrow> 1 \<le> char_length (lit_source_record_key x) \<and> char_length (lit_source_record_key x) \<le> 256
     \<and> valid_sha256 (lit_source_row_digest x) \<and> (case lit_content_digest x of None \<Rightarrow> True | Some g \<Rightarrow> valid_sha256 g)
     \<and> (case lit_canonical_url_digest x of None \<Rightarrow> True | Some g \<Rightarrow> valid_sha256 g)"

definition insert_item :: "legacy_import_item \<Rightarrow> (legacy_error, unit) dbio" where
  "insert_item x =
     sql LegacyDatabase (\<lambda>now u d.
       if \<not> item_admitted x then None
       else map_option (\<lambda>t. ((), d\<lparr>legacy_import_items := t\<rparr>)) (insert_unique lit_key x (legacy_import_items d)))"

fun count_unresolved :: "legacy_resolution \<Rightarrow> import_counts \<Rightarrow> import_counts" where
  "count_unresolved IdentityConflict counts = counts\<lparr>ic_conflicted := ic_conflicted counts + 1\<rparr>"
| "count_unresolved Unmapped counts = counts\<lparr>ic_unmapped := ic_unmapped counts + 1\<rparr>"
| "count_unresolved _ counts = counts"

definition import_post ::
  "legacy_record \<Rightarrow> legacy_resolution \<Rightarrow> string option \<Rightarrow> import_counts \<Rightarrow> (legacy_error, uuid option \<times> import_counts) dbio" where
  "import_post r resolution resolved counts =
     (case resolved of
        Some provider_post_id \<Rightarrow> bind_io (upsert_imported_post provider_post_id r counts) (\<lambda>(i, counts). ret (Some i, counts))
      | None \<Rightarrow> ret (None, count_unresolved resolution counts))"

definition import_record :: "legacy_library \<Rightarrow> uuid \<Rightarrow> legacy_record \<Rightarrow> import_counts \<Rightarrow> (legacy_error, import_counts) dbio" where
  "import_record L run r counts =
     (case resolve_record_identity r of
        (resolution, resolved, conflicting) \<Rightarrow>
          bind_io (import_post r resolution resolved counts) (\<lambda>(post, counts).
            then_io (insert_item (import_item L run r resolution resolved conflicting post)) (ret counts)))"

definition persist_import_records :: "legacy_library \<Rightarrow> uuid \<Rightarrow> legacy_record list \<Rightarrow> (legacy_error, import_counts) dbio" where
  "persist_import_records L run records = fold_io (import_record L run) records no_counts"

section \<open>Runs\<close>

definition account_identity :: "uuid \<Rightarrow> archive \<Rightarrow> (uuid \<times> string \<times> account_state) option" where
  "account_identity a d =
     map_option (\<lambda>x. (acc_internal_user_id x, acc_provider_user_id x, acc_state x)) (select_one (\<lambda>x. acc_id x = a) (accounts d))"

definition validate_locked_import_account :: "ownership_approval \<Rightarrow> string \<Rightarrow> (legacy_error, unit) dbio" where
  "validate_locked_import_account approval verified =
     bind_io (query LegacyDatabase (account_identity (oa_account_id approval))) (\<lambda>locked.
       case locked of
         None \<Rightarrow> throw TargetAccountNotFound
       | Some (owner, provider_user_id, state) \<Rightarrow>
           if owner \<noteq> oa_internal_owner_id approval then throw InvalidOwnershipApproval
           else if state \<noteq> Connected then throw TargetAccountNotConnected
           else if provider_user_id \<noteq> verified then throw CurrentIdentityMismatch
           else ret ())"

definition insert_import_run :: "ownership_approval \<Rightarrow> string \<Rightarrow> int \<Rightarrow> string \<Rightarrow> (legacy_error, uuid) dbio" where
  "insert_import_run approval kind version digest =
     sql LegacyDatabase (\<lambda>now u d.
       if u 0 \<in> lir_id ` set (legacy_import_runs d) \<or> \<not> valid_sha256 digest \<or> \<not> valid_sha256 (oa_approval_digest approval) then None
       else map_option (\<lambda>t. (u 0, d\<lparr>legacy_import_runs := t\<rparr>))
         (insert_unique lir_key
           \<lparr>lir_id = u 0, lir_account_id = oa_account_id approval, lir_source_kind = kind, lir_source_version = version,
            lir_source_digest = digest, lir_importer_parser_version = IMPORTER_PARSER_VERSION,
            lir_ownership_approval_digest = oa_approval_digest approval, lir_status = ImportRunning, lir_inserted_count = 0,
            lir_matched_count = 0, lir_updated_count = 0, lir_conflicted_count = 0, lir_rejected_count = 0, lir_unmapped_count = 0,
            lir_finished_at = None\<rparr> (legacy_import_runs d)))"

definition completed_run :: "time \<Rightarrow> int list \<Rightarrow> legacy_import_run \<Rightarrow> legacy_import_run" where
  "completed_run now ns r = r\<lparr>lir_status := ImportCompleted, lir_inserted_count := ns ! 0, lir_matched_count := ns ! 1,
     lir_updated_count := ns ! 2, lir_conflicted_count := ns ! 3, lir_rejected_count := ns ! 4, lir_unmapped_count := ns ! 5,
     lir_finished_at := Some now\<rparr>"

definition count_values :: "import_counts \<Rightarrow> nat list" where
  "count_values c = [ic_inserted c, ic_matched c, ic_updated c, ic_conflicted c, ic_rejected c, ic_unmapped c]"

definition complete_import :: "uuid \<Rightarrow> import_counts \<Rightarrow> (legacy_error, unit) dbio" where
  "complete_import run counts =
     bind_io (of_result (map_all bounded_count (count_values counts))) (\<lambda>ns.
       sql LegacyDatabase (\<lambda>now u d. Some ((), d\<lparr>legacy_import_runs :=
         update_where (\<lambda>r. lir_id r = run) (completed_run now ns) (legacy_import_runs d)\<rparr>)))"

definition stored_counts :: "legacy_import_run \<Rightarrow> int list" where
  "stored_counts r = [lir_inserted_count r, lir_matched_count r, lir_updated_count r, lir_conflicted_count r, lir_rejected_count r,
     lir_unmapped_count r]"

definition counts_of :: "nat list \<Rightarrow> import_counts" where
  "counts_of ns = \<lparr>ic_inserted = ns ! 0, ic_matched = ns ! 1, ic_updated = ns ! 2, ic_conflicted = ns ! 3, ic_rejected = ns ! 4,
     ic_unmapped = ns ! 5\<rparr>"

datatype import_end = ReusedRun legacy_import_run | NewRun uuid import_counts

definition import_in_transaction ::
  "legacy_library \<Rightarrow> preflight_batch \<Rightarrow> ownership_approval \<Rightarrow> string \<Rightarrow> (legacy_error, import_end) dbio" where
  "import_in_transaction L batch approval verified =
     then_io (validate_locked_import_account approval verified)
     (bind_io (of_result (source_database_identity (pb_source_kind batch) (pb_source_version batch))) (\<lambda>(kind, version).
      bind_io (query LegacyDatabase (\<lambda>d. select_one (\<lambda>r. lir_key r = (oa_account_id approval, kind, version, pb_source_digest batch,
          IMPORTER_PARSER_VERSION)) (legacy_import_runs d))) (\<lambda>existing.
        case existing of
          Some r \<Rightarrow> if lir_status r \<noteq> ImportCompleted then throw LegacyDatabase else ret (ReusedRun r)
        | None \<Rightarrow>
            bind_io (insert_import_run approval kind version (pb_source_digest batch)) (\<lambda>run.
            bind_io (persist_import_records L run (pb_records batch)) (\<lambda>counts.
            then_io (complete_import run counts) (ret (NewRun run counts)))))))"

definition conclude_import :: "import_end \<Rightarrow> legacy_error + import_outcome" where
  "conclude_import e =
     (case e of
        ReusedRun r \<Rightarrow>
          bind_result (map_all nonnegative_count (stored_counts r)) (\<lambda>ns.
            Inr \<lparr>io_run_id = lir_id r, io_counts = counts_of ns, io_reused = True\<rparr>)
      | NewRun run counts \<Rightarrow> Inr \<lparr>io_run_id = run, io_counts = counts, io_reused = False\<rparr>)"

definition persist_import ::
  "legacy_library \<Rightarrow> preflight_batch \<Rightarrow> ownership_approval \<Rightarrow> string \<Rightarrow> (legacy_error, import_outcome) dbio" where
  "persist_import L batch approval verified =
     bind_io (transaction LegacyDatabase (import_in_transaction L batch approval verified)) (\<lambda>e. of_result (conclude_import e))"

definition import_batch ::
  "legacy_library \<Rightarrow> current_identity \<Rightarrow> preflight_batch \<Rightarrow> ownership_approval option \<Rightarrow> (legacy_error, import_outcome) dbio" where
  "import_batch L identity batch approval =
     (case approval of
        None \<Rightarrow> throw MissingOwnershipApproval
      | Some approval \<Rightarrow>
          if oa_source_digest approval \<noteq> pb_source_digest batch \<or> \<not> valid_sha256 (oa_approval_digest approval)
          then throw InvalidOwnershipApproval
          else bind_io (query LegacyDatabase (account_identity (oa_account_id approval))) (\<lambda>account.
            case account of
              None \<Rightarrow> throw TargetAccountNotFound
            | Some (owner, stored, state) \<Rightarrow>
                if owner \<noteq> oa_internal_owner_id approval then throw InvalidOwnershipApproval
                else if state \<noteq> Connected then throw TargetAccountNotConnected
                else bind_io (identity (oa_account_id approval)) (\<lambda>current.
                  if current \<noteq> stored then throw CurrentIdentityMismatch
                  else persist_import L batch approval stored)))"

end
