(* ===== verification/Legacy_Shadow.thy ===== *)
theory Legacy_Shadow
  imports Legacy_Import Articles
begin

text \<open>
  The comparison of an import with an official snapshot and the owner's decision on it, \<^verbatim>\<open>x-sync/src/legacy_transition/shadow.rs\<close> and the rest
  of \<^verbatim>\<open>legacy_transition/service.rs\<close>: the shadow report, its checklist and the approval. Row locks are steps without effect.
\<close>

section \<open>Reports\<close>

datatype shadow_diff_class = SMatched | SUrlMatched | SLegacyOnly | SOfficialOnly | SIdentityConflict | SUnmapped

text \<open>The derived order of \<^verbatim>\<open>ShadowDiffClass\<close> is the order of its variants.\<close>

fun class_rank :: "shadow_diff_class \<Rightarrow> nat" where
  "class_rank SMatched = 0"
| "class_rank SUrlMatched = 1"
| "class_rank SLegacyOnly = 2"
| "class_rank SOfficialOnly = 3"
| "class_rank SIdentityConflict = 4"
| "class_rank SUnmapped = 5"

lemma class_rank_inj: "class_rank a = class_rank b \<longleftrightarrow> a = b"
  by (cases a; cases b) simp_all

instantiation shadow_diff_class :: linorder
begin

definition less_eq_shadow_diff_class :: "shadow_diff_class \<Rightarrow> shadow_diff_class \<Rightarrow> bool" where
  "less_eq_shadow_diff_class a b \<longleftrightarrow> class_rank a \<le> class_rank b"

definition less_shadow_diff_class :: "shadow_diff_class \<Rightarrow> shadow_diff_class \<Rightarrow> bool" where
  "less_shadow_diff_class a b \<longleftrightarrow> class_rank a < class_rank b"

instance
  by standard (auto simp: less_eq_shadow_diff_class_def less_shadow_diff_class_def class_rank_inj)

end

fun class_name :: "shadow_diff_class \<Rightarrow> string" where
  "class_name SMatched = ''matched''"
| "class_name SUrlMatched = ''url_matched''"
| "class_name SLegacyOnly = ''legacy_only''"
| "class_name SOfficialOnly = ''official_only''"
| "class_name SIdentityConflict = ''identity_conflict''"
| "class_name SUnmapped = ''unmapped''"

record shadow_diff =
  sd_class :: shadow_diff_class
  sd_provider_post_id :: "string option"
  sd_legacy_record_digest :: "string option"
  sd_content_changed :: bool
  sd_legacy_category_present :: bool
  sd_legacy_folder_present :: bool

record shadow_summary =
  ssum_matched :: nat
  ssum_url_matched :: nat
  ssum_legacy_only :: nat
  ssum_official_only :: nat
  ssum_identity_conflicts :: nat
  ssum_unmapped :: nat

record shadow_report =
  sr_report_version :: int
  sr_account_id :: uuid
  sr_import_run_id :: uuid
  sr_snapshot_id :: uuid
  sr_import_digest :: string
  sr_snapshot_digest :: string
  sr_entries :: "shadow_diff list"
  sr_summary :: shadow_summary

record shadow_report_outcome =
  so_report_id :: uuid
  so_report_digest :: string
  so_report :: shadow_report
  so_reused :: bool

section \<open>Classification\<close>

record shadow_legacy_row =
  sl_row_digest :: string
  sl_provider_post_id :: "string option"
  sl_content_digest :: "string option"
  sl_category_metadata :: json
  sl_folder_metadata :: json
  sl_resolution :: string

fun json_array_has_values :: "json \<Rightarrow> bool" where
  "json_array_has_values (JArr vs) \<longleftrightarrow> vs \<noteq> []"
| "json_array_has_values _ \<longleftrightarrow> False"

text \<open>\<^verbatim>\<open>collect\<close> of pairs into a \<^verbatim>\<open>BTreeMap\<close>: a later pair replaces an earlier one of the same key.\<close>

definition btree_of :: "('k :: linorder \<times> 'v) list \<Rightarrow> ('k \<times> 'v) list" where
  "btree_of rows = foldl (\<lambda>m (k, v). btree_insert k v m) [] rows"

definition diff_of :: "shadow_legacy_row \<Rightarrow> shadow_diff_class \<Rightarrow> string option \<Rightarrow> bool \<Rightarrow> shadow_diff" where
  "diff_of row cls provider_post_id changed =
     \<lparr>sd_class = cls, sd_provider_post_id = provider_post_id, sd_legacy_record_digest = Some (sl_row_digest row), sd_content_changed = changed,
      sd_legacy_category_present = json_array_has_values (sl_category_metadata row),
      sd_legacy_folder_present = json_array_has_values (sl_folder_metadata row)\<rparr>"

definition content_differs :: "legacy_library \<Rightarrow> shadow_legacy_row \<Rightarrow> string \<Rightarrow> bool" where
  "content_differs L row official_text =
     (case sl_content_digest row of None \<Rightarrow> False | Some digest \<Rightarrow> digest \<noteq> legacy_sha256 L (as_bytes official_text))"

text \<open>The entry of a row, and the official identity it uses up.\<close>

definition classify_row ::
  "legacy_library \<Rightarrow> (string \<times> string) list \<Rightarrow> shadow_legacy_row \<Rightarrow> legacy_error + (shadow_diff \<times> string option)" where
  "classify_row L official row =
     (if sl_resolution row = ''identity_conflict'' then Inr (diff_of row SIdentityConflict (sl_provider_post_id row) False, None)
      else if sl_resolution row = ''unmapped'' then Inr (diff_of row SUnmapped None False, None)
      else if sl_resolution row = ''provider_post'' \<or> sl_resolution row = ''canonical_url'' then
        (case sl_provider_post_id row of
           None \<Rightarrow> Inl LegacyDatabase
         | Some i \<Rightarrow>
             (case map_of official i of
                Some official_text \<Rightarrow>
                  Inr (diff_of row (if sl_resolution row = ''canonical_url'' then SUrlMatched else SMatched) (Some i)
                         (content_differs L row official_text), Some i)
              | None \<Rightarrow> Inr (diff_of row SLegacyOnly (Some i) False, None)))
      else Inl LegacyDatabase)"

fun classify_loop ::
  "legacy_library \<Rightarrow> (string \<times> string) list \<Rightarrow> shadow_legacy_row list \<Rightarrow> string set \<Rightarrow> shadow_diff list \<Rightarrow>
     legacy_error + (string set \<times> shadow_diff list)" where
  "classify_loop L official [] matched entries = Inr (matched, entries)"
| "classify_loop L official (row # rows) matched entries =
     (case classify_row L official row of
        Inl e \<Rightarrow> Inl e
      | Inr (entry, used) \<Rightarrow> classify_loop L official rows (matched \<union> set_option used) (entries @ [entry]))"

definition official_only :: "string \<Rightarrow> shadow_diff" where
  "official_only i = \<lparr>sd_class = SOfficialOnly, sd_provider_post_id = Some i, sd_legacy_record_digest = None, sd_content_changed = False,
     sd_legacy_category_present = False, sd_legacy_folder_present = False\<rparr>"

definition diff_key :: "shadow_diff \<Rightarrow> shadow_diff_class \<times> string option \<times> string option" where
  "diff_key e = (sd_class e, sd_provider_post_id e, sd_legacy_record_digest e)"

definition classify_shadow_entries ::
  "legacy_library \<Rightarrow> shadow_legacy_row list \<Rightarrow> (string \<times> string) list \<Rightarrow> legacy_error + shadow_diff list" where
  "classify_shadow_entries L legacy_rows official_rows =
     (let official = btree_of official_rows in
      bind_result (classify_loop L official legacy_rows {} []) (\<lambda>(matched, entries).
        Inr (sort_key diff_key (entries @ map official_only (filter (\<lambda>i. i \<notin> matched) (map fst official))))))"

definition u64_max :: nat where
  "u64_max = 2 ^ 64 - 1"

definition shadow_count :: "shadow_diff list \<Rightarrow> shadow_diff_class \<Rightarrow> nat" where
  "shadow_count entries cls = foldl (\<lambda>n _. min (n + 1) u64_max) 0 (filter (\<lambda>e. sd_class e = cls) entries)"

definition shadow_summary_of :: "shadow_diff list \<Rightarrow> shadow_summary" where
  "shadow_summary_of entries =
     \<lparr>ssum_matched = shadow_count entries SMatched, ssum_url_matched = shadow_count entries SUrlMatched,
      ssum_legacy_only = shadow_count entries SLegacyOnly, ssum_official_only = shadow_count entries SOfficialOnly,
      ssum_identity_conflicts = shadow_count entries SIdentityConflict, ssum_unmapped = shadow_count entries SUnmapped\<rparr>"

definition import_digest_of :: "legacy_library \<Rightarrow> shadow_legacy_row list \<Rightarrow> string" where
  "import_digest_of L rows = legacy_sha256 L (as_bytes (join_with ''\<newline>'' (map sl_row_digest rows)))"

definition snapshot_digest_of :: "legacy_library \<Rightarrow> (string \<times> string) list \<Rightarrow> string" where
  "snapshot_digest_of L rows =
     legacy_sha256 L (as_bytes (join_with ''\<newline>'' (map (\<lambda>(i, s). i @ '':'' @ legacy_sha256 L (as_bytes s)) rows)))"

definition build_shadow_report ::
  "legacy_library \<Rightarrow> uuid \<Rightarrow> uuid \<Rightarrow> uuid \<Rightarrow> shadow_legacy_row list \<Rightarrow> (string \<times> string) list \<Rightarrow> legacy_error + shadow_report" where
  "build_shadow_report L a run snapshot_id legacy_rows official_rows =
     bind_result (classify_shadow_entries L legacy_rows official_rows) (\<lambda>entries.
       Inr \<lparr>sr_report_version = 1, sr_account_id = a, sr_import_run_id = run, sr_snapshot_id = snapshot_id,
            sr_import_digest = import_digest_of L legacy_rows, sr_snapshot_digest = snapshot_digest_of L official_rows,
            sr_entries = entries, sr_summary = shadow_summary_of entries\<rparr>)"

section \<open>The stored report\<close>

definition shadow_legacy_rows :: "uuid \<Rightarrow> archive \<Rightarrow> shadow_legacy_row list" where
  "shadow_legacy_rows run d =
     map (\<lambda>x. \<lparr>sl_row_digest = lit_source_row_digest x, sl_provider_post_id = lit_provider_post_id x,
                sl_content_digest = lit_content_digest x, sl_category_metadata = lit_legacy_category_metadata x,
                sl_folder_metadata = lit_legacy_folder_metadata x, sl_resolution = lit_resolution x\<rparr>)
       (sort_key lit_source_row_digest (filter (\<lambda>x. lit_import_run_id x = run) (legacy_import_items d)))"

definition shadow_official_rows :: "uuid \<Rightarrow> archive \<Rightarrow> (string \<times> string) list" where
  "shadow_official_rows s d =
     sort_key fst (concat (map (\<lambda>x. map (\<lambda>p. (pst_provider_id p, pst_text p)) (filter (\<lambda>p. pst_id p = item_post_id x) (posts d)))
       (filter (\<lambda>x. item_snapshot_id x = s) (snapshot_bookmark_items d))))"

definition load_shadow_rows :: "uuid \<Rightarrow> uuid \<Rightarrow> (legacy_error, shadow_legacy_row list \<times> (string \<times> string) list) dbio" where
  "load_shadow_rows run s =
     bind_io (query LegacyDatabase (shadow_legacy_rows run)) (\<lambda>legacy_rows.
     bind_io (query LegacyDatabase (shadow_official_rows s)) (\<lambda>official_rows. ret (legacy_rows, official_rows)))"

text \<open>
  The JSON of a report. \<^verbatim>\<open>to_vec\<close> prints the fields in the order of the structure (\<open>JObj\<close>), \<^verbatim>\<open>to_value\<close> collects them in a map
  (\<open>sorted_object\<close>).
\<close>

definition sorted_object :: "(string \<times> json) list \<Rightarrow> json" where
  "sorted_object kvs = JObj (btree_of kvs)"

definition diff_json :: "((string \<times> json) list \<Rightarrow> json) \<Rightarrow> shadow_diff \<Rightarrow> json" where
  "diff_json obj e = obj [(''class'', JStr (class_name (sd_class e))), (''provider_post_id'', jopt_str (sd_provider_post_id e)),
     (''legacy_record_digest'', jopt_str (sd_legacy_record_digest e)), (''content_changed'', JBool (sd_content_changed e)),
     (''legacy_category_present'', JBool (sd_legacy_category_present e)), (''legacy_folder_present'', JBool (sd_legacy_folder_present e))]"

definition summary_json :: "((string \<times> json) list \<Rightarrow> json) \<Rightarrow> shadow_summary \<Rightarrow> json" where
  "summary_json obj s = obj [(''matched'', JNum (int (ssum_matched s))), (''url_matched'', JNum (int (ssum_url_matched s))),
     (''legacy_only'', JNum (int (ssum_legacy_only s))), (''official_only'', JNum (int (ssum_official_only s))),
     (''identity_conflicts'', JNum (int (ssum_identity_conflicts s))), (''unmapped'', JNum (int (ssum_unmapped s)))]"

definition report_json :: "legacy_library \<Rightarrow> ((string \<times> json) list \<Rightarrow> json) \<Rightarrow> shadow_report \<Rightarrow> json" where
  "report_json L obj r =
     (let name = (\<lambda>i. JStr (uuid_text (ll_contracts L) i)) in
      obj [(''report_version'', JNum (sr_report_version r)), (''account_id'', name (sr_account_id r)), (''import_run_id'', name (sr_import_run_id r)),
           (''snapshot_id'', name (sr_snapshot_id r)), (''import_digest'', JStr (sr_import_digest r)),
           (''snapshot_digest'', JStr (sr_snapshot_digest r)), (''entries'', JArr (map (diff_json obj) (sr_entries r))),
           (''summary'', summary_json obj (sr_summary r))])"

definition report_row :: "legacy_library \<Rightarrow> uuid \<Rightarrow> shadow_report \<Rightarrow> string \<Rightarrow> legacy_shadow_report" where
  "report_row L i r digest =
     \<lparr>lsr_id = i, lsr_account_id = sr_account_id r, lsr_import_run_id = sr_import_run_id r, lsr_snapshot_id = sr_snapshot_id r,
      lsr_import_digest = sr_import_digest r, lsr_snapshot_digest = sr_snapshot_digest r, lsr_report_payload = report_json L sorted_object r,
      lsr_report_digest = digest, lsr_review_state = OwnerReviewRequired\<rparr>"

definition insert_report :: "legacy_library \<Rightarrow> shadow_report \<Rightarrow> string \<Rightarrow> (legacy_error, uuid option) dbio" where
  "insert_report L r digest =
     sql LegacyDatabase (\<lambda>now u d.
       let row = report_row L (u 0) r digest in
       if \<not> valid_sha256 (lsr_import_digest row) \<or> \<not> valid_sha256 (lsr_snapshot_digest row) \<or> \<not> valid_sha256 digest then None
       else if lsr_key row \<in> lsr_key ` set (legacy_shadow_reports d) then Some (None, d)
       else if u 0 \<in> lsr_id ` set (legacy_shadow_reports d)
            \<or> (lsr_account_id row, digest) \<in> (\<lambda>x. (lsr_account_id x, lsr_report_digest x)) ` set (legacy_shadow_reports d) then None
       else Some (Some (u 0), d\<lparr>legacy_shadow_reports := legacy_shadow_reports d @ [row]\<rparr>))"

definition stored_report :: "shadow_report \<Rightarrow> archive \<Rightarrow> legacy_shadow_report option" where
  "stored_report r d = select_one (\<lambda>x. lsr_key x = (sr_account_id r, sr_import_run_id r, sr_snapshot_id r, sr_import_digest r, sr_snapshot_digest r))
     (legacy_shadow_reports d)"

definition persist_shadow_report :: "legacy_library \<Rightarrow> shadow_report \<Rightarrow> (legacy_error, uuid \<times> string \<times> bool) dbio" where
  "persist_shadow_report L r =
     (case json_bytes (ll_contracts L) (report_json L JObj r) of
        None \<Rightarrow> throw LegacyDatabase
      | Some bytes \<Rightarrow>
          (let digest = legacy_sha256 L bytes in
           bind_io (insert_report L r digest) (\<lambda>inserted.
             case inserted of
               Some i \<Rightarrow> ret (i, digest, False)
             | None \<Rightarrow>
                 bind_io (query LegacyDatabase (stored_report r)) (\<lambda>existing.
                   case existing of
                     None \<Rightarrow> throw LegacyDatabase
                   | Some x \<Rightarrow> if lsr_report_digest x \<noteq> digest then throw LegacyDatabase else ret (lsr_id x, digest, True)))))"

definition authoritative_snapshot :: "uuid \<Rightarrow> uuid \<Rightarrow> archive \<Rightarrow> bool" where
  "authoritative_snapshot a s d \<longleftrightarrow>
     list_ex (\<lambda>auth. auth_account_id auth = a \<and> auth_snapshot_id auth = s) (bookmark_snapshot_authority d)
     \<and> list_ex (\<lambda>x. snap_id x = s \<and> snap_complete x \<and> snap_completed_at x \<noteq> None
          \<and> list_ex (\<lambda>run. run_id run = snap_sync_run_id x \<and> run_account_id run = Some a \<and> run_run_type run = RFull
                \<and> run_state run = RunCompleted \<and> run_finished_at run \<noteq> None \<and> run_checkpoint run = None
                \<and> snap_page_count x = run_pages_fetched run) (sync_runs d)) (snapshots d)"

definition require_current_authoritative_snapshot :: "uuid \<Rightarrow> uuid \<Rightarrow> (legacy_error, unit) dbio" where
  "require_current_authoritative_snapshot a s =
     bind_io (query LegacyDatabase (authoritative_snapshot a s)) (\<lambda>current. if current then ret () else throw SnapshotNotAuthoritative)"

definition import_available :: "uuid \<Rightarrow> uuid \<Rightarrow> archive \<Rightarrow> bool" where
  "import_available a run d \<longleftrightarrow>
     list_ex (\<lambda>x. lir_id x = run \<and> lir_account_id x = a \<and> lir_status x = ImportCompleted) (legacy_import_runs d)"

definition shadow_report_body :: "legacy_library \<Rightarrow> uuid \<Rightarrow> uuid \<Rightarrow> uuid \<Rightarrow> (legacy_error, shadow_report_outcome) dbio" where
  "shadow_report_body L a run s =
     bind_io (query LegacyDatabase (import_available a run)) (\<lambda>available.
       if \<not> available then throw ImportRunUnavailable
       else then_io (require_current_authoritative_snapshot a s)
         (bind_io (load_shadow_rows run s) (\<lambda>(legacy_rows, official_rows).
          bind_io (of_result (build_shadow_report L a run s legacy_rows official_rows)) (\<lambda>report.
          bind_io (persist_shadow_report L report) (\<lambda>(i, digest, reused).
            ret \<lparr>so_report_id = i, so_report_digest = digest, so_report = report, so_reused = reused\<rparr>)))))"

definition shadow_report_for :: "legacy_library \<Rightarrow> uuid \<Rightarrow> uuid \<Rightarrow> uuid \<Rightarrow> (legacy_error, shadow_report_outcome) dbio" where
  "shadow_report_for L a run s = transaction LegacyDatabase (shadow_report_body L a run s)"

section \<open>The checklist\<close>

definition report_summary_count :: "json_object \<Rightarrow> string \<Rightarrow> legacy_error + nat" where
  "report_summary_count summary field =
     (case map_of summary field of
        Some (JNum n) \<Rightarrow> if 0 \<le> n \<and> nat n \<le> u64_max then Inr (nat n) else Inl LegacyDatabase
      | _ \<Rightarrow> Inl LegacyDatabase)"

definition show_int :: "int \<Rightarrow> string" where
  "show_int n = (if n < 0 then ''-'' @ show_nat (nat (- n)) else show_nat (nat n))"

definition quoted :: "string \<Rightarrow> string" where
  "quoted s = ''`'' @ s @ ''`''"

definition summary_fields :: "string list" where
  "summary_fields = [''matched'', ''url_matched'', ''legacy_only'', ''official_only'', ''identity_conflicts'', ''unmapped'']"

definition checklist_lines :: "legacy_library \<Rightarrow> legacy_shadow_report \<Rightarrow> legacy_import_run \<Rightarrow> nat list \<Rightarrow> string list" where
  "checklist_lines L report run ns =
     (let name = (\<lambda>i. quoted (uuid_text (ll_contracts L) i)) in
      [''# Field Theory cutover checklist'', '''',
       ''Account: '' @ name (lsr_account_id report) @ ''  '',
       ''Import run: '' @ name (lsr_import_run_id report) @ ''  '',
       ''Shadow report: '' @ name (lsr_id report) @ ''  '',
       ''Complete snapshot: '' @ name (lsr_snapshot_id report), '''',
       ''## Backup'', '''',
       ''- [ ] Confirm the read-only legacy archive backup and PostgreSQL backup are retained.'', '''',
       ''## Import counts'', '''',
       ''- Inserted: '' @ show_int (lir_inserted_count run), ''- Matched: '' @ show_int (lir_matched_count run),
       ''- Updated: '' @ show_int (lir_updated_count run), ''- Conflicted: '' @ show_int (lir_conflicted_count run),
       ''- Rejected: '' @ show_int (lir_rejected_count run), ''- Unmapped: '' @ show_int (lir_unmapped_count run),
       ''- Import digest: '' @ quoted (lsr_import_digest report), '''',
       ''## Complete official snapshot'', '''',
       ''- [ ] Confirm snapshot '' @ name (lsr_snapshot_id report) @ '' remains the current complete successful full snapshot.'',
       ''- Snapshot digest: '' @ quoted (lsr_snapshot_digest report), '''',
       ''## Shadow findings'', '''',
       ''- Provider-ID matched: '' @ show_nat (ns ! 0), ''- URL matched: '' @ show_nat (ns ! 1), ''- Legacy only: '' @ show_nat (ns ! 2),
       ''- Official only: '' @ show_nat (ns ! 3), ''- Identity conflicts: '' @ show_nat (ns ! 4), ''- Unmapped: '' @ show_nat (ns ! 5),
       ''- Report digest: '' @ quoted (lsr_report_digest report), '''',
       ''## Privacy and cost review'', '''',
       ''- [ ] Confirm no cookies, tokens, sessions, source paths, post bodies, URLs, or handles entered evidence records.'',
       ''- [ ] Confirm the official full snapshot cost and rate-limit evidence are accepted.'', '''',
       ''## Workspace changeset'', '''',
       ''- [ ] Approve a separate '' @ quoted ''ratatoskr-workspace'' @ '' changeset before any external routing change.'', '''',
       ''## Stability window'', '''',
       ''- [ ] Record the owner-approved shadow stability window and monitoring owner.'', '''',
       ''## Rollback'', '''',
       ''1. Stop the external routing rollout in the workspace changeset.'',
       ''2. Restore the previous routing revision; do not delete imported, report, or approval evidence.'',
       ''3. Re-run '' @ quoted ''shadow-report'' @ '' against the current complete official snapshot before another approval.'', '''',
       ''## Evidence retention'', '''',
       ''- [ ] Retain the legacy source unchanged, import run, shadow JSON, this checklist, owner decision evidence, and rollback record.''])"

definition checklist_markdown :: "legacy_library \<Rightarrow> legacy_shadow_report \<Rightarrow> legacy_import_run \<Rightarrow> nat list \<Rightarrow> string" where
  "checklist_markdown L report run ns = concat (map (\<lambda>l. l @ ''\<newline>'') (checklist_lines L report run ns))"

definition render_checklist :: "legacy_library \<Rightarrow> legacy_shadow_report \<Rightarrow> legacy_import_run \<Rightarrow> legacy_error + string" where
  "render_checklist L report run =
     (case lsr_report_payload report of
        JObj payload \<Rightarrow>
          (case map_of payload ''summary'' of
             Some (JObj summary) \<Rightarrow>
               bind_result (map_all (report_summary_count summary) summary_fields) (\<lambda>ns. Inr (checklist_markdown L report run ns))
           | _ \<Rightarrow> Inl LegacyDatabase)
      | _ \<Rightarrow> Inl LegacyDatabase)"

record checklist_outcome =
  co_markdown :: string
  co_checklist_digest :: string
  co_shadow_report_id :: uuid

definition report_with_run :: "uuid \<Rightarrow> uuid \<Rightarrow> archive \<Rightarrow> (legacy_shadow_report \<times> legacy_import_run) option" where
  "report_with_run a i d =
     (case select_one (\<lambda>r. lsr_id r = i \<and> lsr_account_id r = a) (legacy_shadow_reports d) of
        None \<Rightarrow> None
      | Some report \<Rightarrow>
          map_option (\<lambda>run. (report, run))
            (select_one (\<lambda>run. lir_id run = lsr_import_run_id report \<and> lir_account_id run = a) (legacy_import_runs d)))"

definition current_approval :: "uuid \<Rightarrow> transition_approval \<Rightarrow> bool" where
  "current_approval a x \<longleftrightarrow> lta_account_id x = a \<and> lta_superseded_at x = None"

definition reset_report_reviewability :: "uuid \<Rightarrow> uuid list \<Rightarrow> (legacy_error, unit) dbio" where
  "reset_report_reviewability a stale_reports =
     exec LegacyDatabase (\<lambda>d. d\<lparr>legacy_shadow_reports :=
       update_where (\<lambda>r. lsr_account_id r = a \<and> lsr_id r \<in> set stale_reports) (\<lambda>r. r\<lparr>lsr_review_state := OwnerReviewRequired\<rparr>)
         (legacy_shadow_reports d)\<rparr>)"

definition stale_approval :: "uuid \<Rightarrow> uuid \<Rightarrow> transition_approval \<Rightarrow> bool" where
  "stale_approval a i x \<longleftrightarrow> current_approval a x \<and> lta_shadow_report_id x \<noteq> i"

definition supersede_approvals_for_new_report :: "uuid \<Rightarrow> uuid \<Rightarrow> (legacy_error, unit) dbio" where
  "supersede_approvals_for_new_report a i =
     bind_io (query LegacyDatabase (\<lambda>d. map lta_shadow_report_id (filter (stale_approval a i) (legacy_transition_approvals d)))) (\<lambda>stale_reports.
       if stale_reports = [] then ret ()
       else then_io
         (sql LegacyDatabase (\<lambda>now u d. Some ((), d\<lparr>legacy_transition_approvals :=
            update_where (stale_approval a i) (\<lambda>x. x\<lparr>lta_superseded_at := Some now\<rparr>) (legacy_transition_approvals d)\<rparr>)))
         (reset_report_reviewability a stale_reports))"

definition checklist_body :: "legacy_library \<Rightarrow> uuid \<Rightarrow> uuid \<Rightarrow> (legacy_error, checklist_outcome) dbio" where
  "checklist_body L a i =
     bind_io (query LegacyDatabase (report_with_run a i)) (\<lambda>row.
       case row of
         None \<Rightarrow> throw ShadowReportUnavailable
       | Some (report, run) \<Rightarrow>
           then_io (require_current_authoritative_snapshot a (lsr_snapshot_id report))
           (then_io (supersede_approvals_for_new_report a i)
           (bind_io (of_result (render_checklist L report run)) (\<lambda>markdown.
             ret \<lparr>co_markdown = markdown, co_checklist_digest = legacy_sha256 L (as_bytes markdown), co_shadow_report_id = i\<rparr>))))"

definition checklist_for :: "legacy_library \<Rightarrow> uuid \<Rightarrow> uuid \<Rightarrow> (legacy_error, checklist_outcome) dbio" where
  "checklist_for L a i = transaction LegacyDatabase (checklist_body L a i)"

section \<open>The owner's decision\<close>

record approval_request =
  ar_account_id :: uuid
  ar_internal_owner_id :: uuid
  ar_shadow_report_id :: uuid
  ar_checklist_digest :: string
  ar_owner_evidence_digest :: string
  ar_decision :: approval_decision
  ar_decided_at :: time

record approval_outcome =
  ao_approval_id :: uuid
  ao_reused :: bool

definition request_key :: "approval_request \<Rightarrow> uuid \<times> uuid \<times> string \<times> string \<times> approval_decision" where
  "request_key q = (ar_account_id q, ar_shadow_report_id q, ar_checklist_digest q, ar_owner_evidence_digest q, ar_decision q)"

definition validate_approval_target :: "approval_request \<Rightarrow> (legacy_error, uuid option) dbio" where
  "validate_approval_target q =
     bind_io (query LegacyDatabase (\<lambda>d. map_option acc_internal_user_id (select_one (\<lambda>x. acc_id x = ar_account_id q) (accounts d)))) (\<lambda>owner.
       if owner \<noteq> Some (ar_internal_owner_id q) then throw InvalidOwnershipApproval
       else bind_io (query LegacyDatabase (\<lambda>d. map_option lsr_snapshot_id
              (select_one (\<lambda>r. lsr_id r = ar_shadow_report_id q \<and> lsr_account_id r = ar_account_id q) (legacy_shadow_reports d)))) (\<lambda>report.
         case report of
           None \<Rightarrow> throw ShadowReportUnavailable
         | Some report_snapshot_id \<Rightarrow>
             then_io (require_current_authoritative_snapshot (ar_account_id q) report_snapshot_id)
             (bind_io (query LegacyDatabase (\<lambda>d. select_one (\<lambda>x. lta_key x = request_key q) (legacy_transition_approvals d))) (\<lambda>existing.
               case existing of
                 None \<Rightarrow> ret None
               | Some x \<Rightarrow> if lta_superseded_at x \<noteq> None then throw ChecklistDigestMismatch else ret (Some (lta_id x))))))"

definition supersede_current_approvals :: "uuid \<Rightarrow> time \<Rightarrow> (legacy_error, unit) dbio" where
  "supersede_current_approvals a decided_at =
     bind_io (query LegacyDatabase (\<lambda>d. map lta_shadow_report_id (filter (current_approval a) (legacy_transition_approvals d)))) (\<lambda>stale_reports.
       if stale_reports = [] then ret ()
       else then_io
         (exec LegacyDatabase (\<lambda>d. d\<lparr>legacy_transition_approvals :=
            update_where (current_approval a) (\<lambda>x. x\<lparr>lta_superseded_at := Some decided_at\<rparr>) (legacy_transition_approvals d)\<rparr>))
         (reset_report_reviewability a stale_reports))"

definition approval_row :: "uuid \<Rightarrow> approval_request \<Rightarrow> transition_approval" where
  "approval_row i q = \<lparr>lta_id = i, lta_account_id = ar_account_id q, lta_internal_owner_id = ar_internal_owner_id q,
     lta_shadow_report_id = ar_shadow_report_id q, lta_checklist_digest = ar_checklist_digest q,
     lta_owner_evidence_digest = ar_owner_evidence_digest q, lta_decision = ar_decision q, lta_decided_at = ar_decided_at q,
     lta_superseded_at = None\<rparr>"

text \<open>The insert is bound by two unique constraints: one row per decision, and one current decision per account.\<close>

definition insert_approval :: "approval_request \<Rightarrow> (legacy_error, uuid) dbio" where
  "insert_approval q =
     sql LegacyDatabase (\<lambda>now u d.
       if u 0 \<in> lta_id ` set (legacy_transition_approvals d) \<or> list_ex (current_approval (ar_account_id q)) (legacy_transition_approvals d) then None
       else map_option (\<lambda>t. (u 0, d\<lparr>legacy_transition_approvals := t\<rparr>))
         (insert_unique lta_key (approval_row (u 0) q) (legacy_transition_approvals d)))"

fun decision_review_state :: "approval_decision \<Rightarrow> review_state" where
  "decision_review_state Approved = Reviewable"
| "decision_review_state Rejected = OwnerReviewRequired"

definition set_review_state :: "uuid \<Rightarrow> uuid \<Rightarrow> review_state \<Rightarrow> (legacy_error, unit) dbio" where
  "set_review_state a i s =
     exec LegacyDatabase (\<lambda>d. d\<lparr>legacy_shadow_reports :=
       update_where (\<lambda>r. lsr_id r = i \<and> lsr_account_id r = a) (\<lambda>r. r\<lparr>lsr_review_state := s\<rparr>) (legacy_shadow_reports d)\<rparr>)"

definition approval_body :: "approval_request \<Rightarrow> (legacy_error, approval_outcome) dbio" where
  "approval_body q =
     bind_io (validate_approval_target q) (\<lambda>existing.
       case existing of
         Some i \<Rightarrow> ret \<lparr>ao_approval_id = i, ao_reused = True\<rparr>
       | None \<Rightarrow>
           then_io (supersede_current_approvals (ar_account_id q) (ar_decided_at q))
           (bind_io (insert_approval q) (\<lambda>i.
            then_io (set_review_state (ar_account_id q) (ar_shadow_report_id q) (decision_review_state (ar_decision q)))
              (ret \<lparr>ao_approval_id = i, ao_reused = False\<rparr>))))"

definition record_transition_approval :: "legacy_library \<Rightarrow> approval_request \<Rightarrow> (legacy_error, approval_outcome) dbio" where
  "record_transition_approval L q =
     (if \<not> valid_sha256 (ar_owner_evidence_digest q) \<or> \<not> valid_sha256 (ar_checklist_digest q) then throw ChecklistDigestMismatch
      else bind_io (checklist_for L (ar_account_id q) (ar_shadow_report_id q)) (\<lambda>checklist.
        if co_checklist_digest checklist \<noteq> ar_checklist_digest q then throw ChecklistDigestMismatch
        else transaction LegacyDatabase (approval_body q)))"

end
