(* ===== verification/Legacy_Preflight.thy ===== *)
theory Legacy_Preflight
  imports Legacy_Sources "HOL-Library.Sublist"
begin

text \<open>
  What the preflight of a legacy source admits: the CSV scanner reads every spelling of a table back, a batch stays within the limits and carries the digest
  of the bytes that were read, and no field of a cached document, at any depth, is named like a credential.
\<close>

section \<open>CSV spellings are read back\<close>

definition plain_field :: "string \<Rightarrow> bool" where
  "plain_field s \<longleftrightarrow> list_all (\<lambda>c. c \<noteq> DQ \<and> c \<noteq> CHR '','' \<and> c \<noteq> LF \<and> c \<noteq> CR) s"

definition escape_quotes :: "string \<Rightarrow> string" where
  "escape_quotes s = concat (map (\<lambda>c. if c = DQ then [DQ, DQ] else [c]) s)"

text \<open>A cell is a field and whether it is put in quotes; a row may end with either line ending.\<close>

fun spell_cell :: "bool \<times> string \<Rightarrow> string" where
  "spell_cell (q, s) = (if q then [DQ] @ escape_quotes s @ [DQ] else s)"

definition spell_row :: "bool \<times> (bool \<times> string) list \<Rightarrow> string" where
  "spell_row r = join_with '','' (map spell_cell (snd r)) @ (if fst r then [CR, LF] else [LF])"

definition well_spelled :: "bool \<times> (bool \<times> string) list \<Rightarrow> bool" where
  "well_spelled r \<longleftrightarrow> snd r \<noteq> [] \<and> list_all (\<lambda>(q, s). q \<or> plain_field s) (snd r)"

lemma char_facts: "DQ \<noteq> CHR '',''" "DQ \<noteq> LF" "DQ \<noteq> CR" "LF \<noteq> CR" "CHR '','' \<noteq> LF" "CHR '','' \<noteq> CR"
  by (simp_all add: DQ_def LF_def CR_def)

lemmas char_facts' = char_facts char_facts [symmetric]

lemma scan_escaped:
  "\<not> starts_with [DQ] rest \<Longrightarrow>
   csv_scan True False field row rows (escape_quotes s @ DQ # rest) = csv_scan False True (field @ s) row rows rest"
proof (induction s arbitrary: field)
  case Nil
  then show ?case by (cases rest) (simp_all add: escape_quotes_def starts_with_def)
next
  case (Cons c s)
  from Cons.IH [OF Cons.prems, of "field @ [c]"] show ?case by (cases "c = DQ") (simp_all add: escape_quotes_def)
qed

lemma scan_plain_field:
  "plain_field s \<Longrightarrow> csv_scan False False field row rows (s @ rest) = csv_scan False False (field @ s) row rows rest"
  by (induction s arbitrary: field) (simp_all add: plain_field_def)

lemma scan_cell:
  assumes "q \<or> plain_field s" and "\<not> starts_with [DQ] rest"
  shows "csv_scan False False [] row rows (spell_cell (q, s) @ rest) = csv_scan False q s row rows rest"
proof (cases q)
  case True
  then show ?thesis using scan_escaped [OF assms(2), of "[]" row rows s] by simp
next
  case False
  then show ?thesis using scan_plain_field [of s "[]" row rows rest] assms(1) by simp
qed

lemma scan_line_feed:
  assumes "q \<or> plain_field s"
  shows "csv_scan False q s row rows (LF # rest) = csv_scan False False [] [] (rows @ [row @ [s]]) rest"
proof -
  have "CR \<notin> set s" if "plain_field s" using that unfolding plain_field_def list_all_iff by blast
  with assms have "\<not> (s \<noteq> [] \<and> last s = CR \<and> \<not> q)" using last_in_set by metis
  then have "(if s \<noteq> [] \<and> last s = CR \<and> \<not> q then butlast s else s) = s" by (rule if_not_P)
  then show ?thesis by (subst csv_scan.simps(3)) (simp add: char_facts' del: csv_scan.simps)
qed

lemma scan_row_end:
  assumes "q \<or> plain_field s"
  shows "csv_scan False q s row rows ((if crlf then [CR, LF] else [LF]) @ rest) = csv_scan False False [] [] (rows @ [row @ [s]]) rest"
proof (cases crlf)
  case True
  have "starts_with [LF] (LF # rest)" by (simp add: starts_with_def)
  then have "csv_scan False q s row rows (CR # LF # rest) = csv_scan False q s row rows (LF # rest)"
    by (subst csv_scan.simps(3)) (simp add: char_facts' del: csv_scan.simps)
  then show ?thesis using scan_line_feed [OF assms] True by simp
qed (use scan_line_feed [OF assms] in simp)

lemma scan_row:
  assumes "cells \<noteq> []" and "list_all (\<lambda>(q, s). q \<or> plain_field s) cells"
  shows "csv_scan False False [] row rows (join_with '','' (map spell_cell cells) @ (if crlf then [CR, LF] else [LF]) @ rest)
       = csv_scan False False [] [] (rows @ [row @ map snd cells]) rest"
  using assms
proof (induction cells arbitrary: row)
  case (Cons cell cells)
  obtain q s where cell: "cell = (q, s)" by fastforce
  with Cons.prems(2) have ok: "q \<or> plain_field s" by simp
  show ?case
  proof (cases cells)
    case Nil
    have "\<not> starts_with [DQ] ((if crlf then [CR, LF] else [LF]) @ rest)" by (simp add: starts_with_def char_facts')
    from scan_cell [OF ok this] scan_row_end [OF ok] show ?thesis by (simp add: Nil cell)
  next
    case (Cons cell' cells')
    let ?rest = "join_with '','' (map spell_cell cells) @ (if crlf then [CR, LF] else [LF]) @ rest"
    have "\<not> starts_with [DQ] (CHR '','' # ?rest)" by (simp add: starts_with_def char_facts')
    from scan_cell [OF ok this, of row rows]
    have "csv_scan False False [] row rows (spell_cell cell @ CHR '','' # ?rest) = csv_scan False False [] (row @ [s]) rows ?rest"
      by (simp add: cell char_facts')
    with Cons.IH [of "row @ [s]"] Cons.prems(2) show ?thesis by (simp add: local.Cons cell)
  qed
qed simp

lemma scan_rows:
  "list_all well_spelled table \<Longrightarrow>
   csv_scan False False [] [] rows (concat (map spell_row table)) = Inr (rows @ map (\<lambda>r. map snd (snd r)) table)"
proof (induction table arbitrary: rows)
  case (Cons r table)
  then show ?case
    using scan_row [of "snd r" "[]" rows "fst r" "concat (map spell_row table)"] by (simp add: spell_row_def [of r] well_spelled_def)
qed simp

text \<open>
  C30. Every CSV spelling is read back. However the cells of a table are spelled (in quotes, with doubled quotes inside, or
  bare when they contain no quote, comma or line break) and whichever line ending each row has, the scanner returns exactly the
  fields of the table, row by row. (A row has at least one cell.)
\<close>

theorem csv_read_back:
  assumes "list_all well_spelled table"
  shows "parse_csv (concat (map spell_row table)) = Inr (map (\<lambda>r. map snd (snd r)) table)"
  using scan_rows [OF assms, of "[]"] by (simp add: parse_csv_def)

theorem csv_read_back_witness:
  "parse_csv (concat (map spell_row [(True, [(False, ''a''), (True, ''b,'' @ [DQ, LF])]), (False, [(False, [])])]))
     = Inr [[''a'', ''b,'' @ [DQ, LF]], [[]]]"
  using csv_read_back [of "[(True, [(False, ''a''), (True, ''b,'' @ [DQ, LF])]), (False, [(False, [])])]"]
  by (simp add: well_spelled_def plain_field_def DQ_def LF_def CR_def)

section \<open>Results\<close>

lemma bind_result_Inr [simp]: "bind_result r f = Inr y \<longleftrightarrow> (\<exists>x. r = Inr x \<and> f x = Inr y)"
  by (simp add: bind_result_def split: sum.split)

lemma and_then_Inr [simp]: "and_then a b = Inr y \<longleftrightarrow> a = Inr () \<and> b = Inr y"
  by (simp add: and_then_def split: sum.split)

lemma check_all_Inr: "check_all f xs = Inr () \<longleftrightarrow> (\<forall>x \<in> set xs. f x = Inr ())"
  by (induction xs) auto

lemma map_all_Inr: "map_all f xs = Inr ys \<longleftrightarrow> list_all2 (\<lambda>x y. f x = Inr y) xs ys"
  by (induction xs arbitrary: ys) (auto simp: list_all2_Cons1)

section \<open>Documents without secrets\<close>

text \<open>The documents inside a document, at any depth.\<close>

inductive inside :: "json \<Rightarrow> json \<Rightarrow> bool" where
  inside_itself: "inside v v"
| inside_member: "(k, v) \<in> set kvs \<Longrightarrow> inside x v \<Longrightarrow> inside x (JObj kvs)"
| inside_element: "v \<in> set vs \<Longrightarrow> inside x v \<Longrightarrow> inside x (JArr vs)"

inductive_cases inside_ObjE: "inside x (JObj kvs)"
inductive_cases inside_ArrE: "inside x (JArr vs)"

definition secret_free :: "json \<Rightarrow> bool" where
  "secret_free v \<longleftrightarrow> (\<forall>kvs. inside (JObj kvs) v \<longrightarrow> (\<forall>k \<in> fst ` set kvs. \<not> forbidden_field_name k))"

lemma secret_free_Obj: "secret_free (JObj kvs) \<longleftrightarrow> (\<forall>(k, v) \<in> set kvs. \<not> forbidden_field_name k \<and> secret_free v)"
  unfolding secret_free_def by (fastforce elim!: inside_ObjE intro: inside.intros)

lemma secret_free_Arr: "secret_free (JArr vs) \<longleftrightarrow> (\<forall>v \<in> set vs. secret_free v)"
  unfolding secret_free_def by (fastforce elim!: inside_ArrE intro: inside.intros)

lemma secret_free_atom: "secret_free JNull" "secret_free (JBool b)" "secret_free (JNum n)" "secret_free (JStr s)"
  unfolding secret_free_def by (auto elim: inside.cases)

lemma reject_forbidden_iff:
  "reject_forbidden_fields v = Inr () \<longleftrightarrow> secret_free v"
  "reject_forbidden_members kvs = Inr () \<longleftrightarrow> (\<forall>(k, v) \<in> set kvs. \<not> forbidden_field_name k \<and> secret_free v)"
  "reject_forbidden_values vs = Inr () \<longleftrightarrow> (\<forall>v \<in> set vs. secret_free v)"
  by (induction v and kvs and vs rule: reject_forbidden_fields_reject_forbidden_members_reject_forbidden_values.induct)
    (auto simp: secret_free_Obj secret_free_Arr secret_free_atom)

lemma contains_sublist: "contains word s \<longleftrightarrow> sublist word s"
proof -
  have "split_once word s \<noteq> None \<longleftrightarrow> sublist word s"
    by (induction word s rule: split_once.induct)
      (auto simp: starts_with_def sublist_Cons_right prefix_def take_is_prefix
        dest: sym, (metis append_take_drop_id prefixI take_is_prefix append_eq_conv_conj)+)
  then show ?thesis by (simp add: contains_def)
qed

section \<open>Batches\<close>

lemma btree_insert_keys: "fst ` set (btree_insert k v kvs) = insert k (fst ` set kvs)"
  by (induction k v kvs rule: btree_insert.induct) auto

lemma btree_insert_sorted:
  "sorted_wrt (<) (map fst kvs) \<Longrightarrow> sorted_wrt (<) (map fst (btree_insert k v kvs))"
proof (induction k v kvs rule: btree_insert.induct)
  case (2 k v k' v' kvs)
  have "\<forall>x \<in> fst ` set (btree_insert k v kvs). k' < x" if "\<not> k < k'" "k \<noteq> k'"
    using 2(2) that by (auto simp: btree_insert_keys)
  with 2 show ?case by (auto simp: less_trans)
qed simp

lemma set_btree_insert_new: "k \<notin> fst ` set kvs \<Longrightarrow> set (btree_insert k v kvs) = insert (k, v) (set kvs)"
  by (induction k v kvs rule: btree_insert.induct) auto

lemma length_btree_insert_new: "k \<notin> fst ` set kvs \<Longrightarrow> length (btree_insert k v kvs) = Suc (length kvs)"
  by (induction k v kvs rule: btree_insert.induct) auto

definition keyed_records :: "(string \<times> legacy_record) list \<Rightarrow> bool" where
  "keyed_records unique \<longleftrightarrow> sorted_wrt (<) (map fst unique) \<and> (\<forall>(k, r) \<in> set unique. k = lr_source_record_key r)"

lemma collect_unique_Inr:
  assumes "collect_unique unique rs = Inr result" and "keyed_records unique"
  shows "keyed_records result \<and> set unique \<subseteq> set result \<and> snd ` set result \<subseteq> snd ` set unique \<union> set rs
    \<and> length result \<le> length unique + length rs
    \<and> (\<forall>r \<in> set rs. \<exists>x \<in> snd ` set result. lr_source_record_key x = lr_source_record_key r \<and> lr_record_digest x = lr_record_digest r)"
  using assms
proof (induction unique rs rule: collect_unique.induct)
  case (2 unique r rs)
  show ?case
  proof (cases "map_of unique (lr_source_record_key r)")
    case None
    then have new: "lr_source_record_key r \<notin> fst ` set unique" by (simp add: map_of_eq_None_iff)
    with 2(4) have "keyed_records (btree_insert (lr_source_record_key r) r unique)"
      by (auto simp: keyed_records_def btree_insert_sorted set_btree_insert_new)
    from 2(1) [OF None _ this] 2(3) None new show ?thesis
      by (simp add: set_btree_insert_new length_btree_insert_new) (metis image_eqI insertI1 insert_subset snd_conv)
  next
    case (Some x)
    then have "(lr_source_record_key r, x) \<in> set unique" by (rule map_of_SomeD)
    with 2(4) have x: "(lr_source_record_key r, x) \<in> set unique" "lr_source_record_key x = lr_source_record_key r"
      unfolding keyed_records_def by fastforce+
    from 2(2) [OF Some] 2(3,4) Some x show ?thesis
      by (auto split: if_splits) (metis image_eqI snd_conv subsetD)
  qed
qed auto

section \<open>What a preflight admits\<close>

definition record_ok :: "legacy_library \<Rightarrow> source_limits \<Rightarrow> legacy_record \<Rightarrow> bool" where
  "record_ok L limits r \<longleftrightarrow> lr_source_record_key r \<noteq> [] \<and> length (lr_text r) \<le> sl_max_text_bytes limits
     \<and> sorted_wrt (<) (lr_categories r) \<and> sorted_wrt (<) (lr_folder_ids r) \<and> sorted_wrt (<) (lr_folder_names r)
     \<and> (\<exists>bs. json_bytes (ll_contracts L) (record_digest_value L r) = Some bs \<and> lr_record_digest r = legacy_sha256 L bs)"

lemma build_record_ok:
  assumes "build_record L input = Inr r" and "length (lr_text input) \<le> sl_max_text_bytes limits"
  shows "record_ok L limits r"
proof -
  have d: "record_digest_value L (x\<lparr>lr_record_digest := g\<rparr>) = record_digest_value L x" for x g
    by (simp add: record_digest_value_def)
  show ?thesis
    using assms unfolding build_record_def
    by (auto simp: record_ok_def Let_def d sort_unique_def strict_sorted_remdups_adj split: if_splits option.splits)
qed

lemma validate_text_Inr [simp]: "validate_text field s n = Inr () \<longleftrightarrow> length s \<le> n"
  by (auto simp: validate_text_def)

lemma csv_record_ok: "csv_record L limits row = Inr r \<Longrightarrow> record_ok L limits r"
  unfolding csv_record_def by (auto split: list.splits elim!: build_record_ok)

lemma jsonl_record_ok: "jsonl_record L limits line = Inr r \<Longrightarrow> record_ok L limits r"
  unfolding jsonl_record_def by (auto elim!: build_record_ok)

lemma sqlite_record_ok: "sqlite_record L limits row = Inr r \<Longrightarrow> record_ok L limits r"
  unfolding sqlite_record_def by (auto elim!: build_record_ok)

lemma jsonl_records_Inr:
  "jsonl_records L limits records lines = Inr result \<Longrightarrow> length records \<le> sl_max_rows limits \<Longrightarrow>
   length result \<le> sl_max_rows limits
   \<and> (\<exists>new. result = records @ new \<and> list_all2 (\<lambda>line r. jsonl_record L limits line = Inr r) lines new)"
proof (induction lines arbitrary: records)
  case (Cons line lines)
  from Cons.prems obtain r where r: "jsonl_record L limits line = Inr r" "jsonl_records L limits (records @ [r]) lines = Inr result"
    "length records \<noteq> sl_max_rows limits" by (auto split: if_splits)
  with Cons.prems(2) Cons.IH [of "records @ [r]"] show ?case by (auto simp: list_all2_Cons1)
qed auto

lemma finish_batch_Inr:
  assumes "finish_batch kind version digest records = Inr b"
  shows "pb_source_digest b = digest \<and> pb_row_count b = length (pb_records b) \<and> length (pb_records b) \<le> length records
    \<and> sorted_wrt (<) (map lr_source_record_key (pb_records b)) \<and> set (pb_records b) \<subseteq> set records
    \<and> (\<forall>r \<in> set records. \<exists>x \<in> set (pb_records b).
         lr_source_record_key x = lr_source_record_key r \<and> lr_record_digest x = lr_record_digest r)"
proof -
  from assms obtain unique where u: "collect_unique [] records = Inr unique" "pb_records b = map snd unique"
    "pb_source_digest b = digest" "pb_row_count b = length unique" by (auto simp: finish_batch_def)
  note c = collect_unique_Inr [OF u(1)]
  have "map lr_source_record_key (map snd unique) = map fst unique"
    using c by (auto simp: keyed_records_def)
  then have "sorted_wrt (<) (map lr_source_record_key (pb_records b))"
    using c u(2) by (simp add: keyed_records_def del: map_map)
  then show ?thesis using c u by (auto simp: keyed_records_def)
qed

lemma read_source_bytes_Inr:
  "read_source_bytes file t n = Inr bs \<Longrightarrow> length bs \<le> n \<and> read_file file (t + 1) = Some bs \<and> read_file file (t + 2) = Some bs"
  by (auto simp: read_source_bytes_def split: option.splits if_splits)

fun selected_file :: "legacy_source_selection \<Rightarrow> source_file option" where
  "selected_file (MonolithCsv file) = Some file"
| "selected_file (FieldTheory (Some file) sqlite) = Some file"
| "selected_file (FieldTheory None (Some (file, S))) = Some file"
| "selected_file (FieldTheory None None) = None"

definition batch_ok :: "legacy_library \<Rightarrow> source_limits \<Rightarrow> bytes \<Rightarrow> preflight_batch \<Rightarrow> bool" where
  "batch_ok L limits bs b \<longleftrightarrow> pb_source_digest b = legacy_sha256 L bs \<and> pb_row_count b = length (pb_records b)
     \<and> pb_row_count b \<le> sl_max_rows limits \<and> sorted_wrt (<) (map lr_source_record_key (pb_records b))
     \<and> (\<forall>r \<in> set (pb_records b). record_ok L limits r)"

lemma finish_batch_ok:
  assumes "finish_batch kind version (legacy_sha256 L bs) records = Inr b"
    and "length records \<le> sl_max_rows limits" and "\<And>r. r \<in> set records \<Longrightarrow> record_ok L limits r"
  shows "batch_ok L limits bs b"
  using finish_batch_Inr [OF assms(1)] assms(2,3) by (auto simp: batch_ok_def)

lemma list_all2_partner:
  "list_all2 P xs ys \<Longrightarrow> y \<in> set ys \<Longrightarrow> \<exists>x \<in> set xs. P x y"
  "list_all2 P xs ys \<Longrightarrow> x \<in> set xs \<Longrightarrow> \<exists>y \<in> set ys. P x y"
  by (induction rule: list_all2_induct) auto

lemma map_all_set: "map_all f xs = Inr ys \<Longrightarrow> length ys = length xs \<and> (\<forall>y \<in> set ys. \<exists>x \<in> set xs. f x = Inr y)"
proof -
  assume "map_all f xs = Inr ys"
  then have l: "list_all2 (\<lambda>x y. f x = Inr y) xs ys" by (simp add: map_all_Inr)
  show ?thesis using list_all2_lengthD [OF l] list_all2_partner(1) [OF l] by auto
qed

lemma csv_batch_ok:
  assumes "preflight_monolith_csv L file limits = Inr b"
  obtains bs where "read_source_bytes file 0 (sl_max_bytes limits) = Inr bs" "batch_ok L limits bs b"
proof -
  from assms obtain bs source all where r0: "read_source_bytes file 0 (sl_max_bytes limits) = Inr bs"
    "(case all of [] \<Rightarrow> Inl UnsupportedSourceVersion
       | header # rows \<Rightarrow>
           if header \<noteq> MONOLITH_HEADERS then Inl UnsupportedSourceVersion
           else if sl_max_rows limits < length rows then Inl RowLimitExceeded
           else bind_result (map_all (csv_record L limits) rows)
                  (finish_batch MonolithBookmarkMetadataCsv MonolithBookmarkMetadata (legacy_sha256 L bs))) = Inr b"
    unfolding preflight_monolith_csv_def by (force split: option.splits)
  then obtain rows rs where r: "read_source_bytes file 0 (sl_max_bytes limits) = Inr bs"
    "map_all (csv_record L limits) rows = Inr rs" "length rows \<le> sl_max_rows limits"
    "finish_batch MonolithBookmarkMetadataCsv MonolithBookmarkMetadata (legacy_sha256 L bs) rs = Inr b"
    by (cases all) (auto split: if_splits)
  with map_all_set [OF r(2)] csv_record_ok have "batch_ok L limits bs b" by (intro finish_batch_ok) auto
  with r(1) that show thesis by blast
qed

lemma jsonl_batch_ok:
  assumes "preflight_field_theory_jsonl L file limits = Inr b"
  obtains bs source rs where "read_source_bytes file 0 (sl_max_bytes limits) = Inr bs" "batch_ok L limits bs b" "from_utf8 bs = Some source"
    "list_all2 (\<lambda>line r. jsonl_record L limits line = Inr r) (filter (\<lambda>line. trim line \<noteq> []) (lines_of source)) rs" "set (pb_records b) \<subseteq> set rs"
proof -
  from assms obtain bs source rs where r: "read_source_bytes file 0 (sl_max_bytes limits) = Inr bs" "from_utf8 bs = Some source"
    "jsonl_records L limits [] (filter (\<lambda>line. trim line \<noteq> []) (lines_of source)) = Inr rs"
    "finish_batch FieldTheoryJsonl FieldTheoryJsonl1 (legacy_sha256 L bs) rs = Inr b"
    unfolding preflight_field_theory_jsonl_def by (auto split: option.splits)
  from jsonl_records_Inr [OF r(3)] have l: "length rs \<le> sl_max_rows limits"
    "list_all2 (\<lambda>line r. jsonl_record L limits line = Inr r) (filter (\<lambda>line. trim line \<noteq> []) (lines_of source)) rs" by auto
  have "\<exists>line. jsonl_record L limits line = Inr x" if "x \<in> set rs" for x
    using list_all2_partner(1) [OF l(2) that] by blast
  then have "batch_ok L limits bs b" using r(4) l(1) jsonl_record_ok by (intro finish_batch_ok) blast+
  with r l finish_batch_Inr [OF r(4)] that show thesis by blast
qed

lemma sqlite_batch_ok:
  assumes "preflight_field_theory_sqlite L file S limits = Inr b"
  obtains bs where "read_source_bytes file 0 (sl_max_bytes limits) = Inr bs" "batch_ok L limits bs b"
proof -
  from assms obtain bs rows rs where r: "read_source_bytes file 0 (sl_max_bytes limits) = Inr bs"
    "sqlite_rows S limits = Inr rows" "map_all (sqlite_record L limits) rows = Inr rs"
    "finish_batch FieldTheorySqlite FieldTheorySqlite6 (legacy_sha256 L bs) rs = Inr b"
    unfolding preflight_field_theory_sqlite_def by (auto split: if_splits)
  from r(2) have "length rows \<le> sl_max_rows limits" by (auto simp: sqlite_rows_def split: if_splits option.splits)
  with r map_all_set [OF r(3)] sqlite_record_ok have "batch_ok L limits bs b" by (intro finish_batch_ok) auto
  with r(1) that show thesis by blast
qed

text \<open>
  C31. An admitted batch is within the limits and is what the file holds. When a preflight of any of the three sources succeeds, the file
  showed the same bytes at two readings, not more than the byte limit, and the batch carries their digest; it has at most as many records as
  the row limit, strictly ordered by their source key, and each has a key, a text within the text limit, ordered lists without repetition and the digest of its own content.
\<close>

theorem preflight_within_limits:
  assumes "preflight_source L selection limits = Inr b"
  shows "\<exists>file bs. selected_file selection = Some file \<and> read_file file 1 = Some bs \<and> read_file file 2 = Some bs
    \<and> length bs \<le> sl_max_bytes limits \<and> batch_ok L limits bs b"
proof -
  obtain f bs where "selected_file selection = Some f" "read_source_bytes f 0 (sl_max_bytes limits) = Inr bs" "batch_ok L limits bs b"
  proof (cases "(L, selection, limits)" rule: preflight_source.cases)
    case (1 L' f limits') with assms that show thesis by (auto elim: csv_batch_ok)
  next
    case (2 L' jsonl sqlite limits') with assms that show thesis
      by (auto split: option.splits elim: jsonl_batch_ok sqlite_batch_ok)
  qed
  then show ?thesis using read_source_bytes_Inr [of f 0 _ bs] by (auto simp: numeral_2_eq_2)
qed

lemma secret_free_words:
  "secret_free v \<longleftrightarrow> (\<forall>kvs k word. inside (JObj kvs) v \<longrightarrow> k \<in> fst ` set kvs \<longrightarrow> word \<in> set FORBIDDEN_WORDS \<longrightarrow>
     \<not> sublist word (to_ascii_lowercase (filter is_alphanumeric k)))"
  unfolding secret_free_def forbidden_field_name_def contains_sublist list_ex_iff by blast

text \<open>
  C23. No credential enters through the cache. When a preflight of the JSON-lines cache succeeds, every line that is not blank is a
  document within the nesting limit in which no object, at any depth, has a field whose name contains, letters and digits alone and in any case,
  one of the forbidden words; its own fields are all of the pinned list; and every record of the batch was built from such a line.
\<close>

theorem cache_without_secrets:
  assumes "preflight_field_theory_jsonl L file limits = Inr b"
  shows "\<exists>source. read_file file 1 = Some (as_bytes source)
    \<and> (\<forall>line \<in> set (lines_of source). trim line \<noteq> [] \<longrightarrow> (\<exists>object. ll_parse_json L line = Some (JObj object)
        \<and> json_depth (JObj object) \<le> sl_max_json_depth limits \<and> fst ` set object \<subseteq> set FIELD_THEORY_JSONL_FIELDS
        \<and> (\<forall>kvs k word. inside (JObj kvs) (JObj object) \<longrightarrow> k \<in> fst ` set kvs \<longrightarrow> word \<in> set FORBIDDEN_WORDS \<longrightarrow>
             \<not> sublist word (to_ascii_lowercase (filter is_alphanumeric k)))))
    \<and> (\<forall>r \<in> set (pb_records b). \<exists>line \<in> set (lines_of source). trim line \<noteq> [] \<and> jsonl_record L limits line = Inr r)"
proof -
  from assms obtain bs source rs where j: "read_source_bytes file 0 (sl_max_bytes limits) = Inr bs" "from_utf8 bs = Some source"
    "list_all2 (\<lambda>line r. jsonl_record L limits line = Inr r) (filter (\<lambda>line. trim line \<noteq> []) (lines_of source)) rs"
    "set (pb_records b) \<subseteq> set rs" by (rule jsonl_batch_ok)
  from j(1,2) have "read_file file 1 = Some (as_bytes source)"
    using read_source_bytes_Inr [OF j(1)] by (simp add: from_utf8_Some)
  moreover have "\<exists>object. ll_parse_json L line = Some (JObj object) \<and> json_depth (JObj object) \<le> sl_max_json_depth limits
      \<and> fst ` set object \<subseteq> set FIELD_THEORY_JSONL_FIELDS \<and> secret_free (JObj object)"
    if line: "line \<in> set (lines_of source)" "trim line \<noteq> []" for line
  proof -
    have "line \<in> set (filter (\<lambda>line. trim line \<noteq> []) (lines_of source))" using line by simp
    from list_all2_partner(2) [OF j(3) this] obtain r where "jsonl_record L limits line = Inr r" by blast
    then obtain object where "jsonl_object L limits line = Inr object" by (auto simp: jsonl_record_def)
    then have o: "ll_parse_json L line = Some (JObj object)" "\<not> sl_max_json_depth limits < json_depth (JObj object)"
      "reject_forbidden_fields (JObj object) = Inr ()" "reject_unknown_fields object FIELD_THEORY_JSONL_FIELDS = Inr ()"
      by (auto simp: jsonl_object_def simp del: reject_forbidden_fields.simps json_depth.simps split: option.splits if_splits json.splits)
    from o(4) have "fst ` set object \<subseteq> set FIELD_THEORY_JSONL_FIELDS"
      by (auto simp: reject_unknown_fields_def check_all_Inr split: if_splits)
    with o [unfolded reject_forbidden_iff] show ?thesis by (auto simp: not_less)
  qed
  moreover have "\<exists>line \<in> set (lines_of source). trim line \<noteq> [] \<and> jsonl_record L limits line = Inr r" if "r \<in> set (pb_records b)" for r
  proof -
    from that j(4) have "r \<in> set rs" by blast
    from list_all2_partner(1) [OF j(3) this] show ?thesis by auto
  qed
  ultimately show ?thesis
    by (intro exI [of _ source] conjI ballI impI) (simp_all only: secret_free_words [symmetric])
qed

section \<open>A concrete preflight\<close>

definition demo_cached :: json_object where
  "demo_cached = [(''id'', JStr ''k1''), (''syncedAt'', JStr ''s''), (''text'', JStr ''hello''), (''tweetId'', JStr ''42''), (''url'', JStr ''u'')]"

definition demo_legacy :: legacy_library where
  "demo_legacy = \<lparr>ll_contracts = demo_contracts, ll_parse_json = (\<lambda>_. Some (JObj demo_cached)), ll_parse_time = (\<lambda>_. Some 7),
     ll_print_time = (\<lambda>_. ''s''), ll_parse_url = (\<lambda>_. None)\<rparr>"

definition demo_file :: source_file where
  "demo_file t = Some \<lparr>fv_is_file = True, fv_readable = True, fv_bytes = as_bytes ''x''\<rparr>"

definition demo_imported :: legacy_record where
  "demo_imported = \<lparr>lr_source_record_key = ''k1'', lr_provider_post_id = Some ''42'', lr_url_provider_post_id = None,
     lr_canonical_url_digest = None, lr_text = ''hello'', lr_posted_at = None, lr_bookmarked_at = None, lr_synced_at = 7,
     lr_categories = [], lr_folder_ids = [], lr_folder_names = [], lr_record_digest = []\<rparr>"

definition demo_preflighted :: preflight_batch where
  "demo_preflighted = \<lparr>pb_source_kind = FieldTheoryJsonl, pb_source_version = FieldTheoryJsonl1,
     pb_source_digest = legacy_sha256 demo_legacy (as_bytes ''x''), pb_row_count = 1, pb_records = [demo_imported]\<rparr>"

lemma demo_object: "jsonl_object demo_legacy default_limits line = Inr demo_cached"
proof -
  have "reject_forbidden_fields (JObj demo_cached) = Inr ()"
    by (simp add: demo_cached_def forbidden_field_name_def contains_def FORBIDDEN_WORDS_def is_alphanumeric_def is_digit_def is_upper_def
        is_lower_def to_ascii_lowercase_def lower_char_def starts_with_def and_then_def)
  moreover have "reject_unknown_fields demo_cached FIELD_THEORY_JSONL_FIELDS = Inr ()"
    by (simp add: demo_cached_def reject_unknown_fields_def FIELD_THEORY_JSONL_FIELDS_def)
  moreover have "validate_field_theory_record_shape demo_cached = Inr ()"
    by (simp add: demo_cached_def validate_field_theory_record_shape_def checked_def required_string_def optional_string_def bind_result_def
        validate_optional_string_value_def validate_optional_bool_value_def check_ingested_via_def optional_string_array_def
        validate_optional_object_def validate_media_objects_def)
  ultimately show ?thesis
    by (simp add: jsonl_object_def demo_legacy_def default_limits_def) (simp add: demo_cached_def)
qed

lemma demo_record: "jsonl_record demo_legacy default_limits line = Inr demo_imported"
  unfolding jsonl_record_def demo_object
  by (simp add: bind_result_def demo_cached_def required_string_def optional_string_def optional_string_array_def optional_timestamp_from_json_def
      required_timestamp_from_json_def parse_required_timestamp_def parse_optional_timestamp_def nonempty_def demo_legacy_def default_limits_def
      validate_text_def and_then_def parse_x_status_url_def build_record_def sort_unique_def demo_contracts_def legacy_sha256_def Let_def demo_imported_def)

lemma demo_preflight: "preflight_field_theory_jsonl demo_legacy demo_file default_limits = Inr demo_preflighted"
proof -
  have "read_source_bytes demo_file 0 (sl_max_bytes default_limits) = Inr (as_bytes ''x'')"
    by (simp add: read_source_bytes_def read_file_def demo_file_def default_limits_def)
  moreover have "from_utf8 (as_bytes ''x'') = Some ''x''"
    by (simp add: from_utf8_Some as_bytes_def utf8_valid.simps utf8_step_def)
  moreover have "filter (\<lambda>line. trim line \<noteq> []) (lines_of ''x'') = [''x'']"
    by (simp add: lines_of_def LF_def trim_def trim_start.simps [of "''x''"] space1_def)
  ultimately show ?thesis
    by (simp add: preflight_field_theory_jsonl_def bind_result_def demo_record finish_batch_def demo_preflighted_def)
      (simp add: default_limits_def demo_imported_def)
qed

theorem preflight_within_limits_witness: "pb_row_count demo_preflighted \<le> 100000 \<and> list_all (record_ok demo_legacy default_limits) (pb_records demo_preflighted)"
  using preflight_within_limits [of demo_legacy "FieldTheory (Some demo_file) None" default_limits demo_preflighted] demo_preflight
  by (auto simp: batch_ok_def list_all_iff default_limits_def)

theorem cache_without_secrets_witness: "\<exists>line. jsonl_record demo_legacy default_limits line = Inr demo_imported"
  using cache_without_secrets [OF demo_preflight] by (auto simp: demo_preflighted_def)

end
