(* ===== verification/Legacy_Shadow_Correct.thy ===== *)
theory Legacy_Shadow_Correct
  imports Legacy_Shadow Legacy_Preflight
begin

text \<open>
  What a shadow report says: its entries against the sets of posts the records resolve to and the snapshot holds.
\<close>

section \<open>What a comparison says\<close>

lemma map_of_btree_insert: "sorted_wrt (<) (map fst m) \<Longrightarrow> map_of (btree_insert k v m) = (map_of m)(k \<mapsto> v)"
  by (induction k v m rule: btree_insert.induct) (auto simp: fun_eq_iff)

lemma btree_of_snoc: "btree_of (rows @ [(k, v)]) = btree_insert k v (btree_of rows)"
  by (simp add: btree_of_def)

lemma btree_of_law:
  "sorted_wrt (<) (map fst (btree_of rows)) \<and> fst ` set (btree_of rows) = fst ` set rows \<and> map_of (btree_of rows) = map_of (rev rows)"
proof (induction rows rule: rev_induct)
  case (snoc r rows)
  then show ?case by (cases r) (simp add: btree_of_snoc btree_insert_sorted btree_insert_keys map_of_btree_insert)
qed (simp add: btree_of_def)

lemmas btree_of_laws = btree_of_law [THEN conjunct1] btree_of_law [THEN conjunct2, THEN conjunct1] btree_of_law [THEN conjunct2, THEN conjunct2]

text \<open>The post a row stands for, when its identity was resolved.\<close>

definition resolved_post :: "shadow_legacy_row \<Rightarrow> string option" where
  "resolved_post row = (if sl_resolution row = ''provider_post'' \<or> sl_resolution row = ''canonical_url'' then sl_provider_post_id row else None)"

definition row_class :: "(string \<Rightarrow> string option) \<Rightarrow> shadow_legacy_row \<Rightarrow> shadow_diff_class" where
  "row_class official row =
     (case resolved_post row of
        None \<Rightarrow> if sl_resolution row = ''unmapped'' then SUnmapped else SIdentityConflict
      | Some i \<Rightarrow> if official i = None then SLegacyOnly else if sl_resolution row = ''canonical_url'' then SUrlMatched else SMatched)"

definition row_entry :: "legacy_library \<Rightarrow> (string \<Rightarrow> string option) \<Rightarrow> shadow_legacy_row \<Rightarrow> shadow_diff" where
  "row_entry L official row =
     diff_of row (row_class official row) (if sl_resolution row = ''unmapped'' then None else sl_provider_post_id row)
       (case Option.bind (resolved_post row) official of None \<Rightarrow> False | Some s \<Rightarrow> content_differs L row s)"

lemma classify_row_Inr:
  "classify_row L official row = Inr (entry, used) \<Longrightarrow>
     entry = row_entry L (map_of official) row \<and> used = (case resolved_post row of None \<Rightarrow> None | Some i \<Rightarrow> map_option (\<lambda>_. i) (map_of official i))"
  by (auto simp: classify_row_def row_entry_def row_class_def resolved_post_def diff_of_def split: if_splits option.splits)

lemma classify_loop_Inr:
  "classify_loop L official rows matched entries = Inr (matched', entries') \<Longrightarrow>
     entries' = entries @ map (row_entry L (map_of official)) rows
     \<and> matched' = matched \<union> {i. \<exists>row \<in> set rows. resolved_post row = Some i \<and> map_of official i \<noteq> None}"
proof (induction rows arbitrary: matched entries)
  case (Cons row rows)
  from Cons.prems obtain entry used where row: "classify_row L official row = Inr (entry, used)"
    and rest: "classify_loop L official rows (matched \<union> set_option used) (entries @ [entry]) = Inr (matched', entries')"
    by (auto split: sum.splits)
  from classify_row_Inr [OF row] Cons.IH [OF rest] show ?case
    by (auto split: option.splits)
qed simp

lemma classify_entries_Inr:
  assumes "classify_shadow_entries L rows official = Inr entries"
  shows "sorted (map diff_key entries)"
    and "mset entries = image_mset (row_entry L (map_of (rev official))) (mset rows)
      + image_mset official_only (mset_set {i \<in> fst ` set official. \<forall>row \<in> set rows. resolved_post row \<noteq> Some i})"
proof -
  let ?b = "btree_of official"
  from assms obtain matched found where loop: "classify_loop L ?b rows {} [] = Inr (matched, found)"
    and e: "entries = sort_key diff_key (found @ map official_only (filter (\<lambda>i. i \<notin> matched) (map fst ?b)))"
    by (auto simp: classify_shadow_entries_def Let_def)
  note f = classify_loop_Inr [OF loop]
  show "sorted (map diff_key entries)" by (simp add: e)
  have d: "distinct (map fst ?b)" using btree_of_laws(1) [of official] strict_sorted_iff by blast
  have "i \<notin> matched \<longleftrightarrow> (\<forall>row \<in> set rows. resolved_post row \<noteq> Some i)" if "i \<in> fst ` set official" for i
  proof -
    from that have "map_of ?b i \<noteq> None" using btree_of_laws(2) [of official] by (simp add: map_of_eq_None_iff)
    with f show ?thesis by auto
  qed
  then have "set (filter (\<lambda>i. i \<notin> matched) (map fst ?b)) = {i \<in> fst ` set official. \<forall>row \<in> set rows. resolved_post row \<noteq> Some i}"
    using btree_of_laws(2) [of official] by auto
  with d have "mset (filter (\<lambda>i. i \<notin> matched) (map fst ?b)) = mset_set {i \<in> fst ` set official. \<forall>row \<in> set rows. resolved_post row \<noteq> Some i}"
    by (metis distinct_filter mset_set_set)
  moreover have "mset entries = mset found + image_mset official_only (mset (filter (\<lambda>i. i \<notin> matched) (map fst ?b)))"
    by (simp add: e del: mset_filter)
  ultimately show "mset entries = image_mset (row_entry L (map_of (rev official))) (mset rows)
      + image_mset official_only (mset_set {i \<in> fst ` set official. \<forall>row \<in> set rows. resolved_post row \<noteq> Some i})"
    using f btree_of_laws(3) [of official] by simp
qed

lemma shadow_count_exact: "shadow_count entries c = min (length (filter (\<lambda>e. sd_class e = c) entries)) u64_max"
proof -
  have "foldl (\<lambda>n _. min (n + 1) u64_max) k xs = min (k + length xs) u64_max" if "k \<le> u64_max" for k and xs :: "shadow_diff list"
    using that by (induction xs arbitrary: k) (auto simp: min_def)
  from this [of 0] show ?thesis by (simp add: shadow_count_def)
qed


definition resolved_posts :: "shadow_legacy_row list \<Rightarrow> string set" where
  "resolved_posts rows = {i. \<exists>row \<in> set rows. resolved_post row = Some i}"

definition posts_of_class :: "shadow_diff list \<Rightarrow> shadow_diff_class set \<Rightarrow> string set" where
  "posts_of_class entries cs = {i. \<exists>e \<in> set entries. sd_class e \<in> cs \<and> sd_provider_post_id e = Some i}"

lemma set_entries:
  assumes "classify_shadow_entries L rows official = Inr entries"
  shows "set entries = row_entry L (map_of (rev official)) ` set rows \<union> official_only ` (fst ` set official - resolved_posts rows)"
proof -
  have "{i \<in> fst ` set official. \<forall>row \<in> set rows. resolved_post row \<noteq> Some i} = fst ` set official - resolved_posts rows"
    by (auto simp: resolved_posts_def)
  then have "set_mset (mset entries) = row_entry L (map_of (rev official)) ` set rows \<union> official_only ` (fst ` set official - resolved_posts rows)"
    by (simp add: classify_entries_Inr(2) [OF assms])
  then show ?thesis by simp
qed

lemma row_entry_simps [simp]:
  "sd_class (row_entry L o' row) = row_class o' row" "sd_legacy_record_digest (row_entry L o' row) = Some (sl_row_digest row)"
  "sd_class (official_only i) = SOfficialOnly" "sd_legacy_record_digest (official_only i) = None" "sd_provider_post_id (official_only i) = Some i"
  "\<not> sd_content_changed (official_only i)"
  by (simp_all add: row_entry_def diff_of_def official_only_def)

lemma row_entry_post: "resolved_post row = Some i \<Longrightarrow> sd_provider_post_id (row_entry L o' row) = Some i"
  by (auto simp: row_entry_def diff_of_def resolved_post_def split: if_splits)

lemma row_class_iff:
  "row_class o' row = SLegacyOnly \<longleftrightarrow> (\<exists>i. resolved_post row = Some i \<and> o' i = None)"
  "row_class o' row \<in> {SMatched, SUrlMatched} \<longleftrightarrow> (\<exists>i. resolved_post row = Some i \<and> o' i \<noteq> None)"
  "row_class o' row \<noteq> SOfficialOnly"
  by (auto simp: row_class_def split: option.splits)

lemma posts_by_class:
  assumes "classify_shadow_entries L rows official = Inr entries"
  shows "posts_of_class entries {SMatched, SUrlMatched} = resolved_posts rows \<inter> fst ` set official"
    and "posts_of_class entries {SLegacyOnly} = resolved_posts rows - fst ` set official"
    and "posts_of_class entries {SOfficialOnly} = fst ` set official - resolved_posts rows"
proof -
  have o: "map_of (rev official) i = None \<longleftrightarrow> i \<notin> fst ` set official" for i by (simp add: map_of_eq_None_iff)
  note s = set_entries [OF assms]
  have k: "posts_of_class entries cs = {i \<in> resolved_posts rows. P i}"
    if c: "\<And>row. row_class (map_of (rev official)) row \<in> cs \<longleftrightarrow> (\<exists>i. resolved_post row = Some i \<and> P i)" and n: "SOfficialOnly \<notin> cs" for cs P
  proof (intro set_eqI iffI)
    fix i assume "i \<in> posts_of_class entries cs"
    then obtain row where row: "row \<in> set rows" "row_class (map_of (rev official)) row \<in> cs"
      "sd_provider_post_id (row_entry L (map_of (rev official)) row) = Some i"
      using n unfolding posts_of_class_def s by auto
    from row(2) obtain j where j: "resolved_post row = Some j" "P j" unfolding c by blast
    with row_entry_post [OF j(1)] row show "i \<in> {i \<in> resolved_posts rows. P i}" by (auto simp: resolved_posts_def)
  next
    fix i assume "i \<in> {i \<in> resolved_posts rows. P i}"
    then obtain row where row: "row \<in> set rows" "resolved_post row = Some i" "P i" by (auto simp: resolved_posts_def)
    then have "row_class (map_of (rev official)) row \<in> cs" unfolding c by blast
    with row row_entry_post [OF row(2)] show "i \<in> posts_of_class entries cs"
      unfolding posts_of_class_def s by (intro CollectI bexI [of _ "row_entry L (map_of (rev official)) row"]) auto
  qed
  from k [OF row_class_iff(2)] show "posts_of_class entries {SMatched, SUrlMatched} = resolved_posts rows \<inter> fst ` set official"
    by (auto simp: o)
  from k [of "{SLegacyOnly}", unfolded singleton_iff, OF row_class_iff(1)] show "posts_of_class entries {SLegacyOnly} = resolved_posts rows - fst ` set official"
    by (auto simp: o)
  show "posts_of_class entries {SOfficialOnly} = fst ` set official - resolved_posts rows"
    unfolding posts_of_class_def s by (auto simp: row_class_iff(3) bex_Un image_iff)
qed


lemma entries_account_for_rows:
  assumes "classify_shadow_entries L rows official = Inr entries"
  shows "mset (filter (\<lambda>g. g \<noteq> None) (map sd_legacy_record_digest entries)) = mset (map (Some \<circ> sl_row_digest) rows)"
proof -
  have "filter_mset (\<lambda>g. g \<noteq> None) (image_mset sd_legacy_record_digest (mset entries)) = image_mset (Some \<circ> sl_row_digest) (mset rows)"
    unfolding classify_entries_Inr(2) [OF assms] by (simp add: multiset.map_comp comp_def filter_mset_image_mset)
  then show ?thesis by simp
qed

lemma length_entries:
  assumes "classify_shadow_entries L rows official = Inr entries"
  shows "length entries = length rows + card (fst ` set official - resolved_posts rows)"
proof -
  have "{i \<in> fst ` set official. \<forall>row \<in> set rows. resolved_post row \<noteq> Some i} = fst ` set official - resolved_posts rows"
    by (auto simp: resolved_posts_def)
  then have "size (mset entries) = length rows + card (fst ` set official - resolved_posts rows)"
    by (simp add: classify_entries_Inr(2) [OF assms])
  then show ?thesis by simp
qed

lemma row_entry_changed:
  "sd_content_changed (row_entry L o' row) \<longleftrightarrow> (\<exists>i s. resolved_post row = Some i \<and> o' i = Some s \<and> content_differs L row s)"
  by (auto simp: row_entry_def diff_of_def split: option.splits bind_splits)

lemma changed_posts:
  assumes "classify_shadow_entries L rows official = Inr entries"
  shows "(\<exists>e \<in> set entries. sd_content_changed e \<and> sd_provider_post_id e = Some i)
    \<longleftrightarrow> (\<exists>row \<in> set rows. \<exists>s. resolved_post row = Some i \<and> map_of (rev official) i = Some s \<and> content_differs L row s)"
    (is "?l \<longleftrightarrow> ?r")
proof
  assume ?l
  then obtain row where row: "row \<in> set rows" "sd_content_changed (row_entry L (map_of (rev official)) row)"
    "sd_provider_post_id (row_entry L (map_of (rev official)) row) = Some i"
    unfolding set_entries [OF assms] by auto
  from row(2) obtain j s where "resolved_post row = Some j" "map_of (rev official) j = Some s" "content_differs L row s" unfolding row_entry_changed by blast
  with row(1,3) row_entry_post show ?r by (metis option.inject)
next
  assume ?r
  then obtain row s where row: "row \<in> set rows" "resolved_post row = Some i" "map_of (rev official) i = Some s" "content_differs L row s" by blast
  then have "sd_content_changed (row_entry L (map_of (rev official)) row)" unfolding row_entry_changed by blast
  with row row_entry_post [OF row(2)] show ?l
    unfolding set_entries [OF assms] by (intro bexI [of _ "row_entry L (map_of (rev official)) row"]) auto
qed

definition in_snapshot :: "(string \<times> string) list \<Rightarrow> shadow_legacy_row \<Rightarrow> bool" where
  "in_snapshot official row \<longleftrightarrow> (case sl_provider_post_id row of None \<Rightarrow> False | Some i \<Rightarrow> i \<in> fst ` set official)"

text \<open>The record and the post of every entry of a class, and those of the rows that meet a condition.\<close>

definition reported_as :: "shadow_diff list \<Rightarrow> shadow_diff_class \<Rightarrow> (string option \<times> string option) multiset" where
  "reported_as entries c = mset (map (\<lambda>e. (sd_legacy_record_digest e, sd_provider_post_id e)) (filter (\<lambda>e. sd_class e = c) entries))"

definition identified :: "(shadow_legacy_row \<Rightarrow> bool) \<Rightarrow> shadow_legacy_row list \<Rightarrow> (string option \<times> string option) multiset" where
  "identified P rows = mset (map (\<lambda>row. (Some (sl_row_digest row), sl_provider_post_id row)) (filter P rows))"

definition resolution_known :: "shadow_legacy_row \<Rightarrow> bool" where
  "resolution_known row \<longleftrightarrow> sl_resolution row \<in> {''identity_conflict'', ''unmapped''}
     \<or> sl_resolution row \<in> {''provider_post'', ''canonical_url''} \<and> sl_provider_post_id row \<noteq> None"

lemma classified_known:
  "classify_loop L official rows matched entries = Inr x \<Longrightarrow> row \<in> set rows \<Longrightarrow> resolution_known row"
proof (induction rows arbitrary: matched entries)
  case (Cons r rows)
  then show ?case by (auto simp: classify_row_def resolution_known_def split: sum.splits if_splits option.splits)
qed simp

lemma entries_known: "classify_shadow_entries L rows official = Inr entries \<Longrightarrow> row \<in> set rows \<Longrightarrow> resolution_known row"
  by (auto simp: classify_shadow_entries_def Let_def dest: classified_known)

lemma class_of_known:
  fixes official :: "(string \<times> string) list"
  assumes "resolution_known row"
  defines "c \<equiv> row_class (map_of (rev official)) row"
  shows "c = SIdentityConflict \<longleftrightarrow> sl_resolution row = ''identity_conflict''"
    and "c = SUnmapped \<longleftrightarrow> sl_resolution row = ''unmapped''"
    and "c = SMatched \<longleftrightarrow> sl_resolution row = ''provider_post'' \<and> in_snapshot official row"
    and "c = SUrlMatched \<longleftrightarrow> sl_resolution row = ''canonical_url'' \<and> in_snapshot official row"
    and "c = SLegacyOnly \<longleftrightarrow> sl_resolution row \<in> {''provider_post'', ''canonical_url''} \<and> \<not> in_snapshot official row"
  using assms(1) unfolding c_def
  by (auto simp: resolution_known_def row_class_def resolved_post_def in_snapshot_def map_of_eq_None_iff split: option.splits)

lemma reported_rows:
  assumes "classify_shadow_entries L rows official = Inr entries" and "c \<noteq> SOfficialOnly"
    and "\<And>row. row \<in> set rows \<Longrightarrow> row_class (map_of (rev official)) row = c \<longleftrightarrow> P row"
  shows "reported_as entries c = image_mset (\<lambda>row. (Some (sl_row_digest row), if c = SUnmapped then None else sl_provider_post_id row)) (mset (filter P rows))"
    and "length (filter (\<lambda>e. sd_class e = c) entries) = length (filter P rows)"
proof -
  let ?e = "row_entry L (map_of (rev official))"
  have P: "filter_mset (\<lambda>row. row_class (map_of (rev official)) row = c) (mset rows) = mset (filter P rows)"
    using arg_cong [where f = mset, OF filter_cong [OF refl assms(3)]] by simp
  have "filter_mset (\<lambda>e. sd_class e = c) (mset entries) = image_mset ?e (mset (filter P rows))"
    using assms(2) unfolding classify_entries_Inr(2) [OF assms(1)] P [symmetric] by (simp add: filter_mset_image_mset)
  then have m: "mset (filter (\<lambda>e. sd_class e = c) entries) = image_mset ?e (mset (filter P rows))" by simp
  then show "length (filter (\<lambda>e. sd_class e = c) entries) = length (filter P rows)"
    by (metis size_image_mset size_mset)
  have "sd_provider_post_id (?e row) = (if c = SUnmapped then None else sl_provider_post_id row)" if "row \<in> set rows" "P row" for row
    using assms(3) [OF that(1)] that(2) by (auto simp: row_entry_def diff_of_def row_class_def resolved_post_def split: option.splits if_splits)
  with m show "reported_as entries c = image_mset (\<lambda>row. (Some (sl_row_digest row), if c = SUnmapped then None else sl_provider_post_id row)) (mset (filter P rows))"
    by (auto simp: reported_as_def multiset.map_comp comp_def intro!: image_mset_cong simp del: mset_filter)
qed

lemma official_only_count:
  assumes "classify_shadow_entries L rows official = Inr entries"
  shows "length (filter (\<lambda>e. sd_class e = SOfficialOnly) entries) = card (fst ` set official - resolved_posts rows)"
proof -
  have s: "{i \<in> fst ` set official. \<forall>row \<in> set rows. resolved_post row \<noteq> Some i} = fst ` set official - resolved_posts rows"
    by (auto simp: resolved_posts_def)
  have "size (filter_mset (\<lambda>e. sd_class e = SOfficialOnly) (mset entries)) = card (fst ` set official - resolved_posts rows)"
    unfolding classify_entries_Inr(2) [OF assms] s by (simp add: filter_mset_image_mset row_class_iff(3))
  then show ?thesis by (metis mset_filter size_mset)
qed

lemma shadow_counts:
  assumes "classify_shadow_entries L rows official = Inr entries" and "length rows + length official \<le> u64_max"
  shows "shadow_count entries c = length (filter (\<lambda>e. sd_class e = c) entries)"
proof -
  have "card (fst ` set official - resolved_posts rows) \<le> length official"
    by (meson Diff_subset card_image_le card_length card_mono finite_imageI finite_set order_trans)
  with assms(2) have "length entries \<le> u64_max" by (simp add: length_entries [OF assms(1)])
  then have "length (filter (\<lambda>e. sd_class e = c) entries) \<le> u64_max" using length_filter_le order_trans by blast
  then show ?thesis by (simp add: shadow_count_exact)
qed

text \<open>
  C21. A shadow report says of every record and of every official post exactly what holds, as long as the records and posts together can be counted in 64 bits. Its entries are sorted, and every
  compared legacy record has exactly one entry. The records reported as matched are those whose own post identity is in the snapshot, as matched by URL those whose
  identity came from the URL and is in it, as legacy-only those with an identity that is not in it, as conflicts and as unmapped those that were stored so; each is
  reported with its post, an unmapped one with none. The posts reported as matched are those that a record resolves to and the snapshot holds, the legacy-only and
  official-only posts are the two differences. A post is flagged as changed exactly when the digest of an imported record for it is not the digest of its official text,
  and each of the six counters of the summary is the number of entries of its class.
\<close>

theorem shadow_report_exact:
  assumes "build_shadow_report L a run s rows official = Inr report" and "length rows + length official \<le> u64_max"
  shows "sorted (map diff_key (sr_entries report))
    \<and> mset (filter (\<lambda>g. g \<noteq> None) (map sd_legacy_record_digest (sr_entries report))) = mset (map (Some \<circ> sl_row_digest) rows)
    \<and> posts_of_class (sr_entries report) {SMatched, SUrlMatched} = resolved_posts rows \<inter> fst ` set official
    \<and> posts_of_class (sr_entries report) {SLegacyOnly} = resolved_posts rows - fst ` set official
    \<and> posts_of_class (sr_entries report) {SOfficialOnly} = fst ` set official - resolved_posts rows
    \<and> reported_as (sr_entries report) SMatched = identified (\<lambda>row. sl_resolution row = ''provider_post'' \<and> in_snapshot official row) rows
    \<and> reported_as (sr_entries report) SUrlMatched = identified (\<lambda>row. sl_resolution row = ''canonical_url'' \<and> in_snapshot official row) rows
    \<and> reported_as (sr_entries report) SLegacyOnly
        = identified (\<lambda>row. sl_resolution row \<in> {''provider_post'', ''canonical_url''} \<and> \<not> in_snapshot official row) rows
    \<and> reported_as (sr_entries report) SIdentityConflict = identified (\<lambda>row. sl_resolution row = ''identity_conflict'') rows
    \<and> reported_as (sr_entries report) SUnmapped = image_mset (\<lambda>(g, _). (g, None)) (identified (\<lambda>row. sl_resolution row = ''unmapped'') rows)
    \<and> {i. \<exists>e \<in> set (sr_entries report). sd_content_changed e \<and> sd_provider_post_id e = Some i}
      = {i. \<exists>row \<in> set rows. \<exists>s. resolved_post row = Some i \<and> map_of (rev official) i = Some s \<and> content_differs L row s}
    \<and> sr_summary report =
       \<lparr>ssum_matched = length (filter (\<lambda>row. sl_resolution row = ''provider_post'' \<and> in_snapshot official row) rows),
        ssum_url_matched = length (filter (\<lambda>row. sl_resolution row = ''canonical_url'' \<and> in_snapshot official row) rows),
        ssum_legacy_only = length (filter (\<lambda>row. sl_resolution row \<in> {''provider_post'', ''canonical_url''} \<and> \<not> in_snapshot official row) rows),
        ssum_official_only = card (fst ` set official - resolved_posts rows),
        ssum_identity_conflicts = length (filter (\<lambda>row. sl_resolution row = ''identity_conflict'') rows),
        ssum_unmapped = length (filter (\<lambda>row. sl_resolution row = ''unmapped'') rows)\<rparr>"
proof -
  from assms(1) obtain entries where e: "classify_shadow_entries L rows official = Inr entries"
    and r: "sr_entries report = entries" "sr_summary report = shadow_summary_of entries"
    by (auto simp: build_shadow_report_def)
  note known = class_of_known [OF entries_known [OF e]]
  note told = reported_rows(1) [OF e _ known(1)] reported_rows(1) [OF e _ known(2)] reported_rows(1) [OF e _ known(3)]
    reported_rows(1) [OF e _ known(4)] reported_rows(1) [OF e _ known(5)]
  note number = reported_rows(2) [OF e _ known(1)] reported_rows(2) [OF e _ known(2)] reported_rows(2) [OF e _ known(3)]
    reported_rows(2) [OF e _ known(4)] reported_rows(2) [OF e _ known(5)]
  show ?thesis
    unfolding r changed_posts [OF e] shadow_summary_of_def shadow_counts [OF e assms(2)]
    using classify_entries_Inr(1) [OF e] entries_account_for_rows [OF e] posts_by_class [OF e] told number official_only_count [OF e]
    by (simp add: identified_def multiset.map_comp comp_def)
qed

definition demo_snapshot_posts :: "(string \<times> string) list" where
  "demo_snapshot_posts = [(''42'', ''hello''), (''77'', ''other'')]"

definition demo_compared :: "shadow_legacy_row list" where
  "demo_compared = [\<lparr>sl_row_digest = ''d1'', sl_provider_post_id = Some ''42'', sl_content_digest = Some ''stale'', sl_category_metadata = JArr [],
     sl_folder_metadata = JNull, sl_resolution = ''canonical_url''\<rparr>,
   \<lparr>sl_row_digest = ''d2'', sl_provider_post_id = Some ''9'', sl_content_digest = None, sl_category_metadata = JArr [JStr ''c''],
     sl_folder_metadata = JNull, sl_resolution = ''provider_post''\<rparr>,
   \<lparr>sl_row_digest = ''d3'', sl_provider_post_id = None, sl_content_digest = None, sl_category_metadata = JArr [],
     sl_folder_metadata = JNull, sl_resolution = ''unmapped''\<rparr>]"

definition demo_comparison :: "legacy_error + shadow_report" where
  "demo_comparison = build_shadow_report demo_legacy 1 2 3 demo_compared demo_snapshot_posts"

lemma demo_comparison_ok: "\<exists>report. demo_comparison = Inr report"
  by (simp add: demo_comparison_def build_shadow_report_def classify_shadow_entries_def demo_compared_def demo_snapshot_posts_def btree_of_def
    classify_row_def)

theorem shadow_report_exact_witness:
  "\<exists>report. demo_comparison = Inr report
     \<and> sr_summary report = \<lparr>ssum_matched = 0, ssum_url_matched = 1, ssum_legacy_only = 1, ssum_official_only = 1,
         ssum_identity_conflicts = 0, ssum_unmapped = 1\<rparr>
     \<and> reported_as (sr_entries report) SUrlMatched = {#(Some ''d1'', Some ''42'')#}
     \<and> reported_as (sr_entries report) SUnmapped = {#(Some ''d3'', None)#}
     \<and> posts_of_class (sr_entries report) {SMatched, SUrlMatched} = {''42''} \<and> posts_of_class (sr_entries report) {SLegacyOnly} = {''9''}
     \<and> posts_of_class (sr_entries report) {SOfficialOnly} = {''77''}"
proof -
  from demo_comparison_ok obtain report where r: "demo_comparison = Inr report" by blast
  have p: "resolved_posts demo_compared = {''42'', ''9''}" "fst ` set demo_snapshot_posts = {''42'', ''77''}"
    by (auto simp: resolved_posts_def demo_compared_def demo_snapshot_posts_def resolved_post_def)
  have "length demo_compared + length demo_snapshot_posts \<le> u64_max" by (simp add: demo_compared_def demo_snapshot_posts_def u64_max_def)
  from shadow_report_exact [OF r [unfolded demo_comparison_def] this] r show ?thesis
    unfolding p in_snapshot_def identified_def
    by (intro exI [of _ report]) (simp add: insert_Diff_if, simp add: demo_compared_def)
qed

end
