(* ===== verification/Legacy_Import_Correct.thy ===== *)
theory Legacy_Import_Correct
  imports Legacy_Preflight Legacy_Import Writeback_Correct Persist Budget
begin

text \<open>
  What an import changes and what it does not: only posts it created itself, its run and its items; one item per record, with the counts of the run; a second import of the same source is
  the first one; and the post an import overwrites although X has confirmed it. The last section runs imports on concrete archives.
\<close>

section \<open>What an import leaves alone\<close>

definition post_kept :: "post_row \<Rightarrow> post_row \<Rightarrow> bool" where
  "post_kept p p' \<longleftrightarrow> p' = p \<or> pst_normalization_provenance p = LegacyImport \<and> pst_normalization_provenance p' = LegacyImport
     \<and> pst_id p' = pst_id p \<and> pst_provider_id p' = pst_provider_id p"

definition imported_rows :: "post_row list \<Rightarrow> post_row list \<Rightarrow> bool" where
  "imported_rows ps ps' \<longleftrightarrow> (\<exists>old new. ps' = old @ new \<and> list_all2 post_kept ps old
     \<and> list_all (\<lambda>p. pst_normalization_provenance p = LegacyImport) new)"

definition import_frame :: "archive \<Rightarrow> archive \<Rightarrow> bool" where
  "import_frame d d' \<longleftrightarrow> d'\<lparr>posts := [], legacy_import_runs := [], legacy_import_items := []\<rparr>
       = d\<lparr>posts := [], legacy_import_runs := [], legacy_import_items := []\<rparr>
     \<and> imported_rows (posts d) (posts d')"

lemma imported_rows_refl: "imported_rows ps ps"
  unfolding imported_rows_def by (rule exI [of _ ps], rule exI [of _ "[]"]) (simp add: post_kept_def list_all2_refl)

lemma imported_rows_trans:
  assumes "imported_rows ps ps'" and "imported_rows ps' ps''"
  shows "imported_rows ps ps''"
proof -
  from assms obtain old new old' new' where
    o: "ps' = old @ new" "list_all2 post_kept ps old" "list_all (\<lambda>p. pst_normalization_provenance p = LegacyImport) new"
      "ps'' = old' @ new'" "list_all2 post_kept (old @ new) old'" "list_all (\<lambda>p. pst_normalization_provenance p = LegacyImport) new'"
    unfolding imported_rows_def by blast
  from o(5) obtain a b where s: "old' = a @ b" "list_all2 post_kept old a" "list_all2 post_kept new b"
    by (auto simp: list_all2_append1)
  have "list_all2 post_kept ps a"
    by (rule list_all2_trans [OF _ o(2) s(2)]) (auto simp: post_kept_def)
  moreover have "pst_normalization_provenance y = LegacyImport" if "y \<in> set b" for y
    using list_all2_partner(1) [OF s(3) that] o(3) by (auto simp: post_kept_def list_all_iff)
  ultimately show ?thesis
    unfolding imported_rows_def using o(4,6) s(1) by (intro exI [of _ a] exI [of _ "b @ new'"]) (auto simp: list_all_iff)
qed

interpretation importing: frame import_frame
  by unfold_locales (auto simp: import_frame_def imported_rows_refl intro: imported_rows_trans)

lemma imported_rows_snoc: "pst_normalization_provenance p = LegacyImport \<Longrightarrow> imported_rows ps (ps @ [p])"
  unfolding imported_rows_def by (intro exI [of _ ps] exI [of _ "[p]"]) (simp add: post_kept_def list_all2_refl)

lemma imported_rows_refresh:
  "imported_rows ps (update_where (\<lambda>p. pst_id p = i \<and> pst_normalization_provenance p = LegacyImport) (refreshed_post r) ps)"
proof -
  have "list_all2 post_kept ps (update_where (\<lambda>p. pst_id p = i \<and> pst_normalization_provenance p = LegacyImport) (refreshed_post r) ps)"
    by (auto simp: update_where_def list_all2_map2 post_kept_def refreshed_post_def intro!: list_all2_refl)
  then show ?thesis unfolding imported_rows_def by (intro exI [of _ "update_where _ _ _"] exI [of _ "[]"]) simp
qed

lemma import_statements_frame:
  "within import_frame (insert_imported_post i r)" "within import_frame (refresh_imported_post j r)" "within import_frame (insert_item x)"
  "within import_frame (insert_import_run approval kind version digest)" "within import_frame (complete_import run counts)"
proof -
  show "within import_frame (insert_imported_post i r)"
    unfolding insert_imported_post_def
    by (rule importing.within_sql) (auto simp: import_frame_def insert_unique_Some imported_post_def intro: imported_rows_snoc split: if_splits)
  show "within import_frame (refresh_imported_post j r)"
    unfolding refresh_imported_post_def by (rule importing.within_exec) (simp add: import_frame_def imported_rows_refresh)
  show "within import_frame (insert_item x)" "within import_frame (insert_import_run approval kind version digest)"
    unfolding insert_item_def insert_import_run_def
    by (rule importing.within_sql; auto simp: import_frame_def imported_rows_refl split: if_splits)+
  show "within import_frame (complete_import run counts)"
    unfolding complete_import_def
    by (intro importing.within_intros importing.within_sql) (auto simp: import_frame_def imported_rows_refl)
qed

lemma import_record_frame: "within import_frame (import_record L run r counts)"
  unfolding import_record_def import_post_def upsert_imported_post_def
  by (intro importing.within_intros import_statements_frame)

lemma import_in_transaction_frame: "within import_frame (import_in_transaction L batch approval verified)"
  unfolding import_in_transaction_def validate_locked_import_account_def persist_import_records_def
  by (intro importing.within_intros import_statements_frame import_record_frame)

text \<open>The contract an import needs of whoever names the connected user: asking does not change the archive.\<close>

locale identity_source =
  fixes identity :: current_identity
  assumes reads_only: "within (=) (identity a)"
begin

lemma identity_db: "identity a w = (x, w') \<Longrightarrow> db w' = db w"
  using withinD [OF reads_only] by metis

lemma import_batch_frame: "within import_frame (import_batch L identity batch approval)"
proof -
  have "within import_frame (identity a)" for a
    using reads_only [of a] by (simp add: within_def importing.frame_refl)
  then show ?thesis
    unfolding import_batch_def persist_import_def
    by (intro importing.within_intros import_in_transaction_frame)
qed

end

interpretation official_identity: identity_source "current_provider_user_id I" for I
proof
  fix a
  have "within (=) (send_request H q :: (http_failure, http_response) dbio)" for H q by (simp add: within_def send_request_def)
  then have ask: "within (=) (ask_identity I p)" for p
    unfolding ask_identity_def by (intro reading.within_intros)
  show "within (=) (current_provider_user_id I a)"
    unfolding current_provider_user_id_def by (intro reading.within_intros ask)
qed

section \<open>Every record is accounted for\<close>

definition counted :: "import_counts \<Rightarrow> nat" where
  "counted c = sum_list (count_values c)"

text \<open>The item of a record names the post it was mapped to, if it has an identity.\<close>

definition item_for :: "legacy_library \<Rightarrow> uuid \<Rightarrow> post_row list \<Rightarrow> legacy_record \<Rightarrow> legacy_import_item \<Rightarrow> bool" where
  "item_for L run ps r x \<longleftrightarrow> (\<exists>resolution resolved conflicting post. resolve_record_identity r = (resolution, resolved, conflicting)
     \<and> x = import_item L run r resolution resolved conflicting post
     \<and> (case resolved of None \<Rightarrow> post = None | Some i \<Rightarrow> \<exists>p \<in> set ps. post = Some (pst_id p) \<and> pst_provider_id p = i))"

lemma imported_rows_same_post:
  assumes "imported_rows ps ps'" and "p \<in> set ps"
  shows "\<exists>p' \<in> set ps'. pst_id p' = pst_id p \<and> pst_provider_id p' = pst_provider_id p"
proof -
  from assms(1) obtain old new where o: "ps' = old @ new" "list_all2 post_kept ps old" unfolding imported_rows_def by blast
  from list_all2_partner(2) [OF o(2) assms(2)] o(1) show ?thesis by (auto simp: post_kept_def)
qed

lemma item_for_mono:
  assumes "item_for L run ps r x" and "imported_rows ps ps'"
  shows "item_for L run ps' r x"
proof -
  from assms(1) obtain resolution resolved conflicting post where i: "resolve_record_identity r = (resolution, resolved, conflicting)"
    "x = import_item L run r resolution resolved conflicting post"
    "case resolved of None \<Rightarrow> post = None | Some i \<Rightarrow> \<exists>p \<in> set ps. post = Some (pst_id p) \<and> pst_provider_id p = i"
    unfolding item_for_def by blast
  have "case resolved of None \<Rightarrow> post = None | Some i \<Rightarrow> \<exists>p \<in> set ps'. post = Some (pst_id p) \<and> pst_provider_id p = i"
  proof (cases resolved)
    case (Some j)
    with i(3) obtain p where p: "p \<in> set ps" "post = Some (pst_id p)" "pst_provider_id p = j" by auto
    from imported_rows_same_post [OF assms(2) p(1)] p Some show ?thesis by simp metis
  qed (use i(3) in simp)
  with i show ?thesis unfolding item_for_def by blast
qed

lemma upsert_imported_post_Inr:
  assumes "upsert_imported_post i r counts w = (Inr (post, counts'), w')"
  shows "counted counts' = counted counts + 1 \<and> (\<exists>p \<in> set (posts (db w')). pst_id p = post \<and> pst_provider_id p = i)
    \<and> legacy_import_runs (db w') = legacy_import_runs (db w) \<and> legacy_import_items (db w') = legacy_import_items (db w)"
proof (cases "select_one (\<lambda>p. pst_provider_id p = i) (posts (db w))")
  case None
  then show ?thesis
    using assms by (auto simp: upsert_imported_post_def io_run insert_imported_post_def insert_unique_Some imported_post_def counted_def
        count_values_def split: if_splits)
next
  case (Some p)
  then have p: "p \<in> set (posts (db w))" "pst_provider_id p = i" by (auto dest: select_one_Some)
  show ?thesis
  proof (cases "pst_normalization_provenance p = LegacyImport \<and> (pst_text p \<noteq> lr_text r \<or> pst_published_at p \<noteq> lr_posted_at r)")
    case True
    with Some assms have w': "post = pst_id p" "counts' = counts\<lparr>ic_updated := ic_updated counts + 1\<rparr>"
      "db w' = (db w)\<lparr>posts := update_where (\<lambda>q. pst_id q = pst_id p \<and> pst_normalization_provenance q = LegacyImport) (refreshed_post r) (posts (db w))\<rparr>"
      by (auto simp: upsert_imported_post_def io_run refresh_imported_post_def)
    have "refreshed_post r p \<in> set (posts (db w'))" using p(1) True w'(3) by (auto intro: update_where_hit)
    moreover have "pst_id (refreshed_post r p) = post" "pst_provider_id (refreshed_post r p) = i"
      using p w' by (simp_all add: refreshed_post_def)
    ultimately show ?thesis using w' by (auto simp: counted_def count_values_def)
  next
    case False
    with Some assms p show ?thesis
      by (auto simp: upsert_imported_post_def io_run counted_def count_values_def)
  qed
qed

lemma import_record_Inr:
  assumes "import_record L run r counts w = (Inr counts', w')"
  shows "counted counts' = counted counts + 1 \<and> legacy_import_runs (db w') = legacy_import_runs (db w)
    \<and> (\<exists>x. legacy_import_items (db w') = legacy_import_items (db w) @ [x] \<and> item_for L run (posts (db w')) r x)"
proof -
  obtain resolution resolved conflicting where id: "resolve_record_identity r = (resolution, resolved, conflicting)" by (metis prod_cases3)
  from assms obtain post w1 where p: "import_post r resolution resolved counts w = (Inr (post, counts'), w1)"
    and x: "insert_item (import_item L run r resolution resolved conflicting post) w1 = (Inr (), w')"
    by (auto simp: import_record_def id io_run)
  have "counted counts' = counted counts + 1 \<and> legacy_import_runs (db w1) = legacy_import_runs (db w)
      \<and> legacy_import_items (db w1) = legacy_import_items (db w)
      \<and> (case resolved of None \<Rightarrow> post = None | Some i \<Rightarrow> \<exists>p \<in> set (posts (db w1)). post = Some (pst_id p) \<and> pst_provider_id p = i)"
  proof (cases resolved)
    case None
    with id have "resolution = IdentityConflict \<or> resolution = Unmapped"
      by (auto simp: resolve_record_identity_def split: option.splits if_splits)
    with p None show ?thesis by (auto simp: import_post_def io_run counted_def count_values_def)
  next
    case (Some i)
    with p obtain j where "upsert_imported_post i r counts w = (Inr (j, counts'), w1)" "post = Some j"
      by (auto simp: import_post_def io_run)
    with upsert_imported_post_Inr [OF this(1)] Some show ?thesis by auto
  qed
  moreover have "posts (db w') = posts (db w1)" "legacy_import_runs (db w') = legacy_import_runs (db w1)"
    "legacy_import_items (db w') = legacy_import_items (db w1) @ [import_item L run r resolution resolved conflicting post]"
    using x by (auto simp: insert_item_def io_run insert_unique_Some split: if_splits)
  ultimately show ?thesis using id by (auto simp: item_for_def)
qed

lemma import_records_Inr:
  "fold_io (import_record L run) rs counts w = (Inr counts', w') \<Longrightarrow>
   counted counts' = counted counts + length rs \<and> legacy_import_runs (db w') = legacy_import_runs (db w)
   \<and> (\<exists>new. legacy_import_items (db w') = legacy_import_items (db w) @ new \<and> list_all2 (item_for L run (posts (db w'))) rs new)"
proof (induction rs arbitrary: counts w)
  case Nil
  then show ?case by (simp add: io_run)
next
  case (Cons r rs)
  then obtain c w1 where s: "import_record L run r counts w = (Inr c, w1)" "fold_io (import_record L run) rs c w1 = (Inr counts', w')"
    by (auto simp: io_run)
  have "imported_rows (posts (db w1)) (posts (db w'))"
    using withinD [OF importing.within_fold_io [OF import_record_frame] s(2)] by (simp add: import_frame_def)
  with import_record_Inr [OF s(1)] Cons.IH [OF s(2)] show ?case by (auto intro: item_for_mono)
qed

section \<open>Runs and outcomes\<close>

lemma map_all_counts:
  "map_all bounded_count ns = Inr ms \<Longrightarrow> ms = map int ns"
  by (induction ns arbitrary: ms) (auto simp: bounded_count_def split: if_splits)

lemma map_all_nonnegative: "map_all nonnegative_count (map int ns) = Inr ns"
  by (induction ns) (simp_all add: nonnegative_count_def bind_result_def)

lemma counts_of_values: "counts_of (count_values c) = c"
  by (simp add: counts_of_def count_values_def)

lemma stored_completed: "stored_counts (completed_run now (map int (count_values c)) r) = map int (count_values c)"
  by (simp add: stored_counts_def completed_run_def count_values_def)

lemma completed_run_sel [simp]:
  "lir_id (completed_run now ns r) = lir_id r" "lir_status (completed_run now ns r) = ImportCompleted"
  "lir_key (completed_run now ns r) = lir_key r"
  by (simp_all add: completed_run_def lir_key_def)

definition run_key :: "preflight_batch \<Rightarrow> ownership_approval \<Rightarrow> string \<Rightarrow> int \<Rightarrow> uuid \<times> string \<times> int \<times> string \<times> int" where
  "run_key batch approval kind version = (oa_account_id approval, kind, version, pb_source_digest batch, IMPORTER_PARSER_VERSION)"

text \<open>The run that an import has stored: completed, with the counts it reported.\<close>

definition run_recorded :: "preflight_batch \<Rightarrow> ownership_approval \<Rightarrow> uuid \<Rightarrow> import_counts \<Rightarrow> legacy_import_run \<Rightarrow> bool" where
  "run_recorded batch approval i counts run \<longleftrightarrow> lir_id run = i \<and> lir_status run = ImportCompleted
     \<and> (\<exists>kind version. source_database_identity (pb_source_kind batch) (pb_source_version batch) = Inr (kind, version)
          \<and> lir_key run = run_key batch approval kind version)
     \<and> stored_counts run = map int (count_values counts)"

lemma insert_run_Inr:
  assumes "insert_import_run approval kind version digest w = (Inr i, w')"
  obtains row where "legacy_import_runs (db w') = legacy_import_runs (db w) @ [row]" "legacy_import_items (db w') = legacy_import_items (db w)"
    "lir_id row = i" "i \<notin> lir_id ` set (legacy_import_runs (db w))" "posts (db w') = posts (db w)"
    "lir_key row = (oa_account_id approval, kind, version, digest, IMPORTER_PARSER_VERSION)"
  using assms by (auto simp: insert_import_run_def io_run insert_unique_Some lir_key_def split: if_splits)

lemma complete_import_Inr:
  assumes "complete_import run counts w = (Inr x, w')"
  shows "db w' = (db w)\<lparr>legacy_import_runs := update_where (\<lambda>r. lir_id r = run) (completed_run (db_now w) (map int (count_values counts)))
      (legacy_import_runs (db w))\<rparr>"
  using assms by (auto simp: complete_import_def io_run dest!: map_all_counts)

lemma new_run:
  assumes "insert_import_run approval kind version (pb_source_digest batch) w = (Inr run, w1)"
    and "persist_import_records L run (pb_records batch) w1 = (Inr counts, w2)" and "complete_import run counts w2 = (Inr x, w')"
    and "source_database_identity (pb_source_kind batch) (pb_source_version batch) = Inr (kind, version)"
  shows "counted counts = length (pb_records batch)
    \<and> (\<exists>row. legacy_import_runs (db w') = legacy_import_runs (db w) @ [row] \<and> run_recorded batch approval run counts row)
    \<and> (\<exists>new. legacy_import_items (db w') = legacy_import_items (db w) @ new \<and> list_all2 (item_for L run (posts (db w'))) (pb_records batch) new)"
proof -
  from assms(1) obtain row where row: "legacy_import_runs (db w1) = legacy_import_runs (db w) @ [row]"
    "legacy_import_items (db w1) = legacy_import_items (db w)" "lir_id row = run" "run \<notin> lir_id ` set (legacy_import_runs (db w))"
    "lir_key row = (oa_account_id approval, kind, version, pb_source_digest batch, IMPORTER_PARSER_VERSION)" by (rule insert_run_Inr)
  from import_records_Inr [OF assms(2) [unfolded persist_import_records_def]] have records: "counted counts = length (pb_records batch)"
    "legacy_import_runs (db w2) = legacy_import_runs (db w1)"
    "\<exists>new. legacy_import_items (db w2) = legacy_import_items (db w1) @ new \<and> list_all2 (item_for L run (posts (db w2))) (pb_records batch) new"
    by (auto simp: counted_def no_counts_def count_values_def)
  note fin = complete_import_Inr [OF assms(3)]
  let ?f = "completed_run (db_now w2) (map int (count_values counts))"
  have "update_where (\<lambda>r. lir_id r = run) ?f (legacy_import_runs (db w)) = legacy_import_runs (db w)"
    using row(4) by (intro update_where_none) auto
  then have "legacy_import_runs (db w') = legacy_import_runs (db w) @ [?f row]"
    using fin records(2) row(1,3) by (simp add: update_where_def)
  moreover have "run_recorded batch approval run counts (?f row)"
    using row(3,5) assms(4) by (auto simp: run_recorded_def run_key_def stored_completed)
  ultimately show ?thesis using records row(2) fin by auto
qed

lemma import_in_transaction_Inr:
  assumes "import_in_transaction L batch approval verified w = (Inr e, w')"
  obtains (reused) row where "e = ReusedRun row" "db w' = db w" "row \<in> set (legacy_import_runs (db w))" "lir_status row = ImportCompleted"
      "\<exists>kind version. source_database_identity (pb_source_kind batch) (pb_source_version batch) = Inr (kind, version)
         \<and> select_one (\<lambda>r. lir_key r = run_key batch approval kind version) (legacy_import_runs (db w)) = Some row"
    | (new) run counts where "e = NewRun run counts" "counted counts = length (pb_records batch)"
      "\<exists>row. legacy_import_runs (db w') = legacy_import_runs (db w) @ [row] \<and> run_recorded batch approval run counts row"
      "\<exists>new. legacy_import_items (db w') = legacy_import_items (db w) @ new \<and> list_all2 (item_for L run (posts (db w'))) (pb_records batch) new"
      "\<exists>kind version. source_database_identity (pb_source_kind batch) (pb_source_version batch) = Inr (kind, version)
         \<and> run_key batch approval kind version \<notin> lir_key ` set (legacy_import_runs (db w))"
proof -
  from assms obtain kind version w1 where v: "validate_locked_import_account approval verified w = (Inr (), w1)"
    and s: "source_database_identity (pb_source_kind batch) (pb_source_version batch) = Inr (kind, version)"
    and c: "(case select_one (\<lambda>r. lir_key r = run_key batch approval kind version) (legacy_import_runs (db w1)) of
          Some r \<Rightarrow> if lir_status r \<noteq> ImportCompleted then throw LegacyDatabase else ret (ReusedRun r)
        | None \<Rightarrow>
            bind_io (insert_import_run approval kind version (pb_source_digest batch)) (\<lambda>run.
            bind_io (persist_import_records L run (pb_records batch)) (\<lambda>counts.
            then_io (complete_import run counts) (ret (NewRun run counts))))) (advance w1) = (Inr e, w')"
    by (auto simp: import_in_transaction_def io_run run_key_def simp del: lir_key_def)
  have d: "db w1 = db w"
    using v by (auto simp: validate_locked_import_account_def io_run split: option.splits prod.splits if_splits)
  show thesis
  proof (cases "select_one (\<lambda>r. lir_key r = run_key batch approval kind version) (legacy_import_runs (db w1))")
    case (Some row)
    with c have "lir_status row = ImportCompleted" "e = ReusedRun row" "w' = advance w1" by (auto simp: io_run split: if_splits)
    with reused Some s d select_one_Some [OF Some] show thesis by auto
  next
    case None
    with c obtain run counts w2 w3 x where n: "insert_import_run approval kind version (pb_source_digest batch) (advance w1) = (Inr run, w2)"
      "persist_import_records L run (pb_records batch) w2 = (Inr counts, w3)" "complete_import run counts w3 = (Inr x, w')" "e = NewRun run counts"
      by (auto simp: io_run)
    have "run_key batch approval kind version \<notin> lir_key ` set (legacy_import_runs (db w))"
      using None d by (auto simp: select_one_None)
    with new n(4) new_run [OF n(1-3) s] s d show thesis by auto
  qed
qed

lemma import_batch_Inr:
  assumes "import_batch L identity batch approval w = (Inr out, w')" and "identity_source identity"
  obtains a e w1 w2 where "approval = Some a" "import_in_transaction L batch a (acc_provider_user_id (the (select_one (\<lambda>x. acc_id x = oa_account_id a) (accounts (db w))))) w1 = (Inr e, w2)"
    "conclude_import e = Inr out" "db w1 = db w" "db w' = db w2"
    "\<exists>v' x. identity (oa_account_id a) (advance w) = (Inr (acc_provider_user_id x), v') \<and> x \<in> set (accounts (db w))
       \<and> acc_id x = oa_account_id a \<and> acc_internal_user_id x = oa_internal_owner_id a \<and> acc_state x = Connected"
    "oa_source_digest a = pb_source_digest batch"
proof -
  from assms(1) obtain a where a: "approval = Some a" by (cases approval) (auto simp: import_batch_def io_run)
  from assms(1) obtain x current w1 where x: "select_one (\<lambda>x. acc_id x = oa_account_id a) (accounts (db w)) = Some x"
    "acc_internal_user_id x = oa_internal_owner_id a" "acc_state x = Connected" "oa_source_digest a = pb_source_digest batch"
    "identity (oa_account_id a) (advance w) = (Inr (acc_provider_user_id x), w1)"
    "persist_import L batch a (acc_provider_user_id x) w1 = (Inr out, w')"
    by (auto simp: import_batch_def a io_run account_identity_def split: if_splits option.splits)
  from x(6) obtain e w2 w3 where t: "import_in_transaction L batch a (acc_provider_user_id x) w2 = (Inr e, w3)" "conclude_import e = Inr out"
    "db w2 = db w1" "db w' = db w3" by (auto simp: persist_import_def io_run)
  have "db w1 = db w" using identity_source.identity_db [OF assms(2) x(5)] by simp
  show thesis
  proof (rule that [OF a])
    show "import_in_transaction L batch a (acc_provider_user_id (the (select_one (\<lambda>x. acc_id x = oa_account_id a) (accounts (db w))))) w2 = (Inr e, w3)"
      using t(1) x(1) by simp
    show "\<exists>v' x. identity (oa_account_id a) (advance w) = (Inr (acc_provider_user_id x), v') \<and> x \<in> set (accounts (db w))
       \<and> acc_id x = oa_account_id a \<and> acc_internal_user_id x = oa_internal_owner_id a \<and> acc_state x = Connected"
      using x select_one_Some [OF x(1)] by blast
  qed (use t x \<open>db w1 = db w\<close> in simp_all)
qed

lemma filter_update_where: "(\<And>x. p (f x) = p x) \<Longrightarrow> filter p (update_where q f xs) = update_where q f (filter p xs)"
  by (induction xs) (auto simp: update_where_def)

lemma select_one_filter: "filter p xs = x # ys \<Longrightarrow> select_one p xs = Some x"
  by (induction xs) (auto simp: select_one_def split: if_splits)

section \<open>An import grants no authority\<close>

definition official_post :: "post_row \<Rightarrow> bool" where
  "official_post p \<longleftrightarrow> pst_normalization_provenance p = OfficialApi"

lemma imported_rows_official: "imported_rows ps ps' \<Longrightarrow> filter official_post ps' = filter official_post ps"
proof -
  assume "imported_rows ps ps'"
  then obtain old new where o: "ps' = old @ new" "list_all2 post_kept ps old"
    "list_all (\<lambda>p. pst_normalization_provenance p = LegacyImport) new" unfolding imported_rows_def by blast
  from o(2) have "filter official_post old = filter official_post ps"
    by (induction rule: list_all2_induct) (auto simp: post_kept_def official_post_def)
  moreover have "filter official_post new = []" using o(3) by (auto simp: official_post_def filter_empty_conv list_all_iff)
  ultimately show ?thesis by (simp add: o(1))
qed

lemma persist_import_Inl: "persist_import L batch a verified w = (Inl e, w') \<Longrightarrow> db w' = db w"
proof -
  assume p: "persist_import L batch a verified w = (Inl e, w')"
  obtain x w1 where t: "transaction LegacyDatabase (import_in_transaction L batch a verified) w = (x, w1)" by fastforce
  show ?thesis
  proof (cases x)
    case (Inl e')
    with p t have "w' = w1" by (auto simp: persist_import_def bind_io_def)
    with transaction_Inl_db [OF t [unfolded Inl]] show ?thesis by simp
  next
    case (Inr end')
    with p t have c: "conclude_import end' = Inl e" "w' = w1" by (auto simp: persist_import_def bind_io_def of_result_def)
    then obtain row where row: "end' = ReusedRun row" by (cases end') (auto simp: conclude_import_def)
    from t [unfolded Inr row] obtain w0 w2 where "import_in_transaction L batch a verified w0 = (Inr (ReusedRun row), w2)" "db w0 = db w" "db w1 = db w2"
      by (auto simp: io_run)
    then show ?thesis using c(2) by (auto elim: import_in_transaction_Inr)
  qed
qed

lemma import_batch_Inl:
  assumes "import_batch L identity batch approval w = (Inl e, w')" and "identity_source identity"
  shows "db w' = db w"
proof (cases approval)
  case None
  with assms(1) show ?thesis by (simp add: import_batch_def throw_def)
next
  case (Some a)
  have reads: "db v' = db v" if "identity i v = (x, v')" for i v x v' using identity_source.identity_db [OF assms(2) that] .
  show ?thesis
    using assms(1) unfolding import_batch_def Some
    by (auto simp: bind_io_def query_def sql_def throw_def split: if_splits option.splits prod.splits sum.splits
        dest!: reads persist_import_Inl)
qed

text \<open>
  C20. An import grants no authority. Whatever an import returns, it changes nothing but posts and the import tables: no bookmark, snapshot, authority,
  source or event. Every post whose row is marked as coming from the official interface is as it was; the rows marked as imported, also those that X has confirmed since, keep
  their identity (what else may change of them is the subject of the last theorem), and posts it adds are marked as imported. A refused or
  failed import leaves no trace at all. (The identity adapter only reads.)
\<close>

theorem import_grants_no_authority:
  assumes "import_batch L identity batch approval w = (r, w')" and "identity_source identity"
  shows "(db w')\<lparr>posts := [], legacy_import_runs := [], legacy_import_items := []\<rparr>
       = (db w)\<lparr>posts := [], legacy_import_runs := [], legacy_import_items := []\<rparr>
    \<and> filter official_post (posts (db w')) = filter official_post (posts (db w))
    \<and> (\<forall>p \<in> set (posts (db w)). \<exists>p' \<in> set (posts (db w')). pst_id p' = pst_id p \<and> pst_provider_id p' = pst_provider_id p)
    \<and> (\<forall>e. r = Inl e \<longrightarrow> db w' = db w)"
proof -
  have f: "import_frame (db w) (db w')" using withinD [OF identity_source.import_batch_frame [OF assms(2)] assms(1)] .
  moreover have "db w' = db w" if "r = Inl e" for e using import_batch_Inl [OF assms(1) [unfolded that] assms(2)] .
  ultimately show ?thesis
    using imported_rows_same_post [of "posts (db w)" "posts (db w')"] imported_rows_official [of "posts (db w)" "posts (db w')"]
    by (simp add: import_frame_def)
qed

text \<open>What the official adapter did when it named a user: it asked X, with the account's stored credential, and X answered with that user.\<close>

lemma current_provider_user_id_Inr:
  assumes "current_provider_user_id I a w = (Inr user, w')"
  shows "\<exists>encrypted scopes opened payload H response. identity_credential a (db w) = Some (encrypted, scopes) \<and> ''users.read'' \<in> set scopes
    \<and> open_envelope (ida_gcm I) (ida_key I) a Credential encrypted = Inr opened \<and> payload_decode opened = Some payload
    \<and> ida_http I = Some H \<and> H (identity_request I payload) (tick w + 1) = Inr response \<and> identity_answer I response = Some user"
proof -
  from assms obtain encrypted scopes opened payload where c: "identity_credential a (db w) = Some (encrypted, scopes)" "''users.read'' \<in> set scopes"
    "open_envelope (ida_gcm I) (ida_key I) a Credential encrypted = Inr opened" "payload_decode opened = Some payload"
    and ask: "ask_identity I payload (advance w) = (Inr user, w')"
    by (auto simp: current_provider_user_id_def io_run split: option.splits sum.splits if_splits)
  from ask obtain H response where "ida_http I = Some H" "H (identity_request I payload) (tick w + 1) = Inr response"
    "identity_answer I response = Some user"
    by (auto simp: ask_identity_def send_request_def io_run split: option.splits)
  with c show ?thesis by blast
qed

text \<open>
  C22. An import accounts for every record, for the right account. When an import through the official identity adapter succeeds with a new run, the batch is the one the approval
  names, the account belongs to the approving owner and is connected, and X itself named its user: the stored active credential of the account opens, with the right to read users,
  and to the request for the current user with its access token X answered (right after the account and the credential were read) the provider user of the account. The counts add up to the number of
  records; exactly one item per record is added, in order, which names the imported post of the record's provider identity if it has one; and exactly one run, completed with
  those counts.
\<close>

theorem import_accounts_for_every_record:
  assumes "import_batch L (current_provider_user_id I) batch approval w = (Inr out, w')" and "\<not> io_reused out"
  shows "\<exists>a. approval = Some a \<and> oa_source_digest a = pb_source_digest batch
    \<and> (\<exists>x encrypted scopes opened payload H response. x \<in> set (accounts (db w)) \<and> acc_id x = oa_account_id a
         \<and> acc_internal_user_id x = oa_internal_owner_id a \<and> acc_state x = Connected
         \<and> identity_credential (acc_id x) (db w) = Some (encrypted, scopes) \<and> ''users.read'' \<in> set scopes
         \<and> open_envelope (ida_gcm I) (ida_key I) (acc_id x) Credential encrypted = Inr opened \<and> payload_decode opened = Some payload
         \<and> ida_http I = Some H \<and> H (identity_request I payload) (tick w + 2) = Inr response
         \<and> identity_answer I response = Some (acc_provider_user_id x))
    \<and> counted (io_counts out) = length (pb_records batch)
    \<and> (\<exists>items. legacy_import_items (db w') = legacy_import_items (db w) @ items
         \<and> list_all2 (item_for L (io_run_id out) (posts (db w'))) (pb_records batch) items)
    \<and> (\<exists>run. legacy_import_runs (db w') = legacy_import_runs (db w) @ [run] \<and> run_recorded batch a (io_run_id out) (io_counts out) run)"
proof -
  from assms(1) official_identity.identity_source_axioms obtain a e w1 w2 verified where
    b: "approval = Some a" "import_in_transaction L batch a verified w1 = (Inr e, w2)"
    "conclude_import e = Inr out" "db w1 = db w" "db w' = db w2" "oa_source_digest a = pb_source_digest batch"
    and "\<exists>v' x. current_provider_user_id I (oa_account_id a) (advance w) = (Inr (acc_provider_user_id x), v') \<and> x \<in> set (accounts (db w))
       \<and> acc_id x = oa_account_id a \<and> acc_internal_user_id x = oa_internal_owner_id a \<and> acc_state x = Connected"
    by (rule import_batch_Inr) blast
  then obtain x v' where x: "x \<in> set (accounts (db w))" "acc_id x = oa_account_id a" "acc_internal_user_id x = oa_internal_owner_id a"
    "acc_state x = Connected" and call: "current_provider_user_id I (acc_id x) (advance w) = (Inr (acc_provider_user_id x), v')" by auto
  have "tick (advance w) + 1 = tick w + 2" "db (advance w) = db w" by simp_all
  note named = current_provider_user_id_Inr [OF call, unfolded this]
  from b(2) show ?thesis
  proof (cases rule: import_in_transaction_Inr)
    case (reused row)
    with b(3) assms(2) show ?thesis by (auto simp: conclude_import_def)
  next
    case (new run counts)
    with b(3) have out: "out = \<lparr>io_run_id = run, io_counts = counts, io_reused = False\<rparr>" by (simp add: conclude_import_def)
    have "\<exists>x encrypted scopes opened payload H response. x \<in> set (accounts (db w)) \<and> acc_id x = oa_account_id a
         \<and> acc_internal_user_id x = oa_internal_owner_id a \<and> acc_state x = Connected
         \<and> identity_credential (acc_id x) (db w) = Some (encrypted, scopes) \<and> ''users.read'' \<in> set scopes
         \<and> open_envelope (ida_gcm I) (ida_key I) (acc_id x) Credential encrypted = Inr opened \<and> payload_decode opened = Some payload
         \<and> ida_http I = Some H \<and> H (identity_request I payload) (tick w + 2) = Inr response
         \<and> identity_answer I response = Some (acc_provider_user_id x)"
      using x named by blast
    with new(2-4) [unfolded b(4)] b(1,6) show ?thesis unfolding b(5) out by (intro exI [of _ a] conjI) simp_all
  qed
qed

text \<open>
  Importing the same source again changes nothing. After an import of a batch has succeeded, every further import of it for the same account that succeeds, in any
  archive that still has these runs, reports the same run with the same counts as reused and leaves the archive as it is, whatever was imported or observed in between.
\<close>

theorem import_again_reuses_run:
  assumes "import_batch L identity batch (Some a) w = (Inr out, w1)" and "\<not> io_reused out" and "identity_source identity"
    and "import_batch L' identity' batch (Some a') w2 = (Inr out', w3)" and "identity_source identity'"
    and "oa_account_id a' = oa_account_id a" and "legacy_import_runs (db w2) = legacy_import_runs (db w1) @ later"
  shows "out' = out\<lparr>io_reused := True\<rparr> \<and> db w3 = db w2"
proof -
  from assms(1,3) obtain e v1 v2 verified where b: "import_in_transaction L batch a verified v1 = (Inr e, v2)" "conclude_import e = Inr out"
    "db v1 = db w" "db w1 = db v2" by (rule import_batch_Inr) auto
  from b(1,2) assms(2) obtain row kind version where row: "legacy_import_runs (db w1) = legacy_import_runs (db w) @ [row]"
    "run_recorded batch a (io_run_id out) (io_counts out) row" "source_database_identity (pb_source_kind batch) (pb_source_version batch) = Inr (kind, version)"
    "run_key batch a kind version \<notin> lir_key ` set (legacy_import_runs (db w))"
    by (cases rule: import_in_transaction_Inr) (auto simp: conclude_import_def b(3,4))
  have key: "run_key batch a' kind version = run_key batch a kind version" by (simp add: run_key_def assms(6))
  have rk: "lir_key row = run_key batch a kind version" using row(2,3) by (auto simp: run_recorded_def)
  have sel: "select_one (\<lambda>r. lir_key r = run_key batch a' kind version) (legacy_import_runs (db w2)) = Some row"
  proof -
    have "select_one (\<lambda>r. lir_key r = run_key batch a kind version) (legacy_import_runs (db w)) = None"
      using row(4) by (force simp: select_one_None image_iff)
    moreover have "select_one (\<lambda>r. lir_key r = run_key batch a kind version) (row # later) = Some row" by (simp add: select_one_def rk)
    ultimately show ?thesis by (simp add: assms(7) row(1) key select_one_append)
  qed
  from assms(4,5) obtain e' v3 v4 verified' where b': "import_in_transaction L' batch a' verified' v3 = (Inr e', v4)" "conclude_import e' = Inr out'"
    "db v3 = db w2" "db w3 = db v4" by (rule import_batch_Inr) auto
  from b'(1) show ?thesis
  proof (cases rule: import_in_transaction_Inr)
    case (reused row')
    with sel row(3) b'(3) have "row' = row" by simp
    with reused b' row(2) map_all_nonnegative [of "count_values (io_counts out)"] show ?thesis
      by (auto simp: conclude_import_def run_recorded_def counts_of_values)
  next
    case (new run counts)
    from select_one_Some [OF sel] have "run_key batch a' kind version \<in> lir_key ` set (legacy_import_runs (db v3))"
      by (auto simp: b'(3) image_iff intro!: bexI [of _ row])
    with new row(3) show ?thesis by auto
  qed
qed

text \<open>
  C34. A post that was imported once stays open to imports. When the official interface normalizes a post that a legacy import had created, the row takes the official
  text, instant, parser version and availability but keeps its mark as imported, so that the next import of a record with another text replaces the official text, instant,
  parser version and availability by those of the record and of the importer, and the mark stays.
\<close>

theorem import_overwrites_confirmed_post:
  assumes "select_one (\<lambda>q. pst_provider_id q = np_provider_id p) (posts (db w)) = Some q" and "pst_normalization_provenance q = LegacyImport"
    and "upsert_post author p w = (Inr i, w1)" and "keyed_by pst_provider_id (posts (db w))"
    and "import_record L run r counts w1 = (Inr counts', w2)" and "fst (snd (resolve_record_identity r)) = Some (np_provider_id p)"
    and "lr_text r \<noteq> np_text p"
  shows "map (\<lambda>q. (pst_text q, pst_published_at q, pst_parser_version q, pst_availability q, pst_normalization_provenance q))
        (filter (\<lambda>q. pst_provider_id q = np_provider_id p) (posts (db w1)))
      = [(np_text p, np_published_at p, np_parser_version p, np_availability p, LegacyImport)]
    \<and> map (\<lambda>q. (pst_text q, pst_published_at q, pst_parser_version q, pst_availability q, pst_normalization_provenance q))
        (filter (\<lambda>q. pst_provider_id q = np_provider_id p) (posts (db w2)))
      = [(lr_text r, lr_posted_at r, IMPORTER_PARSER_VERSION, Unknown, LegacyImport)]"
proof -
  let ?k = "np_provider_id p" and ?new = "post_row_of (uuids (sched w) (tick w) 0) author p"
  let ?q = "post_merge ?new q"
  note q = select_one_Some [OF assms(1)]
  have one: "filter (\<lambda>x. pst_provider_id x = ?k) (posts (db w)) = [q]"
    using q by (intro filter_keyed_one [OF assms(4)]) auto
  have m: "pst_provider_id (post_merge ?new x) = pst_provider_id x" for x by (simp add: post_merge_def)
  have "posts (db w1) = update_where (\<lambda>x. pst_provider_id x = ?k) (post_merge ?new) (posts (db w))"
    using assms(1,3) q by (auto simp: upsert_post_def io_run Let_def upsert_def update_where_def post_row_of_def image_iff split: if_splits)
  then have one1: "filter (\<lambda>x. pst_provider_id x = ?k) (posts (db w1)) = [?q]"
    using one q by (simp add: filter_update_where m) (simp add: update_where_def)
  have f: "pst_text ?q = np_text p" "pst_normalization_provenance ?q = LegacyImport" "pst_provider_id ?q = ?k"
    "pst_published_at ?q = np_published_at p" "pst_parser_version ?q = np_parser_version p" "pst_availability ?q = np_availability p"
    using assms(2) q by (simp_all add: post_merge_def post_row_of_def)
  from one1 have sel: "select_one (\<lambda>x. pst_provider_id x = ?k) (posts (db w1)) = Some ?q"
    by (rule select_one_filter)
  obtain resolution conflicting where id: "resolve_record_identity r = (resolution, Some ?k, conflicting)" using assms(6) by (metis prod.collapse)
  have "posts (db w2) = update_where (\<lambda>x. pst_id x = pst_id ?q \<and> pst_normalization_provenance x = LegacyImport) (refreshed_post r) (posts (db w1))"
    using assms(5,7) f sel
    by (auto simp: import_record_def id import_post_def upsert_imported_post_def refresh_imported_post_def insert_item_def io_run split: if_splits)
  moreover have "pst_provider_id (refreshed_post r x) = pst_provider_id x" for x by (simp add: refreshed_post_def)
  ultimately have "filter (\<lambda>x. pst_provider_id x = ?k) (posts (db w2)) = [refreshed_post r ?q]"
    using one1 f(2) by (simp add: filter_update_where) (simp add: update_where_def)
  then show ?thesis using one1 f by (simp add: refreshed_post_def)
qed

section \<open>Concrete imports\<close>

definition demo_hashing :: legacy_library where
  "demo_hashing = demo_legacy\<lparr>ll_contracts := demo_contracts\<lparr>sha256 := (\<lambda>_. replicate 32 0)\<rparr>\<rparr>"

definition demo_zeros :: string where
  "demo_zeros = replicate 64 CHR ''0''"

definition demo_import_source :: preflight_batch where
  "demo_import_source = demo_preflighted\<lparr>pb_source_digest := demo_zeros, pb_records := [demo_imported\<lparr>lr_record_digest := demo_zeros\<rparr>]\<rparr>"

definition demo_approval :: ownership_approval where
  "demo_approval = \<lparr>oa_account_id = 7, oa_internal_owner_id = 70, oa_source_digest = demo_zeros, oa_approval_digest = demo_zeros\<rparr>"

definition demo_named :: current_identity where
  "demo_named a = ret ''p7''"

lemma demo_named_source: "identity_source demo_named"
  by unfold_locales (simp add: demo_named_def within_def ret_def)

lemma demo_zeros_valid: "valid_sha256 demo_zeros"
  by (simp add: valid_sha256_def demo_zeros_def is_digit_def list_all_iff)

lemma demo_sha256: "legacy_sha256 demo_hashing bs = demo_zeros"
proof -
  have "concat (replicate n [c, c]) = replicate (2 * n) c" for n and c :: char by (induction n) simp_all
  moreover have "char_of (48 :: nat) = CHR ''0''" by code_simp
  ultimately show ?thesis
    by (simp add: legacy_sha256_def demo_hashing_def demo_zeros_def hex_digit_def map_replicate_const)
qed

lemma demo_admitted:
  "item_admitted (import_item demo_hashing run (demo_imported\<lparr>lr_record_digest := demo_zeros\<rparr>) ProviderPost (Some ''42'') None post)"
  by (simp add: item_admitted_def import_item_def demo_imported_def char_length_def demo_zeros_valid demo_sha256)

lemma demo_resolved: "resolve_record_identity (demo_imported\<lparr>lr_record_digest := demo_zeros\<rparr>) = (ProviderPost, Some ''42'', None)"
  by (simp add: resolve_record_identity_def valid_id_def demo_imported_def valid_provider_post_id_def is_digit_def)

lemmas demo_import_defs = demo_admitted demo_resolved import_batch_def demo_approval_def demo_import_source_def demo_preflighted_def
  demo_zeros_valid io_defs fault_now_def demo_world_def demo_archive_def demo_account_def demo_schedule_def empty_archive_def
  account_identity_def select_one_def demo_named_def persist_import_def import_in_transaction_def validate_locked_import_account_def
  insert_import_run_def insert_unique_def persist_import_records_def import_record_def import_post_def upsert_imported_post_def
  insert_imported_post_def insert_item_def complete_import_def count_values_def no_counts_def bounded_count_def i32_max_def
  bind_result_def conclude_import_def advance_def

definition demo_import :: "(legacy_error + import_outcome) \<times> archive world" where
  "demo_import = import_batch demo_hashing demo_named demo_import_source (Some demo_approval) (demo_world demo_archive)"

lemma demo_import_fst:
  "\<exists>run. fst demo_import = Inr \<lparr>io_run_id = run, io_counts = no_counts\<lparr>ic_inserted := 1\<rparr>, io_reused = False\<rparr>"
  by (simp add: demo_import_def demo_import_defs)

theorem import_grants_no_authority_witness: "bookmarks (db (snd demo_import)) = []"
proof -
  have "bookmarks (db (snd demo_import)) = bookmarks (db (demo_world demo_archive))"
    using arg_cong [where f = bookmarks, OF conjunct1 [OF import_grants_no_authority [OF prod.collapse [symmetric] demo_named_source,
      of demo_hashing demo_import_source "Some demo_approval" "demo_world demo_archive"]]]
    by (simp add: demo_import_def)
  then show ?thesis by (simp add: demo_world_def demo_archive_def empty_archive_def)
qed

definition demo_adapter :: identity_adapter where
  "demo_adapter = \<lparr>ida_gcm = demo_gcm, ida_key = [], ida_base_url = ''https://x'',
     ida_http = Some (\<lambda>q t. Inr \<lparr>hr_status = 200, hr_headers = (\<lambda>_. None), hr_content_length = None, hr_chunks = [], hr_broken = None\<rparr>),
     ida_parse_json = (\<lambda>_. Some (JObj [(''data'', JObj [(''id'', JStr ''p7'')])]))\<rparr>"

definition demo_reader :: credential where
  "demo_reader = \<lparr>cred_id = 300, cred_account_id = 7,
     cred_encrypted_payload = seal demo_gcm [] (replicate 12 0) 7 Credential
       (payload_encode \<lparr>cp_access_token = ''a'', cp_refresh_token = ''r''\<rparr>),
     cred_granted_scopes = [''users.read''], cred_status = CActive, cred_activation_outcome = AccAccepted,
     cred_expires_at = None, cred_superseded_refresh_hash = None, cred_created_at = 5\<rparr>"

definition demo_readable :: archive where
  "demo_readable = demo_archive\<lparr>credentials := [demo_reader]\<rparr>"

lemma demo_reader_opens:
  "open_envelope demo_gcm [] 7 Credential (cred_encrypted_payload demo_reader) = Inr (payload_encode \<lparr>cp_access_token = ''a'', cp_refresh_token = ''r''\<rparr>)"
  "payload_decode (payload_encode \<lparr>cp_access_token = ''a'', cp_refresh_token = ''r''\<rparr>) = Some \<lparr>cp_access_token = ''a'', cp_refresh_token = ''r''\<rparr>"
proof -
  have "storable ''a''" "storable ''r''" by (simp_all add: storable_def as_bytes_def utf8_valid.simps utf8_step_def)
  then show "payload_decode (payload_encode \<lparr>cp_access_token = ''a'', cp_refresh_token = ''r''\<rparr>) = Some \<lparr>cp_access_token = ''a'', cp_refresh_token = ''r''\<rparr>"
    using payload_decode_Some by simp
  show "open_envelope demo_gcm [] 7 Credential (cred_encrypted_payload demo_reader) = Inr (payload_encode \<lparr>cp_access_token = ''a'', cp_refresh_token = ''r''\<rparr>)"
    by (subst open_envelope_Inr [OF demo_gcm_laws]) (auto simp: demo_reader_def NONCE_LEN_def intro!: exI [of _ "replicate 12 0"])
qed

lemma demo_identity_credential:
  "db w = demo_readable \<Longrightarrow> identity_credential 7 (db w) = Some (cred_encrypted_payload demo_reader, [''users.read''])"
  by (simp add: identity_credential_def demo_readable_def demo_archive_def demo_account_def active_credential_def demo_reader_def select_one_def)

lemma demo_asked:
  assumes "db w = demo_readable" and "sched w = demo_schedule"
  shows "current_provider_user_id demo_adapter 7 w = (Inr ''p7'', advance (advance w))"
  using demo_identity_credential [OF assms(1)] assms(2) demo_reader_opens
  by (simp add: current_provider_user_id_def ask_identity_def demo_adapter_def io_defs fault_now_def demo_schedule_def send_request_def
      identity_answer_def is_success_def)

definition demo_named_import :: "(legacy_error + import_outcome) \<times> archive world" where
  "demo_named_import = import_batch demo_hashing (current_provider_user_id demo_adapter) demo_import_source (Some demo_approval) (demo_world demo_readable)"

lemma demo_named_import_fst:
  "\<exists>run. fst demo_named_import = Inr \<lparr>io_run_id = run, io_counts = no_counts\<lparr>ic_inserted := 1\<rparr>, io_reused = False\<rparr>"
  by (simp add: demo_named_import_def demo_asked demo_readable_def demo_import_defs)

theorem import_accounts_for_every_record_witness:
  "length (legacy_import_items (db (snd demo_named_import))) = 1 \<and> length (legacy_import_runs (db (snd demo_named_import))) = 1"
proof -
  obtain run where r: "demo_named_import = (Inr \<lparr>io_run_id = run, io_counts = no_counts\<lparr>ic_inserted := 1\<rparr>, io_reused = False\<rparr>, snd demo_named_import)"
    using demo_named_import_fst by (metis prod.collapse)
  have "legacy_import_items (db (demo_world demo_readable)) = []" "legacy_import_runs (db (demo_world demo_readable)) = []"
    by (simp_all add: demo_world_def demo_readable_def demo_archive_def empty_archive_def)
  with import_accounts_for_every_record [OF r [unfolded demo_named_import_def]] show ?thesis
    by (auto simp: demo_named_import_def demo_import_source_def list_all2_Cons1)
qed

definition demo_again :: "(legacy_error + import_outcome) \<times> archive world" where
  "demo_again = import_batch demo_hashing demo_named demo_import_source (Some demo_approval) (snd demo_import)"

lemma demo_again_fst: "\<exists>out. fst demo_again = Inr out"
  by (simp add: demo_again_def demo_import_def demo_import_defs update_where_def completed_run_def lir_key_def stored_counts_def nonnegative_count_def)

theorem import_again_reuses_run_witness: "db (snd demo_again) = db (snd demo_import)"
proof -
  obtain run where r: "demo_import = (Inr \<lparr>io_run_id = run, io_counts = no_counts\<lparr>ic_inserted := 1\<rparr>, io_reused = False\<rparr>, snd demo_import)"
    using demo_import_fst by (metis prod.collapse)
  obtain out where o: "demo_again = (Inr out, snd demo_again)" using demo_again_fst by (metis prod.collapse)
  show ?thesis
    using import_again_reuses_run [OF r [unfolded demo_import_def] _ demo_named_source o [unfolded demo_again_def] demo_named_source refl, of "[]"]
    by (simp add: demo_import_def demo_again_def)
qed

definition demo_confirmed :: normalized_post where
  "demo_confirmed = \<lparr>np_parser_version = 2, np_provider_id = ''42'', np_author_provider_id = ''9'', np_text = ''official'', np_long_text = None,
     np_language = None, np_published_at = Some 5, np_edited_at = None, np_availability = Active, np_conversation_provider_id = None,
     np_like_count = None, np_retweet_count = None, np_reply_count = None, np_quote_count = None, np_bookmark_count = None,
     np_impression_count = None, np_media_keys = [], np_expanded_urls = [], np_extension = []\<rparr>"

definition demo_held :: "archive world" where
  "demo_held = demo_world (demo_archive\<lparr>posts := [imported_post 90 ''42'' demo_imported]\<rparr>)"

definition demo_confirmation :: "(snapshot_error + uuid) \<times> archive world" where
  "demo_confirmation = upsert_post 3 demo_confirmed demo_held"

definition demo_overwritten :: "(legacy_error + import_counts) \<times> archive world" where
  "demo_overwritten = import_record demo_hashing 1 (demo_imported\<lparr>lr_record_digest := demo_zeros\<rparr>) no_counts (snd demo_confirmation)"

lemma demo_runs: "fst demo_confirmation = Inr 90" "fst demo_overwritten = Inr (no_counts\<lparr>ic_updated := 1\<rparr>)"
  by (simp_all add: demo_overwritten_def demo_confirmation_def demo_held_def upsert_post_def imported_post_def upsert_def post_merge_def
      post_row_of_def Let_def demo_confirmed_def demo_import_defs refresh_imported_post_def)
    (simp_all add: demo_imported_def)

theorem import_overwrites_confirmed_post_witness:
  "map (\<lambda>q. (pst_text q, pst_published_at q, pst_parser_version q, pst_availability q, pst_normalization_provenance q))
         (filter (\<lambda>q. pst_provider_id q = ''42'') (posts (db (snd demo_confirmation)))) = [(''official'', Some 5, 2, Active, LegacyImport)]
   \<and> map (\<lambda>q. (pst_text q, pst_published_at q, pst_parser_version q, pst_availability q, pst_normalization_provenance q))
         (filter (\<lambda>q. pst_provider_id q = ''42'') (posts (db (snd demo_overwritten)))) = [(''hello'', None, 1, Unknown, LegacyImport)]"
proof -
  have c: "upsert_post 3 demo_confirmed demo_held = (Inr 90, snd demo_confirmation)"
    using demo_runs(1) by (metis demo_confirmation_def prod.collapse)
  have o: "import_record demo_hashing 1 (demo_imported\<lparr>lr_record_digest := demo_zeros\<rparr>) no_counts (snd demo_confirmation)
      = (Inr (no_counts\<lparr>ic_updated := 1\<rparr>), snd demo_overwritten)"
    using demo_runs(2) by (metis demo_overwritten_def prod.collapse)
  have "select_one (\<lambda>q. pst_provider_id q = np_provider_id demo_confirmed) (posts (db demo_held)) = Some (imported_post 90 ''42'' demo_imported)"
    "keyed_by pst_provider_id (posts (db demo_held))"
    by (simp_all add: select_one_def demo_confirmed_def demo_held_def demo_world_def imported_post_def keyed_by_def)
  from import_overwrites_confirmed_post [OF this(1) _ c this(2) o] show ?thesis
    by (simp add: demo_resolved imported_post_def) (simp add: demo_confirmed_def demo_imported_def IMPORTER_PARSER_VERSION_def)
qed

end
