(* ===== verification/Legacy_Decisions.thy ===== *)
theory Legacy_Decisions
  imports Legacy_Shadow_Correct Legacy_Import_Correct
begin

text \<open>
  The transition from import to decision: the effects of every call on reports and approvals, the invariant that ties the review state of a report to the
  decision in force, the evidence a decision is bound to, and a concrete run from a comparison to an approval.
\<close>

section \<open>What the calls do to reports and approvals\<close>

text \<open>The approvals that satisfy \<open>p\<close> are superseded and the reports they name go back to the owner.\<close>

definition superseded :: "(transition_approval \<Rightarrow> bool) \<Rightarrow> time \<Rightarrow> uuid \<Rightarrow> archive \<Rightarrow> archive" where
  "superseded p t a d = d\<lparr>legacy_transition_approvals := update_where p (\<lambda>x. x\<lparr>lta_superseded_at := Some t\<rparr>) (legacy_transition_approvals d),
     legacy_shadow_reports := update_where (\<lambda>r. lsr_account_id r = a \<and> lsr_id r \<in> lta_shadow_report_id ` set (filter p (legacy_transition_approvals d)))
       (\<lambda>r. r\<lparr>lsr_review_state := OwnerReviewRequired\<rparr>) (legacy_shadow_reports d)\<rparr>"

lemma superseded_none: "filter p (legacy_transition_approvals d) = [] \<Longrightarrow> superseded p t a d = d"
  by (auto simp: superseded_def update_where_def filter_empty_conv intro!: archive.equality map_idI)

lemma supersede_for_new_Inr:
  "supersede_approvals_for_new_report a i w = (Inr x, w') \<Longrightarrow> \<exists>t. db w' = superseded (stale_approval a i) t a (db w)"
  by (auto simp: supersede_approvals_for_new_report_def reset_report_reviewability_def io_run superseded_none split: if_splits)
    (auto simp: superseded_def)

lemma supersede_current_Inr:
  "supersede_current_approvals a t w = (Inr x, w') \<Longrightarrow> db w' = superseded (current_approval a) t a (db w)"
  by (auto simp: supersede_current_approvals_def reset_report_reviewability_def io_run superseded_none split: if_splits)
    (auto simp: superseded_def)

lemma require_snapshot_Inr:
  "require_current_authoritative_snapshot a s w = (Inr x, w') \<longleftrightarrow> \<not> fault_now w \<and> authoritative_snapshot a s (db w) \<and> w' = advance w"
  by (auto simp: require_current_authoritative_snapshot_def io_run split: if_splits)

lemma checklist_for_Inr:
  assumes "checklist_for L a i w = (Inr c, w')"
  obtains report run t where "report_with_run a i (db w) = Some (report, run)" "authoritative_snapshot a (lsr_snapshot_id report) (db w)"
    "render_checklist L report run = Inr (co_markdown c)" "co_checklist_digest c = legacy_sha256 L (as_bytes (co_markdown c))"
    "db w' = superseded (stale_approval a i) t a (db w)"
proof -
  from assms obtain report run w1 w2 x where "report_with_run a i (db w) = Some (report, run)" "authoritative_snapshot a (lsr_snapshot_id report) (db w)"
    "supersede_approvals_for_new_report a i w1 = (Inr x, w2)" "db w1 = db w" "db w' = db w2"
    "render_checklist L report run = Inr (co_markdown c)" "co_checklist_digest c = legacy_sha256 L (as_bytes (co_markdown c))"
    by (auto simp: checklist_for_def checklist_body_def io_run require_snapshot_Inr split: option.splits)
  with supersede_for_new_Inr that show thesis by metis
qed

lemma checklist_for_db:
  "checklist_for L a i w = (r, w') \<Longrightarrow> db w' = db w \<or> (\<exists>t. db w' = superseded (stale_approval a i) t a (db w))"
proof (cases r)
  case (Inl e)
  assume "checklist_for L a i w = (r, w')"
  with Inl show ?thesis using transaction_Inl_db by (auto simp: checklist_for_def)
next
  case (Inr c)
  assume "checklist_for L a i w = (r, w')"
  with Inr show ?thesis using checklist_for_Inr by metis
qed

text \<open>What recording a new decision does.\<close>

definition decided :: "uuid \<Rightarrow> approval_request \<Rightarrow> archive \<Rightarrow> archive" where
  "decided i q d =
     (let e = superseded (current_approval (ar_account_id q)) (ar_decided_at q) (ar_account_id q) d in
      e\<lparr>legacy_transition_approvals := legacy_transition_approvals e @ [approval_row i q],
        legacy_shadow_reports := update_where (\<lambda>r. lsr_id r = ar_shadow_report_id q \<and> lsr_account_id r = ar_account_id q)
          (\<lambda>r. r\<lparr>lsr_review_state := decision_review_state (ar_decision q)\<rparr>) (legacy_shadow_reports e)\<rparr>)"

definition decision_target :: "approval_request \<Rightarrow> archive \<Rightarrow> bool" where
  "decision_target q d \<longleftrightarrow> (\<exists>x \<in> set (accounts d). acc_id x = ar_account_id q \<and> acc_internal_user_id x = ar_internal_owner_id q)
     \<and> (\<exists>r \<in> set (legacy_shadow_reports d). lsr_id r = ar_shadow_report_id q \<and> lsr_account_id r = ar_account_id q
          \<and> authoritative_snapshot (ar_account_id q) (lsr_snapshot_id r) d)"

lemma validate_target_Inr:
  assumes "validate_approval_target q w = (Inr existing, w')"
  shows "db w' = db w" and "decision_target q (db w)"
    and "existing = Some i \<Longrightarrow> \<exists>x \<in> set (legacy_transition_approvals (db w)). lta_key x = request_key q \<and> lta_superseded_at x = None \<and> lta_id x = i"
  using assms
  by (auto simp: validate_approval_target_def io_run require_snapshot_Inr decision_target_def split: if_splits option.splits dest!: select_one_Some)

lemma approval_body_Inr:
  assumes "approval_body q w = (Inr out, w')"
  shows "decision_target q (db w)"
    and "(ao_reused out \<and> db w' = db w \<and> (\<exists>x \<in> set (legacy_transition_approvals (db w)). lta_key x = request_key q
            \<and> lta_superseded_at x = None \<and> lta_id x = ao_approval_id out))
        \<or> (\<not> ao_reused out \<and> db w' = decided (ao_approval_id out) q (db w))"
proof -
  from assms obtain existing w1 where v: "validate_approval_target q w = (Inr existing, w1)" by (auto simp: approval_body_def io_run)
  note v' = validate_target_Inr [OF v]
  show "decision_target q (db w)" by (rule v'(2))
  show "(ao_reused out \<and> db w' = db w \<and> (\<exists>x \<in> set (legacy_transition_approvals (db w)). lta_key x = request_key q
            \<and> lta_superseded_at x = None \<and> lta_id x = ao_approval_id out))
        \<or> (\<not> ao_reused out \<and> db w' = decided (ao_approval_id out) q (db w))"
  proof (cases existing)
    case (Some i)
    with assms v v'(1,3) show ?thesis by (auto simp: approval_body_def io_run)
  next
    case None
    with assms v obtain w2 x where s: "supersede_current_approvals (ar_account_id q) (ar_decided_at q) w1 = (Inr x, w2)"
      and r: "\<not> ao_reused out" "db w' = (db w2)\<lparr>legacy_transition_approvals := legacy_transition_approvals (db w2) @ [approval_row (ao_approval_id out) q],
        legacy_shadow_reports := update_where (\<lambda>r. lsr_id r = ar_shadow_report_id q \<and> lsr_account_id r = ar_account_id q)
          (\<lambda>r. r\<lparr>lsr_review_state := decision_review_state (ar_decision q)\<rparr>) (legacy_shadow_reports (db w2))\<rparr>"
      by (auto simp: approval_body_def insert_approval_def set_review_state_def insert_unique_Some io_run split: if_splits)
    from supersede_current_Inr [OF s] v'(1) r show ?thesis by (simp add: decided_def Let_def)
  qed
qed

section \<open>The review invariant\<close>

definition approved_by :: "transition_approval list \<Rightarrow> legacy_shadow_report \<Rightarrow> bool" where
  "approved_by xs r \<longleftrightarrow> (\<exists>x \<in> set xs. current_approval (lsr_account_id r) x \<and> lta_shadow_report_id x = lsr_id r \<and> lta_decision x = Approved)"

definition review_inv :: "archive \<Rightarrow> bool" where
  "review_inv d \<longleftrightarrow> distinct (map lta_account_id (filter (\<lambda>x. lta_superseded_at x = None) (legacy_transition_approvals d)))
     \<and> keyed_by lsr_id (legacy_shadow_reports d)
     \<and> list_all (\<lambda>x. list_ex (\<lambda>r. lsr_id r = lta_shadow_report_id x \<and> lsr_account_id r = lta_account_id x) (legacy_shadow_reports d))
         (legacy_transition_approvals d)
     \<and> list_all (\<lambda>r. lsr_review_state r = Reviewable \<longleftrightarrow> approved_by (legacy_transition_approvals d) r) (legacy_shadow_reports d)"

lemma one_current:
  assumes "distinct (map lta_account_id (filter (\<lambda>x. lta_superseded_at x = None) xs))"
    and "x \<in> set xs" "y \<in> set xs" "current_approval a x" "current_approval a y"
  shows "x = y"
proof -
  have "inj_on lta_account_id (set (filter (\<lambda>x. lta_superseded_at x = None) xs))" using assms(1) by (simp add: distinct_map)
  then show ?thesis using assms(2-5) by (auto simp: current_approval_def dest: inj_onD)
qed

lemma distinct_superseding:
  "distinct (map lta_account_id (filter (\<lambda>x. lta_superseded_at x = None) xs)) \<Longrightarrow>
     distinct (map lta_account_id (filter (\<lambda>x. lta_superseded_at x = None) (update_where p (\<lambda>x. x\<lparr>lta_superseded_at := Some t\<rparr>) xs)))"
  by (induction xs) (auto simp: update_where_def split: if_splits)

lemma list_ex_reports:
  "list_ex (\<lambda>r. lsr_id r = i \<and> lsr_account_id r = a) (update_where p (\<lambda>r. r\<lparr>lsr_review_state := s\<rparr>) rs)
     \<longleftrightarrow> list_ex (\<lambda>r. lsr_id r = i \<and> lsr_account_id r = a) rs"
  by (induction rs) (auto simp: update_where_def)

lemma keyed_by_reviewed: "keyed_by lsr_id (update_where p (\<lambda>r. r\<lparr>lsr_review_state := s\<rparr>) rs) \<longleftrightarrow> keyed_by lsr_id rs"
proof -
  have "map lsr_id (update_where p (\<lambda>r. r\<lparr>lsr_review_state := s\<rparr>) rs) = map lsr_id rs" by (simp add: update_where_def)
  then show ?thesis by (simp add: keyed_by_def)
qed

lemma approved_by_superseding:
  "approved_by (update_where p (\<lambda>x. x\<lparr>lta_superseded_at := Some t\<rparr>) xs) r
     \<longleftrightarrow> (\<exists>x \<in> set xs. \<not> p x \<and> current_approval (lsr_account_id r) x \<and> lta_shadow_report_id x = lsr_id r \<and> lta_decision x = Approved)"
  by (auto simp: approved_by_def update_where_def current_approval_def)

lemma approved_by_if: "approved_by xs (if c then r\<lparr>lsr_review_state := s\<rparr> else r) = approved_by xs r"
  by (simp add: approved_by_def)

lemma list_all_update_where: "list_all Q (update_where p f xs) \<longleftrightarrow> (\<forall>x \<in> set xs. Q (if p x then f x else x))"
  by (auto simp: update_where_def list_all_iff)

lemma superseded_tables:
  "legacy_transition_approvals (superseded p t a d) = update_where p (\<lambda>x. x\<lparr>lta_superseded_at := Some t\<rparr>) (legacy_transition_approvals d)"
  "legacy_shadow_reports (superseded p t a d) = update_where (\<lambda>r. lsr_account_id r = a \<and> lsr_id r \<in> lta_shadow_report_id ` set (filter p (legacy_transition_approvals d)))
     (\<lambda>r. r\<lparr>lsr_review_state := OwnerReviewRequired\<rparr>) (legacy_shadow_reports d)"
  by (simp_all add: superseded_def)

lemma superseded_keeps_review:
  assumes "review_inv d" and p: "\<And>x. p x \<Longrightarrow> current_approval a x"
  shows "review_inv (superseded p t a d)"
proof -
  let ?xs = "legacy_transition_approvals d" and ?rs = "legacy_shadow_reports d"
  let ?stale = "lta_shadow_report_id ` set (filter p ?xs)"
  note inv = assms(1) [unfolded review_inv_def]
  have "lsr_review_state (if lsr_account_id r = a \<and> lsr_id r \<in> ?stale then r\<lparr>lsr_review_state := OwnerReviewRequired\<rparr> else r) = Reviewable
      \<longleftrightarrow> (\<exists>x \<in> set ?xs. \<not> p x \<and> current_approval (lsr_account_id r) x \<and> lta_shadow_report_id x = lsr_id r \<and> lta_decision x = Approved)"
    if r: "r \<in> set ?rs" for r
  proof (cases "lsr_account_id r = a \<and> lsr_id r \<in> ?stale")
    case True
    then obtain y where "y \<in> set ?xs" "p y" by auto
    then have "p x" if "x \<in> set ?xs" "current_approval a x" for x
      using one_current [OF inv [THEN conjunct1] that(1) _ that(2)] p by blast
    with True show ?thesis by simp
  next
    case False
    from r inv have "lsr_review_state r = Reviewable \<longleftrightarrow> approved_by ?xs r" by (auto simp: list_all_iff)
    moreover have "\<not> p x" if "x \<in> set ?xs" "current_approval (lsr_account_id r) x" "lta_shadow_report_id x = lsr_id r" for x
      using False that p [of x] by (auto simp: current_approval_def image_iff)
    ultimately show ?thesis using False by (auto simp: approved_by_def)
  qed
  then have "list_all (\<lambda>r. lsr_review_state r = Reviewable \<longleftrightarrow> approved_by (legacy_transition_approvals (superseded p t a d)) r)
      (legacy_shadow_reports (superseded p t a d))"
    by (simp only: superseded_tables list_all_update_where approved_by_if) (simp only: approved_by_superseding, blast)
  moreover have "list_all (\<lambda>x. list_ex (\<lambda>r. lsr_id r = lta_shadow_report_id x \<and> lsr_account_id r = lta_account_id x)
      (legacy_shadow_reports (superseded p t a d))) (legacy_transition_approvals (superseded p t a d))"
    unfolding superseded_def using inv by (auto simp: list_ex_reports list_all_iff update_where_def [of p])
  ultimately show ?thesis
    unfolding review_inv_def using inv by (simp add: superseded_def distinct_superseding keyed_by_reviewed)
qed


lemma decided_keeps_review:
  assumes "review_inv d" and "decision_target q d"
  shows "review_inv (decided i q d)"
proof -
  define e where "e = superseded (current_approval (ar_account_id q)) (ar_decided_at q) (ar_account_id q) d"
  let ?xs = "legacy_transition_approvals e" and ?rs = "legacy_shadow_reports e" and ?a = "ar_account_id q"
  have inv: "review_inv e" unfolding e_def by (rule superseded_keeps_review [OF assms(1)])
  have none: "\<not> current_approval ?a x" if "x \<in> set ?xs" for x
    using that unfolding e_def superseded_def by (auto simp: update_where_def current_approval_def)
  have target: "list_ex (\<lambda>r. lsr_id r = ar_shadow_report_id q \<and> lsr_account_id r = ?a) ?rs"
    using assms(2) unfolding e_def superseded_def decision_target_def by (auto simp: list_ex_reports list_ex_iff [of _ "legacy_shadow_reports d"])
  have row: "current_approval a (approval_row i q) \<longleftrightarrow> a = ?a" "lta_shadow_report_id (approval_row i q) = ar_shadow_report_id q"
    "lta_decision (approval_row i q) = ar_decision q" "lta_account_id (approval_row i q) = ?a" "lta_superseded_at (approval_row i q) = None" for a
    by (auto simp: approval_row_def current_approval_def)
  have "lsr_review_state (if lsr_id r = ar_shadow_report_id q \<and> lsr_account_id r = ?a
        then r\<lparr>lsr_review_state := decision_review_state (ar_decision q)\<rparr> else r) = Reviewable
      \<longleftrightarrow> approved_by (?xs @ [approval_row i q]) r" if r: "r \<in> set ?rs" for r
  proof -
    from r inv have "lsr_review_state r = Reviewable \<longleftrightarrow> approved_by ?xs r" by (auto simp: review_inv_def list_all_iff)
    then show ?thesis using none by (cases "ar_decision q") (auto simp: approved_by_def row)
  qed
  then have "list_all (\<lambda>r. lsr_review_state r = Reviewable \<longleftrightarrow> approved_by (?xs @ [approval_row i q]) r)
      (update_where (\<lambda>r. lsr_id r = ar_shadow_report_id q \<and> lsr_account_id r = ?a)
        (\<lambda>r. r\<lparr>lsr_review_state := decision_review_state (ar_decision q)\<rparr>) ?rs)"
    by (simp only: list_all_update_where approved_by_if) blast
  moreover have "?a \<notin> lta_account_id ` set (filter (\<lambda>x. lta_superseded_at x = None) ?xs)" using none by (fastforce simp: current_approval_def)
  ultimately show ?thesis
    unfolding review_inv_def decided_def Let_def using inv target
    by (simp add: row e_def [symmetric] keyed_by_reviewed list_ex_reports) (simp add: review_inv_def)
qed

lemma insert_report_None: "insert_report L r digest w = (Inr None, w') \<Longrightarrow> db w' = db w"
  by (auto simp: insert_report_def Let_def sql_Inr split: if_splits)

lemma insert_report_Some:
  "insert_report L r digest w = (Inr (Some i), w') \<Longrightarrow> i \<notin> lsr_id ` set (legacy_shadow_reports (db w)) \<and> stored_report r (db w) = None
     \<and> db w' = (db w)\<lparr>legacy_shadow_reports := legacy_shadow_reports (db w) @ [report_row L i r digest]\<rparr>"
proof -
  have k: "lsr_key (report_row L j r digest) = (sr_account_id r, sr_import_run_id r, sr_snapshot_id r, sr_import_digest r, sr_snapshot_digest r)" for j
    by (simp add: report_row_def lsr_key_def)
  assume "insert_report L r digest w = (Inr (Some i), w')"
  then show ?thesis
    by (auto simp: insert_report_def Let_def sql_Inr k stored_report_def select_one_def find_None_iff image_iff split: if_splits)
qed

lemma persist_report_db:
  assumes "persist_shadow_report L r w = (Inr (i, digest, reused), w')"
  shows "(reused \<and> db w' = db w \<and> (\<exists>x. stored_report r (db w) = Some x \<and> lsr_id x = i \<and> lsr_report_digest x = digest))
    \<or> (\<not> reused \<and> i \<notin> lsr_id ` set (legacy_shadow_reports (db w)) \<and> stored_report r (db w) = None
       \<and> db w' = (db w)\<lparr>legacy_shadow_reports := legacy_shadow_reports (db w) @ [report_row L i r digest]\<rparr>)"
proof -
  from assms obtain o' w1 where o: "insert_report L r digest w = (Inr o', w1)"
    and rest: "(case o' of Some j \<Rightarrow> ret (j, digest, False) | None \<Rightarrow> bind_io (query LegacyDatabase (stored_report r)) (\<lambda>existing.
        case existing of None \<Rightarrow> throw LegacyDatabase
        | Some x \<Rightarrow> if lsr_report_digest x \<noteq> digest then throw LegacyDatabase else ret (lsr_id x, digest, True))) w1 = (Inr (i, digest, reused), w')"
    by (auto simp: persist_shadow_report_def Let_def bind_io_Inr throw_Inr ret_Inr query_Inr split: option.splits if_splits)
  show ?thesis
  proof (cases o')
    case None
    with insert_report_None o have "db w1 = db w" by metis
    with None rest show ?thesis by (auto simp: io_run split: option.splits if_splits)
  next
    case (Some j)
    with rest have "j = i" "\<not> reused" "db w' = db w1" by (simp_all add: ret_Inr)
    with insert_report_Some [OF o [unfolded Some]] show ?thesis by simp
  qed
qed

lemma shadow_report_Inr:
  assumes "shadow_report_for L a run s w = (Inr out, w')"
  shows "\<exists>w1 w2. db w1 = db w \<and> db w' = db w2 \<and> import_available a run (db w) \<and> authoritative_snapshot a s (db w)
    \<and> build_shadow_report L a run s (shadow_legacy_rows run (db w)) (shadow_official_rows s (db w)) = Inr (so_report out)
    \<and> persist_shadow_report L (so_report out) w1 = (Inr (so_report_id out, so_report_digest out, so_reused out), w2)"
proof -
  from assms obtain w1 x i digest reused w2 where r: "build_shadow_report L a run s (shadow_legacy_rows run (db w)) (shadow_official_rows s (db w)) = Inr x"
    "persist_shadow_report L x w1 = (Inr (i, digest, reused), w2)" "out = \<lparr>so_report_id = i, so_report_digest = digest, so_report = x, so_reused = reused\<rparr>"
    and w: "w1 = advance (advance (advance (advance ((advance w)\<lparr>txn_at := Some (clock (sched w) (tick w))\<rparr>))))" "db w' = db w2"
    and g: "import_available a run (db w)" "authoritative_snapshot a s (db w)"
    by (auto simp: shadow_report_for_def shadow_report_body_def load_shadow_rows_def require_snapshot_Inr io_run split: if_splits prod.splits)
  from r w g show ?thesis by (intro exI [of _ w1] exI [of _ w2]) simp
qed

lemma shadow_report_keeps_review:
  assumes "review_inv (db w)" and "shadow_report_for L a run s w = (r, w')"
  shows "review_inv (db w')"
proof (cases r)
  case (Inl e)
  with assms show ?thesis using transaction_Inl_db by (metis shadow_report_for_def)
next
  case (Inr out)
  from shadow_report_Inr [OF assms(2) [unfolded Inr]] obtain w1 w2 where w: "db w1 = db w" "db w' = db w2"
    and p: "persist_shadow_report L (so_report out) w1 = (Inr (so_report_id out, so_report_digest out, so_reused out), w2)" by metis
  let ?new = "report_row L (so_report_id out) (so_report out) (so_report_digest out)"
  consider "db w' = db w" | "so_report_id out \<notin> lsr_id ` set (legacy_shadow_reports (db w))"
      "db w' = (db w)\<lparr>legacy_shadow_reports := legacy_shadow_reports (db w) @ [?new]\<rparr>"
    using persist_report_db [OF p] w by auto
  then show ?thesis
  proof cases
    case 2
    have new: "lsr_id ?new = so_report_id out" "lsr_review_state ?new = OwnerReviewRequired" by (simp_all add: report_row_def)
    have "\<not> approved_by (legacy_transition_approvals (db w)) ?new"
      using 2(1) assms(1) unfolding review_inv_def approved_by_def new by (force simp: list_all_iff list_ex_iff)
    with 2 assms(1) show ?thesis unfolding review_inv_def by (auto simp: new keyed_by_snoc list_all_iff)
  qed (use assms(1) in simp)
qed

lemma approval_transaction_keeps_review:
  assumes "review_inv (db w)" and "transaction LegacyDatabase (approval_body q) w = (r, w')"
  shows "review_inv (db w')"
proof (cases r)
  case (Inl e)
  with assms show ?thesis using transaction_Inl_db by metis
next
  case (Inr out)
  with assms(2) obtain w1 w2 where "approval_body q w1 = (Inr out, w2)" "db w1 = db w" "db w' = db w2" by (auto simp: io_run)
  with approval_body_Inr decided_keeps_review assms(1) show ?thesis by metis
qed

lemma approval_keeps_review:
  assumes "review_inv (db w)" and "record_transition_approval L q w = (r, w')"
  shows "review_inv (db w')"
proof -
  have c: "review_inv (db w1)" if "checklist_for L (ar_account_id q) (ar_shadow_report_id q) w = (x, w1)" for x w1
    using checklist_for_db [OF that] superseded_keeps_review [OF assms(1), of "stale_approval (ar_account_id q) (ar_shadow_report_id q)"] assms(1)
    by (auto simp: stale_approval_def)
  from assms(2) show ?thesis
    unfolding record_transition_approval_def bind_io_def throw_def
    using c assms(1) by (auto split: if_splits prod.splits sum.splits dest: approval_transaction_keeps_review [rotated])
qed

section \<open>Evidence that can be compared\<close>

definition comparable_item :: "legacy_import_item \<Rightarrow> bool" where
  "comparable_item x \<longleftrightarrow> lit_resolution x \<in> {''identity_conflict'', ''unmapped''}
     \<or> lit_resolution x \<in> {''provider_post'', ''canonical_url''} \<and> lit_provider_post_id x \<noteq> None"

definition comparable_kept :: "archive \<Rightarrow> archive \<Rightarrow> bool" where
  "comparable_kept d d' \<longleftrightarrow> (list_all comparable_item (legacy_import_items d) \<longrightarrow> list_all comparable_item (legacy_import_items d'))"

interpretation comparing: frame comparable_kept
  by unfold_locales (auto simp: comparable_kept_def)

lemma import_item_comparable:
  "resolve_record_identity r = (resolution, resolved, conflicting) \<Longrightarrow> comparable_item (import_item L run r resolution resolved conflicting post)"
  by (auto simp: resolve_record_identity_def comparable_item_def import_item_def split: option.splits if_splits) metis

lemma import_record_comparable: "within comparable_kept (import_record L run r counts)"
proof -
  obtain resolution resolved conflicting where id: "resolve_record_identity r = (resolution, resolved, conflicting)" by (metis prod_cases3)
  have item: "within comparable_kept (insert_item (import_item L run r resolution resolved conflicting post))" for post
    unfolding insert_item_def
    by (rule comparing.within_sql)
      (auto simp: comparable_kept_def insert_unique_Some import_item_comparable [OF id] split: if_splits)
  have "within comparable_kept (insert_imported_post i r)" "within comparable_kept (refresh_imported_post j r)" for i j
    unfolding insert_imported_post_def refresh_imported_post_def
    by (rule comparing.within_sql comparing.within_exec; auto simp: comparable_kept_def split: if_splits)+
  then show ?thesis
    unfolding import_record_def id upsert_imported_post_def import_post_def prod.case
    by (intro comparing.within_intros item)
qed

lemma import_comparable: "within comparable_kept (import_batch L (current_provider_user_id I) batch approval)"
proof -
  have "within comparable_kept (current_provider_user_id I a)" for a
    using official_identity.reads_only [of I a] by (simp add: within_def comparing.frame_refl)
  moreover have "within comparable_kept (insert_import_run q kind version digest)" "within comparable_kept (complete_import run counts)" for q kind version digest run counts
    unfolding insert_import_run_def complete_import_def
    by (intro comparing.within_intros comparing.within_sql; auto simp: comparable_kept_def split: if_splits)+
  ultimately show ?thesis
    unfolding import_batch_def persist_import_def import_in_transaction_def validate_locked_import_account_def persist_import_records_def
    by (intro comparing.within_intros import_record_comparable)
qed

definition comparable_row :: "shadow_legacy_row \<Rightarrow> bool" where
  "comparable_row row \<longleftrightarrow> sl_resolution row \<in> {''identity_conflict'', ''unmapped''}
     \<or> sl_resolution row \<in> {''provider_post'', ''canonical_url''} \<and> sl_provider_post_id row \<noteq> None"

lemma classify_comparable: "list_all comparable_row rows \<Longrightarrow> \<exists>x. classify_loop L off rows matched entries = Inr x"
proof (induction rows arbitrary: matched entries)
  case (Cons row rows)
  then have "\<exists>p. classify_row L off row = Inr p" by (auto simp: comparable_row_def classify_row_def split: option.splits)
  with Cons show ?case by (auto split: prod.splits)
qed simp

lemma comparable_report:
  assumes "list_all comparable_item (legacy_import_items d)"
  shows "\<exists>report. build_shadow_report L a run s (shadow_legacy_rows run d) off = Inr report"
proof -
  have "list_all comparable_row (shadow_legacy_rows run d)"
    using assms by (auto simp: shadow_legacy_rows_def list_all_iff comparable_row_def comparable_item_def)
  from classify_comparable [OF this] show ?thesis
    by (auto simp: build_shadow_report_def classify_shadow_entries_def Let_def bind_result_def split: sum.splits) (metis sum.distinct(1) surj_pair)
qed

section \<open>The transition as a whole\<close>

text \<open>
  Imports, reports, checklists and decisions in any order, and between them whatever the rest of the program does: it never writes the four tables. A decision is
  two transactions, the checklist it is checked against and the one that records it; the second is a step of its own as well, so that other calls may come between the two.
\<close>

inductive transition_step :: "legacy_library \<Rightarrow> archive world \<Rightarrow> archive world \<Rightarrow> bool" for L where
  Import: "import_batch L (current_provider_user_id I) batch approval w = (r, w') \<Longrightarrow> transition_step L w w'"
| Report: "shadow_report_for L a run s w = (r', w') \<Longrightarrow> transition_step L w w'"
| Checklist: "checklist_for L a i w = (c, w') \<Longrightarrow> transition_step L w w'"
| Decision: "record_transition_approval L q w = (x, w') \<Longrightarrow> transition_step L w w'"
| Approval: "transaction LegacyDatabase (approval_body q') w = (y, w') \<Longrightarrow> transition_step L w w'"
| Elsewhere: "legacy_import_runs (db w') = legacy_import_runs (db w) \<Longrightarrow> legacy_import_items (db w') = legacy_import_items (db w) \<Longrightarrow>
    legacy_shadow_reports (db w') = legacy_shadow_reports (db w) \<Longrightarrow> legacy_transition_approvals (db w') = legacy_transition_approvals (db w) \<Longrightarrow>
    transition_step L w w'"

inductive_cases transition_stepE: "transition_step L w w'"

definition transition_inv :: "archive \<Rightarrow> bool" where
  "transition_inv d \<longleftrightarrow> review_inv d \<and> list_all comparable_item (legacy_import_items d)"

lemma review_inv_tables:
  "legacy_shadow_reports d' = legacy_shadow_reports d \<Longrightarrow> legacy_transition_approvals d' = legacy_transition_approvals d \<Longrightarrow> review_inv d' = review_inv d"
  by (simp add: review_inv_def)

definition review_frame :: "archive \<Rightarrow> archive \<Rightarrow> bool" where
  "review_frame d d' \<longleftrightarrow> d'\<lparr>legacy_shadow_reports := [], legacy_transition_approvals := []\<rparr> = d\<lparr>legacy_shadow_reports := [], legacy_transition_approvals := []\<rparr>"

interpretation reviewing: frame review_frame
  by unfold_locales (auto simp: review_frame_def)

lemma review_items: "legacy_import_items (superseded p t a d) = legacy_import_items d" "legacy_import_items (decided i q d) = legacy_import_items d"
  by (simp_all add: superseded_def decided_def Let_def)

lemma approval_calls_frame:
  "within review_frame (shadow_report_for L a run s)" "within review_frame (checklist_for L a i)" "within review_frame (record_transition_approval L q)"
  "within review_frame (transaction LegacyDatabase (approval_body q))"
proof -
  have reset: "within review_frame (reset_report_reviewability a rs)" for a rs
    unfolding reset_report_reviewability_def by (rule reviewing.within_exec) (simp add: review_frame_def)
  show "within review_frame (shadow_report_for L a run s)"
    unfolding shadow_report_for_def shadow_report_body_def load_shadow_rows_def require_current_authoritative_snapshot_def persist_shadow_report_def insert_report_def Let_def
    by (intro reviewing.within_intros reviewing.within_sql) (auto simp: review_frame_def split: if_splits)
  show c: "within review_frame (checklist_for L a i)" for a i
    unfolding checklist_for_def checklist_body_def require_current_authoritative_snapshot_def supersede_approvals_for_new_report_def
    by (intro reviewing.within_intros reviewing.within_sql reset) (auto simp: review_frame_def)
  have "within review_frame (insert_approval q)" "within review_frame (set_review_state a i s)"
    "within review_frame (exec LegacyDatabase (\<lambda>d. d\<lparr>legacy_transition_approvals := f d\<rparr>))" for a i s f
    unfolding insert_approval_def set_review_state_def
    by (rule reviewing.within_sql reviewing.within_exec; auto simp: review_frame_def split: if_splits)+
  then show t: "within review_frame (transaction LegacyDatabase (approval_body q))"
    unfolding approval_body_def validate_approval_target_def supersede_current_approvals_def require_current_authoritative_snapshot_def
    by (intro reviewing.within_intros reset)
  show "within review_frame (record_transition_approval L q)"
    unfolding record_transition_approval_def by (intro reviewing.within_intros c t)
qed

lemma review_frame_items: "review_frame d d' \<Longrightarrow> legacy_import_items d' = legacy_import_items d"
  by (auto simp: review_frame_def dest: arg_cong [where f = legacy_import_items])

lemmas comparable_calls = approval_calls_frame [THEN withinD, THEN review_frame_items]

lemma transition_inv_step: "transition_step L w w' \<Longrightarrow> transition_inv (db w) \<Longrightarrow> transition_inv (db w')"
proof (erule transition_stepE)
  assume inv: "transition_inv (db w)"
  show "transition_inv (db w')" if "import_batch L (current_provider_user_id I) batch approval w = (r, w')" for I batch approval r
  proof -
    have "import_frame (db w) (db w')" using withinD [OF official_identity.import_batch_frame that] .
    then have "legacy_shadow_reports (db w') = legacy_shadow_reports (db w)" "legacy_transition_approvals (db w') = legacy_transition_approvals (db w)"
      by (auto simp: import_frame_def dest: arg_cong [where f = legacy_shadow_reports] arg_cong [where f = legacy_transition_approvals])
    with inv withinD [OF import_comparable that] review_inv_tables [of "db w'" "db w"] show ?thesis
      by (simp add: transition_inv_def comparable_kept_def)
  qed
  show "transition_inv (db w')" if "shadow_report_for L a run s w = (r, w')" for a run s r
    using inv that by (simp add: transition_inv_def shadow_report_keeps_review [OF _ that] comparable_calls(1) [OF that])
  show "transition_inv (db w')" if "checklist_for L a i w = (c, w')" for a i c
    using inv checklist_for_db [OF that] superseded_keeps_review [of "db w" "stale_approval a i" a]
    by (auto simp: transition_inv_def stale_approval_def review_items)
  show "transition_inv (db w')" if "record_transition_approval L q w = (x, w')" for q x
    using inv that by (simp add: transition_inv_def approval_keeps_review [OF _ that] comparable_calls(3) [OF that])
  show "transition_inv (db w')" if "transaction LegacyDatabase (approval_body q) w = (x, w')" for q x
    using inv that by (simp add: transition_inv_def approval_transaction_keeps_review [OF _ that] comparable_calls(4) [OF that])
qed (use review_inv_tables [of "db w'" "db w"] in \<open>simp add: transition_inv_def\<close>)

lemma transition_inv_reachable: "rtranclp (transition_step L) w w' \<Longrightarrow> transition_inv (db w) \<Longrightarrow> transition_inv (db w')"
  by (induction rule: rtranclp_induct) (simp_all add: transition_inv_step)

section \<open>Claims on the transition\<close>

lemma transition_inv_empty: "legacy_import_items d = [] \<Longrightarrow> legacy_shadow_reports d = [] \<Longrightarrow> legacy_transition_approvals d = [] \<Longrightarrow> transition_inv d"
  by (simp add: transition_inv_def review_inv_def)

text \<open>
  C19. A report is open for cutover exactly while its owner's approval of it is in force. From an archive without transition rows, under any sequence of imports, reports,
  checklists, decisions (also with other calls between a decision's checklist and its record) and other activity, with any failures, an account has at most one decision that is not superseded, and a report is
  reviewable exactly when a decision of its account that is in force approves it. (In force means not superseded: the code supersedes a decision when a checklist of another report
  is rendered or another decision is recorded, but not when the authoritative snapshot changes, which the specification also asks for.)
\<close>

theorem review_follows_decision:
  assumes "rtranclp (transition_step L) w0 w"
    and "legacy_import_items (db w0) = []" and "legacy_shadow_reports (db w0) = []" and "legacy_transition_approvals (db w0) = []"
  shows "distinct (map lta_account_id (filter (\<lambda>x. lta_superseded_at x = None) (legacy_transition_approvals (db w))))
    \<and> (\<forall>r \<in> set (legacy_shadow_reports (db w)). lsr_review_state r = Reviewable \<longleftrightarrow>
        (\<exists>x \<in> set (legacy_transition_approvals (db w)). current_approval (lsr_account_id r) x \<and> lta_shadow_report_id x = lsr_id r \<and> lta_decision x = Approved))"
  using transition_inv_reachable [OF assms(1) transition_inv_empty [OF assms(2-4)]]
  by (simp add: transition_inv_def review_inv_def list_all_iff approved_by_def)

text \<open>
  Imported evidence can always be compared. Under the same conditions the comparison of any import with any official rows produces a report: no row the
  import stores is one the comparison gives up on.
\<close>

theorem imported_evidence_comparable:
  assumes "rtranclp (transition_step L) w0 w"
    and "legacy_import_items (db w0) = []" and "legacy_shadow_reports (db w0) = []" and "legacy_transition_approvals (db w0) = []"
  shows "\<exists>report. build_shadow_report L a run s (shadow_legacy_rows run (db w)) (shadow_official_rows s (db w)) = Inr report"
  using transition_inv_reachable [OF assms(1) transition_inv_empty [OF assms(2-4)]] by (intro comparable_report) (simp add: transition_inv_def)

definition approval_evidence :: "archive \<Rightarrow> transition_approval list" where
  "approval_evidence d = map (\<lambda>x. x\<lparr>lta_superseded_at := None\<rparr>) (legacy_transition_approvals d)"

definition report_evidence :: "archive \<Rightarrow> legacy_shadow_report list" where
  "report_evidence d = map (\<lambda>r. r\<lparr>lsr_review_state := OwnerReviewRequired\<rparr>) (legacy_shadow_reports d)"

lemma superseded_evidence: "approval_evidence (superseded p t a d) = approval_evidence d" "report_evidence (superseded p t a d) = report_evidence d"
  by (simp_all add: approval_evidence_def report_evidence_def superseded_tables update_where_def)

lemma decided_evidence:
  "approval_evidence (decided i q d) = approval_evidence d @ [approval_row i q]" "report_evidence (decided i q d) = report_evidence d"
proof -
  let ?e = "superseded (current_approval (ar_account_id q)) (ar_decided_at q) (ar_account_id q) d"
  have "approval_evidence (decided i q d) = approval_evidence ?e @ [approval_row i q]" "report_evidence (decided i q d) = report_evidence ?e"
    by (simp_all add: decided_def Let_def approval_evidence_def report_evidence_def approval_row_def update_where_def)
  then show "approval_evidence (decided i q d) = approval_evidence d @ [approval_row i q]" "report_evidence (decided i q d) = report_evidence d"
    by (simp_all add: superseded_evidence)
qed

lemma current_after_decision: "filter (current_approval (ar_account_id q)) (legacy_transition_approvals (decided i q d)) = [approval_row i q]"
proof -
  have "filter (current_approval a) (update_where (current_approval a) (\<lambda>x. x\<lparr>lta_superseded_at := Some t\<rparr>) xs) = []" for a t xs
    by (induction xs) (simp_all add: update_where_def current_approval_def)
  moreover have "legacy_transition_approvals (decided i q d) = update_where (current_approval (ar_account_id q))
      (\<lambda>x. x\<lparr>lta_superseded_at := Some (ar_decided_at q)\<rparr>) (legacy_transition_approvals d) @ [approval_row i q]"
    by (simp add: decided_def Let_def superseded_tables)
  moreover have "current_approval (ar_account_id q) (approval_row i q)" by (simp add: current_approval_def approval_row_def)
  ultimately show ?thesis by (simp only: filter_append filter.simps if_True append_Nil)
qed

lemma current_singleton:
  assumes "review_inv d" and "x \<in> set (legacy_transition_approvals d)" and "current_approval a x"
  shows "filter (current_approval a) (legacy_transition_approvals d) = [x]"
proof -
  let ?ys = "filter (\<lambda>x. lta_superseded_at x = None) (legacy_transition_approvals d)"
  have "filter (current_approval a) (legacy_transition_approvals d) = filter (\<lambda>x. lta_account_id x = a) ?ys"
    by (simp add: current_approval_def [abs_def] conj_commute)
  also have "\<dots> = [x]"
    using assms by (intro filter_keyed_one [where key = lta_account_id]) (auto simp: review_inv_def keyed_by_def current_approval_def)
  finally show ?thesis .
qed

lemma decided_reviewable:
  assumes "review_inv d" and "filter (current_approval a) (legacy_transition_approvals d) = [x]" and "r \<in> set (legacy_shadow_reports d)" and "lsr_account_id r = a"
  shows "lsr_review_state r = Reviewable \<longleftrightarrow> lsr_id r = lta_shadow_report_id x \<and> lta_decision x = Approved"
proof -
  have "set (filter (current_approval a) (legacy_transition_approvals d)) = {x}" using assms(2) by simp
  then have "y \<in> set (legacy_transition_approvals d) \<and> current_approval a y \<longleftrightarrow> y = x" for y by auto
  then have "approved_by (legacy_transition_approvals d) r \<longleftrightarrow> lsr_id r = lta_shadow_report_id x \<and> lta_decision x = Approved"
    unfolding approved_by_def assms(4) by metis
  with assms(1,3) show ?thesis by (simp add: review_inv_def list_all_iff)
qed

text \<open>
  C18. A decision counts only for the evidence its owner saw. When a decision is recorded or found again, the account belongs to the named owner, the
  report is the account's, its snapshot is the current authoritative one, and the digest is that of the checklist rendered from the stored report.
  Afterwards it is the account's only decision in force, a report of the account is reviewable exactly when the decision approves it, every
  earlier decision and every report is kept but for its supersession and review state, and nothing else in the archive has changed. (The archive before has consistent reviews: an account has at most one decision in force, and its approval
  is what makes a report reviewable; every archive reached from one without transition rows has.)
\<close>

theorem approval_bound_to_evidence:
  assumes "record_transition_approval L q w = (Inr out, w')" and "review_inv (db w)"
  shows "(\<exists>x \<in> set (accounts (db w)). acc_id x = ar_account_id q \<and> acc_internal_user_id x = ar_internal_owner_id q)
    \<and> (\<exists>report run markdown. report_with_run (ar_account_id q) (ar_shadow_report_id q) (db w) = Some (report, run)
        \<and> authoritative_snapshot (ar_account_id q) (lsr_snapshot_id report) (db w)
        \<and> render_checklist L report run = Inr markdown \<and> ar_checklist_digest q = legacy_sha256 L (as_bytes markdown))
    \<and> (\<exists>x. filter (current_approval (ar_account_id q)) (legacy_transition_approvals (db w')) = [x]
        \<and> lta_id x = ao_approval_id out \<and> lta_key x = request_key q)
    \<and> (\<forall>r \<in> set (legacy_shadow_reports (db w')). lsr_account_id r = ar_account_id q \<longrightarrow>
        (lsr_review_state r = Reviewable \<longleftrightarrow> lsr_id r = ar_shadow_report_id q \<and> ar_decision q = Approved))
    \<and> (\<exists>new. approval_evidence (db w') = approval_evidence (db w) @ new) \<and> report_evidence (db w') = report_evidence (db w)
    \<and> review_frame (db w) (db w')"
proof -
  let ?a = "ar_account_id q"
  from assms(1) obtain c w1 w2 w3 where c: "checklist_for L ?a (ar_shadow_report_id q) w = (Inr c, w1)" "co_checklist_digest c = ar_checklist_digest q"
    and b: "approval_body q w2 = (Inr out, w3)" "db w2 = db w1" "db w' = db w3"
    by (auto simp: record_transition_approval_def io_run split: if_splits)
  from checklist_for_Inr [OF c(1)] obtain report run t where r: "report_with_run ?a (ar_shadow_report_id q) (db w) = Some (report, run)"
    "authoritative_snapshot ?a (lsr_snapshot_id report) (db w)" "render_checklist L report run = Inr (co_markdown c)"
    "co_checklist_digest c = legacy_sha256 L (as_bytes (co_markdown c))" "db w1 = superseded (stale_approval ?a (ar_shadow_report_id q)) t ?a (db w)" by metis
  have inv1: "review_inv (db w1)" unfolding r(5) using assms(2) by (rule superseded_keeps_review) (simp add: stale_approval_def)
  have inv: "review_inv (db w')" by (rule approval_keeps_review [OF assms(2,1)])
  note body = approval_body_Inr [OF b(1), unfolded b(2)]
  have owner: "\<exists>x \<in> set (accounts (db w)). acc_id x = ?a \<and> acc_internal_user_id x = ar_internal_owner_id q"
    using body(1) unfolding decision_target_def r(5) by (simp add: superseded_def)
  obtain x where x: "filter (current_approval ?a) (legacy_transition_approvals (db w')) = [x]" "lta_id x = ao_approval_id out" "lta_key x = request_key q"
    and ev: "\<exists>new. approval_evidence (db w') = approval_evidence (db w) @ new" "report_evidence (db w') = report_evidence (db w)"
  proof (cases "ao_reused out")
    case True
    with body(2) b(3) obtain x where y: "db w' = db w1" "x \<in> set (legacy_transition_approvals (db w1))" "lta_key x = request_key q"
      "lta_superseded_at x = None" "lta_id x = ao_approval_id out" by metis
    then have "current_approval ?a x" by (simp add: current_approval_def lta_key_def request_key_def)
    from that [of x] y current_singleton [OF inv1 y(2) this] show thesis by (simp add: r(5) superseded_evidence)
  next
    case False
    with body(2) b(3) have y: "db w' = decided (ao_approval_id out) q (db w1)" by metis
    show thesis
      by (rule that [of "approval_row (ao_approval_id out) q"])
        (simp_all add: y current_after_decision decided_evidence r(5) superseded_evidence, simp_all add: approval_row_def lta_key_def request_key_def)
  qed
  have k: "lta_shadow_report_id x = ar_shadow_report_id q" "lta_decision x = ar_decision q" using x(3) by (simp_all add: lta_key_def request_key_def)
  have review: "lsr_review_state y = Reviewable \<longleftrightarrow> lsr_id y = ar_shadow_report_id q \<and> ar_decision q = Approved"
    if "y \<in> set (legacy_shadow_reports (db w'))" "lsr_account_id y = ?a" for y
    using decided_reviewable [OF inv x(1) that] by (simp add: k)
  have frame: "review_frame (db w) (db w')" using withinD [OF approval_calls_frame(3) assms(1)] .
  have digest: "ar_checklist_digest q = legacy_sha256 L (as_bytes (co_markdown c))" using r(4) c(2) by simp
  show ?thesis using owner r(1-3) digest x ev review frame by blast
qed

lemma find_snoc: "find p (xs @ [y]) = (case find p xs of Some x \<Rightarrow> Some x | None \<Rightarrow> if p y then Some y else None)"
  by (induction xs) auto

text \<open>
  A report is made once for its evidence. After a comparison has succeeded, comparing the same import with the same snapshot again, on the archive it left, changes
  nothing, and when it succeeds it returns the same report under the same identifier and digest, marked as reused.
\<close>

theorem shadow_report_repeatable:
  assumes "shadow_report_for L a run s w = (Inr out, w')" and "db w1 = db w'" and "shadow_report_for L a run s w1 = (Inr out', w2)"
  shows "db w2 = db w1 \<and> out' = out\<lparr>so_reused := True\<rparr>"
proof -
  from shadow_report_Inr [OF assms(1)] obtain v v' where v: "db v = db w" "db w' = db v'"
    "build_shadow_report L a run s (shadow_legacy_rows run (db w)) (shadow_official_rows s (db w)) = Inr (so_report out)"
    "persist_shadow_report L (so_report out) v = (Inr (so_report_id out, so_report_digest out, so_reused out), v')" by metis
  from shadow_report_Inr [OF assms(3)] obtain u u' where u: "db u = db w1" "db w2 = db u'"
    "build_shadow_report L a run s (shadow_legacy_rows run (db w1)) (shadow_official_rows s (db w1)) = Inr (so_report out')"
    "persist_shadow_report L (so_report out') u = (Inr (so_report_id out', so_report_digest out', so_reused out'), u')" by metis
  have stored: "\<exists>x. stored_report (so_report out) (db w') = Some x \<and> lsr_id x = so_report_id out \<and> lsr_report_digest x = so_report_digest out"
    using persist_report_db [OF v(4)] unfolding v(1,2)
    by (auto simp: stored_report_def select_one_def find_snoc report_row_def lsr_key_def)
  have same: "shadow_legacy_rows run (db w1) = shadow_legacy_rows run (db w)" "shadow_official_rows s (db w1) = shadow_official_rows s (db w)"
    using persist_report_db [OF v(4)] assms(2) v(1,2) by (auto simp: shadow_legacy_rows_def shadow_official_rows_def)
  with v(3) u(3) have rep: "so_report out' = so_report out" by simp
  from persist_report_db [OF u(4)] stored u(1) assms(2) rep have "so_reused out'" "db u' = db u" "so_report_id out' = so_report_id out"
    "so_report_digest out' = so_report_digest out" by auto
  with rep u(1,2) show ?thesis by simp
qed

section \<open>From a report to its checklist\<close>

definition summary_values :: "shadow_summary \<Rightarrow> nat list" where
  "summary_values s = [ssum_matched s, ssum_url_matched s, ssum_legacy_only s, ssum_official_only s, ssum_identity_conflicts s, ssum_unmapped s]"

lemma summary_read_back:
  assumes "list_all (\<lambda>n. n \<le> u64_max) (summary_values s)"
  shows "summary_json sorted_object s = JObj kvs \<Longrightarrow> map_all (report_summary_count kvs) summary_fields = Inr (summary_values s)"
  using assms by (auto simp: summary_json_def sorted_object_def report_summary_count_def btree_of_laws(3) summary_fields_def summary_values_def)

lemma report_row_renders:
  assumes "list_all (\<lambda>n. n \<le> u64_max) (summary_values (sr_summary r))"
  shows "render_checklist L (report_row L i r digest) run = Inr (checklist_markdown L (report_row L i r digest) run (summary_values (sr_summary r)))"
proof -
  obtain kvs where s: "summary_json sorted_object (sr_summary r) = JObj kvs" by (simp add: summary_json_def sorted_object_def)
  have "lsr_report_payload (report_row L i r digest) = report_json L sorted_object r" by (simp add: report_row_def)
  then show ?thesis
    by (simp add: render_checklist_def report_json_def Let_def sorted_object_def [of "_ # _"] btree_of_laws(3) s summary_read_back [OF assms s])
qed

lemma summary_bounded: "list_all (\<lambda>n. n \<le> u64_max) (summary_values (shadow_summary_of entries))"
  by (simp add: summary_values_def shadow_summary_of_def shadow_count_exact)

lemma build_summary: "build_shadow_report L a run s rows off = Inr r \<Longrightarrow> sr_summary r = shadow_summary_of (sr_entries r) \<and> sr_account_id r = a \<and> sr_import_run_id r = run"
  by (auto simp: build_shadow_report_def)

text \<open>
  A checklist prints what the report found. Once a comparison has stored a new report, a checklist for it that succeeds, on an archive with the same report
  and import tables and for a keyed table of reports, is the rendering of that report with its own summary counts, whatever was stored and read back as JSON in between.
\<close>

theorem checklist_prints_report:
  assumes "shadow_report_for L a run s w = (Inr out, w')" and "\<not> so_reused out" and "keyed_by lsr_id (legacy_shadow_reports (db w'))"
    and "legacy_shadow_reports (db w1) = legacy_shadow_reports (db w')"
    and "checklist_for L a (so_report_id out) w1 = (Inr c, w2)"
  shows "\<exists>import. import \<in> set (legacy_import_runs (db w1)) \<and> lir_id import = run \<and>
    co_markdown c = checklist_markdown L (report_row L (so_report_id out) (so_report out) (so_report_digest out)) import (summary_values (sr_summary (so_report out)))"
proof -
  let ?row = "report_row L (so_report_id out) (so_report out) (so_report_digest out)"
  from shadow_report_Inr [OF assms(1)] obtain v v' where v: "db v = db w" "db w' = db v'"
    "build_shadow_report L a run s (shadow_legacy_rows run (db w)) (shadow_official_rows s (db w)) = Inr (so_report out)"
    "persist_shadow_report L (so_report out) v = (Inr (so_report_id out, so_report_digest out, so_reused out), v')" by metis
  from persist_report_db [OF v(4)] assms(2) v(2) have row: "?row \<in> set (legacy_shadow_reports (db w'))" by auto
  have id: "lsr_id ?row = so_report_id out" "lsr_import_run_id ?row = run" using build_summary [OF v(3)] by (simp_all add: report_row_def)
  from checklist_for_Inr [OF assms(5)] obtain report import where c: "report_with_run a (so_report_id out) (db w1) = Some (report, import)"
    "render_checklist L report import = Inr (co_markdown c)" by metis
  from c(1) have m: "report \<in> set (legacy_shadow_reports (db w1))" "lsr_id report = so_report_id out" "import \<in> set (legacy_import_runs (db w1))"
    "lir_id import = lsr_import_run_id report"
    by (auto simp: report_with_run_def split: option.splits dest!: select_one_Some)
  have "report = ?row" using keyed_by_inj [OF assms(3)] m row id assms(4) by auto
  with m c(2) id report_row_renders [of "so_report out"] summary_bounded [of "sr_entries (so_report out)"] build_summary [OF v(3)] show ?thesis by auto
qed

section \<open>A concrete transition\<close>

definition demo_prepared :: archive where
  "demo_prepared = demo_archive\<lparr>posts := [imported_post 90 ''42'' demo_imported],
     legacy_import_runs := [\<lparr>lir_id = 5, lir_account_id = 7, lir_source_kind = ''monolith_csv'', lir_source_version = 1, lir_source_digest = demo_zeros,
       lir_importer_parser_version = 1, lir_ownership_approval_digest = demo_zeros, lir_status = ImportCompleted, lir_inserted_count = 0,
       lir_matched_count = 0, lir_updated_count = 0, lir_conflicted_count = 0, lir_rejected_count = 0, lir_unmapped_count = 0, lir_finished_at = Some 3\<rparr>],
     sync_runs := [\<lparr>run_id = 40, run_account_id = Some 7, run_run_type = RFull, run_state = RunCompleted, run_checkpoint = None, run_pages_fetched = 1,
       run_items_observed = 1, run_added_count = 1, run_retained_count = 0, run_removed_count = 0, run_finished_at = Some 4\<rparr>],
     snapshots := [\<lparr>snap_id = 30, snap_sync_run_id = 40, snap_folder_id = None, snap_complete = True, snap_completed_at = Some 4, snap_page_count = 1\<rparr>],
     snapshot_bookmark_items := [\<lparr>item_snapshot_id = 30, item_post_id = 90, item_observed_at = 4\<rparr>],
     bookmark_snapshot_authority := [\<lparr>auth_account_id = 7, auth_snapshot_id = 30, auth_updated_at = 4\<rparr>]\<rparr>"

definition demo_reporting :: "(legacy_error + shadow_report_outcome) \<times> archive world" where
  "demo_reporting = shadow_report_for demo_hashing 7 5 30 (demo_world demo_prepared)"

definition demo_findings :: shadow_report where
  "demo_findings = \<lparr>sr_report_version = 1, sr_account_id = 7, sr_import_run_id = 5, sr_snapshot_id = 30, sr_import_digest = demo_zeros,
     sr_snapshot_digest = demo_zeros, sr_entries = [official_only ''42''], sr_summary = shadow_summary_of [official_only ''42'']\<rparr>"

lemma demo_rows: "shadow_legacy_rows 5 demo_prepared = []" "shadow_official_rows 30 demo_prepared = [(''42'', lr_text demo_imported)]"
  "import_available 7 5 demo_prepared" "authoritative_snapshot 7 30 demo_prepared" "legacy_shadow_reports demo_prepared = []"
  by (simp_all add: demo_prepared_def demo_archive_def empty_archive_def shadow_legacy_rows_def shadow_official_rows_def imported_post_def
      import_available_def authoritative_snapshot_def)

lemma demo_findings: "build_shadow_report demo_hashing 7 5 30 [] [(''42'', text)] = Inr demo_findings"
  by (simp add: build_shadow_report_def classify_shadow_entries_def btree_of_def demo_findings_def import_digest_of_def snapshot_digest_of_def demo_sha256)

lemma demo_reporting:
  "demo_reporting = (Inr \<lparr>so_report_id = 5000, so_report_digest = demo_zeros, so_report = demo_findings, so_reused = False\<rparr>,
     \<lparr>db = demo_prepared\<lparr>legacy_shadow_reports := [report_row demo_hashing 5000 demo_findings demo_zeros]\<rparr>, tick = 7, sched = demo_schedule, txn_at = None\<rparr>)"
proof -
  have "json_bytes (ll_contracts demo_hashing) j = Some []" for j by (simp add: demo_hashing_def demo_contracts_def)
  moreover have "lsr_import_digest (report_row demo_hashing i demo_findings g) = demo_zeros" "lsr_snapshot_digest (report_row demo_hashing i demo_findings g) = demo_zeros" for i g
    by (simp_all add: report_row_def demo_findings_def)
  ultimately show ?thesis
    by (simp add: demo_reporting_def shadow_report_for_def shadow_report_body_def require_current_authoritative_snapshot_def load_shadow_rows_def
      persist_shadow_report_def insert_report_def Let_def io_defs fault_now_def advance_def demo_world_def demo_schedule_def demo_rows demo_findings
      demo_sha256 demo_zeros_valid)
qed

definition demo_verdict :: approval_request where
  "demo_verdict = \<lparr>ar_account_id = 7, ar_internal_owner_id = 70, ar_shadow_report_id = 5000, ar_checklist_digest = demo_zeros,
     ar_owner_evidence_digest = demo_zeros, ar_decision = Approved, ar_decided_at = 9\<rparr>"

definition demo_decision :: "(legacy_error + approval_outcome) \<times> archive world" where
  "demo_decision = record_transition_approval demo_hashing demo_verdict (snd demo_reporting)"

definition demo_listing :: "(legacy_error + checklist_outcome) \<times> archive world" where
  "demo_listing = checklist_for demo_hashing 7 5000 (snd demo_reporting)"

abbreviation demo_reported :: archive where
  "demo_reported \<equiv> demo_prepared\<lparr>legacy_shadow_reports := [report_row demo_hashing 5000 demo_findings demo_zeros]\<rparr>"

lemma demo_bounded: "list_all (\<lambda>n. n \<le> u64_max) (summary_values (sr_summary demo_findings))"
  by (simp add: demo_findings_def summary_bounded)

lemma demo_row: "lsr_id (report_row demo_hashing i demo_findings g) = i" "lsr_account_id (report_row demo_hashing i demo_findings g) = 7"
  "lsr_import_run_id (report_row demo_hashing i demo_findings g) = 5" "lsr_snapshot_id (report_row demo_hashing i demo_findings g) = 30"
  by (simp_all add: report_row_def demo_findings_def)

lemma demo_reported: "authoritative_snapshot 7 30 demo_reported" "legacy_transition_approvals demo_prepared = []"
  "\<exists>import. report_with_run 7 5000 demo_reported = Some (report_row demo_hashing 5000 demo_findings demo_zeros, import)"
  "select_one (\<lambda>x. acc_id x = 7) (accounts demo_prepared) = Some demo_account"
  by (simp_all add: authoritative_snapshot_def demo_prepared_def demo_archive_def empty_archive_def report_with_run_def select_one_def demo_row demo_account_def)

lemma demo_listing: "\<exists>c. demo_listing = (Inr c, (snd demo_reporting)\<lparr>tick := 12\<rparr>) \<and> co_checklist_digest c = demo_zeros"
proof -
  obtain import where i: "report_with_run 7 5000 demo_reported = Some (report_row demo_hashing 5000 demo_findings demo_zeros, import)"
    using demo_reported(3) by blast
  show ?thesis
    by (simp add: demo_listing_def demo_reporting checklist_for_def checklist_body_def require_current_authoritative_snapshot_def
      supersede_approvals_for_new_report_def io_defs fault_now_def advance_def demo_schedule_def i demo_row demo_reported
      report_row_renders [OF demo_bounded] demo_sha256)
qed

lemma demo_decision: "\<exists>out. fst demo_decision = Inr out"
proof -
  obtain c where c: "checklist_for demo_hashing 7 5000 (snd demo_reporting) = (Inr c, (snd demo_reporting)\<lparr>tick := 12\<rparr>)" "co_checklist_digest c = demo_zeros"
    using demo_listing by (auto simp: demo_listing_def)
  have "select_one (\<lambda>r. lsr_id r = 5000 \<and> lsr_account_id r = 7) [report_row demo_hashing 5000 demo_findings demo_zeros]
      = Some (report_row demo_hashing 5000 demo_findings demo_zeros)" "acc_internal_user_id demo_account = 70"
    by (simp_all add: select_one_def demo_row demo_account_def)
  then show ?thesis
    by (simp add: demo_decision_def record_transition_approval_def demo_verdict_def demo_zeros_valid bind_io_def c)
      (simp add: demo_reporting transaction_def approval_body_def validate_approval_target_def require_current_authoritative_snapshot_def
        supersede_current_approvals_def insert_approval_def set_review_state_def insert_unique_def io_defs fault_now_def advance_def
        demo_schedule_def demo_row demo_reported select_one_def [of _ "[]"])
qed

lemma demo_start: "legacy_import_items (db (demo_world demo_prepared)) = []" "legacy_shadow_reports (db (demo_world demo_prepared)) = []"
  "legacy_transition_approvals (db (demo_world demo_prepared)) = []"
  by (simp_all add: demo_world_def demo_prepared_def demo_archive_def empty_archive_def)

lemma demo_history: "rtranclp (transition_step demo_hashing) (demo_world demo_prepared) (snd demo_decision)"
proof -
  have "transition_step demo_hashing (demo_world demo_prepared) (snd demo_reporting)"
    by (rule transition_step.Report [of _ 7 5 30 _ "fst demo_reporting"]) (simp add: demo_reporting_def)
  moreover have "transition_step demo_hashing (snd demo_reporting) (snd demo_decision)"
    by (rule transition_step.Decision [of _ demo_verdict _ "fst demo_decision"]) (simp add: demo_decision_def)
  ultimately show ?thesis by simp
qed

theorem review_follows_decision_witness:
  "list_all (\<lambda>r. (lsr_review_state r = Reviewable) = approved_by (legacy_transition_approvals (db (snd demo_decision))) r)
     (legacy_shadow_reports (db (snd demo_decision)))"
  using review_follows_decision [OF demo_history demo_start] by (simp add: list_all_iff approved_by_def)

theorem imported_evidence_comparable_witness:
  "\<exists>report. build_shadow_report demo_hashing 7 5 30 (shadow_legacy_rows 5 (db (snd demo_decision))) (shadow_official_rows 30 (db (snd demo_decision))) = Inr report"
  by (rule imported_evidence_comparable [OF demo_history demo_start])

theorem approval_bound_to_evidence_witness:
  "\<exists>x. filter (current_approval 7) (legacy_transition_approvals (db (snd demo_decision))) = [x] \<and> lta_key x = (7, 5000, demo_zeros, demo_zeros, Approved)"
proof -
  obtain out where o: "record_transition_approval demo_hashing demo_verdict (snd demo_reporting) = (Inr out, snd demo_decision)"
    using demo_decision by (metis demo_decision_def prod.collapse)
  have "review_inv (db (snd demo_reporting))"
    by (rule shadow_report_keeps_review [of "demo_world demo_prepared" demo_hashing 7 5 30 "fst demo_reporting"])
      (simp_all add: review_inv_def demo_start demo_reporting_def)
  from approval_bound_to_evidence [OF o this] show ?thesis by (auto simp: demo_verdict_def request_key_def)
qed

theorem shadow_report_repeatable_witness:
  "db (snd (shadow_report_for demo_hashing 7 5 30 (snd demo_reporting))) = db (snd demo_reporting)"
proof -
  have "\<exists>out. fst (shadow_report_for demo_hashing 7 5 30 (snd demo_reporting)) = Inr out"
  proof -
    have "json_bytes (ll_contracts demo_hashing) j = Some []" for j by (simp add: demo_hashing_def demo_contracts_def)
    moreover have "shadow_legacy_rows 5 demo_reported = []" "shadow_official_rows 30 demo_reported = [(''42'', lr_text demo_imported)]" "import_available 7 5 demo_reported"
      using demo_rows by (simp_all add: shadow_legacy_rows_def shadow_official_rows_def import_available_def)
    moreover have "lsr_import_digest (report_row demo_hashing i demo_findings g) = demo_zeros" "lsr_snapshot_digest (report_row demo_hashing i demo_findings g) = demo_zeros"
      "lsr_report_digest (report_row demo_hashing i demo_findings g) = g" "lsr_key (report_row demo_hashing i demo_findings g) = (7, 5, 30, demo_zeros, demo_zeros)"
      "(sr_account_id demo_findings, sr_import_run_id demo_findings, sr_snapshot_id demo_findings, sr_import_digest demo_findings, sr_snapshot_digest demo_findings)
         = (7, 5, 30, demo_zeros, demo_zeros)" for i g
      by (simp_all add: report_row_def demo_findings_def lsr_key_def)
    ultimately show ?thesis
      by (simp add: demo_reporting shadow_report_for_def shadow_report_body_def require_current_authoritative_snapshot_def load_shadow_rows_def
        persist_shadow_report_def insert_report_def Let_def io_defs fault_now_def advance_def demo_schedule_def demo_reported demo_findings
        demo_sha256 demo_zeros_valid stored_report_def select_one_def)
  qed
  then obtain out' where "shadow_report_for demo_hashing 7 5 30 (snd demo_reporting) = (Inr out', snd (shadow_report_for demo_hashing 7 5 30 (snd demo_reporting)))"
    by (metis prod.collapse)
  from shadow_report_repeatable [OF demo_reporting [unfolded demo_reporting_def] _ this] show ?thesis by (simp add: demo_reporting)
qed

theorem checklist_prints_report_witness:
  "\<exists>c import. fst demo_listing = Inr c \<and> co_markdown c = checklist_markdown demo_hashing (report_row demo_hashing 5000 demo_findings demo_zeros) import [0, 0, 0, 1, 0, 0]"
proof -
  obtain c where c: "checklist_for demo_hashing 7 5000 (snd demo_reporting) = (Inr c, snd demo_listing)" using demo_listing by (auto simp: demo_listing_def)
  have n: "summary_values (sr_summary demo_findings) = [0, 0, 0, 1, 0, 0]"
    by (simp add: demo_findings_def summary_values_def shadow_summary_of_def shadow_count_exact u64_max_def)
  have k: "keyed_by lsr_id (legacy_shadow_reports (db (snd demo_reporting)))" by (simp add: demo_reporting keyed_by_def)
  obtain import where "co_markdown c = checklist_markdown demo_hashing (report_row demo_hashing 5000 demo_findings demo_zeros) import [0, 0, 0, 1, 0, 0]"
    using checklist_prints_report [OF demo_reporting [unfolded demo_reporting_def], of "snd demo_reporting" c "snd demo_listing"] c k
    by (auto simp: demo_reporting n)
  moreover have "fst demo_listing = Inr c" using c unfolding demo_listing_def by (metis fst_conv)
  ultimately show ?thesis by blast
qed

end
