(* ===== verification/Spec2Isabelle.thy ===== *)
theory Spec2Isabelle
  imports Incremental Article_Urls Delivery Writeback_Effects Folders_Correct Compliance_Correct Knowledge Provider_Correct Permalinks Capture_Examples Bus_Consumers Legacy_Decisions
begin

text \<open>
  A verification development of ratatoskr-x, the service that archives an X account's bookmarks and
  publishes them as social sources.

  \<^bold>\<open>The program.\<close> The provider's bookmark pages come in through a page source. A budget gate
  (\<^verbatim>\<open>crates/x-budget\<close>, table access in \<^verbatim>\<open>crates/x-persistence/src/budget_windows.rs\<close>) admits every request. A page is
  validated and normalized (\<^verbatim>\<open>crates/x-normalize\<close>), persisted, turned into account-scoped social sources with their
  revisions (\<^verbatim>\<open>crates/x-sync/src/social_sources.rs\<close>), article capture requests (\<^verbatim>\<open>crates/x-sync/src/articles.rs\<close>) and outbox
  events (\<^verbatim>\<open>crates/x-sync/src/envelopes.rs\<close>, \<^verbatim>\<open>crates/x-persistence/src/outbox.rs\<close>). Two services drive this: the full snapshot
  (\<^verbatim>\<open>crates/x-sync/src/lib.rs\<close>), the only one that may conclude that a bookmark was removed, and the incremental scan
  (\<^verbatim>\<open>crates/x-sync/src/incremental.rs\<close>), which only observes. Beside them stand the write-back of bookmarks under recorded consent, the
  snapshots of native folders, the compliance revalidation of published sources, the linkage of analyses, and the OAuth connection of
  an account (\<^verbatim>\<open>crates/x-oauth\<close>), whose sealed credentials the write-back and its provider client use. Posts a user captures in the browser
  arrive as commands on a message stream (\<^verbatim>\<open>crates/x-capture/src/lib.rs\<close>), are resolved by a worker with the application's own credential
  (\<^verbatim>\<open>crates/x-sync/src/public_capture.rs\<close>) and reported to the platform. A relay (\<^verbatim>\<open>crates/x-capture/src/relay.rs\<close>) publishes what every
  component has put into the outbox; two consumers (\<^verbatim>\<open>services/x/src\<close>) take the answers to removals and the reports of the article extractor from the
  event stream. A separate tool imports an earlier archive, compares it with a full snapshot and records the owner's decision on the comparison
  (\<^verbatim>\<open>crates/x-sync/src/legacy_transition\<close>). All state is in one PostgreSQL schema (\<^verbatim>\<open>schema.sql\<close>).

  \<^bold>\<open>The layers.\<close>
  \<^item> \<open>Prelude\<close>: scalar types, the write statements of SQL on keyed tables (insert, insert or ignore, insert or update,
    update where) and their laws; the locale \<open>keyed_upsert\<close> is the contract of an \<^verbatim>\<open>on conflict do update\<close>.
  \<^item> \<open>World\<close>: the environment (a schedule of faults, clock readings and identifiers), the program combinators that stand for
    asynchronous Rust returning \<^verbatim>\<open>Result\<close>, transactions that commit or roll back, inversion rules for successful runs, the
    locale \<open>frame\<close> (what a program leaves alone), programs that never raise an error, programs that keep the schedule.
  \<^item> \<open>Schema\<close>: the rows and tables of \<^verbatim>\<open>schema.sql\<close> that the modelled statements touch.

  \<^bold>\<open>The components.\<close>
  \<^item> \<open>Budget\<close>: \<^verbatim>\<open>charge\<close>, \<^verbatim>\<open>refund\<close>, \<^verbatim>\<open>window_usage\<close> and \<^verbatim>\<open>BudgetGate\<close> with its errors. The cap is an invariant of every
    interleaving of the gates' calls, a refusal changes nothing, grants add up, windows partition time, a refund undoes a grant.
  \<^item> \<open>Normalize\<close>: the provider DTOs, validation in the order of the code, and \<^verbatim>\<open>normalize\<close>. Outcomes are characterised
    completely; a batch is closed (authors, relations and media resolve), sorted, and independent of the order of the page.
  \<^item> \<open>Outbox\<close>: envelopes, enqueuing, publication marks, resends and acknowledgements.
  \<^item> \<open>Articles\<close>: URL selection and normalization, capture requests, extractor reports.
  \<^item> \<open>Social_Sources\<close>: facts, digests, \<^verbatim>\<open>publish_source\<close>. Publishing is idempotent, appends exactly one event per change,
    never touches a tombstoned source; a return to an earlier content fails.
  \<^item> \<open>Persist\<close>: \<^verbatim>\<open>persist_users\<close>, \<^verbatim>\<open>persist_posts\<close>, \<^verbatim>\<open>persist_relations\<close>, \<^verbatim>\<open>persist_media\<close>.
  \<^item> \<open>Snapshot\<close> (model) and \<open>Snapshot_Correct\<close> (theorems): \<^verbatim>\<open>BookmarkSnapshotService\<close>. The abstraction is the set of saved
    posts of an account: completion assigns the staged posts to it, everything short of completion leaves it alone; statistics,
    drift repairs and uncertain writes are exact; interruption and resumption; termination.
  \<^item> \<open>Incremental\<close>: \<^verbatim>\<open>IncrementalScanService\<close>. Scans only add to the saved posts, are bounded by both caps, store the watermark they
    report, and a gap blocks them until a complete snapshot.
  \<^item> \<open>Article_Urls\<close> and \<open>Delivery\<close>: theorems on canonical article addresses, on acknowledgements, resends and extractor reports.
  \<^item> \<open>Writeback\<close> (model): \<^verbatim>\<open>BookmarkWritebackService\<close> (\<^verbatim>\<open>crates/x-sync/src/writeback\<close>): consents, admission, the durable
    operation with its audit trail, dry runs, live execution against a provider that is a parameter. \<open>Writeback_Correct\<close>: the provider is
    reached only by admitted requests; retries. \<open>Writeback_Machine\<close>: an abstract machine on operations and consents, its invariants, and
    the refinement of the service to it under every interleaving. \<open>Writeback_Effects\<close>: request fingerprints, dry runs, projection.
  \<^item> \<open>Membership\<close>: the locale of a membership table that is reconciled with a staged set (upsert what is staged, retire what is not);
    \<open>Folders\<close> (model) and \<open>Folders_Correct\<close>: \<^verbatim>\<open>FolderSnapshotService\<close> (\<^verbatim>\<open>crates/x-sync/src/folders.rs\<close>). A completed folder run refines the
    assignment of the staged posts to the folder, an incomplete one leaves the membership alone, observations are exactly the differences.
  \<^item> \<open>Compliance\<close> (model) and \<open>Compliance_Correct\<close>: \<^verbatim>\<open>ComplianceRevalidationService\<close> (\<^verbatim>\<open>crates/x-sync/src/compliance.rs\<close>). Takedowns are backed
    by a tombstone and a ledger entry; a run is bounded and its summary counts what it stored.
  \<^item> \<open>Knowledge\<close>: \<^verbatim>\<open>KnowledgeAnalysisService\<close> (\<^verbatim>\<open>crates/x-sync/src/knowledge.rs\<close>): completions are linked once, for their owner, to a retained revision.
  \<^item> \<open>Tokens\<close>: UTF-8, the credential payload codec, the sealed envelopes of \<^verbatim>\<open>TokenCipher\<close> with their binding to owner and purpose, granted scopes.
  \<^item> \<open>Token_Client\<close> (model) and \<open>Token_Client_Correct\<close>: the HTTP interface, form encoding, the hand-written scanner of token responses and
    \<^verbatim>\<open>TokenClient\<close>; every flat object a provider prints is read back.
  \<^item> \<open>Oauth\<close> (model): intents, callbacks, credentials, write grants and \<^verbatim>\<open>ConnectionService\<close> (code exchange, refresh, revocation).
    \<open>Oauth_Callbacks\<close>: intents are spent at most once under every history of calls, and an issued one comes back. \<open>Oauth_Connections\<close>: the effects of every
    outcome of a refresh, detection of reused tokens, what a revocation leaves, and the link from a write grant to the gate of the
    write-back service. \<open>Oauth_Examples\<close>: concrete runs of these.
  \<^item> \<open>Provider\<close> (model) and \<open>Provider_Correct\<close>: \<^verbatim>\<open>OfficialBookmarkProvider\<close> (\<^verbatim>\<open>crates/x-sync/src/writeback/provider.rs\<close>), which reads its answer in
    chunks under a size limit; it agrees with a verdict on the whole answer, and it satisfies the contract \<open>reading_provider\<close> the write-back service
    relies on, so that a write that is reported done was confirmed.
  \<^item> \<open>Relay\<close> (model) and \<open>Relay_Correct\<close>: \<^verbatim>\<open>OutboxRelay\<close> and \<^verbatim>\<open>JetStreamPublisher\<close>: batches, back-off, undeliverable rows, resends, health. Rows are
    published unchanged and marked only on an acknowledgement, every stored row has a subject, and an accepting broker drains the table.
  \<^item> \<open>Captures\<close> (model): validation of capture commands, permalinks, the capture transaction, the consumer with its settlements. \<open>Permalinks\<close>: the
    grammar of the links that name a status. \<open>Public_Capture\<close> (model): \<^verbatim>\<open>PublicCaptureWorker\<close> and \<^verbatim>\<open>AppBearerResolver\<close>.
    \<open>Capture_Reports\<close>: a step relation of deliveries, workers and relay passes, and its invariant on terminal reports. \<open>Capture_Lifecycle\<close>: commands
    are applied once, attempts are bounded, sources stay with their owner. \<open>Capture_Examples\<close>: concrete runs, and \<open>AppBearerResolver\<close> as an
    instance of the contract \<open>post_resolution\<close>.
  \<^item> \<open>Bus_Consumers\<close>: \<^verbatim>\<open>deletion_acks.rs\<close> and \<^verbatim>\<open>extractor_reports.rs\<close>. The locale \<open>message_loop\<close> is what the three pull loops of the service share (messages are
    handled in order, each is settled once, failures do not stop the loop); a removal ends only on an answer of Knowledge for its owner.
  \<^item> \<open>Legacy_Sources\<close> (model) and \<open>Legacy_Preflight\<close>: the three legacy sources (a CSV export, a JSON-lines cache, a SQLite index) with their parsers and
    field checks. Every spelling of a CSV table is read back, an admitted batch is within the limits and keyed, no credential-like field passes.
  \<^item> \<open>Legacy_Import\<close> (model) and \<open>Legacy_Import_Correct\<close>: owner approval, the identity of the connected account (locale \<open>identity_source\<close>), the import
    transaction. An import touches only posts that are marked as imported and the import tables, accounts for every record, and is done once per source; a post that X has
    confirmed can be overwritten by a later import.
  \<^item> \<open>Legacy_Shadow\<close> (model), \<open>Legacy_Shadow_Correct\<close> and \<open>Legacy_Decisions\<close>: the comparison, the checklist and the approval. A report says exactly which records and posts are
    on both sides, on one, in conflict, unmapped or changed, and counts them; imported rows can always be compared; a checklist prints what its report found; a decision is bound to owner,
    checklist and authoritative snapshot; over every history of calls a report is reviewable exactly while an approval of it is in force.
  \<^item> this theory: properties that span the snapshot and the scan.

  \<^bold>\<open>How code is translated.\<close> An \<^verbatim>\<open>async fn\<close> over the database is a function from a world to a result and a world. One
  \<^verbatim>\<open>sqlx\<close> call is one \<open>sql\<close> step, which the schedule may make fail; a violated constraint makes it fail too. \<^verbatim>\<open>?\<close> is
  \<open>bind_io\<close>, \<^verbatim>\<open>if let Err\<close> is \<open>attempt\<close>, \<^verbatim>\<open>begin ... commit\<close> is \<open>transaction\<close>. An instant is its number of microseconds. The request counters are
  32-bit words, the stored \<^verbatim>\<open>integer\<close> columns are integers with the range of the column checked where a statement adds to them.
  The page loop of the snapshot takes fuel; the termination theorem of \<open>Snapshot_Correct\<close> shows that one turn more than the budget left in the current
  window is enough and that more fuel changes nothing. The scan loop terminates by the page cap and needs none.
  The endless loops of the services take what they wait for: the relay's the number of pauses, the consumer's the items of the stream.

  \<^bold>\<open>Parameters.\<close> Code outside the repository is an argument: the date library (\<open>chrono\<close>), the shared contract library and
  SHA-256 (\<open>contracts\<close>), the timestamp parser, the provider, the HTTP client, AES-GCM with the encoding of identifiers (\<open>gcm\<close>, laws
  \<open>gcm_laws\<close>), base64 and the source of random bytes, the JSON library,
  the message broker (\<open>rl_publisher\<close>), the report envelopes of the platform contract (\<open>capture_library\<close>, laws \<open>report_laws\<close>), the decoder of
  acknowledgements (\<open>ack_decoder\<close>), the libraries of the legacy sources (\<open>legacy_library\<close>), the SQLite driver (\<open>sqlite_source\<close>), and the file system: a file is what it
  shows at each moment (\<open>source_file\<close>). Hash map iteration order is a parameter too.

  \<^bold>\<open>Not modelled.\<close> Concurrent transactions other than the serialised calls of the budget gates and the
  interleaved statements of write-back executors: the account lock and the
  serializable isolation level are steps without effect. Logging, metrics and \<^verbatim>\<open>Debug\<close> instances. Columns that no
  modelled statement reads. Where a statement returns rows without an order, the model returns them in the order it selected them. Left out because they hold no
  logic of the archive: the HTTP endpoints for health, the loading of configuration from the environment, the building of HTTP clients and of the database pool, start-up
  and shutdown of the processes, and the command line of the transition tool, which parses arguments and calls the modelled operations.
\<close>

section \<open>Snapshots and scans together\<close>

lemma completed_clears_flag:
  "snd (stored_state a (completed_archive a run t fresh rs auds d)) = False"
proof -
  have "select_one (\<lambda>s. inc_account_id s = a) (update_where (\<lambda>s. inc_account_id s = a) f xs)
      = map_option f (select_one (\<lambda>s. inc_account_id s = a) xs)"
    if "\<And>s. inc_account_id (f s) = inc_account_id s" for f and xs :: "incremental_state list"
    using that by (induction xs) (auto simp: select_one_def update_where_def)
  then show ?thesis
    by (auto simp: stored_state_def completed_archive_def Let_def split: option.split)
qed

text \<open>
  A complete snapshot reopens the incremental path. After a gap only a full snapshot is scheduled; once an
  attempt has ended \<^verbatim>\<open>Completed\<close>, the account's flag is clear again, so the scheduler selects an incremental
  scan and starting one is no longer refused for the flag.
\<close>

theorem completed_snapshot_reopens_scans:
  assumes "run_snapshot fuel E a resume w = (Inr (Some (Completed i s)), w1)" and "db w2 = db w1"
    and "scheduled_scan SCHEDULED_BOOKMARK_SCAN_COMMAND a w2 = (Inr k, w3)"
  shows "k = ScanIncremental"
proof -
  from assms(1) obtain run v where "snapshot_loop fuel E a run v = (Inr (Some (Completed i s)), w1)"
    by (auto simp: run_snapshot_def io_run)
  from snapshot_loop_cases [OF this] obtain v2 where
    "complete_run (se_contracts E) a run v2 = (Inr (), w1)" by auto
  from complete_run_Inr [OF this] have "snd (stored_state a (db w2)) = False"
    using completed_clears_flag assms(2) by metis
  with assms(3) show ?thesis
    by (auto simp: scheduled_scan_def load_state_def io_run split: prod.splits)
qed

theorem completed_snapshot_reopens_scans_witness:
  "fst (scheduled_scan SCHEDULED_BOOKMARK_SCAN_COMMAND 7 (snd demo_full_run)) = Inr ScanIncremental"
proof -
  have "sched (snd demo_full_run) = demo_schedule"
    by (simp add: demo_run_eval)
  then have "\<not> fault_now (snd demo_full_run)"
    by (simp add: fault_now_def demo_schedule_def)
  then obtain k w3 where k: "scheduled_scan SCHEDULED_BOOKMARK_SCAN_COMMAND 7 (snd demo_full_run) = (Inr k, w3)"
    by (simp add: scheduled_scan_def load_state_def query_def sql_def bind_io_def ret_def case_prod_beta)
  with completed_snapshot_reopens_scans [OF demo_full_run_ok [unfolded demo_full_run_def] refl, of k w3]
  show ?thesis by (simp add: demo_full_run_def)
qed

end
